(* ===== verification/Prelude.thy ===== *)
theory Prelude
  imports Main "HOL-Library.Char_ord" "HOL-Library.List_Lexorder" "HOL-Library.Word"
begin

text \<open>
  What every component of the model shares: Go strings as byte lists with the functions of
  package \<open>strings\<close> the program calls, Go maps with string keys as association lists kept
  in key order, decimal integers, sorting by a key, and the simp collections of the
  development.

  A Go string is a sequence of bytes, and so is a \<open>string\<close> of Isabelle (a \<open>char\<close> is a byte);
  the order that \<open>HOL-Library.List_Lexorder\<close> gives strings is Go's bytewise order, the one
  \<open>sort.Strings\<close> and \<open><\<close> use. \<open>strings.TrimSpace\<close> is modelled on the ASCII white space.
\<close>

named_theorems go_map \<open>equations of Go maps: lookup after put and delete\<close>
named_theorems go_string \<open>equations of the string functions\<close>
named_theorems sql \<open>what a statement leaves in the rows of a table\<close>

section \<open>Strings\<close>

fun hasPrefix :: "string \<Rightarrow> string \<Rightarrow> bool" where
  "hasPrefix s [] = True"
| "hasPrefix [] (p # ps) = False"
| "hasPrefix (c # s) (p # ps) = (c = p \<and> hasPrefix s ps)"

lemma hasPrefix_iff: "hasPrefix s p \<longleftrightarrow> (\<exists>r. s = p @ r)"
  by (induction s p rule: hasPrefix.induct) auto

lemma hasPrefix_append [simp]: "hasPrefix (p @ s) p"
  by (auto simp: hasPrefix_iff)

definition trimPrefix :: "string \<Rightarrow> string \<Rightarrow> string" where
  "trimPrefix s p = (if hasPrefix s p then drop (length p) s else s)"

lemma trimPrefix_append [simp, go_string]: "trimPrefix (p @ s) p = s"
  by (simp add: trimPrefix_def)

definition hasSuffix :: "string \<Rightarrow> string \<Rightarrow> bool" where
  "hasSuffix s p = hasPrefix (rev s) (rev p)"

text \<open>\<open>strings.Index\<close>: the first position where \<open>sub\<close> occurs, None for Go's -1.\<close>

fun strIndex :: "string \<Rightarrow> string \<Rightarrow> nat option" where
  "strIndex [] sub = (if sub = [] then Some 0 else None)"
| "strIndex (c # s) sub =
     (if hasPrefix (c # s) sub then Some 0 else map_option Suc (strIndex s sub))"

lemma strIndex_Some_drop: "strIndex s sub = Some i \<Longrightarrow> hasPrefix (drop i s) sub \<and> i \<le> length s"
proof (induction s arbitrary: i)
  case Nil
  then show ?case by (auto split: if_splits)
next
  case (Cons c s)
  show ?case
  proof (cases "hasPrefix (c # s) sub")
    case True
    with Cons.prems show ?thesis by auto
  next
    case False
    with Cons.prems obtain j where "strIndex s sub = Some j" "i = Suc j" by auto
    with Cons.IH show ?thesis by auto
  qed
qed

lemma strIndex_append:
  assumes "p \<noteq> []" "hd p \<notin> set u"
  shows "strIndex (u @ p @ v) p = Some (length u)"
  using assms(2)
proof (induction u)
  case Nil
  show ?case using assms(1) by (cases p) (auto simp: hasPrefix_iff)
next
  case (Cons c u)
  then have "\<not> hasPrefix (c # u @ p @ v) p"
    using assms(1) by (cases p) auto
  with Cons show ?case by simp
qed

definition containsStr :: "string \<Rightarrow> string \<Rightarrow> bool" where
  "containsStr s sub = (strIndex s sub \<noteq> None)"

text \<open>\<open>strings.ContainsAny\<close>: some byte of the set occurs.\<close>

definition containsAny :: "string \<Rightarrow> string \<Rightarrow> bool" where
  "containsAny s cs = (\<exists>c \<in> set s. c \<in> set cs)"

text \<open>\<open>strings.Split\<close> at a one-byte separator: never empty, and \<open>strings.Join\<close> undoes it.\<close>

fun splitOn :: "char \<Rightarrow> string \<Rightarrow> string list" where
  "splitOn c [] = [[]]"
| "splitOn c (x # xs) =
     (if x = c then [] # splitOn c xs
      else (case splitOn c xs of [] \<Rightarrow> [[x]] | w # ws \<Rightarrow> (x # w) # ws))"

fun joinWith :: "string \<Rightarrow> string list \<Rightarrow> string" where
  "joinWith sep [] = []"
| "joinWith sep [w] = w"
| "joinWith sep (w # v # ws) = w @ sep @ joinWith sep (v # ws)"

lemma splitOn_nonempty [simp]: "splitOn c s \<noteq> []"
  by (induction s) (auto split: list.splits)

lemma length_splitOn_pos [simp]: "0 < length (splitOn c s)"
  by simp

lemma joinWith_Cons: "ws \<noteq> [] \<Longrightarrow> joinWith sep (w # ws) = w @ sep @ joinWith sep ws"
  by (cases ws) auto

lemma join_split [simp, go_string]: "joinWith [c] (splitOn c s) = s"
proof (induction s)
  case Nil
  then show ?case by simp
next
  case (Cons x s)
  show ?case
  proof (cases "x = c")
    case True
    then show ?thesis using Cons.IH by (simp add: joinWith_Cons)
  next
    case False
    obtain w ws where w: "splitOn c s = w # ws"
      by (cases "splitOn c s") auto
    have "joinWith [c] ((x # w) # ws) = x # joinWith [c] (w # ws)"
      by (cases ws) auto
    with False w Cons.IH show ?thesis by simp
  qed
qed

lemma splitOn_no_sep: "\<forall>w \<in> set (splitOn c s). c \<notin> set w"
  by (induction s) (auto split: list.splits)

lemma splitOn_single: "c \<notin> set s \<Longrightarrow> splitOn c s = [s]"
  by (induction s) auto

lemma splitOn_append: "c \<notin> set w \<Longrightarrow> splitOn c (w @ c # s) = w # splitOn c s"
  by (induction w) auto

lemma split_join:
  "ws \<noteq> [] \<Longrightarrow> (\<forall>w \<in> set ws. c \<notin> set w) \<Longrightarrow> splitOn c (joinWith [c] ws) = ws"
proof (induction ws)
  case Nil
  then show ?case by simp
next
  case (Cons w ws)
  show ?case
  proof (cases "ws = []")
    case True
    with Cons.prems show ?thesis by (simp add: splitOn_single)
  next
    case False
    with Cons show ?thesis by (simp add: joinWith_Cons splitOn_append)
  qed
qed

lemma joinWith_append:
  "us \<noteq> [] \<Longrightarrow> vs \<noteq> [] \<Longrightarrow> joinWith sep (us @ vs) = joinWith sep us @ sep @ joinWith sep vs"
proof (induction us)
  case Nil
  then show ?case by simp
next
  case (Cons u us)
  then show ?case by (cases "us = []") (auto simp: joinWith_Cons)
qed

definition isSpace :: "char \<Rightarrow> bool" where
  "isSpace c = (c \<in> set [CHR '' '', CHR 0x09, CHR 0x0A, CHR 0x0B, CHR 0x0C, CHR 0x0D])"

definition trimSpace :: "string \<Rightarrow> string" where
  "trimSpace s = rev (dropWhile isSpace (rev (dropWhile isSpace s)))"

definition trimRight :: "char \<Rightarrow> string \<Rightarrow> string" where
  "trimRight c s = rev (dropWhile (\<lambda>x. x = c) (rev s))"

lemma trimSpace_Nil [simp]: "trimSpace [] = []"
  by (simp add: trimSpace_def)

lemma trimSpace_id: "s = [] \<or> (\<not> isSpace (hd s) \<and> \<not> isSpace (last s)) \<Longrightarrow> trimSpace s = s"
proof -
  have *: "dropWhile isSpace t = t" if "t \<noteq> []" "\<not> isSpace (hd t)" for t
    using that by (cases t) auto
  assume "s = [] \<or> (\<not> isSpace (hd s) \<and> \<not> isSpace (last s))"
  then show ?thesis
    by (cases "s = []") (auto simp: trimSpace_def * hd_rev)
qed

lemma trimSpace_trim [simp]: "trimSpace (trimSpace s) = trimSpace s"
proof (rule trimSpace_id)
  let ?u = "dropWhile isSpace s" let ?w = "dropWhile isSpace (rev ?u)"
  have t: "trimSpace s = rev ?w" by (simp add: trimSpace_def)
  show "trimSpace s = [] \<or> (\<not> isSpace (hd (trimSpace s)) \<and> \<not> isSpace (last (trimSpace s)))"
  proof (cases "?w = []")
    case True
    with t show ?thesis by simp
  next
    case False
    have "last (trimSpace s) = hd ?w" using False by (simp add: t last_rev)
    then have l: "\<not> isSpace (last (trimSpace s))" using hd_dropWhile[OF False] by simp
    obtain v where "rev ?u = v @ ?w" by (metis takeWhile_dropWhile_id)
    then have "?u = rev ?w @ rev v" by (metis rev_append rev_rev_ident)
    then have "?u = trimSpace s @ rev v" "trimSpace s \<noteq> []" using False t by simp_all
    then have "hd ?u = hd (trimSpace s)" "?u \<noteq> []" by (metis hd_append2, metis append_is_Nil_conv)
    then have "\<not> isSpace (hd (trimSpace s))" using hd_dropWhile by metis
    with l show ?thesis by simp
  qed
qed

definition replaceAll :: "char \<Rightarrow> char \<Rightarrow> string \<Rightarrow> string" where
  "replaceAll a b s = map (\<lambda>c. if c = a then b else c) s"

section \<open>Decimal integers\<close>

definition digitChar :: "nat \<Rightarrow> char" where
  "digitChar d = ''0123456789'' ! d"

definition isDigit :: "char \<Rightarrow> bool" where
  "isDigit c = (CHR ''0'' \<le> c \<and> c \<le> CHR ''9'')"

definition digitVal :: "char \<Rightarrow> int" where
  "digitVal c = of_char c - 48"

function decDigits :: "int \<Rightarrow> string" where
  "decDigits n =
     (if n < 10 then [digitChar (nat n)] else decDigits (n div 10) @ [digitChar (nat (n mod 10))])"
  by pat_completeness auto
termination
  by (relation "measure nat") auto

declare decDigits.simps [simp del]

text \<open>\<open>strconv.Itoa\<close>, which is also how \<open>json.Marshal\<close> prints a Go integer.\<close>

definition itoa :: "int \<Rightarrow> string" where
  "itoa i = (if i < 0 then CHR ''-'' # decDigits (- i) else decDigits i)"

definition decVal :: "string \<Rightarrow> int" where
  "decVal s = foldl (\<lambda>n c. 10 * n + digitVal c) 0 s"

lemma digit_props: "d < 10 \<Longrightarrow> isDigit (digitChar d) \<and> digitVal (digitChar d) = int d"
proof -
  assume "d < 10"
  then have "d = 0 \<or> d = 1 \<or> d = 2 \<or> d = 3 \<or> d = 4 \<or> d = 5 \<or> d = 6 \<or> d = 7 \<or> d = 8 \<or> d = 9"
    by arith
  then show ?thesis
    by (elim disjE) (simp_all add: isDigit_def digitVal_def digitChar_def of_char_def)
qed

lemma digit_props_int:
  "0 \<le> d \<Longrightarrow> d < 10 \<Longrightarrow> isDigit (digitChar (nat d)) \<and> digitVal (digitChar (nat d)) = d"
  using digit_props [of "nat d"] by simp

lemma decDigits_digits: "0 \<le> n \<Longrightarrow> decDigits n \<noteq> [] \<and> list_all isDigit (decDigits n)"
proof (induction n rule: decDigits.induct)
  case (1 n)
  then show ?case
    by (subst (1 2) decDigits.simps) (auto simp: digit_props_int)
qed

lemma decVal_decDigits [simp]: "0 \<le> n \<Longrightarrow> decVal (decDigits n) = n"
proof (induction n rule: decDigits.induct)
  case (1 n)
  show ?case
  proof (cases "n < 10")
    case True
    with "1.prems" show ?thesis
      by (subst decDigits.simps) (simp add: decVal_def digit_props_int)
  next
    case False
    with "1.IH" have "decVal (decDigits (n div 10)) = n div 10" by simp
    with False show ?thesis
      by (subst decDigits.simps) (simp add: decVal_def digit_props_int)
  qed
qed

lemma decDigits_hd_not_sign:
  assumes "0 \<le> n"
  shows "hd (decDigits n) \<noteq> CHR ''-'' \<and> hd (decDigits n) \<noteq> CHR ''+''"
proof -
  have "isDigit (hd (decDigits n))"
    using decDigits_digits [OF assms] by (metis list.set_sel(1) list_all_iff)
  then show ?thesis by (auto simp: isDigit_def)
qed

text \<open>The value of digits after an optional sign, without a bound.\<close>

definition signedVal :: "string \<Rightarrow> int" where
  "signedVal s =
     (case s of [] \<Rightarrow> 0
      | c # ds \<Rightarrow>
          if c = CHR ''-'' then - decVal ds
          else if c = CHR ''+'' then decVal ds else decVal (c # ds))"

text \<open>
  \<open>strconv.Atoi\<close> in base 10: an optional sign and at least one digit, the value within 64
  bits; None is its error.
\<close>

definition inInt64 :: "int \<Rightarrow> bool" where
  "inInt64 i = (- (2 ^ 63) \<le> i \<and> i < 2 ^ 63)"

definition atoi :: "string \<Rightarrow> int option" where
  "atoi s =
     (let body = (if s \<noteq> [] \<and> (hd s = CHR ''-'' \<or> hd s = CHR ''+'') then tl s else s)
      in if body \<noteq> [] \<and> list_all isDigit body \<and> inInt64 (signedVal s) then Some (signedVal s)
         else None)"

lemma itoa_Cons: "0 \<le> i \<Longrightarrow> \<exists>d ds. itoa i = d # ds \<and> d \<noteq> CHR ''-'' \<and> d \<noteq> CHR ''+''"
  using decDigits_digits [of i] decDigits_hd_not_sign [of i]
  by (cases "decDigits i") (auto simp: itoa_def)

lemma signedVal_itoa [simp]: "signedVal (itoa i) = i"
proof (cases "i < 0")
  case True
  then show ?thesis by (simp add: signedVal_def itoa_def)
next
  case False
  then obtain d ds where d: "itoa i = d # ds" "d \<noteq> CHR ''-''" "d \<noteq> CHR ''+''"
    using itoa_Cons [of i] by auto
  with False have "decVal (d # ds) = i"
    by (metis decVal_decDigits itoa_def linorder_not_less)
  with d show ?thesis by (simp add: signedVal_def)
qed

lemma atoi_itoa: "inInt64 i \<Longrightarrow> atoi (itoa i) = Some i"
proof (cases "i < 0")
  case True
  assume "inInt64 i"
  with True show ?thesis
    using decDigits_digits [of "- i"] signedVal_itoa [of i]
    by (simp add: atoi_def itoa_def Let_def)
next
  case False
  assume "inInt64 i"
  with False show ?thesis
    using decDigits_digits [of i] decDigits_hd_not_sign [of i] signedVal_itoa [of i]
    by (simp add: atoi_def itoa_def Let_def)
qed

lemma itoa_inj: "itoa i = itoa j \<Longrightarrow> i = j"
  by (metis signedVal_itoa)

section \<open>Go maps with string keys\<close>

text \<open>
  A \<open>map[string]V\<close> is an association list with strictly increasing keys, so that two maps
  with the same entries are equal and ranging over the sorted keys is ranging over the list.
  \<open>oget\<close>, \<open>oput\<close> and \<open>odel\<close> are the index expression, the assignment and \<open>delete\<close>.
\<close>

type_synonym 'v gomap = "(string \<times> 'v) list"

definition oget :: "string \<Rightarrow> 'v gomap \<Rightarrow> 'v option" where
  "oget k m = map_of m k"

fun oput :: "string \<Rightarrow> 'v \<Rightarrow> 'v gomap \<Rightarrow> 'v gomap" where
  "oput k v [] = [(k, v)]"
| "oput k v ((k', v') # m) =
     (if k < k' then (k, v) # (k', v') # m
      else if k = k' then (k, v) # m
      else (k', v') # oput k v m)"

definition odel :: "string \<Rightarrow> 'v gomap \<Rightarrow> 'v gomap" where
  "odel k m = filter (\<lambda>p. fst p \<noteq> k) m"

definition okeys :: "'v gomap \<Rightarrow> string list" where
  "okeys m = map fst m"

definition omap_ok :: "'v gomap \<Rightarrow> bool" where
  "omap_ok m = (sorted_wrt (<) (map fst m))"

definition omap_of :: "(string \<times> 'v) list \<Rightarrow> 'v gomap" where
  "omap_of kvs = foldl (\<lambda>m p. oput (fst p) (snd p) m) [] kvs"

lemma oget_Nil [simp, go_map]: "oget k [] = None"
  by (simp add: oget_def)

lemma oget_oput [simp, go_map]: "oget k (oput k' v m) = (if k = k' then Some v else oget k m)"
  by (induction k' v m rule: oput.induct) (auto simp: oget_def)

lemma oget_odel [simp, go_map]: "oget k (odel k' m) = (if k = k' then None else oget k m)"
  unfolding oget_def odel_def by (induction m) auto

lemma set_oput_keys: "fst ` set (oput k v m) = insert k (fst ` set m)"
  by (induction k v m rule: oput.induct) auto

lemma omap_ok_Nil [simp, intro]: "omap_ok []"
  by (simp add: omap_ok_def)

lemma omap_ok_oput [intro]: "omap_ok m \<Longrightarrow> omap_ok (oput k v m)"
proof (induction k v m rule: oput.induct)
  case (1 k v)
  then show ?case by (simp add: omap_ok_def)
next
  case (2 k v k' v' m)
  have "fst ` set (oput k v m) = insert k (fst ` set m)" by (rule set_oput_keys)
  with 2 show ?case by (fastforce simp: omap_ok_def simp del: sorted_wrt.simps(2) intro: less_trans
      simp add: sorted_wrt.simps(2))
qed

lemma omap_ok_odel [intro]: "omap_ok m \<Longrightarrow> omap_ok (odel k m)"
  unfolding omap_ok_def odel_def by (simp add: sorted_wrt_map sorted_wrt_filter)

lemma omap_ok_omap_of [simp, intro]: "omap_ok (omap_of kvs)"
proof -
  have "omap_ok m \<Longrightarrow> omap_ok (foldl (\<lambda>m p. oput (fst p) (snd p) m) m kvs)" for m
    by (induction kvs arbitrary: m) auto
  then show ?thesis by (simp add: omap_of_def)
qed

lemma omap_ok_distinct: "omap_ok m \<Longrightarrow> distinct (map fst m)"
  by (simp add: omap_ok_def strict_sorted_iff)

lemma oget_in_set: "omap_ok m \<Longrightarrow> (k, v) \<in> set m \<longleftrightarrow> oget k m = Some v"
  unfolding oget_def by (rule map_of_eq_Some_iff [symmetric, OF omap_ok_distinct])

lemma omap_by_keys: "omap_ok m \<Longrightarrow> m = map (\<lambda>k. (k, the (oget k m))) (map fst m)"
  by (rule sym, simp, rule map_idI) (auto simp: oget_in_set)

lemma omap_keys: "set (map fst m) = {k. oget k m \<noteq> None}"
  by (auto simp: oget_def map_of_eq_None_iff)

lemma oget_ext:
  assumes "omap_ok m" "omap_ok n" "\<And>k. oget k m = oget k n"
  shows "m = n"
proof -
  have "set (map fst n) = set (map fst m)" by (simp only: omap_keys assms(3))
  then have "map fst n = map fst m"
    using assms(1,2) unfolding omap_ok_def by (intro strict_sorted_equal) auto
  then show ?thesis
    using omap_by_keys [OF assms(1)] omap_by_keys [OF assms(2)] assms(3) by simp
qed

lemma set_oput: "omap_ok m \<Longrightarrow> set (oput k v m) = insert (k, v) {p \<in> set m. fst p \<noteq> k}"
  using omap_ok_oput [of m k v] oget_in_set [of "oput k v m"] oget_in_set [of m]
  by (auto split: if_splits)

text \<open>Summing the values of a map after one key changed.\<close>

lemma sum_oput:
  fixes m :: "int gomap"
  assumes "omap_ok m"
  shows "(\<Sum>p\<leftarrow>oput k v m. snd p) = (\<Sum>p\<leftarrow>m. snd p) - (case oget k m of None \<Rightarrow> 0 | Some c \<Rightarrow> c) + v"
  using assms
proof (induction k v m rule: oput.induct)
  case (1 k v)
  then show ?case by simp
next
  case (2 k v k' v' m)
  then have ok: "omap_ok m" by (simp add: omap_ok_def)
  have "oget k m = None" if "k < k' \<or> k = k'"
    using 2(2) that by (force simp: omap_ok_def oget_def map_of_eq_None_iff dest: less_trans)
  then show ?case
    using 2(1) [OF _ _ ok] by (auto simp: oget_def)
qed

section \<open>Sorting by a key\<close>

text \<open>
  \<open>sort.Slice\<close> with a comparison on a key. Where two elements can have equal keys Go leaves
  their order open; the model keeps the order they came in, one of the results Go allows.
\<close>

lemma sorted_wrt_sort_key: "sorted_wrt (\<lambda>x y. f x \<le> f y) (sort_key f xs)"
  by (metis sorted_map sorted_sort_key)

section \<open>The first row a query selects\<close>

lemma find_append: "List.find P (xs @ ys) = (case List.find P xs of None \<Rightarrow> List.find P ys | Some x \<Rightarrow> Some x)"
  by (induction xs) auto

lemma find_snoc: "List.find P (xs @ [x]) = (case List.find P xs of None \<Rightarrow> if P x then Some x else None | Some y \<Rightarrow> Some y)"
  by (simp add: find_append split: option.splits)

lemma find_SomeD: "List.find P xs = Some a \<Longrightarrow> P a \<and> a \<in> set xs"
  by (induction xs) (auto split: if_splits)

lemma find_filter: "List.find p (filter q xs) = List.find (\<lambda>x. q x \<and> p x) xs"
  by (induction xs) auto

section \<open>Machine integers\<close>

text \<open>Go's \<open>int64\<close> is a signed 64-bit word: addition wraps.\<close>

type_synonym int64 = "64 word"

definition int64_of :: "int \<Rightarrow> int64" where
  "int64_of i = word_of_int i"

lemma sint_int64_of: "inInt64 i \<Longrightarrow> sint (int64_of i) = i"
  unfolding int64_of_def inInt64_def by (simp add: signed_of_int signed_take_bit_int_eq_self)

lemma inInt64_sint: "inInt64 (sint (w :: int64))"
  unfolding inInt64_def using sint_ge [of w] sint_lt [of w] by simp

text \<open>Rewriting only elements a predicate leaves out does not show in what it keeps.\<close>

lemma filter_map_selected:
  "(\<And>x. x \<in> set xs \<Longrightarrow> p x \<Longrightarrow> \<not> q x \<and> \<not> q (f x)) \<Longrightarrow> filter q (map (\<lambda>x. if p x then f x else x) xs) = filter q xs"
  by (induction xs) auto

end
