(* ===== verification/Json.thy ===== *)
theory Json
  imports Complex_Main Prelude
begin

text \<open>
  JSON documents as package \<open>encoding/json\<close> presents them to the program. A value keeps what a
  \<open>json.RawMessage\<close> keeps: numbers stay the literal they were written as, objects stay the
  list of their members in document order. Strings are the decoded bytes. White space between
  tokens carries no meaning for any caller and is left out.

  Decoding into a Go type is one function per target type: \<open>decodeMap\<close> for
  \<open>map[string]json.RawMessage\<close> (the last of two members with one key wins), \<open>structField\<close>
  for a field of a struct (member names match a field regardless of ASCII case, the last match
  wins), \<open>decodeStr\<close>, \<open>decodeInt64\<close>, \<open>decodeInt\<close>, \<open>decodeBool\<close>, \<open>decodeList\<close> for the
  scalars and slices. A literal \<open>null\<close> leaves a Go value at its zero value, except that a
  \<open>RawMessage\<close> receives it as the four bytes it is. \<open>decodeF64\<close> is the conversion of a
  number literal to float64, round to nearest even, with its failure on overflow.
\<close>

datatype json =
    JNull
  | JBool bool
  | JNum string
  | JStr string
  | JArr "json list"
  | JObj "(string \<times> json) list"

text \<open>The bytes a caller hands over: a JSON document, or something that is not one.\<close>

datatype rawdoc = Doc json | Junk string

section \<open>Objects\<close>

text \<open>A Go map that may be nil: reading it is reading an empty map, writing to it panics.\<close>

type_synonym nilmap = "json gomap option"

definition nget :: "string \<Rightarrow> nilmap \<Rightarrow> json option" where
  "nget k m = (case m of None \<Rightarrow> None | Some kvs \<Rightarrow> oget k kvs)"

lemma nget_simps [simp, go_map]: "nget k None = None" "nget k (Some m) = oget k m"
  by (simp_all add: nget_def)

fun decodeMap :: "json \<Rightarrow> nilmap option" where
  "decodeMap (JObj kvs) = Some (Some (omap_of kvs))"
| "decodeMap JNull = Some None"
| "decodeMap _ = None"

fun decodeList :: "json \<Rightarrow> json list option" where
  "decodeList (JArr vs) = Some vs"
| "decodeList JNull = Some []"
| "decodeList _ = None"

definition encodeMap :: "nilmap \<Rightarrow> json" where
  "encodeMap m = (case m of None \<Rightarrow> JNull | Some kvs \<Rightarrow> JObj kvs)"

lemma omap_of_snoc: "omap_of (xs @ [(k, v)]) = oput k v (omap_of xs)"
  by (simp add: omap_of_def)

lemma oput_append_gt:
  "(\<forall>p \<in> set xs. fst p < k) \<Longrightarrow> oput k v xs = xs @ [(k, v)]"
  by (induction xs) (auto simp: less_le_not_le)

lemma omap_of_ok: "omap_ok m \<Longrightarrow> omap_of m = m"
proof (induction m rule: rev_induct)
  case Nil
  then show ?case by (simp add: omap_of_def)
next
  case (snoc p m)
  then have "omap_ok m" "\<forall>q \<in> set m. fst q < fst p"
    by (auto simp: omap_ok_def sorted_wrt_append)
  with snoc.IH show ?case
    by (cases p) (simp add: omap_of_snoc oput_append_gt)
qed

text \<open>Marshalling a map and decoding it again gives the map.\<close>

lemma decode_encodeMap: "(case m of None \<Rightarrow> True | Some kvs \<Rightarrow> omap_ok kvs) \<Longrightarrow> decodeMap (encodeMap m) = Some m"
  by (auto simp: encodeMap_def omap_of_ok split: option.splits)

lemma decodeMap_ok: "decodeMap j = Some (Some m) \<Longrightarrow> omap_ok m"
  by (cases j) auto

section \<open>Struct fields\<close>

text \<open>Lower case of an ASCII letter: bit 5 set.\<close>

fun lowerChar :: "char \<Rightarrow> char" where
  "lowerChar (Char b0 b1 b2 b3 b4 b5 b6 b7) =
     (if CHR ''A'' \<le> Char b0 b1 b2 b3 b4 b5 b6 b7 \<and> Char b0 b1 b2 b3 b4 b5 b6 b7 \<le> CHR ''Z''
      then Char b0 b1 b2 b3 b4 True b6 b7 else Char b0 b1 b2 b3 b4 b5 b6 b7)"

definition foldEq :: "string \<Rightarrow> string \<Rightarrow> bool" where
  "foldEq a b = (map lowerChar a = map lowerChar b)"

definition structField :: "string \<Rightarrow> (string \<times> json) list \<Rightarrow> json option" where
  "structField name kvs = map_option snd (find (\<lambda>p. foldEq (fst p) name) (rev kvs))"

text \<open>A struct decodes from an object, or from null as its zero value.\<close>

fun structMembers :: "json \<Rightarrow> (string \<times> json) list option" where
  "structMembers (JObj kvs) = Some kvs"
| "structMembers JNull = Some []"
| "structMembers _ = None"

section \<open>Scalars\<close>

fun decodeStr :: "json \<Rightarrow> string option" where
  "decodeStr (JStr s) = Some s"
| "decodeStr JNull = Some []"
| "decodeStr _ = None"

fun decodeBool :: "json \<Rightarrow> bool option" where
  "decodeBool (JBool b) = Some b"
| "decodeBool JNull = Some False"
| "decodeBool _ = None"

text \<open>An integer target takes a literal with neither fraction nor exponent, within 64 bits.\<close>

fun decodeInt64 :: "json \<Rightarrow> int option" where
  "decodeInt64 (JNum lit) = atoi lit"
| "decodeInt64 JNull = Some 0"
| "decodeInt64 _ = None"

text \<open>An absent field is the zero value of its type.\<close>

definition fieldOr :: "'a \<Rightarrow> (json \<Rightarrow> 'a option) \<Rightarrow> string \<Rightarrow> (string \<times> json) list \<Rightarrow> 'a option" where
  "fieldOr d dec name kvs = (case structField name kvs of None \<Rightarrow> Some d | Some j \<Rightarrow> dec j)"

fun decodeAll :: "('j \<Rightarrow> 'a option) \<Rightarrow> 'j list \<Rightarrow> 'a list option" where
  "decodeAll dec [] = Some []"
| "decodeAll dec (j # js) =
     (case dec j of None \<Rightarrow> None
      | Some a \<Rightarrow> (case decodeAll dec js of None \<Rightarrow> None | Some as \<Rightarrow> Some (a # as)))"

lemma decodeAll_Some_iff: "decodeAll dec js = Some as \<longleftrightarrow> list_all2 (\<lambda>j a. dec j = Some a) js as"
proof (induction js arbitrary: as)
  case Nil
  then show ?case by auto
next
  case (Cons j js)
  show ?case
    by (cases as) (auto simp flip: Cons.IH split: option.splits)
qed

lemma decodeAll_map: "(\<And>x. dec (f x) = Some (g x)) \<Longrightarrow> decodeAll dec (map f xs) = Some (map g xs)"
  by (induction xs) auto

section \<open>Number literals as float64\<close>

text \<open>
  A float64 is its sign bit, mantissa and exponent: \<open>(s, m, e)\<close> is m times 2 to the e, with
  m below 2 to the 53, and either no fewer than 53 bits or the least exponent -1074; zero has
  exponent 0. So two finite floats are the same bits when the triples are equal, and compare
  equal (\<open>==\<close>) when they are the same triple or both zero. A literal is read as its exact
  fraction and rounded to nearest, ties to even.
\<close>

type_synonym f64 = "bool \<times> int \<times> int"

function bitLen :: "int \<Rightarrow> int" where
  "bitLen n = (if n \<le> 0 then 0 else 1 + bitLen (n div 2))"
  by pat_completeness auto
termination
  by (relation "measure nat") auto

declare bitLen.simps [simp del]

definition scaleFrac :: "int \<Rightarrow> int \<Rightarrow> int \<Rightarrow> int \<times> int" where
  "scaleFrac a b e = (if 0 \<le> e then (a, b * 2 ^ nat e) else (a * 2 ^ nat (- e), b))"

definition lastPlace :: "int \<Rightarrow> int \<Rightarrow> int" where
  "lastPlace a b =
     (let e = bitLen a - bitLen b - 53; (n, d) = scaleFrac a b e
      in max (- 1074) (if d * 2 ^ 53 \<le> n then e + 1 else e))"

definition divRoundEven :: "int \<Rightarrow> int \<Rightarrow> int" where
  "divRoundEven n d =
     (let q = n div d; r = n mod d
      in if d < 2 * r \<or> (2 * r = d \<and> odd q) then q + 1 else q)"

definition roundFrac :: "int \<Rightarrow> int \<Rightarrow> (int \<times> int) option" where
  "roundFrac a b =
     (if a = 0 then Some (0, 0)
      else (let e = lastPlace a b; (n, d) = scaleFrac a b e; m = divRoundEven n d;
                (m', e') = (if m = 2 ^ 53 then (2 ^ 52, e + 1) else (m, e))
            in if m' = 0 then Some (0, 0) else if 971 < e' then None else Some (m', e')))"

definition litParts :: "string \<Rightarrow> bool \<times> string \<times> string \<times> string" where
  "litParts lit =
     (let neg = (lit \<noteq> [] \<and> hd lit = CHR ''-'');
          body = (if neg then tl lit else lit);
          mant = takeWhile (\<lambda>c. c \<noteq> CHR ''e'' \<and> c \<noteq> CHR ''E'') body;
          ex = drop (Suc (length mant)) body;
          whole = takeWhile (\<lambda>c. c \<noteq> CHR ''.'') mant;
          frac = drop (Suc (length whole)) mant
      in (neg, whole, frac, ex))"

definition decodeF64lit :: "string \<Rightarrow> f64 option" where
  "decodeF64lit lit =
     (let (neg, whole, frac, ex) = litParts lit;
          e = signedVal ex - int (length frac);
          a = decVal (whole @ frac)
      in map_option (Pair neg)
           (if 0 \<le> e then roundFrac (a * 10 ^ nat e) 1 else roundFrac a (10 ^ nat (- e))))"

fun decodeF64 :: "json \<Rightarrow> f64 option" where
  "decodeF64 (JNum lit) = decodeF64lit lit"
| "decodeF64 JNull = Some (False, 0, 0)"
| "decodeF64 _ = None"

text \<open>\<open>float64(k)\<close> of a Go int, and the comparison \<open>==\<close> of two floats.\<close>

definition f64_of_int :: "int \<Rightarrow> f64 option" where
  "f64_of_int k = map_option (Pair (k < 0)) (roundFrac \<bar>k\<bar> 1)"

definition f64_eq :: "f64 \<Rightarrow> f64 \<Rightarrow> bool" where
  "f64_eq x y = (x = y \<or> (fst (snd x) = 0 \<and> fst (snd y) = 0))"

definition f64_zero :: "f64 \<Rightarrow> bool" where
  "f64_zero x = (fst (snd x) = 0)"

section \<open>Decoding into an interface value\<close>

text \<open>
  \<open>var v any; json.Unmarshal(raw, &v)\<close>: objects become maps, numbers float64. It fails on a
  number too large for a float64, anywhere in the value.
\<close>

datatype goval =
    GNil
  | GBool bool
  | GNum f64
  | GStr string
  | GArr "goval list"
  | GMap "(string \<times> goval) list"

lemma decodeAll_cong [fundef_cong]:
  assumes "xs = ys" and "\<And>x. x \<in> set ys \<Longrightarrow> f x = g x"
  shows "decodeAll f xs = decodeAll g ys"
proof -
  have "\<forall>x \<in> set zs. f x = g x \<Longrightarrow> decodeAll f zs = decodeAll g zs" for zs
    by (induction zs) (auto split: option.splits)
  with assms show ?thesis by simp
qed

fun decodeAny :: "json \<Rightarrow> goval option" where
  "decodeAny JNull = Some GNil"
| "decodeAny (JBool b) = Some (GBool b)"
| "decodeAny (JNum lit) = map_option GNum (decodeF64lit lit)"
| "decodeAny (JStr s) = Some (GStr s)"
| "decodeAny (JArr vs) = map_option GArr (decodeAll decodeAny vs)"
| "decodeAny (JObj kvs) =
     map_option (\<lambda>gs. GMap (omap_of gs))
       (decodeAll (\<lambda>p. map_option (Pair (fst p)) (decodeAny (snd p))) kvs)"

text \<open>A map of structs: every member is decoded, the last of two with one key stays.\<close>

fun decodeStructMap :: "(json \<Rightarrow> 'a option) \<Rightarrow> json \<Rightarrow> 'a gomap option" where
  "decodeStructMap dec (JObj kvs) =
     map_option omap_of (decodeAll (\<lambda>p. map_option (Pair (fst p)) (dec (snd p))) kvs)"
| "decodeStructMap dec JNull = Some []"
| "decodeStructMap dec _ = None"

lemma decodeStructMap_ok: "decodeStructMap dec j = Some m \<Longrightarrow> omap_ok m"
  by (cases j) auto

end
