(* ===== verification/Analyzer.thy ===== *)
theory Analyzer
  imports Json "HOL-Library.Monad_Syntax" "HOL-Library.Product_Lexorder" "HOL-Library.Multiset"
begin

text \<open>
  \<open>internal/analyzer\<close>: a Terraform state document is decoded, a pre-v4 document is folded
  into the v4 shape, and its resources are counted. The lemmas give the counters as sums over
  the resources, the three breakdowns as sorted, duplicate-free tables that add up to the
  managed count, and the redaction of sensitive outputs.
\<close>

section \<open>The decoded state\<close>

record tfresource =
  r_Module :: string
  r_Mode :: string
  r_Type :: string
  r_Name :: string
  r_Provider :: string
  r_Instances :: "json list"

record v3Resource =
  v3_Type :: string
  v3_Provider :: string
  v3_Primary :: "json option"
  v3_Deposed :: "json list"

record v3Module =
  m_Path :: "string list"
  m_Resources :: "v3Resource gomap"

record tfstate =
  st_Version :: int
  st_TerraformVersion :: string
  st_Serial :: int
  st_Lineage :: string
  st_Resources :: "tfresource list"
  st_Modules :: "v3Module list"

definition decodeResource :: "json \<Rightarrow> tfresource option" where
  "decodeResource j = do {
     kvs \<leftarrow> structMembers j;
     md \<leftarrow> fieldOr [] decodeStr ''module'' kvs;
     mode \<leftarrow> fieldOr [] decodeStr ''mode'' kvs;
     ty \<leftarrow> fieldOr [] decodeStr ''type'' kvs;
     name \<leftarrow> fieldOr [] decodeStr ''name'' kvs;
     provider \<leftarrow> fieldOr [] decodeStr ''provider'' kvs;
     insts \<leftarrow> fieldOr [] decodeList ''instances'' kvs;
     Some \<lparr>r_Module = md, r_Mode = mode, r_Type = ty, r_Name = name,
           r_Provider = provider, r_Instances = insts\<rparr>
   }"

definition decodeV3Resource :: "json \<Rightarrow> v3Resource option" where
  "decodeV3Resource j = do {
     kvs \<leftarrow> structMembers j;
     ty \<leftarrow> fieldOr [] decodeStr ''type'' kvs;
     provider \<leftarrow> fieldOr [] decodeStr ''provider'' kvs;
     deposed \<leftarrow> fieldOr [] decodeList ''deposed'' kvs;
     Some \<lparr>v3_Type = ty, v3_Provider = provider, v3_Primary = structField ''primary'' kvs,
           v3_Deposed = deposed\<rparr>
   }"

definition decodeStrings :: "json \<Rightarrow> string list option" where
  "decodeStrings j = decodeList j \<bind> decodeAll decodeStr"

definition decodeV3Module :: "json \<Rightarrow> v3Module option" where
  "decodeV3Module j = do {
     kvs \<leftarrow> structMembers j;
     path \<leftarrow> fieldOr [] decodeStrings ''path'' kvs;
     rs \<leftarrow> fieldOr [] (decodeStructMap decodeV3Resource) ''resources'' kvs;
     Some \<lparr>m_Path = path, m_Resources = rs\<rparr>
   }"

definition decodeState :: "json \<Rightarrow> tfstate option" where
  "decodeState j = do {
     kvs \<leftarrow> structMembers j;
     version \<leftarrow> fieldOr 0 decodeInt64 ''version'' kvs;
     tv \<leftarrow> fieldOr [] decodeStr ''terraform_version'' kvs;
     serial \<leftarrow> fieldOr 0 decodeInt64 ''serial'' kvs;
     lineage \<leftarrow> fieldOr [] decodeStr ''lineage'' kvs;
     rs \<leftarrow> fieldOr [] (\<lambda>v. decodeList v \<bind> decodeAll decodeResource) ''resources'' kvs;
     ms \<leftarrow> fieldOr [] (\<lambda>v. decodeList v \<bind> decodeAll decodeV3Module) ''modules'' kvs;
     Some \<lparr>st_Version = version, st_TerraformVersion = tv, st_Serial = serial,
           st_Lineage = lineage, st_Resources = rs, st_Modules = ms\<rparr>
   }"

section \<open>Labels\<close>

definition dquote :: string where
  "dquote = [CHR 0x22]"

definition normalizeProvider :: "string \<Rightarrow> string \<Rightarrow> string" where
  "normalizeProvider provider resourceType =
     (let fromType = (case strIndex resourceType ''_'' of
                        Some i \<Rightarrow> if 0 < i then take i resourceType else ''unknown''
                      | None \<Rightarrow> ''unknown'')
      in if provider \<noteq> [] then
           (let ref0 = (case strIndex provider (''['' @ dquote) of
                          None \<Rightarrow> provider
                        | Some i \<Rightarrow> (case strIndex (drop (i + 2) provider) dquote of
                                      None \<Rightarrow> provider
                                    | Some j \<Rightarrow> take j (drop (i + 2) provider)));
                ref = trimPrefix ref0 ''provider.'';
                parts = splitOn (CHR ''/'') ref
            in if 3 \<le> length parts then joinWith ''/'' (drop (length parts - 2) parts)
               else if ref \<noteq> [] then
                 (if containsStr ref ''/'' then ref
                  else (case strIndex ref ''.'' of None \<Rightarrow> ref | Some i \<Rightarrow> take i ref))
               else fromType)
         else fromType)"

definition moduleLabel :: "string \<Rightarrow> string" where
  "moduleLabel m = (if m = [] then ''root'' else m)"

section \<open>Pre-v4 states\<close>

definition legacyModuleField :: "string list \<Rightarrow> string" where
  "legacyModuleField path =
     (if length path \<le> 1 then [] else joinWith ''.'' (map (\<lambda>p. ''module.'' @ p) (tl path)))"

definition legacyTypeFromKey :: "string \<Rightarrow> string" where
  "legacyTypeFromKey key0 =
     (let key = trimPrefix key0 ''data.''
      in (case strIndex key ''.'' of
            Some i \<Rightarrow> if 0 < i then take i key else key
          | None \<Rightarrow> key))"

definition legacyResourceName :: "string \<Rightarrow> string \<Rightarrow> string" where
  "legacyResourceName key rtype = trimPrefix (trimPrefix key ''data.'') (rtype @ ''.'')"

definition legacyInstances :: "v3Resource \<Rightarrow> json list" where
  "legacyInstances rv =
     (case v3_Primary rv of
        None \<Rightarrow> []
      | Some p \<Rightarrow> if p = JNull then [] else [p]) @ v3_Deposed rv"

definition legacyResource :: "string \<Rightarrow> string \<times> v3Resource \<Rightarrow> tfresource" where
  "legacyResource md e =
     (let key = fst e; rv = snd e;
          rtype = (if v3_Type rv = [] then legacyTypeFromKey key else v3_Type rv);
          mode = (if hasPrefix key ''data.'' then ''data'' else ''managed'')
      in \<lparr>r_Module = md, r_Mode = mode, r_Type = rtype,
          r_Name = legacyResourceName key rtype, r_Provider = v3_Provider rv,
          r_Instances = legacyInstances rv\<rparr>)"

definition legacyModule :: "v3Module \<Rightarrow> tfresource list" where
  "legacyModule m = map (legacyResource (legacyModuleField (m_Path m))) (m_Resources m)"

definition normalizeLegacy :: "tfstate \<Rightarrow> tfstate" where
  "normalizeLegacy s =
     (if st_Resources s \<noteq> [] \<or> st_Modules s = [] then s
      else s\<lparr>st_Resources := st_Resources s @ concat (map legacyModule (st_Modules s))\<rparr>)"

section \<open>Counting\<close>

record count =
  c_Key :: string
  c_Count :: int

record counters =
  n_Managed :: int
  n_Data :: int
  n_Null :: int
  n_types :: "int gomap"
  n_providers :: "int gomap"
  n_modules :: "int gomap"

definition bump :: "string \<Rightarrow> int \<Rightarrow> int gomap \<Rightarrow> int gomap" where
  "bump k n m = oput k ((case oget k m of None \<Rightarrow> 0 | Some c \<Rightarrow> c) + n) m"

definition isNullType :: "string \<Rightarrow> bool" where
  "isNullType t = (t = ''null_resource'' \<or> t = ''terraform_data'')"

definition countResource :: "counters \<Rightarrow> tfresource \<Rightarrow> counters" where
  "countResource a r =
     (let n = int (length (r_Instances r))
      in if n = 0 then a
         else if r_Mode r = ''data'' then a\<lparr>n_Data := n_Data a + n\<rparr>
         else a\<lparr>n_Managed := n_Managed a + n,
               n_types := bump (r_Type r) n (n_types a),
               n_providers := bump (normalizeProvider (r_Provider r) (r_Type r)) n (n_providers a),
               n_modules := bump (moduleLabel (r_Module r)) n (n_modules a),
               n_Null := (if isNullType (r_Type r) then n_Null a + n else n_Null a)\<rparr>)"

definition noCounts :: counters where
  "noCounts = \<lparr>n_Managed = 0, n_Data = 0, n_Null = 0, n_types = [], n_providers = [], n_modules = []\<rparr>"

definition countAll :: "tfresource list \<Rightarrow> counters" where
  "countAll rs = foldl countResource noCounts rs"

definition sortedCounts :: "int gomap \<Rightarrow> count list" where
  "sortedCounts m =
     map (\<lambda>p. \<lparr>c_Key = fst p, c_Count = snd p\<rparr>) (sort_key (\<lambda>p. (- snd p, fst p)) m)"

record analysis =
  an_TerraformVersion :: string
  an_FormatVersion :: int
  an_Serial :: int
  an_Lineage :: string
  an_TotalResources :: int
  an_ManagedResources :: int
  an_DataSources :: int
  an_NullResources :: int
  an_RUM :: int
  an_ResourceTypes :: "count list"
  an_Providers :: "count list"
  an_Modules :: "count list"

datatype analyzeErr = InvalidStateJSON | NotAState

definition analyzeState :: "tfstate \<Rightarrow> analyzeErr + analysis" where
  "analyzeState s0 =
     (let s = normalizeLegacy s0
      in if st_Version s = 0 \<and> st_Lineage s = [] \<and> st_Resources s = [] then Inl NotAState
         else (let a = countAll (st_Resources s)
               in Inr \<lparr>an_TerraformVersion = st_TerraformVersion s, an_FormatVersion = st_Version s,
                       an_Serial = st_Serial s, an_Lineage = st_Lineage s,
                       an_TotalResources = n_Managed a + n_Data a,
                       an_ManagedResources = n_Managed a, an_DataSources = n_Data a,
                       an_NullResources = n_Null a, an_RUM = n_Managed a - n_Null a,
                       an_ResourceTypes = sortedCounts (n_types a),
                       an_Providers = sortedCounts (n_providers a),
                       an_Modules = sortedCounts (n_modules a)\<rparr>))"

fun unmarshalState :: "rawdoc \<Rightarrow> tfstate option" where
  "unmarshalState (Doc j) = decodeState j"
| "unmarshalState (Junk _) = None"

definition analyze :: "rawdoc \<Rightarrow> analyzeErr + analysis" where
  "analyze raw = (case unmarshalState raw of None \<Rightarrow> Inl InvalidStateJSON | Some s \<Rightarrow> analyzeState s)"

section \<open>The counters are sums over the resources\<close>

definition ninst :: "tfresource \<Rightarrow> int" where
  "ninst r = int (length (r_Instances r))"

definition isManaged :: "tfresource \<Rightarrow> bool" where
  "isManaged r = (r_Mode r \<noteq> ''data'')"

definition tallyStep :: "(tfresource \<Rightarrow> string) \<Rightarrow> int gomap \<Rightarrow> tfresource \<Rightarrow> int gomap" where
  "tallyStep f m r = (if ninst r = 0 \<or> \<not> isManaged r then m else bump (f r) (ninst r) m)"

definition countOf :: "string \<Rightarrow> int gomap \<Rightarrow> int" where
  "countOf k m = (case oget k m of None \<Rightarrow> 0 | Some c \<Rightarrow> c)"

lemmas count_defs = countResource_def ninst_def isManaged_def tallyStep_def Let_def

lemma fold_managed:
  "n_Managed (foldl countResource a rs) = n_Managed a + (\<Sum>r\<leftarrow>filter isManaged rs. ninst r)"
  by (induction rs arbitrary: a) (auto simp: count_defs)

lemma fold_data:
  "n_Data (foldl countResource a rs) = n_Data a + (\<Sum>r\<leftarrow>filter (\<lambda>r. \<not> isManaged r) rs. ninst r)"
  by (induction rs arbitrary: a) (auto simp: count_defs)

lemma fold_null:
  "n_Null (foldl countResource a rs)
   = n_Null a + (\<Sum>r\<leftarrow>filter (\<lambda>r. isManaged r \<and> isNullType (r_Type r)) rs. ninst r)"
  by (induction rs arbitrary: a) (auto simp: count_defs)

lemma fold_types:
  "n_types (foldl countResource a rs) = foldl (tallyStep r_Type) (n_types a) rs"
  by (induction rs arbitrary: a) (auto simp: count_defs)

lemma fold_providers:
  "n_providers (foldl countResource a rs)
   = foldl (tallyStep (\<lambda>r. normalizeProvider (r_Provider r) (r_Type r))) (n_providers a) rs"
  by (induction rs arbitrary: a) (auto simp: count_defs)

lemma fold_modules:
  "n_modules (foldl countResource a rs) = foldl (tallyStep (\<lambda>r. moduleLabel (r_Module r))) (n_modules a) rs"
  by (induction rs arbitrary: a) (auto simp: count_defs)

lemma countOf_bump [simp]: "countOf k (bump k' n m) = countOf k m + (if k = k' then n else 0)"
  by (simp add: countOf_def bump_def)

lemma tally_countOf:
  "countOf k (foldl (tallyStep f) m rs)
   = countOf k m + (\<Sum>r\<leftarrow>filter (\<lambda>r. isManaged r \<and> f r = k) rs. ninst r)"
  by (induction rs arbitrary: m) (auto simp: tallyStep_def)

lemma omap_ok_bump: "omap_ok m \<Longrightarrow> omap_ok (bump k n m)"
  by (auto simp: bump_def)

lemma tally_ok: "omap_ok m \<Longrightarrow> omap_ok (foldl (tallyStep f) m rs)"
  by (induction rs arbitrary: m) (auto simp: tallyStep_def omap_ok_bump)

lemma tally_sum:
  "omap_ok m \<Longrightarrow>
   (\<Sum>p\<leftarrow>foldl (tallyStep f) m rs. snd p)
   = (\<Sum>p\<leftarrow>m. snd p) + (\<Sum>r\<leftarrow>filter isManaged rs. ninst r)"
proof (induction rs arbitrary: m)
  case Nil
  then show ?case by simp
next
  case (Cons r rs)
  have "(\<Sum>p\<leftarrow>tallyStep f m r. snd p) = (\<Sum>p\<leftarrow>m. snd p) + (if isManaged r then ninst r else 0)"
    using Cons.prems by (auto simp: tallyStep_def bump_def sum_oput)
  moreover have "omap_ok (tallyStep f m r)"
    using Cons.prems by (simp add: tallyStep_def omap_ok_bump)
  ultimately show ?case using Cons.IH by simp
qed

section \<open>The breakdown tables\<close>

definition descending :: "count list \<Rightarrow> bool" where
  "descending cs =
     sorted_wrt (\<lambda>x y. c_Count y < c_Count x \<or> (c_Count x = c_Count y \<and> c_Key x < c_Key y)) cs"

lemma sortedCounts_sum: "(\<Sum>c\<leftarrow>sortedCounts m. c_Count c) = (\<Sum>p\<leftarrow>m. snd p)"
proof -
  have "(\<Sum>p\<leftarrow>sort_key (\<lambda>p. (- snd p, fst p)) m. snd p) = (\<Sum>p\<leftarrow>m. snd p)"
    by (simp flip: sum_mset_sum_list)
  then show ?thesis by (simp add: sortedCounts_def comp_def)
qed

lemma sortedCounts_set: "set (sortedCounts m) = (\<lambda>p. \<lparr>c_Key = fst p, c_Count = snd p\<rparr>) ` set m"
  by (simp add: sortedCounts_def)

lemma sortedCounts_keys_distinct: "omap_ok m \<Longrightarrow> distinct (map c_Key (sortedCounts m))"
proof -
  assume "omap_ok m"
  then have "distinct (map fst m)" by (rule omap_ok_distinct)
  then have "distinct (map fst (sort_key (\<lambda>p. (- snd p, fst p)) m))"
    by (simp add: distinct_map)
  then show ?thesis by (simp add: sortedCounts_def comp_def)
qed

lemma sortedCounts_descending: "omap_ok m \<Longrightarrow> descending (sortedCounts m)"
proof -
  let ?k = "\<lambda>p :: string \<times> int. (- snd p, fst p)"
  let ?xs = "sort_key ?k m"
  assume ok: "omap_ok m"
  have "distinct (map c_Key (sortedCounts m))" by (rule sortedCounts_keys_distinct [OF ok])
  then have "distinct (map ?k ?xs)"
    by (auto simp: sortedCounts_def distinct_map inj_on_def comp_def)
  then have "sorted_wrt (<) (map ?k ?xs)" by (simp add: strict_sorted_iff)
  then have "sorted_wrt (\<lambda>p q. ?k p < ?k q) ?xs" by (simp add: sorted_wrt_map)
  then show ?thesis
    by (auto simp: descending_def sortedCounts_def sorted_wrt_map elim!: sorted_wrt_mono_rel [rotated])
qed

lemma sortedCounts_countOf:
  "omap_ok m \<Longrightarrow> c \<in> set (sortedCounts m) \<Longrightarrow> c_Count c = countOf (c_Key c) m"
  by (auto simp: sortedCounts_set countOf_def oget_in_set)

section \<open>What Analyze reports\<close>

lemma analyze_Inr:
  assumes "analyze raw = Inr a" "unmarshalState raw = Some s"
  shows "an_ManagedResources a = n_Managed (countAll (st_Resources (normalizeLegacy s)))"
    and "an_DataSources a = n_Data (countAll (st_Resources (normalizeLegacy s)))"
    and "an_NullResources a = n_Null (countAll (st_Resources (normalizeLegacy s)))"
    and "an_TotalResources a = an_ManagedResources a + an_DataSources a"
    and "an_RUM a = an_ManagedResources a - an_NullResources a"
    and "an_ResourceTypes a = sortedCounts (n_types (countAll (st_Resources (normalizeLegacy s))))"
    and "an_Providers a = sortedCounts (n_providers (countAll (st_Resources (normalizeLegacy s))))"
    and "an_Modules a = sortedCounts (n_modules (countAll (st_Resources (normalizeLegacy s))))"
  using assms by (auto simp: analyze_def analyzeState_def Let_def split: if_splits)

lemma analyze_InrD: "analyze raw = Inr a \<Longrightarrow> \<exists>s. unmarshalState raw = Some s"
  by (auto simp: analyze_def split: option.splits)

lemma sum_split: "(\<Sum>r\<leftarrow>filter P rs. f r) + (\<Sum>r\<leftarrow>filter (\<lambda>r. \<not> P r) rs. f r) = (\<Sum>r\<leftarrow>rs. f r :: int)"
  by (induction rs) auto

lemma sum_ninst_nonneg: "0 \<le> (\<Sum>r\<leftarrow>filter P rs. ninst r)"
  by (induction rs) (auto simp: ninst_def)

lemma sum_null_split:
  "(\<Sum>r\<leftarrow>filter isManaged rs. ninst r) - (\<Sum>r\<leftarrow>filter (\<lambda>r. isManaged r \<and> isNullType (r_Type r)) rs. ninst r)
   = (\<Sum>r\<leftarrow>filter (\<lambda>r. isManaged r \<and> \<not> isNullType (r_Type r)) rs. ninst r)"
  by (induction rs) auto

text \<open>C1: The counts that \<open>Analyze\<close> reports are sums over the resources of the (normalized) state:
  managed and data instances, their total over all resources, and the resources under
  management as the managed instances whose type is neither null_resource nor terraform_data,
  so that RUM is never negative and never above the managed count.\<close>

theorem analyze_counts:
  assumes "analyze raw = Inr a" "unmarshalState raw = Some s"
    and "rs = st_Resources (normalizeLegacy s)"
  shows "an_ManagedResources a = (\<Sum>r\<leftarrow>filter isManaged rs. ninst r)
    \<and> an_DataSources a = (\<Sum>r\<leftarrow>filter (\<lambda>r. \<not> isManaged r) rs. ninst r)
    \<and> an_TotalResources a = (\<Sum>r\<leftarrow>rs. ninst r)
    \<and> an_RUM a = (\<Sum>r\<leftarrow>filter (\<lambda>r. isManaged r \<and> \<not> isNullType (r_Type r)) rs. ninst r)
    \<and> 0 \<le> an_RUM a \<and> an_RUM a \<le> an_ManagedResources a"
  using analyze_Inr [OF assms(1,2)] sum_split [of ninst isManaged rs] sum_null_split [of rs]
    sum_ninst_nonneg [of "\<lambda>r. isManaged r \<and> \<not> isNullType (r_Type r)" rs]
    sum_ninst_nonneg [of "\<lambda>r. isManaged r \<and> isNullType (r_Type r)" rs]
  by (simp add: assms(3) countAll_def noCounts_def fold_managed fold_data fold_null)

definition sampleState :: rawdoc where
  "sampleState = Doc (JObj
     [(''version'', JNum ''4''), (''serial'', JNum ''7''), (''lineage'', JStr ''abc''),
      (''resources'', JArr
        [JObj [(''mode'', JStr ''managed''), (''type'', JStr ''aws_instance''), (''name'', JStr ''web''),
               (''provider'', JStr ''provider.aws''), (''instances'', JArr [JObj [], JObj []])],
         JObj [(''mode'', JStr ''managed''), (''type'', JStr ''null_resource''), (''name'', JStr ''n''),
               (''instances'', JArr [JObj []])],
         JObj [(''mode'', JStr ''data''), (''type'', JStr ''aws_ami''), (''name'', JStr ''ami''),
               (''instances'', JArr [JObj []])]])])"

lemma sampleState_decodes: "\<exists>s a. unmarshalState sampleState = Some s \<and> analyze sampleState = Inr a
    \<and> an_RUM a = 2 \<and> an_TotalResources a = 4"
proof -
  have "case analyze sampleState of Inl e \<Rightarrow> False | Inr a \<Rightarrow> an_RUM a = 2 \<and> an_TotalResources a = 4"
    by code_simp
  then show ?thesis using analyze_InrD by (auto split: sum.splits)
qed

theorem analyze_counts_witness: "\<exists>a. analyze sampleState = Inr a \<and> an_RUM a = 2 \<and> 0 \<le> an_RUM a \<and> an_TotalResources a = 4"
proof -
  obtain s a where h: "unmarshalState sampleState = Some s" "analyze sampleState = Inr a"
      "an_RUM a = 2" "an_TotalResources a = 4"
    using sampleState_decodes by blast
  show ?thesis using h analyze_counts [OF h(2,1) refl] by blast
qed

text \<open>Each of the three breakdowns (by type, provider, module) is strictly ordered by descending
  count and then ascending key, names every key once, gives each key the managed instances
  that carry it, and adds up to the managed count: no instance is lost or counted twice.\<close>

theorem breakdowns_correct:
  assumes "analyze raw = Inr a" "unmarshalState raw = Some s"
    and "rs = st_Resources (normalizeLegacy s)"
    and "(t, f) \<in> {(an_ResourceTypes a, r_Type),
       (an_Providers a, \<lambda>r. normalizeProvider (r_Provider r) (r_Type r)),
       (an_Modules a, \<lambda>r. moduleLabel (r_Module r))}"
  shows "descending t \<and> distinct (map c_Key t) \<and> (\<Sum>c\<leftarrow>t. c_Count c) = an_ManagedResources a
    \<and> (\<forall>c \<in> set t. c_Count c = (\<Sum>r\<leftarrow>filter (\<lambda>r. isManaged r \<and> f r = c_Key c) rs. ninst r))"
proof -
  let ?m = "foldl (tallyStep f) [] rs"
  have t: "t = sortedCounts ?m"
    using assms(4) analyze_Inr(6-8) [OF assms(1,2)]
    by (auto simp: assms(3) countAll_def noCounts_def fold_types fold_providers fold_modules)
  have ok: "omap_ok ?m" by (simp add: tally_ok)
  have "an_ManagedResources a = (\<Sum>r\<leftarrow>filter isManaged rs. ninst r)"
    using analyze_Inr(1) [OF assms(1,2)] by (simp add: assms(3) countAll_def noCounts_def fold_managed)
  then have "(\<Sum>c\<leftarrow>t. c_Count c) = an_ManagedResources a"
    by (simp add: t sortedCounts_sum tally_sum)
  moreover have "\<forall>c \<in> set t. c_Count c = (\<Sum>r\<leftarrow>filter (\<lambda>r. isManaged r \<and> f r = c_Key c) rs. ninst r)"
    using sortedCounts_countOf [OF ok] tally_countOf [of _ f "[]" rs] by (simp add: t countOf_def)
  ultimately show ?thesis
    by (simp add: t sortedCounts_descending [OF ok] sortedCounts_keys_distinct [OF ok])
qed

theorem breakdowns_correct_witness: "\<exists>a. analyze sampleState = Inr a \<and> descending (an_ResourceTypes a)"
proof -
  obtain s a where h: "unmarshalState sampleState = Some s" "analyze sampleState = Inr a"
    using sampleState_decodes by blast
  show ?thesis using h breakdowns_correct [OF h(2,1) refl, of "an_ResourceTypes a" r_Type] by auto
qed

section \<open>Pre-v4 states count every entry once\<close>

lemma sum_concat_map: "(\<Sum>r\<leftarrow>concat (map g ms). f r) = (\<Sum>m\<leftarrow>ms. \<Sum>r\<leftarrow>g m. f r :: int)"
  by (induction ms) auto

lemma sum_filter_if: "(\<Sum>r\<leftarrow>filter P xs. f r) = (\<Sum>r\<leftarrow>xs. if P r then f r else (0::int))"
  by (induction xs) auto

lemma ninst_legacyResource [simp]: "ninst (legacyResource md e) = int (length (legacyInstances (snd e)))"
  by (simp add: ninst_def legacyResource_def Let_def)

lemma isManaged_legacyResource [simp]: "isManaged (legacyResource md e) = (\<not> hasPrefix (fst e) ''data.'')"
  by (simp add: isManaged_def legacyResource_def Let_def)

text \<open>For a pre-v4 state (no top-level resources) the total is the number of primary and deposed
  instances of all entries of all modules, and the managed count is that of the entries whose
  key does not begin with the data prefix: the folding neither drops nor repeats an entry.\<close>

theorem legacy_counts:
  assumes "analyze raw = Inr a" "unmarshalState raw = Some s" "st_Resources s = []"
  shows "an_TotalResources a
      = (\<Sum>m\<leftarrow>st_Modules s. \<Sum>e\<leftarrow>m_Resources m. int (length (legacyInstances (snd e))))
    \<and> an_ManagedResources a
      = (\<Sum>m\<leftarrow>st_Modules s. \<Sum>e\<leftarrow>m_Resources m.
           if \<not> hasPrefix (fst e) ''data.'' then int (length (legacyInstances (snd e))) else 0)"
proof -
  have rs: "st_Resources (normalizeLegacy s) = concat (map legacyModule (st_Modules s))"
    using assms(3) by (auto simp: normalizeLegacy_def)
  show ?thesis
    using analyze_Inr(1,2,4) [OF assms(1,2)]
      sum_split [of ninst isManaged "st_Resources (normalizeLegacy s)"]
    by (simp add: countAll_def noCounts_def fold_managed fold_data)
       (simp add: rs sum_filter_if sum_concat_map legacyModule_def comp_def if_distrib cong: if_cong)
qed

definition sampleV3State :: rawdoc where
  "sampleV3State = Doc (JObj
     [(''version'', JNum ''3''),
      (''modules'', JArr
        [JObj [(''path'', JArr [JStr ''root'', JStr ''vpc'']),
               (''resources'', JObj
                 [(''aws_instance.web'', JObj [(''primary'', JObj []), (''deposed'', JArr [JObj []])]),
                  (''data.aws_ami.u'', JObj [(''primary'', JObj [])])])]])])"

lemma sampleV3State_decodes:
  "\<exists>s a. unmarshalState sampleV3State = Some s \<and> analyze sampleV3State = Inr a
    \<and> st_Resources s = [] \<and> an_TotalResources a = 3"
proof -
  have "case analyze sampleV3State of Inl e \<Rightarrow> False | Inr a \<Rightarrow> an_TotalResources a = 3"
    by code_simp
  moreover have "case unmarshalState sampleV3State of None \<Rightarrow> False | Some s \<Rightarrow> List.null (st_Resources s)"
    by code_simp
  ultimately show ?thesis using analyze_InrD by (fastforce split: sum.splits option.splits)
qed

theorem legacy_counts_witness: "\<exists>s a. unmarshalState sampleV3State = Some s \<and> analyze sampleV3State = Inr a \<and> an_TotalResources a = 3
    \<and> an_TotalResources a = (\<Sum>m\<leftarrow>st_Modules s. \<Sum>e\<leftarrow>m_Resources m. int (length (legacyInstances (snd e))))"
proof -
  obtain s a where h: "unmarshalState sampleV3State = Some s" "analyze sampleV3State = Inr a"
      "st_Resources s = []" "an_TotalResources a = 3"
    using sampleV3State_decodes by blast
  show ?thesis using h legacy_counts [OF h(2,1,3)] by blast
qed

section \<open>Listing resources\<close>

record resourceSummary =
  rs_Module :: string
  rs_Mode :: string
  rs_Type :: string
  rs_Name :: string
  rs_Provider :: string
  rs_Instances :: int
  rs_InstanceKeys :: "goval list"

text \<open>
  An instance decodes into a struct with the one field \<open>index_key\<close>; one that does not decode,
  or whose key is absent or null, is skipped. Go's nil slice and the empty list are one value.
\<close>

definition instanceKey :: "json \<Rightarrow> goval option" where
  "instanceKey inst =
     (case structMembers inst of None \<Rightarrow> None
      | Some kvs \<Rightarrow>
          (case structField ''index_key'' kvs of None \<Rightarrow> None
           | Some v \<Rightarrow> (case decodeAny v of None \<Rightarrow> None | Some GNil \<Rightarrow> None | Some g \<Rightarrow> Some g)))"

definition instanceKeys :: "json list \<Rightarrow> goval list" where
  "instanceKeys insts = List.map_filter instanceKey insts"

definition summarizeResource :: "tfresource \<Rightarrow> resourceSummary" where
  "summarizeResource r =
     \<lparr>rs_Module = moduleLabel (r_Module r), rs_Mode = r_Mode r, rs_Type = r_Type r,
      rs_Name = r_Name r, rs_Provider = normalizeProvider (r_Provider r) (r_Type r),
      rs_Instances = int (length (r_Instances r)), rs_InstanceKeys = instanceKeys (r_Instances r)\<rparr>"

definition listResources :: "rawdoc \<Rightarrow> analyzeErr + resourceSummary list" where
  "listResources raw =
     (case unmarshalState raw of None \<Rightarrow> Inl InvalidStateJSON
      | Some s \<Rightarrow>
          Inr (sort_key (\<lambda>r. (rs_Module r, rs_Type r, rs_Name r))
                 (map summarizeResource (st_Resources (normalizeLegacy s)))))"

lemma listResources_total:
  assumes "listResources raw = Inr out" "analyze raw = Inr a"
  shows "(\<Sum>r\<leftarrow>out. rs_Instances r) = an_TotalResources a"
proof -
  obtain s where s: "unmarshalState raw = Some s"
    using assms(2) by (auto simp: analyze_def split: option.splits)
  let ?rs = "st_Resources (normalizeLegacy s)"
  have "mset out = mset (map summarizeResource ?rs)"
    using assms(1) s by (auto simp: listResources_def)
  then have "(\<Sum>r\<leftarrow>out. rs_Instances r) = (\<Sum>r\<leftarrow>map summarizeResource ?rs. rs_Instances r)"
    by (metis mset_map sum_mset_sum_list)
  also have "\<dots> = (\<Sum>r\<leftarrow>?rs. ninst r)"
    by (simp add: comp_def summarizeResource_def ninst_def)
  finally show ?thesis
    using analyze_Inr(1,2,4) [OF assms(2) s] sum_split [of ninst isManaged ?rs]
    by (simp add: countAll_def noCounts_def fold_managed fold_data)
qed

section \<open>Listing outputs\<close>

record stateOutput =
  o_Value :: "json option"
  o_Type :: "json option"
  o_Sensitive :: bool

record stateOutputs =
  so_Version :: int
  so_Lineage :: string
  so_Outputs :: "stateOutput gomap"
  so_Resources :: "json list"
  so_Modules :: "(string list \<times> stateOutput gomap) list"

record outputSummary =
  os_Name :: string
  os_Type :: string
  os_Sensitive :: bool
  os_Value :: "json option"

definition decodeOutput :: "json \<Rightarrow> stateOutput option" where
  "decodeOutput j = do {
     kvs \<leftarrow> structMembers j;
     sens \<leftarrow> fieldOr False decodeBool ''sensitive'' kvs;
     Some \<lparr>o_Value = structField ''value'' kvs, o_Type = structField ''type'' kvs, o_Sensitive = sens\<rparr>
   }"

definition decodeOutputModule :: "json \<Rightarrow> (string list \<times> stateOutput gomap) option" where
  "decodeOutputModule j = do {
     kvs \<leftarrow> structMembers j;
     path \<leftarrow> fieldOr [] decodeStrings ''path'' kvs;
     outs \<leftarrow> fieldOr [] (decodeStructMap decodeOutput) ''outputs'' kvs;
     Some (path, outs)
   }"

definition decodeOutputs :: "json \<Rightarrow> stateOutputs option" where
  "decodeOutputs j = do {
     kvs \<leftarrow> structMembers j;
     version \<leftarrow> fieldOr 0 decodeInt64 ''version'' kvs;
     lineage \<leftarrow> fieldOr [] decodeStr ''lineage'' kvs;
     outs \<leftarrow> fieldOr [] (decodeStructMap decodeOutput) ''outputs'' kvs;
     rs \<leftarrow> fieldOr [] decodeList ''resources'' kvs;
     ms \<leftarrow> fieldOr [] (\<lambda>v. decodeList v \<bind> decodeAll decodeOutputModule) ''modules'' kvs;
     Some \<lparr>so_Version = version, so_Lineage = lineage, so_Outputs = outs,
           so_Resources = rs, so_Modules = ms\<rparr>
   }"

definition rootModuleOutputs :: "(string list \<times> stateOutput gomap) list \<Rightarrow> stateOutput gomap" where
  "rootModuleOutputs ms =
     (case find (\<lambda>m. fst m = [''root'']) ms of None \<Rightarrow> [] | Some m \<Rightarrow> snd m)"

definition ctyTypeLabel :: "json option \<Rightarrow> string" where
  "ctyTypeLabel t =
     (case t of None \<Rightarrow> []
      | Some j \<Rightarrow>
          (case decodeStr j of Some prim \<Rightarrow> prim
           | None \<Rightarrow>
               (case decodeList j of
                  Some (k # _) \<Rightarrow> (case decodeStr k of Some kind \<Rightarrow> kind | None \<Rightarrow> ''complex'')
                | _ \<Rightarrow> ''complex'')))"

definition summarizeOutput :: "string \<times> stateOutput \<Rightarrow> outputSummary" where
  "summarizeOutput p =
     (let out = snd p
      in \<lparr>os_Name = fst p, os_Type = ctyTypeLabel (o_Type out), os_Sensitive = o_Sensitive out,
          os_Value = (if o_Sensitive out then None else o_Value out)\<rparr>)"

definition listOutputs :: "rawdoc \<Rightarrow> analyzeErr + outputSummary list" where
  "listOutputs raw =
     (case (case raw of Doc j \<Rightarrow> decodeOutputs j | Junk _ \<Rightarrow> None) of
        None \<Rightarrow> Inl InvalidStateJSON
      | Some s \<Rightarrow>
          (let outs = (if so_Outputs s = [] then rootModuleOutputs (so_Modules s) else so_Outputs s)
           in if so_Version s = 0 \<and> so_Lineage s = [] \<and> so_Resources s = [] \<and> outs = []
              then Inl NotAState
              else Inr (sort_key os_Name (map summarizeOutput outs))))"

section \<open>Redaction\<close>

text \<open>The document with the value member of every sensitive output replaced.\<close>

definition redactWith :: "json \<Rightarrow> stateOutput \<Rightarrow> stateOutput" where
  "redactWith v out = (if o_Sensitive out then out\<lparr>o_Value := Some v\<rparr> else out)"

lemma summarizeOutput_redact: "summarizeOutput (k, redactWith v out) = summarizeOutput (k, out)"
  by (simp add: summarizeOutput_def redactWith_def Let_def)

text \<open>No summary that \<open>ListOutputs\<close> returns for a sensitive output carries a value, every output
  of the state is listed once and the list is in order of name.\<close>

theorem outputs_redacted:
  assumes "listOutputs raw = Inr outs"
  shows "(\<forall>p \<in> set outs. os_Sensitive p \<longrightarrow> os_Value p = None)
    \<and> sorted (map os_Name outs)
    \<and> (\<exists>src. mset outs = mset (map summarizeOutput src))"
proof -
  obtain src where src: "outs = sort_key os_Name (map summarizeOutput src)"
    using assms by (auto simp: listOutputs_def Let_def split: option.splits if_splits)
  have "\<forall>p \<in> set outs. os_Sensitive p \<longrightarrow> os_Value p = None"
    by (auto simp: src summarizeOutput_def Let_def)
  moreover have "sorted (map os_Name outs)" by (simp add: src)
  ultimately show ?thesis using src by (metis mset_sort)
qed

definition sampleOutputs :: rawdoc where
  "sampleOutputs = Doc (JObj
     [(''version'', JNum ''4''),
      (''outputs'', JObj
        [(''password'', JObj [(''value'', JStr ''hunter2''), (''type'', JStr ''string''), (''sensitive'', JBool True)]),
         (''host'', JObj [(''value'', JStr ''h''), (''type'', JArr [JStr ''list'', JStr ''string''])])])])"

lemma sampleOutputs_listed:
  "\<exists>outs. listOutputs sampleOutputs = Inr outs \<and> map os_Name outs = [''host'', ''password'']"
proof -
  have "case listOutputs sampleOutputs of Inl e \<Rightarrow> False
    | Inr outs \<Rightarrow> map os_Name outs = [''host'', ''password'']"
    by code_simp
  then show ?thesis by (auto split: sum.splits)
qed

theorem outputs_redacted_witness:
  "\<exists>outs. listOutputs sampleOutputs = Inr outs \<and> map os_Name outs = [''host'', ''password'']
    \<and> sorted (map os_Name outs)"
proof -
  obtain outs where h: "listOutputs sampleOutputs = Inr outs" "map os_Name outs = [''host'', ''password'']"
    using sampleOutputs_listed by metis
  have "sorted (map os_Name outs)" using outputs_redacted [OF h(1)] by (elim conjE)
  then show ?thesis using h by auto
qed

section \<open>Provider references\<close>

text \<open>A v4 provider reference, with a quoted registry path of host, namespace and name (and an
  alias or nothing after the closing bracket), is labelled namespace/name, whatever the
  resource type is; so aliased providers and registry hosts are counted under one label.\<close>

theorem normalizeProvider_v4:
  assumes "CHR ''['' \<notin> set pre" and "CHR 0x22 \<notin> set (host @ ns @ name)"
    and "CHR ''/'' \<notin> set (host @ ns @ name)" and "\<not> hasPrefix (host @ ''/'' @ ns @ ''/'' @ name) ''provider.''"
  shows "normalizeProvider (pre @ ''['' @ dquote @ host @ ''/'' @ ns @ ''/'' @ name @ dquote @ rest) t
    = ns @ ''/'' @ name"
proof -
  let ?path = "host @ ''/'' @ ns @ ''/'' @ name"
  have 1: "strIndex (pre @ (''['' @ dquote) @ ?path @ dquote @ rest) (''['' @ dquote) = Some (length pre)"
    by (rule strIndex_append) (use assms(1) in auto)
  have 2: "strIndex (?path @ dquote @ rest) dquote = Some (length ?path)"
    by (rule strIndex_append) (use assms(2) in \<open>auto simp: dquote_def\<close>)
  have 3: "drop (length pre + 2) (pre @ (''['' @ dquote) @ ?path @ dquote @ rest) = ?path @ dquote @ rest"
    by (simp add: dquote_def)
  have 4: "splitOn (CHR ''/'') ?path = [host, ns, name]"
    using assms(3) split_join [of "[host, ns, name]" "CHR ''/''"] by simp
  have 5: "trimPrefix ?path ''provider.'' = ?path"
    using assms(4) by (simp add: trimPrefix_def)
  show ?thesis
    using 1 2 3 4 5 by (simp add: normalizeProvider_def Let_def)
qed

theorem normalizeProvider_v4_witness:
  "normalizeProvider (''provider'' @ ''['' @ dquote @ ''registry.terraform.io'' @ ''/'' @ ''hashicorp'' @ ''/''
     @ ''aws'' @ dquote @ ''].west'') ''aws_instance'' = ''hashicorp'' @ ''/'' @ ''aws''"
  by (rule normalizeProvider_v4) simp_all

end
