(* ===== verification/StateOps.thy ===== *)
theory StateOps
  imports Json "HOL-Library.Multiset"
begin

text \<open>
  \<open>internal/stateops\<close>: \<open>terraform state rm\<close> and \<open>terraform state mv\<close> on a state document.
  A state, a resource and an instance are generic maps (a JSON null decodes into the nil map),
  so that what an operation does not name passes through it. The Go code mutates these maps in
  place; the model returns the updated list. Writing to a nil map is the value \<open>GoPanic\<close>.

  The lemmas give the resources and the other members of the document after each operation,
  the conservation of instances under a move, the errors and the absence of panics.
\<close>

datatype addrErr = EmptyAddress | NotTypeName | MalformedIndex | MalformedKey | MalformedCount

datatype opErr =
    InvalidState
  | InvalidResources
  | InvalidInstances
  | BadAddress addrErr
  | BadSource addrErr
  | BadTarget addrErr
  | ResourceNotFound
  | TargetExists
  | IndexOnBothNeeded
  | GoPanic

datatype instIndex = IKey string | ICount int

section \<open>Addresses\<close>

text \<open>
  The quoted form of a for_each key is a JSON string literal: the text after the opening quote
  up to the closing quote, with JSON's escapes, then only white space.
\<close>

definition hexDigit :: "char \<Rightarrow> int option" where
  "hexDigit c =
     (if isDigit c then Some (digitVal c)
      else if CHR ''a'' \<le> c \<and> c \<le> CHR ''f'' then Some (of_char c - 87)
      else if CHR ''A'' \<le> c \<and> c \<le> CHR ''F'' then Some (of_char c - 55)
      else None)"

fun hex4 :: "string \<Rightarrow> int option" where
  "hex4 [a, b, c, d] =
     (case (hexDigit a, hexDigit b, hexDigit c, hexDigit d) of
        (Some w, Some x, Some y, Some z) \<Rightarrow> Some (((w * 16 + x) * 16 + y) * 16 + z)
      | _ \<Rightarrow> None)"
| "hex4 _ = None"

definition byte :: "int \<Rightarrow> char" where
  "byte i = char_of i"

definition utf8 :: "int \<Rightarrow> string" where
  "utf8 cp =
     (if cp < 128 then [byte cp]
      else if cp < 2048 then [byte (192 + cp div 64), byte (128 + cp mod 64)]
      else if cp < 65536 then
        [byte (224 + cp div 4096), byte (128 + cp div 64 mod 64), byte (128 + cp mod 64)]
      else [byte (240 + cp div 262144), byte (128 + cp div 4096 mod 64),
            byte (128 + cp div 64 mod 64), byte (128 + cp mod 64)])"

definition simpleEscape :: "char \<Rightarrow> char option" where
  "simpleEscape c =
     map_of [(CHR 0x22, CHR 0x22), (CHR 0x5C, CHR 0x5C), (CHR ''/'', CHR ''/''), (CHR ''b'', CHR 0x08),
             (CHR ''f'', CHR 0x0C), (CHR ''n'', CHR 0x0A), (CHR ''r'', CHR 0x0D), (CHR ''t'', CHR 0x09)] c"

definition isJSONSpace :: "char \<Rightarrow> bool" where
  "isJSONSpace c = (c \<in> set [CHR '' '', CHR 0x09, CHR 0x0A, CHR 0x0D])"

definition lowSurrogate :: "string \<Rightarrow> (int \<times> string) option" where
  "lowSurrogate s =
     (if hasPrefix s [CHR 0x5C, CHR ''u''] then
        (case hex4 (take 4 (drop 2 s)) of
           Some v \<Rightarrow> if 56320 \<le> v \<and> v < 57344 then Some (v, drop 6 s) else None
         | None \<Rightarrow> None)
      else None)"

lemma lowSurrogate_length: "lowSurrogate s = Some (v, s') \<Longrightarrow> length s' \<le> length s"
  by (auto simp: lowSurrogate_def split: if_splits option.splits)

function unquoteTail :: "string \<Rightarrow> string option" where
  "unquoteTail [] = None"
| "unquoteTail (c # s) =
     (if c = CHR 0x22 then (if list_all isJSONSpace s then Some [] else None)
      else if c = CHR 0x5C then
        (case s of
           [] \<Rightarrow> None
         | e # s' \<Rightarrow>
             if e = CHR ''u'' then
               (case hex4 (take 4 s') of
                  None \<Rightarrow> None
                | Some v \<Rightarrow>
                    if 55296 \<le> v \<and> v < 57344 then
                      (case (if v < 56320 then lowSurrogate (drop 4 s') else None) of
                         Some (w, s'') \<Rightarrow>
                           map_option ((@) (utf8 (65536 + (v - 55296) * 1024 + (w - 56320)))) (unquoteTail s'')
                       | None \<Rightarrow> map_option ((@) (utf8 65533)) (unquoteTail (drop 4 s')))
                    else map_option ((@) (utf8 v)) (unquoteTail (drop 4 s')))
             else (case simpleEscape e of
                     None \<Rightarrow> None
                   | Some x \<Rightarrow> map_option (Cons x) (unquoteTail s')))
      else if c < CHR '' '' then None
      else map_option (Cons c) (unquoteTail s))"
  by pat_completeness auto
termination
  by (relation "measure length") (auto dest: lowSurrogate_length split: if_splits)

text \<open>\<open>parseIndexKey\<close>.\<close>

definition parseIndexKey :: "string \<Rightarrow> addrErr + instIndex" where
  "parseIndexKey s =
     (if length s < 3 \<or> hd s \<noteq> CHR ''['' \<or> last s \<noteq> CHR '']'' then Inl MalformedIndex
      else (let inner = butlast (tl s)
            in if 2 \<le> length inner \<and> hd inner = CHR 0x22 then
                 (case unquoteTail (tl inner) of None \<Rightarrow> Inl MalformedKey | Some k \<Rightarrow> Inr (IKey k))
               else (case atoi inner of None \<Rightarrow> Inl MalformedCount | Some n \<Rightarrow> Inr (ICount n))))"

fun takeModules :: "string list \<Rightarrow> string list \<times> string list" where
  "takeModules (a # b # rest) =
     (if a = ''module'' then (case takeModules rest of (ms, r) \<Rightarrow> (''module'' # b # ms, r))
      else ([], a # b # rest))"
| "takeModules xs = ([], xs)"

record address =
  ad_module :: string
  ad_type :: string
  ad_name :: string
  ad_index :: "instIndex option"

definition parseAddress :: "string \<Rightarrow> addrErr + address" where
  "parseAddress addr0 =
     (let addr = trimSpace addr0
      in if addr = [] then Inl EmptyAddress
         else (case takeModules (splitOn (CHR ''.'') addr) of (modParts, rest) \<Rightarrow>
           if length rest < 2 then Inl NotTypeName
           else (let name = joinWith ''.'' (tl rest); m = joinWith ''.'' modParts
                 in (case strIndex name ''['' of
                       None \<Rightarrow> Inr \<lparr>ad_module = m, ad_type = hd rest, ad_name = name, ad_index = None\<rparr>
                     | Some i \<Rightarrow>
                         (case parseIndexKey (drop i name) of
                            Inl e \<Rightarrow> Inl e
                          | Inr k \<Rightarrow> Inr \<lparr>ad_module = m, ad_type = hd rest,
                                           ad_name = take i name, ad_index = Some k\<rparr>)))))"

section \<open>Decoding and encoding a state\<close>

definition decodeMaps :: "json option \<Rightarrow> nilmap list option" where
  "decodeMaps v =
     (case v of None \<Rightarrow> Some []
      | Some j \<Rightarrow> (case decodeList j of None \<Rightarrow> None | Some js \<Rightarrow> decodeAll decodeMap js))"

definition decodeDoc :: "rawdoc \<Rightarrow> opErr + (nilmap \<times> nilmap list)" where
  "decodeDoc raw =
     (case (case raw of Doc j \<Rightarrow> decodeMap j | Junk _ \<Rightarrow> None) of
        None \<Rightarrow> Inl InvalidState
      | Some st \<Rightarrow>
          (case decodeMaps (nget ''resources'' st) of
             None \<Rightarrow> Inl InvalidResources
           | Some rs \<Rightarrow> Inr (st, rs)))"

definition serialOf :: "json gomap \<Rightarrow> int" where
  "serialOf m =
     (case oget ''serial'' m of None \<Rightarrow> 0
      | Some v \<Rightarrow> (case decodeInt64 v of None \<Rightarrow> 0 | Some i \<Rightarrow> i))"

definition bumpSerial :: "json gomap \<Rightarrow> json gomap" where
  "bumpSerial m = oput ''serial'' (JNum (itoa (sint (int64_of (serialOf m) + 1)))) m"

definition encodeDoc :: "nilmap \<Rightarrow> nilmap list \<Rightarrow> opErr + rawdoc" where
  "encodeDoc st rs =
     (case st of None \<Rightarrow> Inl GoPanic
      | Some m \<Rightarrow> Inr (Doc (JObj (bumpSerial (oput ''resources'' (JArr (map encodeMap rs)) m)))))"

definition strField :: "string \<Rightarrow> nilmap \<Rightarrow> string" where
  "strField k r =
     (case nget k r of None \<Rightarrow> [] | Some v \<Rightarrow> (case decodeStr v of None \<Rightarrow> [] | Some s \<Rightarrow> s))"

definition resourceMatches :: "address \<Rightarrow> nilmap \<Rightarrow> bool" where
  "resourceMatches a r =
     (strField ''module'' r = ad_module a \<and> strField ''type'' r = ad_type a \<and> strField ''name'' r = ad_name a)"

section \<open>Instances\<close>

definition decodeInstances :: "nilmap \<Rightarrow> nilmap list option" where
  "decodeInstances r = decodeMaps (nget ''instances'' r)"

definition indexKeyMatches :: "instIndex \<Rightarrow> nilmap \<Rightarrow> bool" where
  "indexKeyMatches k inst =
     (case nget ''index_key'' inst of None \<Rightarrow> False
      | Some raw \<Rightarrow>
          (case k of
             IKey s \<Rightarrow> decodeStr raw = Some s
           | ICount i \<Rightarrow>
               (case (decodeF64 raw, f64_of_int i) of (Some n, Some x) \<Rightarrow> f64_eq n x | _ \<Rightarrow> False)))"

text \<open>The first element that satisfies the predicate, and the list without it.\<close>

fun popFirst :: "('a \<Rightarrow> bool) \<Rightarrow> 'a list \<Rightarrow> 'a option \<times> 'a list" where
  "popFirst P [] = (None, [])"
| "popFirst P (x # xs) =
     (if P x then (Some x, xs) else (case popFirst P xs of (y, ys) \<Rightarrow> (y, x # ys)))"

definition putMap :: "string \<Rightarrow> json \<Rightarrow> nilmap \<Rightarrow> opErr + nilmap" where
  "putMap k v m = (case m of None \<Rightarrow> Inl GoPanic | Some kvs \<Rightarrow> Inr (Some (oput k v kvs)))"

text \<open>
  \<open>popInstance\<close>: the instance with the key (None when there is none), the number left, and
  the resource with the shorter list written back.
\<close>

definition popInstance :: "nilmap \<Rightarrow> instIndex \<Rightarrow> opErr + (nilmap option \<times> nat \<times> nilmap)" where
  "popInstance r k =
     (case decodeInstances r of
        None \<Rightarrow> Inl InvalidInstances
      | Some insts \<Rightarrow>
          (case popFirst (indexKeyMatches k) insts of
             (None, kept) \<Rightarrow> Inr (None, length kept, r)
           | (Some inst, kept) \<Rightarrow>
               (case putMap ''instances'' (JArr (map encodeMap kept)) r of
                  Inl e \<Rightarrow> Inl e
                | Inr r' \<Rightarrow> Inr (Some inst, length kept, r'))))"

section \<open>Remove\<close>

fun removeLoop :: "address \<Rightarrow> nilmap list \<Rightarrow> opErr + (nilmap list \<times> bool)" where
  "removeLoop a [] = Inr ([], False)"
| "removeLoop a (r # rs) =
     (if \<not> resourceMatches a r then
        (case removeLoop a rs of Inl e \<Rightarrow> Inl e | Inr (kept, found) \<Rightarrow> Inr (r # kept, found))
      else (case ad_index a of
          None \<Rightarrow>
            (case removeLoop a rs of Inl e \<Rightarrow> Inl e | Inr (kept, _) \<Rightarrow> Inr (kept, True))
        | Some k \<Rightarrow>
            (case popInstance r k of
               Inl e \<Rightarrow> Inl e
             | Inr (inst, remaining, r') \<Rightarrow>
                 (case removeLoop a rs of
                    Inl e \<Rightarrow> Inl e
                  | Inr (kept, found) \<Rightarrow>
                      if inst \<noteq> None \<and> remaining = 0 then Inr (kept, True)
                      else Inr (r' # kept, found \<or> inst \<noteq> None)))))"

definition removeResource :: "rawdoc \<Rightarrow> string \<Rightarrow> opErr + rawdoc" where
  "removeResource raw addr =
     (case decodeDoc raw of
        Inl e \<Rightarrow> Inl e
      | Inr (st, rs) \<Rightarrow>
          (case parseAddress addr of
             Inl e \<Rightarrow> Inl (BadAddress e)
           | Inr a \<Rightarrow>
               (case removeLoop a rs of
                  Inl e \<Rightarrow> Inl e
                | Inr (kept, found) \<Rightarrow> if found then encodeDoc st kept else Inl ResourceNotFound)))"

section \<open>Move\<close>

definition firstPos :: "('a \<Rightarrow> bool) \<Rightarrow> 'a list \<Rightarrow> nat option" where
  "firstPos P xs = find (\<lambda>i. P (xs ! i)) [0..<length xs]"

definition withoutKeys :: "string list \<Rightarrow> 'v gomap \<Rightarrow> 'v gomap" where
  "withoutKeys ks m = filter (\<lambda>p. fst p \<notin> set ks) m"

definition cloneResourceIdentity :: "nilmap \<Rightarrow> address \<Rightarrow> json gomap" where
  "cloneResourceIdentity src a =
     (let kvs = (case src of None \<Rightarrow> [] | Some m \<Rightarrow> m);
          nb = withoutKeys [''instances'', ''module'', ''type'', ''name''] kvs;
          nb1 = (if ad_module a \<noteq> [] then oput ''module'' (JStr (ad_module a)) nb else nb)
      in oput ''name'' (JStr (ad_name a)) (oput ''type'' (JStr (ad_type a)) nb1))"

fun indexJSON :: "instIndex \<Rightarrow> json" where
  "indexJSON (IKey s) = JStr s"
| "indexJSON (ICount n) = JNum (itoa n)"

definition dropAt :: "nat \<Rightarrow> 'a list \<Rightarrow> 'a list" where
  "dropAt i xs = take i xs @ drop (Suc i) xs"

text \<open>
  The tail of \<open>moveInstance\<close> once the instance is out of its source: it goes into the
  destination block, or into a new one at the end, and an emptied source block is dropped.
\<close>

definition placeInstance ::
    "nilmap list \<Rightarrow> nat \<Rightarrow> nat option \<Rightarrow> nilmap \<Rightarrow> nat \<Rightarrow> address \<Rightarrow> opErr + nilmap list" where
  "placeInstance rs srcPos dstPos inst remaining to =
     (case (case dstPos of
              Some d \<Rightarrow>
                (case decodeInstances (rs ! d) of
                   None \<Rightarrow> Inl InvalidInstances
                 | Some insts \<Rightarrow>
                     (case putMap ''instances'' (JArr (map encodeMap (insts @ [inst]))) (rs ! d) of
                        Inl e \<Rightarrow> Inl e
                      | Inr r' \<Rightarrow> Inr (rs[d := r'])))
            | None \<Rightarrow>
                Inr (rs @ [Some (oput ''instances'' (JArr [encodeMap inst])
                                  (cloneResourceIdentity (rs ! srcPos) to))])) of
        Inl e \<Rightarrow> Inl e
      | Inr rs' \<Rightarrow> Inr (if remaining = 0 \<and> dstPos \<noteq> Some srcPos then dropAt srcPos rs' else rs'))"

definition moveInstance ::
    "nilmap \<Rightarrow> nilmap list \<Rightarrow> address \<Rightarrow> address \<Rightarrow> opErr + rawdoc" where
  "moveInstance st rs from to =
     (case (ad_index from, ad_index to) of
        (Some fi, Some ti) \<Rightarrow>
          (case firstPos (resourceMatches from) rs of
             None \<Rightarrow> Inl ResourceNotFound
           | Some srcPos \<Rightarrow>
               (let dstPos = firstPos (resourceMatches to) rs
                in (case (case dstPos of
                            None \<Rightarrow> Inr False
                          | Some d \<Rightarrow>
                              (case decodeInstances (rs ! d) of
                                 None \<Rightarrow> Inl InvalidInstances
                               | Some insts \<Rightarrow> Inr (list_ex (indexKeyMatches ti) insts))) of
                      Inl e \<Rightarrow> Inl e
                    | Inr clash \<Rightarrow>
                        if clash then Inl TargetExists
                        else
                          (case popInstance (rs ! srcPos) fi of
                             Inl e \<Rightarrow> Inl e
                           | Inr (None, _, _) \<Rightarrow> Inl ResourceNotFound
                           | Inr (Some inst, remaining, src') \<Rightarrow>
                               (case putMap ''index_key'' (indexJSON ti) inst of
                                  Inl e \<Rightarrow> Inl e
                                | Inr inst' \<Rightarrow>
                                    (case placeInstance (rs[srcPos := src']) srcPos dstPos inst' remaining to of
                                       Inl e \<Rightarrow> Inl e
                                     | Inr rs' \<Rightarrow> encodeDoc st rs'))))))
      | _ \<Rightarrow> Inl IndexOnBothNeeded)"

text \<open>The scan of a whole-resource move: the last block at the source, unless the target is there.\<close>

fun moveScan :: "address \<Rightarrow> address \<Rightarrow> nat \<Rightarrow> nat option \<Rightarrow> nilmap list \<Rightarrow> opErr + nat option" where
  "moveScan from to i target [] = Inr target"
| "moveScan from to i target (r # rs) =
     (if resourceMatches to r then Inl TargetExists
      else moveScan from to (Suc i) (if resourceMatches from r then Some i else target) rs)"

definition readdress :: "address \<Rightarrow> json gomap \<Rightarrow> json gomap" where
  "readdress to m =
     oput ''name'' (JStr (ad_name to))
       (oput ''type'' (JStr (ad_type to))
         (if ad_module to = [] then odel ''module'' m else oput ''module'' (JStr (ad_module to)) m))"

definition moveResource :: "rawdoc \<Rightarrow> string \<Rightarrow> string \<Rightarrow> opErr + rawdoc" where
  "moveResource raw fromAddr toAddr =
     (case decodeDoc raw of
        Inl e \<Rightarrow> Inl e
      | Inr (st, rs) \<Rightarrow>
          (case parseAddress fromAddr of
             Inl e \<Rightarrow> Inl (BadSource e)
           | Inr from \<Rightarrow>
               (case parseAddress toAddr of
                  Inl e \<Rightarrow> Inl (BadTarget e)
                | Inr to \<Rightarrow>
                    if ad_index from \<noteq> None \<or> ad_index to \<noteq> None then moveInstance st rs from to
                    else
                      (case moveScan from to 0 None rs of
                         Inl e \<Rightarrow> Inl e
                       | Inr None \<Rightarrow> Inl ResourceNotFound
                       | Inr (Some i) \<Rightarrow>
                           (case rs ! i of
                              None \<Rightarrow> Inl ResourceNotFound
                            | Some m \<Rightarrow> encodeDoc st (rs[i := Some (readdress to m)]))))))"

section \<open>What encoding preserves\<close>

definition rok :: "nilmap \<Rightarrow> bool" where
  "rok r = (case r of None \<Rightarrow> True | Some m \<Rightarrow> omap_ok m)"

lemma rok_simps [simp]: "rok None" "rok (Some m) = omap_ok m"
  by (simp_all add: rok_def)

lemma decodeMap_rok: "decodeMap j = Some r \<Longrightarrow> rok r"
  by (cases j) auto

lemma decode_encode_rok [simp]: "rok r \<Longrightarrow> decodeMap (encodeMap r) = Some r"
  by (simp add: rok_def decode_encodeMap)

lemma decodeMaps_rok: "decodeMaps v = Some rs \<Longrightarrow> \<forall>r \<in> set rs. rok r"
  by (fastforce simp: decodeMaps_def decodeAll_Some_iff list_all2_conv_all_nth in_set_conv_nth
      split: option.splits intro: decodeMap_rok)

lemma decodeMaps_encode [simp]:
  "\<forall>r \<in> set rs. rok r \<Longrightarrow> decodeMaps (Some (JArr (map encodeMap rs))) = Some rs"
  by (simp add: decodeMaps_def decodeAll_Some_iff list_all2_conv_all_nth)

lemma decodeDoc_rok: "decodeDoc raw = Inr (st, rs) \<Longrightarrow> rok st \<and> (\<forall>r \<in> set rs. rok r)"
  by (auto simp: decodeDoc_def split: option.splits rawdoc.splits dest: decodeMap_rok decodeMaps_rok)

lemma decodeDoc_nil: "decodeDoc raw = Inr (None, rs) \<Longrightarrow> rs = []"
  by (auto simp: decodeDoc_def decodeMaps_def split: option.splits rawdoc.splits)

text \<open>
  The document \<open>out\<close> is the state \<open>st\<close> with the resources \<open>rs\<close> and the serial one higher
  (in int64 arithmetic), and with every other top-level member as it was.
\<close>

definition rewritten :: "nilmap \<Rightarrow> nilmap list \<Rightarrow> rawdoc \<Rightarrow> bool" where
  "rewritten st rs out =
     (\<exists>m m'. st = Some m \<and> decodeDoc out = Inr (Some m', rs)
        \<and> (\<forall>k. k \<notin> {''resources'', ''serial''} \<longrightarrow> oget k m' = oget k m)
        \<and> serialOf m' = sint (int64_of (serialOf m) + 1))"

lemma encodeDoc_rewritten:
  assumes "encodeDoc st rs = Inr out" "rok st" "\<forall>r \<in> set rs. rok r"
  shows "rewritten st rs out"
proof -
  obtain m where m: "st = Some m" "omap_ok m"
    using assms(1,2) by (cases st) (auto simp: encodeDoc_def)
  let ?m' = "bumpSerial (oput ''resources'' (JArr (map encodeMap rs)) m)"
  have out: "out = Doc (JObj ?m')" using assms(1) m by (simp add: encodeDoc_def)
  have "omap_ok ?m'" using m(2) by (auto simp: bumpSerial_def)
  moreover have "oget ''resources'' ?m' = Some (JArr (map encodeMap rs))"
    by (simp add: bumpSerial_def)
  ultimately have dec: "decodeDoc out = Inr (Some ?m', rs)"
    using assms(3) by (simp add: out decodeDoc_def omap_of_ok)
  have "serialOf ?m' = sint (int64_of (serialOf (oput ''resources'' (JArr (map encodeMap rs)) m)) + 1)"
    by (simp add: bumpSerial_def serialOf_def [of "oput ''serial'' _ _"] atoi_itoa inInt64_sint)
  then have ser: "serialOf ?m' = sint (int64_of (serialOf m) + 1)"
    by (simp add: serialOf_def)
  show ?thesis
    unfolding rewritten_def
    by (rule exI [of _ m], rule exI [of _ ?m']) (use m dec ser in \<open>simp add: bumpSerial_def\<close>)
qed

lemma serial_increases:
  assumes "inInt64 i" "i < 2 ^ 63 - 1"
  shows "sint (int64_of i + 1) = i + 1"
proof -
  have "int64_of i + 1 = int64_of (i + 1)" by (simp add: int64_of_def)
  moreover have "inInt64 (i + 1)" using assms by (simp add: inInt64_def)
  ultimately show ?thesis by (simp add: sint_int64_of)
qed

section \<open>Removing a whole resource\<close>

lemma removeLoop_whole:
  "ad_index a = None \<Longrightarrow>
   removeLoop a rs = Inr (filter (\<lambda>r. \<not> resourceMatches a r) rs, \<exists>r \<in> set rs. resourceMatches a r)"
  by (induction rs) auto

text \<open>\<open>RemoveResource\<close> with an address that has no instance index succeeds exactly when some
  resource has that address. It then leaves every other resource as it was and in order, drops
  all that match, keeps all other top-level members and raises the serial by one.\<close>

theorem remove_whole_resource:
  assumes "decodeDoc raw = Inr (st, rs)" "parseAddress addr = Inr a" "ad_index a = None"
  shows "if \<exists>r \<in> set rs. resourceMatches a r
    then (\<exists>out. removeResource raw addr = Inr out
            \<and> rewritten st (filter (\<lambda>r. \<not> resourceMatches a r) rs) out)
    else removeResource raw addr = Inl ResourceNotFound"
proof (cases "\<exists>r \<in> set rs. resourceMatches a r")
  case True
  let ?kept = "filter (\<lambda>r. \<not> resourceMatches a r) rs"
  have "st \<noteq> None" using True decodeDoc_nil [of raw rs] assms(1) by (cases st) auto
  then obtain out where out: "encodeDoc st ?kept = Inr out"
    by (cases st) (auto simp: encodeDoc_def)
  then have "removeResource raw addr = Inr out"
    using assms True by (simp add: removeResource_def removeLoop_whole)
  moreover have "rewritten st ?kept out"
    using encodeDoc_rewritten [OF out] decodeDoc_rok [OF assms(1)] by simp
  ultimately show ?thesis using True by auto
next
  case False
  then show ?thesis using assms by (simp add: removeResource_def removeLoop_whole)
qed

definition sampleDoc :: rawdoc where
  "sampleDoc = Doc (JObj
     [(''serial'', JNum ''7''),
      (''resources'', JArr
        [JObj [(''type'', JStr ''aws''), (''name'', JStr ''web''),
               (''instances'', JArr [JObj [(''index_key'', JStr ''a'')], JObj [(''index_key'', JNum ''1'')]])],
         JObj [(''type'', JStr ''aws''), (''name'', JStr ''db'')]])])"

definition sampleRes :: "nilmap list" where
  "sampleRes =
     [Some [(''instances'', JArr [JObj [(''index_key'', JStr ''a'')], JObj [(''index_key'', JNum ''1'')]]),
            (''name'', JStr ''web''), (''type'', JStr ''aws'')],
      Some [(''name'', JStr ''db''), (''type'', JStr ''aws'')]]"

definition sampleTop :: "json gomap" where
  "sampleTop = (case sampleDoc of Doc (JObj kvs) \<Rightarrow> omap_of kvs | _ \<Rightarrow> [])"

lemma sampleDoc_decodes: "decodeDoc sampleDoc = Inr (Some sampleTop, sampleRes)"
  by code_simp

lemma sampleAddrs:
  "parseAddress ''aws.web'' = Inr \<lparr>ad_module = [], ad_type = ''aws'', ad_name = ''web'', ad_index = None\<rparr>"
  "parseAddress ''aws.db'' = Inr \<lparr>ad_module = [], ad_type = ''aws'', ad_name = ''db'', ad_index = None\<rparr>"
  "parseAddress ''aws.new'' = Inr \<lparr>ad_module = [], ad_type = ''aws'', ad_name = ''new'', ad_index = None\<rparr>"
  "parseAddress ''aws.web[1]'' = Inr \<lparr>ad_module = [], ad_type = ''aws'', ad_name = ''web'', ad_index = Some (ICount 1)\<rparr>"
  "parseAddress ''aws.db[0]'' = Inr \<lparr>ad_module = [], ad_type = ''aws'', ad_name = ''db'', ad_index = Some (ICount 0)\<rparr>"
  by code_simp+

theorem remove_whole_resource_witness:
  "\<exists>out. removeResource sampleDoc ''aws.web'' = Inr out \<and> rewritten (Some sampleTop) [sampleRes ! 1] out"
  using remove_whole_resource [OF sampleDoc_decodes sampleAddrs(1)]
  by (simp add: sampleRes_def resourceMatches_def strField_def oget_def)

section \<open>Instances are conserved\<close>

definition instancesOf :: "nilmap \<Rightarrow> nilmap list" where
  "instancesOf r = (case decodeInstances r of None \<Rightarrow> [] | Some insts \<Rightarrow> insts)"

definition totalInstances :: "nilmap list \<Rightarrow> nat" where
  "totalInstances rs = (\<Sum>r\<leftarrow>rs. length (instancesOf r))"

lemma popFirst_Some:
  "popFirst P xs = (Some x, ys) \<Longrightarrow> P x \<and> x \<in> set xs \<and> length xs = Suc (length ys) \<and> set ys \<subseteq> set xs"
  by (induction xs arbitrary: ys) (auto split: if_splits prod.splits)

lemma popFirst_None: "popFirst P xs = (None, ys) \<Longrightarrow> ys = xs \<and> \<not> list_ex P xs"
proof (induction xs arbitrary: ys)
  case Nil
  then show ?case by simp
next
  case (Cons x xs)
  then obtain zs where "\<not> P x" "popFirst P xs = (None, zs)" "ys = x # zs"
    by (auto split: if_splits prod.splits)
  with Cons.IH show ?case by simp
qed

lemma resourceMatches_oput:
  "k \<notin> {''module'', ''type'', ''name''} \<Longrightarrow>
   resourceMatches a (Some (oput k v m)) = resourceMatches a (Some m)"
  by (auto simp: resourceMatches_def strField_def)

lemma instancesOf_put [simp]:
  "\<forall>r \<in> set insts. rok r \<Longrightarrow>
   instancesOf (Some (oput ''instances'' (JArr (map encodeMap insts)) m)) = insts"
  by (simp add: instancesOf_def decodeInstances_def)

lemma decodeInstances_rok: "decodeInstances r = Some insts \<Longrightarrow> \<forall>x \<in> set insts. rok x"
  unfolding decodeInstances_def by (rule decodeMaps_rok)

lemma popInstance_cases:
  assumes "popInstance r k = Inr (inst, n, r')"
  obtains (none) insts where "inst = None" "r' = r" "decodeInstances r = Some insts" "n = length insts"
      "\<not> list_ex (indexKeyMatches k) insts"
  | (found) x insts kept m where "inst = Some x" "decodeInstances r = Some insts"
      "popFirst (indexKeyMatches k) insts = (Some x, kept)" "n = length kept" "r = Some m"
      "r' = Some (oput ''instances'' (JArr (map encodeMap kept)) m)" "instancesOf r' = kept"
      "\<forall>y \<in> set kept. rok y" "rok x"
proof -
  obtain insts where insts: "decodeInstances r = Some insts"
    using assms by (auto simp: popInstance_def split: option.splits)
  obtain y kept where pop: "popFirst (indexKeyMatches k) insts = (y, kept)" by fastforce
  show ?thesis
  proof (cases y)
    case None
    have "kept = insts \<and> \<not> list_ex (indexKeyMatches k) insts"
      using popFirst_None pop None by blast
    moreover have "inst = None \<and> n = length kept \<and> r' = r"
      using assms by (simp add: popInstance_def insts pop None)
    ultimately show ?thesis using insts by (intro none) auto
  next
    case (Some x)
    then obtain m where r: "r = Some m" "r' = Some (oput ''instances'' (JArr (map encodeMap kept)) m)"
      using pop insts assms by (auto simp: popInstance_def putMap_def split: option.splits)
    have ok: "\<forall>y \<in> set kept. rok y" "rok x"
      using decodeInstances_rok [OF insts] popFirst_Some [of _ _ x kept] pop Some by auto
    show ?thesis
      by (rule found [OF _ insts]) (use pop insts assms Some r ok in \<open>auto simp: popInstance_def putMap_def\<close>)
  qed
qed

lemma popInstance_length:
  assumes "popInstance r k = Inr (inst, n, r')"
  shows "n = length (instancesOf r')"
    and "length (instancesOf r) = n + (if inst = None then 0 else 1)"
    and "inst = None \<Longrightarrow> r' = r"
    and "rok r \<Longrightarrow> rok r'"
    and "inst \<noteq> None \<longleftrightarrow> list_ex (indexKeyMatches k) (instancesOf r)"
  using assms
  by (cases rule: popInstance_cases,
      auto simp: instancesOf_def list_ex_iff dest: popFirst_Some)+

lemma popInstance_matches:
  "popInstance r k = Inr (inst, n, r') \<Longrightarrow> resourceMatches a r' = resourceMatches a r"
  by (erule popInstance_cases) (auto simp: resourceMatches_oput)

section \<open>Removing one instance\<close>

definition hasInstance :: "address \<Rightarrow> instIndex \<Rightarrow> nilmap \<Rightarrow> bool" where
  "hasInstance a k r = (resourceMatches a r \<and> list_ex (indexKeyMatches k) (instancesOf r))"

lemma removeLoop_indexed:
  assumes "ad_index a = Some k"
  shows "removeLoop a rs = Inr (kept, found) \<Longrightarrow>
    totalInstances kept + length (filter (hasInstance a k) rs) = totalInstances rs
    \<and> filter (\<lambda>r. \<not> resourceMatches a r) kept = filter (\<lambda>r. \<not> resourceMatches a r) rs
    \<and> (found \<longleftrightarrow> (\<exists>r \<in> set rs. hasInstance a k r))
    \<and> ((\<forall>r \<in> set rs. rok r) \<longrightarrow> (\<forall>r \<in> set kept. rok r))"
proof (induction rs arbitrary: kept found)
  case Nil
  then show ?case by simp
next
  case (Cons r rs)
  obtain kept' found' where rec: "removeLoop a rs = Inr (kept', found')"
    using Cons.prems assms by (auto split: if_splits sum.splits)
  note IH = Cons.IH [OF rec]
  show ?case
  proof (cases "resourceMatches a r")
    case False
    then show ?thesis
      using Cons.prems rec IH by (auto simp: totalInstances_def hasInstance_def)
  next
    case True
    obtain inst n r' where pop: "popInstance r k = Inr (inst, n, r')"
      using Cons.prems True assms by (auto split: sum.splits)
    note len = popInstance_length [OF pop]
    have has: "hasInstance a k r \<longleftrightarrow> inst \<noteq> None" using len(5) True by (simp add: hasInstance_def)
    have m': "resourceMatches a r'" using popInstance_matches [OF pop] True by simp
    have res: "(kept, found) = (if inst \<noteq> None \<and> n = 0 then (kept', True) else (r' # kept', found' \<or> inst \<noteq> None))"
      using Cons.prems rec pop True assms by (auto split: if_splits)
    show ?thesis
    proof (cases "inst \<noteq> None \<and> n = 0")
      case True
      then show ?thesis
        using res IH has len(1,2) \<open>resourceMatches a r\<close> by (simp add: totalInstances_def)
    next
      case False
      then show ?thesis
        using res IH has len(1,2,4) m' \<open>resourceMatches a r\<close> by (auto simp: totalInstances_def)
    qed
  qed
qed

text \<open>When \<open>RemoveResource\<close> with an instance index succeeds, exactly one instance is gone from
  every resource of that address that had one with this key, and at least one had; the
  instances of all others are untouched and every resource of another address stays as it was.\<close>

theorem remove_instance:
  assumes "decodeDoc raw = Inr (st, rs)" "parseAddress addr = Inr a" "ad_index a = Some k"
    and "removeResource raw addr = Inr out"
  shows "\<exists>rs'. rewritten st rs' out
    \<and> totalInstances rs' + length (filter (hasInstance a k) rs) = totalInstances rs
    \<and> (\<exists>r \<in> set rs. hasInstance a k r)
    \<and> filter (\<lambda>r. \<not> resourceMatches a r) rs' = filter (\<lambda>r. \<not> resourceMatches a r) rs"
proof -
  obtain rs' where loop: "removeLoop a rs = Inr (rs', True)" and out: "encodeDoc st rs' = Inr out"
    using assms by (auto simp: removeResource_def split: sum.splits if_splits)
  note res = removeLoop_indexed [OF assms(3) loop]
  have "rewritten st rs' out"
    using encodeDoc_rewritten [OF out] decodeDoc_rok [OF assms(1)] res by simp
  then show ?thesis using res by auto
qed

theorem remove_instance_witness:
  "\<exists>out rs'. removeResource sampleDoc ''aws.web[1]'' = Inr out \<and> rewritten (Some sampleTop) rs' out
     \<and> totalInstances rs' + 1 = totalInstances sampleRes"
proof -
  let ?a = "\<lparr>ad_module = [], ad_type = ''aws'', ad_name = ''web'', ad_index = Some (ICount 1)\<rparr>"
  have "case removeResource sampleDoc ''aws.web[1]'' of Inl e \<Rightarrow> False | Inr out \<Rightarrow> True" by code_simp
  then obtain out where out: "removeResource sampleDoc ''aws.web[1]'' = Inr out"
    by (auto split: sum.splits)
  have one: "length (filter (hasInstance ?a (ICount 1)) sampleRes) = 1" by code_simp
  show ?thesis
    using remove_instance [OF sampleDoc_decodes sampleAddrs(4) _ out, of "ICount 1"] out one by auto
qed

section \<open>Moving one instance\<close>

lemma firstPos_Some: "firstPos P xs = Some i \<Longrightarrow> i < length xs \<and> P (xs ! i)"
  by (auto simp: firstPos_def find_Some_iff)

lemma total_update:
  "i < length rs \<Longrightarrow>
   totalInstances (rs[i := x]) + length (instancesOf (rs ! i)) = totalInstances rs + length (instancesOf x)"
  by (induction rs arbitrary: i) (auto simp: totalInstances_def nth_Cons split: nat.splits)

lemma total_dropAt:
  "i < length rs \<Longrightarrow> totalInstances (dropAt i rs) + length (instancesOf (rs ! i)) = totalInstances rs"
proof -
  assume "i < length rs"
  then have "rs = take i rs @ rs ! i # drop (Suc i) rs" by (rule id_take_nth_drop)
  then have "totalInstances rs = totalInstances (take i rs @ rs ! i # drop (Suc i) rs)" by simp
  then show ?thesis by (simp add: totalInstances_def dropAt_def)
qed

lemma set_dropAt: "j < length rs \<Longrightarrow> j \<noteq> i \<Longrightarrow> rs ! j \<in> set (dropAt i rs)"
proof (cases "j < i")
  case True
  assume "j < length rs"
  with True have "rs ! j \<in> set (take i rs)"
    by (metis in_set_conv_nth length_take min_less_iff_conj nth_take)
  then show ?thesis by (simp add: dropAt_def)
next
  case False
  assume j: "j < length rs" "j \<noteq> i"
  with False have "drop (Suc i) rs ! (j - Suc i) = rs ! j" "j - Suc i < length (drop (Suc i) rs)"
    by auto
  then have "rs ! j \<in> set (drop (Suc i) rs)" by (metis nth_mem)
  then show ?thesis by (simp add: dropAt_def)
qed

lemma set_dropAt_subset: "set (dropAt i rs) \<subseteq> set rs"
  by (auto simp: dropAt_def dest: in_set_takeD in_set_dropD)

lemma oget_withoutKeys [go_map]: "oget k (withoutKeys ks m) = (if k \<in> set ks then None else oget k m)"
  unfolding withoutKeys_def by (induction m) (auto simp: oget_def)

lemma omap_ok_withoutKeys: "omap_ok m \<Longrightarrow> omap_ok (withoutKeys ks m)"
  by (simp add: withoutKeys_def omap_ok_def sorted_wrt_map sorted_wrt_filter)

lemma clone_matches: "resourceMatches a (Some (oput ''instances'' v (cloneResourceIdentity src a)))"
  by (simp add: resourceMatches_def strField_def cloneResourceIdentity_def Let_def oget_withoutKeys)

lemma clone_ok: "rok src \<Longrightarrow> omap_ok (cloneResourceIdentity src a)"
  unfolding cloneResourceIdentity_def Let_def
  by (cases src) (auto simp del: oput.simps intro!: omap_ok_oput omap_ok_withoutKeys)

section \<open>The key an index is written as\<close>

lemma bitLen_bound: "n < 2 ^ k \<Longrightarrow> bitLen n \<le> int k"
proof (induction n arbitrary: k rule: bitLen.induct)
  case (1 n)
  show ?case
  proof (cases "n \<le> 0")
    case True
    then show ?thesis by (subst bitLen.simps) simp
  next
    case False
    with "1.prems" obtain j where k: "k = Suc j" by (cases k) auto
    with "1.prems" have "n div 2 < 2 ^ j" by auto
    with "1.IH" False have "bitLen (n div 2) \<le> int j" by blast
    with False k show ?thesis by (subst bitLen.simps) simp
  qed
qed

lemma roundFrac_int:
  assumes "0 \<le> n" "n \<le> 2 ^ 63"
  shows "\<exists>p. roundFrac n 1 = Some p"
proof (cases "n = 0")
  case True
  then show ?thesis by (simp add: roundFrac_def)
next
  case False
  have "bitLen n \<le> 64" using bitLen_bound [of n 64] assms(2) by simp
  moreover have "bitLen 1 = 1" by (simp add: bitLen.simps)
  ultimately have "lastPlace n 1 \<le> 11"
    by (simp add: lastPlace_def Let_def split: prod.splits)
  with False show ?thesis by (auto simp: roundFrac_def Let_def split: prod.splits)
qed

lemma takeWhile_decDigits:
  assumes "0 \<le> n" "\<And>c. isDigit c \<Longrightarrow> P c"
  shows "takeWhile P (decDigits n) = decDigits n"
  using decDigits_digits [OF assms(1)] assms(2) by (simp add: list_all_iff)

lemma litParts_itoa: "litParts (itoa n) = (n < 0, decDigits \<bar>n\<bar>, [], [])"
proof -
  have tw: "takeWhile (\<lambda>c. c \<noteq> CHR ''e'' \<and> c \<noteq> CHR ''E'') (decDigits m) = decDigits m"
      "takeWhile (\<lambda>c. c \<noteq> CHR ''.'') (decDigits m) = decDigits m" if "0 \<le> m" for m
    by (rule takeWhile_decDigits [OF that]; auto simp: isDigit_def)+
  show ?thesis
  proof (cases "n < 0")
    case True
    then show ?thesis by (simp add: litParts_def itoa_def Let_def tw)
  next
    case False
    then show ?thesis
      using decDigits_hd_not_sign [of n] by (simp add: litParts_def itoa_def Let_def tw)
  qed
qed

lemma decodeF64_itoa: "decodeF64 (JNum (itoa n)) = f64_of_int n"
  by (simp add: decodeF64lit_def litParts_itoa f64_of_int_def signedVal_def)

definition indexOk :: "instIndex \<Rightarrow> bool" where
  "indexOk k = (case k of IKey _ \<Rightarrow> True | ICount n \<Rightarrow> inInt64 n)"

lemma indexKeyMatches_own:
  assumes "indexOk k"
  shows "indexKeyMatches k (Some (oput ''index_key'' (indexJSON k) m))"
proof (cases k)
  case (IKey s)
  then show ?thesis by (simp add: indexKeyMatches_def)
next
  case (ICount n)
  with assms have "\<bar>n\<bar> \<le> 2 ^ 63" by (auto simp: indexOk_def inInt64_def abs_if)
  then obtain p where "roundFrac \<bar>n\<bar> 1 = Some p" using roundFrac_int [of "\<bar>n\<bar>"] by auto
  with ICount show ?thesis
    by (simp add: indexKeyMatches_def decodeF64_itoa del: decodeF64.simps)
       (simp add: f64_of_int_def f64_eq_def)
qed

lemma parseAddress_indexOk: "parseAddress s = Inr a \<Longrightarrow> ad_index a = Some k \<Longrightarrow> indexOk k"
  by (auto simp: parseAddress_def parseIndexKey_def indexOk_def Let_def atoi_def
      split: if_splits prod.splits option.splits sum.splits)

text \<open>Placing the instance: one more instance in all, and one at the target that carries the key.\<close>

definition atTarget :: "address \<Rightarrow> instIndex \<Rightarrow> nilmap list \<Rightarrow> bool" where
  "atTarget to k rs = (\<exists>r \<in> set rs. hasInstance to k r)"

lemma placeInstance_correct:
  assumes "placeInstance rs src dst inst n to = Inr rs'"
    and "src < length rs" "n = length (instancesOf (rs ! src))"
    and "\<And>d. dst = Some d \<Longrightarrow> d < length rs \<and> resourceMatches to (rs ! d)"
    and "\<forall>r \<in> set rs. rok r" "rok inst" "indexKeyMatches k inst"
  shows "totalInstances rs' = totalInstances rs + 1" and "atTarget to k rs'"
    and "\<forall>r \<in> set rs'. rok r"
proof -
  define fin where "fin xs = (if n = 0 \<and> dst \<noteq> Some src then dropAt src xs else xs)" for xs :: "nilmap list"
  have total_fin: "totalInstances (fin xs) = totalInstances xs"
    if "src < length xs" "dst \<noteq> Some src \<longrightarrow> instancesOf (xs ! src) = instancesOf (rs ! src)" for xs
    using total_dropAt [OF that(1)] that(2) assms(3) by (auto simp: fin_def)
  have in_fin: "xs ! j \<in> set (fin xs)" if "j < length xs" "dst = Some src \<or> j \<noteq> src" for xs j
    using that set_dropAt by (auto simp: fin_def)
  have fin_ok: "\<forall>r \<in> set (fin xs). rok r" if "\<forall>r \<in> set xs. rok r" for xs
    using that set_dropAt_subset [of src xs] by (auto simp: fin_def)
  show "totalInstances rs' = totalInstances rs + 1" "atTarget to k rs'" "\<forall>r \<in> set rs'. rok r"
  proof (atomize (full), cases dst)
    case None
    let ?nb = "Some (oput ''instances'' (JArr [encodeMap inst]) (cloneResourceIdentity (rs ! src) to))"
    let ?xs = "rs @ [?nb]"
    have rs': "rs' = fin ?xs" using assms(1) None by (simp add: placeInstance_def fin_def)
    have nb: "instancesOf ?nb = [inst]" using instancesOf_put [of "[inst]"] assms(6) by simp
    have "rok (rs ! src)" using assms(2,5) by simp
    then have ok: "rok ?nb" using clone_ok by (auto simp del: oput.simps)
    have "?nb \<in> set (fin ?xs)" using in_fin [of "length rs" ?xs] assms(2) by simp
    moreover have "hasInstance to k ?nb" using nb assms(7) by (simp add: hasInstance_def clone_matches)
    moreover have "totalInstances (fin ?xs) = totalInstances rs + 1"
      using total_fin [of ?xs] assms(2) nb by (simp add: totalInstances_def nth_append)
    ultimately show "totalInstances rs' = totalInstances rs + 1 \<and> atTarget to k rs' \<and> (\<forall>r \<in> set rs'. rok r)"
      using fin_ok [of ?xs] assms(5) ok by (auto simp: rs' atTarget_def)
  next
    case (Some d)
    note d = assms(4) [OF Some]
    obtain insts m where insts: "decodeInstances (rs ! d) = Some insts" and m: "rs ! d = Some m"
      using assms(1) Some by (auto simp: placeInstance_def putMap_def split: option.splits sum.splits)
    let ?r = "Some (oput ''instances'' (JArr (map encodeMap (insts @ [inst]))) m)"
    let ?xs = "rs[d := ?r]"
    have rs': "rs' = fin ?xs" using assms(1) Some insts m by (simp add: placeInstance_def fin_def putMap_def)
    have r: "instancesOf ?r = insts @ [inst]"
      using instancesOf_put [of "insts @ [inst]"] decodeInstances_rok [OF insts] assms(6) by auto
    have ok: "rok ?r" using assms(5) d m by (metis nth_mem omap_ok_oput rok_simps(2))
    have "hasInstance to k ?r"
      using r assms(7) d m resourceMatches_oput [of "''instances''" to _ m] by (simp add: hasInstance_def)
    moreover have "?r \<in> set (fin ?xs)" using in_fin [of d ?xs] d Some by (cases "d = src") auto
    moreover have "totalInstances ?xs = totalInstances rs + 1"
      using total_update [of d rs ?r] d r insts by (simp add: instancesOf_def)
    moreover have "totalInstances (fin ?xs) = totalInstances ?xs"
      using total_fin [of ?xs] assms(2) Some by auto
    moreover have "\<forall>r \<in> set ?xs. rok r"
      using assms(5) ok set_update_subset_insert [of rs d ?r] by auto
    ultimately show "totalInstances rs' = totalInstances rs + 1 \<and> atTarget to k rs' \<and> (\<forall>r \<in> set rs'. rok r)"
      using fin_ok [of ?xs] by (auto simp: rs' atTarget_def)
  qed
qed

lemma clone_matches_block: "resourceMatches a (Some (cloneResourceIdentity src a))"
  by (simp add: resourceMatches_def strField_def cloneResourceIdentity_def Let_def oget_withoutKeys)

text \<open>Which instance stands in which block: a block is its resource without the instances.\<close>

definition blockOf :: "nilmap \<Rightarrow> nilmap" where
  "blockOf r = map_option (withoutKeys [''instances'']) r"

definition placedIn :: "nilmap \<Rightarrow> (nilmap \<times> nilmap) multiset" where
  "placedIn r = image_mset (Pair (blockOf r)) (mset (instancesOf r))"

definition placedAll :: "nilmap list \<Rightarrow> (nilmap \<times> nilmap) multiset" where
  "placedAll rs = (\<Sum>r\<leftarrow>rs. placedIn r)"

lemma withoutKeys_put [simp]: "withoutKeys [k] (oput k v m) = withoutKeys [k] m"
  unfolding withoutKeys_def by (induction k v m rule: oput.induct) auto

lemma blockOf_put [simp]: "blockOf (Some (oput ''instances'' v m)) = blockOf (Some m)"
  by (simp add: blockOf_def)

lemma blockOf_matches: "resourceMatches a (blockOf r) = resourceMatches a r"
  by (cases r) (simp_all add: blockOf_def resourceMatches_def strField_def oget_withoutKeys)

lemma clone_block: "blockOf (Some (cloneResourceIdentity r a)) = Some (cloneResourceIdentity r a)"
proof -
  have "''instances'' \<notin> fst ` set (cloneResourceIdentity r a)"
    by (auto simp: cloneResourceIdentity_def Let_def set_oput_keys withoutKeys_def)
  then have "filter (\<lambda>p. fst p \<notin> set [''instances'']) (cloneResourceIdentity r a) = cloneResourceIdentity r a"
    by (intro filter_True) force
  then show ?thesis by (simp add: blockOf_def withoutKeys_def)
qed

lemma clone_of_block: "cloneResourceIdentity (blockOf r) a = cloneResourceIdentity r a"
proof -
  have "withoutKeys [''instances'', ''module'', ''type'', ''name''] (withoutKeys [''instances''] m)
      = withoutKeys [''instances'', ''module'', ''type'', ''name''] m" for m :: "json gomap"
    by (auto simp: withoutKeys_def intro!: filter_cong)
  then show ?thesis by (cases r) (simp_all add: cloneResourceIdentity_def blockOf_def)
qed

lemma placed_update: "i < length rs \<Longrightarrow> placedAll (rs[i := x]) + placedIn (rs ! i) = placedAll rs + placedIn x"
  by (induction rs arbitrary: i) (auto simp: placedAll_def nth_Cons ac_simps split: nat.splits)

lemma placed_dropAt: "i < length rs \<Longrightarrow> placedAll (dropAt i rs) + placedIn (rs ! i) = placedAll rs"
proof -
  assume "i < length rs"
  then have "rs = take i rs @ rs ! i # drop (Suc i) rs" by (rule id_take_nth_drop)
  then have "placedAll rs = placedAll (take i rs @ rs ! i # drop (Suc i) rs)" by simp
  then show ?thesis by (simp add: placedAll_def dropAt_def ac_simps)
qed

lemma popFirst_mset: "popFirst P xs = (Some x, ys) \<Longrightarrow> mset xs = add_mset x (mset ys)"
  by (induction xs arbitrary: ys) (auto split: if_splits prod.splits)

lemma popInstance_placed:
  assumes "popInstance r k = Inr (Some x, n, r')"
  shows "placedIn r = add_mset (blockOf r, x) (placedIn r')" "blockOf r' = blockOf r" "indexKeyMatches k x"
proof -
  from assms obtain insts kept m where p: "decodeInstances r = Some insts" "popFirst (indexKeyMatches k) insts = (Some x, kept)" "r = Some m"
      "r' = Some (oput ''instances'' (JArr (map encodeMap kept)) m)" "instancesOf r' = kept"
    by (cases rule: popInstance_cases) auto
  show b: "blockOf r' = blockOf r" using p(3,4) by simp
  have "instancesOf r = insts" using p(1) by (simp add: instancesOf_def)
  then show "placedIn r = add_mset (blockOf r, x) (placedIn r')" using popFirst_mset[OF p(2)] p(5) b by (simp add: placedIn_def)
  show "indexKeyMatches k x" using popFirst_Some[OF p(2)] by simp
qed

lemma placeInstance_placed:
  assumes "placeInstance rs src dst inst n to = Inr rs'"
    and "src < length rs" "n = length (instancesOf (rs ! src))" "\<And>d. dst = Some d \<Longrightarrow> d < length rs" "rok inst"
  shows "placedAll rs' = add_mset (case dst of Some d \<Rightarrow> blockOf (rs ! d) | None \<Rightarrow> Some (cloneResourceIdentity (rs ! src) to), inst) (placedAll rs)"
proof -
  define fin where "fin xs = (if n = 0 \<and> dst \<noteq> Some src then dropAt src xs else xs)" for xs :: "nilmap list"
  have fin: "placedAll (fin xs) = placedAll xs" if "src < length xs" "dst \<noteq> Some src \<longrightarrow> instancesOf (xs ! src) = instancesOf (rs ! src)" for xs
    using placed_dropAt[OF that(1)] that(2) assms(3) by (auto simp: fin_def placedIn_def)
  show ?thesis
  proof (cases dst)
    case None
    let ?nb = "Some (oput ''instances'' (JArr [encodeMap inst]) (cloneResourceIdentity (rs ! src) to))"
    have rs': "rs' = fin (rs @ [?nb])" using assms(1) None by (simp add: placeInstance_def fin_def)
    have "instancesOf ?nb = [inst]" using instancesOf_put[of "[inst]"] assms(5) by simp
    then have "placedIn ?nb = {#(Some (cloneResourceIdentity (rs ! src) to), inst)#}" by (simp add: placedIn_def clone_block)
    then show ?thesis using fin[of "rs @ [?nb]"] assms(2) None by (simp add: rs' nth_append placedAll_def)
  next
    case (Some d)
    obtain insts m where insts: "decodeInstances (rs ! d) = Some insts" and m: "rs ! d = Some m"
      using assms(1) Some by (auto simp: placeInstance_def putMap_def split: option.splits sum.splits)
    let ?r = "Some (oput ''instances'' (JArr (map encodeMap (insts @ [inst]))) m)"
    have rs': "rs' = fin (rs[d := ?r])" using assms(1) Some insts m by (simp add: placeInstance_def fin_def putMap_def)
    have "instancesOf ?r = insts @ [inst]" using instancesOf_put[of "insts @ [inst]"] decodeInstances_rok[OF insts] assms(5) by auto
    then have "placedIn ?r = add_mset (blockOf (rs ! d), inst) (placedIn (rs ! d))" using insts m by (simp add: placedIn_def instancesOf_def)
    then show ?thesis using fin[of "rs[d := ?r]"] placed_update[OF assms(4)[OF Some], of ?r] assms(2) Some by (auto simp: rs')
  qed
qed

text \<open>A move of one instance: it leaves a block at the source address, where it carried the source key, for the
  block at the target address or a new one that otherwise equals its old one, under the target key and
  with everything else it had; no other instance changes or changes its block.\<close>

definition movedInstance :: "address \<Rightarrow> instIndex \<Rightarrow> address \<Rightarrow> instIndex \<Rightarrow> nilmap list \<Rightarrow> nilmap list \<Rightarrow> bool" where
  "movedInstance from fi to ti rs rs' \<longleftrightarrow> (\<exists>b b' x.
     (b, Some x) \<in># placedAll rs \<and> resourceMatches from b \<and> indexKeyMatches fi (Some x)
     \<and> (b' \<in> blockOf ` set rs \<or> b' = Some (cloneResourceIdentity b to)) \<and> resourceMatches to b'
     \<and> placedAll rs' = placedAll rs - {#(b, Some x)#} + {#(b', Some (oput ''index_key'' (indexJSON ti) x))#})"

lemma moved_placed:
  assumes pop: "popInstance (rs ! i) fi = Inr (Some (Some im), n, src')"
    and place: "placeInstance (rs[i := src']) i dst (Some (oput ''index_key'' (indexJSON ti) im)) n to = Inr rs'"
    and i: "i < length rs \<and> resourceMatches from (rs ! i)" and dst: "\<And>d. dst = Some d \<Longrightarrow> d < length rs \<and> resourceMatches to (rs ! d)"
    and n: "n = length (instancesOf src')" and ok: "rok (Some (oput ''index_key'' (indexJSON ti) im))"
  shows "movedInstance from fi to ti rs rs'"
proof -
  note q = popInstance_placed[OF pop]
  define b' where "b' = (case dst of Some d \<Rightarrow> blockOf (rs ! d) | None \<Rightarrow> Some (cloneResourceIdentity (rs ! i) to))"
  have blocks: "blockOf (rs[i := src'] ! d) = blockOf (rs ! d)" if "d < length rs" for d using q(2) that by (cases "d = i") auto
  have "cloneResourceIdentity src' to = cloneResourceIdentity (rs ! i) to" using q(2) clone_of_block by metis
  moreover have "placedAll rs' = add_mset (case dst of Some d \<Rightarrow> blockOf (rs[i := src'] ! d) | None \<Rightarrow> Some (cloneResourceIdentity (rs[i := src'] ! i) to),
      Some (oput ''index_key'' (indexJSON ti) im)) (placedAll (rs[i := src']))"
    by (rule placeInstance_placed[OF place]) (use i dst n ok in auto)
  ultimately have p: "placedAll rs' = add_mset (b', Some (oput ''index_key'' (indexJSON ti) im)) (placedAll (rs[i := src']))"
    using i dst blocks by (cases dst) (simp_all add: b'_def)
  have u: "placedAll (rs[i := src']) + {#(blockOf (rs ! i), Some im)#} = placedAll rs" using placed_update[of i rs src'] i q(1) by simp
  then have "(blockOf (rs ! i), Some im) \<in># placedAll rs" "placedAll (rs[i := src']) = placedAll rs - {#(blockOf (rs ! i), Some im)#}"
    by (metis add_mset_add_single union_single_eq_member, metis add_diff_cancel_right')
  moreover have "b' \<in> blockOf ` set rs \<or> b' = Some (cloneResourceIdentity (blockOf (rs ! i)) to)" "resourceMatches to b'"
    using dst clone_matches_block clone_of_block by (auto simp: b'_def blockOf_matches split: option.splits)
  ultimately show ?thesis unfolding movedInstance_def using p q(3) i blockOf_matches
    by (intro exI[of _ "blockOf (rs ! i)"] exI[of _ b'] exI[of _ im]) auto
qed

lemma moveInstance_correct:
  assumes "moveInstance st rs from to = Inr out" "ad_index to = Some ti" "indexOk ti"
    and "rok st" "\<forall>r \<in> set rs. rok r"
  shows "\<exists>fi rs'. ad_index from = Some fi \<and> rewritten st rs' out \<and> totalInstances rs' = totalInstances rs \<and> atTarget to ti rs'
    \<and> movedInstance from fi to ti rs rs'"
proof -
  obtain fi i where fi: "ad_index from = Some fi" and i: "firstPos (resourceMatches from) rs = Some i"
    using assms(1,2) by (auto simp: moveInstance_def split: option.splits)
  let ?dst = "firstPos (resourceMatches to) rs"
  obtain x n src' im rs' where pop: "popInstance (rs ! i) fi = Inr (Some (Some im), n, src')"
    and place: "placeInstance (rs[i := src']) i ?dst (Some (oput ''index_key'' (indexJSON ti) im)) n to = Inr rs'"
    and out: "encodeDoc st rs' = Inr out"
    using assms(1,2) fi i
    by (auto simp: moveInstance_def Let_def putMap_def split: option.splits sum.splits if_splits prod.splits)
  note i' = firstPos_Some [OF i]
  note len = popInstance_length [OF pop]
  have okx: "rok (Some (oput ''index_key'' (indexJSON ti) im))"
    using pop by (cases rule: popInstance_cases) (auto simp del: oput.simps)
  have dst: "d < length (rs[i := src']) \<and> resourceMatches to (rs[i := src'] ! d)" if "?dst = Some d" for d
    using firstPos_Some [OF that] popInstance_matches [OF pop, of to] i' by (cases "d = i") auto
  have oks: "\<forall>r \<in> set (rs[i := src']). rok r"
    using assms(5) i' len(4) set_update_subset_insert [of rs i src'] by auto
  have p: "totalInstances rs' = totalInstances (rs[i := src']) + 1" "atTarget to ti rs'" "\<forall>r \<in> set rs'. rok r"
    using placeInstance_correct [OF place _ _ dst oks okx indexKeyMatches_own [OF assms(3)]] i' len(1) by auto
  have "totalInstances rs' = totalInstances rs"
    using p(1) total_update [of i rs src'] i' len(1,2) by simp
  moreover have "movedInstance from fi to ti rs rs'"
    by (rule moved_placed[OF pop place _ _ len(1) okx]) (use i' firstPos_Some in auto)
  ultimately show ?thesis using encodeDoc_rewritten [OF out assms(4) p(3)] p(2) fi by blast
qed

text \<open>C2: When \<open>MoveResource\<close> between two indexed addresses succeeds, one instance with the source key leaves a
  block at the source address and stands, with the target key and otherwise as it was, in a block at the
  target address; every other instance is where and as it was, so that none is lost or duplicated. The
  target block is one that was there or a copy of the source block's other members, whether the target
  exists, is created, is the source block itself, or the source block is dropped when it empties.\<close>

theorem move_instance_conserves:
  assumes "decodeDoc raw = Inr (st, rs)" "parseAddress fromAddr = Inr from" "parseAddress toAddr = Inr to" "ad_index to = Some ti"
    and "moveResource raw fromAddr toAddr = Inr out"
  shows "\<exists>fi rs'. ad_index from = Some fi \<and> rewritten st rs' out \<and> totalInstances rs' = totalInstances rs \<and> atTarget to ti rs'
    \<and> movedInstance from fi to ti rs rs'"
proof -
  have "moveInstance st rs from to = Inr out"
    using assms by (auto simp: moveResource_def split: sum.splits if_splits)
  then show ?thesis
    using moveInstance_correct assms(4) parseAddress_indexOk [OF assms(3,4)] decodeDoc_rok [OF assms(1)]
    by blast
qed

theorem move_instance_conserves_witness:
  "\<exists>out rs'. moveResource sampleDoc ''aws.web[1]'' ''aws.db[0]'' = Inr out \<and> rewritten (Some sampleTop) rs' out
     \<and> totalInstances rs' = 2"
proof -
  have "case moveResource sampleDoc ''aws.web[1]'' ''aws.db[0]'' of Inl e \<Rightarrow> False | Inr out \<Rightarrow> True"
    by code_simp
  then obtain out where out: "moveResource sampleDoc ''aws.web[1]'' ''aws.db[0]'' = Inr out"
    by (auto split: sum.splits)
  have two: "totalInstances sampleRes = 2" by code_simp
  show ?thesis
    using move_instance_conserves [OF sampleDoc_decodes sampleAddrs(4) sampleAddrs(5) _ out, of "ICount 0"] out two by auto
qed

section \<open>Moving a whole resource\<close>

lemma moveScan_Some:
  "moveScan from to n target rs = Inr (Some i) \<Longrightarrow>
   (\<forall>r \<in> set rs. \<not> resourceMatches to r)
   \<and> (target = Some i \<and> (\<forall>r \<in> set rs. \<not> resourceMatches from r)
      \<or> n \<le> i \<and> i < n + length rs \<and> resourceMatches from (rs ! (i - n)))"
proof (induction rs arbitrary: n target)
  case Nil
  then show ?case by simp
next
  case (Cons r rs)
  have nr: "\<not> resourceMatches to r"
    and rec: "moveScan from to (Suc n) (if resourceMatches from r then Some n else target) rs = Inr (Some i)"
    using Cons.prems by (auto split: if_splits)
  show ?case
    using Cons.IH [OF rec] nr
    by (auto split: if_splits simp: nth_Cons Suc_le_eq Suc_diff_Suc [symmetric] simp del: Suc_diff_Suc)
qed

lemma readdress_matches: "resourceMatches a (Some (readdress to m)) \<longleftrightarrow>
    ad_module a = ad_module to \<and> ad_type a = ad_type to \<and> ad_name a = ad_name to"
  by (auto simp: resourceMatches_def strField_def readdress_def)

text \<open>A resource map names its address the way Terraform writes it: strings, no empty module.\<close>

definition canonicalAt :: "address \<Rightarrow> json gomap \<Rightarrow> bool" where
  "canonicalAt a m =
     (oget ''module'' m = (if ad_module a = [] then None else Some (JStr (ad_module a)))
      \<and> oget ''type'' m = Some (JStr (ad_type a)) \<and> oget ''name'' m = Some (JStr (ad_name a)))"

lemma readdress_ok: "omap_ok m \<Longrightarrow> omap_ok (readdress a m)"
  by (auto simp: readdress_def)

lemma readdress_back:
  assumes "omap_ok m" "canonicalAt a m"
  shows "readdress a (readdress b m) = m"
proof (rule oget_ext)
  show "omap_ok (readdress a (readdress b m))" using assms(1) by (simp add: readdress_ok)
  show "omap_ok m" by (rule assms(1))
  show "oget k (readdress a (readdress b m)) = oget k m" for k
    using assms(2) by (auto simp: readdress_def canonicalAt_def)
qed

lemma moveResource_whole:
  assumes "decodeDoc raw = Inr (st, rs)" "moveResource raw A B = Inr out"
    and "parseAddress A = Inr a" "parseAddress B = Inr b" "ad_index a = None" "ad_index b = None"
  obtains i m where "i < length rs" "rs ! i = Some m" "resourceMatches a (Some m)"
    "\<forall>r \<in> set rs. \<not> resourceMatches b r" "rewritten st (rs[i := Some (readdress b m)]) out"
proof -
  obtain i m where scan: "moveScan a b 0 None rs = Inr (Some i)" and m: "rs ! i = Some m"
    and out: "encodeDoc st (rs[i := Some (readdress b m)]) = Inr out"
    using assms by (auto simp: moveResource_def split: sum.splits option.splits)
  note sc = moveScan_Some [OF scan]
  have ok: "rok st" "\<forall>r \<in> set rs. rok r" using decodeDoc_rok [OF assms(1)] by auto
  have i: "i < length rs" "resourceMatches a (rs ! i)" using sc by auto
  have "omap_ok m" using ok(2) i(1) m by (metis nth_mem rok_simps(2))
  then have "\<forall>r \<in> set (rs[i := Some (readdress b m)]). rok r"
    using ok(2) set_update_subset_insert [of rs i "Some (readdress b m)"] by (auto simp: readdress_ok)
  then have "rewritten st (rs[i := Some (readdress b m)]) out" by (rule encodeDoc_rewritten [OF out ok(1)])
  with that i m sc show ?thesis by auto
qed

lemma moved_back:
  assumes i: "i < length rs" "rs ! i = Some m" "resourceMatches a (Some m)"
    and nb: "\<forall>r \<in> set rs. \<not> resourceMatches b r"
    and j: "j < length rs" "rs[i := Some (readdress b m)] ! j = Some m'" "resourceMatches b (Some m')"
  shows "j = i \<and> m' = readdress b m"
proof (rule ccontr)
  assume "\<not> (j = i \<and> m' = readdress b m)"
  then have "j \<noteq> i" using j i(1) by (cases "j = i") auto
  then have "rs ! j = Some m'" using j(2) by simp
  with nb j(1,3) show False by (metis nth_mem)
qed

text \<open>Moving a whole resource to another address and back gives the resources the state had, in
  the same order and with every field, and changes nothing but the serial, which both moves
  raise (assuming the moved block names its address canonically).\<close>

theorem move_there_and_back:
  assumes "decodeDoc raw = Inr (st, rs)" "parseAddress A = Inr a" "parseAddress B = Inr b"
    and "ad_index a = None" "ad_index b = None"
    and "moveResource raw A B = Inr out" "moveResource out B A = Inr out'"
    and "\<forall>m. Some m \<in> set rs \<and> resourceMatches a (Some m) \<longrightarrow> canonicalAt a m"
  shows "\<exists>m m''. st = Some m \<and> decodeDoc out' = Inr (Some m'', rs)
    \<and> (\<forall>k. k \<notin> {''resources'', ''serial''} \<longrightarrow> oget k m'' = oget k m)
    \<and> serialOf m'' = sint (int64_of (serialOf m) + 2)"
proof -
  obtain i m where i: "i < length rs" "rs ! i = Some m" "resourceMatches a (Some m)"
    and nb: "\<forall>r \<in> set rs. \<not> resourceMatches b r"
    and rw: "rewritten st (rs[i := Some (readdress b m)]) out"
    by (rule moveResource_whole [OF assms(1,6,2,3,4,5)])
  let ?rs1 = "rs[i := Some (readdress b m)]"
  obtain top top' where st: "st = Some top" and dec: "decodeDoc out = Inr (Some top', ?rs1)"
    and frame: "\<forall>k. k \<notin> {''resources'', ''serial''} \<longrightarrow> oget k top' = oget k top"
    and ser: "serialOf top' = sint (int64_of (serialOf top) + 1)"
    using rw by (auto simp: rewritten_def)
  obtain j m' where j: "j < length ?rs1" "?rs1 ! j = Some m'" "resourceMatches b (Some m')"
    and rw2: "rewritten (Some top') (?rs1[j := Some (readdress a m')]) out'"
    by (rule moveResource_whole [OF dec assms(7,3,2,5,4)])
  have ji: "j = i \<and> m' = readdress b m" using moved_back [OF i nb _ j(2,3)] j(1) by simp
  have "omap_ok m" using decodeDoc_rok [OF assms(1)] i by (metis nth_mem rok_simps(2))
  moreover have "canonicalAt a m" using assms(8) i by (metis nth_mem)
  ultimately have "readdress a m' = m" using ji readdress_back by simp
  then have "?rs1[j := Some (readdress a m')] = rs" using ji i by (simp add: list_update_same_conv)
  with rw2 obtain top'' where dec2: "decodeDoc out' = Inr (Some top'', rs)"
    and frame2: "\<forall>k. k \<notin> {''resources'', ''serial''} \<longrightarrow> oget k top'' = oget k top'"
    and ser2: "serialOf top'' = sint (int64_of (serialOf top') + 1)"
    by (auto simp: rewritten_def)
  have "int64_of (serialOf top') = int64_of (serialOf top) + 1"
    by (simp add: ser int64_of_def)
  then have "serialOf top'' = sint (int64_of (serialOf top) + 2)"
    by (simp add: ser2 add.commute)
  then show ?thesis
    using st dec2 frame frame2 by (intro exI [of _ top] exI [of _ top'']) simp
qed

theorem move_there_and_back_witness:
  "\<exists>out out' m. moveResource sampleDoc ''aws.web'' ''aws.new'' = Inr out
     \<and> moveResource out ''aws.new'' ''aws.web'' = Inr out' \<and> decodeDoc out' = Inr (Some m, sampleRes)"
proof -
  have "case moveResource sampleDoc ''aws.web'' ''aws.new'' of Inl e \<Rightarrow> False
    | Inr out \<Rightarrow> (case moveResource out ''aws.new'' ''aws.web'' of Inl e \<Rightarrow> False | Inr out' \<Rightarrow> True)"
    by code_simp
  then obtain out out' where out: "moveResource sampleDoc ''aws.web'' ''aws.new'' = Inr out"
      "moveResource out ''aws.new'' ''aws.web'' = Inr out'"
    by (auto split: sum.splits)
  have can: "\<forall>m. Some m \<in> set sampleRes \<and>
      resourceMatches \<lparr>ad_module = [], ad_type = ''aws'', ad_name = ''web'', ad_index = None\<rparr> (Some m)
      \<longrightarrow> canonicalAt \<lparr>ad_module = [], ad_type = ''aws'', ad_name = ''web'', ad_index = None\<rparr> m"
    by (auto simp: sampleRes_def resourceMatches_def strField_def oget_def canonicalAt_def)
  show ?thesis
    using move_there_and_back [OF sampleDoc_decodes sampleAddrs(1,3) _ _ out can] out by auto
qed

section \<open>Errors and panics\<close>

lemma popInstance_no_panic: "popInstance r k \<noteq> Inl GoPanic"
proof
  assume h: "popInstance r k = Inl GoPanic"
  then obtain insts where "decodeInstances r = Some insts"
    by (auto simp: popInstance_def split: option.splits)
  moreover obtain y kept where "popFirst (indexKeyMatches k) insts = (y, kept)" by fastforce
  moreover have "insts = []" if "r = None"
    using that calculation(1) by (simp add: decodeInstances_def decodeMaps_def)
  ultimately show False
    using h by (cases r) (auto simp: popInstance_def putMap_def split: option.splits)
qed

lemma removeLoop_no_panic: "removeLoop a rs \<noteq> Inl GoPanic"
proof (induction rs)
  case Nil
  then show ?case by simp
next
  case (Cons r rs)
  then show ?case
    using popInstance_no_panic [of r] by (auto split: option.splits sum.splits prod.splits)
qed

lemma indexKeyMatches_nil: "\<not> indexKeyMatches k None"
  by (simp add: indexKeyMatches_def)

lemma popInstance_inst: "popInstance r k = Inr (Some x, n, r') \<Longrightarrow> x \<noteq> None \<and> r' \<noteq> None"
  by (erule popInstance_cases) (cases x; auto simp: indexKeyMatches_nil dest!: popFirst_Some)+

lemma placeInstance_no_panic:
  "(\<And>d. dst = Some d \<Longrightarrow> rs ! d \<noteq> None) \<Longrightarrow> placeInstance rs src dst inst n to \<noteq> Inl GoPanic"
  by (auto simp: placeInstance_def putMap_def split: option.splits sum.splits)

lemma decodeDoc_no_panic: "decodeDoc raw \<noteq> Inl GoPanic"
  by (auto simp: decodeDoc_def split: option.splits)

lemma removeResource_no_panic: "removeResource raw addr \<noteq> Inl GoPanic"
proof
  assume h: "removeResource raw addr = Inl GoPanic"
  then obtain st rs where dec: "decodeDoc raw = Inr (st, rs)"
    using decodeDoc_no_panic [of raw] by (auto simp: removeResource_def split: sum.splits)
  then have "st \<noteq> None \<or> rs = []" using decodeDoc_nil by (cases st) auto
  then show False
    using h dec removeLoop_no_panic
    by (auto simp: removeResource_def encodeDoc_def split: sum.splits option.splits if_splits)
qed

text \<open>\<open>RemoveResource\<close> never panics, whatever the document and the address; \<open>MoveResource\<close>
  never panics on a document whose resources are all objects.\<close>

theorem stateops_no_panic:
  shows "removeResource raw addr \<noteq> Inl GoPanic
    \<and> ((\<forall>st rs. decodeDoc raw = Inr (st, rs) \<longrightarrow> None \<notin> set rs)
        \<longrightarrow> moveResource raw fromAddr toAddr \<noteq> Inl GoPanic)"
proof (intro conjI impI removeResource_no_panic, cases "decodeDoc raw")
  case (Inl e)
  then have "e \<noteq> GoPanic" using decodeDoc_no_panic [of raw] by auto
  with Inl show "moveResource raw fromAddr toAddr \<noteq> Inl GoPanic" by (simp add: moveResource_def)
next
  assume assms: "\<forall>st rs. decodeDoc raw = Inr (st, rs) \<longrightarrow> None \<notin> set rs"
  case (Inr p)
  obtain st rs where p: "p = (st, rs)" by fastforce
  have st: "st \<noteq> None" if "rs \<noteq> []" using decodeDoc_nil [of raw rs] that Inr p by auto
  have "None \<notin> set rs" using assms Inr p by simp
  then have objs: "\<forall>r \<in> set rs. r \<noteq> None" by metis
  have enc: "encodeDoc st xs \<noteq> Inl GoPanic" if "rs \<noteq> []" for xs
    using st [OF that] by (auto simp: encodeDoc_def split: option.splits)
  have mi: "moveInstance st rs frm to \<noteq> Inl GoPanic" for frm to
  proof
    assume h: "moveInstance st rs frm to = Inl GoPanic"
    then obtain fi ti i where idx: "ad_index frm = Some fi" "ad_index to = Some ti"
        "firstPos (resourceMatches frm) rs = Some i"
      by (auto simp: moveInstance_def split: option.splits)
    let ?dst = "firstPos (resourceMatches to) rs"
    have i: "i < length rs" using firstPos_Some [OF idx(3)] by simp
    then have ne: "rs \<noteq> []" by auto
    have d: "rs[i := src'] ! d \<noteq> None" if "?dst = Some d" "src' \<noteq> None" for d src'
      using firstPos_Some [OF that(1)] that(2) objs i by (cases "d = i") auto
    show False
      using h idx i enc [OF ne] d popInstance_no_panic [of "rs ! i" fi]
      by (auto simp: moveInstance_def Let_def putMap_def split: option.splits sum.splits if_splits prod.splits
          dest!: popInstance_inst placeInstance_no_panic [THEN notE, rotated])
  qed
  have "rs \<noteq> []" if "moveScan frm to 0 None rs = Inr (Some i)" for frm to i
    using that by (cases rs) auto
  moreover have "moveScan frm to n t xs \<noteq> Inl GoPanic" for frm to n t xs
    by (induction frm to n t xs rule: moveScan.induct) auto
  ultimately show "moveResource raw fromAddr toAddr \<noteq> Inl GoPanic"
    using Inr p mi enc by (auto simp: moveResource_def split: sum.splits option.splits)
qed

theorem stateops_no_panic_witness:
  "moveResource sampleDoc ''aws.web[1]'' ''aws.db[0]'' \<noteq> Inl GoPanic"
proof -
  have "None \<notin> set sampleRes" by (simp add: sampleRes_def)
  then have "\<forall>st rs. decodeDoc sampleDoc = Inr (st, rs) \<longrightarrow> None \<notin> set rs"
    by (simp add: sampleDoc_decodes)
  with stateops_no_panic [of sampleDoc] show ?thesis by blast
qed

text \<open>A null among the resources makes an indexed move panic when its target names no type and
  no name: the null element matches that address and the instance is written into its nil map.\<close>

theorem move_into_null_panics:
  "moveResource (Doc (JObj [(''resources'', JArr
      [JObj [(''type'', JStr ''a''), (''name'', JStr ''b''),
             (''instances'', JArr [JObj [(''index_key'', JNum ''0'')]])],
       JNull])])) ''a.b[0]'' ''.[0]'' = Inl GoPanic"
  by code_simp

section \<open>Parsing addresses\<close>

definition moduleParts :: "string list \<Rightarrow> string list" where
  "moduleParts mods = concat (map (\<lambda>m. [''module'', m]) mods)"

definition renderAddress :: "string list \<Rightarrow> string \<Rightarrow> string \<Rightarrow> int option \<Rightarrow> string" where
  "renderAddress mods t n idx =
     joinWith ''.'' (moduleParts mods @ [t, n])
     @ (case idx of None \<Rightarrow> [] | Some i \<Rightarrow> ''['' @ itoa i @ '']'')"

definition plainWord :: "string \<Rightarrow> bool" where
  "plainWord w = (w \<noteq> [] \<and> (\<forall>c \<in> set w. c \<noteq> CHR ''.'' \<and> c \<noteq> CHR ''['' \<and> \<not> isSpace c))"

lemma takeModules_parts:
  "t \<noteq> ''module'' \<Longrightarrow> takeModules (moduleParts mods @ [t, n]) = (moduleParts mods, [t, n])"
  by (induction mods) (auto simp: moduleParts_def)

lemma itoa_chars: "c \<in> set (itoa i) \<Longrightarrow> isDigit c \<or> c = CHR ''-''"
  using decDigits_digits [of i] decDigits_digits [of "- i"]
  by (auto simp: itoa_def list_all_iff split: if_splits)

lemma itoa_nonempty: "itoa i \<noteq> []"
  using decDigits_digits [of i] by (auto simp: itoa_def)

lemma parseIndexKey_count:
  assumes "inInt64 i"
  shows "parseIndexKey (''['' @ itoa i @ '']'') = Inr (ICount i)"
proof -
  have "hd (itoa i) \<noteq> CHR 0x22"
    using itoa_chars [of "hd (itoa i)" i] itoa_nonempty [of i] by (auto simp: isDigit_def)
  then show ?thesis
    using itoa_nonempty [of i] atoi_itoa [OF assms]
    by (cases "itoa i") (auto simp: parseIndexKey_def Let_def butlast_append)
qed

lemma joinWith_ends:
  "ws \<noteq> [] \<Longrightarrow> hd ws \<noteq> [] \<Longrightarrow> last ws \<noteq> [] \<Longrightarrow>
   joinWith sep ws \<noteq> [] \<and> hd (joinWith sep ws) = hd (hd ws) \<and> last (joinWith sep ws) = last (last ws)"
proof (induction ws)
  case Nil
  then show ?case by simp
next
  case (Cons w ws)
  show ?case
  proof (cases "ws = []")
    case True
    with Cons.prems show ?thesis by simp
  next
    case False
    then obtain v vs where ws: "ws = v # vs" by (cases ws) auto
    have "joinWith sep ws \<noteq> [] \<and> last (joinWith sep ws) = last (last ws)"
      using Cons.prems False
    proof (induction ws)
      case Nil
      then show ?case by simp
    next
      case (Cons u us)
      then show ?case by (cases us) (auto simp: last_append)
    qed
    with Cons.prems False ws show ?thesis by (auto simp: joinWith_Cons last_append)
  qed
qed

text \<open>Parsing is inverse to rendering: an address of module names, a type, a name and maybe a
  count index, of words without dots, brackets or spaces and with a type other than module,
  parses to exactly these parts.\<close>

theorem parse_render_address:
  assumes "plainWord t" "plainWord n" "\<forall>m \<in> set mods. plainWord m" "t \<noteq> ''module''"
    and "\<forall>i. idx = Some i \<longrightarrow> inInt64 i"
  shows "parseAddress (renderAddress mods t n idx)
    = Inr \<lparr>ad_module = joinWith ''.'' (moduleParts mods), ad_type = t, ad_name = n,
           ad_index = map_option ICount idx\<rparr>"
proof -
  define suffix where "suffix = (case idx of None \<Rightarrow> [] | Some i \<Rightarrow> ''['' @ itoa i @ '']'')"
  let ?parts = "moduleParts mods @ [t, n @ suffix]"
  have addr: "renderAddress mods t n idx = joinWith ''.'' ?parts"
    using joinWith_append [of "moduleParts mods @ [t]" "[n]" "''.''"]
      joinWith_append [of "moduleParts mods @ [t]" "[n @ suffix]" "''.''"]
    by (simp add: renderAddress_def suffix_def)
  have suf: "c \<in> set suffix \<Longrightarrow> c \<noteq> CHR ''.'' \<and> \<not> isSpace c" for c
    by (auto simp: suffix_def isDigit_def isSpace_def dest!: itoa_chars split: option.splits)
  have "\<forall>w \<in> set ?parts. CHR ''.'' \<notin> set w"
    using assms(1,2,3) suf by (auto simp: plainWord_def moduleParts_def)
  then have split: "splitOn (CHR ''.'') (joinWith ''.'' ?parts) = ?parts"
    by (intro split_join) auto
  have ends: "hd ?parts \<noteq> []" "\<not> isSpace (hd (hd ?parts))" "last ?parts \<noteq> []" "\<not> isSpace (last (last ?parts))"
    using assms(1,2) suf [of "last suffix"]
    by (cases mods; cases "suffix = []"; auto simp: plainWord_def moduleParts_def isSpace_def last_append)+
  then have trim: "trimSpace (joinWith ''.'' ?parts) = joinWith ''.'' ?parts" "joinWith ''.'' ?parts \<noteq> []"
    using joinWith_ends [of ?parts "''.''"] by (auto intro: trimSpace_id)
  have idx: "strIndex (n @ suffix) ''['' = (if suffix = [] then None else Some (length n))"
  proof (cases "suffix = []")
    case True
    have "strIndex n ''['' \<noteq> Some j" for j
    proof
      assume "strIndex n ''['' = Some j"
      then have "hasPrefix (drop j n) ''[''" using strIndex_Some_drop by blast
      then have "CHR ''['' \<in> set (drop j n)" by (auto simp: hasPrefix_iff)
      then show False using assms(2) by (auto simp: plainWord_def dest: in_set_dropD)
    qed
    with True show ?thesis by (cases "strIndex n ''[''") auto
  next
    case False
    then obtain r where "suffix = ''['' @ r" by (auto simp: suffix_def split: option.splits)
    then show ?thesis
      using False assms(2) strIndex_append [of "''[''" n r] by (auto simp: plainWord_def)
  qed
  have key: "parseIndexKey suffix = Inr (ICount i)" if "idx = Some i" for i
    using parseIndexKey_count assms(5) that by (simp add: suffix_def)
  show ?thesis
    unfolding addr parseAddress_def
    by (cases idx) (use trim split takeModules_parts [OF assms(4)] idx key in \<open>auto simp: Let_def suffix_def\<close>)
qed

theorem parse_render_address_witness:
  "parseAddress (renderAddress [''vpc''] ''aws_subnet'' ''a'' (Some 2))
   = Inr \<lparr>ad_module = joinWith ''.'' (moduleParts [''vpc'']), ad_type = ''aws_subnet'', ad_name = ''a'',
          ad_index = map_option ICount (Some 2)\<rparr>"
  by (rule parse_render_address) (simp_all add: plainWord_def isSpace_def inInt64_def)

end
