(* ===== verification/Locks.thy ===== *)
theory Locks
  imports Prelude
begin

text \<open>
  \<open>internal/db/repositories/lock_repository.go\<close>: advisory locks as rows of \<open>state_locks\<close>.

  A table is the list of its rows. Each statement of the repository is one definition, the
  clock the database reads and the id it draws are arguments, and so is whether the statement
  fails. \<open>UNIQUE (source_id, state_key)\<close> is what \<open>insertLock\<close> checks; the rows that go with a deleted
  source are not followed. Sessions
  interleave between statements: \<open>lockEvent\<close> lists the statements and \<open>lockExec\<close> runs a
  sequence of them. Times are microseconds.
\<close>

section \<open>The table and its statements\<close>

record stateLock =
  lk_ID :: string
  lk_SourceID :: string
  lk_StateKey :: string
  lk_Actor :: string
  lk_AcquiredAt :: int
  lk_RenewedAt :: int

definition staleLockTTL :: int where
  "staleLockTTL = 15 * 60 * 1000000"

definition LockRenewInterval :: int where
  "LockRenewInterval = 5 * 60 * 1000000"

definition isFor :: "string \<Rightarrow> string \<Rightarrow> stateLock \<Rightarrow> bool" where
  "isFor src key l = (lk_SourceID l = src \<and> lk_StateKey l = key)"

definition reapLocks :: "string \<Rightarrow> string \<Rightarrow> int \<Rightarrow> stateLock list \<Rightarrow> stateLock list" where
  "reapLocks src key now t = filter (\<lambda>l. \<not> (isFor src key l \<and> lk_RenewedAt l < now - staleLockTTL)) t"

text \<open>\<open>UNIQUE (source_id, state_key)\<close> of the table; in \<open>insertLock\<close> its violation is None.\<close>

definition lockTaken :: "string \<Rightarrow> string \<Rightarrow> stateLock list \<Rightarrow> bool" where
  "lockTaken src key t = (\<exists>l \<in> set t. isFor src key l)"

definition insertLock :: "string \<Rightarrow> string \<Rightarrow> string \<Rightarrow> string \<Rightarrow> int \<Rightarrow> stateLock list \<Rightarrow> stateLock list option" where
  "insertLock src key actor lid now t =
     (if lockTaken src key t then None
      else Some (t @ [\<lparr>lk_ID = lid, lk_SourceID = src, lk_StateKey = key, lk_Actor = actor,
                       lk_AcquiredAt = now, lk_RenewedAt = now\<rparr>]))"

definition holderRow :: "string \<Rightarrow> string \<Rightarrow> stateLock list \<Rightarrow> stateLock option" where
  "holderRow src key t = List.find (isFor src key) t"

datatype lockErr =
    LockDBError
  | ErrLocked
  | ErrLockedBy string int

text \<open>What the database does to one call of \<open>Acquire\<close>: the clock at the two statements, the
  id drawn, and which statements fail for reasons of their own.\<close>

record lockEnv =
  le_reapAt :: int
  le_insertAt :: int
  le_newID :: string
  le_reapFails :: bool
  le_insertFails :: bool
  le_holderFails :: bool

definition acquire :: "lockEnv \<Rightarrow> string \<Rightarrow> string \<Rightarrow> string \<Rightarrow> stateLock list \<Rightarrow> (lockErr + string) \<times> stateLock list" where
  "acquire env src key actor t =
     (if le_reapFails env then (Inl LockDBError, t)
      else
        (let t1 = reapLocks src key (le_reapAt env) t
         in if le_insertFails env then (Inl LockDBError, t1)
            else (case insertLock src key actor (le_newID env) (le_insertAt env) t1 of
                    Some t2 \<Rightarrow> (Inr (le_newID env), t2)
                  | None \<Rightarrow>
                      (case (if le_holderFails env then None else holderRow src key t1) of
                         Some l \<Rightarrow> (Inl (ErrLockedBy (lk_Actor l) (lk_AcquiredAt l)), t1)
                       | None \<Rightarrow> (Inl ErrLocked, t1)))))"

definition isHeldBy :: "string \<Rightarrow> string \<Rightarrow> string \<Rightarrow> stateLock \<Rightarrow> bool" where
  "isHeldBy src key lid l = (lk_ID l = lid \<and> isFor src key l)"

text \<open>\<open>Renew\<close> also reports whether a row was updated.\<close>

definition renew :: "string \<Rightarrow> string \<Rightarrow> string \<Rightarrow> int \<Rightarrow> stateLock list \<Rightarrow> bool \<times> stateLock list" where
  "renew src key lid now t =
     (\<exists>l \<in> set t. isHeldBy src key lid l,
      map (\<lambda>l. if isHeldBy src key lid l then l\<lparr>lk_RenewedAt := now\<rparr> else l) t)"

definition release :: "string \<Rightarrow> string \<Rightarrow> string \<Rightarrow> stateLock list \<Rightarrow> stateLock list" where
  "release src key lid t = filter (\<lambda>l. \<not> isHeldBy src key lid l) t"

definition forceRelease :: "string \<Rightarrow> string \<Rightarrow> stateLock list \<Rightarrow> bool \<times> stateLock list" where
  "forceRelease src key t = (\<exists>l \<in> set t. isFor src key l, filter (\<lambda>l. \<not> isFor src key l) t)"

text \<open>\<open>ORDER BY acquired_at DESC\<close>.\<close>

definition listLocks :: "string \<Rightarrow> stateLock list \<Rightarrow> stateLock list" where
  "listLocks src t = sort_key (\<lambda>l. - lk_AcquiredAt l) (filter (\<lambda>l. lk_SourceID l = src) t)"

text \<open>One round of the loop of \<open>KeepAlive\<close>: the clock of the tick, or None when that \<open>Renew\<close> returned an error;
  whether the loop goes on.\<close>

definition keepAliveTick :: "string \<Rightarrow> string \<Rightarrow> string \<Rightarrow> int option \<Rightarrow> stateLock list \<Rightarrow> bool \<times> stateLock list" where
  "keepAliveTick src key lid tick t =
     (case tick of
        None \<Rightarrow> (True, t)
      | Some now \<Rightarrow> (case renew src key lid now t of (alive, t') \<Rightarrow> (if \<not> alive then False else True, t')))"

text \<open>The goroutine: one element per tick of its timer until \<open>stop\<close> is closed. It ends early when the row is gone.\<close>

fun keepAlive :: "string \<Rightarrow> string \<Rightarrow> string \<Rightarrow> int option list \<Rightarrow> stateLock list \<Rightarrow> bool \<times> stateLock list" where
  "keepAlive src key lid [] t = (True, t)"
| "keepAlive src key lid (tick # ticks) t =
     (case keepAliveTick src key lid tick t of (goes, t') \<Rightarrow> if goes then keepAlive src key lid ticks t' else (False, t'))"

section \<open>Sessions\<close>

datatype lockEvent =
    EvReap string string
  | EvInsert string string string string
  | EvRenew string string string
  | EvRelease string string string
  | EvForce string string

text \<open>One statement at a time of the clock; the second component tells an insert that the key was
  held.\<close>

fun lockExec1 :: "int \<Rightarrow> lockEvent \<Rightarrow> stateLock list \<Rightarrow> stateLock list \<times> bool" where
  "lockExec1 now (EvReap src key) t = (reapLocks src key now t, False)"
| "lockExec1 now (EvInsert src key actor lid) t =
     (case insertLock src key actor lid now t of None \<Rightarrow> (t, True) | Some t' \<Rightarrow> (t', False))"
| "lockExec1 now (EvRenew src key lid) t = (snd (renew src key lid now t), False)"
| "lockExec1 now (EvRelease src key lid) t = (release src key lid t, False)"
| "lockExec1 now (EvForce src key) t = (snd (forceRelease src key t), False)"

fun lockExec :: "(int \<times> lockEvent) list \<Rightarrow> stateLock list \<Rightarrow> stateLock list \<times> bool list" where
  "lockExec [] t = (t, [])"
| "lockExec ((now, e) # es) t =
     (case lockExec1 now e t of (t', held) \<Rightarrow> (case lockExec es t' of (t'', rest) \<Rightarrow> (t'', held # rest)))"

section \<open>At most one row per key\<close>

definition oneHolder :: "stateLock list \<Rightarrow> bool" where
  "oneHolder t = distinct (map (\<lambda>l. (lk_SourceID l, lk_StateKey l)) t)"

lemma oneHolder_filter [intro]: "oneHolder t \<Longrightarrow> oneHolder (filter P t)"
  by (simp add: oneHolder_def distinct_map_filter)

lemma oneHolder_renew: "oneHolder (snd (renew src key lid now t)) = oneHolder t"
  by (simp add: oneHolder_def renew_def comp_def if_distrib cong: if_cong)

lemma oneHolder_insert: "oneHolder t \<Longrightarrow> insertLock src key actor lid now t = Some t' \<Longrightarrow> oneHolder t'"
  by (auto simp: oneHolder_def insertLock_def lockTaken_def isFor_def split: if_splits)

lemma lockExec1_oneHolder: "oneHolder t \<Longrightarrow> oneHolder (fst (lockExec1 now e t))"
  by (cases e) (auto simp: reapLocks_def release_def forceRelease_def oneHolder_renew oneHolder_insert split: option.splits)

lemma oneHolder_unique:
  "oneHolder t \<Longrightarrow> l \<in> set t \<Longrightarrow> l' \<in> set t \<Longrightarrow> isFor src key l \<Longrightarrow> isFor src key l' \<Longrightarrow> l = l'"
  by (auto simp: oneHolder_def isFor_def distinct_map inj_on_def)

text \<open>Whatever the order in which the statements of any number of sessions interleave, the
  table never holds two rows for one source and key.\<close>

theorem at_most_one_holder:
  assumes "oneHolder t"
  shows "oneHolder (fst (lockExec es t))"
  using assms
proof (induction es arbitrary: t)
  case (Cons e es)
  obtain now ev where e: "e = (now, ev)" by (cases e)
  have "oneHolder (fst (lockExec es (fst (lockExec1 now ev t))))"
    by (rule Cons.IH[OF lockExec1_oneHolder[OF Cons.prems]])
  then show ?case by (simp add: e split_beta)
qed simp

theorem at_most_one_holder_witness:
  "oneHolder (fst (lockExec [(0, EvInsert ''s'' ''k'' ''a'' ''1''), (1, EvInsert ''s'' ''k'' ''b'' ''2''),
     (2, EvInsert ''s'' ''j'' ''b'' ''3'')] []))"
  by (rule at_most_one_holder) (simp add: oneHolder_def)

section \<open>A renewed lock is never taken over\<close>

text \<open>The renewals are close enough: no event is later than the since renewal by more than the
  time to live.\<close>

fun heartbeat :: "string \<Rightarrow> string \<Rightarrow> string \<Rightarrow> int \<Rightarrow> (int \<times> lockEvent) list \<Rightarrow> bool" where
  "heartbeat src key lid since [] = True"
| "heartbeat src key lid since ((now, e) # es) =
     (now \<le> since + staleLockTTL
      \<and> heartbeat src key lid (if e = EvRenew src key lid then now else since) es)"

definition holdsSince :: "string \<Rightarrow> string \<Rightarrow> string \<Rightarrow> int \<Rightarrow> stateLock list \<Rightarrow> bool" where
  "holdsSince src key lid since t = (\<exists>l \<in> set t. isHeldBy src key lid l \<and> since \<le> lk_RenewedAt l)"

definition sparesLock :: "string \<Rightarrow> string \<Rightarrow> string \<Rightarrow> lockEvent \<Rightarrow> bool" where
  "sparesLock src key lid e = (e \<noteq> EvRelease src key lid \<and> e \<noteq> EvForce src key)"

lemma holdsSince_step:
  assumes "oneHolder t" "holdsSince src key lid since t" "sparesLock src key lid e" "now \<le> since + staleLockTTL"
  shows "holdsSince src key lid (if e = EvRenew src key lid then now else since) (fst (lockExec1 now e t))"
proof -
  from assms(2) obtain l where l: "l \<in> set t" "isHeldBy src key lid l" "since \<le> lk_RenewedAt l"
    by (auto simp: holdsSince_def)
  show ?thesis
  proof (cases e)
    case (EvReap s k)
    with l assms(4) show ?thesis by (auto simp: holdsSince_def reapLocks_def)
  next
    case (EvInsert s k a i)
    with l show ?thesis by (auto simp: holdsSince_def insertLock_def lockTaken_def)
  next
    case (EvRenew s k i)
    show ?thesis
    proof (cases "isHeldBy s k i l")
      case True
      with l EvRenew have "e = EvRenew src key lid" by (auto simp: isHeldBy_def isFor_def)
      have "isHeldBy src key lid (l\<lparr>lk_RenewedAt := now\<rparr>)" using l(2) by (simp add: isHeldBy_def isFor_def)
      moreover have "l\<lparr>lk_RenewedAt := now\<rparr> \<in> set (snd (renew src key lid now t))"
        using l(1,2) by (auto simp: renew_def)
      ultimately show ?thesis unfolding \<open>e = EvRenew src key lid\<close> holdsSince_def by fastforce
    next
      case False
      with l EvRenew have "e \<noteq> EvRenew src key lid" by auto
      with False l EvRenew show ?thesis
        by (auto simp: holdsSince_def renew_def intro!: bexI[of _ l])
    qed
  next
    case (EvRelease s k i)
    with l assms(3) have "\<not> isHeldBy s k i l" by (auto simp: sparesLock_def isHeldBy_def isFor_def)
    with l EvRelease show ?thesis by (auto simp: holdsSince_def release_def)
  next
    case (EvForce s k)
    with l assms(3) have "\<not> isFor s k l" by (auto simp: sparesLock_def isHeldBy_def isFor_def)
    with l EvForce show ?thesis by (auto simp: holdsSince_def forceRelease_def)
  qed
qed

lemma holdsSince_rejects: "holdsSince src key lid since t \<Longrightarrow> snd (lockExec1 now (EvInsert src key actor i) t)"
  by (auto simp: holdsSince_def isHeldBy_def insertLock_def lockTaken_def)

lemma renewed_lock_kept:
  assumes "oneHolder t" "holdsSince src key lid since t" "heartbeat src key lid since es"
    and "\<forall>(now, e) \<in> set es. sparesLock src key lid e"
  shows "(\<exists>l \<in> set (fst (lockExec es t)). isHeldBy src key lid l)
    \<and> (\<forall>i < length es. \<forall>actor j. snd (es ! i) = EvInsert src key actor j \<longrightarrow> snd (lockExec es t) ! i)"
  using assms
proof (induction es arbitrary: t since)
  case Nil
  then show ?case by (auto simp: holdsSince_def)
next
  case (Cons p es)
  obtain now e where p: "p = (now, e)" by (cases p)
  obtain t' held where st: "lockExec1 now e t = (t', held)" by (cases "lockExec1 now e t")
  obtain t'' rest where rec: "lockExec es t' = (t'', rest)" by (cases "lockExec es t'")
  let ?since = "if e = EvRenew src key lid then now else since"
  have "holdsSince src key lid ?since t'" and "oneHolder t'"
    using Cons.prems holdsSince_step[of t src key lid since e now] lockExec1_oneHolder[of t now e] st p by auto
  with Cons.IH[of t' ?since] Cons.prems rec p
  have IH: "\<exists>l \<in> set t''. isHeldBy src key lid l"
      "\<forall>i < length es. \<forall>actor j. snd (es ! i) = EvInsert src key actor j \<longrightarrow> rest ! i" by auto
  have "held" if "e = EvInsert src key actor j" for actor j
    using holdsSince_rejects[OF Cons.prems(2), of now actor j] st that by simp
  then show ?case using IH st rec p by (auto simp: nth_Cons split: nat.splits)
qed

text \<open>C4: A holder that renews in time keeps its lock whatever other sessions do: its row stays,
  and every attempt to insert a second row for the key in the meantime is refused, unless the
  holder releases or an administrator forces the lock open.\<close>

theorem renewed_lock_never_stolen:
  assumes "oneHolder t" "holdsSince src key lid since t" "heartbeat src key lid since es"
    and "\<forall>(now, e) \<in> set es. sparesLock src key lid e"
  shows "(\<exists>l \<in> set (fst (lockExec es t)). isHeldBy src key lid l)
    \<and> (\<forall>i < length es. \<forall>actor j. snd (es ! i) = EvInsert src key actor j \<longrightarrow> snd (lockExec es t) ! i)"
  using renewed_lock_kept[OF assms] .

theorem renewed_lock_never_stolen_witness:
  "\<exists>l \<in> set (fst (lockExec [(600000000, EvRenew ''s'' ''k'' ''1''), (1400000000, EvReap ''s'' ''k''),
       (1400000001, EvInsert ''s'' ''k'' ''b'' ''2'')]
     [\<lparr>lk_ID = ''1'', lk_SourceID = ''s'', lk_StateKey = ''k'', lk_Actor = ''a'', lk_AcquiredAt = 0, lk_RenewedAt = 0\<rparr>])).
     isHeldBy ''s'' ''k'' ''1'' l"
  by (rule conjunct1[OF renewed_lock_never_stolen[where since = 0]])
    (simp_all add: oneHolder_def holdsSince_def isHeldBy_def isFor_def staleLockTTL_def sparesLock_def)

subsection \<open>The heartbeat of KeepAlive\<close>

text \<open>The goroutine among other sessions, one segment per interval of its timer: what the others do in it, and
  whether the database answers the renewal at its end. Once the loop has ended it renews no more.\<close>

fun keepAliveAmong ::
    "string \<Rightarrow> string \<Rightarrow> string \<Rightarrow> bool \<Rightarrow> int \<Rightarrow> ((int \<times> lockEvent) list \<times> bool) list \<Rightarrow> stateLock list \<Rightarrow> bool \<times> stateLock list" where
  "keepAliveAmong src key lid goes start [] t = (goes, t)"
| "keepAliveAmong src key lid goes start ((others, ok) # segs) t =
     (let t1 = fst (lockExec others t); now = start + LockRenewInterval
      in if goes
         then (case keepAliveTick src key lid (if ok then Some now else None) t1 of
                 (goes', t2) \<Rightarrow> keepAliveAmong src key lid goes' now segs t2)
         else keepAliveAmong src key lid False now segs t1)"

fun withinTicks :: "int \<Rightarrow> ((int \<times> lockEvent) list \<times> bool) list \<Rightarrow> bool" where
  "withinTicks start [] = True"
| "withinTicks start ((others, ok) # segs) =
     (list_all (\<lambda>p. fst p \<le> start + LockRenewInterval) others \<and> withinTicks (start + LockRenewInterval) segs)"

text \<open>Never three failed renewals in a row, \<open>k\<close> of them counted before the first segment.\<close>

fun fewMisses :: "nat \<Rightarrow> ((int \<times> lockEvent) list \<times> bool) list \<Rightarrow> bool" where
  "fewMisses k [] = (k \<le> 2)"
| "fewMisses k ((others, ok) # segs) = (k \<le> 2 \<and> fewMisses (if ok then 0 else Suc k) segs)"

lemma holdsSince_exec:
  assumes "oneHolder t" "holdsSince src key lid since t" "list_all (\<lambda>p. fst p \<le> since + staleLockTTL) others"
    and "list_all (\<lambda>p. snd p \<noteq> EvRenew src key lid \<and> sparesLock src key lid (snd p)) others"
  shows "oneHolder (fst (lockExec others t)) \<and> holdsSince src key lid since (fst (lockExec others t))"
  using assms
proof (induction others arbitrary: t)
  case (Cons p others)
  obtain now e where p: "p = (now, e)" by (cases p)
  have "holdsSince src key lid since (fst (lockExec1 now e t))" "oneHolder (fst (lockExec1 now e t))"
    using holdsSince_step[of t src key lid since e now] lockExec1_oneHolder[of t now e] Cons.prems p by auto
  with Cons.IH[of "fst (lockExec1 now e t)"] Cons.prems p show ?case by (simp add: split_beta)
qed simp

lemma keepAliveTick_kept:
  assumes "oneHolder t" "holdsSince src key lid since t"
  shows "\<exists>t'. keepAliveTick src key lid (if ok then Some now else None) t = (True, t') \<and> oneHolder t'
    \<and> holdsSince src key lid (if ok then now else since) t'"
proof (cases ok)
  case True
  from assms(2) obtain l where l: "l \<in> set t" "isHeldBy src key lid l" by (auto simp: holdsSince_def)
  then have "isHeldBy src key lid (l\<lparr>lk_RenewedAt := now\<rparr>)" "l\<lparr>lk_RenewedAt := now\<rparr> \<in> set (snd (renew src key lid now t))"
    by (auto simp: renew_def isHeldBy_def isFor_def)
  then have "holdsSince src key lid now (snd (renew src key lid now t))" unfolding holdsSince_def by fastforce
  moreover have "fst (renew src key lid now t)" using l by (auto simp: renew_def)
  ultimately show ?thesis using True assms(1) oneHolder_renew[of src key lid now t]
    by (cases "renew src key lid now t") (simp add: keepAliveTick_def)
qed (use assms in \<open>simp add: keepAliveTick_def\<close>)

lemma keepAliveAmong_kept:
  assumes "oneHolder t" "holdsSince src key lid since t" "start = since + int k * LockRenewInterval"
    and "fewMisses k segs" "withinTicks start segs"
    and "list_all (\<lambda>(others, ok). list_all (\<lambda>p. snd p \<noteq> EvRenew src key lid \<and> sparesLock src key lid (snd p)) others) segs"
  shows "fst (keepAliveAmong src key lid True start segs t)
    \<and> (\<exists>l \<in> set (snd (keepAliveAmong src key lid True start segs t)). isHeldBy src key lid l)"
  using assms
proof (induction segs arbitrary: t since start k)
  case Nil
  then show ?case by (auto simp: holdsSince_def)
next
  case (Cons seg segs)
  obtain others ok where seg: "seg = (others, ok)" by (cases seg)
  from Cons.prems seg have k: "k \<le> 2" by simp
  have "start + LockRenewInterval \<le> since + staleLockTTL"
    using k Cons.prems(3) by (simp add: LockRenewInterval_def staleLockTTL_def)
  then have "list_all (\<lambda>p. fst p \<le> since + staleLockTTL) others" using Cons.prems(5) seg by (auto simp: list_all_iff)
  with holdsSince_exec[OF Cons.prems(1,2)] Cons.prems(6) seg
  have t1: "oneHolder (fst (lockExec others t))" "holdsSince src key lid since (fst (lockExec others t))" by auto
  from keepAliveTick_kept[OF t1, of ok "start + LockRenewInterval"] obtain t2 where
    t2: "keepAliveTick src key lid (if ok then Some (start + LockRenewInterval) else None) (fst (lockExec others t)) = (True, t2)"
      "oneHolder t2" "holdsSince src key lid (if ok then start + LockRenewInterval else since) t2" by blast
  have "start + LockRenewInterval = (if ok then start + LockRenewInterval else since) + int (if ok then 0 else Suc k) * LockRenewInterval"
    using Cons.prems(3) by (simp add: algebra_simps)
  from Cons.IH[OF t2(2,3) this] Cons.prems(4-6) seg show ?case by (simp add: Let_def t2(1) del: if_split_asm split del: if_split)
qed

text \<open>C5: The heartbeat of \<open>KeepAlive\<close> outlives the reaper: started with a lock taken at \<open>start\<close>, as long as no three
  renewals in a row fail, the goroutine is still running and the lock still held at the end, whatever
  other sessions reap, insert or release for themselves in between.\<close>

theorem keepalive_outlives_reaper:
  assumes "oneHolder t" "holdsSince src key lid start t"
    and "fewMisses 0 segs" "withinTicks start segs"
    and "list_all (\<lambda>(others, ok). list_all (\<lambda>p. snd p \<noteq> EvRenew src key lid \<and> sparesLock src key lid (snd p)) others) segs"
  shows "fst (keepAliveAmong src key lid True start segs t)
    \<and> (\<exists>l \<in> set (snd (keepAliveAmong src key lid True start segs t)). isHeldBy src key lid l)"
  by (rule keepAliveAmong_kept[OF assms(1,2) _ assms(3-5)]) simp

theorem keepalive_outlives_reaper_witness:
  "\<exists>l \<in> set (snd (keepAliveAmong ''s'' ''k'' ''1'' True 0
        [([(1000, EvReap ''s'' ''k'')], False), ([(400000000, EvInsert ''s'' ''k'' ''b'' ''2'')], False),
         ([(900000000, EvReap ''s'' ''k'')], True)]
      [\<lparr>lk_ID = ''1'', lk_SourceID = ''s'', lk_StateKey = ''k'', lk_Actor = ''a'', lk_AcquiredAt = 0, lk_RenewedAt = 0\<rparr>])).
     isHeldBy ''s'' ''k'' ''1'' l"
  by (rule conjunct2[OF keepalive_outlives_reaper])
    (simp_all add: oneHolder_def holdsSince_def isHeldBy_def isFor_def LockRenewInterval_def sparesLock_def)

text \<open>A holder whose row is gone never extends the lock of whoever holds the key now.\<close>

lemma renew_others:
  "filter (\<lambda>l. \<not> isHeldBy src key lid l) (snd (renew src key lid now t)) = filter (\<lambda>l. \<not> isHeldBy src key lid l) t"
  by (induction t) (auto simp: renew_def isHeldBy_def isFor_def)

lemma renew_keeps:
  "(\<exists>l \<in> set (snd (renew src key lid now t)). isHeldBy src key lid l) = (\<exists>l \<in> set t. isHeldBy src key lid l)"
  by (induction t) (auto simp: renew_def isHeldBy_def isFor_def)

lemma keepAlive_others:
  "filter (\<lambda>l. \<not> isHeldBy src key lid l) (snd (keepAlive src key lid ticks t)) = filter (\<lambda>l. \<not> isHeldBy src key lid l) t"
proof (induction ticks arbitrary: t)
  case (Cons tick ticks)
  show ?case
  proof (cases tick)
    case (Some now)
    with Cons.IH[of "snd (renew src key lid now t)"] show ?thesis
      by (cases "renew src key lid now t") (use renew_others[of src key lid now t] in \<open>auto simp: keepAliveTick_def\<close>)
  qed (simp add: Cons.IH keepAliveTick_def)
qed simp

lemma keepAlive_stops_iff_gone:
  "fst (keepAlive src key lid ticks t) \<longleftrightarrow> (\<forall>tick \<in> set ticks. tick = None) \<or> (\<exists>l \<in> set t. isHeldBy src key lid l)"
proof (induction ticks arbitrary: t)
  case (Cons tick ticks)
  show ?case
  proof (cases tick)
    case (Some now)
    obtain alive t' where r: "renew src key lid now t = (alive, t')" by (cases "renew src key lid now t")
    then have "alive = (\<exists>l \<in> set t. isHeldBy src key lid l)" by (simp add: renew_def)
    with Cons.IH[of t'] renew_keeps[of src key lid now t] r Some show ?thesis by (auto simp: keepAliveTick_def)
  qed (simp add: Cons.IH keepAliveTick_def)
qed simp

section \<open>Acquiring\<close>

lemma acquire_row:
  assumes "acquire env src key actor t = (r, t')"
  shows "(case r of
      Inr lid \<Rightarrow> \<not> le_reapFails env \<and> \<not> le_insertFails env \<and> lid = le_newID env
          \<and> (\<forall>l \<in> set t. isFor src key l \<longrightarrow> lk_RenewedAt l < le_reapAt env - staleLockTTL)
          \<and> filter (isFor src key) t' = [\<lparr>lk_ID = lid, lk_SourceID = src, lk_StateKey = key, lk_Actor = actor,
               lk_AcquiredAt = le_insertAt env, lk_RenewedAt = le_insertAt env\<rparr>]
          \<and> release src key lid t' = filter (\<lambda>l. \<not> isFor src key l) t
    | Inl e \<Rightarrow> (le_reapFails env \<or> le_insertFails env
          \<or> (\<exists>l \<in> set t. isFor src key l \<and> le_reapAt env - staleLockTTL \<le> lk_RenewedAt l))
          \<and> (t' = t \<or> t' = reapLocks src key (le_reapAt env) t))
    \<and> filter (\<lambda>l. \<not> isFor src key l) t' = filter (\<lambda>l. \<not> isFor src key l) t"
proof -
  have keep: "filter (\<lambda>l. \<not> isFor src key l) (reapLocks src key now t) = filter (\<lambda>l. \<not> isFor src key l) t" for now
    unfolding reapLocks_def filter_filter by (rule filter_cong) auto
  let ?t1 = "reapLocks src key (le_reapAt env) t"
  show ?thesis
  proof (cases "\<not> le_reapFails env \<and> \<not> le_insertFails env \<and> \<not> (\<exists>l \<in> set ?t1. isFor src key l)")
    case True
    then have none: "filter (\<lambda>l. \<not> isFor src key l) ?t1 = ?t1" "filter (isFor src key) ?t1 = []"
      by (auto simp: filter_id_conv filter_empty_conv)
    have rel: "release src key lid ?t1 = ?t1" for lid
      using True by (auto simp: release_def isHeldBy_def filter_id_conv)
    from True have "\<forall>l \<in> set t. isFor src key l \<longrightarrow> lk_RenewedAt l < le_reapAt env - staleLockTTL"
      by (auto simp: reapLocks_def)
    moreover let ?row = "\<lparr>lk_ID = le_newID env, lk_SourceID = src, lk_StateKey = key, lk_Actor = actor,
               lk_AcquiredAt = le_insertAt env, lk_RenewedAt = le_insertAt env\<rparr>"
    have r: "r = Inr (le_newID env)" "t' = ?t1 @ [?row]"
      using True assms by (auto simp: acquire_def Let_def insertLock_def lockTaken_def)
    moreover have row: "isFor src key ?row" "isHeldBy src key (le_newID env) ?row"
      by (simp_all add: isFor_def isHeldBy_def)
    moreover have "release src key (le_newID env) t' = ?t1"
      using rel[of "le_newID env"] row r by (simp add: release_def)
    moreover have "filter (isFor src key) t' = [?row]" using none row r by simp
    moreover have "filter (\<lambda>l. \<not> isFor src key l) t' = filter (\<lambda>l. \<not> isFor src key l) t"
      using keep[of "le_reapAt env"] row r by simp
    moreover have "filter (\<lambda>l. \<not> isFor src key l) t = ?t1"
      using keep[of "le_reapAt env"] none by simp
    ultimately show ?thesis using True by (simp add: r)
  next
    case False
    then have r: "\<exists>e. r = Inl e" "t' = t \<or> t' = ?t1"
      using assms by (auto simp: acquire_def Let_def insertLock_def lockTaken_def split: if_splits option.splits)
    have "\<exists>l \<in> set t. isFor src key l \<and> le_reapAt env - staleLockTTL \<le> lk_RenewedAt l"
      if "\<not> le_reapFails env" "\<not> le_insertFails env"
      using False that by (auto simp: reapLocks_def)
    with r keep[of "le_reapAt env"] show ?thesis by (auto split: sum.splits)
  qed
qed

text \<open>\<open>Acquire\<close> succeeds exactly when its statements do and no row of the key has been renewed
  within the time to live; it then holds the only row of the key. When it fails it has removed
  nothing but the stale row of that key. \<open>Release\<close> undoes a successful \<open>Acquire\<close>.\<close>

theorem acquire_correct:
  assumes "acquire env src key actor t = (r, t')"
  shows "(case r of
      Inr lid \<Rightarrow> \<not> le_reapFails env \<and> \<not> le_insertFails env \<and> lid = le_newID env
          \<and> (\<forall>l \<in> set t. isFor src key l \<longrightarrow> lk_RenewedAt l < le_reapAt env - staleLockTTL)
          \<and> filter (isFor src key) t' = [\<lparr>lk_ID = lid, lk_SourceID = src, lk_StateKey = key, lk_Actor = actor,
               lk_AcquiredAt = le_insertAt env, lk_RenewedAt = le_insertAt env\<rparr>]
          \<and> release src key lid t' = filter (\<lambda>l. \<not> isFor src key l) t
    | Inl e \<Rightarrow> (le_reapFails env \<or> le_insertFails env
          \<or> (\<exists>l \<in> set t. isFor src key l \<and> le_reapAt env - staleLockTTL \<le> lk_RenewedAt l))
          \<and> (t' = t \<or> t' = reapLocks src key (le_reapAt env) t))
    \<and> filter (\<lambda>l. \<not> isFor src key l) t' = filter (\<lambda>l. \<not> isFor src key l) t"
  using acquire_row[OF assms] .

theorem acquire_correct_witness:
  "filter (isFor ''s'' ''k'') (snd (acquire
     \<lparr>le_reapAt = 5, le_insertAt = 6, le_newID = ''1'', le_reapFails = False, le_insertFails = False, le_holderFails = False\<rparr>
     ''s'' ''k'' ''a'' [])) =
   [\<lparr>lk_ID = ''1'', lk_SourceID = ''s'', lk_StateKey = ''k'', lk_Actor = ''a'', lk_AcquiredAt = 6, lk_RenewedAt = 6\<rparr>]"
proof -
  let ?env = "\<lparr>le_reapAt = 5, le_insertAt = 6, le_newID = ''1'', le_reapFails = False, le_insertFails = False, le_holderFails = False\<rparr>"
  have "acquire ?env ''s'' ''k'' ''a'' [] = (Inr ''1'', snd (acquire ?env ''s'' ''k'' ''a'' []))"
    by (simp add: acquire_def reapLocks_def insertLock_def lockTaken_def)
  from acquire_correct[OF this] show ?thesis by simp
qed
end
