(* ===== verification/EditPlane.thy ===== *)
theory EditPlane
  imports Analyzer StateOps Locks
begin

text \<open>
  \<open>internal/api/edit.go\<close> and \<open>internal/db/repositories/state_edit_repository.go\<close>: the edit plane.
  A handler is a function from the request, the answers of everything it calls and the
  persistent state to the reply and the new state.

  The answers (what the backend returns from \<open>Read\<close>, whether \<open>Write\<close>, \<open>Delete\<close> or a statement
  fails, the ids and the clock) are arguments, so every behaviour of a backend and every fault is
  covered. \<open>es_calls\<close> is the trace of the calls that change the backend, oldest first. A state
  file is its decoded document: two texts that differ only in white space are one document.
  \<open>refreshAnalysisAsync\<close> starts a background refresh of derived rows and is left out.
\<close>

section \<open>Persistent state\<close>

record backup =
  bk_ID :: string
  bk_SourceID :: string
  bk_StateKey :: string
  bk_Data :: rawdoc
  bk_Serial :: "int option"
  bk_CreatedBy :: "string option"
  bk_CreatedAt :: int

record editRow =
  ed_SourceID :: string
  ed_StateKey :: string
  ed_Operation :: string
  ed_Actor :: "string option"
  ed_BackupID :: "string option"
  ed_BeforeSerial :: "int option"
  ed_AfterSerial :: "int option"
  ed_Result :: string

datatype connCall = CallWrite string string rawdoc | CallDelete string string

record auditEntry =
  au_Action :: string
  au_Source :: string
  au_Key :: string

record 'n editState =
  es_locks :: "stateLock list"
  es_native :: 'n
  es_backups :: "backup list"
  es_edits :: "editRow list"
  es_calls :: "connCall list"
  es_audit :: "auditEntry list"

section \<open>The answers of a run\<close>

text \<open>\<open>ReadNotFound\<close> is any error that \<open>IsNotFound\<close> accepts. A replace and a restore treat a read that answers
  neither a state nor an error, which no connector of the repository does, as one that finds nothing.\<close>

datatype readAns = ReadNotFound | ReadFailed | ReadData rawdoc
datatype deleteAns = Deleted | DeleteNotFound | DeleteFailed

text \<open>A connector implements \<open>Locker\<close> or does not; its lock server has a state of its own.\<close>

record 'n nativeLocker =
  nl_Lock :: "string \<Rightarrow> 'n \<Rightarrow> (string + string) \<times> 'n"
  nl_Unlock :: "string \<Rightarrow> string \<Rightarrow> 'n \<Rightarrow> 'n"

record answers =
  an_lock :: lockEnv
  an_Read :: readAns
  an_backupFails :: bool
  an_backupID :: string
  an_now :: int
  an_WriteFails :: bool
  an_Delete :: deleteAns
  an_purgeFails :: bool
  an_recordFails :: bool
  an_releaseFails :: bool

section \<open>The repository\<close>

definition nullStr :: "string \<Rightarrow> string option" where
  "nullStr s = (if s = [] then None else Some s)"

definition createBackup ::
    "answers \<Rightarrow> string \<Rightarrow> string \<Rightarrow> rawdoc \<Rightarrow> int option \<Rightarrow> string \<Rightarrow> 'n editState \<Rightarrow> string option \<times> 'n editState" where
  "createBackup an src key data serial actor st =
     (if an_backupFails an then (None, st)
      else (Some (an_backupID an),
            st\<lparr>es_backups := es_backups st @
               [\<lparr>bk_ID = an_backupID an, bk_SourceID = src, bk_StateKey = key, bk_Data = data, bk_Serial = serial,
                 bk_CreatedBy = nullStr actor, bk_CreatedAt = an_now an\<rparr>]\<rparr>))"

definition getBackup :: "string \<Rightarrow> 'n editState \<Rightarrow> backup option" where
  "getBackup bid st = List.find (\<lambda>b. bk_ID b = bid) (es_backups st)"

definition backupFor :: "string \<Rightarrow> string \<Rightarrow> backup \<Rightarrow> bool" where
  "backupFor src key b = (bk_SourceID b = src \<and> bk_StateKey b = key)"

definition listBackups :: "string \<Rightarrow> string \<Rightarrow> nat \<Rightarrow> nat \<Rightarrow> 'n editState \<Rightarrow> backup list" where
  "listBackups src key limit offset st =
     take limit (drop offset (sort_key (\<lambda>b. - bk_CreatedAt b) (filter (backupFor src key) (es_backups st))))"

definition deleteBackups :: "answers \<Rightarrow> string \<Rightarrow> string \<Rightarrow> 'n editState \<Rightarrow> bool \<times> 'n editState" where
  "deleteBackups an src key st =
     (if an_purgeFails an then (False, st)
      else (True, st\<lparr>es_backups := filter (\<lambda>b. \<not> backupFor src key b) (es_backups st)\<rparr>))"

definition recordEdit ::
    "answers \<Rightarrow> string \<Rightarrow> string \<Rightarrow> string \<Rightarrow> string \<Rightarrow> string option \<Rightarrow> int option \<Rightarrow> int option \<Rightarrow> string \<Rightarrow>
     'n editState \<Rightarrow> 'n editState" where
  "recordEdit an src key op actor bid before after result st =
     (if an_recordFails an then st
      else st\<lparr>es_edits := es_edits st @
          [\<lparr>ed_SourceID = src, ed_StateKey = key, ed_Operation = op, ed_Actor = nullStr actor, ed_BackupID = bid,
            ed_BeforeSerial = before, ed_AfterSerial = after, ed_Result = result\<rparr>]\<rparr>)"

definition auditWrite :: "string \<Rightarrow> string \<Rightarrow> string \<Rightarrow> 'n editState \<Rightarrow> 'n editState" where
  "auditWrite action src key st =
     st\<lparr>es_audit := es_audit st @ [\<lparr>au_Action = action, au_Source = src, au_Key = key\<rparr>]\<rparr>"

text \<open>\<open>PruneBackups\<close>: \<open>row_number\<close> counts the rows of the same source and key in the order of
  \<open>created_at DESC\<close>, ties in the order the sort leaves them.\<close>

definition newestFirst :: "backup list \<Rightarrow> backup list" where
  "newestFirst bs = sort_key (\<lambda>b. - bk_CreatedAt b) bs"

definition sameKey :: "backup \<Rightarrow> backup \<Rightarrow> bool" where
  "sameKey b b' = backupFor (bk_SourceID b) (bk_StateKey b) b'"

definition keptNewest :: "nat \<Rightarrow> backup list \<Rightarrow> backup \<Rightarrow> bool" where
  "keptNewest keep bs b = (bk_ID b \<in> bk_ID ` set (take keep (newestFirst (filter (sameKey b) bs))))"

definition pruneBackups :: "int \<Rightarrow> int \<Rightarrow> int \<Rightarrow> backup list \<Rightarrow> (nat \<times> backup list) option" where
  "pruneBackups keep maxAge now bs =
     (if keep < 1 then None
      else if maxAge \<le> 0 then None
      else (let kept = filter (\<lambda>b. keptNewest (nat keep) bs b \<or> \<not> bk_CreatedAt b < now - maxAge) bs
            in Some (length bs - length kept, kept)))"

section \<open>Locking a key\<close>

datatype lockHandle = NativeHandle string string | AppHandle string string string
datatype lockRefusal = NativeRefused string | AppRefused lockErr

definition acquireLock ::
    "'n nativeLocker option \<Rightarrow> lockEnv \<Rightarrow> string \<Rightarrow> string \<Rightarrow> string \<Rightarrow> 'n editState \<Rightarrow>
     (lockRefusal + lockHandle) \<times> 'n editState" where
  "acquireLock lkr env src key actor st =
     (case lkr of
        Some locker \<Rightarrow>
          (case nl_Lock locker key (es_native st) of
             (Inl e, n) \<Rightarrow> (Inl (NativeRefused e), st\<lparr>es_native := n\<rparr>)
           | (Inr lid, n) \<Rightarrow> (Inr (NativeHandle key lid), st\<lparr>es_native := n\<rparr>))
      | None \<Rightarrow>
          (case acquire env src key actor (es_locks st) of
             (Inl e, t) \<Rightarrow> (Inl (AppRefused e), st\<lparr>es_locks := t\<rparr>)
           | (Inr lid, t) \<Rightarrow> (Inr (AppHandle src key lid), st\<lparr>es_locks := t\<rparr>)))"

definition releaseLock :: "'n nativeLocker option \<Rightarrow> bool \<Rightarrow> lockHandle \<Rightarrow> 'n editState \<Rightarrow> 'n editState" where
  "releaseLock lkr fails h st =
     (case h of
        NativeHandle key lid \<Rightarrow>
          (case lkr of None \<Rightarrow> st | Some locker \<Rightarrow> st\<lparr>es_native := nl_Unlock locker key lid (es_native st)\<rparr>)
      | AppHandle src key lid \<Rightarrow>
          if fails then st else st\<lparr>es_locks := release src key lid (es_locks st)\<rparr>)"

section \<open>Requests and replies\<close>

datatype replyBody =
    MissingKey | BadBody | Rejected analyzeErr | SourceUnavailable | LockedBy lockRefusal
  | CannotVerify | SerialRegression int int | LineageMismatch | BackupFailed | WriteFailed
  | Written "string option" int
  | OpRequired | AdminRequired | KeyNotEchoed | AddressRequired | ToRequired | UnknownOp
  | OpFailed opErr | OpPanicked | Applied string string int
  | StateNotFound | DeleteError | StateDeleted bool "string option"
  | BackupNotFound | ForeignBackup | Restored

datatype reply = Reply nat replyBody

text \<open>\<open>sourceAndConnector\<close>: the scope the middleware resolved, the row of \<open>GetByIDInScope\<close> (None
  when the query fails), whether the credentials decrypt and whether the connector is built.\<close>

record 'n sourceAnswers =
  sa_scopeResolved :: bool
  sa_row :: "string option option"
  sa_credsOk :: bool
  sa_newOk :: bool
  sa_locker :: "'n nativeLocker option"

definition sourceInScope :: "'n sourceAnswers \<Rightarrow> nat + string" where
  "sourceInScope sa =
     (if \<not> sa_scopeResolved sa then Inl 500
      else (case sa_row sa of
              None \<Rightarrow> Inl 500
            | Some None \<Rightarrow> Inl 404
            | Some (Some srcID) \<Rightarrow> Inr srcID))"

definition sourceAndConnector :: "'n sourceAnswers \<Rightarrow> nat + string" where
  "sourceAndConnector sa =
     (case sourceInScope sa of
        Inl code \<Rightarrow> Inl code
      | Inr srcID \<Rightarrow> if \<not> sa_credsOk sa then Inl 500 else if \<not> sa_newOk sa then Inl 400 else Inr srcID)"

text \<open>What every mutating handler does around its body: resolve, lock, run, release.\<close>

definition withLock ::
    "answers \<Rightarrow> 'n sourceAnswers \<Rightarrow> string \<Rightarrow> string \<Rightarrow> string \<Rightarrow>
     ('n editState \<Rightarrow> reply \<times> 'n editState) \<Rightarrow> 'n editState \<Rightarrow> reply \<times> 'n editState" where
  "withLock an sa src key actor body st =
     (case acquireLock (sa_locker sa) (an_lock an) src key actor st of
        (Inl e, st1) \<Rightarrow> (Reply 409 (LockedBy e), st1)
      | (Inr h, st1) \<Rightarrow>
          (case body st1 of (r, st2) \<Rightarrow> (r, releaseLock (sa_locker sa) (an_releaseFails an) h st2)))"

definition serialOfState :: "rawdoc \<Rightarrow> int option" where
  "serialOfState data = (case analyze data of Inl _ \<Rightarrow> None | Inr a \<Rightarrow> Some (an_Serial a))"

section \<open>Replacing a state\<close>

record editRequest =
  rq_key :: string
  rq_body :: "rawdoc option"
  rq_force :: bool
  rq_actor :: string

definition guardReplace :: "bool \<Rightarrow> analysis \<Rightarrow> rawdoc \<Rightarrow> replyBody option" where
  "guardReplace force new cur =
     (case analyze cur of
        Inl _ \<Rightarrow> None
      | Inr curA \<Rightarrow>
          if \<not> force \<and> an_Serial new < an_Serial curA then Some (SerialRegression (an_Serial new) (an_Serial curA))
          else if \<not> force \<and> an_Lineage curA \<noteq> [] \<and> an_Lineage new \<noteq> [] \<and> an_Lineage curA \<noteq> an_Lineage new
               then Some LineageMismatch
          else None)"

definition writeReplace ::
    "answers \<Rightarrow> string \<Rightarrow> editRequest \<Rightarrow> rawdoc \<Rightarrow> analysis \<Rightarrow> string option \<Rightarrow> int option \<Rightarrow>
     'n editState \<Rightarrow> reply \<times> 'n editState" where
  "writeReplace an src rq newData new bid before st0 =
     (let st = st0\<lparr>es_calls := es_calls st0 @ [CallWrite src (rq_key rq) newData]\<rparr>;
          after = an_Serial new
      in if an_WriteFails an
         then (Reply 502 WriteFailed, recordEdit an src (rq_key rq) ''raw_replace'' (rq_actor rq) bid before (Some after) ''failed'' st)
         else (Reply 200 (Written bid after),
               auditWrite ''state.edit'' src (rq_key rq)
                 (recordEdit an src (rq_key rq) ''raw_replace'' (rq_actor rq) bid before (Some after) ''success'' st)))"

definition replaceBody ::
    "answers \<Rightarrow> string \<Rightarrow> editRequest \<Rightarrow> rawdoc \<Rightarrow> analysis \<Rightarrow> 'n editState \<Rightarrow> reply \<times> 'n editState" where
  "replaceBody an src rq newData new st =
     (case an_Read an of
        ReadFailed \<Rightarrow> (Reply 502 CannotVerify, st)
      | ReadNotFound \<Rightarrow> writeReplace an src rq newData new None None st
      | ReadData cur \<Rightarrow>
          (case guardReplace (rq_force rq) new cur of
             Some refusal \<Rightarrow> (Reply 409 refusal, st)
           | None \<Rightarrow>
               (let before = serialOfState cur
                in (case createBackup an src (rq_key rq) cur before (rq_actor rq) st of
                      (None, st1) \<Rightarrow> (Reply 500 BackupFailed, st1)
                    | (Some bid, st1) \<Rightarrow> writeReplace an src rq newData new (Some bid) before st1))))"

definition editStateH :: "answers \<Rightarrow> 'n sourceAnswers \<Rightarrow> editRequest \<Rightarrow> 'n editState \<Rightarrow> reply \<times> 'n editState" where
  "editStateH an sa rq st =
     (if rq_key rq = [] then (Reply 400 MissingKey, st)
      else (case rq_body rq of
              None \<Rightarrow> (Reply 400 BadBody, st)
            | Some newData \<Rightarrow>
                (case analyze newData of
                   Inl e \<Rightarrow> (Reply 422 (Rejected e), st)
                 | Inr new \<Rightarrow>
                     (case sourceAndConnector sa of
                        Inl code \<Rightarrow> (Reply code SourceUnavailable, st)
                      | Inr src \<Rightarrow> withLock an sa src (rq_key rq) (rq_actor rq) (replaceBody an src rq newData new) st))))"

section \<open>Structured operations\<close>

record opRequest =
  or_key :: string
  or_bound :: bool
  or_op :: string
  or_address :: string
  or_to :: string
  or_echo :: string
  or_purge :: bool
  or_admin :: bool
  or_actor :: string

definition deleteBody :: "answers \<Rightarrow> string \<Rightarrow> opRequest \<Rightarrow> 'n editState \<Rightarrow> reply \<times> 'n editState" where
  "deleteBody an src rq st =
     (let key = or_key rq; actor = or_actor rq
      in (case an_Read an of
            ReadNotFound \<Rightarrow> (Reply 404 StateNotFound, st)
          | ReadFailed \<Rightarrow> (Reply 502 CannotVerify, st)
          | ReadData cur \<Rightarrow>
              (let before = serialOfState cur
               in (case createBackup an src key cur before actor st of
                     (None, st1) \<Rightarrow> (Reply 500 BackupFailed, st1)
                   | (Some bid, st1) \<Rightarrow>
                       (let st2 = st1\<lparr>es_calls := es_calls st1 @ [CallDelete src key]\<rparr>
                        in (case an_Delete an of
                              DeleteNotFound \<Rightarrow> (Reply 404 StateNotFound, st2)
                            | DeleteFailed \<Rightarrow>
                                (Reply 502 DeleteError, recordEdit an src key ''delete'' actor (Some bid) before None ''failed'' st2)
                            | Deleted \<Rightarrow>
                                if or_purge rq then
                                  (case deleteBackups an src key st2 of
                                     (False, st3) \<Rightarrow>
                                       (Reply 200 (StateDeleted False None),
                                        auditWrite ''state.delete'' src key
                                          (recordEdit an src key ''delete'' actor None before None ''success'' st3))
                                   | (True, st3) \<Rightarrow>
                                       (Reply 200 (StateDeleted True None),
                                        auditWrite ''state.delete'' src key
                                          (recordEdit an src key ''delete'' actor None before None ''success'' st3)))
                                else (Reply 200 (StateDeleted False (Some bid)),
                                      auditWrite ''state.delete'' src key
                                        (recordEdit an src key ''delete'' actor (Some bid) before None ''success'' st2))))))))"

text \<open>\<open>stateops\<close> on the current document; an unknown operation or an \<open>mv\<close> without target is
  refused before it runs.\<close>

definition applyOp :: "opRequest \<Rightarrow> rawdoc \<Rightarrow> reply + rawdoc" where
  "applyOp rq cur =
     (let run = (\<lambda>r. case r of
                   Inr d \<Rightarrow> Inr d
                 | Inl e \<Rightarrow> if e = GoPanic then Inl (Reply 500 OpPanicked) else Inl (Reply 422 (OpFailed e)))
      in if or_op rq = ''rm'' then run (removeResource cur (or_address rq))
         else if or_op rq = ''mv'' then
           (if or_to rq = [] then Inl (Reply 400 ToRequired) else run (moveResource cur (or_address rq) (or_to rq)))
         else Inl (Reply 400 UnknownOp))"

definition operationBody :: "answers \<Rightarrow> string \<Rightarrow> opRequest \<Rightarrow> 'n editState \<Rightarrow> reply \<times> 'n editState" where
  "operationBody an src rq st =
     (case an_Read an of
        ReadNotFound \<Rightarrow> (Reply 502 CannotVerify, st)
      | ReadFailed \<Rightarrow> (Reply 502 CannotVerify, st)
      | ReadData cur \<Rightarrow>
          (case applyOp rq cur of
             Inl r \<Rightarrow> (r, st)
           | Inr newData \<Rightarrow>
               (case analyze newData of
                  Inl e \<Rightarrow> (Reply 422 (Rejected e), st)
                | Inr new \<Rightarrow>
                    (let before = serialOfState cur; key = or_key rq; after = an_Serial new
                     in (case createBackup an src key cur before (or_actor rq) st of
                           (None, st1) \<Rightarrow> (Reply 500 BackupFailed, st1)
                         | (Some bid, st1) \<Rightarrow>
                             (let st2 = st1\<lparr>es_calls := es_calls st1 @ [CallWrite src key newData]\<rparr>
                              in if an_WriteFails an
                                 then (Reply 502 WriteFailed,
                                       recordEdit an src key (or_op rq) (or_actor rq) (Some bid) before (Some after) ''failed'' st2)
                                 else (Reply 200 (Applied (or_op rq) bid after),
                                       auditWrite ''state.operation'' src key
                                         (recordEdit an src key (or_op rq) (or_actor rq) (Some bid) before (Some after) ''success'' st2))))))))"

text \<open>The gates of \<open>StateOperation\<close> before the source is loaded.\<close>

definition operationGate :: "opRequest \<Rightarrow> reply option" where
  "operationGate rq =
     (if or_key rq = [] then Some (Reply 400 MissingKey)
      else if \<not> or_bound rq \<or> or_op rq = [] then Some (Reply 400 OpRequired)
      else if or_op rq = ''delete'' then
        (if \<not> or_admin rq then Some (Reply 403 AdminRequired)
         else if or_echo rq \<noteq> or_key rq then Some (Reply 400 KeyNotEchoed)
         else None)
      else if or_address rq = [] then Some (Reply 400 AddressRequired)
      else None)"

definition stateOperationH :: "answers \<Rightarrow> 'n sourceAnswers \<Rightarrow> opRequest \<Rightarrow> 'n editState \<Rightarrow> reply \<times> 'n editState" where
  "stateOperationH an sa rq st =
     (case operationGate rq of
        Some r \<Rightarrow> (r, st)
      | None \<Rightarrow>
          (case sourceAndConnector sa of
             Inl code \<Rightarrow> (Reply code SourceUnavailable, st)
           | Inr src \<Rightarrow>
               withLock an sa src (or_key rq) (or_actor rq)
                 (if or_op rq = ''delete'' then deleteBody an src rq else operationBody an src rq) st))"

section \<open>Backups\<close>

text \<open>The answer of \<open>GetBackup\<close> fails with the database; otherwise it is the row of the table.\<close>

definition restoreBody :: "answers \<Rightarrow> string \<Rightarrow> backup \<Rightarrow> string \<Rightarrow> 'n editState \<Rightarrow> reply \<times> 'n editState" where
  "restoreBody an src b actor st =
     (let key = bk_StateKey b;
          finish = (\<lambda>bid before st0.
            let st2 = st0\<lparr>es_calls := es_calls st0 @ [CallWrite src key (bk_Data b)]\<rparr>
            in if an_WriteFails an
               then (Reply 502 WriteFailed, recordEdit an src key ''restore'' actor bid before (bk_Serial b) ''failed'' st2)
               else (Reply 200 Restored,
                     auditWrite ''state.restore'' src key
                       (recordEdit an src key ''restore'' actor bid before (bk_Serial b) ''success'' st2)))
      in (case an_Read an of
            ReadFailed \<Rightarrow> (Reply 502 CannotVerify, st)
          | ReadNotFound \<Rightarrow> finish None None st
          | ReadData cur \<Rightarrow>
              (let before = serialOfState cur
               in (case createBackup an src key cur before actor st of
                     (None, st1) \<Rightarrow> (Reply 500 BackupFailed, st1)
                   | (Some bid, st1) \<Rightarrow> finish (Some bid) before st1))))"

definition restoreBackupH ::
    "bool \<Rightarrow> answers \<Rightarrow> 'n sourceAnswers \<Rightarrow> string \<Rightarrow> string \<Rightarrow> 'n editState \<Rightarrow> reply \<times> 'n editState" where
  "restoreBackupH loadFails an sa bid actor st =
     (if loadFails then (Reply 500 SourceUnavailable, st)
      else (case getBackup bid st of
              None \<Rightarrow> (Reply 404 BackupNotFound, st)
            | Some b \<Rightarrow>
                (case sourceAndConnector sa of
                   Inl code \<Rightarrow> (Reply code SourceUnavailable, st)
                 | Inr src \<Rightarrow>
                     if bk_SourceID b \<noteq> src then (Reply 400 ForeignBackup, st)
                     else withLock an sa src (bk_StateKey b) actor (restoreBody an src b actor) st)))"

text \<open>\<open>loadOwnedBackup\<close>, the reply code or the row; \<open>GetBackupContent\<close> serves its data.\<close>

definition loadOwnedBackup :: "bool \<Rightarrow> 'n sourceAnswers \<Rightarrow> string \<Rightarrow> 'n editState \<Rightarrow> nat + backup" where
  "loadOwnedBackup loadFails sa bid st =
     (if loadFails then Inl 500
      else (case getBackup bid st of
              None \<Rightarrow> Inl 404
            | Some b \<Rightarrow>
                (case sourceInScope sa of
                   Inl code \<Rightarrow> Inl code
                 | Inr src \<Rightarrow> if bk_SourceID b \<noteq> src then Inl 404 else Inr b)))"

definition getBackupContent :: "bool \<Rightarrow> 'n sourceAnswers \<Rightarrow> string \<Rightarrow> 'n editState \<Rightarrow> nat + rawdoc" where
  "getBackupContent loadFails sa bid st =
     (case loadOwnedBackup loadFails sa bid st of Inl code \<Rightarrow> Inl code | Inr b \<Rightarrow> Inr (bk_Data b))"

text \<open>The paging of \<open>ListBackups\<close>: the two query parameters are raw text.\<close>

definition listBackupsPage :: "string \<Rightarrow> string \<Rightarrow> string \<Rightarrow> string \<Rightarrow> 'n editState \<Rightarrow> backup list" where
  "listBackupsPage src key perPageText pageText st =
     (let perPage = (case atoi perPageText of Some v \<Rightarrow> if 0 < v \<and> v \<le> 500 then v else 100 | None \<Rightarrow> 100);
          page = (case atoi pageText of Some v \<Rightarrow> if 0 < v \<and> v \<le> 1000000 then v else 1 | None \<Rightarrow> 1)
      in listBackups src key (nat perPage) (nat ((page - 1) * perPage)) st)"

definition forceUnlockH :: "bool \<Rightarrow> string \<Rightarrow> string \<Rightarrow> 'n editState \<Rightarrow> (nat + bool) \<times> 'n editState" where
  "forceUnlockH dbFails src key st =
     (if key = [] then (Inl 400, st)
      else if dbFails then (Inl 500, st)
      else (case forceRelease src key (es_locks st) of
              (released, t) \<Rightarrow> (Inr released, auditWrite ''state.force_unlock'' src key (st\<lparr>es_locks := t\<rparr>))))"

section \<open>Previewing an edit\<close>

text \<open>\<open>fmt.Sprint\<close> of decoded values; \<open>fg\<close> is the text it gives a float64.\<close>

fun sprint :: "(f64 \<Rightarrow> string) \<Rightarrow> goval \<Rightarrow> string" where
  "sprint fg GNil = ''<nil>''"
| "sprint fg (GBool b) = (if b then ''true'' else ''false'')"
| "sprint fg (GNum x) = fg x"
| "sprint fg (GStr s) = s"
| "sprint fg (GArr gs) = ''['' @ joinWith '' '' (map (sprint fg) gs) @ '']''"
| "sprint fg (GMap m) = ''map['' @ joinWith '' '' (map (\<lambda>p. fst p @ '':'' @ sprint fg (snd p)) m) @ '']''"

definition resourceKey :: "resourceSummary \<Rightarrow> string" where
  "resourceKey r = rs_Module r @ CHR 0x00 # rs_Mode r @ CHR 0x00 # rs_Type r @ CHR 0x00 # rs_Name r"

definition currentBy :: "resourceSummary list \<Rightarrow> string \<Rightarrow> resourceSummary option" where
  "currentBy current k = List.find (\<lambda>r. resourceKey r = k) (rev current)"

definition sameShape :: "(f64 \<Rightarrow> string) \<Rightarrow> resourceSummary \<Rightarrow> resourceSummary \<Rightarrow> bool" where
  "sameShape fg a b =
     (rs_Instances a = rs_Instances b
      \<and> sprint fg (GArr (rs_InstanceKeys a)) = sprint fg (GArr (rs_InstanceKeys b)))"

fun diffLoop ::
    "(f64 \<Rightarrow> string) \<Rightarrow> resourceSummary list \<Rightarrow> resourceSummary list \<Rightarrow>
     resourceSummary list \<times> resourceSummary list" where
  "diffLoop fg current [] = ([], [])"
| "diffLoop fg current (p # ps) =
     (case diffLoop fg current ps of
        (added, changed) \<Rightarrow>
          (case currentBy current (resourceKey p) of
             None \<Rightarrow> (p # added, changed)
           | Some cr \<Rightarrow> if \<not> sameShape fg cr p then (added, p # changed) else (added, changed)))"

definition diffResources ::
    "(f64 \<Rightarrow> string) \<Rightarrow> resourceSummary list \<Rightarrow> resourceSummary list \<Rightarrow>
     resourceSummary list \<times> resourceSummary list \<times> resourceSummary list" where
  "diffResources fg proposed current =
     (case diffLoop fg current proposed of
        (added, changed) \<Rightarrow>
          (added, changed, filter (\<lambda>r. resourceKey r \<notin> set (map resourceKey proposed)) current))"

datatype diffReply =
    DiffRefused nat
  | DiffReply string "int option" "int option" "resourceSummary list" "resourceSummary list" "resourceSummary list"

definition diffAgainst ::
    "(f64 \<Rightarrow> string) \<Rightarrow> string \<Rightarrow> int option \<Rightarrow> resourceSummary list \<Rightarrow> readAns \<Rightarrow> diffReply" where
  "diffAgainst fg key serial proposed rd =
     (case rd of
        ReadFailed \<Rightarrow> DiffRefused 502
      | ReadNotFound \<Rightarrow>
          (case diffResources fg proposed [] of (added, changed, removed) \<Rightarrow> DiffReply key serial None added removed changed)
      | ReadData cur \<Rightarrow>
          (case listResources cur of
             Inl _ \<Rightarrow> DiffRefused 422
           | Inr current \<Rightarrow>
               (case diffResources fg proposed current of
                  (added, changed, removed) \<Rightarrow> DiffReply key serial (serialOfState cur) added removed changed)))"

definition diffBackupH ::
    "(f64 \<Rightarrow> string) \<Rightarrow> bool \<Rightarrow> 'n sourceAnswers \<Rightarrow> readAns \<Rightarrow> string \<Rightarrow> 'n editState \<Rightarrow> diffReply" where
  "diffBackupH fg loadFails sa rd bid st =
     (if loadFails then DiffRefused 500
      else (case getBackup bid st of
              None \<Rightarrow> DiffRefused 404
            | Some b \<Rightarrow>
                (case sourceAndConnector sa of
                   Inl code \<Rightarrow> DiffRefused code
                 | Inr src \<Rightarrow>
                     if bk_SourceID b \<noteq> src then DiffRefused 404
                     else (case listResources (bk_Data b) of
                             Inl _ \<Rightarrow> DiffRefused 422
                           | Inr proposed \<Rightarrow> diffAgainst fg (bk_StateKey b) (bk_Serial b) proposed rd))))"

definition editDiffH :: "(f64 \<Rightarrow> string) \<Rightarrow> 'n sourceAnswers \<Rightarrow> readAns \<Rightarrow> string \<Rightarrow> rawdoc option \<Rightarrow> diffReply" where
  "editDiffH fg sa rd key body =
     (if key = [] then DiffRefused 400
      else (case body of
              None \<Rightarrow> DiffRefused 400
            | Some draft \<Rightarrow>
                (case listResources draft of
                   Inl _ \<Rightarrow> DiffRefused 422
                 | Inr proposed \<Rightarrow>
                     (case sourceAndConnector sa of
                        Inl code \<Rightarrow> DiffRefused code
                      | Inr src \<Rightarrow> diffAgainst fg key (serialOfState draft) proposed rd))))"

section \<open>Frames\<close>

lemma createBackup_frame:
  "createBackup an src key d s a st = (r, st') \<Longrightarrow>
   es_locks st' = es_locks st \<and> es_native st' = es_native st \<and> es_calls st' = es_calls st
   \<and> es_edits st' = es_edits st \<and> es_audit st' = es_audit st"
  by (auto simp: createBackup_def split: if_splits)

lemma createBackup_Some:
  "createBackup an src key d s a st = (Some bid, st') \<Longrightarrow>
   bid = an_backupID an \<and> es_backups st' = es_backups st @
     [\<lparr>bk_ID = bid, bk_SourceID = src, bk_StateKey = key, bk_Data = d, bk_Serial = s,
       bk_CreatedBy = nullStr a, bk_CreatedAt = an_now an\<rparr>]"
  by (auto simp: createBackup_def split: if_splits)

lemma createBackup_None: "createBackup an src key d s a st = (None, st') \<Longrightarrow> st' = st"
  by (auto simp: createBackup_def split: if_splits)

lemma recordEdit_frame [simp]:
  "es_locks (recordEdit an src key op a b bs af r st) = es_locks st"
  "es_native (recordEdit an src key op a b bs af r st) = es_native st"
  "es_calls (recordEdit an src key op a b bs af r st) = es_calls st"
  "es_backups (recordEdit an src key op a b bs af r st) = es_backups st"
  by (auto simp: recordEdit_def)

lemma auditWrite_frame [simp]:
  "es_locks (auditWrite x src key st) = es_locks st" "es_native (auditWrite x src key st) = es_native st"
  "es_calls (auditWrite x src key st) = es_calls st" "es_backups (auditWrite x src key st) = es_backups st"
  by (auto simp: auditWrite_def)

lemma deleteBackups_frame:
  "deleteBackups an src key st = (ok, st') \<Longrightarrow> es_locks st' = es_locks st \<and> es_native st' = es_native st \<and> es_calls st' = es_calls st
    \<and> es_backups st' = (if ok then filter (\<lambda>b. \<not> backupFor src key b) (es_backups st) else es_backups st)"
  by (auto simp: deleteBackups_def split: if_splits)

text \<open>What the body of a handler may do while it holds the lock of one key: at most one call that
  changes the backend, on that key, and never without a row holding what the backend had, except
  a first write, and except a delete whose backups are purged on request.\<close>

definition guarded :: "bool \<Rightarrow> answers \<Rightarrow> string \<Rightarrow> string \<Rightarrow> 'n editState \<Rightarrow> reply \<Rightarrow> 'n editState \<Rightarrow> bool" where
  "guarded purge an src key st r st' =
     (es_calls st' = es_calls st \<and> (es_backups st' = es_backups st \<or> (\<exists>b. es_backups st' = es_backups st @ [b]))
      \<or> (\<exists>d. an_Read an = ReadNotFound \<and> es_calls st' = es_calls st @ [CallWrite src key d] \<and> es_backups st' = es_backups st)
      \<or> (\<exists>cur c b. an_Read an = ReadData cur \<and> es_calls st' = es_calls st @ [c]
          \<and> (c = CallDelete src key \<or> (\<exists>d. c = CallWrite src key d))
          \<and> bk_SourceID b = src \<and> bk_StateKey b = key \<and> bk_Data b = cur \<and> bk_ID b = an_backupID an
          \<and> (es_backups st' = es_backups st @ [b]
             \<or> purge \<and> r = Reply 200 (StateDeleted True None) \<and> c = CallDelete src key
                \<and> es_backups st' = filter (\<lambda>b. \<not> backupFor src key b) (es_backups st))))"

lemma guarded_refl: "guarded purge an src key st r st"
  by (simp add: guarded_def)

lemma guarded_first_write:
  "an_Read an = ReadNotFound \<Longrightarrow> es_calls st' = es_calls st @ [CallWrite src key d] \<Longrightarrow>
   es_backups st' = es_backups st \<Longrightarrow> guarded purge an src key st r st'"
  by (auto simp: guarded_def)

lemma guarded_backed_up:
  assumes "an_Read an = ReadData cur" "createBackup an src key cur s a st = (Some bid, st1)"
    and "es_calls st' = es_calls st1 @ [c]" "c = CallDelete src key \<or> (\<exists>d. c = CallWrite src key d)"
    and "es_backups st' = es_backups st1"
  shows "guarded purge an src key st r st'"
  unfolding guarded_def
  by (rule disjI2, rule disjI2, rule exI[of _ cur], rule exI[of _ c],
      rule exI[of _ "\<lparr>bk_ID = bid, bk_SourceID = src, bk_StateKey = key, bk_Data = cur, bk_Serial = s,
       bk_CreatedBy = nullStr a, bk_CreatedAt = an_now an\<rparr>"])
    (use assms createBackup_Some[OF assms(2)] createBackup_frame[OF assms(2)] in simp)

lemma writeReplace_facts:
  "writeReplace an src rq d new bid before st = (r, st') \<Longrightarrow>
   es_locks st' = es_locks st \<and> es_native st' = es_native st \<and> es_backups st' = es_backups st
   \<and> es_calls st' = es_calls st @ [CallWrite src (rq_key rq) d]"
  by (auto simp: writeReplace_def Let_def split: if_splits)

lemma replaceBody_guarded:
  assumes "replaceBody an src rq d new st = (r, st')"
  shows "guarded purge an src (rq_key rq) st r st' \<and> es_locks st' = es_locks st \<and> es_native st' = es_native st"
proof (cases "an_Read an")
  case ReadNotFound
  with assms have "writeReplace an src rq d new None None st = (r, st')" by (simp add: replaceBody_def)
  from writeReplace_facts[OF this] ReadNotFound show ?thesis by (auto intro: guarded_first_write)
next
  case ReadFailed
  with assms show ?thesis by (auto simp: replaceBody_def guarded_refl)
next
  case (ReadData cur)
  show ?thesis
  proof (cases "guardReplace (rq_force rq) new cur")
    case None
    obtain bid st1 where b: "createBackup an src (rq_key rq) cur (serialOfState cur) (rq_actor rq) st = (bid, st1)"
      by (cases "createBackup an src (rq_key rq) cur (serialOfState cur) (rq_actor rq) st")
    show ?thesis
    proof (cases bid)
      case no: None
      then have "st1 = st" using b createBackup_None by blast
      with assms ReadData None b no show ?thesis by (auto simp: replaceBody_def guarded_refl Let_def)
    next
      case (Some i)
      with assms ReadData None b have w: "writeReplace an src rq d new (Some i) (serialOfState cur) st1 = (r, st')"
        by (simp add: replaceBody_def Let_def)
      note b' = b[unfolded Some]
      note f = writeReplace_facts[OF w]
      have "guarded purge an src (rq_key rq) st r st'"
        by (rule guarded_backed_up[OF ReadData b']) (use f in auto)
      with f createBackup_frame[OF b'] show ?thesis by simp
    qed
  next
    case (Some refusal)
    with assms ReadData show ?thesis by (auto simp: replaceBody_def guarded_refl)
  qed
qed

lemma operationBody_guarded:
  assumes "operationBody an src rq st = (r, st')"
  shows "guarded purge an src (or_key rq) st r st' \<and> es_locks st' = es_locks st \<and> es_native st' = es_native st"
proof (cases "\<exists>cur d new. an_Read an = ReadData cur \<and> applyOp rq cur = Inr d \<and> analyze d = Inr new")
  case False
  then have "st' = st" using assms by (auto simp: operationBody_def split: readAns.splits sum.splits)
  then show ?thesis by (simp add: guarded_refl)
next
  case True
  then obtain cur d new where R: "an_Read an = ReadData cur" and op: "applyOp rq cur = Inr d" "analyze d = Inr new"
    by blast
  obtain bid st1 where b: "createBackup an src (or_key rq) cur (serialOfState cur) (or_actor rq) st = (bid, st1)"
    by (cases "createBackup an src (or_key rq) cur (serialOfState cur) (or_actor rq) st")
  show ?thesis
  proof (cases bid)
    case None
    then have "st1 = st" using b createBackup_None by blast
    with assms R op b None show ?thesis by (auto simp: operationBody_def guarded_refl Let_def)
  next
    case (Some i)
    note b' = b[unfolded Some]
    have f: "es_calls st' = es_calls st1 @ [CallWrite src (or_key rq) d]" "es_backups st' = es_backups st1"
        "es_locks st' = es_locks st1" "es_native st' = es_native st1"
      using assms R op b' by (auto simp: operationBody_def Let_def split: if_splits)
    have "guarded purge an src (or_key rq) st r st'"
      by (rule guarded_backed_up[OF R b']) (use f in auto)
    with f createBackup_frame[OF b'] show ?thesis by simp
  qed
qed


lemma deleteBody_guarded:
  assumes "deleteBody an src rq st = (r, st')"
  shows "guarded (or_purge rq) an src (or_key rq) st r st' \<and> es_locks st' = es_locks st \<and> es_native st' = es_native st"
proof (cases "an_Read an")
  case (ReadData cur)
  obtain bid st1 where b: "createBackup an src (or_key rq) cur (serialOfState cur) (or_actor rq) st = (bid, st1)"
    by (cases "createBackup an src (or_key rq) cur (serialOfState cur) (or_actor rq) st")
  show ?thesis
  proof (cases bid)
    case None
    then have "st1 = st" using b createBackup_None by blast
    with assms ReadData b None show ?thesis by (auto simp: deleteBody_def guarded_refl Let_def)
  next
    case (Some i)
    note b' = b[unfolded Some]
    have f: "es_calls st' = es_calls st1 @ [CallDelete src (or_key rq)]" "es_locks st' = es_locks st1" "es_native st' = es_native st1"
      and bk: "es_backups st' = es_backups st1
        \<or> or_purge rq \<and> r = Reply 200 (StateDeleted True None) \<and> es_backups st' = filter (\<lambda>b. \<not> backupFor src (or_key rq) b) (es_backups st1)"
      using assms ReadData b'
      by (auto simp: deleteBody_def Let_def deleteBackups_def split: if_splits deleteAns.splits)
    show ?thesis
    proof (cases "es_backups st' = es_backups st1")
      case True
      have "guarded (or_purge rq) an src (or_key rq) st r st'"
        by (rule guarded_backed_up[OF ReadData b']) (use f True in auto)
      with f createBackup_frame[OF b'] show ?thesis by simp
    next
      case False
      let ?b = "\<lparr>bk_ID = i, bk_SourceID = src, bk_StateKey = or_key rq, bk_Data = cur, bk_Serial = serialOfState cur,
       bk_CreatedBy = nullStr (or_actor rq), bk_CreatedAt = an_now an\<rparr>"
      from False bk createBackup_Some[OF b']
      have "or_purge rq" "r = Reply 200 (StateDeleted True None)" "es_backups st' = filter (\<lambda>b. \<not> backupFor src (or_key rq) b) (es_backups st)"
        by (auto simp: backupFor_def)
      then have "guarded (or_purge rq) an src (or_key rq) st r st'" unfolding guarded_def
        using f ReadData createBackup_frame[OF b'] createBackup_Some[OF b']
        by (intro disjI2 exI[of _ cur] exI[of _ "CallDelete src (or_key rq)"] exI[of _ ?b]) simp
      with f createBackup_frame[OF b'] show ?thesis by simp
    qed
  qed
qed (use assms in \<open>auto simp: deleteBody_def guarded_refl Let_def\<close>)

section \<open>The handlers\<close>

lemma guarded_change:
  "guarded purge an src key st1 r st2 \<Longrightarrow> es_calls st1 = es_calls st \<Longrightarrow> es_backups st1 = es_backups st \<Longrightarrow>
   es_calls st2 = es_calls st' \<Longrightarrow> es_backups st2 = es_backups st' \<Longrightarrow> guarded purge an src key st r st'"
  by (simp add: guarded_def)

lemma acquireLock_frame:
  "acquireLock lkr env src key actor st = (x, st1) \<Longrightarrow>
   es_calls st1 = es_calls st \<and> es_backups st1 = es_backups st \<and> es_edits st1 = es_edits st \<and> es_audit st1 = es_audit st"
  by (auto simp: acquireLock_def split: option.splits prod.splits sum.splits)

lemma releaseLock_frame [simp]:
  "es_calls (releaseLock lkr f h st) = es_calls st" "es_backups (releaseLock lkr f h st) = es_backups st"
  "es_edits (releaseLock lkr f h st) = es_edits st" "es_audit (releaseLock lkr f h st) = es_audit st"
  by (auto simp: releaseLock_def split: lockHandle.splits option.splits)

definition goodBody :: "bool \<Rightarrow> answers \<Rightarrow> string \<Rightarrow> string \<Rightarrow> ('n editState \<Rightarrow> reply \<times> 'n editState) \<Rightarrow> bool" where
  "goodBody purge an src key body = (\<forall>st r st'. body st = (r, st') \<longrightarrow>
     guarded purge an src key st r st' \<and> es_locks st' = es_locks st \<and> es_native st' = es_native st)"

lemma withLock_guarded:
  assumes "goodBody purge an src key body" "withLock an sa src key actor body st = (r, st')"
  shows "guarded purge an src key st r st'"
proof -
  obtain x st1 where a: "acquireLock (sa_locker sa) (an_lock an) src key actor st = (x, st1)"
    by (cases "acquireLock (sa_locker sa) (an_lock an) src key actor st")
  note f = acquireLock_frame[OF a]
  show ?thesis
  proof (cases x)
    case (Inl e)
    with assms(2) a f show ?thesis by (auto simp: withLock_def guarded_def)
  next
    case (Inr h)
    obtain r2 st2 where b: "body st1 = (r2, st2)" by (cases "body st1")
    with assms(1) have g: "guarded purge an src key st1 r2 st2" by (simp add: goodBody_def)
    from assms(2) a Inr b have "r = r2" "st' = releaseLock (sa_locker sa) (an_releaseFails an) h st2"
      by (simp_all add: withLock_def)
    with guarded_change[OF g, of st st'] f show ?thesis by simp
  qed
qed

lemma good_replace: "goodBody False an src (rq_key rq) (replaceBody an src rq d new)"
  by (simp add: goodBody_def replaceBody_guarded)

lemma good_operation:
  "goodBody (or_op rq = ''delete'' \<and> or_purge rq) an src (or_key rq) (if or_op rq = ''delete'' then deleteBody an src rq else operationBody an src rq)"
  by (simp add: goodBody_def deleteBody_guarded operationBody_guarded)


text \<open>Every handler either does nothing or runs a good body under the lock of its key.\<close>

lemma editStateH_cases:
  assumes "editStateH an sa rq st = (r, st')"
  obtains "st' = st" "\<forall>e. r \<noteq> Reply 409 (LockedBy e)"
  | src d new where "sourceAndConnector sa = Inr src" "rq_body rq = Some d" "analyze d = Inr new"
      "withLock an sa src (rq_key rq) (rq_actor rq) (replaceBody an src rq d new) st = (r, st')"
  using assms by (auto simp: editStateH_def split: if_splits option.splits sum.splits)

lemma stateOperationH_cases:
  assumes "stateOperationH an sa rq st = (r, st')"
  obtains "st' = st"
  | src where "sourceAndConnector sa = Inr src" "operationGate rq = None"
      "withLock an sa src (or_key rq) (or_actor rq)
         (if or_op rq = ''delete'' then deleteBody an src rq else operationBody an src rq) st = (r, st')"
proof (cases "operationGate rq")
  case (Some x)
  with assms have "st' = st" by (simp add: stateOperationH_def)
  then show thesis by (rule that(1))
next
  case None
  show thesis
  proof (cases "sourceAndConnector sa")
    case (Inl code)
    with assms None have "st' = st" by (simp add: stateOperationH_def)
    then show thesis by (rule that(1))
  next
    case (Inr src)
    with assms None have "withLock an sa src (or_key rq) (or_actor rq)
         (if or_op rq = ''delete'' then deleteBody an src rq else operationBody an src rq) st = (r, st')"
      by (simp add: stateOperationH_def)
    then show thesis by (rule that(2)[OF Inr None])
  qed
qed



subsection \<open>A concrete run\<close>

definition sampleLockEnv :: lockEnv where
  "sampleLockEnv = \<lparr>le_reapAt = 0, le_insertAt = 0, le_newID = ''L1'', le_reapFails = False,
     le_insertFails = False, le_holderFails = False\<rparr>"

definition stateDoc :: "string \<Rightarrow> string \<Rightarrow> rawdoc" where
  "stateDoc serial lineage = Doc (JObj [(''version'', JNum ''4''), (''serial'', JNum serial), (''lineage'', JStr lineage)])"

definition sampleAnswers :: "string \<Rightarrow> readAns \<Rightarrow> answers" where
  "sampleAnswers bid rd = \<lparr>an_lock = sampleLockEnv, an_Read = rd, an_backupFails = False, an_backupID = bid, an_now = 7,
     an_WriteFails = False, an_Delete = Deleted, an_purgeFails = False, an_recordFails = False, an_releaseFails = False\<rparr>"

definition sampleSource :: "unit sourceAnswers" where
  "sampleSource = \<lparr>sa_scopeResolved = True, sa_row = Some (Some ''src''), sa_credsOk = True, sa_newOk = True, sa_locker = None\<rparr>"

definition emptyEditState :: "unit editState" where
  "emptyEditState = \<lparr>es_locks = [], es_native = (), es_backups = [], es_edits = [], es_calls = [], es_audit = []\<rparr>"

definition sampleRequest :: editRequest where
  "sampleRequest = \<lparr>rq_key = ''k'', rq_body = Some (stateDoc ''5'' ''x''), rq_force = False, rq_actor = ''u''\<rparr>"

lemma sample_edit:
  "case editStateH (sampleAnswers ''b1'' (ReadData (stateDoc ''4'' ''x''))) sampleSource sampleRequest emptyEditState of
     (r, st') \<Rightarrow> (case r of Reply code (Written b s) \<Rightarrow> code = 200 \<and> b = Some ''b1'' \<and> s = 5 | _ \<Rightarrow> False)
       \<and> es_locks st' = [] \<and> length (es_calls st') = 1 \<and> length (es_backups st') = 1"
  by code_simp


subsection \<open>Locking\<close>

definition untouched :: "'n editState \<Rightarrow> 'n editState \<Rightarrow> bool" where
  "untouched st st' = (es_calls st' = es_calls st \<and> es_backups st' = es_backups st \<and> es_edits st' = es_edits st
     \<and> es_audit st' = es_audit st)"

definition lockedFor :: "answers \<Rightarrow> string \<Rightarrow> string \<Rightarrow> 'n editState \<Rightarrow> bool" where
  "lockedFor an src key st =
     (\<exists>l \<in> set (es_locks st). isFor src key l \<and> le_reapAt (an_lock an) - staleLockTTL \<le> lk_RenewedAt l)"

lemma withLock_serialized:
  assumes "goodBody purge an src key body" "sa_locker sa = None"
    and run: "withLock an sa src key actor body st = (r, st')"
  shows "filter (\<lambda>l. \<not> isFor src key l) (es_locks st') = filter (\<lambda>l. \<not> isFor src key l) (es_locks st)
    \<and> (lockedFor an src key st \<longrightarrow> (\<exists>e. r = Reply 409 (LockedBy e)) \<and> untouched st st')
    \<and> ((\<exists>e. r = Reply 409 (LockedBy e)) \<or> an_releaseFails an \<or> (\<forall>l \<in> set (es_locks st'). \<not> isFor src key l))"
proof -
  obtain x t where a: "acquire (an_lock an) src key actor (es_locks st) = (x, t)"
    by (cases "acquire (an_lock an) src key actor (es_locks st)")
  note acq = acquire_row[OF a]
  show ?thesis
  proof (cases x)
    case (Inl e)
    with run a assms(2) have "r = Reply 409 (LockedBy (AppRefused e))" "st' = st\<lparr>es_locks := t\<rparr>"
      by (simp_all add: withLock_def acquireLock_def)
    with acq show ?thesis by (simp add: untouched_def)
  next
    case (Inr lid)
    obtain r2 st2 where b: "body (st\<lparr>es_locks := t\<rparr>) = (r2, st2)" by (cases "body (st\<lparr>es_locks := t\<rparr>)")
    with assms(1) have l2: "es_locks st2 = t" by (fastforce simp: goodBody_def)
    from run a assms(2) Inr b
    have st': "r = r2" "st' = (if an_releaseFails an then st2 else st2\<lparr>es_locks := release src key lid (es_locks st2)\<rparr>)"
      by (simp_all add: withLock_def acquireLock_def releaseLock_def)
    from acq Inr have free: "\<not> lockedFor an src key st"
      and rel: "release src key lid t = filter (\<lambda>l. \<not> isFor src key l) (es_locks st)"
      by (auto simp: lockedFor_def)
    have "filter (\<lambda>l. \<not> isFor src key l) (es_locks st') = filter (\<lambda>l. \<not> isFor src key l) (es_locks st)"
      using acq l2 rel st' by simp
    moreover have "an_releaseFails an \<or> (\<forall>l \<in> set (es_locks st'). \<not> isFor src key l)"
      using l2 rel st' by simp
    ultimately show ?thesis using free by blast
  qed
qed

lemma edit_plane_serialized_cases:
  assumes "sa_locker sa = None" "sourceAndConnector sa = Inr src"
    and "editStateH an sa rq st = (r, st') \<and> key = rq_key rq
         \<or> stateOperationH an sa oq st = (r, st') \<and> key = or_key oq"
  shows "filter (\<lambda>l. \<not> isFor src key l) (es_locks st') = filter (\<lambda>l. \<not> isFor src key l) (es_locks st)
    \<and> (lockedFor an src key st \<longrightarrow> untouched st st')
    \<and> (st' = st \<or> (\<exists>e. r = Reply 409 (LockedBy e)) \<or> an_releaseFails an
        \<or> (\<forall>l \<in> set (es_locks st'). \<not> isFor src key l))"
  using assms(3)
proof (elim disjE conjE)
  assume e: "editStateH an sa rq st = (r, st')" and key: "key = rq_key rq"
  from e show ?thesis
  proof (cases rule: editStateH_cases)
    case 1
    then show ?thesis by (simp add: untouched_def)
  next
    case (2 src' d new)
    with assms(2) have "src' = src" by simp
    with 2 withLock_serialized[OF good_replace assms(1)] key show ?thesis by blast
  qed
next
  assume e: "stateOperationH an sa oq st = (r, st')" and key: "key = or_key oq"
  from e show ?thesis
  proof (cases rule: stateOperationH_cases)
    case 1
    then show ?thesis by (simp add: untouched_def)
  next
    case (2 src')
    with assms(2) have "src' = src" by simp
    with 2 withLock_serialized[OF good_operation assms(1)] key show ?thesis by blast
  qed
qed





subsection \<open>The serial and lineage guard\<close>

lemma replaceBody_guard:
  assumes "replaceBody an src rq d new st = (r, st')" "es_calls st' \<noteq> es_calls st"
  shows "es_calls st' = es_calls st @ [CallWrite src (rq_key rq) d]
    \<and> (\<forall>cur. an_Read an = ReadData cur \<longrightarrow> guardReplace (rq_force rq) new cur = None)"
proof (cases "an_Read an")
  case ReadNotFound
  with assms writeReplace_facts[of an src rq d new None None st r st'] show ?thesis
    by (auto simp: replaceBody_def)
next
  case (ReadData cur)
  show ?thesis
  proof (cases "guardReplace (rq_force rq) new cur")
    case None
    with assms(1) ReadData obtain bid st1 where b: "createBackup an src (rq_key rq) cur (serialOfState cur) (rq_actor rq) st = (bid, st1)"
      by (cases "createBackup an src (rq_key rq) cur (serialOfState cur) (rq_actor rq) st")
    show ?thesis
    proof (cases bid)
      case no: None
      then have "st1 = st" using b createBackup_None by blast
      with assms None ReadData b no show ?thesis by (auto simp: replaceBody_def Let_def)
    next
      case (Some i)
      with assms(1) ReadData None b have "writeReplace an src rq d new (Some i) (serialOfState cur) st1 = (r, st')"
        by (simp add: replaceBody_def Let_def)
      from writeReplace_facts[OF this] createBackup_frame[OF b] None ReadData show ?thesis by simp
    qed
  next
    case (Some refusal)
    with assms ReadData show ?thesis by (simp add: replaceBody_def)
  qed
qed (use assms in \<open>simp add: replaceBody_def\<close>)

text \<open>C8: A replace that reaches the backend writes the body of the request, a document that
  \<open>Analyze\<close> accepts. If it was not forced and the state it replaces was read and \<open>Analyze\<close> accepts that one
  too, the new serial is not below the old one, and where both name a lineage the two are the same. A
  current state that \<open>Analyze\<close> rejects, and a lineage that is empty on either side, are not checked by the
  code, forced or not: the replace goes through.\<close>

theorem replace_respects_serial_and_lineage:
  assumes "editStateH an sa rq st = (r, st')" "es_calls st' \<noteq> es_calls st"
  shows "\<exists>src d new. sourceAndConnector sa = Inr src \<and> rq_body rq = Some d \<and> analyze d = Inr new
    \<and> es_calls st' = es_calls st @ [CallWrite src (rq_key rq) d]
    \<and> (\<forall>cur old. an_Read an = ReadData cur \<longrightarrow> analyze cur = Inr old \<longrightarrow> \<not> rq_force rq \<longrightarrow>
         an_Serial old \<le> an_Serial new
         \<and> (an_Lineage old \<noteq> [] \<longrightarrow> an_Lineage new \<noteq> [] \<longrightarrow> an_Lineage old = an_Lineage new))"
  using assms(1)
proof (cases rule: editStateH_cases)
  case 1
  with assms(2) show ?thesis by simp
next
  case (2 src d new)
  obtain x st1 where a: "acquireLock (sa_locker sa) (an_lock an) src (rq_key rq) (rq_actor rq) st = (x, st1)"
    by (cases "acquireLock (sa_locker sa) (an_lock an) src (rq_key rq) (rq_actor rq) st")
  note f = acquireLock_frame[OF a]
  from 2(4) a f assms(2) obtain h where h: "x = Inr h" by (cases x) (auto simp: withLock_def)
  obtain r2 st2 where b: "replaceBody an src rq d new st1 = (r2, st2)" by (cases "replaceBody an src rq d new st1")
  from 2(4) a h b have "es_calls st' = es_calls st2" by (auto simp: withLock_def)
  with replaceBody_guard[OF b] f assms(2)
  have "es_calls st' = es_calls st @ [CallWrite src (rq_key rq) d]"
    and "\<forall>cur. an_Read an = ReadData cur \<longrightarrow> guardReplace (rq_force rq) new cur = None" by simp_all
  moreover from this(2) have "\<forall>cur old. an_Read an = ReadData cur \<longrightarrow> analyze cur = Inr old \<longrightarrow> \<not> rq_force rq \<longrightarrow>
         an_Serial old \<le> an_Serial new
         \<and> (an_Lineage old \<noteq> [] \<longrightarrow> an_Lineage new \<noteq> [] \<longrightarrow> an_Lineage old = an_Lineage new)"
    by (fastforce simp: guardReplace_def split: if_splits)
  ultimately show ?thesis using 2 by blast
qed

theorem replace_respects_serial_and_lineage_witness:
  "length (es_calls (snd (editStateH (sampleAnswers ''b1'' (ReadData (stateDoc ''4'' ''x''))) sampleSource sampleRequest emptyEditState))) = 1"
proof -
  let ?run = "editStateH (sampleAnswers ''b1'' (ReadData (stateDoc ''4'' ''x''))) sampleSource sampleRequest emptyEditState"
  have e: "?run = (fst ?run, snd ?run)" by simp
  have "es_calls emptyEditState = []" by (simp add: emptyEditState_def)
  moreover have "es_calls (snd ?run) \<noteq> []" using sample_edit by (auto split: prod.splits)
  ultimately show ?thesis using replace_respects_serial_and_lineage[OF e] by auto
qed
subsection \<open>Every change can be undone\<close>

lemma acquire_free:
  "\<not> le_reapFails env \<Longrightarrow> \<not> le_insertFails env \<Longrightarrow> \<forall>l \<in> set t. \<not> isFor src key l \<Longrightarrow>
   \<exists>t'. acquire env src key actor t = (Inr (le_newID env), t')"
  by (auto simp: acquire_def Let_def insertLock_def lockTaken_def reapLocks_def)

definition undoable :: "reply \<Rightarrow> string \<Rightarrow> bool" where
  "undoable r bid = ((\<exists>s. r = Reply 200 (Written (Some bid) s)) \<or> (\<exists>op s. r = Reply 200 (Applied op bid s))
     \<or> r = Reply 200 (StateDeleted False (Some bid)))"

lemma replaceBody_undo:
  assumes "replaceBody an src rq d new st = (r, st')" "undoable r bid"
  shows "bid = an_backupID an \<and> (\<exists>cur. an_Read an = ReadData cur \<and> es_calls st' \<noteq> es_calls st)"
proof (cases "an_Read an")
  case (ReadData cur)
  with assms obtain st1 where g: "guardReplace (rq_force rq) new cur = None"
    and b: "createBackup an src (rq_key rq) cur (serialOfState cur) (rq_actor rq) st = (Some bid, st1)"
    and w: "writeReplace an src rq d new (Some bid) (serialOfState cur) st1 = (r, st')"
    by (auto simp: replaceBody_def Let_def undoable_def writeReplace_def guardReplace_def
          split: option.splits prod.splits if_splits sum.splits)
  from createBackup_Some[OF b] createBackup_frame[OF b] writeReplace_facts[OF w] ReadData show ?thesis by simp
qed (use assms in \<open>auto simp: replaceBody_def undoable_def writeReplace_def Let_def split: if_splits\<close>)

lemma applyOp_not_undoable: "applyOp rq cur = Inl r \<Longrightarrow> \<not> undoable r bid"
  by (auto simp: applyOp_def undoable_def Let_def split: if_splits sum.splits)

lemma operationBody_undo:
  assumes "operationBody an src rq st = (r, st')" "undoable r bid"
  shows "bid = an_backupID an \<and> (\<exists>cur. an_Read an = ReadData cur \<and> es_calls st' \<noteq> es_calls st)"
proof (cases "an_Read an")
  case (ReadData cur)
  with assms applyOp_not_undoable[of rq cur r bid] obtain d st1 b' and new :: analysis where
      b: "createBackup an src (or_key rq) cur (serialOfState cur) (or_actor rq) st = (Some b', st1)"
    and w: "es_calls st' = es_calls st1 @ [CallWrite src (or_key rq) d]" "r = Reply 200 (Applied (or_op rq) b' (an_Serial new))"
    by (auto simp: operationBody_def Let_def undoable_def split: option.splits prod.splits if_splits sum.splits)
  from w(2) assms(2) have "b' = bid" by (simp add: undoable_def)
  with createBackup_Some[OF b] createBackup_frame[OF b] w ReadData show ?thesis by simp
qed (use assms in \<open>auto simp: operationBody_def undoable_def\<close>)

lemma deleteBody_undo:
  assumes "deleteBody an src rq st = (r, st')" "undoable r bid"
  shows "bid = an_backupID an \<and> (\<exists>cur. an_Read an = ReadData cur \<and> es_calls st' \<noteq> es_calls st)"
proof (cases "an_Read an")
  case (ReadData cur)
  with assms obtain st1 where
      b: "createBackup an src (or_key rq) cur (serialOfState cur) (or_actor rq) st = (Some bid, st1)"
    and w: "es_calls st' = es_calls st1 @ [CallDelete src (or_key rq)]"
    by (auto simp: deleteBody_def Let_def undoable_def deleteBackups_def split: option.splits prod.splits if_splits deleteAns.splits)
  from createBackup_Some[OF b] createBackup_frame[OF b] w ReadData show ?thesis by simp
qed (use assms in \<open>auto simp: deleteBody_def undoable_def Let_def\<close>)

definition undoBody :: "answers \<Rightarrow> ('n editState \<Rightarrow> reply \<times> 'n editState) \<Rightarrow> bool" where
  "undoBody an body = (\<forall>st r st' bid. body st = (r, st') \<longrightarrow> undoable r bid \<longrightarrow>
     bid = an_backupID an \<and> (\<exists>cur. an_Read an = ReadData cur \<and> es_calls st' \<noteq> es_calls st))"

lemma undo_delete: "undoBody an (deleteBody an src rq)"
  unfolding undoBody_def using deleteBody_undo by blast

lemma undo_operation: "undoBody an (operationBody an src rq)"
  unfolding undoBody_def using operationBody_undo by blast

lemma withLock_undo:
  assumes "goodBody purge an src key body" "undoBody an body"
    and "withLock an sa src key actor body st = (r, st')" "undoable r bid"
  shows "\<exists>cur b. an_Read an = ReadData cur \<and> es_backups st' = es_backups st @ [b] \<and> bk_ID b = bid \<and> bid = an_backupID an
    \<and> bk_SourceID b = src \<and> bk_StateKey b = key \<and> bk_Data b = cur"
proof -
  obtain x st1 where a: "acquireLock (sa_locker sa) (an_lock an) src key actor st = (x, st1)"
    by (cases "acquireLock (sa_locker sa) (an_lock an) src key actor st")
  with assms(3,4) obtain h where h: "x = Inr h" by (cases x) (auto simp: withLock_def undoable_def)
  obtain r2 st2 where b: "body st1 = (r2, st2)" by (cases "body st1")
  from assms(3) a h b have st': "r2 = r" "st' = releaseLock (sa_locker sa) (an_releaseFails an) h st2"
    by (simp_all add: withLock_def)
  from assms(2) b assms(4) st'(1) obtain cur where u: "bid = an_backupID an" "an_Read an = ReadData cur"
      "es_calls st2 \<noteq> es_calls st1" unfolding undoBody_def by blast
  from assms(1) b st'(1) have "guarded purge an src key st1 r st2" by (simp add: goodBody_def)
  moreover have "r \<noteq> Reply 200 (StateDeleted True None)" using assms(4) by (auto simp: undoable_def)
  ultimately show ?thesis using u acquireLock_frame[OF a] st'(2) by (auto simp: guarded_def)
qed

lemma edit_undo:
  assumes "editStateH an sa rq st = (r, st') \<and> key = rq_key rq \<or> stateOperationH an sa oq st = (r, st') \<and> key = or_key oq"
    and "undoable r bid" "sourceAndConnector sa = Inr src"
  shows "\<exists>cur b. an_Read an = ReadData cur \<and> es_backups st' = es_backups st @ [b] \<and> bk_ID b = bid \<and> bid = an_backupID an
    \<and> bk_SourceID b = src \<and> bk_StateKey b = key \<and> bk_Data b = cur"
  using assms(1)
proof (elim disjE conjE)
  assume e: "editStateH an sa rq st = (r, st')" and key: "key = rq_key rq"
  have "\<exists>d new. withLock an sa src (rq_key rq) (rq_actor rq) (replaceBody an src rq d new) st = (r, st')"
    using e assms(2,3) by (auto simp: editStateH_def undoable_def split: if_splits option.splits sum.splits)
  then obtain d new where w: "withLock an sa src (rq_key rq) (rq_actor rq) (replaceBody an src rq d new) st = (r, st')"
    by blast
  have "undoBody an (replaceBody an src rq d new)" unfolding undoBody_def using replaceBody_undo by blast
  from withLock_undo[OF good_replace this w assms(2)] key show ?thesis by simp
next
  assume e: "stateOperationH an sa oq st = (r, st')" and key: "key = or_key oq"
  have gate: "operationGate oq = Some x \<Longrightarrow> \<not> undoable x bid" for x
    by (auto simp: operationGate_def undoable_def split: if_splits)
  from e assms(2,3) gate have "operationGate oq = None" by (auto simp: stateOperationH_def split: option.splits)
  with e assms(3) have w: "withLock an sa src (or_key oq) (or_actor oq)
         (if or_op oq = ''delete'' then deleteBody an src oq else operationBody an src oq) st = (r, st')"
    by (simp add: stateOperationH_def)
  have "undoBody an (if or_op oq = ''delete'' then deleteBody an src oq else operationBody an src oq)"
    by (simp add: undo_delete undo_operation)
  from withLock_undo[OF good_operation this w assms(2)] key show ?thesis by simp
qed


lemma withLock_free:
  assumes "sa_locker sa = None" "\<forall>l \<in> set (es_locks st). \<not> isFor src key l"
    and "\<not> le_reapFails (an_lock an)" "\<not> le_insertFails (an_lock an)"
  obtains st1 h where "es_calls st1 = es_calls st" "es_backups st1 = es_backups st"
    "withLock an sa src key actor body st =
       (case body st1 of (r, st2) \<Rightarrow> (r, releaseLock (sa_locker sa) (an_releaseFails an) h st2))"
proof -
  from acquire_free[OF assms(3,4,2)] obtain t where
    "acquire (an_lock an) src key actor (es_locks st) = (Inr (le_newID (an_lock an)), t)" by blast
  then show thesis using assms(1)
    by (intro that[of "st\<lparr>es_locks := t\<rparr>" "AppHandle src key (le_newID (an_lock an))"])
      (simp_all add: withLock_def acquireLock_def)
qed

text \<open>C9: Every edit is one restore away from undone. When a replace, a structured operation or a
  delete answers with a backup id, restoring that id writes to the same source and key exactly the
  state the handler had read, provided no statement or backend call of the restore fails.\<close>

theorem every_edit_can_be_undone:
  assumes "editStateH an sa rq st = (r, st1) \<and> key = rq_key rq \<or> stateOperationH an sa oq st = (r, st1) \<and> key = or_key oq"
    and "undoable r bid" "sourceAndConnector sa = Inr src" "sa_locker sa = None" "\<not> an_releaseFails an"
    and fresh: "\<forall>b \<in> set (es_backups st). bk_ID b \<noteq> an_backupID an"
    and ok: "\<not> le_reapFails (an_lock an2)" "\<not> le_insertFails (an_lock an2)" "an_Read an2 \<noteq> ReadFailed"
      "\<not> an_backupFails an2" "\<not> an_WriteFails an2"
    and restore: "restoreBackupH False an2 sa bid actor st1 = (r2, st2)"
  shows "\<exists>cur. an_Read an = ReadData cur \<and> r2 = Reply 200 Restored \<and> es_calls st2 = es_calls st1 @ [CallWrite src key cur]"
proof -
  from edit_undo[OF assms(1,2,3)] obtain cur b where cur: "an_Read an = ReadData cur"
    and bs: "es_backups st1 = es_backups st @ [b]" and b: "bk_ID b = bid" "bid = an_backupID an"
      "bk_SourceID b = src" "bk_StateKey b = key" "bk_Data b = cur" by blast
  have "List.find (\<lambda>b. bk_ID b = bid) (es_backups st) = None" using fresh b(2) by (auto simp: find_None_iff)
  then have g: "getBackup bid st1 = Some b" using bs b(1) by (simp add: getBackup_def find_append)
  have ne: "st1 \<noteq> st" using bs by (metis append_self_conv not_Cons_self2)
  have "\<forall>l \<in> set (es_locks st1). \<not> isFor src key l"
    using edit_plane_serialized_cases[OF assms(4,3,1)] ne assms(2,5) by (auto simp: undoable_def)
  then obtain st3 h where w: "es_calls st3 = es_calls st1" "withLock an2 sa src key actor (restoreBody an2 src b actor) st1 =
       (case restoreBody an2 src b actor st3 of (r, st2) \<Rightarrow> (r, releaseLock (sa_locker sa) (an_releaseFails an2) h st2))"
    using withLock_free[OF assms(4) _ ok(1,2)] by metis
  have "restoreBackupH False an2 sa bid actor st1 = withLock an2 sa src key actor (restoreBody an2 src b actor) st1"
    using g assms(3) b by (simp add: restoreBackupH_def)
  moreover have "\<exists>st4. restoreBody an2 src b actor st3 = (Reply 200 Restored, st4) \<and> es_calls st4 = es_calls st3 @ [CallWrite src key cur]"
    using ok(3,4,5) b by (cases "an_Read an2") (auto simp: restoreBody_def Let_def createBackup_def)
  ultimately show ?thesis using restore w cur by auto
qed

theorem every_edit_can_be_undone_witness:
  "es_calls (snd (restoreBackupH False (sampleAnswers ''b2'' ReadNotFound) sampleSource ''b1'' ''u''
     (snd (editStateH (sampleAnswers ''b1'' (ReadData (stateDoc ''4'' ''x''))) sampleSource sampleRequest emptyEditState)))) =
   es_calls (snd (editStateH (sampleAnswers ''b1'' (ReadData (stateDoc ''4'' ''x''))) sampleSource sampleRequest emptyEditState))
     @ [CallWrite ''src'' ''k'' (stateDoc ''4'' ''x'')]"
proof -
  let ?an = "sampleAnswers ''b1'' (ReadData (stateDoc ''4'' ''x''))"
  let ?an2 = "sampleAnswers ''b2'' ReadNotFound"
  let ?run = "editStateH ?an sampleSource sampleRequest emptyEditState"
  let ?run2 = "restoreBackupH False ?an2 sampleSource ''b1'' ''u'' (snd ?run)"
  have e: "editStateH ?an sampleSource sampleRequest emptyEditState = (fst ?run, snd ?run) \<and> ''k'' = rq_key sampleRequest"
    by (simp add: sampleRequest_def)
  have u: "undoable (fst ?run) ''b1''"
    using sample_edit by (auto simp: undoable_def split: prod.splits reply.splits replyBody.splits)
  have src: "sourceAndConnector sampleSource = Inr ''src''" "sa_locker sampleSource = None"
    by (simp_all add: sampleSource_def sourceAndConnector_def sourceInScope_def)
  have r: "restoreBackupH False ?an2 sampleSource ''b1'' ''u'' (snd ?run) = (fst ?run2, snd ?run2)" by simp
  have "\<exists>cur. an_Read ?an = ReadData cur \<and> fst ?run2 = Reply 200 Restored
      \<and> es_calls (snd ?run2) = es_calls (snd ?run) @ [CallWrite ''src'' ''k'' cur]"
    by (rule every_edit_can_be_undone[OF disjI1[OF e] u src _ _ _ _ _ _ _ r])
      (simp_all add: sampleAnswers_def sampleLockEnv_def emptyEditState_def)
  then show ?thesis by (auto simp: sampleAnswers_def)
qed

subsection \<open>Deleting is for administrators\<close>

text \<open>A state object is deleted only for an administrator who echoed its key: whatever the
  answers, a structured operation whose trace gains a delete was asked for with the admin scope,
  names the key twice, and deletes that key of the source in scope.\<close>

theorem delete_needs_admin_and_echo:
  assumes "stateOperationH an sa rq st = (r, st')" "CallDelete src key \<in> set (es_calls st')"
    and "CallDelete src key \<notin> set (es_calls st)"
  shows "or_admin rq \<and> or_op rq = ''delete'' \<and> or_echo rq = or_key rq \<and> key = or_key rq
    \<and> sourceAndConnector sa = Inr src"
  using assms(1)
proof (cases rule: stateOperationH_cases)
  case 1
  with assms show ?thesis by simp
next
  case (2 src')
  note g = withLock_guarded[OF good_operation 2(3)]
  then have key: "key = or_key rq" "src' = src" using assms(2,3) by (auto simp: guarded_def)
  have "or_op rq = ''delete''"
  proof (rule ccontr)
    assume op: "or_op rq \<noteq> ''delete''"
    obtain x st1 where a: "acquireLock (sa_locker sa) (an_lock an) src' (or_key rq) (or_actor rq) st = (x, st1)"
      by (cases "acquireLock (sa_locker sa) (an_lock an) src' (or_key rq) (or_actor rq) st")
    obtain r2 st2 where b: "operationBody an src' rq st1 = (r2, st2)" by (cases "operationBody an src' rq st1")
    have "es_calls st2 = es_calls st1 \<or> (\<exists>d. es_calls st2 = es_calls st1 @ [CallWrite src' (or_key rq) d])"
      using b createBackup_frame
      by (fastforce simp: operationBody_def Let_def split: readAns.splits sum.splits prod.splits option.splits if_splits)
    moreover have "es_calls st' = es_calls st1 \<or> es_calls st' = es_calls st2"
      using 2(3) a b op by (auto simp: withLock_def split: sum.splits)
    ultimately show False using acquireLock_frame[OF a] assms(2,3) by auto
  qed
  with 2(2) key 2(1) show ?thesis by (auto simp: operationGate_def split: if_splits)
qed

definition deleteRequest :: opRequest where
  "deleteRequest = \<lparr>or_key = ''k'', or_bound = True, or_op = ''delete'', or_address = [], or_to = [],
     or_echo = ''k'', or_purge = False, or_admin = True, or_actor = ''u''\<rparr>"

theorem delete_needs_admin_and_echo_witness:
  "or_admin deleteRequest \<and> CallDelete ''src'' ''k'' \<in> set (es_calls (snd
     (stateOperationH (sampleAnswers ''b1'' (ReadData (stateDoc ''4'' ''x''))) sampleSource deleteRequest emptyEditState)))"
proof -
  let ?run = "stateOperationH (sampleAnswers ''b1'' (ReadData (stateDoc ''4'' ''x''))) sampleSource deleteRequest emptyEditState"
  have e: "?run = (fst ?run, snd ?run)" by simp
  have "list_ex (\<lambda>c. case c of CallDelete s k \<Rightarrow> s = ''src'' \<and> k = ''k'' | _ \<Rightarrow> False) (es_calls (snd ?run))"
    by code_simp
  then obtain c where c: "c \<in> set (es_calls (snd ?run))" and del: "case c of CallDelete s k \<Rightarrow> s = ''src'' \<and> k = ''k'' | _ \<Rightarrow> False"
    unfolding list_ex_iff by blast
  from del have "c = CallDelete ''src'' ''k''" by (cases c) simp_all
  with c have "CallDelete ''src'' ''k'' \<in> set (es_calls (snd ?run))" by (simp only:)
  with delete_needs_admin_and_echo[OF e] show ?thesis by (simp add: emptyEditState_def)
qed

subsection \<open>Retention\<close>

lemma take_newest:
  assumes "b \<in> set bs" "\<not> keptNewest keep bs b" "b' \<in> set (take keep (newestFirst (filter (sameKey b) bs)))"
  shows "bk_CreatedAt b \<le> bk_CreatedAt b'"
proof -
  let ?xs = "newestFirst (filter (sameKey b) bs)"
  have "b \<in> set ?xs" using assms(1) by (simp add: newestFirst_def sameKey_def backupFor_def)
  moreover have "b \<notin> set (take keep ?xs)" using assms(2) by (auto simp: keptNewest_def)
  ultimately have d: "b \<in> set (drop keep ?xs)" by (metis append_take_drop_id set_append UnE)
  have "sorted_wrt (\<lambda>x y. - bk_CreatedAt x \<le> - bk_CreatedAt y) (take keep ?xs @ drop keep ?xs)"
    using sorted_wrt_sort_key[of "\<lambda>b. - bk_CreatedAt b" "filter (sameKey b) bs"] by (simp add: newestFirst_def)
  with d assms(3) show ?thesis unfolding sorted_wrt_append by fastforce
qed

text \<open>Retention never takes the last restore points of a state. Pruning with a floor of
  \<open>keep\<close> removes only rows older than the age; of every source and key at least the newest \<open>keep\<close>
  stay (all, if there are fewer), none of them older than a row that was removed; and a floor below
  one or an age that is not positive is refused.\<close>

theorem prune_keeps_newest:
  assumes "distinct (map bk_ID bs)"
  shows "case pruneBackups keep maxAge now bs of
      None \<Rightarrow> keep < 1 \<or> maxAge \<le> 0
    | Some (n, kept) \<Rightarrow> 1 \<le> keep \<and> 0 < maxAge \<and> n + length kept = length bs
       \<and> (\<forall>src key. min (nat keep) (length (filter (backupFor src key) bs)) \<le> length (filter (backupFor src key) kept))
       \<and> (\<forall>b \<in> set bs. b \<notin> set kept \<longrightarrow> bk_CreatedAt b < now - maxAge
            \<and> nat keep \<le> length (filter (\<lambda>b'. sameKey b b' \<and> bk_CreatedAt b \<le> bk_CreatedAt b') kept))"
proof (cases "keep < 1 \<or> maxAge \<le> 0")
  case True
  then show ?thesis by (auto simp: pruneBackups_def)
next
  case False
  let ?kept = "filter (\<lambda>b. keptNewest (nat keep) bs b \<or> \<not> bk_CreatedAt b < now - maxAge) bs"
  have dist: "distinct bs" using assms by (simp add: distinct_map)
  have sub: "take (nat keep) (newestFirst (filter (backupFor src key) bs)) = xs \<Longrightarrow>
      set xs \<subseteq> set (filter (backupFor src key) ?kept) \<and> distinct xs
      \<and> length xs = min (nat keep) (length (filter (backupFor src key) bs))" for src key xs
  proof -
    assume xs: "take (nat keep) (newestFirst (filter (backupFor src key) bs)) = xs"
    have "set xs \<subseteq> set (filter (backupFor src key) bs)"
      using xs set_take_subset[of "nat keep" "newestFirst (filter (backupFor src key) bs)"] by (auto simp: newestFirst_def)
    moreover have "keptNewest (nat keep) bs b" if "b \<in> set xs" for b
    proof -
      from that calculation have "sameKey b = backupFor src key" by (auto simp: sameKey_def backupFor_def fun_eq_iff)
      with that xs show ?thesis by (simp add: keptNewest_def)
    qed
    ultimately have "set xs \<subseteq> set (filter (backupFor src key) ?kept)" by auto
    moreover have "distinct xs" using xs dist by (auto simp: newestFirst_def intro: distinct_take)
    moreover have "length xs = min (nat keep) (length (filter (backupFor src key) bs))"
      using xs by (auto simp: newestFirst_def)
    ultimately show ?thesis by blast
  qed
  have card: "length xs \<le> length ys" if "distinct xs" "set xs \<subseteq> set ys" for xs ys :: "backup list"
    using that by (metis card_length card_mono distinct_card finite_set order_trans)
  have floor: "min (nat keep) (length (filter (backupFor src key) bs)) \<le> length (filter (backupFor src key) ?kept)" for src key
    using sub[of src key] card by metis
  have newer: "bk_CreatedAt b < now - maxAge
      \<and> nat keep \<le> length (filter (\<lambda>b'. sameKey b b' \<and> bk_CreatedAt b \<le> bk_CreatedAt b') ?kept)"
    if b: "b \<in> set bs" "b \<notin> set ?kept" for b
  proof -
    let ?xs = "take (nat keep) (newestFirst (filter (sameKey b) bs))"
    have sk: "sameKey b = backupFor (bk_SourceID b) (bk_StateKey b)" by (simp add: sameKey_def fun_eq_iff)
    from b have old: "\<not> keptNewest (nat keep) bs b" "bk_CreatedAt b < now - maxAge" by auto
    have s: "set ?xs \<subseteq> set (filter (sameKey b) ?kept) \<and> distinct ?xs
        \<and> length ?xs = min (nat keep) (length (filter (sameKey b) bs))"
      unfolding sk by (rule sub[OF refl])
    have "nat keep < length (filter (sameKey b) bs)"
    proof (rule ccontr)
      assume "\<not> ?thesis"
      then have "?xs = newestFirst (filter (sameKey b) bs)" by (simp add: newestFirst_def)
      with b(1) have "b \<in> set ?xs" by (simp add: newestFirst_def sameKey_def backupFor_def)
      with old(1) show False by (auto simp: keptNewest_def)
    qed
    with s have len: "length ?xs = nat keep" by (simp only: min_def) simp
    have "set ?xs \<subseteq> set (filter (\<lambda>b'. sameKey b b' \<and> bk_CreatedAt b \<le> bk_CreatedAt b') ?kept)"
      using s take_newest[OF b(1) old(1)] by auto
    with s have "length ?xs \<le> length (filter (\<lambda>b'. sameKey b b' \<and> bk_CreatedAt b \<le> bk_CreatedAt b') ?kept)"
      by (intro card) simp_all
    with len old(2) show ?thesis by simp
  qed
  have p: "pruneBackups keep maxAge now bs = Some (length bs - length ?kept, ?kept)"
    using False by (simp add: pruneBackups_def Let_def)
  have "length bs - length ?kept + length ?kept = length bs" by simp
  moreover have "1 \<le> keep \<and> 0 < maxAge" using False by simp
  ultimately show ?thesis unfolding p option.case prod.case using floor newer by blast
qed

theorem prune_keeps_newest_witness:
  "distinct (map bk_ID (es_backups emptyEditState)) \<and>
   (case pruneBackups 1 5 100 (es_backups emptyEditState) of None \<Rightarrow> False | Some (n, kept) \<Rightarrow> n + length kept = 0)"
proof -
  have d: "distinct (map bk_ID (es_backups emptyEditState))" by (simp add: emptyEditState_def)
  show ?thesis using prune_keeps_newest[OF d, of 1 5 100] d
    by (auto simp: emptyEditState_def pruneBackups_def)
qed

subsection \<open>Previews\<close>

lemma currentBy_None: "currentBy current k = None \<longleftrightarrow> k \<notin> resourceKey ` set current"
  by (auto simp: currentBy_def find_None_iff)

lemma currentBy_Some: "currentBy current k = Some r \<Longrightarrow> r \<in> set current \<and> resourceKey r = k"
  by (auto simp: currentBy_def find_Some_iff in_set_conv_nth rev_nth)
    (metis diff_less length_greater_0_conv less_imp_diff_less list.size(3) not_less_zero diff_Suc_less)

lemma diffLoop_filter:
  "diffLoop fg current ps =
     (filter (\<lambda>p. resourceKey p \<notin> resourceKey ` set current) ps,
      filter (\<lambda>p. \<exists>cr. currentBy current (resourceKey p) = Some cr \<and> \<not> sameShape fg cr p) ps)"
proof (induction ps)
  case (Cons p ps)
  then show ?case using currentBy_None[of current "resourceKey p"]
    by (cases "currentBy current (resourceKey p)") auto
qed simp

text \<open>The preview of an edit is exact on what it can see: added are the proposed resources whose
  identity the current state lacks, removed the current ones the proposal lacks, so previewing the
  opposite change swaps the two; a resource in both is changed exactly when its instance count or
  the printed list of its instance keys differs. A proposal equal to the current state, with one
  resource per identity, previews as no change at all.\<close>

theorem preview_exact:
  assumes "distinct (map resourceKey current)"
    and "diffResources fg proposed current = (added, changed, removed)"
  shows "added = filter (\<lambda>p. resourceKey p \<notin> resourceKey ` set current) proposed
    \<and> removed = filter (\<lambda>r. resourceKey r \<notin> resourceKey ` set proposed) current
    \<and> changed = filter (\<lambda>p. \<exists>cr \<in> set current. resourceKey cr = resourceKey p
        \<and> (rs_Instances cr \<noteq> rs_Instances p
           \<or> sprint fg (GArr (rs_InstanceKeys cr)) \<noteq> sprint fg (GArr (rs_InstanceKeys p)))) proposed
    \<and> fst (diffResources fg current proposed) = removed
    \<and> snd (snd (diffResources fg current proposed)) = added
    \<and> (proposed = current \<longrightarrow> added = [] \<and> changed = [] \<and> removed = [])"
proof -
  have cur: "currentBy current (resourceKey p) = Some cr \<longleftrightarrow> cr \<in> set current \<and> resourceKey cr = resourceKey p" for p cr
  proof
    assume c: "cr \<in> set current \<and> resourceKey cr = resourceKey p"
    then have "currentBy current (resourceKey p) \<noteq> None" unfolding currentBy_None by (auto intro!: image_eqI[of _ resourceKey cr])
    then obtain r where r: "currentBy current (resourceKey p) = Some r" by blast
    with currentBy_Some[OF r] c assms(1) have "r = cr" by (auto simp: distinct_map inj_on_def)
    with r show "currentBy current (resourceKey p) = Some cr" by simp
  qed (rule currentBy_Some)
  have ch: "changed = filter (\<lambda>p. \<exists>cr \<in> set current. resourceKey cr = resourceKey p \<and> \<not> sameShape fg cr p) proposed"
    using assms(2) by (auto simp: diffResources_def diffLoop_filter cur intro!: filter_cong)
  have "\<not> (\<exists>cr \<in> set current. resourceKey cr = resourceKey p \<and> \<not> sameShape fg cr p)" if "p \<in> set current" for p
    using that assms(1) by (auto simp: distinct_map inj_on_def sameShape_def)
  then have "proposed = current \<longrightarrow> changed = []" using ch by simp
  with ch assms(2) show ?thesis
    by (auto simp: diffResources_def diffLoop_filter sameShape_def)
qed

definition countVpc :: "goval \<Rightarrow> resourceSummary" where
  "countVpc k = \<lparr>rs_Module = ''root'', rs_Mode = ''managed'', rs_Type = ''t'', rs_Name = ''n'', rs_Provider = ''p'',
     rs_Instances = 1, rs_InstanceKeys = [k]\<rparr>"

theorem preview_exact_witness:
  "fst (diffResources (\<lambda>_. ''0'') [countVpc (GStr ''a'')] []) = [countVpc (GStr ''a'')]"
proof -
  let ?d = "diffResources (\<lambda>_. ''0'') [countVpc (GStr ''a'')] []"
  have "?d = (fst ?d, fst (snd ?d), snd (snd ?d))" by simp
  from preview_exact[OF _ this] show ?thesis by simp
qed

text \<open>The preview compares instance keys in print, not as values: moving a resource from a count
  of one to a for_each over the key "0" changes its instance key, and the preview reports nothing.\<close>

theorem preview_misses_key_type:
  "rs_InstanceKeys (countVpc (GNum (False, 0, 0))) \<noteq> rs_InstanceKeys (countVpc (GStr ''0''))
   \<and> diffResources (\<lambda>_. ''0'') [countVpc (GStr ''0'')] [countVpc (GNum (False, 0, 0))] = ([], [], [])"
  by (simp add: countVpc_def diffResources_def currentBy_def resourceKey_def sameShape_def)
end
