(* ===== verification/LockService.thy ===== *)
theory LockService
  imports EditPlane
begin

text \<open>
  The contract between the handlers and whatever locks a key for them: what a grant, a refusal
  and a release do to the keys, and what a client that brackets its work with one lock or with
  two may conclude. The lock table and the locking of the edit plane provide it.
\<close>

section \<open>Lock services\<close>

text \<open>What a client of a lock service relies on. \<open>view\<close> is what the service records for a key,
  \<open>free\<close> that nobody holds it.\<close>

locale lock_service =
  fixes acq :: "'env \<Rightarrow> 'k \<Rightarrow> 's \<Rightarrow> ('e + 'h) \<times> 's"
    and rel :: "'h \<Rightarrow> 's \<Rightarrow> 's"
    and view :: "'s \<Rightarrow> 'k \<Rightarrow> 'v"
    and free :: 'v
    and inv :: "'s \<Rightarrow> bool"
  assumes inv_acq: "inv s \<Longrightarrow> acq env k s = (x, s') \<Longrightarrow> inv s'"
    and inv_rel: "inv s \<Longrightarrow> inv (rel h s)"
    and acq_other: "acq env k s = (x, s') \<Longrightarrow> k' \<noteq> k \<Longrightarrow> view s' k' = view s k'"
    and acq_granted: "acq env k s = (Inr h, s') \<Longrightarrow> view s' k \<noteq> free"
    and acq_refused: "inv s \<Longrightarrow> acq env k s = (Inl e, s') \<Longrightarrow> view s' k = view s k \<or> view s' k = free"
    and rel_own: "acq env k s = (Inr h, s') \<Longrightarrow> view t k = view s' k \<Longrightarrow> view (rel h t) k = free"
    and rel_other: "acq env k s = (Inr h, s') \<Longrightarrow> k' \<noteq> k \<Longrightarrow> view (rel h t) k' = view t k'"
begin

lemma bracket:
  assumes "acq env k s = (Inr h, s')" "\<And>k'. view t k' = view s' k'"
  shows "view (rel h t) k' = (if k' = k then free else view s k')"
  using assms acq_other rel_own rel_other by (cases "k' = k") force+

lemma bracket_two:
  assumes "acq env k s = (Inr h, s')" "acq env2 k2 s' = (Inr h2, s2)" "k2 \<noteq> k" "\<And>k'. view t k' = view s2 k'"
  shows "view (rel h (rel h2 t)) k' = (if k' = k \<or> k' = k2 then free else view s k')"
proof -
  have inner: "view (rel h2 t) k' = (if k' = k2 then free else view s' k')" for k'
    by (rule bracket[OF assms(2,4)])
  show ?thesis
  proof (cases "k' = k")
    case True
    have "view (rel h2 t) k = view s' k" using inner assms(3) by simp
    with rel_own[OF assms(1)] True show ?thesis by simp
  next
    case False
    with rel_other[OF assms(1), of k' "rel h2 t"] inner acq_other[OF assms(1)] show ?thesis by simp
  qed
qed

lemma bracket_refused:
  assumes "inv s" "acq env k s = (Inr h, s')" "acq env2 k2 s' = (Inl e, s2)" "k2 \<noteq> k"
  shows "view (rel h s2) k = free"
    and "k' \<noteq> k \<Longrightarrow> view (rel h s2) k' = view s k' \<or> k' = k2 \<and> view (rel h s2) k' = free"
proof -
  have "view s2 k = view s' k" using acq_other[OF assms(3)] assms(4) by simp
  then show "view (rel h s2) k = free" by (rule rel_own[OF assms(2)])
next
  assume "k' \<noteq> k"
  with rel_other[OF assms(2), of k' s2] acq_other[OF assms(2), of k'] acq_other[OF assms(3), of k']
    acq_refused[OF inv_acq[OF assms(1,2)] assms(3)]
  show "view (rel h s2) k' = view s k' \<or> k' = k2 \<and> view (rel h s2) k' = free"
    by (cases "k' = k2") auto
qed

end

text \<open>The lock table provides it, directly and as the edit plane takes its locks on a connector
  without a lock server.\<close>

definition tableView :: "stateLock list \<Rightarrow> string \<times> string \<Rightarrow> stateLock list" where
  "tableView t k = filter (isFor (fst k) (snd k)) t"

definition acquireRow :: "lockEnv \<times> string \<Rightarrow> string \<times> string \<Rightarrow> stateLock list \<Rightarrow> (lockErr + (string \<times> string) \<times> string) \<times> stateLock list" where
  "acquireRow env k t =
     (case acquire (fst env) (fst k) (snd k) (snd env) t of
        (Inl e, t') \<Rightarrow> (Inl e, t') | (Inr lid, t') \<Rightarrow> (Inr (k, lid), t'))"

definition releaseRow :: "(string \<times> string) \<times> string \<Rightarrow> stateLock list \<Rightarrow> stateLock list" where
  "releaseRow h t = release (fst (fst h)) (snd (fst h)) (snd h) t"

lemma tableView_other:
  "filter (\<lambda>l. \<not> isFor src key l) t' = filter (\<lambda>l. \<not> isFor src key l) t \<Longrightarrow> k' \<noteq> (src, key) \<Longrightarrow> tableView t' k' = tableView t k'"
proof -
  assume eq: "filter (\<lambda>l. \<not> isFor src key l) t' = filter (\<lambda>l. \<not> isFor src key l) t" and ne: "k' \<noteq> (src, key)"
  have "tableView u k' = filter (isFor (fst k') (snd k')) (filter (\<lambda>l. \<not> isFor src key l) u)" for u
    unfolding tableView_def filter_filter by (rule filter_cong) (use ne in \<open>auto simp: isFor_def\<close>)
  with eq show ?thesis by metis
qed

lemma tableView_release:
  "k' \<noteq> (src, key) \<Longrightarrow> tableView (release src key lid t) k' = tableView t k'"
  unfolding tableView_def release_def filter_filter
  by (rule filter_cong) (auto simp: isHeldBy_def isFor_def)

lemma release_own:
  "tableView t (src, key) = [l] \<Longrightarrow> lk_ID l = lid \<Longrightarrow> tableView (release src key lid t) (src, key) = []"
proof -
  assume v: "tableView t (src, key) = [l]" and i: "lk_ID l = lid"
  have "tableView (release src key lid t) (src, key) = filter (\<lambda>x. lk_ID x \<noteq> lid) (tableView t (src, key))"
    unfolding tableView_def release_def filter_filter by (rule filter_cong) (auto simp: isHeldBy_def)
  with v i show ?thesis by simp
qed

lemma tableView_reap:
  assumes "oneHolder t"
  shows "tableView (reapLocks src key now t) (src, key) = tableView t (src, key)
    \<or> tableView (reapLocks src key now t) (src, key) = []"
proof -
  have v: "tableView (reapLocks src key now t) (src, key) =
      filter (\<lambda>l. \<not> lk_RenewedAt l < now - staleLockTTL) (tableView t (src, key))"
    unfolding tableView_def reapLocks_def filter_filter by (rule filter_cong) auto
  have "length (tableView t (src, key)) \<le> 1"
  proof (rule ccontr)
    assume "\<not> ?thesis"
    then obtain a b xs where ab: "tableView t (src, key) = a # b # xs"
      by (metis One_nat_def impossible_Cons le_numeral_extra(4) length_Cons list.exhaust list.size(3) not_less_eq_eq zero_le)
    then have "a \<in> set (tableView t (src, key))" "b \<in> set (tableView t (src, key))" by simp_all
    then have "a = b" using oneHolder_unique[OF assms] by (auto simp: tableView_def)
    moreover have "distinct (tableView t (src, key))"
      using assms by (auto simp: tableView_def oneHolder_def distinct_map intro: distinct_filter)
    ultimately show False using ab by simp
  qed
  then consider "tableView t (src, key) = []" | l where "tableView t (src, key) = [l]"
    by (cases "tableView t (src, key)") auto
  then show ?thesis by cases (simp_all add: v)
qed

lemma acquire_view:
  assumes "acquire env src key actor t = (x, t')"
  shows "k' \<noteq> (src, key) \<Longrightarrow> tableView t' k' = tableView t k'"
    and "x = Inr lid \<Longrightarrow> \<exists>l. tableView t' (src, key) = [l] \<and> lk_ID l = lid"
    and "x = Inl e \<Longrightarrow> oneHolder t \<Longrightarrow> tableView t' (src, key) = tableView t (src, key) \<or> tableView t' (src, key) = []"
    and "oneHolder t \<Longrightarrow> oneHolder t'"
proof -
  note row = acquire_row[OF assms]
  show "k' \<noteq> (src, key) \<Longrightarrow> tableView t' k' = tableView t k'"
    using row by (intro tableView_other) simp_all
  show "x = Inr lid \<Longrightarrow> \<exists>l. tableView t' (src, key) = [l] \<and> lk_ID l = lid"
    using row by (auto simp: tableView_def)
  show "x = Inl e \<Longrightarrow> oneHolder t \<Longrightarrow> tableView t' (src, key) = tableView t (src, key) \<or> tableView t' (src, key) = []"
    using row tableView_reap[of t src key "le_reapAt env"] by auto
  show "oneHolder t \<Longrightarrow> oneHolder t'"
    using assms oneHolder_insert[of "reapLocks src key (le_reapAt env) t" src key actor "le_newID env" "le_insertAt env"]
    by (auto simp: acquire_def Let_def reapLocks_def split: if_splits option.splits)
qed

interpretation lockTable: lock_service acquireRow releaseRow tableView "[]" oneHolder
proof unfold_locales
  fix env k t x t'
  assume a: "acquireRow env k t = (x, t')"
  then obtain y where y: "acquire (fst env) (fst k) (snd k) (snd env) t = (y, t')"
    and x: "x = (case y of Inl e \<Rightarrow> Inl e | Inr lid \<Rightarrow> Inr (k, lid))"
    by (auto simp: acquireRow_def split: prod.splits sum.splits)
  show "oneHolder t \<Longrightarrow> oneHolder t'" by (rule acquire_view(4)[OF y])
  show "k' \<noteq> k \<Longrightarrow> tableView t' k' = tableView t k'" for k' using acquire_view(1)[OF y] by simp
next
  fix h t show "oneHolder t \<Longrightarrow> oneHolder (releaseRow h t)" by (auto simp: releaseRow_def release_def)
next
  fix env k t h t'
  assume a: "acquireRow env k t = (Inr h, t')"
  then obtain lid where y: "acquire (fst env) (fst k) (snd k) (snd env) t = (Inr lid, t')" and h: "h = (k, lid)"
    by (auto simp: acquireRow_def split: prod.splits sum.splits)
  obtain l where l: "tableView t' k = [l]" "lk_ID l = lid" using acquire_view(2)[OF y refl] by auto
  then show "tableView t' k \<noteq> []" by simp
  show "tableView (releaseRow h u) k = []" if "tableView u k = tableView t' k" for u
    using release_own[of u "fst k" "snd k" l lid] that l h by (simp add: releaseRow_def)
  show "tableView (releaseRow h u) k' = tableView u k'" if "k' \<noteq> k" for k' u
    using tableView_release[of k' "fst k" "snd k"] that h by (simp add: releaseRow_def)
next
  fix env k t e t'
  assume "oneHolder t" "acquireRow env k t = (Inl e, t')"
  then obtain e' where "acquire (fst env) (fst k) (snd k) (snd env) t = (Inl e', t')"
    by (auto simp: acquireRow_def split: prod.splits sum.splits)
  from acquire_view(3)[OF this refl \<open>oneHolder t\<close>]
  show "tableView t' k = tableView t k \<or> tableView t' k = []" by simp
qed

definition editAcquire :: "lockEnv \<times> string \<Rightarrow> string \<times> string \<Rightarrow> 'n editState \<Rightarrow> (lockRefusal + lockHandle) \<times> 'n editState" where
  "editAcquire env k st = acquireLock None (fst env) (fst k) (snd k) (snd env) st"

definition editView :: "'n editState \<Rightarrow> string \<times> string \<Rightarrow> stateLock list" where
  "editView st = tableView (es_locks st)"

interpretation editLocks: lock_service editAcquire "releaseLock None False" editView "[]" "\<lambda>st. oneHolder (es_locks st)"
proof unfold_locales
  fix env k and st :: "'n editState" and x st'
  assume a: "editAcquire env k st = (x, st')"
  then obtain y where y: "acquire (fst env) (fst k) (snd k) (snd env) (es_locks st) = (y, es_locks st')"
    by (auto simp: editAcquire_def acquireLock_def split: prod.splits sum.splits)
  show "oneHolder (es_locks st) \<Longrightarrow> oneHolder (es_locks st')" by (rule acquire_view(4)[OF y])
  show "k' \<noteq> k \<Longrightarrow> editView st' k' = editView st k'" for k'
    using acquire_view(1)[OF y] by (simp add: editView_def)
next
  fix h and st :: "'n editState"
  show "oneHolder (es_locks st) \<Longrightarrow> oneHolder (es_locks (releaseLock None False h st))"
    by (auto simp: releaseLock_def release_def split: lockHandle.splits)
next
  fix env k h and st st' :: "'n editState"
  assume a: "editAcquire env k st = (Inr h, st')"
  then obtain lid where y: "acquire (fst env) (fst k) (snd k) (snd env) (es_locks st) = (Inr lid, es_locks st')"
    and h: "h = AppHandle (fst k) (snd k) lid"
    by (auto simp: editAcquire_def acquireLock_def split: prod.splits sum.splits)
  obtain l where l: "tableView (es_locks st') k = [l]" "lk_ID l = lid" using acquire_view(2)[OF y refl] by auto
  then show "editView st' k \<noteq> []" by (simp add: editView_def)
  show "editView (releaseLock None False h u) k = []" if "editView u k = editView st' k" for u
    using release_own[of "es_locks u" "fst k" "snd k" l lid] that l h by (simp add: releaseLock_def editView_def)
  show "editView (releaseLock None False h u) k' = editView u k'" if "k' \<noteq> k" for k' u
    using tableView_release[of k' "fst k" "snd k"] that h by (simp add: releaseLock_def editView_def)
next
  fix env k e and st st' :: "'n editState"
  assume o: "oneHolder (es_locks st)" and "editAcquire env k st = (Inl e, st')"
  then obtain e' where "acquire (fst env) (fst k) (snd k) (snd env) (es_locks st) = (Inl e', es_locks st')"
    by (auto simp: editAcquire_def acquireLock_def split: prod.splits sum.splits)
  from acquire_view(3)[OF this refl o]
  show "editView st' k = editView st k \<or> editView st' k = []" by (simp add: editView_def)
qed
end
