(* ===== verification/StateTransfer.thy ===== *)
theory StateTransfer
  imports LockService
begin

text \<open>
  \<open>internal/api/transfer.go\<close>: copying a state to another source, moving it, and emptying the
  original after a verified move. As in the edit plane the answers of the backends and of the
  database are arguments; every call that changes a backend is
  in the trace of the edit plane, with the source it went to.
\<close>

section \<open>Requests and records\<close>

record transferSource =
  sr_ID :: string
  sr_OrganizationID :: string

record transferRow =
  tr_Mode :: string
  tr_SourceID :: string
  tr_SourceKey :: string
  tr_TargetSourceID :: string
  tr_TargetKey :: string
  tr_Status :: string
  tr_Verified :: "bool option"
  tr_Decommissioned :: bool
  tr_Detail :: string
  tr_Actor :: string

record transferRequest =
  tq_key :: string
  tq_bound :: bool
  tq_targetSourceID :: string
  tq_targetKey :: string
  tq_decommission :: bool
  tq_force :: bool
  tq_actor :: string

text \<open>The error a connector returns is a text, which some details quote.\<close>

datatype readText = GotNotFound string | GotFailed string | Got rawdoc

record transferAnswers =
  ta_lock1 :: lockEnv
  ta_lock2 :: lockEnv
  ta_read :: readText
  ta_writeTarget :: "string option"
  ta_readBack :: readText
  ta_latest :: readText
  ta_backupError :: "string option"
  ta_backupID :: string
  ta_now :: int
  ta_writeSource :: "string option"
  ta_recordEditFails :: bool
  ta_createFails :: bool
  ta_releaseFails :: bool

record 'n transferState =
  ts_edit :: "'n editState"
  ts_transfers :: "(transferRow \<times> string) list"
  ts_notified :: "(string \<times> string) list"

datatype transferReply =
    TransferRefused nat
  | TransferLocked lockRefusal
  | TransferReply nat transferRow

section \<open>Taking both locks\<close>

record 'n lockTarget =
  lt_source :: string
  lt_locker :: "'n nativeLocker option"
  lt_key :: string

definition lockOrder :: "'n lockTarget \<Rightarrow> 'n lockTarget \<Rightarrow> 'n lockTarget \<times> 'n lockTarget" where
  "lockOrder a b =
     (if lt_source b < lt_source a \<or> lt_source b = lt_source a \<and> lt_key b < lt_key a then (b, a) else (a, b))"

text \<open>The handles to release, in the order they are released.\<close>

definition acquireTransferLocks ::
    "transferAnswers \<Rightarrow> string \<Rightarrow> 'n lockTarget \<Rightarrow> 'n lockTarget \<Rightarrow> 'n editState \<Rightarrow>
     (lockRefusal + ('n nativeLocker option \<times> lockHandle) list) \<times> 'n editState" where
  "acquireTransferLocks ta actor a b st =
     (if lt_source a = lt_source b \<and> lt_key a = lt_key b then
        (case acquireLock (lt_locker a) (ta_lock1 ta) (lt_source a) (lt_key a) actor st of
           (Inl e, st1) \<Rightarrow> (Inl e, st1)
         | (Inr h, st1) \<Rightarrow> (Inr [(lt_locker a, h)], st1))
      else
        (case lockOrder a b of (f, s) \<Rightarrow>
           (case acquireLock (lt_locker f) (ta_lock1 ta) (lt_source f) (lt_key f) actor st of
              (Inl e, st1) \<Rightarrow> (Inl e, st1)
            | (Inr h1, st1) \<Rightarrow>
                (case acquireLock (lt_locker s) (ta_lock2 ta) (lt_source s) (lt_key s) actor st1 of
                   (Inl e, st2) \<Rightarrow> (Inl e, releaseLock (lt_locker f) (ta_releaseFails ta) h1 st2)
                 | (Inr h2, st2) \<Rightarrow> (Inr [(lt_locker s, h2), (lt_locker f, h1)], st2)))))"

definition releaseAll :: "bool \<Rightarrow> ('n nativeLocker option \<times> lockHandle) list \<Rightarrow> 'n editState \<Rightarrow> 'n editState" where
  "releaseAll fails hs st = fold (\<lambda>(lkr, h). releaseLock lkr fails h) hs st"

section \<open>Verification and the emptied state\<close>

definition sameParity :: "analysis \<Rightarrow> analysis \<Rightarrow> bool" where
  "sameParity t s = (an_Serial t = an_Serial s \<and> an_Lineage t = an_Lineage s
     \<and> an_TotalResources t = an_TotalResources s \<and> an_ManagedResources t = an_ManagedResources s)"

definition arrow :: string where
  "arrow = [CHR 0xE2, CHR 0x86, CHR 0x92]"

definition verifyTransfer :: "readText \<Rightarrow> (analyzeErr + analysis) \<Rightarrow> bool \<times> string" where
  "verifyTransfer back src =
     (case src of
        Inl _ \<Rightarrow> (False, ''source state could not be analyzed'')
      | Inr s \<Rightarrow>
          (case back of
             GotNotFound e \<Rightarrow> (False, ''could not read back target: '' @ e)
           | GotFailed e \<Rightarrow> (False, ''could not read back target: '' @ e)
           | Got d \<Rightarrow>
               (case analyze d of
                  Inl _ \<Rightarrow> (False, ''target state could not be analyzed'')
                | Inr t \<Rightarrow>
                    if \<not> sameParity t s
                    then (False, ''parity mismatch (serial '' @ itoa (an_Serial s) @ arrow @ itoa (an_Serial t)
                            @ '', instances '' @ itoa (an_TotalResources s) @ arrow @ itoa (an_TotalResources t) @ '')'')
                    else (True, ''serial, lineage, and resource counts match''))))"

definition nextSerial :: "int \<Rightarrow> int" where
  "nextSerial s = sint (int64_of s + 1)"

definition emptyState :: "analysis \<Rightarrow> rawdoc" where
  "emptyState a = Doc (JObj
     [(''lineage'', JStr (an_Lineage a)), (''outputs'', JObj []), (''resources'', JArr []),
      (''serial'', JNum (itoa (nextSerial (an_Serial a)))),
      (''terraform_version'', JStr (an_TerraformVersion a)), (''version'', JNum ''4'')])"

section \<open>Emptying the source\<close>

definition recheck :: "bool \<Rightarrow> readText \<Rightarrow> analysis \<Rightarrow> string" where
  "recheck force latest src =
     (if force then []
      else (case latest of
              GotNotFound _ \<Rightarrow> ''source key no longer exists (nothing to decommission)''
            | GotFailed _ \<Rightarrow> ''cannot verify source before decommission''
            | Got d \<Rightarrow>
                (case analyze d of
                   Inl _ \<Rightarrow> []
                 | Inr l \<Rightarrow>
                     if an_Serial l \<noteq> an_Serial src \<or> an_Lineage l \<noteq> an_Lineage src
                     then ''source changed since transfer read (serial '' @ itoa (an_Serial src) @ arrow
                            @ itoa (an_Serial l) @ ''); pass force=true to override''
                     else [])))"

definition editAnswers :: "transferAnswers \<Rightarrow> answers" where
  "editAnswers ta =
     \<lparr>an_lock = ta_lock1 ta, an_Read = ReadFailed, an_backupFails = (ta_backupError ta \<noteq> None),
      an_backupID = ta_backupID ta, an_now = ta_now ta, an_WriteFails = False, an_Delete = DeleteFailed,
      an_purgeFails = False, an_recordFails = ta_recordEditFails ta, an_releaseFails = ta_releaseFails ta\<rparr>"

definition decommission ::
    "transferAnswers \<Rightarrow> transferRequest \<Rightarrow> string \<Rightarrow> rawdoc \<Rightarrow> analysis \<Rightarrow> transferRow \<Rightarrow> 'n editState \<Rightarrow>
     transferRow \<times> 'n editState" where
  "decommission ta rq src raw a rec st =
     (let conflict = recheck (tq_force rq) (ta_latest ta) a; key = tq_key rq
      in if conflict \<noteq> [] then (rec\<lparr>tr_Detail := tr_Detail rec @ ''; decommission skipped: '' @ conflict\<rparr>, st)
         else (case createBackup (editAnswers ta) src key raw (Some (an_Serial a)) (tq_actor rq) st of
                 (None, st1) \<Rightarrow>
                   (rec\<lparr>tr_Detail := tr_Detail rec @ ''; decommission skipped: source backup failed: ''
                          @ (case ta_backupError ta of None \<Rightarrow> [] | Some e \<Rightarrow> e)\<rparr>, st1)
               | (Some bid, st1) \<Rightarrow>
                   (let st2 = st1\<lparr>es_calls := es_calls st1 @ [CallWrite src key (emptyState a)]\<rparr>
                    in (case ta_writeSource ta of
                          Some e \<Rightarrow> (rec\<lparr>tr_Detail := tr_Detail rec @ ''; decommission failed (source preserved): '' @ e\<rparr>, st2)
                        | None \<Rightarrow>
                            (rec\<lparr>tr_Decommissioned := True\<rparr>,
                             recordEdit (editAnswers ta) src key ''decommission'' (tq_actor rq) None (Some (an_Serial a))
                               (Some (nextSerial (an_Serial a))) ''success'' st2)))))"

section \<open>The transfer\<close>

definition afterWrite ::
    "transferAnswers \<Rightarrow> transferRequest \<Rightarrow> string \<Rightarrow> string \<Rightarrow> rawdoc \<Rightarrow> transferRow \<Rightarrow> 'n editState \<Rightarrow>
     transferRow \<times> 'n editState" where
  "afterWrite ta rq mode src raw rec0 st =
     (let rec = rec0\<lparr>tr_Status := ''success''\<rparr>; srcA = analyze raw
      in if mode = ''migrate'' then
           (case verifyTransfer (ta_readBack ta) srcA of
              (verified, detail) \<Rightarrow>
                (let rec1 = rec\<lparr>tr_Verified := Some verified, tr_Detail := detail\<rparr>;
                     rec2 = (if \<not> verified then rec1\<lparr>tr_Status := ''verification_failed''\<rparr> else rec1)
                 in (case srcA of
                       Inl _ \<Rightarrow> (rec2, st)
                     | Inr a \<Rightarrow>
                         if tq_decommission rq \<and> verified then decommission ta rq src raw a rec2 st
                         else (rec2, st))))
         else (rec, st))"

definition saveTransfer :: "transferAnswers \<Rightarrow> string \<Rightarrow> transferRow \<Rightarrow> 'n transferState \<Rightarrow> 'n transferState" where
  "saveTransfer ta org rec ts =
     (if ta_createFails ta then ts else ts\<lparr>ts_transfers := ts_transfers ts @ [(rec, org)]\<rparr>)"

fun counterpartyLoop :: "string list \<Rightarrow> transferSource option list \<Rightarrow> string list" where
  "counterpartyLoop seen [] = []"
| "counterpartyLoop seen (None # es) = counterpartyLoop seen es"
| "counterpartyLoop seen (Some e # es) =
     (let org = trimSpace (sr_OrganizationID e)
      in if org \<in> set seen then counterpartyLoop seen es else org # counterpartyLoop (org # seen) es)"

definition counterpartyOrganizations :: "string \<Rightarrow> transferSource option list \<Rightarrow> string list" where
  "counterpartyOrganizations actingOrg ends = counterpartyLoop [trimSpace actingOrg, []] ends"

definition transferBody ::
    "transferAnswers \<Rightarrow> transferRequest \<Rightarrow> string \<Rightarrow> string \<Rightarrow> transferSource \<Rightarrow> transferSource \<Rightarrow>
     'n transferState \<Rightarrow> transferReply \<times> 'n transferState" where
  "transferBody ta rq mode org srcA srcB ts =
     (case ta_read ta of
        GotNotFound _ \<Rightarrow> (TransferRefused 502, ts)
      | GotFailed _ \<Rightarrow> (TransferRefused 502, ts)
      | Got raw \<Rightarrow>
          (let st = ts_edit ts;
               rec0 = \<lparr>tr_Mode = mode, tr_SourceID = sr_ID srcA, tr_SourceKey = tq_key rq, tr_TargetSourceID = sr_ID srcB,
                       tr_TargetKey = tq_targetKey rq, tr_Status = [], tr_Verified = None, tr_Decommissioned = False,
                       tr_Detail = [], tr_Actor = tq_actor rq\<rparr>;
               st1 = st\<lparr>es_calls := es_calls st @ [CallWrite (sr_ID srcB) (tq_targetKey rq) raw]\<rparr>
           in if ta_writeTarget ta \<noteq> None then
                (let rec = rec0\<lparr>tr_Status := ''failed'', tr_Detail := ''write to target failed''\<rparr>
                 in (TransferReply 502 rec, saveTransfer ta org rec (ts\<lparr>ts_edit := st1\<rparr>)))
              else
                (case afterWrite ta rq mode (sr_ID srcA) raw rec0 st1 of
                   (rec, st2) \<Rightarrow>
                     if ta_createFails ta then (TransferRefused 500, ts\<lparr>ts_edit := st2\<rparr>)
                     else (TransferReply 200 rec,
                           (saveTransfer ta org rec
                             (ts\<lparr>ts_edit := auditWrite (''state.'' @ mode) (sr_ID srcA) (tq_key rq) st2\<rparr>))
                           \<lparr>ts_notified := ts_notified ts @
                              map (\<lambda>c. (c, ''state.'' @ mode @ ''.counterparty''))
                                (counterpartyOrganizations org [Some srcA, Some srcB])\<rparr>))))"

text \<open>\<open>permits\<close> is \<open>Scope.Permits\<close> of the identity module.\<close>

definition transferEndpointsReachable :: "bool \<Rightarrow> (string \<Rightarrow> bool) \<Rightarrow> transferSource option list \<Rightarrow> nat option" where
  "transferEndpointsReachable resolved permits ends =
     (if \<not> resolved then Some 500
      else if list_ex (\<lambda>e. case e of None \<Rightarrow> False
                          | Some s \<Rightarrow> sr_OrganizationID s \<noteq> [] \<and> \<not> permits (sr_OrganizationID s)) ends
           then Some 404 else None)"

text \<open>The resolution of the two ends: the row of the source in scope (None for a failing query) and
  what \<open>decryptCredentials\<close> and \<open>statesource.New\<close> say; \<open>ActingOrganization\<close> gives the organization
  or the code of its refusal.\<close>

record 'n transferEnv =
  te_source :: "'n sourceAnswers"
  te_sourceOrg :: string
  te_target :: "'n sourceAnswers"
  te_targetOrg :: string
  te_acting :: "nat + string"
  te_permits :: "string \<Rightarrow> bool"

definition doTransfer ::
    "'n transferEnv \<Rightarrow> transferAnswers \<Rightarrow> transferRequest \<Rightarrow> string \<Rightarrow> 'n transferState \<Rightarrow> transferReply \<times> 'n transferState" where
  "doTransfer te ta rq mode ts =
     (if tq_key rq = [] then (TransferRefused 400, ts)
      else if \<not> tq_bound rq \<or> tq_targetSourceID rq = [] \<or> tq_targetKey rq = [] then (TransferRefused 400, ts)
      else (case sourceAndConnector (te_source te) of
              Inl code \<Rightarrow> (TransferRefused code, ts)
            | Inr idA \<Rightarrow>
                (case sourceAndConnector (te_target te) of
                   Inl code \<Rightarrow> (TransferRefused code, ts)
                 | Inr idB \<Rightarrow>
                     (case te_acting te of
                        Inl code \<Rightarrow> (TransferRefused code, ts)
                      | Inr org \<Rightarrow>
                          (let srcA = \<lparr>sr_ID = idA, sr_OrganizationID = te_sourceOrg te\<rparr>;
                               srcB = \<lparr>sr_ID = idB, sr_OrganizationID = te_targetOrg te\<rparr>;
                               a = \<lparr>lt_source = idA, lt_locker = sa_locker (te_source te), lt_key = tq_key rq\<rparr>;
                               b = \<lparr>lt_source = idB, lt_locker = sa_locker (te_target te), lt_key = tq_targetKey rq\<rparr>
                           in (case transferEndpointsReachable (sa_scopeResolved (te_source te)) (te_permits te)
                                      [Some srcA, Some srcB] of
                                 Some code \<Rightarrow> (TransferRefused code, ts)
                               | None \<Rightarrow>
                                   (case acquireTransferLocks ta (tq_actor rq) a b (ts_edit ts) of
                                      (Inl e, st1) \<Rightarrow> (TransferLocked e, ts\<lparr>ts_edit := st1\<rparr>)
                                    | (Inr hs, st1) \<Rightarrow>
                                        (case transferBody ta rq mode org srcA srcB (ts\<lparr>ts_edit := st1\<rparr>) of
                                           (r, ts2) \<Rightarrow>
                                             (r, ts2\<lparr>ts_edit := releaseAll (ta_releaseFails ta) hs (ts_edit ts2)\<rparr>)))))))))"

section \<open>What a transfer does to the two backends\<close>

lemma decommission_spec:
  assumes "decommission ta rq src raw a rec st = (rec', st')"
  shows "(es_calls st' = es_calls st \<and> tr_Decommissioned rec' = tr_Decommissioned rec
        \<or> recheck (tq_force rq) (ta_latest ta) a = [] \<and> es_calls st' = es_calls st @ [CallWrite src (tq_key rq) (emptyState a)]
          \<and> (\<exists>b. es_backups st' = es_backups st @ [b] \<and> bk_SourceID b = src \<and> bk_StateKey b = tq_key rq \<and> bk_Data b = raw)
          \<and> (tr_Decommissioned rec' \<longrightarrow> ta_writeSource ta = None \<or> tr_Decommissioned rec))
    \<and> es_locks st' = es_locks st \<and> es_native st' = es_native st"
proof (cases "recheck (tq_force rq) (ta_latest ta) a = []")
  case False
  with assms show ?thesis by (auto simp: decommission_def Let_def)
next
  case True
  obtain bid st1 where b: "createBackup (editAnswers ta) src (tq_key rq) raw (Some (an_Serial a)) (tq_actor rq) st = (bid, st1)"
    by (cases "createBackup (editAnswers ta) src (tq_key rq) raw (Some (an_Serial a)) (tq_actor rq) st")
  note f = createBackup_frame[OF b]
  show ?thesis
  proof (cases bid)
    case None
    with assms True b f show ?thesis by (auto simp: decommission_def Let_def)
  next
    case (Some i)
    with createBackup_Some[of "editAnswers ta" src "tq_key rq" raw "Some (an_Serial a)" "tq_actor rq" st i st1] b
    have bk: "es_backups st1 = es_backups st @ [\<lparr>bk_ID = i, bk_SourceID = src, bk_StateKey = tq_key rq, bk_Data = raw,
        bk_Serial = Some (an_Serial a), bk_CreatedBy = nullStr (tq_actor rq), bk_CreatedAt = an_now (editAnswers ta)\<rparr>]"
      by simp
    from assms True b Some have "es_calls st' = es_calls st1 @ [CallWrite src (tq_key rq) (emptyState a)]"
        "es_backups st' = es_backups st1" "es_locks st' = es_locks st1" "es_native st' = es_native st1"
        "tr_Decommissioned rec' \<longrightarrow> ta_writeSource ta = None \<or> tr_Decommissioned rec"
      by (auto simp: decommission_def Let_def split: option.splits)
    with bk f True show ?thesis by simp
  qed
qed

lemma verifyTransfer_true:
  "verifyTransfer rb src = (True, d) \<Longrightarrow> \<exists>s b t. src = Inr s \<and> rb = Got b \<and> analyze b = Inr t \<and> sameParity t s"
  by (auto simp: verifyTransfer_def split: sum.splits readText.splits if_splits)

definition emptied :: "transferAnswers \<Rightarrow> transferRequest \<Rightarrow> string \<Rightarrow> string \<Rightarrow> rawdoc \<Rightarrow> 'n editState \<Rightarrow> 'n editState \<Rightarrow> bool" where
  "emptied ta rq mode src raw st st' = (\<exists>a rb t b. mode = ''migrate'' \<and> tq_decommission rq
     \<and> analyze raw = Inr a \<and> ta_readBack ta = Got rb \<and> analyze rb = Inr t \<and> sameParity t a
     \<and> recheck (tq_force rq) (ta_latest ta) a = []
     \<and> es_calls st' = es_calls st @ [CallWrite src (tq_key rq) (emptyState a)]
     \<and> es_backups st' = es_backups st @ [b] \<and> bk_SourceID b = src \<and> bk_StateKey b = tq_key rq \<and> bk_Data b = raw)"

lemma afterWrite_spec:
  assumes "afterWrite ta rq mode src raw rec0 st = (rec, st')" "\<not> tr_Decommissioned rec0"
  shows "(es_calls st' = es_calls st \<and> \<not> tr_Decommissioned rec \<or> emptied ta rq mode src raw st st')
    \<and> es_locks st' = es_locks st \<and> es_native st' = es_native st"
proof (cases "mode = ''migrate'' \<and> (\<exists>a. analyze raw = Inr a) \<and> tq_decommission rq \<and> fst (verifyTransfer (ta_readBack ta) (analyze raw))")
  case False
  then have "st' = st \<and> \<not> tr_Decommissioned rec"
    using assms by (auto simp: afterWrite_def Let_def split: if_splits prod.splits sum.splits)
  then show ?thesis by simp
next
  case True
  then obtain a detail where a: "analyze raw = Inr a" and v: "verifyTransfer (ta_readBack ta) (Inr a) = (True, detail)"
    by (cases "verifyTransfer (ta_readBack ta) (analyze raw)") auto
  from verifyTransfer_true[OF v] obtain b t where p: "ta_readBack ta = Got b" "analyze b = Inr t" "sameParity t a" by auto
  from assms True a v have "decommission ta rq src raw a
      (rec0\<lparr>tr_Status := ''success'', tr_Verified := Some True, tr_Detail := detail\<rparr>) st = (rec, st')"
    by (simp add: afterWrite_def Let_def)
  from decommission_spec[OF this] True a p assms(2) show ?thesis by (auto simp: emptied_def)
qed

lemma transferBody_spec:
  assumes "transferBody ta rq mode org srcA srcB ts = (r, ts')"
  shows "(ts' = ts \<or> (\<exists>raw st1. ta_read ta = Got raw
        \<and> es_calls st1 = es_calls (ts_edit ts) @ [CallWrite (sr_ID srcB) (tq_targetKey rq) raw]
        \<and> es_backups st1 = es_backups (ts_edit ts)
        \<and> (es_calls (ts_edit ts') = es_calls st1 \<or> ta_writeTarget ta = None \<and> emptied ta rq mode (sr_ID srcA) raw st1 (ts_edit ts'))))
    \<and> es_locks (ts_edit ts') = es_locks (ts_edit ts) \<and> es_native (ts_edit ts') = es_native (ts_edit ts)"
proof (cases "ta_read ta")
  case (Got raw)
  let ?st1 = "(ts_edit ts)\<lparr>es_calls := es_calls (ts_edit ts) @ [CallWrite (sr_ID srcB) (tq_targetKey rq) raw]\<rparr>"
  let ?rec0 = "\<lparr>tr_Mode = mode, tr_SourceID = sr_ID srcA, tr_SourceKey = tq_key rq, tr_TargetSourceID = sr_ID srcB,
                       tr_TargetKey = tq_targetKey rq, tr_Status = [], tr_Verified = None, tr_Decommissioned = False,
                       tr_Detail = [], tr_Actor = tq_actor rq\<rparr>"
  show ?thesis
  proof (cases "ta_writeTarget ta")
    case (Some e)
    with assms Got have "ts_edit ts' = ?st1" by (auto simp: transferBody_def Let_def saveTransfer_def)
    with Got show ?thesis by (auto intro!: exI[of _ ?st1])
  next
    case None
    obtain rec st2 where w: "afterWrite ta rq mode (sr_ID srcA) raw ?rec0 ?st1 = (rec, st2)"
      by (cases "afterWrite ta rq mode (sr_ID srcA) raw ?rec0 ?st1")
    with assms Got None have "es_calls (ts_edit ts') = es_calls st2" "es_backups (ts_edit ts') = es_backups st2"
        "es_locks (ts_edit ts') = es_locks st2" "es_native (ts_edit ts') = es_native st2"
      by (auto simp: transferBody_def Let_def saveTransfer_def split: if_splits)
    with afterWrite_spec[OF w] Got None show ?thesis
      by (auto simp: emptied_def intro!: exI[of _ ?st1])
  qed
qed (use assms in \<open>auto simp: transferBody_def\<close>)

lemma releaseAll_frame [simp]:
  "es_calls (releaseAll f hs st) = es_calls st" "es_backups (releaseAll f hs st) = es_backups st"
  by (induction hs arbitrary: st) (auto simp: releaseAll_def)

lemma acquireTransferLocks_frame:
  "acquireTransferLocks ta actor a b st = (x, st') \<Longrightarrow> es_calls st' = es_calls st \<and> es_backups st' = es_backups st"
  by (auto simp: acquireTransferLocks_def dest!: acquireLock_frame split: if_splits prod.splits sum.splits)

lemma doTransfer_run:
  assumes "doTransfer te ta rq mode ts = (r, ts')"
  obtains "es_calls (ts_edit ts') = es_calls (ts_edit ts)" "es_backups (ts_edit ts') = es_backups (ts_edit ts)"
  | idA idB org hs st1 ts2 where "sourceAndConnector (te_source te) = Inr idA" "sourceAndConnector (te_target te) = Inr idB"
    "acquireTransferLocks ta (tq_actor rq) \<lparr>lt_source = idA, lt_locker = sa_locker (te_source te), lt_key = tq_key rq\<rparr>
        \<lparr>lt_source = idB, lt_locker = sa_locker (te_target te), lt_key = tq_targetKey rq\<rparr> (ts_edit ts) = (Inr hs, st1)"
    "transferBody ta rq mode org \<lparr>sr_ID = idA, sr_OrganizationID = te_sourceOrg te\<rparr>
        \<lparr>sr_ID = idB, sr_OrganizationID = te_targetOrg te\<rparr> (ts\<lparr>ts_edit := st1\<rparr>) = (r, ts2)"
    "ts' = ts2\<lparr>ts_edit := releaseAll (ta_releaseFails ta) hs (ts_edit ts2)\<rparr>"
  using assms
  by (auto simp: doTransfer_def Let_def dest!: acquireTransferLocks_frame split: if_splits sum.splits option.splits prod.splits)
lemma transfer_effect:
  assumes "doTransfer te ta rq mode ts = (r, ts')"
  shows "es_calls (ts_edit ts') = es_calls (ts_edit ts) \<or>
    (\<exists>idA idB raw st1. sourceAndConnector (te_source te) = Inr idA \<and> sourceAndConnector (te_target te) = Inr idB
      \<and> ta_read ta = Got raw \<and> es_calls st1 = es_calls (ts_edit ts) @ [CallWrite idB (tq_targetKey rq) raw]
      \<and> es_backups st1 = es_backups (ts_edit ts)
      \<and> (es_calls (ts_edit ts') = es_calls st1
         \<or> ta_writeTarget ta = None \<and> emptied ta rq mode idA raw st1 (ts_edit ts')))"
  using assms
proof (cases rule: doTransfer_run)
  case 1
  then show ?thesis by simp
next
  case (2 idA idB org hs st1 ts2)
  note f = acquireTransferLocks_frame[OF 2(3)]
  from transferBody_spec[OF 2(4)] show ?thesis
  proof (elim conjE disjE)
    assume "ts2 = ts\<lparr>ts_edit := st1\<rparr>"
    with 2(5) f show ?thesis by simp
  next
    assume "\<exists>raw st1'. ta_read ta = Got raw
        \<and> es_calls st1' = es_calls (ts_edit (ts\<lparr>ts_edit := st1\<rparr>)) @ [CallWrite (sr_ID \<lparr>sr_ID = idB, sr_OrganizationID = te_targetOrg te\<rparr>) (tq_targetKey rq) raw]
        \<and> es_backups st1' = es_backups (ts_edit (ts\<lparr>ts_edit := st1\<rparr>))
        \<and> (es_calls (ts_edit ts2) = es_calls st1' \<or> ta_writeTarget ta = None
            \<and> emptied ta rq mode (sr_ID \<lparr>sr_ID = idA, sr_OrganizationID = te_sourceOrg te\<rparr>) raw st1' (ts_edit ts2))"
    then obtain raw st1' where *: "ta_read ta = Got raw" "es_calls st1' = es_calls (ts_edit ts) @ [CallWrite idB (tq_targetKey rq) raw]"
        "es_backups st1' = es_backups (ts_edit ts)"
        "es_calls (ts_edit ts2) = es_calls st1' \<or> ta_writeTarget ta = None \<and> emptied ta rq mode idA raw st1' (ts_edit ts2)"
      using f by auto
    then show ?thesis using 2(1,2,5)
      by (intro disjI2 exI[of _ idA] exI[of _ idB] exI[of _ raw] exI[of _ st1']) (auto simp: emptied_def)
  qed
qed

text \<open>C10: What a transfer sends to the backends. The first call writes to the target exactly what was
  read from the source. A second one exists only for a migrate with the decommission flag whose target was
  read back with the serial, lineage and resource counts of the source; it writes the emptied state to the
  source, and the backups then hold exactly what was first read from it. Unless forced, the source was
  read again just before without an error, and if \<open>Analyze\<close> accepts that reading its serial and
  lineage are those of the first. A second reading that \<open>Analyze\<close> rejects does not stop the emptying:
  the lemma \<open>unreadable_source_is_emptied_unforced\<close> runs that case.\<close>

theorem source_emptied_only_after_verified_move:
  assumes "doTransfer te ta rq mode ts = (r, ts')" "es_calls (ts_edit ts') \<noteq> es_calls (ts_edit ts)"
  shows "\<exists>idA idB raw. sourceAndConnector (te_source te) = Inr idA \<and> sourceAndConnector (te_target te) = Inr idB
    \<and> ta_read ta = Got raw
    \<and> (es_calls (ts_edit ts') = es_calls (ts_edit ts) @ [CallWrite idB (tq_targetKey rq) raw]
       \<or> (\<exists>a rb t b. mode = ''migrate'' \<and> tq_decommission rq \<and> analyze raw = Inr a \<and> ta_writeTarget ta = None
            \<and> ta_readBack ta = Got rb \<and> analyze rb = Inr t \<and> sameParity t a
            \<and> es_calls (ts_edit ts') = es_calls (ts_edit ts) @
                [CallWrite idB (tq_targetKey rq) raw, CallWrite idA (tq_key rq) (emptyState a)]
            \<and> es_backups (ts_edit ts') = es_backups (ts_edit ts) @ [b]
            \<and> bk_SourceID b = idA \<and> bk_StateKey b = tq_key rq \<and> bk_Data b = raw
            \<and> (tq_force rq \<or> (\<exists>d. ta_latest ta = Got d \<and>
                 (\<forall>l. analyze d = Inr l \<longrightarrow> an_Serial l = an_Serial a \<and> an_Lineage l = an_Lineage a)))))"
proof -
  have re: "recheck force latest a = [] \<Longrightarrow> force \<or> (\<exists>d. latest = Got d \<and>
                 (\<forall>l. analyze d = Inr l \<longrightarrow> an_Serial l = an_Serial a \<and> an_Lineage l = an_Lineage a))" for force latest and a :: analysis
    by (cases latest) (auto simp: recheck_def split: if_splits sum.splits)
  from transfer_effect[OF assms(1)] assms(2) obtain idA idB raw and st1 where
    "sourceAndConnector (te_source te) = Inr idA" "sourceAndConnector (te_target te) = Inr idB" "ta_read ta = Got raw"
    and st1: "es_calls st1 = es_calls (ts_edit ts) @ [CallWrite idB (tq_targetKey rq) raw]" "es_backups st1 = es_backups (ts_edit ts)"
    and e: "es_calls (ts_edit ts') = es_calls st1 \<or> ta_writeTarget ta = None \<and> emptied ta rq mode idA raw st1 (ts_edit ts')"
    by blast
  moreover from e have "es_calls (ts_edit ts') = es_calls (ts_edit ts) @ [CallWrite idB (tq_targetKey rq) raw]
       \<or> (\<exists>a rb t b. mode = ''migrate'' \<and> tq_decommission rq \<and> analyze raw = Inr a \<and> ta_writeTarget ta = None
            \<and> ta_readBack ta = Got rb \<and> analyze rb = Inr t \<and> sameParity t a
            \<and> es_calls (ts_edit ts') = es_calls (ts_edit ts) @
                [CallWrite idB (tq_targetKey rq) raw, CallWrite idA (tq_key rq) (emptyState a)]
            \<and> es_backups (ts_edit ts') = es_backups (ts_edit ts) @ [b]
            \<and> bk_SourceID b = idA \<and> bk_StateKey b = tq_key rq \<and> bk_Data b = raw
            \<and> (tq_force rq \<or> (\<exists>d. ta_latest ta = Got d \<and>
                 (\<forall>l. analyze d = Inr l \<longrightarrow> an_Serial l = an_Serial a \<and> an_Lineage l = an_Lineage a))))"
  proof
    assume "ta_writeTarget ta = None \<and> emptied ta rq mode idA raw st1 (ts_edit ts')"
    then obtain a rb t b where "mode = ''migrate''" "tq_decommission rq" "analyze raw = Inr a" "ta_writeTarget ta = None"
      "ta_readBack ta = Got rb" "analyze rb = Inr t" "sameParity t a" and c: "recheck (tq_force rq) (ta_latest ta) a = []"
      and "es_calls (ts_edit ts') = es_calls st1 @ [CallWrite idA (tq_key rq) (emptyState a)]"
      "es_backups (ts_edit ts') = es_backups st1 @ [b]" "bk_SourceID b = idA" "bk_StateKey b = tq_key rq" "bk_Data b = raw"
      unfolding emptied_def by blast
    then show ?thesis using st1 re[OF c]
      by (intro disjI2 exI[of _ a] exI[of _ rb] exI[of _ t] exI[of _ b]) simp
  qed (use st1 in simp)
  ultimately show ?thesis by blast
qed

section \<open>Concrete transfers\<close>

definition endpoint :: "string \<Rightarrow> unit sourceAnswers" where
  "endpoint i = \<lparr>sa_scopeResolved = True, sa_row = Some (Some i), sa_credsOk = True, sa_newOk = True, sa_locker = None\<rparr>"

definition transferBetween :: "string \<Rightarrow> string \<Rightarrow> unit transferEnv" where
  "transferBetween a b = \<lparr>te_source = endpoint a, te_sourceOrg = ''o'', te_target = endpoint b, te_targetOrg = ''o'',
     te_acting = Inr ''o'', te_permits = (\<lambda>_. True)\<rparr>"

definition lockEnvOf :: "string \<Rightarrow> lockEnv" where
  "lockEnvOf i = \<lparr>le_reapAt = 0, le_insertAt = 0, le_newID = i, le_reapFails = False, le_insertFails = False, le_holderFails = False\<rparr>"

definition sampleTransfer :: "rawdoc \<Rightarrow> rawdoc \<Rightarrow> transferAnswers" where
  "sampleTransfer raw latest = \<lparr>ta_lock1 = lockEnvOf ''L1'', ta_lock2 = lockEnvOf ''L2'', ta_read = Got raw, ta_writeTarget = None,
     ta_readBack = Got raw, ta_latest = Got latest, ta_backupError = None, ta_backupID = ''B'', ta_now = 1,
     ta_writeSource = None, ta_recordEditFails = False, ta_createFails = False, ta_releaseFails = False\<rparr>"

definition migrateRequest :: "string \<Rightarrow> string \<Rightarrow> transferRequest" where
  "migrateRequest key tkey = \<lparr>tq_key = key, tq_bound = True, tq_targetSourceID = ''t'', tq_targetKey = tkey,
     tq_decommission = True, tq_force = False, tq_actor = ''u''\<rparr>"

definition emptyTransferState :: "unit transferState" where
  "emptyTransferState = \<lparr>ts_edit = emptyEditState, ts_transfers = [], ts_notified = []\<rparr>"

definition isEmptied :: "connCall \<Rightarrow> string \<Rightarrow> string \<Rightarrow> bool" where
  "isEmptied c src key = (case c of CallWrite s k (Doc (JObj kvs)) \<Rightarrow>
       s = src \<and> k = key \<and> (case oget ''resources'' kvs of Some (JArr rs) \<Rightarrow> rs = [] | _ \<Rightarrow> False) | _ \<Rightarrow> False)"

theorem source_emptied_only_after_verified_move_witness:
  "length (es_backups (ts_edit (snd (doTransfer (transferBetween ''a'' ''b'')
     (sampleTransfer (stateDoc ''4'' ''x'') (stateDoc ''4'' ''x'')) (migrateRequest ''k'' ''j'') ''migrate'' emptyTransferState)))) = 1"
proof -
  let ?run = "doTransfer (transferBetween ''a'' ''b'') (sampleTransfer (stateDoc ''4'' ''x'') (stateDoc ''4'' ''x''))
     (migrateRequest ''k'' ''j'') ''migrate'' emptyTransferState"
  have "length (es_calls (ts_edit (snd ?run))) = 2" by code_simp
  moreover have e: "es_calls (ts_edit emptyTransferState) = []" "es_backups (ts_edit emptyTransferState) = []"
    by (simp_all add: emptyTransferState_def emptyEditState_def)
  ultimately have ne: "es_calls (ts_edit (snd ?run)) \<noteq> es_calls (ts_edit emptyTransferState)" by auto
  have "?run = (fst ?run, snd ?run)" by simp
  from source_emptied_only_after_verified_move[OF this ne] e \<open>length (es_calls (ts_edit (snd ?run))) = 2\<close>
  show ?thesis by auto
qed

text \<open>Migrating a state onto itself with the decommission flag empties it. The two ends are one
  source and key, the copy verifies against itself, and the last call writes the emptied state over
  the only copy, while the record says the move succeeded, verified and decommissioned the source.\<close>

theorem self_migrate_empties_the_only_copy:
  "case doTransfer (transferBetween ''a'' ''a'') (sampleTransfer (stateDoc ''4'' ''x'') (stateDoc ''4'' ''x''))
     (migrateRequest ''k'' ''k'') ''migrate'' emptyTransferState of
   (r, ts) \<Rightarrow> (case r of TransferReply code rec \<Rightarrow> code = 200 \<and> tr_Status rec = ''success'' \<and> tr_Verified rec = Some True
                 \<and> tr_Decommissioned rec | _ \<Rightarrow> False)
     \<and> length (es_calls (ts_edit ts)) = 2 \<and> isEmptied (last (es_calls (ts_edit ts))) ''a'' ''k''"
  by code_simp

text \<open>The check before the decommission does not fail closed on a source that can no longer be
  analyzed: without the force flag, a source replaced by such a document since it was read is
  emptied, and no backup holds what was there.\<close>

theorem unreadable_source_is_emptied_unforced:
  "case doTransfer (transferBetween ''a'' ''b'') (sampleTransfer (stateDoc ''4'' ''x'') (Junk ''other work''))
     (migrateRequest ''k'' ''j'') ''migrate'' emptyTransferState of
   (r, ts) \<Rightarrow> \<not> tq_force (migrateRequest ''k'' ''j'')
     \<and> isEmptied (last (es_calls (ts_edit ts))) ''a'' ''k''
     \<and> list_all (\<lambda>b. case bk_Data b of Doc _ \<Rightarrow> True | Junk _ \<Rightarrow> False) (es_backups (ts_edit ts))"
  by code_simp

text \<open>A backup to another source touches nothing but its target key, which it overwrites
  whatever is there: the target is not read first, and the backups do not change.\<close>

theorem backup_overwrites_only_the_target:
  assumes "doTransfer te ta rq ''backup'' ts = (r, ts')" "sourceAndConnector (te_target te) = Inr idB"
  shows "es_backups (ts_edit ts') = es_backups (ts_edit ts)
    \<and> (\<forall>c \<in> set (es_calls (ts_edit ts')). c \<in> set (es_calls (ts_edit ts)) \<or>
         (\<exists>raw. ta_read ta = Got raw \<and> c = CallWrite idB (tq_targetKey rq) raw))"
  using assms(1)
proof (cases rule: doTransfer_run)
  case 1
  then show ?thesis by simp
next
  case (2 idA idB' org hs st1 ts2)
  have "es_backups (ts_edit ts2) = es_backups st1" using 2(4)
    by (auto simp: transferBody_def afterWrite_def Let_def saveTransfer_def split: readText.splits if_splits)
  with 2(5) acquireTransferLocks_frame[OF 2(3)] have "es_backups (ts_edit ts') = es_backups (ts_edit ts)" by simp
  with transfer_effect[OF assms(1)] assms(2) show ?thesis by (auto simp: emptied_def)
qed

theorem backup_overwrites_only_the_target_witness:
  "es_backups (ts_edit (snd (doTransfer (transferBetween ''a'' ''b'') (sampleTransfer (stateDoc ''4'' ''x'') (stateDoc ''4'' ''x''))
     (migrateRequest ''k'' ''j'') ''backup'' emptyTransferState))) = es_backups emptyEditState"
proof -
  let ?run = "doTransfer (transferBetween ''a'' ''b'') (sampleTransfer (stateDoc ''4'' ''x'') (stateDoc ''4'' ''x''))
     (migrateRequest ''k'' ''j'') ''backup'' emptyTransferState"
  have e: "?run = (fst ?run, snd ?run)" by simp
  have "sourceAndConnector (te_target (transferBetween ''a'' ''b'')) = Inr ''b''"
    by (simp add: transferBetween_def endpoint_def sourceAndConnector_def sourceInScope_def)
  from backup_overwrites_only_the_target[OF e this] show ?thesis by (simp add: emptyTransferState_def)
qed

section \<open>The two locks of a transfer\<close>

lemma lockOrder_sym:
  "lt_source a \<noteq> lt_source b \<or> lt_key a \<noteq> lt_key b \<Longrightarrow> lockOrder a b = lockOrder b a"
  by (auto simp: lockOrder_def dest: order.asym)

lemma two_locks:
  fixes f s :: "'n lockTarget" and st :: "'n editState"
  assumes "lt_locker f = None" "lt_locker s = None" and ne: "(lt_source s, lt_key s) \<noteq> (lt_source f, lt_key f)"
    and "lockOrder a b = (f, s)" "\<not> (lt_source a = lt_source b \<and> lt_key a = lt_key b)"
    and run: "acquireTransferLocks ta actor a b st = (x, st1)" and nf: "\<not> ta_releaseFails ta"
  shows "(\<forall>hs st2. x = Inr hs \<longrightarrow> es_locks st2 = es_locks st1 \<longrightarrow>
         editView st1 (lt_source f, lt_key f) \<noteq> [] \<and> editView st1 (lt_source s, lt_key s) \<noteq> []
         \<and> (\<forall>k. editView (releaseAll False hs st2) k =
              (if k = (lt_source f, lt_key f) \<or> k = (lt_source s, lt_key s) then [] else editView st k)))
    \<and> (\<forall>e. x = Inl e \<longrightarrow> (\<forall>k. k \<noteq> (lt_source f, lt_key f) \<longrightarrow> k \<noteq> (lt_source s, lt_key s) \<longrightarrow> editView st1 k = editView st k))"
proof -
  let ?kf = "(lt_source f, lt_key f)" and ?ks = "(lt_source s, lt_key s)"
  obtain y1 s1 where a1: "editAcquire (ta_lock1 ta, actor) ?kf st = (y1, s1)" by (cases "editAcquire (ta_lock1 ta, actor) ?kf st")
  obtain y2 s2 where a2: "editAcquire (ta_lock2 ta, actor) ?ks s1 = (y2, s2)" by (cases "editAcquire (ta_lock2 ta, actor) ?ks s1")
  have out: "(x, st1) = (case y1 of Inl e \<Rightarrow> (Inl e, s1)
      | Inr h1 \<Rightarrow> (case y2 of Inl e \<Rightarrow> (Inl e, releaseLock None False h1 s2)
          | Inr h2 \<Rightarrow> (Inr [(None, h2), (None, h1)], s2)))"
    using run a1 a2 assms(1,2,4,5) nf
    by (auto simp: acquireTransferLocks_def editAcquire_def split: sum.splits)
  show ?thesis
  proof (cases y1)
    case (Inl e)
    with out editLocks.acq_other[OF a1] show ?thesis by auto
  next
    case (Inr h1)
    note g1 = a1[unfolded Inr]
    show ?thesis
    proof (cases y2)
      case refused: (Inl e)
      with out Inr have "st1 = releaseLock None False h1 s2" "x = Inl e" by simp_all
      with editLocks.rel_other[OF g1] editLocks.acq_other[OF a2] editLocks.acq_other[OF a1] show ?thesis by simp
    next
      case granted: (Inr h2)
      note g2 = a2[unfolded granted]
      from granted out Inr have x: "x = Inr [(None, h2), (None, h1)]" "st1 = s2" by simp_all
      have "editView st1 ?ks \<noteq> []" using editLocks.acq_granted[OF g2] x by simp
      moreover have "editView st1 ?kf \<noteq> []"
        using editLocks.acq_granted[OF g1] editLocks.acq_other[OF a2, of ?kf] ne x by auto
      moreover have "editView (releaseAll False [(None, h2), (None, h1)] st2) k =
          (if k = ?kf \<or> k = ?ks then [] else editView st k)" if "es_locks st2 = es_locks st1" for st2 :: "'n editState" and k
        using editLocks.bracket_two[OF g1 g2 ne, of st2 k] that x by (simp add: releaseAll_def editView_def)
      ultimately show ?thesis using x by simp
    qed
  qed
qed

text \<open>Two transfers between the same keys take their locks in the same order whichever way they
  go. On connectors without locks of their own a transfer that is granted its locks holds both keys,
  and releasing them leaves both free and every other key as it was; one that is refused leaves the
  locks of all other keys as they were.\<close>

theorem transfer_locks_bracket:
  assumes "lt_locker a = None" "lt_locker b = None"
    and "(lt_source a, lt_key a) \<noteq> (lt_source b, lt_key b)"
    and "acquireTransferLocks ta actor a b st = (x, st1)" "\<not> ta_releaseFails ta"
  shows "acquireTransferLocks ta actor b a st = (x, st1)
    \<and> (\<forall>hs st2. x = Inr hs \<longrightarrow> es_locks st2 = es_locks st1 \<longrightarrow>
         editView st1 (lt_source a, lt_key a) \<noteq> [] \<and> editView st1 (lt_source b, lt_key b) \<noteq> []
         \<and> (\<forall>k. editView (releaseAll False hs st2) k =
              (if k = (lt_source a, lt_key a) \<or> k = (lt_source b, lt_key b) then [] else editView st k)))
    \<and> (\<forall>e. x = Inl e \<longrightarrow> (\<forall>k. k \<noteq> (lt_source a, lt_key a) \<longrightarrow> k \<noteq> (lt_source b, lt_key b) \<longrightarrow> editView st1 k = editView st k))"
proof -
  from assms(3) have d: "\<not> (lt_source a = lt_source b \<and> lt_key a = lt_key b)" by auto
  then have "lockOrder a b = lockOrder b a" using lockOrder_sym[of a b] by blast
  with d assms(4) have "acquireTransferLocks ta actor b a st = (x, st1)" by (auto simp: acquireTransferLocks_def)
  moreover have "lockOrder a b = (a, b) \<or> lockOrder a b = (b, a)" by (auto simp: lockOrder_def)
  then have "(\<forall>hs st2. x = Inr hs \<longrightarrow> es_locks st2 = es_locks st1 \<longrightarrow>
         editView st1 (lt_source a, lt_key a) \<noteq> [] \<and> editView st1 (lt_source b, lt_key b) \<noteq> []
         \<and> (\<forall>k. editView (releaseAll False hs st2) k =
              (if k = (lt_source a, lt_key a) \<or> k = (lt_source b, lt_key b) then [] else editView st k)))
    \<and> (\<forall>e. x = Inl e \<longrightarrow> (\<forall>k. k \<noteq> (lt_source a, lt_key a) \<longrightarrow> k \<noteq> (lt_source b, lt_key b) \<longrightarrow> editView st1 k = editView st k))"
  proof
    assume o: "lockOrder a b = (a, b)"
    from two_locks[OF assms(1,2) assms(3)[symmetric] o d assms(4,5)] show ?thesis by blast
  next
    assume o: "lockOrder a b = (b, a)"
    from two_locks[OF assms(2,1) assms(3) o d assms(4,5)] show ?thesis by auto
  qed
  ultimately show ?thesis by blast
qed

definition target :: "string \<Rightarrow> string \<Rightarrow> unit lockTarget" where
  "target i k = \<lparr>lt_source = i, lt_locker = None, lt_key = k\<rparr>"

theorem transfer_locks_bracket_witness:
  "acquireTransferLocks (sampleTransfer (Junk []) (Junk [])) ''u'' (target ''b'' ''j'') (target ''a'' ''k'') emptyEditState =
   acquireTransferLocks (sampleTransfer (Junk []) (Junk [])) ''u'' (target ''a'' ''k'') (target ''b'' ''j'') emptyEditState"
proof -
  let ?run = "acquireTransferLocks (sampleTransfer (Junk []) (Junk [])) ''u'' (target ''a'' ''k'') (target ''b'' ''j'') emptyEditState"
  have "?run = (fst ?run, snd ?run)" by simp
  from transfer_locks_bracket[OF _ _ _ this] show ?thesis by (simp add: target_def sampleTransfer_def)
qed
end
