(* ===== verification/DriftPlan.thy ===== *)
theory DriftPlan
  imports Json "HOL-Library.Monad_Syntax"
begin

text \<open>
  \<open>internal/services/driftingest\<close>: a Terraform plan document is summarized into counts and
  rows, with the attribute values of sensitive attributes masked and both the number of rows
  and of attributes per row bounded.

  Two things are parameters. \<open>ff\<close> is the text \<open>encoding/json\<close> prints for a float64 (the
  shortest decimal that reads back); \<open>canonicalHost\<close> is \<open>suite.CanonicalHost\<close> of the shared
  identity module. No lemma restricts either. The lemmas give the counts independently of the
  bounds, the rows as a prefix of the changes, what is left out as exact numbers, and
  non-interference: the summary does not depend on a masked value.
\<close>

section \<open>The plan\<close>

record planChange =
  ch_Actions :: "string list"
  ch_Before :: "json option"
  ch_After :: "json option"
  ch_BeforeSensitive :: "json option"
  ch_AfterSensitive :: "json option"

record resourceChange =
  rc_Address :: string
  rc_Change :: planChange

record moduleCall =
  mc_Source :: string
  mc_VersionConstraint :: string

text \<open>A nil slice (the member is absent or null) is None, an empty array \<open>Some []\<close>.\<close>

record plan =
  pl_ResourceChanges :: "resourceChange list option"
  pl_ResourceDrift :: "resourceChange list option"
  pl_ModuleCalls :: "moduleCall gomap"

definition decodeChange :: "json \<Rightarrow> planChange option" where
  "decodeChange j = do {
     kvs \<leftarrow> structMembers j;
     acts \<leftarrow> fieldOr [] (\<lambda>v. decodeList v \<bind> decodeAll decodeStr) ''actions'' kvs;
     Some \<lparr>ch_Actions = acts, ch_Before = structField ''before'' kvs,
           ch_After = structField ''after'' kvs,
           ch_BeforeSensitive = structField ''before_sensitive'' kvs,
           ch_AfterSensitive = structField ''after_sensitive'' kvs\<rparr>
   }"

definition noChange :: planChange where
  "noChange = \<lparr>ch_Actions = [], ch_Before = None, ch_After = None,
     ch_BeforeSensitive = None, ch_AfterSensitive = None\<rparr>"

definition decodeResourceChange :: "json \<Rightarrow> resourceChange option" where
  "decodeResourceChange j = do {
     kvs \<leftarrow> structMembers j;
     addr \<leftarrow> fieldOr [] decodeStr ''address'' kvs;
     ch \<leftarrow> fieldOr noChange decodeChange ''change'' kvs;
     Some \<lparr>rc_Address = addr, rc_Change = ch\<rparr>
   }"

fun decodeNilList :: "(json \<Rightarrow> 'a option) \<Rightarrow> json \<Rightarrow> 'a list option option" where
  "decodeNilList dec (JArr vs) = map_option Some (decodeAll dec vs)"
| "decodeNilList dec JNull = Some None"
| "decodeNilList dec _ = None"

definition decodeModuleCall :: "json \<Rightarrow> moduleCall option" where
  "decodeModuleCall j = do {
     kvs \<leftarrow> structMembers j;
     src \<leftarrow> fieldOr [] decodeStr ''source'' kvs;
     vc \<leftarrow> fieldOr [] decodeStr ''version_constraint'' kvs;
     Some \<lparr>mc_Source = src, mc_VersionConstraint = vc\<rparr>
   }"

definition decodeConfiguration :: "json \<Rightarrow> moduleCall gomap option" where
  "decodeConfiguration j = do {
     kvs \<leftarrow> structMembers j;
     fieldOr [] (\<lambda>root. do {
       rkvs \<leftarrow> structMembers root;
       fieldOr [] (decodeStructMap decodeModuleCall) ''module_calls'' rkvs
     }) ''root_module'' kvs
   }"

definition decodePlan :: "json \<Rightarrow> plan option" where
  "decodePlan j = do {
     kvs \<leftarrow> structMembers j;
     rcs \<leftarrow> fieldOr None (decodeNilList decodeResourceChange) ''resource_changes'' kvs;
     rds \<leftarrow> fieldOr None (decodeNilList decodeResourceChange) ''resource_drift'' kvs;
     calls \<leftarrow> fieldOr [] decodeConfiguration ''configuration'' kvs;
     Some \<lparr>pl_ResourceChanges = rcs, pl_ResourceDrift = rds, pl_ModuleCalls = calls\<rparr>
   }"

section \<open>Rendering a value\<close>

definition hexChar :: "nat \<Rightarrow> char" where
  "hexChar d = ''0123456789abcdef'' ! d"

text \<open>\<open>json.Encoder\<close> with HTML escaping off, on valid UTF-8.\<close>

fun quoteBody :: "string \<Rightarrow> string" where
  "quoteBody [] = []"
| "quoteBody (c # s) =
     (if c = CHR 0x22 then [CHR 0x5C, CHR 0x22]
      else if c = CHR 0x5C then [CHR 0x5C, CHR 0x5C]
      else if c = CHR 0x08 then [CHR 0x5C, CHR ''b'']
      else if c = CHR 0x0C then [CHR 0x5C, CHR ''f'']
      else if c = CHR 0x0A then [CHR 0x5C, CHR ''n'']
      else if c = CHR 0x0D then [CHR 0x5C, CHR ''r'']
      else if c = CHR 0x09 then [CHR 0x5C, CHR ''t'']
      else if c < CHR '' '' then
        [CHR 0x5C, CHR ''u'', CHR ''0'', CHR ''0'', hexChar (of_char c div 16), hexChar (of_char c mod 16)]
      else [c]) @ quoteBody s"

text \<open>The line and paragraph separators (E2 80 A8 and A9 in UTF-8) are escaped as well.\<close>

fun escapeSeparators :: "string \<Rightarrow> string" where
  "escapeSeparators (a # b # c # s) =
     (if a = CHR 0xE2 \<and> b = CHR 0x80 \<and> (c = CHR 0xA8 \<or> c = CHR 0xA9)
      then CHR 0x5C # ''u202'' @ [if c = CHR 0xA8 then CHR ''8'' else CHR ''9''] @ escapeSeparators s
      else a # escapeSeparators (b # c # s))"
| "escapeSeparators s = s"

definition quoteJSON :: "string \<Rightarrow> string" where
  "quoteJSON s = CHR 0x22 # escapeSeparators (quoteBody s) @ [CHR 0x22]"

fun marshalCanon :: "(f64 \<Rightarrow> string) \<Rightarrow> goval \<Rightarrow> string" where
  "marshalCanon ff GNil = ''null''"
| "marshalCanon ff (GBool b) = (if b then ''true'' else ''false'')"
| "marshalCanon ff (GNum x) = ff x"
| "marshalCanon ff (GStr s) = quoteJSON s"
| "marshalCanon ff (GArr gs) = ''['' @ joinWith '','' (map (marshalCanon ff) gs) @ '']''"
| "marshalCanon ff (GMap m) =
     ''{'' @ joinWith '','' (map (\<lambda>p. quoteJSON (fst p) @ '':'' @ marshalCanon ff (snd p)) m) @ ''}''"

text \<open>The bytes of a raw message.\<close>

fun rawText :: "json \<Rightarrow> string" where
  "rawText JNull = ''null''"
| "rawText (JBool b) = (if b then ''true'' else ''false'')"
| "rawText (JNum lit) = lit"
| "rawText (JStr s) = quoteJSON s"
| "rawText (JArr vs) = ''['' @ joinWith '','' (map rawText vs) @ '']''"
| "rawText (JObj kvs) =
     ''{'' @ joinWith '','' (map (\<lambda>p. quoteJSON (fst p) @ '':'' @ rawText (snd p)) kvs) @ ''}''"

definition canon :: "(f64 \<Rightarrow> string) \<Rightarrow> json option \<Rightarrow> string" where
  "canon ff raw =
     (case raw of
        None \<Rightarrow> ''null''
      | Some j \<Rightarrow>
          (let s = rawText j
           in if s = [] \<or> s = ''null'' then ''null''
              else (case decodeAny j of None \<Rightarrow> s | Some v \<Rightarrow> marshalCanon ff v)))"

definition jsonEqual :: "(f64 \<Rightarrow> string) \<Rightarrow> json option \<Rightarrow> json option \<Rightarrow> bool" where
  "jsonEqual ff a b = (canon ff a = canon ff b)"

text \<open>A rune of valid UTF-8 begins at every byte that is not a continuation byte.\<close>

definition isCont :: "char \<Rightarrow> bool" where
  "isCont c = (CHR 0x80 \<le> c \<and> c \<le> CHR 0xBF)"

definition runeCount :: "string \<Rightarrow> nat" where
  "runeCount s = length (filter (\<lambda>c. \<not> isCont c) s)"

fun takeRunes :: "nat \<Rightarrow> string \<Rightarrow> string" where
  "takeRunes n [] = []"
| "takeRunes n (c # s) =
     (if isCont c then c # takeRunes n s
      else (case n of 0 \<Rightarrow> [] | Suc m \<Rightarrow> c # takeRunes m s))"

definition truncateVal :: "string \<Rightarrow> string" where
  "truncateVal s =
     (if runeCount s \<le> 300 then s else takeRunes 300 s @ [CHR 0xE2, CHR 0x80, CHR 0xA6])"

definition fmtVal :: "(f64 \<Rightarrow> string) \<Rightarrow> json option \<Rightarrow> string option" where
  "fmtVal ff raw =
     (if canon ff raw = ''null'' then None
      else (case raw of
              None \<Rightarrow> None
            | Some j \<Rightarrow>
                (case decodeAny j of
                   None \<Rightarrow> Some (truncateVal (rawText j))
                 | Some (GStr s) \<Rightarrow> Some (truncateVal s)
                 | Some v \<Rightarrow> Some (truncateVal (marshalCanon ff v)))))"

section \<open>Sensitivity\<close>

fun pyTruthy :: "goval \<Rightarrow> bool" where
  "pyTruthy GNil = False"
| "pyTruthy (GBool b) = b"
| "pyTruthy (GNum x) = (\<not> f64_zero x)"
| "pyTruthy (GStr s) = (s \<noteq> [])"
| "pyTruthy (GArr gs) = (gs \<noteq> [])"
| "pyTruthy (GMap m) = (m \<noteq> [])"

definition isSens :: "json option \<Rightarrow> string \<Rightarrow> bool" where
  "isSens sens key =
     (case sens of
        None \<Rightarrow> False
      | Some j \<Rightarrow>
          (case decodeAny j of
             None \<Rightarrow> False
           | Some (GMap m) \<Rightarrow>
               (case oget key m of
                  None \<Rightarrow> False
                | Some (GBool b) \<Rightarrow> b
                | Some (GMap t) \<Rightarrow> t \<noteq> []
                | Some (GArr t) \<Rightarrow> t \<noteq> []
                | Some _ \<Rightarrow> False)
           | Some v \<Rightarrow> pyTruthy v))"

definition maskOrFmt :: "(f64 \<Rightarrow> string) \<Rightarrow> bool \<Rightarrow> json option \<Rightarrow> string option" where
  "maskOrFmt ff sensitive val = (if sensitive then Some ''(sensitive)'' else fmtVal ff val)"

section \<open>The changed attributes of one resource\<close>

record attrChange =
  at_Name :: string
  at_Before :: "string option"
  at_After :: "string option"

definition asObject :: "json option \<Rightarrow> json gomap option" where
  "asObject raw =
     (case raw of
        None \<Rightarrow> None
      | Some j \<Rightarrow> if j = JNull then None
                 else (case decodeMap j of Some (Some m) \<Rightarrow> Some m | _ \<Rightarrow> None))"

definition sortedUnion :: "json gomap \<Rightarrow> json gomap \<Rightarrow> string list" where
  "sortedUnion a b = sort (remdups (okeys a @ okeys b))"

definition attrStep ::
    "(f64 \<Rightarrow> string) \<Rightarrow> planChange \<Rightarrow> json gomap \<Rightarrow> json gomap \<Rightarrow> nat \<Rightarrow>
     attrChange list \<times> nat \<Rightarrow> string \<Rightarrow> attrChange list \<times> nat" where
  "attrStep ff ch before after maxAttrs acc k =
     (let (attrs, omitted) = acc
      in if jsonEqual ff (oget k before) (oget k after) then acc
         else if maxAttrs \<le> length attrs then (attrs, Suc omitted)
         else (let sensitive = (isSens (ch_BeforeSensitive ch) k \<or> isSens (ch_AfterSensitive ch) k)
               in (attrs @ [\<lparr>at_Name = k, at_Before = maskOrFmt ff sensitive (oget k before),
                             at_After = maskOrFmt ff sensitive (oget k after)\<rparr>], omitted)))"

definition changedAttrs :: "(f64 \<Rightarrow> string) \<Rightarrow> planChange \<Rightarrow> nat \<Rightarrow> attrChange list \<times> nat \<times> bool" where
  "changedAttrs ff ch maxAttrs =
     (case (asObject (ch_Before ch), asObject (ch_After ch)) of
        (Some before, Some after) \<Rightarrow>
          (case foldl (attrStep ff ch before after maxAttrs) ([], 0) (sortedUnion before after) of
             (attrs, omitted) \<Rightarrow> (attrs, omitted, True))
      | _ \<Rightarrow> ([], 0, False))"

section \<open>The changes of a plan\<close>

record summaryEntry =
  se_Address :: string
  se_Actions :: "string list"
  se_Attrs :: "attrChange list"

record processed =
  pr_Added :: nat
  pr_Changed :: nat
  pr_Destroyed :: nat
  pr_Summary :: "summaryEntry list"
  pr_Unmasked :: bool
  pr_OmittedEntries :: nat
  pr_OmittedAttrs :: nat

definition hasAction :: "string list \<Rightarrow> string \<Rightarrow> bool" where
  "hasAction actions a = (a \<in> set actions)"

definition skipped :: "resourceChange \<Rightarrow> bool" where
  "skipped rc = (ch_Actions (rc_Change rc) = [''no-op''] \<or> ch_Actions (rc_Change rc) = [''read''])"

definition emptyProcessed :: processed where
  "emptyProcessed = \<lparr>pr_Added = 0, pr_Changed = 0, pr_Destroyed = 0, pr_Summary = [],
     pr_Unmasked = False, pr_OmittedEntries = 0, pr_OmittedAttrs = 0\<rparr>"

definition processStep ::
    "(f64 \<Rightarrow> string) \<Rightarrow> nat \<Rightarrow> nat \<Rightarrow> processed \<Rightarrow> resourceChange \<Rightarrow> processed" where
  "processStep ff maxEntries maxAttrs res rc =
     (if skipped rc then res
      else
        (let ch = rc_Change rc; acts = ch_Actions ch;
             res1 = res\<lparr>pr_Added := pr_Added res + (if hasAction acts ''create'' then 1 else 0),
                        pr_Changed := pr_Changed res + (if hasAction acts ''update'' then 1 else 0),
                        pr_Destroyed := pr_Destroyed res + (if hasAction acts ''delete'' then 1 else 0)\<rparr>;
             (attrs, omitted, inPlace) = changedAttrs ff ch maxAttrs;
             res2 = (if inPlace \<and> canon ff (ch_BeforeSensitive ch) = ''null''
                        \<and> canon ff (ch_AfterSensitive ch) = ''null''
                     then res1\<lparr>pr_Unmasked := True\<rparr> else res1)
         in if maxEntries \<le> length (pr_Summary res2)
            then res2\<lparr>pr_OmittedEntries := Suc (pr_OmittedEntries res2)\<rparr>
            else res2\<lparr>pr_OmittedAttrs := pr_OmittedAttrs res2 + omitted,
                      pr_Summary := pr_Summary res2 @
                        [\<lparr>se_Address = rc_Address rc, se_Actions = acts, se_Attrs = attrs\<rparr>]\<rparr>))"

definition processChanges :: "(f64 \<Rightarrow> string) \<Rightarrow> resourceChange list \<Rightarrow> nat \<Rightarrow> nat \<Rightarrow> processed" where
  "processChanges ff changes maxEntries maxAttrs =
     foldl (processStep ff maxEntries maxAttrs) emptyProcessed changes"

definition MaxEntries :: nat where "MaxEntries = 500"
definition MaxAttrsPerEntry :: nat where "MaxAttrsPerEntry = 50"

record result =
  rs_Added :: nat
  rs_Changed :: nat
  rs_Destroyed :: nat
  rs_Summary :: "summaryEntry list"
  rs_DriftAdded :: nat
  rs_DriftChanged :: nat
  rs_DriftDestroyed :: nat
  rs_DriftSummary :: "summaryEntry list"
  rs_Unparseable :: bool
  rs_Unmasked :: bool
  rs_OmittedEntries :: nat
  rs_OmittedAttrs :: nat

definition emptyResult :: "bool \<Rightarrow> result" where
  "emptyResult unp = \<lparr>rs_Added = 0, rs_Changed = 0, rs_Destroyed = 0, rs_Summary = [],
     rs_DriftAdded = 0, rs_DriftChanged = 0, rs_DriftDestroyed = 0, rs_DriftSummary = [],
     rs_Unparseable = unp, rs_Unmasked = False, rs_OmittedEntries = 0, rs_OmittedAttrs = 0\<rparr>"

definition nilList :: "'a list option \<Rightarrow> 'a list" where
  "nilList xs = (case xs of None \<Rightarrow> [] | Some ys \<Rightarrow> ys)"

definition summarize :: "(f64 \<Rightarrow> string) \<Rightarrow> plan option \<Rightarrow> result" where
  "summarize ff p =
     (case p of
        None \<Rightarrow> emptyResult True
      | Some pl \<Rightarrow>
          (let primary = processChanges ff (nilList (pl_ResourceChanges pl)) MaxEntries MaxAttrsPerEntry;
               drift = processChanges ff (nilList (pl_ResourceDrift pl)) MaxEntries MaxAttrsPerEntry
           in \<lparr>rs_Added = pr_Added primary, rs_Changed = pr_Changed primary,
               rs_Destroyed = pr_Destroyed primary, rs_Summary = pr_Summary primary,
               rs_DriftAdded = pr_Added drift, rs_DriftChanged = pr_Changed drift,
               rs_DriftDestroyed = pr_Destroyed drift, rs_DriftSummary = pr_Summary drift,
               rs_Unparseable = (pl_ResourceChanges pl = None), rs_Unmasked = pr_Unmasked primary,
               rs_OmittedEntries = pr_OmittedEntries primary,
               rs_OmittedAttrs = pr_OmittedAttrs primary\<rparr>))"

definition planTruncated :: "result \<Rightarrow> bool" where
  "planTruncated r = (0 < rs_OmittedEntries r \<or> 0 < rs_OmittedAttrs r)"

definition planDrifted :: "result \<Rightarrow> bool" where
  "planDrifted r = (0 < rs_Added r + rs_Changed r + rs_Destroyed r)"

section \<open>Registry modules\<close>

text \<open>
  \<open>ModuleLocks\<close> is a map from "host|source" to a version, nil as None. The calls of the
  configuration are a Go map, which \<open>ModuleRefs\<close> ranges over in an unspecified order; the
  model takes the order of the keys, and what is shown of the references is on their set.
\<close>

type_synonym moduleLocks = "string gomap option"

record moduleRef =
  mr_ModuleSource :: string
  mr_RegistryHost :: string
  mr_ModuleVersion :: "string option"

record lockEntry =
  le_Source :: string
  le_Version :: string

definition lockKey :: "string \<Rightarrow> string \<Rightarrow> string" where
  "lockKey host source = host @ ''|'' @ source"

definition publicRegistryHost :: string where
  "publicRegistryHost = ''registry.terraform.io''"

definition beforeSubdir :: "string \<Rightarrow> string" where
  "beforeSubdir src = (case strIndex src ''//'' of None \<Rightarrow> src | Some i \<Rightarrow> take i src)"

definition registryModuleAddress :: "(string \<Rightarrow> string) \<Rightarrow> string \<Rightarrow> (string \<times> string) option" where
  "registryModuleAddress canonicalHost src =
     (if src = [] \<or> hasPrefix src ''./'' \<or> hasPrefix src ''../'' \<or> hasPrefix src ''/''
         \<or> containsStr src ''::'' \<or> containsStr src ''?'' \<or> hasPrefix src ''git@'' then None
      else
        (let cut = beforeSubdir src; parts = splitOn CHR ''/'' cut
         in if length parts = 3 then
              (if containsAny (parts ! 0) ''.:'' then None
               else Some (canonicalHost publicRegistryHost, cut))
            else if length parts = 4 then
              (if \<not> containsAny (parts ! 0) ''.:'' then None
               else (let host = canonicalHost (parts ! 0)
                     in if host = [] then None else Some (host, joinWith ''/'' (drop 1 parts))))
            else None))"

definition decodeLockEntry :: "json \<Rightarrow> lockEntry option" where
  "decodeLockEntry j = do {
     kvs \<leftarrow> structMembers j;
     src \<leftarrow> fieldOr [] decodeStr ''Source'' kvs;
     ver \<leftarrow> fieldOr [] decodeStr ''Version'' kvs;
     Some \<lparr>le_Source = src, le_Version = ver\<rparr>
   }"

definition decodeLockFile :: "json \<Rightarrow> lockEntry list option" where
  "decodeLockFile j = do {
     kvs \<leftarrow> structMembers j;
     fieldOr [] (\<lambda>v. decodeList v \<bind> decodeAll decodeLockEntry) ''Modules'' kvs
   }"

definition addLock :: "(string \<Rightarrow> string) \<Rightarrow> lockEntry \<Rightarrow> string gomap \<Rightarrow> string gomap" where
  "addLock canonicalHost e locks =
     (if le_Version e = [] then locks
      else (case registryModuleAddress canonicalHost (le_Source e) of
              None \<Rightarrow> locks
            | Some (host, source) \<Rightarrow> oput (lockKey host source) (le_Version e) locks))"

text \<open>The document is \<open>Junk\<close> when it is no JSON text, which covers the empty upload too.\<close>

definition parseModuleLocks :: "(string \<Rightarrow> string) \<Rightarrow> rawdoc \<Rightarrow> moduleLocks" where
  "parseModuleLocks canonicalHost raw =
     (case raw of
        Junk _ \<Rightarrow> None
      | Doc j \<Rightarrow>
          (case decodeLockFile j of
             None \<Rightarrow> None
           | Some entries \<Rightarrow>
               (let locks = fold (addLock canonicalHost) entries []
                in if locks = [] then None else Some locks)))"

definition lockedVersion :: "moduleLocks \<Rightarrow> string \<Rightarrow> string \<Rightarrow> string option" where
  "lockedVersion locks host source =
     (case locks of
        None \<Rightarrow> None
      | Some m \<Rightarrow> (case oget (lockKey host source) m of
                     None \<Rightarrow> None
                   | Some v \<Rightarrow> if v = [] then None else Some v))"

fun callRefs :: "(string \<Rightarrow> string) \<Rightarrow> moduleLocks \<Rightarrow> moduleCall list \<Rightarrow> moduleRef list" where
  "callRefs canonicalHost locks [] = []"
| "callRefs canonicalHost locks (c # cs) =
     (case registryModuleAddress canonicalHost (mc_Source c) of
        None \<Rightarrow> callRefs canonicalHost locks cs
      | Some (host, source) \<Rightarrow>
          \<lparr>mr_ModuleSource = source, mr_RegistryHost = host,
           mr_ModuleVersion = lockedVersion locks host source\<rparr> # callRefs canonicalHost locks cs)"

definition moduleRefs :: "(string \<Rightarrow> string) \<Rightarrow> plan option \<Rightarrow> moduleLocks \<Rightarrow> moduleRef list" where
  "moduleRefs canonicalHost p locks =
     (case p of None \<Rightarrow> [] | Some pl \<Rightarrow> callRefs canonicalHost locks (map snd (pl_ModuleCalls pl)))"

section \<open>The attributes of a change\<close>

definition differs :: "(f64 \<Rightarrow> string) \<Rightarrow> json gomap \<Rightarrow> json gomap \<Rightarrow> string \<Rightarrow> bool" where
  "differs ff before after k = (canon ff (oget k before) \<noteq> canon ff (oget k after))"

definition sensitiveIn :: "planChange \<Rightarrow> string \<Rightarrow> bool" where
  "sensitiveIn ch k = (isSens (ch_BeforeSensitive ch) k \<or> isSens (ch_AfterSensitive ch) k)"

definition attrRow :: "(f64 \<Rightarrow> string) \<Rightarrow> planChange \<Rightarrow> json gomap \<Rightarrow> json gomap \<Rightarrow> string \<Rightarrow> attrChange" where
  "attrRow ff ch before after k =
     (if sensitiveIn ch k
      then \<lparr>at_Name = k, at_Before = Some ''(sensitive)'', at_After = Some ''(sensitive)''\<rparr>
      else \<lparr>at_Name = k, at_Before = fmtVal ff (oget k before), at_After = fmtVal ff (oget k after)\<rparr>)"

lemma foldl_attrStep:
  "length attrs \<le> n \<Longrightarrow>
   foldl (attrStep ff ch before after n) (attrs, om) ks =
     (attrs @ map (attrRow ff ch before after) (take (n - length attrs) (filter (differs ff before after) ks)),
      om + (length (filter (differs ff before after) ks) - (n - length attrs)))"
proof (induction ks arbitrary: attrs om)
  case (Cons k ks)
  show ?case
  proof (cases "differs ff before after k")
    case False
    then have "attrStep ff ch before after n (attrs, om) k = (attrs, om)"
      by (simp add: attrStep_def differs_def jsonEqual_def)
    with False Cons show ?thesis by simp
  next
    case True
    show ?thesis
    proof (cases "n \<le> length attrs")
      case True': True
      from True True' have "attrStep ff ch before after n (attrs, om) k = (attrs, Suc om)"
        by (simp add: attrStep_def differs_def jsonEqual_def)
      with True True' Cons show ?thesis by simp
    next
      case False
      from True False have "attrStep ff ch before after n (attrs, om) k =
          (attrs @ [attrRow ff ch before after k], om)"
        by (simp add: attrStep_def differs_def jsonEqual_def attrRow_def sensitiveIn_def maskOrFmt_def Let_def)
      moreover from False have "n - length attrs = Suc (n - Suc (length attrs))" by simp
      ultimately show ?thesis using True False Cons.prems
        by (simp add: Cons.IH)
    qed
  qed
qed simp

lemma changedAttrs_spec:
  assumes "asObject (ch_Before ch) = Some before" "asObject (ch_After ch) = Some after"
  shows "changedAttrs ff ch n =
     (map (attrRow ff ch before after) (take n (filter (differs ff before after) (sortedUnion before after))),
      length (filter (differs ff before after) (sortedUnion before after)) - n, True)"
  using assms by (simp add: changedAttrs_def foldl_attrStep)

lemma changedAttrs_none:
  "asObject (ch_Before ch) = None \<or> asObject (ch_After ch) = None \<Longrightarrow> changedAttrs ff ch n = ([], 0, False)"
  by (auto simp: changedAttrs_def split: option.splits)

lemma sortedUnion_set: "set (sortedUnion a b) = {k. oget k a \<noteq> None \<or> oget k b \<noteq> None}"
  using omap_keys[of a] omap_keys[of b] by (auto simp: sortedUnion_def okeys_def)

lemma sortedUnion_sorted: "sorted_wrt (<) (sortedUnion a b)"
  by (simp add: sortedUnion_def strict_sorted_iff)

lemma differing_keys:
  "set (filter (differs ff a b) (sortedUnion a b)) = {k. canon ff (oget k a) \<noteq> canon ff (oget k b)}"
proof -
  have "k \<in> set (sortedUnion a b)" if "canon ff (oget k a) \<noteq> canon ff (oget k b)" for k
    using that by (cases "oget k a"; cases "oget k b") (auto simp: sortedUnion_set)
  then show ?thesis by (auto simp: differs_def)
qed

section \<open>The rows of a plan\<close>

definition liveChanges :: "resourceChange list \<Rightarrow> resourceChange list" where
  "liveChanges = filter (\<lambda>rc. \<not> skipped rc)"

definition entryOf :: "(f64 \<Rightarrow> string) \<Rightarrow> nat \<Rightarrow> resourceChange \<Rightarrow> summaryEntry" where
  "entryOf ff maxAttrs rc = \<lparr>se_Address = rc_Address rc, se_Actions = ch_Actions (rc_Change rc),
     se_Attrs = fst (changedAttrs ff (rc_Change rc) maxAttrs)\<rparr>"

definition omittedOf :: "(f64 \<Rightarrow> string) \<Rightarrow> nat \<Rightarrow> resourceChange \<Rightarrow> nat" where
  "omittedOf ff maxAttrs rc = fst (snd (changedAttrs ff (rc_Change rc) maxAttrs))"

definition unmaskedRow :: "(f64 \<Rightarrow> string) \<Rightarrow> resourceChange \<Rightarrow> bool" where
  "unmaskedRow ff rc = (asObject (ch_Before (rc_Change rc)) \<noteq> None \<and> asObject (ch_After (rc_Change rc)) \<noteq> None
     \<and> canon ff (ch_BeforeSensitive (rc_Change rc)) = ''null''
     \<and> canon ff (ch_AfterSensitive (rc_Change rc)) = ''null'')"

lemma inPlace_iff: "snd (snd (changedAttrs ff ch n)) \<longleftrightarrow> asObject (ch_Before ch) \<noteq> None \<and> asObject (ch_After ch) \<noteq> None"
  by (auto simp: changedAttrs_def split: option.splits prod.splits)

lemma processStep_live:
  "\<not> skipped rc \<Longrightarrow> processStep ff me ma res rc =
    \<lparr>pr_Added = pr_Added res + (if ''create'' \<in> set (ch_Actions (rc_Change rc)) then 1 else 0),
     pr_Changed = pr_Changed res + (if ''update'' \<in> set (ch_Actions (rc_Change rc)) then 1 else 0),
     pr_Destroyed = pr_Destroyed res + (if ''delete'' \<in> set (ch_Actions (rc_Change rc)) then 1 else 0),
     pr_Summary = (if me \<le> length (pr_Summary res) then pr_Summary res else pr_Summary res @ [entryOf ff ma rc]),
     pr_Unmasked = (pr_Unmasked res \<or> unmaskedRow ff rc),
     pr_OmittedEntries = pr_OmittedEntries res + (if me \<le> length (pr_Summary res) then 1 else 0),
     pr_OmittedAttrs = pr_OmittedAttrs res + (if me \<le> length (pr_Summary res) then 0 else omittedOf ff ma rc)\<rparr>"
  using inPlace_iff[of ff "rc_Change rc" ma]
  by (cases "changedAttrs ff (rc_Change rc) ma")
    (auto simp: processStep_def Let_def hasAction_def entryOf_def omittedOf_def unmaskedRow_def)

lemma foldl_processStep:
  "length (pr_Summary res) \<le> me \<Longrightarrow>
   foldl (processStep ff me ma) res changes =
   (let live = liveChanges changes; room = me - length (pr_Summary res) in
    \<lparr>pr_Added = pr_Added res + length (filter (\<lambda>rc. ''create'' \<in> set (ch_Actions (rc_Change rc))) live),
     pr_Changed = pr_Changed res + length (filter (\<lambda>rc. ''update'' \<in> set (ch_Actions (rc_Change rc))) live),
     pr_Destroyed = pr_Destroyed res + length (filter (\<lambda>rc. ''delete'' \<in> set (ch_Actions (rc_Change rc))) live),
     pr_Summary = pr_Summary res @ map (entryOf ff ma) (take room live),
     pr_Unmasked = (pr_Unmasked res \<or> (\<exists>rc \<in> set live. unmaskedRow ff rc)),
     pr_OmittedEntries = pr_OmittedEntries res + (length live - room),
     pr_OmittedAttrs = pr_OmittedAttrs res + sum_list (map (omittedOf ff ma) (take room live))\<rparr>)"
proof (induction changes arbitrary: res)
  case Nil
  show ?case by (simp add: liveChanges_def Let_def)
next
  case (Cons rc changes)
  show ?case
  proof (cases "skipped rc")
    case True
    then have "processStep ff me ma res rc = res" by (simp add: processStep_def)
    with True Cons show ?thesis by (simp add: liveChanges_def)
  next
    case False
    note st = processStep_live[OF False, of ff me ma res]
    show ?thesis
    proof (cases "me \<le> length (pr_Summary res)")
      case True
      with st Cons.prems False show ?thesis
        by (simp add: Cons.IH Let_def liveChanges_def)
    next
      case full: False
      then have "me - length (pr_Summary res) = Suc (me - Suc (length (pr_Summary res)))" by simp
      with st full False show ?thesis
        by (simp add: Cons.IH Let_def liveChanges_def)
    qed
  qed
qed

lemma processChanges_spec:
  "processChanges ff changes me ma =
   (let live = liveChanges changes in
    \<lparr>pr_Added = length (filter (\<lambda>rc. ''create'' \<in> set (ch_Actions (rc_Change rc))) live),
     pr_Changed = length (filter (\<lambda>rc. ''update'' \<in> set (ch_Actions (rc_Change rc))) live),
     pr_Destroyed = length (filter (\<lambda>rc. ''delete'' \<in> set (ch_Actions (rc_Change rc))) live),
     pr_Summary = map (entryOf ff ma) (take me live),
     pr_Unmasked = (\<exists>rc \<in> set live. unmaskedRow ff rc),
     pr_OmittedEntries = length live - me,
     pr_OmittedAttrs = sum_list (map (omittedOf ff ma) (take me live))\<rparr>)"
  by (simp add: processChanges_def foldl_processStep emptyProcessed_def Let_def)

lemma sum_list_zeroD: "sum_list (map f xs) = (0::nat) \<Longrightarrow> x \<in> set xs \<Longrightarrow> f x = 0"
  by simp

lemma omittedOf_bound: "length (fst (changedAttrs ff ch n)) \<le> n"
  by (cases "asObject (ch_Before ch)"; cases "asObject (ch_After ch)")
    (simp_all add: changedAttrs_spec changedAttrs_none)

section \<open>What the summary promises\<close>

text \<open>The counts of a plan are those of all its changes that are neither no-ops nor
  reads, whatever the bound on the rows: a bounded summary never makes a drifted plan look
  clean. The rows are the first changes in the order of the plan, at most the bound, and rows
  and omitted rows together are exactly the changes.\<close>

theorem plan_counts_independent_of_bounds:
  "let r = processChanges ff changes maxEntries maxAttrs;
       live = filter (\<lambda>rc. ch_Actions (rc_Change rc) \<noteq> [''no-op''] \<and> ch_Actions (rc_Change rc) \<noteq> [''read'']) changes
   in pr_Added r = length (filter (\<lambda>rc. ''create'' \<in> set (ch_Actions (rc_Change rc))) live)
    \<and> pr_Changed r = length (filter (\<lambda>rc. ''update'' \<in> set (ch_Actions (rc_Change rc))) live)
    \<and> pr_Destroyed r = length (filter (\<lambda>rc. ''delete'' \<in> set (ch_Actions (rc_Change rc))) live)
    \<and> map se_Address (pr_Summary r) = map rc_Address (take maxEntries live)
    \<and> map se_Actions (pr_Summary r) = map (ch_Actions \<circ> rc_Change) (take maxEntries live)
    \<and> length (pr_Summary r) \<le> maxEntries
    \<and> length (pr_Summary r) + pr_OmittedEntries r = length live"
  by (simp add: processChanges_spec Let_def liveChanges_def skipped_def entryOf_def comp_def)

text \<open>For a change with both objects present, the attributes listed are the first that
  differ, in strictly ascending order of name and at most the bound; those not listed are
  counted; and a listed value is the text of the attribute, or the mask when either side of the
  change marks it sensitive.\<close>

theorem changed_attrs_correct:
  assumes "asObject (ch_Before ch) = Some before" "asObject (ch_After ch) = Some after"
    and "changedAttrs ff ch maxAttrs = (attrs, omitted, inPlace)"
  shows "inPlace \<and> length attrs \<le> maxAttrs
    \<and> sorted_wrt (<) (map at_Name attrs)
    \<and> card {k. canon ff (oget k before) \<noteq> canon ff (oget k after)} = length attrs + omitted
    \<and> (\<forall>a \<in> set attrs. canon ff (oget (at_Name a) before) \<noteq> canon ff (oget (at_Name a) after)
        \<and> (if isSens (ch_BeforeSensitive ch) (at_Name a) \<or> isSens (ch_AfterSensitive ch) (at_Name a)
           then at_Before a = Some ''(sensitive)'' \<and> at_After a = Some ''(sensitive)''
           else at_Before a = fmtVal ff (oget (at_Name a) before) \<and> at_After a = fmtVal ff (oget (at_Name a) after)))"
proof -
  let ?D = "filter (differs ff before after) (sortedUnion before after)"
  from assms have attrs: "attrs = map (attrRow ff ch before after) (take maxAttrs ?D)"
    and om: "omitted = length ?D - maxAttrs" and ip: "inPlace"
    by (simp_all add: changedAttrs_spec)
  have names: "map at_Name attrs = take maxAttrs ?D"
    by (simp add: attrs comp_def attrRow_def if_distrib cong: if_cong)
  have sorted: "sorted_wrt (<) ?D"
    by (rule sorted_wrt_filter[OF sortedUnion_sorted])
  then have "distinct ?D" by (simp add: strict_sorted_iff)
  moreover have "set ?D = {k. canon ff (oget k before) \<noteq> canon ff (oget k after)}"
    by (rule differing_keys)
  ultimately have card: "card {k. canon ff (oget k before) \<noteq> canon ff (oget k after)} = length ?D"
    by (metis distinct_card)
  have "canon ff (oget (at_Name a) before) \<noteq> canon ff (oget (at_Name a) after)
        \<and> (if isSens (ch_BeforeSensitive ch) (at_Name a) \<or> isSens (ch_AfterSensitive ch) (at_Name a)
           then at_Before a = Some ''(sensitive)'' \<and> at_After a = Some ''(sensitive)''
           else at_Before a = fmtVal ff (oget (at_Name a) before) \<and> at_After a = fmtVal ff (oget (at_Name a) after))"
    if "a \<in> set attrs" for a
  proof -
    from that obtain k where a: "a = attrRow ff ch before after k" and "k \<in> set ?D"
      unfolding attrs by (auto dest: in_set_takeD)
    then have "differs ff before after k" by simp
    moreover from a have "at_Name a = k" by (simp add: attrRow_def)
    ultimately show ?thesis unfolding a by (simp add: differs_def attrRow_def sensitiveIn_def)
  qed
  moreover have "length attrs + omitted = length ?D" "length attrs \<le> maxAttrs" unfolding attrs om by simp_all
  moreover have "sorted_wrt (<) (map at_Name attrs)" unfolding names by (rule sorted_wrt_take[OF sorted])
  ultimately show ?thesis using ip card by simp
qed

theorem changed_attrs_correct_witness:
  "\<exists>attrs. changedAttrs (\<lambda>_. ''0'')
      \<lparr>ch_Actions = [''update''],
       ch_Before = Some (JObj [(''name'', JStr ''a''), (''pw'', JStr ''x''), (''size'', JStr ''s'')]),
       ch_After = Some (JObj [(''name'', JStr ''b''), (''pw'', JStr ''y''), (''size'', JStr ''s'')]),
       ch_BeforeSensitive = None, ch_AfterSensitive = Some (JObj [(''pw'', JBool True)])\<rparr> 50 = (attrs, 0, True)
    \<and> sorted_wrt (<) (map at_Name attrs) \<and> length attrs = 2"
proof -
  let ?ch = "\<lparr>ch_Actions = [''update''],
       ch_Before = Some (JObj [(''name'', JStr ''a''), (''pw'', JStr ''x''), (''size'', JStr ''s'')]),
       ch_After = Some (JObj [(''name'', JStr ''b''), (''pw'', JStr ''y''), (''size'', JStr ''s'')]),
       ch_BeforeSensitive = None, ch_AfterSensitive = Some (JObj [(''pw'', JBool True)])\<rparr>"
  let ?r = "changedAttrs (\<lambda>_. ''0'') ?ch 50"
  have b: "asObject (ch_Before ?ch) = Some [(''name'', JStr ''a''), (''pw'', JStr ''x''), (''size'', JStr ''s'')]"
    by code_simp
  have a: "asObject (ch_After ?ch) = Some [(''name'', JStr ''b''), (''pw'', JStr ''y''), (''size'', JStr ''s'')]"
    by code_simp
  have e: "length (fst ?r) = 2 \<and> fst (snd ?r) = 0 \<and> snd (snd ?r)" by code_simp
  have r: "?r = (fst ?r, fst (snd ?r), snd (snd ?r))" by simp
  show ?thesis using changed_attrs_correct[OF b a r] e r by (intro exI[of _ "fst ?r"]) simp
qed

text \<open>C3: A masked value never reaches the summary: two changes that agree outside the
  attributes marked sensitive, and on which attributes differ, have the same attribute rows,
  whatever the masked values are.\<close>

theorem masked_values_do_not_flow:
  assumes "asObject (ch_Before ch) = Some b1" "asObject (ch_After ch) = Some a1"
    and "asObject before2 = Some b2" "asObject after2 = Some a2"
    and "\<And>k. \<not> isSens (ch_BeforeSensitive ch) k \<Longrightarrow> \<not> isSens (ch_AfterSensitive ch) k \<Longrightarrow>
           oget k b1 = oget k b2 \<and> oget k a1 = oget k a2"
    and "\<And>k. jsonEqual ff (oget k b1) (oget k a1) = jsonEqual ff (oget k b2) (oget k a2)"
  shows "changedAttrs ff (ch\<lparr>ch_Before := before2, ch_After := after2\<rparr>) maxAttrs = changedAttrs ff ch maxAttrs"
proof -
  let ?D1 = "filter (differs ff b1 a1) (sortedUnion b1 a1)"
  let ?D2 = "filter (differs ff b2 a2) (sortedUnion b2 a2)"
  have same: "differs ff b1 a1 = differs ff b2 a2"
    using assms(6) by (auto simp: differs_def jsonEqual_def)
  have "set ?D1 = {k. differs ff b1 a1 k}" "set ?D2 = {k. differs ff b2 a2 k}"
    using differing_keys[of ff b1 a1] differing_keys[of ff b2 a2] by (simp_all add: differs_def)
  moreover have "sorted_wrt (<) ?D1" "sorted_wrt (<) ?D2"
    by (rule sorted_wrt_filter[OF sortedUnion_sorted])+
  ultimately have D: "?D1 = ?D2" using same by (metis strict_sorted_equal)
  have rows: "attrRow ff (ch\<lparr>ch_Before := before2, ch_After := after2\<rparr>) b2 a2 k = attrRow ff ch b1 a1 k" for k
    using assms(5)[of k] by (auto simp: attrRow_def sensitiveIn_def)
  show ?thesis using assms(1-4) D
    by (simp add: changedAttrs_spec rows cong: map_cong)
qed

theorem masked_values_do_not_flow_witness:
  "changedAttrs (\<lambda>_. ''0'')
     (\<lparr>ch_Actions = [''update''], ch_Before = Some (JObj [(''pw'', JStr ''old'')]),
       ch_After = Some (JObj [(''pw'', JStr ''new'')]),
       ch_BeforeSensitive = None, ch_AfterSensitive = Some (JBool True)\<rparr>
      \<lparr>ch_Before := Some (JObj [(''pw'', JStr ''hunter2'')]), ch_After := Some (JObj [(''pw'', JStr ''s3cret'')])\<rparr>) 50 =
   changedAttrs (\<lambda>_. ''0'')
     \<lparr>ch_Actions = [''update''], ch_Before = Some (JObj [(''pw'', JStr ''old'')]),
       ch_After = Some (JObj [(''pw'', JStr ''new'')]),
       ch_BeforeSensitive = None, ch_AfterSensitive = Some (JBool True)\<rparr> 50"
proof (rule masked_values_do_not_flow[where ?b1.0 = "[(''pw'', JStr ''old'')]" and ?a1.0 = "[(''pw'', JStr ''new'')]"
      and ?b2.0 = "[(''pw'', JStr ''hunter2'')]" and ?a2.0 = "[(''pw'', JStr ''s3cret'')]"])
  have "canon (\<lambda>_. ''0'') (Some (JStr ''old'')) \<noteq> canon (\<lambda>_. ''0'') (Some (JStr ''new''))"
    "canon (\<lambda>_. ''0'') (Some (JStr ''hunter2'')) \<noteq> canon (\<lambda>_. ''0'') (Some (JStr ''s3cret''))"
    by code_simp+
  then show "jsonEqual (\<lambda>_. ''0'') (oget k [(''pw'', JStr ''old'')]) (oget k [(''pw'', JStr ''new'')]) =
      jsonEqual (\<lambda>_. ''0'') (oget k [(''pw'', JStr ''hunter2'')]) (oget k [(''pw'', JStr ''s3cret'')])" for k
    by (simp add: jsonEqual_def oget_def)
qed (simp_all add: isSens_def asObject_def, code_simp+)

lemma complete_row:
  assumes "\<not> planTruncated (summarize ff (Some pl))"
    and "rc \<in> set (nilList (pl_ResourceChanges pl))" "\<not> skipped rc"
    and ob: "asObject (ch_Before (rc_Change rc)) = Some before" "asObject (ch_After (rc_Change rc)) = Some after"
  shows "\<exists>e \<in> set (rs_Summary (summarize ff (Some pl))). se_Address e = rc_Address rc
             \<and> set (map at_Name (se_Attrs e)) = {k. canon ff (oget k before) \<noteq> canon ff (oget k after)}"
proof -
  let ?live = "liveChanges (nilList (pl_ResourceChanges pl))"
  let ?e = "entryOf ff MaxAttrsPerEntry rc"
  from assms(2,3) have live: "rc \<in> set ?live" by (simp add: liveChanges_def)
  from assms(1) have all: "take MaxEntries ?live = ?live"
    and zero: "sum_list (map (omittedOf ff MaxAttrsPerEntry) (take MaxEntries ?live)) = 0"
    by (simp_all add: planTruncated_def summarize_def processChanges_spec Let_def)
  from zero live all have "omittedOf ff MaxAttrsPerEntry rc = 0" by simp
  with ob have "length (filter (differs ff before after) (sortedUnion before after)) \<le> MaxAttrsPerEntry"
    by (simp add: omittedOf_def changedAttrs_spec)
  with ob have "map at_Name (se_Attrs ?e) = filter (differs ff before after) (sortedUnion before after)"
    by (simp add: entryOf_def changedAttrs_spec comp_def attrRow_def if_distrib cong: if_cong)
  then have "set (map at_Name (se_Attrs ?e)) = {k. canon ff (oget k before) \<noteq> canon ff (oget k after)}"
    using differing_keys[of ff before after] by simp
  moreover have "?e \<in> set (rs_Summary (summarize ff (Some pl)))"
    using live all by (simp add: summarize_def processChanges_spec Let_def)
  ultimately show ?thesis
    by (intro bexI[of _ ?e]) (simp_all add: entryOf_def)
qed

text \<open>A summary that does not report itself truncated is complete: every change of the
  plan that is neither a no-op nor a read has its row, in the order of the plan, and the row of
  an in-place change lists every attribute that differs.\<close>

theorem untruncated_summary_complete:
  assumes "\<not> planTruncated (summarize ff (Some pl))"
  shows "map se_Address (rs_Summary (summarize ff (Some pl))) =
           map rc_Address (filter (\<lambda>rc. \<not> skipped rc) (nilList (pl_ResourceChanges pl)))
    \<and> (\<forall>rc \<in> set (nilList (pl_ResourceChanges pl)). \<forall>before after. \<not> skipped rc \<longrightarrow>
         asObject (ch_Before (rc_Change rc)) = Some before \<longrightarrow> asObject (ch_After (rc_Change rc)) = Some after \<longrightarrow>
         (\<exists>e \<in> set (rs_Summary (summarize ff (Some pl))). se_Address e = rc_Address rc
            \<and> set (map at_Name (se_Attrs e)) = {k. canon ff (oget k before) \<noteq> canon ff (oget k after)}))"
proof -
  from assms have "map se_Address (rs_Summary (summarize ff (Some pl))) =
           map rc_Address (filter (\<lambda>rc. \<not> skipped rc) (nilList (pl_ResourceChanges pl)))"
    by (simp add: planTruncated_def summarize_def processChanges_spec liveChanges_def Let_def entryOf_def comp_def)
  then show ?thesis using complete_row[OF assms] by blast
qed

definition examplePlan :: plan where
  "examplePlan = \<lparr>pl_ResourceChanges = Some
      [\<lparr>rc_Address = ''a.x'', rc_Change = \<lparr>ch_Actions = [''no-op''], ch_Before = None, ch_After = None,
         ch_BeforeSensitive = None, ch_AfterSensitive = None\<rparr>\<rparr>,
       \<lparr>rc_Address = ''a.y'', rc_Change = \<lparr>ch_Actions = [''update''], ch_Before = Some (JObj [(''n'', JStr ''1'')]),
         ch_After = Some (JObj [(''n'', JStr ''2'')]), ch_BeforeSensitive = None, ch_AfterSensitive = None\<rparr>\<rparr>],
     pl_ResourceDrift = None, pl_ModuleCalls = [(''vpc'', \<lparr>mc_Source = ''a/vpc/aws//sub'', mc_VersionConstraint = []\<rparr>)]\<rparr>"

theorem untruncated_summary_complete_witness:
  "map se_Address (rs_Summary (summarize (\<lambda>_. ''0'') (Some examplePlan))) = [''a.y'']"
proof -
  have "\<not> planTruncated (summarize (\<lambda>_. ''0'') (Some examplePlan))" by code_simp
  from untruncated_summary_complete[OF this] show ?thesis
    by (simp add: examplePlan_def skipped_def nilList_def)
qed

text \<open>Drift recorded by the refresh is additive: whatever a plan carries in
  \<open>resource_drift\<close>, its own counts, rows, masking and truncation marks and its verdict are those
  of the plan without it; the plan is unparseable exactly when it has no list of changes.\<close>

theorem resource_drift_is_additive:
  "let r = summarize ff (Some (pl\<lparr>pl_ResourceDrift := d\<rparr>)); r0 = summarize ff (Some pl) in
   rs_Added r = rs_Added r0 \<and> rs_Changed r = rs_Changed r0 \<and> rs_Destroyed r = rs_Destroyed r0
   \<and> rs_Summary r = rs_Summary r0 \<and> rs_Unmasked r = rs_Unmasked r0
   \<and> planTruncated r = planTruncated r0 \<and> planDrifted r = planDrifted r0
   \<and> rs_Unparseable r = (pl_ResourceChanges pl = None)
   \<and> rs_DriftSummary r = pr_Summary (processChanges ff (nilList d) MaxEntries MaxAttrsPerEntry)"
  by (simp add: summarize_def planTruncated_def planDrifted_def Let_def)

section \<open>What the module references promise\<close>

lemma registryModuleAddress_source:
  assumes "registryModuleAddress canonicalHost src = Some (host, source)"
  shows "length (splitOn CHR ''/'' source) = 3"
proof -
  let ?parts = "splitOn CHR ''/'' (beforeSubdir src)"
  have "length ?parts = 3 \<and> source = beforeSubdir src
      \<or> length ?parts = 4 \<and> source = joinWith ''/'' (drop 1 ?parts)"
    using assms by (auto simp: registryModuleAddress_def Let_def split: if_splits)
  moreover have "splitOn CHR ''/'' (joinWith ''/'' (drop 1 ?parts)) = drop 1 ?parts" if "length ?parts = 4"
    using that splitOn_no_sep[of "CHR ''/''" "beforeSubdir src"]
    by (intro split_join) (auto dest: in_set_dropD)
  ultimately show ?thesis by auto
qed

lemma callRefs_set:
  "set (callRefs canonicalHost locks cs) =
   {\<lparr>mr_ModuleSource = source, mr_RegistryHost = host, mr_ModuleVersion = lockedVersion locks host source\<rparr>
     |host source. \<exists>c \<in> set cs. registryModuleAddress canonicalHost (mc_Source c) = Some (host, source)}"
proof (induction cs)
  case (Cons c cs)
  then show ?case
    by (cases "registryModuleAddress canonicalHost (mc_Source c)") auto
qed simp

lemma fold_addLock:
  "oget key (fold (addLock canonicalHost) entries m) =
   (case filter (\<lambda>e. le_Version e \<noteq> [] \<and> map_option (\<lambda>(h, s). lockKey h s) (registryModuleAddress canonicalHost (le_Source e)) = Some key) (rev entries) of
      [] \<Rightarrow> oget key m | e # _ \<Rightarrow> Some (le_Version e))"
proof (induction entries arbitrary: m rule: rev_induct)
  case (snoc e es)
  then show ?case
    by (cases "registryModuleAddress canonicalHost (le_Source e)") (auto simp: addLock_def)
qed simp

lemma lockedVersion_lockFile:
  assumes "decodeLockFile j = Some entries"
  shows "lockedVersion (parseModuleLocks canonicalHost (Doc j)) host source =
    (case filter (\<lambda>e. le_Version e \<noteq> [] \<and>
            (\<exists>h s. registryModuleAddress canonicalHost (le_Source e) = Some (h, s)
               \<and> lockKey h s = lockKey host source)) (rev entries) of
       [] \<Rightarrow> None | e # _ \<Rightarrow> Some (le_Version e))"
proof -
  let ?P = "\<lambda>e. le_Version e \<noteq> [] \<and> map_option (\<lambda>(h, s). lockKey h s)
      (registryModuleAddress canonicalHost (le_Source e)) = Some (lockKey host source)"
  have P: "?P = (\<lambda>e. le_Version e \<noteq> [] \<and> (\<exists>h s. registryModuleAddress canonicalHost (le_Source e) = Some (h, s)
               \<and> lockKey h s = lockKey host source))"
    by (auto simp: fun_eq_iff)
  have look: "oget (lockKey host source) (fold (addLock canonicalHost) entries []) =
      (case filter ?P (rev entries) of [] \<Rightarrow> None | e # _ \<Rightarrow> Some (le_Version e))"
    by (subst fold_addLock) (simp only: oget_Nil)
  have nonempty: "le_Version e \<noteq> []" if "filter ?P (rev entries) = e # es" for e es
  proof -
    have "e \<in> set (filter ?P (rev entries))" unfolding that by simp
    then show ?thesis by simp
  qed
  have "lockedVersion (parseModuleLocks canonicalHost (Doc j)) host source =
      (case filter ?P (rev entries) of [] \<Rightarrow> None | e # _ \<Rightarrow> Some (le_Version e))"
  proof (cases "filter ?P (rev entries)")
    case Nil
    with look show ?thesis unfolding Nil
      by (simp add: lockedVersion_def parseModuleLocks_def assms Let_def)
  next
    case (Cons e es)
    from look have "oget (lockKey host source) (fold (addLock canonicalHost) entries []) = Some (le_Version e)"
      unfolding Cons by simp
    moreover from this have "fold (addLock canonicalHost) entries [] \<noteq> []" by auto
    ultimately show ?thesis using nonempty[OF Cons] unfolding Cons
      by (simp add: lockedVersion_def parseModuleLocks_def assms Let_def)
  qed
  then show ?thesis unfolding P .
qed

text \<open>The references of a plan are exactly its calls of registry modules, each a namespace,
  name and provider whatever submodule is selected; and with the lock file of the same run a
  reference carries the version of the last entry that names the same module, no version when
  none does.\<close>

theorem module_refs_correct:
  "moduleRefs canonicalHost (Some pl) (parseModuleLocks canonicalHost raw) = refs \<Longrightarrow>
   decodeLockFile j = Some entries \<Longrightarrow> raw = Doc j \<Longrightarrow>
   {(mr_RegistryHost r, mr_ModuleSource r) |r. r \<in> set refs} =
     {a. \<exists>c \<in> snd ` set (pl_ModuleCalls pl). registryModuleAddress canonicalHost (mc_Source c) = Some a}
   \<and> (\<forall>r \<in> set refs. length (splitOn CHR ''/'' (mr_ModuleSource r)) = 3
       \<and> mr_ModuleVersion r =
           (case filter (\<lambda>e. le_Version e \<noteq> [] \<and>
                   (\<exists>h s. registryModuleAddress canonicalHost (le_Source e) = Some (h, s)
                      \<and> lockKey h s = lockKey (mr_RegistryHost r) (mr_ModuleSource r))) (rev entries) of
              [] \<Rightarrow> None | e # _ \<Rightarrow> Some (le_Version e)))"
proof (intro conjI ballI)
  assume refs: "moduleRefs canonicalHost (Some pl) (parseModuleLocks canonicalHost raw) = refs"
    and dec: "decodeLockFile j = Some entries" and raw: "raw = Doc j"
  let ?locks = "parseModuleLocks canonicalHost raw"
  have set: "set refs = {\<lparr>mr_ModuleSource = source, mr_RegistryHost = host, mr_ModuleVersion = lockedVersion ?locks host source\<rparr>
     |host source. \<exists>c \<in> snd ` set (pl_ModuleCalls pl). registryModuleAddress canonicalHost (mc_Source c) = Some (host, source)}"
    using refs[symmetric] by (simp add: moduleRefs_def callRefs_set)
  show "{(mr_RegistryHost r, mr_ModuleSource r) |r. r \<in> set refs} =
     {a. \<exists>c \<in> snd ` set (pl_ModuleCalls pl). registryModuleAddress canonicalHost (mc_Source c) = Some a}"
    unfolding set by force
  fix r assume r: "r \<in> set refs"
  from r obtain c :: moduleCall where "registryModuleAddress canonicalHost (mc_Source c) = Some (mr_RegistryHost r, mr_ModuleSource r)"
    and ver: "mr_ModuleVersion r = lockedVersion ?locks (mr_RegistryHost r) (mr_ModuleSource r)"
    unfolding set by auto
  then show "length (splitOn CHR ''/'' (mr_ModuleSource r)) = 3"
    by (simp add: registryModuleAddress_source)
  show "mr_ModuleVersion r =
           (case filter (\<lambda>e. le_Version e \<noteq> [] \<and>
                   (\<exists>h s. registryModuleAddress canonicalHost (le_Source e) = Some (h, s)
                      \<and> lockKey h s = lockKey (mr_RegistryHost r) (mr_ModuleSource r))) (rev entries) of
              [] \<Rightarrow> None | e # _ \<Rightarrow> Some (le_Version e))"
    unfolding ver by (simp add: raw dec lockedVersion_lockFile)
qed

definition exampleLockFile :: json where
  "exampleLockFile = JObj [(''Modules'', JArr
     [JObj [(''Source'', JStr ''''), (''Version'', JStr '''')],
      JObj [(''Source'', JStr ''a/vpc/aws''), (''Version'', JStr ''1.2.0'')]])]"

theorem module_refs_correct_witness:
  "length (splitOn CHR ''/'' (mr_ModuleSource (hd
     (moduleRefs (\<lambda>h. h) (Some examplePlan) (parseModuleLocks (\<lambda>h. h) (Doc exampleLockFile)))))) = 3"
proof -
  let ?refs = "moduleRefs (\<lambda>h. h) (Some examplePlan) (parseModuleLocks (\<lambda>h. h) (Doc exampleLockFile))"
  have "decodeLockFile exampleLockFile =
      Some [\<lparr>le_Source = [], le_Version = []\<rparr>, \<lparr>le_Source = ''a/vpc/aws'', le_Version = ''1.2.0''\<rparr>]"
    by (simp add: exampleLockFile_def decodeLockFile_def decodeLockEntry_def fieldOr_def structField_def foldEq_def)
  moreover have "hd ?refs \<in> set ?refs"
  proof -
    have "length ?refs = 1" by code_simp
    then show ?thesis by (cases ?refs) auto
  qed
  ultimately show ?thesis using module_refs_correct[OF refl _ refl] by blast
qed
end
