(* ===== verification/AppRoles.thy ===== *)
theory AppRoles
  imports Prelude "HOL-Library.Product_Lexorder"
begin

text \<open>
  \<open>internal/approles\<close>: this application's own record of who holds which role. \<open>Store\<close> is the two
  tables, \<open>Members\<close> writes them beside the shared identity store, \<open>CheckDrift\<close> compares the two
  records and \<open>Reconcile\<close> makes them agree at boot.

  The identity store is a module outside the repository: its rows and the outcomes of its calls
  are arguments, and so are its \<open>OrgScope\<close> (the organizations a statement may touch, a
  predicate) and \<open>AuthorityRetained\<close>. Statements of this application's database fail as the
  argument \<open>flt\<close> says. Ids are uuids in their text form, whose order is the order of the uuids.
\<close>

section \<open>The tables\<close>

record roleTemplate =
  rt_ID :: string
  rt_Name :: string
  rt_DisplayName :: string
  rt_Description :: "string option"
  rt_Scopes :: "string list"
  rt_IsSystem :: bool

record assignment =
  as_Org :: string
  as_User :: string
  as_Role :: "string option"
  as_MirroredAt :: int

record roleStore =
  st_Templates :: "roleTemplate list"
  st_Assignments :: "assignment list"

type_synonym orgScope = "string \<Rightarrow> bool"

datatype storeStmt =
    StmtVerify
  | StmtGeneration
  | StmtList
  | StmtRelist
  | StmtHolders string
  | StmtDefine string
  | StmtTemplate
  | StmtSet
  | StmtConfirm string string
  | StmtDelete
  | StmtDeleteAgain
  | StmtSweep
  | StmtRead

definition isPair :: "string \<Rightarrow> string \<Rightarrow> assignment \<Rightarrow> bool" where
  "isPair org user a = (as_Org a = org \<and> as_User a = user)"

text \<open>\<open>INSERT .. ON CONFLICT (organization_id, user_id) DO UPDATE\<close> under \<open>andScope\<close>.\<close>

definition setRole :: "string \<Rightarrow> string \<Rightarrow> string option \<Rightarrow> orgScope \<Rightarrow> int \<Rightarrow> roleStore \<Rightarrow> roleStore" where
  "setRole org user role scope now s =
     (if \<not> scope org then s
      else if \<exists>a \<in> set (st_Assignments s). isPair org user a
      then s\<lparr>st_Assignments := map (\<lambda>a. if isPair org user a then a\<lparr>as_Role := role, as_MirroredAt := now\<rparr> else a)
               (st_Assignments s)\<rparr>
      else s\<lparr>st_Assignments := st_Assignments s @ [\<lparr>as_Org = org, as_User = user, as_Role = role, as_MirroredAt = now\<rparr>]\<rparr>)"

definition confirmMembership :: "string \<Rightarrow> string \<Rightarrow> orgScope \<Rightarrow> int \<Rightarrow> roleStore \<Rightarrow> roleStore" where
  "confirmMembership org user scope now s =
     (if \<not> scope org then s
      else if \<exists>a \<in> set (st_Assignments s). isPair org user a
      then s\<lparr>st_Assignments := map (\<lambda>a. if isPair org user a then a\<lparr>as_MirroredAt := now\<rparr> else a) (st_Assignments s)\<rparr>
      else s\<lparr>st_Assignments := st_Assignments s @ [\<lparr>as_Org = org, as_User = user, as_Role = None, as_MirroredAt = now\<rparr>]\<rparr>)"

definition deleteWhere :: "(assignment \<Rightarrow> bool) \<Rightarrow> orgScope \<Rightarrow> roleStore \<Rightarrow> roleStore" where
  "deleteWhere p scope s = s\<lparr>st_Assignments := filter (\<lambda>a. \<not> (p a \<and> scope (as_Org a))) (st_Assignments s)\<rparr>"

definition deleteRole :: "string \<Rightarrow> string \<Rightarrow> orgScope \<Rightarrow> roleStore \<Rightarrow> roleStore" where
  "deleteRole org user = deleteWhere (isPair org user)"

definition deleteRolesForUser :: "string \<Rightarrow> orgScope \<Rightarrow> roleStore \<Rightarrow> roleStore" where
  "deleteRolesForUser user = deleteWhere (\<lambda>a. as_User a = user)"

definition deleteRolesForOrganization :: "string \<Rightarrow> orgScope \<Rightarrow> roleStore \<Rightarrow> roleStore" where
  "deleteRolesForOrganization org = deleteWhere (\<lambda>a. as_Org a = org)"

definition sweepStaleAssignments :: "int \<Rightarrow> orgScope \<Rightarrow> roleStore \<Rightarrow> nat \<times> roleStore" where
  "sweepStaleAssignments generation scope s =
     (let s' = deleteWhere (\<lambda>a. as_MirroredAt a < generation) scope s
      in (length (st_Assignments s) - length (st_Assignments s'), s'))"

definition holdersOfTemplate :: "string \<Rightarrow> orgScope \<Rightarrow> roleStore \<Rightarrow> string list" where
  "holdersOfTemplate tid scope s =
     remdups (map as_User (filter (\<lambda>a. as_Role a = Some tid \<and> scope (as_Org a)) (st_Assignments s)))"

definition templateByID :: "string \<Rightarrow> roleStore \<Rightarrow> roleTemplate option" where
  "templateByID i s = List.find (\<lambda>t. rt_ID t = i) (st_Templates s)"

definition templateByName :: "string \<Rightarrow> roleStore \<Rightarrow> roleTemplate option" where
  "templateByName n s = List.find (\<lambda>t. rt_Name t = n) (st_Templates s)"

definition templateIDByName :: "string \<Rightarrow> roleStore \<Rightarrow> string option" where
  "templateIDByName n s = map_option rt_ID (templateByName n s)"

text \<open>\<open>ON CONFLICT (name)\<close>: an existing template keeps its id; \<open>newID\<close> is the uuid drawn for a new
  one that carries none.\<close>

definition defineTemplate :: "string \<Rightarrow> roleTemplate \<Rightarrow> roleStore \<Rightarrow> roleStore" where
  "defineTemplate newID t s =
     (if \<exists>u \<in> set (st_Templates s). rt_Name u = rt_Name t
      then s\<lparr>st_Templates := map (\<lambda>u. if rt_Name u = rt_Name t
               then u\<lparr>rt_DisplayName := rt_DisplayName t, rt_Description := rt_Description t,
                      rt_Scopes := rt_Scopes t, rt_IsSystem := rt_IsSystem t\<rparr> else u) (st_Templates s)\<rparr>
      else s\<lparr>st_Templates := st_Templates s @ [if rt_ID t = [] then t\<lparr>rt_ID := newID\<rparr> else t]\<rparr>)"

text \<open>\<open>ON CONFLICT (id)\<close>: the row of the id is rewritten, its name included; a name another row has
  violates the constraint, None.\<close>

definition upsertTemplate :: "roleTemplate \<Rightarrow> roleStore \<Rightarrow> roleStore option" where
  "upsertTemplate t s =
     (if \<exists>u \<in> set (st_Templates s). rt_ID u \<noteq> rt_ID t \<and> rt_Name u = rt_Name t then None
      else if \<exists>u \<in> set (st_Templates s). rt_ID u = rt_ID t
      then Some (s\<lparr>st_Templates := map (\<lambda>u. if rt_ID u = rt_ID t then t else u) (st_Templates s)\<rparr>)
      else Some (s\<lparr>st_Templates := st_Templates s @ [t]\<rparr>))"

record role =
  ro_TemplateID :: "string option"
  ro_Name :: "string option"
  ro_DisplayName :: "string option"
  ro_Scopes :: "string list"

definition noRole :: role where
  "noRole = \<lparr>ro_TemplateID = None, ro_Name = None, ro_DisplayName = None, ro_Scopes = []\<rparr>"

text \<open>The row of the \<open>LEFT JOIN\<close>.\<close>

definition joinRole :: "roleStore \<Rightarrow> assignment \<Rightarrow> role" where
  "joinRole s a =
     (case as_Role a of
        None \<Rightarrow> noRole
      | Some tid \<Rightarrow>
          (case templateByID tid s of
             None \<Rightarrow> noRole\<lparr>ro_TemplateID := Some tid\<rparr>
           | Some t \<Rightarrow> \<lparr>ro_TemplateID = Some tid, ro_Name = Some (rt_Name t), ro_DisplayName = Some (rt_DisplayName t),
                        ro_Scopes = rt_Scopes t\<rparr>))"

definition roleForPair :: "string \<Rightarrow> string \<Rightarrow> orgScope \<Rightarrow> roleStore \<Rightarrow> role option" where
  "roleForPair org user scope s =
     map_option (joinRole s) (List.find (\<lambda>a. isPair org user a \<and> scope (as_Org a)) (st_Assignments s))"

text \<open>The map a query of \<open>rolesByKey\<close> builds; a later row of a key replaces an earlier one.\<close>

definition rolesForUser :: "string \<Rightarrow> orgScope \<Rightarrow> roleStore \<Rightarrow> string \<Rightarrow> role option" where
  "rolesForUser user scope s org =
     map_option (joinRole s) (List.find (\<lambda>a. isPair org user a \<and> scope (as_Org a)) (rev (st_Assignments s)))"

definition rolesForOrganization :: "string \<Rightarrow> orgScope \<Rightarrow> roleStore \<Rightarrow> string \<Rightarrow> role option" where
  "rolesForOrganization org scope s user =
     map_option (joinRole s) (List.find (\<lambda>a. isPair org user a \<and> scope (as_Org a)) (rev (st_Assignments s)))"

section \<open>Comparing the two records\<close>

datatype driftKind = DriftMissing | DriftStale | DriftMismatched

record driftRecord =
  dr_Kind :: driftKind
  dr_OrganizationID :: string
  dr_UserID :: string
  dr_IdentityRole :: string
  dr_AppRole :: string

record driftResult =
  df_Compared :: nat
  df_Missing :: nat
  df_Stale :: nat
  df_Mismatched :: nat
  df_Sample :: "driftRecord list"

definition driftSampleLimit :: nat where "driftSampleLimit = 50"

text \<open>A cursor is the rows still to read, a pair and its role (the empty text for NULL), and
  whether reading past the last of them fails.\<close>

type_synonym cursorRow = "(string \<times> string) \<times> string"

definition recordDrift :: "driftRecord \<Rightarrow> driftResult \<Rightarrow> driftResult" where
  "recordDrift d r = (if length (df_Sample r) < driftSampleLimit then r\<lparr>df_Sample := df_Sample r @ [d]\<rparr> else r)"

definition staleRow :: "cursorRow \<Rightarrow> driftResult \<Rightarrow> driftResult" where
  "staleRow x r = recordDrift \<lparr>dr_Kind = DriftStale, dr_OrganizationID = fst (fst x), dr_UserID = snd (fst x),
      dr_IdentityRole = [], dr_AppRole = snd x\<rparr> (r\<lparr>df_Compared := Suc (df_Compared r), df_Stale := Suc (df_Stale r)\<rparr>)"

definition missingRow :: "cursorRow \<Rightarrow> driftResult \<Rightarrow> driftResult" where
  "missingRow x r = recordDrift \<lparr>dr_Kind = DriftMissing, dr_OrganizationID = fst (fst x), dr_UserID = snd (fst x),
      dr_IdentityRole = snd x, dr_AppRole = []\<rparr> (r\<lparr>df_Compared := Suc (df_Compared r), df_Missing := Suc (df_Missing r)\<rparr>)"

definition bothRow :: "cursorRow \<Rightarrow> cursorRow \<Rightarrow> driftResult \<Rightarrow> driftResult" where
  "bothRow x y r0 =
     (let r = r0\<lparr>df_Compared := Suc (df_Compared r0)\<rparr>
      in if snd x \<noteq> snd y
         then recordDrift \<lparr>dr_Kind = DriftMismatched, dr_OrganizationID = fst (fst x), dr_UserID = snd (fst x),
                dr_IdentityRole = snd x, dr_AppRole = snd y\<rparr> (r\<lparr>df_Mismatched := Suc (df_Mismatched r)\<rparr>)
         else r)"

datatype driftErr = ReadingIdentity | ReadingApp

function driftLoop :: "bool \<Rightarrow> bool \<Rightarrow> cursorRow list \<Rightarrow> cursorRow list \<Rightarrow> driftResult \<Rightarrow> driftErr + driftResult" where
  "driftLoop lf rf ls rs r =
     (if ls = [] \<and> lf then Inl ReadingIdentity
      else if rs = [] \<and> rf then Inl ReadingApp
      else (case (ls, rs) of
              ([], []) \<Rightarrow> Inr r
            | ([], y # ys) \<Rightarrow> driftLoop lf rf [] ys (staleRow y r)
            | (x # xs, []) \<Rightarrow> driftLoop lf rf xs [] (missingRow x r)
            | (x # xs, y # ys) \<Rightarrow>
                if fst y < fst x then driftLoop lf rf (x # xs) ys (staleRow y r)
                else if fst x < fst y then driftLoop lf rf xs (y # ys) (missingRow x r)
                else driftLoop lf rf xs ys (bothRow x y r)))"
  by pat_completeness auto
termination
  by (relation "measure (\<lambda>(lf, rf, ls, rs, r). length ls + length rs)") auto

definition emptyDrift :: driftResult where
  "emptyDrift = \<lparr>df_Compared = 0, df_Missing = 0, df_Stale = 0, df_Mismatched = 0, df_Sample = []\<rparr>"

text \<open>The two queries order by the pair; an assignment without role reads as the empty text.\<close>

definition assignmentRows :: "roleStore \<Rightarrow> cursorRow list" where
  "assignmentRows s = sort_key fst (map (\<lambda>a. ((as_Org a, as_User a), case as_Role a of None \<Rightarrow> [] | Some t \<Rightarrow> t)) (st_Assignments s))"

definition checkDrift :: "bool \<Rightarrow> bool \<Rightarrow> cursorRow list \<Rightarrow> roleStore \<Rightarrow> driftErr + driftResult" where
  "checkDrift lf rf identityRows s = driftLoop lf rf (sort_key fst identityRows) (assignmentRows s) emptyDrift"

definition assignmentDrift :: "driftResult \<Rightarrow> nat" where
  "assignmentDrift r = df_Missing r + df_Stale r + df_Mismatched r"

definition cleanDrift :: "driftResult \<Rightarrow> bool" where
  "cleanDrift r = (assignmentDrift r = 0)"

section \<open>The merge is the comparison of the sets\<close>

definition onlyIn :: "cursorRow list \<Rightarrow> cursorRow list \<Rightarrow> nat" where
  "onlyIn xs ys = length (filter (\<lambda>x. fst x \<notin> fst ` set ys) xs)"

definition disagree :: "cursorRow list \<Rightarrow> cursorRow list \<Rightarrow> nat" where
  "disagree xs ys = length (filter (\<lambda>x. \<exists>y \<in> set ys. fst y = fst x \<and> snd y \<noteq> snd x) xs)"

definition inBoth :: "cursorRow list \<Rightarrow> cursorRow list \<Rightarrow> nat" where
  "inBoth xs ys = length (filter (\<lambda>x. fst x \<in> fst ` set ys) xs)"

abbreviation ascending :: "cursorRow list \<Rightarrow> bool" where
  "ascending xs \<equiv> sorted_wrt (<) (map fst xs)"

lemma driftLoop_simps:
  "driftLoop False False [] [] r = Inr r"
  "driftLoop False False [] (y # ys) r = driftLoop False False [] ys (staleRow y r)"
  "driftLoop False False (x # xs) [] r = driftLoop False False xs [] (missingRow x r)"
  "driftLoop False False (x # xs) (y # ys) r =
     (if fst y < fst x then driftLoop False False (x # xs) ys (staleRow y r)
      else if fst x < fst y then driftLoop False False xs (y # ys) (missingRow x r)
      else driftLoop False False xs ys (bothRow x y r))"
  by (subst driftLoop.simps, simp)+

declare driftLoop.simps [simp del]

lemma counts_Nil [simp]:
  "onlyIn [] ys = 0" "onlyIn xs [] = length xs" "inBoth [] ys = 0" "inBoth xs [] = 0"
  "disagree [] ys = 0" "disagree xs [] = 0"
  by (simp_all add: onlyIn_def inBoth_def disagree_def)

lemma other_key:
  assumes "fst y \<notin> fst ` set xs"
  shows "onlyIn xs (y # ys) = onlyIn xs ys" "inBoth xs (y # ys) = inBoth xs ys" "disagree xs (y # ys) = disagree xs ys"
  using assms by (induction xs) (auto simp: onlyIn_def inBoth_def disagree_def)

lemma unmatched_key:
  assumes "fst x \<notin> fst ` set ys"
  shows "onlyIn (x # xs) ys = Suc (onlyIn xs ys)" "inBoth (x # xs) ys = inBoth xs ys" "disagree (x # xs) ys = disagree xs ys"
proof -
  have "\<not> (\<exists>y \<in> set ys. fst y = fst x \<and> snd y \<noteq> snd x)" using assms by (metis image_eqI)
  then show "disagree (x # xs) ys = disagree xs ys" by (simp add: disagree_def)
qed (use assms in \<open>simp_all add: onlyIn_def inBoth_def\<close>)

lemma smaller_is_other: "fst y < fst x \<Longrightarrow> ascending (x # xs) \<Longrightarrow> fst y \<notin> fst ` set (x # xs)"
  by fastforce

lemmas counts_left_smaller = other_key[OF smaller_is_other] unmatched_key(1)[OF smaller_is_other]
lemmas counts_right_smaller = unmatched_key[OF smaller_is_other] other_key(1)[OF smaller_is_other]

lemma counts_same:
  assumes "fst x = fst y" "ascending (x # xs)" "ascending (y # ys)"
  shows "onlyIn (x # xs) (y # ys) = onlyIn xs ys" "onlyIn (y # ys) (x # xs) = onlyIn ys xs"
    "inBoth (x # xs) (y # ys) = Suc (inBoth xs ys)"
    "disagree (x # xs) (y # ys) = (if snd x \<noteq> snd y then 1 else 0) + disagree xs ys"
proof -
  have nx: "fst y \<notin> fst ` set xs" using assms by fastforce
  have ny: "fst x \<notin> fst ` set ys" using assms by fastforce
  have "onlyIn (x # xs) (y # ys) = onlyIn xs (y # ys)" using assms(1) by (simp add: onlyIn_def)
  then show "onlyIn (x # xs) (y # ys) = onlyIn xs ys" by (simp add: other_key[OF nx])
  have "onlyIn (y # ys) (x # xs) = onlyIn ys (x # xs)" using assms(1) by (simp add: onlyIn_def)
  then show "onlyIn (y # ys) (x # xs) = onlyIn ys xs" by (simp add: other_key[OF ny])
  have "inBoth (x # xs) (y # ys) = Suc (inBoth xs (y # ys))" using assms(1) by (simp add: inBoth_def)
  then show "inBoth (x # xs) (y # ys) = Suc (inBoth xs ys)" by (simp add: other_key[OF nx])
  have "(\<exists>w \<in> set (y # ys). fst w = fst x \<and> snd w \<noteq> snd x) = (snd x \<noteq> snd y)"
    using ny assms(1) by (auto simp: image_iff)
  then have "disagree (x # xs) (y # ys) = (if snd x \<noteq> snd y then 1 else 0) + disagree xs (y # ys)"
    by (simp add: disagree_def)
  then show "disagree (x # xs) (y # ys) = (if snd x \<noteq> snd y then 1 else 0) + disagree xs ys"
    by (simp add: other_key[OF nx])
qed

lemma row_counts [simp]:
  "df_Compared (staleRow y r) = Suc (df_Compared r)" "df_Stale (staleRow y r) = Suc (df_Stale r)"
  "df_Missing (staleRow y r) = df_Missing r" "df_Mismatched (staleRow y r) = df_Mismatched r"
  "df_Compared (missingRow y r) = Suc (df_Compared r)" "df_Stale (missingRow y r) = df_Stale r"
  "df_Missing (missingRow y r) = Suc (df_Missing r)" "df_Mismatched (missingRow y r) = df_Mismatched r"
  "df_Compared (bothRow x y r) = Suc (df_Compared r)" "df_Stale (bothRow x y r) = df_Stale r"
  "df_Missing (bothRow x y r) = df_Missing r"
  "df_Mismatched (bothRow x y r) = df_Mismatched r + (if snd x \<noteq> snd y then 1 else 0)"
  by (simp_all add: staleRow_def missingRow_def bothRow_def recordDrift_def Let_def)

lemma driftLoop_counts:
  assumes "ascending ls" "ascending rs"
  shows "\<exists>r'. driftLoop False False ls rs r = Inr r'
    \<and> df_Missing r' = df_Missing r + onlyIn ls rs \<and> df_Stale r' = df_Stale r + onlyIn rs ls
    \<and> df_Mismatched r' = df_Mismatched r + disagree ls rs
    \<and> df_Compared r' = df_Compared r + onlyIn ls rs + onlyIn rs ls + inBoth ls rs"
  using assms
proof (induction "length ls + length rs" arbitrary: ls rs r rule: less_induct)
  case less
  show ?case
  proof (cases ls)
    case Nil
    show ?thesis
    proof (cases rs)
      case (Cons y ys)
      with less.hyps[of "[]" ys "staleRow y r"] less.prems Nil show ?thesis by (auto simp: driftLoop_simps onlyIn_def)
    qed (use Nil in \<open>simp add: driftLoop_simps\<close>)
  next
    case L: (Cons x xs)
    show ?thesis
    proof (cases rs)
      case Nil
      with less.hyps[of xs "[]" "missingRow x r"] less.prems L show ?thesis by (auto simp: driftLoop_simps)
    next
      case R: (Cons y ys)
      consider "fst y < fst x" | "fst x < fst y" | "fst x = fst y" by force
      then show ?thesis
      proof cases
        case 1
        with less.hyps[of ls ys "staleRow y r"] less.prems L R counts_left_smaller[of y x xs ys]
        show ?thesis by (auto simp: driftLoop_simps)
      next
        case 2
        with less.hyps[of xs rs "missingRow x r"] less.prems L R counts_right_smaller[of x y ys xs]
        show ?thesis by (auto simp: driftLoop_simps)
      next
        case 3
        with less.hyps[of xs ys "bothRow x y r"] less.prems L R counts_same[of x y xs ys]
        show ?thesis by (auto simp: driftLoop_simps)
      qed
    qed
  qed
qed

section \<open>Reconciling at boot\<close>

record reducedTemplate =
  re_ID :: string
  re_Name :: string
  re_Was :: "string list"
  re_Now :: "string list"
  re_Holders :: "string list"

record report =
  rp_TemplatesDefined :: nat
  rp_MembershipsConfirmed :: nat
  rp_StaleRemoved :: nat
  rp_TemplatesReduced :: "reducedTemplate list"
  rp_ForeignTemplates :: "string list"
  rp_PendingRepairs :: driftResult
  rp_Templates :: string
  rp_Assignments :: string

datatype reconcileErr =
    Misrouted
  | NoIdentityConnection
  | NoDefiner
  | NoTemplateAuthorityReducer
  | TableMissing string
  | DriftUnreadable driftErr
  | DefinerFailed
  | ReducerFailed
  | IdentityUnreadable
  | StoreFailed storeStmt

text \<open>What the names resolve to on the application's connection.\<close>

record probe =
  pb_identityOwned :: "string option"
  pb_templates :: "string option"
  pb_assignments :: "string option"

definition verify :: "(storeStmt \<Rightarrow> bool) \<Rightarrow> probe \<Rightarrow> reconcileErr + string \<times> string" where
  "verify flt pb =
     (if flt StmtVerify then Inl (StoreFailed StmtVerify)
      else if pb_identityOwned pb \<noteq> None then Inl Misrouted
      else (case pb_templates pb of
              None \<Rightarrow> Inl (TableMissing ''role_templates'')
            | Some t \<Rightarrow>
                (case pb_assignments pb of
                   None \<Rightarrow> Inl (TableMissing ''organization_member_roles'')
                 | Some a \<Rightarrow> Inr (t, a))))"

text \<open>\<open>ListTemplates\<close> as a map by name; names are unique in the table.\<close>

definition priorTemplate :: "roleStore \<Rightarrow> string \<Rightarrow> roleTemplate option" where
  "priorTemplate s n = List.find (\<lambda>t. rt_Name t = n) (rev (st_Templates s))"

text \<open>\<open>retained\<close> is \<open>idstore.AuthorityRetained\<close> with this application's read-write pairs.\<close>

fun reducedTemplates ::
    "(storeStmt \<Rightarrow> bool) \<Rightarrow> (string list \<Rightarrow> string list \<Rightarrow> bool) \<Rightarrow> orgScope \<Rightarrow> roleStore \<Rightarrow> roleTemplate list \<Rightarrow>
     reconcileErr + reducedTemplate list" where
  "reducedTemplates flt retained scope s [] = Inr []"
| "reducedTemplates flt retained scope s (d # ds) =
     (case priorTemplate s (rt_Name d) of
        None \<Rightarrow> reducedTemplates flt retained scope s ds
      | Some was \<Rightarrow>
          if retained (rt_Scopes was) (rt_Scopes d) then reducedTemplates flt retained scope s ds
          else if flt (StmtHolders (rt_ID was)) then Inl (StoreFailed (StmtHolders (rt_ID was)))
          else (case reducedTemplates flt retained scope s ds of
                  Inl e \<Rightarrow> Inl e
                | Inr rest \<Rightarrow>
                    Inr (\<lparr>re_ID = rt_ID was, re_Name = rt_Name d, re_Was = rt_Scopes was, re_Now = rt_Scopes d,
                          re_Holders = holdersOfTemplate (rt_ID was) scope s\<rparr> # rest)))"

text \<open>\<open>ids\<close> draws the uuid of a template that is new.\<close>

fun defineAll ::
    "(storeStmt \<Rightarrow> bool) \<Rightarrow> (string \<Rightarrow> string) \<Rightarrow> roleTemplate list \<Rightarrow> roleStore \<Rightarrow> reconcileErr option \<times> roleStore" where
  "defineAll flt ids [] s = (None, s)"
| "defineAll flt ids (d # ds) s =
     (if flt (StmtDefine (rt_Name d)) then (Some (StoreFailed (StmtDefine (rt_Name d))), s)
      else defineAll flt ids ds (defineTemplate (ids (rt_Name d)) d s))"

record reconcileState =
  rs_store :: roleStore
  rs_swept :: "reducedTemplate list list"
  rs_report :: report

definition allOrgs :: orgScope where
  "allOrgs = (\<lambda>_. True)"

definition foreignNames :: "roleTemplate list \<Rightarrow> roleStore \<Rightarrow> string list" where
  "foreignNames defs s = sort (filter (\<lambda>n. n \<notin> set (map rt_Name defs)) (remdups (map rt_Name (st_Templates s))))"

definition definedCount :: "roleTemplate list \<Rightarrow> roleStore \<Rightarrow> nat" where
  "definedCount defs s = length (filter (\<lambda>n. n \<in> set (map rt_Name defs)) (remdups (map rt_Name (st_Templates s))))"

text \<open>\<open>defineOwn\<close> gives the definitions of this build or fails; \<open>reduce\<close> tells whether the sweep of
  the credentials of the holders succeeds.\<close>

definition reconcileTemplates ::
    "(storeStmt \<Rightarrow> bool) \<Rightarrow> (string list \<Rightarrow> string list \<Rightarrow> bool) \<Rightarrow> (string \<Rightarrow> string) \<Rightarrow> roleTemplate list option \<Rightarrow>
     (reducedTemplate list \<Rightarrow> bool) \<Rightarrow> reconcileState \<Rightarrow> reconcileErr option \<times> reconcileState" where
  "reconcileTemplates flt retained ids defineOwn reduce rs =
     (case defineOwn of
        None \<Rightarrow> (Some DefinerFailed, rs)
      | Some defs \<Rightarrow>
          if flt StmtList then (Some (StoreFailed StmtList), rs)
          else (case reducedTemplates flt retained allOrgs (rs_store rs) defs of
                  Inl e \<Rightarrow> (Some e, rs)
                | Inr reduced \<Rightarrow>
                    if reduced \<noteq> [] \<and> \<not> reduce reduced then (Some ReducerFailed, rs)
                    else
                      (let rs1 = (if reduced \<noteq> []
                                  then rs\<lparr>rs_swept := rs_swept rs @ [reduced],
                                          rs_report := (rs_report rs)\<lparr>rp_TemplatesReduced := rp_TemplatesReduced (rs_report rs) @ reduced\<rparr>\<rparr>
                                  else rs)
                       in (case defineAll flt ids defs (rs_store rs1) of
                             (Some e, s) \<Rightarrow> (Some e, rs1\<lparr>rs_store := s\<rparr>)
                           | (None, s) \<Rightarrow>
                               if flt StmtRelist then (Some (StoreFailed StmtRelist), rs1\<lparr>rs_store := s\<rparr>)
                               else (None, rs1\<lparr>rs_store := s,
                                      rs_report := (rs_report rs1)\<lparr>rp_TemplatesDefined := definedCount defs s,
                                                                  rp_ForeignTemplates := foreignNames defs s\<rparr>\<rparr>)))))"

definition membershipPage :: nat where "membershipPage = 1000"

text \<open>One page: the rows of identity after the last pair seen, at most a page of them.\<close>

definition rowsAfter :: "string \<times> string \<Rightarrow> (string \<times> string) list \<Rightarrow> (string \<times> string) list" where
  "rowsAfter prev rows = filter (\<lambda>p. prev < p) (sort rows)"

fun confirmRows ::
    "(storeStmt \<Rightarrow> bool) \<Rightarrow> (string \<times> string \<Rightarrow> int) \<Rightarrow> (string \<times> string) list \<Rightarrow> nat \<times> roleStore \<Rightarrow>
     reconcileErr option \<times> nat \<times> roleStore" where
  "confirmRows flt clock [] acc = (None, acc)"
| "confirmRows flt clock (p # ps) acc =
     (if flt (StmtConfirm (fst p) (snd p)) then (Some (StoreFailed (StmtConfirm (fst p) (snd p))), acc)
      else confirmRows flt clock ps (Suc (fst acc), confirmMembership (fst p) (snd p) allOrgs (clock p) (snd acc)))"

text \<open>\<open>pageFails\<close> tells whether reading the page after a pair fails, and after how many of its rows.\<close>

function membershipPages ::
    "(storeStmt \<Rightarrow> bool) \<Rightarrow> (string \<times> string \<Rightarrow> nat option) \<Rightarrow> (string \<times> string \<Rightarrow> int) \<Rightarrow> (string \<times> string) list \<Rightarrow>
     string \<times> string \<Rightarrow> nat \<times> roleStore \<Rightarrow> reconcileErr option \<times> nat \<times> roleStore" where
  "membershipPages flt pageFails clock rows prev acc =
     (let page = take membershipPage (rowsAfter prev rows)
      in (case pageFails prev of
            Some k \<Rightarrow>
              (case confirmRows flt clock (take k page) acc of
                 (Some e, acc') \<Rightarrow> (Some e, acc')
               | (None, acc') \<Rightarrow> (Some IdentityUnreadable, acc'))
          | None \<Rightarrow>
              (case confirmRows flt clock page acc of
                 (Some e, acc') \<Rightarrow> (Some e, acc')
               | (None, acc') \<Rightarrow>
                   if length page < membershipPage then (None, acc')
                   else membershipPages flt pageFails clock rows (last page) acc')))"
  by pat_completeness auto


lemma rowsAfter_last:
  assumes "0 < n" "n \<le> length (rowsAfter prev rows)"
  shows "length (rowsAfter (last (take n (rowsAfter prev rows))) rows) < length (rowsAfter prev rows)"
proof -
  let ?L = "rowsAfter prev rows" and ?q = "last (take n (rowsAfter prev rows))"
  from assms have "take n ?L \<noteq> []" by (cases ?L) auto
  then have q: "?q \<in> set ?L" by (meson in_set_takeD last_in_set)
  have "rowsAfter ?q rows = filter (\<lambda>p. ?q < p) ?L"
    using q unfolding rowsAfter_def filter_filter by (intro filter_cong) auto
  moreover have "length (filter (\<lambda>p. ?q < p) ?L) < length ?L"
    using q by (rule length_filter_less) simp
  ultimately show ?thesis by simp
qed

termination membershipPages
  by (relation "measure (\<lambda>(flt, pf, clock, rows, prev, acc). length (rowsAfter prev rows))")
    (auto simp: membershipPage_def intro!: rowsAfter_last)

declare membershipPages.simps [simp del]

definition zeroID :: string where
  "zeroID = ''00000000-0000-0000-0000-000000000000''"

definition reconcileMemberships ::
    "(storeStmt \<Rightarrow> bool) \<Rightarrow> (string \<times> string \<Rightarrow> nat option) \<Rightarrow> (string \<times> string \<Rightarrow> int) \<Rightarrow> (string \<times> string) list \<Rightarrow>
     reconcileState \<Rightarrow> reconcileErr option \<times> reconcileState" where
  "reconcileMemberships flt pageFails clock rows rs =
     (case membershipPages flt pageFails clock rows (zeroID, zeroID) (rp_MembershipsConfirmed (rs_report rs), rs_store rs) of
        (e, n, s) \<Rightarrow> (e, rs\<lparr>rs_store := s, rs_report := (rs_report rs)\<lparr>rp_MembershipsConfirmed := n\<rparr>\<rparr>))"

record reconcileInput =
  ri_hasAppDB :: bool
  ri_hasIdentityDB :: bool
  ri_definer :: "roleTemplate list option option"
  ri_reducer :: "(reducedTemplate list \<Rightarrow> bool) option"
  ri_probe :: probe
  ri_identityRows :: "cursorRow list"
  ri_identityFails :: bool
  ri_appFails :: bool
  ri_pageFails :: "string \<times> string \<Rightarrow> nat option"
  ri_generation :: int
  ri_clock :: "string \<times> string \<Rightarrow> int"
  ri_ids :: "string \<Rightarrow> string"

definition emptyReport :: report where
  "emptyReport = \<lparr>rp_TemplatesDefined = 0, rp_MembershipsConfirmed = 0, rp_StaleRemoved = 0, rp_TemplatesReduced = [],
     rp_ForeignTemplates = [], rp_PendingRepairs = emptyDrift, rp_Templates = [], rp_Assignments = []\<rparr>"

definition sweepPhase :: "(storeStmt \<Rightarrow> bool) \<Rightarrow> int \<Rightarrow> reconcileState \<Rightarrow> reconcileErr option \<times> reconcileState" where
  "sweepPhase flt generation rs =
     (if flt StmtSweep then (Some (StoreFailed StmtSweep), rs)
      else (case sweepStaleAssignments generation allOrgs (rs_store rs) of
              (n, s) \<Rightarrow> (None, rs\<lparr>rs_store := s, rs_report := (rs_report rs)\<lparr>rp_StaleRemoved := n\<rparr>\<rparr>)))"

definition reconcile ::
    "(storeStmt \<Rightarrow> bool) \<Rightarrow> (string list \<Rightarrow> string list \<Rightarrow> bool) \<Rightarrow> reconcileInput \<Rightarrow> roleStore \<Rightarrow>
     reconcileErr option \<times> reconcileState" where
  "reconcile flt retained ri s =
     (let rs0 = \<lparr>rs_store = s, rs_swept = [], rs_report = emptyReport\<rparr>
      in if \<not> ri_hasAppDB ri then (Some Misrouted, rs0)
         else if \<not> ri_hasIdentityDB ri then (Some NoIdentityConnection, rs0)
         else (case (ri_definer ri, ri_reducer ri) of
                 (None, _) \<Rightarrow> (Some NoDefiner, rs0)
               | (_, None) \<Rightarrow> (Some NoTemplateAuthorityReducer, rs0)
               | (Some defineOwn, Some reduce) \<Rightarrow>
                   (case verify flt (ri_probe ri) of
                      Inl e \<Rightarrow> (Some e, rs0)
                    | Inr (t, a) \<Rightarrow>
                        (let rs1 = rs0\<lparr>rs_report := (rs_report rs0)\<lparr>rp_Templates := t, rp_Assignments := a\<rparr>\<rparr>
                         in (case checkDrift (ri_identityFails ri) (ri_appFails ri) (ri_identityRows ri) s of
                               Inl e \<Rightarrow> (Some (DriftUnreadable e), rs1)
                             | Inr d \<Rightarrow>
                                 (let rs2 = rs1\<lparr>rs_report := (rs_report rs1)\<lparr>rp_PendingRepairs := d\<rparr>\<rparr>
                                  in if flt StmtGeneration then (Some (StoreFailed StmtGeneration), rs2)
                                     else (case reconcileTemplates flt retained (ri_ids ri) defineOwn reduce rs2 of
                                             (Some e, rs3) \<Rightarrow> (Some e, rs3)
                                           | (None, rs3) \<Rightarrow>
                                               (case reconcileMemberships flt (ri_pageFails ri) (ri_clock ri)
                                                       (map fst (ri_identityRows ri)) rs3 of
                                                  (Some e, rs4) \<Rightarrow> (Some e, rs4)
                                                | (None, rs4) \<Rightarrow> sweepPhase flt (ri_generation ri) rs4))))))))"

section \<open>Paging visits every membership once\<close>

lemma confirmRows_ok:
  "confirmRows flt clock ps acc = (None, acc') \<Longrightarrow>
   acc' = (fst acc + length ps, fold (\<lambda>p s. confirmMembership (fst p) (snd p) allOrgs (clock p) s) ps (snd acc))"
proof (induction ps arbitrary: acc)
  case (Cons p ps)
  then have "confirmRows flt clock ps (Suc (fst acc), confirmMembership (fst p) (snd p) allOrgs (clock p) (snd acc)) = (None, acc')"
    by (simp split: if_splits)
  from Cons.IH[OF this] show ?case by simp
qed simp

lemma membershipPages_None:
  assumes "membershipPages flt pf clock rows prev acc = (None, acc')"
  shows "\<exists>acc1. confirmRows flt clock (take membershipPage (rowsAfter prev rows)) acc = (None, acc1) \<and>
    (if length (take membershipPage (rowsAfter prev rows)) < membershipPage then acc' = acc1
     else membershipPages flt pf clock rows (last (take membershipPage (rowsAfter prev rows))) acc1 = (None, acc'))"
proof -
  obtain e acc1 where c: "confirmRows flt clock (take membershipPage (rowsAfter prev rows)) acc = (e, acc1)"
    by (cases "confirmRows flt clock (take membershipPage (rowsAfter prev rows)) acc")
  from assms have "pf prev = None"
    by (subst (asm) membershipPages.simps) (auto simp: Let_def split: option.splits prod.splits)
  with assms c show ?thesis
    by (subst (asm) membershipPages.simps) (auto simp: Let_def split: option.splits if_splits)
qed

lemma rowsAfter_next:
  assumes "distinct rows" "0 < n" "n \<le> length (rowsAfter prev rows)"
  shows "rowsAfter (last (take n (rowsAfter prev rows))) rows = drop n (rowsAfter prev rows)"
proof -
  let ?L = "rowsAfter prev rows" and ?q = "last (take n (rowsAfter prev rows))"
  from assms have ne: "take n ?L \<noteq> []" by (cases ?L) auto
  then have q: "?q \<in> set ?L" by (meson in_set_takeD last_in_set)
  have asc: "sorted_wrt (<) (take n ?L @ drop n ?L)"
    using assms(1) by (simp add: rowsAfter_def strict_sorted_iff sorted_wrt_filter)
  then have "\<forall>p \<in> set (drop n ?L). ?q < p" using ne unfolding sorted_wrt_append by (meson last_in_set)
  moreover have "\<not> ?q < p" if "p \<in> set (take n ?L)" for p
  proof -
    have "sorted_wrt (<) (butlast (take n ?L) @ [?q])"
      unfolding append_butlast_last_id[OF ne] using asc by (simp only: sorted_wrt_append)
    moreover have "p \<in> set (butlast (take n ?L) @ [?q])" unfolding append_butlast_last_id[OF ne] by (rule that)
    ultimately show ?thesis by (auto simp: sorted_wrt_append)
  qed
  ultimately have "filter (\<lambda>p. ?q < p) (take n ?L @ drop n ?L) = drop n ?L"
    by (simp only: filter_append) (auto simp: filter_empty_conv filter_id_conv)
  moreover have "rowsAfter ?q rows = filter (\<lambda>p. ?q < p) ?L"
    using q unfolding rowsAfter_def filter_filter by (intro filter_cong) auto
  ultimately show ?thesis by simp
qed

lemma membershipPages_ok:
  assumes "distinct rows" "membershipPages flt pf clock rows prev acc = (None, acc')"
  shows "acc' = (fst acc + length (rowsAfter prev rows),
    fold (\<lambda>p s. confirmMembership (fst p) (snd p) allOrgs (clock p) s) (rowsAfter prev rows) (snd acc))"
  using assms
proof (induction "length (rowsAfter prev rows)" arbitrary: prev acc rule: less_induct)
  case less
  let ?L = "rowsAfter prev rows"
  let ?page = "take membershipPage ?L"
  from less.prems obtain acc1 where c: "confirmRows flt clock ?page acc = (None, acc1)" and
    rest: "if length ?page < membershipPage then acc' = acc1
           else membershipPages flt pf clock rows (last ?page) acc1 = (None, acc')"
    using membershipPages_None by blast
  note acc1 = confirmRows_ok[OF c]
  show ?case
  proof (cases "length ?page < membershipPage")
    case True
    then have "?page = ?L" by simp
    with True rest acc1 show ?thesis by simp
  next
    case False
    then have n: "0 < membershipPage" "membershipPage \<le> length ?L" by (simp_all add: membershipPage_def)
    note nxt = rowsAfter_next[OF less.prems(1) n]
    have "acc' = (fst acc1 + length (rowsAfter (last ?page) rows),
      fold (\<lambda>p s. confirmMembership (fst p) (snd p) allOrgs (clock p) s) (rowsAfter (last ?page) rows) (snd acc1))"
      using less.hyps[OF rowsAfter_last[OF n] less.prems(1)] False rest by simp
    also have "\<dots> = (fst acc + length (?page @ drop membershipPage ?L),
      fold (\<lambda>p s. confirmMembership (fst p) (snd p) allOrgs (clock p) s) (?page @ drop membershipPage ?L) (snd acc))"
      unfolding nxt acc1 by (simp only: fold_append length_append) simp
    finally show ?thesis by (simp only: append_take_drop_id)
  qed
qed

section \<open>What the reconcile promises\<close>

definition look :: "roleStore \<Rightarrow> string \<times> string \<Rightarrow> (string option \<times> int) option" where
  "look s p = map_option (\<lambda>a. (as_Role a, as_MirroredAt a)) (List.find (isPair (fst p) (snd p)) (st_Assignments s))"

definition onePerPair :: "roleStore \<Rightarrow> bool" where
  "onePerPair s = distinct (map (\<lambda>a. (as_Org a, as_User a)) (st_Assignments s))"

lemma find_map_pair:
  "(\<And>a. isPair o' u' (f a) = isPair o' u' a) \<Longrightarrow> List.find (isPair o' u') (map f xs) = map_option f (List.find (isPair o' u') xs)"
  by (induction xs) auto

lemma find_pair_None: "List.find (isPair o' u') xs = None \<longleftrightarrow> \<not> (\<exists>a \<in> set xs. isPair o' u' a)"
  by (auto simp: find_None_iff)

lemma look_confirm:
  "look (confirmMembership org user allOrgs now s) p =
     (if p = (org, user) then Some (case look s p of None \<Rightarrow> None | Some (r, _) \<Rightarrow> r, now) else look s p)"
proof (cases "\<exists>a \<in> set (st_Assignments s). isPair org user a")
  case True
  let ?f = "\<lambda>a. if isPair org user a then a\<lparr>as_MirroredAt := now\<rparr> else a"
  have "List.find (isPair (fst p) (snd p)) (map ?f (st_Assignments s)) = map_option ?f (List.find (isPair (fst p) (snd p)) (st_Assignments s))"
    by (rule find_map_pair) (auto simp: isPair_def)
  moreover have "confirmMembership org user allOrgs now s = s\<lparr>st_Assignments := map ?f (st_Assignments s)\<rparr>"
    using True by (simp add: confirmMembership_def allOrgs_def)
  ultimately have l: "look (confirmMembership org user allOrgs now s) p =
      map_option (\<lambda>a. (as_Role (?f a), as_MirroredAt (?f a))) (List.find (isPair (fst p) (snd p)) (st_Assignments s))"
    by (simp add: look_def option.map_comp comp_def)
  show ?thesis
  proof (cases "List.find (isPair (fst p) (snd p)) (st_Assignments s)")
    case None
    with True have "p \<noteq> (org, user)" by (auto simp: find_pair_None)
    with l None show ?thesis by (simp add: look_def)
  next
    case (Some a)
    then have "isPair (fst p) (snd p) a" using find_SomeD by metis
    then have "isPair org user a \<longleftrightarrow> p = (org, user)" by (cases p) (auto simp: isPair_def)
    moreover have "look s p = Some (as_Role a, as_MirroredAt a)" using Some by (simp add: look_def)
    ultimately show ?thesis unfolding l Some by (cases "p = (org, user)") simp_all
  qed
next
  case False
  then have none: "List.find (isPair org user) (st_Assignments s) = None" by (simp add: find_pair_None)
  have "confirmMembership org user allOrgs now s = s\<lparr>st_Assignments := st_Assignments s @
      [\<lparr>as_Org = org, as_User = user, as_Role = None, as_MirroredAt = now\<rparr>]\<rparr>"
    using False by (simp add: confirmMembership_def allOrgs_def)
  with none show ?thesis
    by (cases p) (auto simp: look_def find_snoc isPair_def split: option.splits)
qed

lemma onePerPair_confirm: "onePerPair s \<Longrightarrow> onePerPair (confirmMembership org user scope now s)"
proof -
  assume o: "onePerPair s"
  let ?f = "\<lambda>a. if isPair org user a then a\<lparr>as_MirroredAt := now\<rparr> else a"
  have "map (\<lambda>a. (as_Org a, as_User a)) (map ?f (st_Assignments s)) = map (\<lambda>a. (as_Org a, as_User a)) (st_Assignments s)"
    by (simp add: comp_def)
  then have "distinct (map (\<lambda>a. (as_Org a, as_User a)) (map ?f (st_Assignments s)))"
    using o by (simp only: onePerPair_def)
  with o show ?thesis unfolding confirmMembership_def onePerPair_def by (auto simp: isPair_def)
qed

lemma look_confirm_all:
  "distinct ps \<Longrightarrow>
   look (fold (\<lambda>q s. confirmMembership (fst q) (snd q) allOrgs (clock q) s) ps s) p =
     (if p \<in> set ps then Some (case look s p of None \<Rightarrow> None | Some (r, _) \<Rightarrow> r, clock p) else look s p)"
  by (induction ps arbitrary: s) (auto simp: look_confirm)

lemma onePerPair_confirm_all:
  "onePerPair s \<Longrightarrow> onePerPair (fold (\<lambda>q s. confirmMembership (fst q) (snd q) allOrgs (clock q) s) ps s)"
  by (induction ps arbitrary: s) (auto simp: onePerPair_confirm)

lemma find_filter_unique:
  "distinct (map (\<lambda>a. (as_Org a, as_User a)) xs) \<Longrightarrow>
   List.find (isPair o' u') (filter P xs) = (case List.find (isPair o' u') xs of None \<Rightarrow> None | Some a \<Rightarrow> if P a then Some a else None)"
proof (induction xs)
  case (Cons a xs)
  have "List.find (isPair o' u') (filter P xs) = None" if "isPair o' u' a"
  proof -
    have "\<not> (\<exists>b \<in> set xs. isPair o' u' b)" using that Cons.prems by (auto simp: isPair_def image_iff)
    then show ?thesis by (auto simp: find_pair_None)
  qed
  with Cons show ?case by auto
qed simp

lemma look_sweep:
  assumes "onePerPair s"
  shows "look (snd (sweepStaleAssignments g allOrgs s)) p =
    (case look s p of None \<Rightarrow> None | Some (r, m) \<Rightarrow> if m < g then None else Some (r, m))"
  using assms find_filter_unique[of "st_Assignments s" "fst p" "snd p" "\<lambda>a. \<not> as_MirroredAt a < g"]
  by (auto simp: look_def sweepStaleAssignments_def deleteWhere_def Let_def allOrgs_def onePerPair_def split: option.splits)

lemma defineTemplate_assignments [simp]: "st_Assignments (defineTemplate i d s) = st_Assignments s"
  by (simp add: defineTemplate_def)

lemma defineAll_assignments: "defineAll flt ids ds s = (e, s') \<Longrightarrow> st_Assignments s' = st_Assignments s"
  by (induction ds arbitrary: s) (auto split: if_splits)

lemma reconcileTemplates_assignments:
  "reconcileTemplates flt retained ids defineOwn reduce rs = (e, rs') \<Longrightarrow>
   st_Assignments (rs_store rs') = st_Assignments (rs_store rs)
   \<and> rp_MembershipsConfirmed (rs_report rs') = rp_MembershipsConfirmed (rs_report rs)"
  by (auto simp: reconcileTemplates_def Let_def split: option.splits if_splits sum.splits prod.splits dest!: defineAll_assignments)

lemma look_cong: "st_Assignments s' = st_Assignments s \<Longrightarrow> look s' p = look s p"
  by (simp add: look_def)

lemma reconcile_ok:
  assumes "reconcile flt retained ri s = (None, rs)"
  obtains s1 n s2 where "st_Assignments s1 = st_Assignments s"
    "membershipPages flt (ri_pageFails ri) (ri_clock ri) (map fst (ri_identityRows ri)) (zeroID, zeroID) (0, s1) = (None, n, s2)"
    "rp_MembershipsConfirmed (rs_report rs) = n" "rs_store rs = snd (sweepStaleAssignments (ri_generation ri) allOrgs s2)"
proof -
  from assms obtain rs3 rs4 reduce defineOwn d t a where
    t: "reconcileTemplates flt retained (ri_ids ri) defineOwn reduce
        \<lparr>rs_store = s, rs_swept = [], rs_report = emptyReport\<lparr>rp_Templates := t, rp_Assignments := a, rp_PendingRepairs := d\<rparr>\<rparr> = (None, rs3)"
    and m: "reconcileMemberships flt (ri_pageFails ri) (ri_clock ri) (map fst (ri_identityRows ri)) rs3 = (None, rs4)"
    and w: "sweepPhase flt (ri_generation ri) rs4 = (None, rs)"
    by (auto simp: reconcile_def Let_def split: if_splits option.splits sum.splits prod.splits)
  from reconcileTemplates_assignments[OF t]
  have a: "st_Assignments (rs_store rs3) = st_Assignments s" "rp_MembershipsConfirmed (rs_report rs3) = 0"
    by (simp_all add: emptyReport_def)
  obtain n s2 where p: "membershipPages flt (ri_pageFails ri) (ri_clock ri) (map fst (ri_identityRows ri)) (zeroID, zeroID) (0, rs_store rs3) = (None, n, s2)"
    and r4: "rs_store rs4 = s2" "rp_MembershipsConfirmed (rs_report rs4) = n"
    using m a(2) by (auto simp: reconcileMemberships_def split: prod.splits)
  show thesis
    by (rule that[OF a(1) p]) (use w r4 in \<open>auto simp: sweepPhase_def split: if_splits prod.splits\<close>)
qed

text \<open>C12: A reconcile that succeeds leaves this application with exactly the memberships of identity,
  however many pages they take: every membership is confirmed once, an existing record keeps the
  role this application gave it, a new one has no role, and every other record is removed unless it
  was written since the reconcile began.\<close>

theorem reconcile_matches_identity:
  assumes "reconcile flt retained ri s = (None, rs)" "onePerPair s"
    and "distinct (map fst (ri_identityRows ri))" "\<forall>p \<in> fst ` set (ri_identityRows ri). (zeroID, zeroID) < p"
    and "\<forall>p. ri_generation ri \<le> ri_clock ri p"
  shows "rp_MembershipsConfirmed (rs_report rs) = length (ri_identityRows ri)
    \<and> look (rs_store rs) p =
        (if p \<in> fst ` set (ri_identityRows ri)
         then Some (case look s p of None \<Rightarrow> None | Some (r, _) \<Rightarrow> r, ri_clock ri p)
         else (case look s p of None \<Rightarrow> None | Some (r, m) \<Rightarrow> if m < ri_generation ri then None else Some (r, m)))"
proof -
  let ?rows = "map fst (ri_identityRows ri)"
  from reconcile_ok[OF assms(1)] obtain s1 n s2 where a: "st_Assignments s1 = st_Assignments s"
    and pg: "membershipPages flt (ri_pageFails ri) (ri_clock ri) ?rows (zeroID, zeroID) (0, s1) = (None, n, s2)"
    and n: "rp_MembershipsConfirmed (rs_report rs) = n"
    and st: "rs_store rs = snd (sweepStaleAssignments (ri_generation ri) allOrgs s2)" by metis
  have L: "rowsAfter (zeroID, zeroID) ?rows = sort ?rows"
    using assms(4) by (auto simp: rowsAfter_def filter_id_conv)
  have "distinct (sort ?rows)" using assms(3) by simp
  from membershipPages_ok[OF assms(3) pg] have s2: "n = length ?rows"
      "s2 = fold (\<lambda>q s. confirmMembership (fst q) (snd q) allOrgs (ri_clock ri q) s) (sort ?rows) s1"
    by (simp_all add: L)
  have "onePerPair s2" using onePerPair_confirm_all[of s1] assms(2) a s2 by (simp add: onePerPair_def)
  note sw = look_sweep[OF this, of "ri_generation ri" p]
  have "look s2 p = (if p \<in> set ?rows then Some (case look s p of None \<Rightarrow> None | Some (r, _) \<Rightarrow> r, ri_clock ri p) else look s p)"
    using look_confirm_all[OF \<open>distinct (sort ?rows)\<close>, of "ri_clock ri" s1 p] s2(2) look_cong[OF a] by simp
  moreover have "ri_generation ri \<le> ri_clock ri p" using assms(5) by blast
  ultimately show ?thesis using sw st n s2(1) by (cases "p \<in> set ?rows") simp_all
qed

definition sampleInput :: reconcileInput where
  "sampleInput = \<lparr>ri_hasAppDB = True, ri_hasIdentityDB = True, ri_definer = Some (Some []), ri_reducer = Some (\<lambda>_. True),
     ri_probe = \<lparr>pb_identityOwned = None, pb_templates = Some ''t'', pb_assignments = Some ''a''\<rparr>,
     ri_identityRows = [((''a'', ''u''), [])], ri_identityFails = False, ri_appFails = False,
     ri_pageFails = (\<lambda>_. None), ri_generation = 5, ri_clock = (\<lambda>_. 6), ri_ids = (\<lambda>_. ''i'')\<rparr>"

definition sampleStore :: roleStore where
  "sampleStore = \<lparr>st_Templates = [], st_Assignments =
     [\<lparr>as_Org = ''a'', as_User = ''u'', as_Role = Some ''admin'', as_MirroredAt = 1\<rparr>,
      \<lparr>as_Org = ''b'', as_User = ''v'', as_Role = Some ''admin'', as_MirroredAt = 1\<rparr>]\<rparr>"

theorem reconcile_matches_identity_witness:
  "look (rs_store (snd (reconcile (\<lambda>_. False) (\<lambda>_ _. True) sampleInput sampleStore))) (''b'', ''v'') = None"
proof -
  let ?run = "reconcile (\<lambda>_. False) (\<lambda>_ _. True) sampleInput sampleStore"
  have "case fst ?run of None \<Rightarrow> True | Some _ \<Rightarrow> False" by code_simp
  then have run: "?run = (None, snd ?run)" by (cases ?run) (auto split: option.splits)
  have z: "(zeroID, zeroID) < (''a'', ''u'')" by code_simp
  have "look (rs_store (snd ?run)) (''b'', ''v'') =
        (if (''b'', ''v'') \<in> fst ` set (ri_identityRows sampleInput)
         then Some (case look sampleStore (''b'', ''v'') of None \<Rightarrow> None | Some (r, _) \<Rightarrow> r, ri_clock sampleInput (''b'', ''v''))
         else (case look sampleStore (''b'', ''v'') of None \<Rightarrow> None
               | Some (r, m) \<Rightarrow> if m < ri_generation sampleInput then None else Some (r, m)))"
    by (rule conjunct2[OF reconcile_matches_identity[OF run]])
      (use z in \<open>simp_all add: onePerPair_def sampleStore_def sampleInput_def\<close>)
  then show ?thesis by (simp add: look_def isPair_def sampleStore_def sampleInput_def)
qed

section \<open>A narrowed role is swept before it is written\<close>

lemma reducedTemplates_complete:
  "reducedTemplates flt retained scope s ds = Inr red \<Longrightarrow> d \<in> set ds \<Longrightarrow> priorTemplate s (rt_Name d) = Some was \<Longrightarrow>
   \<not> retained (rt_Scopes was) (rt_Scopes d) \<Longrightarrow>
   \<lparr>re_ID = rt_ID was, re_Name = rt_Name d, re_Was = rt_Scopes was, re_Now = rt_Scopes d,
    re_Holders = holdersOfTemplate (rt_ID was) scope s\<rparr> \<in> set red"
  by (induction ds arbitrary: red) (auto split: option.splits if_splits sum.splits)

lemma defineTemplate_scopes:
  "t' \<in> set (st_Templates (defineTemplate i d s)) \<Longrightarrow>
   (\<exists>t \<in> set (st_Templates s). t' = t) \<or> (rt_Name t' = rt_Name d \<and> rt_Scopes t' = rt_Scopes d)"
  by (auto simp: defineTemplate_def split: if_splits)

lemma defineAll_scopes:
  "defineAll flt ids ds s = (e, s') \<Longrightarrow> t' \<in> set (st_Templates s') \<Longrightarrow>
   t' \<in> set (st_Templates s) \<or> (\<exists>d \<in> set ds. rt_Name t' = rt_Name d \<and> rt_Scopes t' = rt_Scopes d)"
proof (induction ds arbitrary: s)
  case (Cons d ds)
  then show ?case using defineTemplate_scopes[of t' "ids (rt_Name d)" d s] by (fastforce split: if_splits)
qed simp

text \<open>No role is narrowed under the people who hold it. Whatever fails on the way, a template that
  a reconcile leaves with scopes that do not retain the authority it had is one whose holders, all
  of them in every organization, were handed to the credential sweep, and that sweep succeeded,
  before any definition was written.\<close>

theorem narrowing_is_swept_first:
  assumes "reconcileTemplates flt retained ids defineOwn reduce rs = (e, rs')"
    and "distinct (map rt_Name (st_Templates (rs_store rs)))"
    and "was \<in> set (st_Templates (rs_store rs))" "now' \<in> set (st_Templates (rs_store rs'))"
    and "rt_Name now' = rt_Name was" "\<not> retained (rt_Scopes was) (rt_Scopes now')" "rt_Scopes now' \<noteq> rt_Scopes was"
  shows "\<exists>red r. rs_swept rs' = rs_swept rs @ [red] \<and> reduce red \<and> r \<in> set red
    \<and> re_ID r = rt_ID was \<and> re_Was r = rt_Scopes was \<and> re_Now r = rt_Scopes now'
    \<and> set (re_Holders r) = as_User ` {a \<in> set (st_Assignments (rs_store rs)). as_Role a = Some (rt_ID was)}"
proof -
  let ?s = "rs_store rs"
  have uniq: "t = was" if "t \<in> set (st_Templates ?s)" "rt_Name t = rt_Name was" for t
    using assms(2,3) that by (auto simp: distinct_map inj_on_def)
  have prior: "priorTemplate ?s (rt_Name was) = Some was"
  proof -
    have "List.find (\<lambda>t. rt_Name t = rt_Name was) (rev (st_Templates ?s)) \<noteq> None"
      using assms(3) by (auto simp: find_None_iff)
    then obtain t where t: "List.find (\<lambda>t. rt_Name t = rt_Name was) (rev (st_Templates ?s)) = Some t" by blast
    with find_SomeD[OF t] uniq show ?thesis by (simp add: priorTemplate_def)
  qed
  have changed: "now' \<notin> set (st_Templates ?s)" using assms(5,7) uniq by auto
  then have "rs_store rs' \<noteq> ?s" using assms(4) by auto
  with assms(1) obtain defs red where red: "reducedTemplates flt retained allOrgs ?s defs = Inr red"
    and ok: "red \<noteq> [] \<longrightarrow> reduce red" and sw: "red \<noteq> [] \<longrightarrow> rs_swept rs' = rs_swept rs @ [red]"
    and def: "\<exists>e'. defineAll flt ids defs ?s = (e', rs_store rs')"
    by (auto simp: reconcileTemplates_def Let_def split: option.splits if_splits sum.splits prod.splits)
  from def defineAll_scopes assms(4) changed obtain d where
    d: "d \<in> set defs" "rt_Name now' = rt_Name d" "rt_Scopes now' = rt_Scopes d" by metis
  let ?r = "\<lparr>re_ID = rt_ID was, re_Name = rt_Name d, re_Was = rt_Scopes was, re_Now = rt_Scopes d,
    re_Holders = holdersOfTemplate (rt_ID was) allOrgs ?s\<rparr>"
  have "?r \<in> set red"
    by (rule reducedTemplates_complete[OF red d(1)]) (use prior d assms(5,6) in simp_all)
  moreover have "set (re_Holders ?r) = as_User ` {a \<in> set (st_Assignments ?s). as_Role a = Some (rt_ID was)}"
    by (auto simp: holdersOfTemplate_def allOrgs_def)
  ultimately show ?thesis using ok sw d(3)
    by (intro exI[of _ red] exI[of _ ?r]) auto
qed

definition narrowed :: roleTemplate where
  "narrowed = \<lparr>rt_ID = ''admin'', rt_Name = ''n'', rt_DisplayName = [], rt_Description = None, rt_Scopes = [], rt_IsSystem = True\<rparr>"

definition narrowState :: reconcileState where
  "narrowState = \<lparr>rs_store = sampleStore\<lparr>st_Templates := [narrowed\<lparr>rt_Scopes := [''state:read'']\<rparr>]\<rparr>, rs_swept = [], rs_report = emptyReport\<rparr>"

theorem narrowing_is_swept_first_witness:
  "map (map re_Holders) (rs_swept (snd (reconcileTemplates (\<lambda>_. False) (\<lambda>old new. set old \<subseteq> set new) (\<lambda>n. n) (Some [narrowed])
      (\<lambda>_. True) narrowState))) \<noteq> []"
proof -
  let ?run = "reconcileTemplates (\<lambda>_. False) (\<lambda>old new. set old \<subseteq> set new) (\<lambda>n. n) (Some [narrowed]) (\<lambda>_. True) narrowState"
  let ?was = "narrowed\<lparr>rt_Scopes := [''state:read'']\<rparr>"
  have st: "st_Templates (rs_store narrowState) = [?was]"
    by (simp add: narrowState_def narrowed_def)
  have pr: "priorTemplate (rs_store narrowState) ''n'' = Some ?was" by (simp add: priorTemplate_def st narrowed_def)
  have "st_Templates (rs_store (snd ?run)) = [narrowed]"
    using pr by (simp add: reconcileTemplates_def Let_def st narrowed_def defineTemplate_def)
  then have n: "narrowed \<in> set (st_Templates (rs_store (snd ?run)))" by simp
  have r: "?run = (fst ?run, snd ?run)" by simp
  have "\<exists>red r. rs_swept (snd ?run) = rs_swept narrowState @ [red] \<and> True \<and> r \<in> set red
    \<and> re_ID r = rt_ID ?was \<and> re_Was r = rt_Scopes ?was \<and> re_Now r = rt_Scopes narrowed
    \<and> set (re_Holders r) = as_User ` {a \<in> set (st_Assignments (rs_store narrowState)). as_Role a = Some (rt_ID ?was)}"
    by (rule narrowing_is_swept_first[OF r _ _ n]) (simp_all add: st narrowed_def)
  then show ?thesis by auto
qed

section \<open>The drift comparison\<close>

lemma ascending_sort: "distinct (map fst (xs :: cursorRow list)) \<Longrightarrow> ascending (sort_key fst xs)"
  by (simp add: strict_sorted_iff distinct_map)

lemma assignmentRows_distinct: "onePerPair s \<Longrightarrow> distinct (map fst (assignmentRows s))"
proof -
  assume "onePerPair s"
  then have "distinct (map fst (map (\<lambda>a. ((as_Org a, as_User a), case as_Role a of None \<Rightarrow> [] | Some t \<Rightarrow> t)) (st_Assignments s)))"
    by (simp add: onePerPair_def comp_def)
  then show ?thesis unfolding assignmentRows_def by (simp only: distinct_map distinct_sort set_sort)
qed

lemma card_filter: "distinct xs \<Longrightarrow> length (filter P xs) = card {x \<in> set xs. P x}"
  by (metis distinct_card distinct_filter set_filter)

lemma card_part: "inj_on f S \<Longrightarrow> card (f ` {x \<in> S. P x}) = card {x \<in> S. P x}"
  by (rule card_image) (auto intro: inj_on_subset)

lemma three_parts: "A \<union> B = (A - B) \<union> (B - A) \<union> (A \<inter> B)"
  by blast

lemma card_three_ways:
  assumes "finite S" "finite T"
  shows "card (f ` {x \<in> S. f x \<notin> f ` T}) + card (f ` {y \<in> T. f y \<notin> f ` S}) + card (f ` {x \<in> S. f x \<in> f ` T}) =
    card (f ` (S \<union> T))"
proof -
  have e: "f ` {x \<in> S. f x \<notin> f ` T} = f ` S - f ` T" "f ` {y \<in> T. f y \<notin> f ` S} = f ` T - f ` S"
    "f ` {x \<in> S. f x \<in> f ` T} = f ` S \<inter> f ` T" by auto
  have "f ` (S \<union> T) = (f ` S - f ` T) \<union> (f ` T - f ` S) \<union> (f ` S \<inter> f ` T)"
    unfolding image_Un by (rule three_parts)
  also have "card \<dots> = card ((f ` S - f ` T) \<union> (f ` T - f ` S)) + card (f ` S \<inter> f ` T)"
    by (rule card_Un_disjoint) (use assms in auto)
  also have "card ((f ` S - f ` T) \<union> (f ` T - f ` S)) = card (f ` S - f ` T) + card (f ` T - f ` S)"
    by (rule card_Un_disjoint) (use assms in auto)
  finally show ?thesis unfolding e by simp
qed

lemma card_keys:
  assumes "distinct (map fst (xs :: cursorRow list))" "distinct (map fst ys)"
  shows "onlyIn xs ys + onlyIn ys xs + inBoth xs ys = card (fst ` (set xs \<union> set ys))"
proof -
  have inj: "inj_on fst (set xs)" "inj_on fst (set ys)" using assms by (simp_all add: distinct_map)
  have "distinct xs" "distinct ys" using assms by (simp_all add: distinct_map)
  then have "onlyIn xs ys + onlyIn ys xs + inBoth xs ys = card {x \<in> set xs. fst x \<notin> fst ` set ys}
      + card {y \<in> set ys. fst y \<notin> fst ` set xs} + card {x \<in> set xs. fst x \<in> fst ` set ys}"
    unfolding onlyIn_def inBoth_def by (simp only: card_filter)
  also have "\<dots> = card (fst ` (set xs \<union> set ys))"
    by (subst card_three_ways[symmetric]) (simp_all only: card_part[OF inj(1)] card_part[OF inj(2)] List.finite_set)
  finally show ?thesis .
qed

lemma no_difference:
  assumes "distinct (map fst (xs :: cursorRow list))" "distinct (map fst ys)"
  shows "onlyIn xs ys + onlyIn ys xs + disagree xs ys = 0 \<longleftrightarrow> set xs = set ys"
proof
  assume z: "onlyIn xs ys + onlyIn ys xs + disagree xs ys = 0"
  then have k: "\<forall>x \<in> set xs. fst x \<in> fst ` set ys" "\<forall>y \<in> set ys. fst y \<in> fst ` set xs"
    and v: "\<forall>x \<in> set xs. \<forall>y \<in> set ys. fst y = fst x \<longrightarrow> snd y = snd x"
    by (auto simp: onlyIn_def disagree_def filter_empty_conv)
  show "set xs = set ys"
  proof
    show "set xs \<subseteq> set ys" using k(1) v by (fastforce simp: prod_eq_iff)
    show "set ys \<subseteq> set xs" using k(2) v by (fastforce simp: prod_eq_iff)
  qed
next
  assume e: "set xs = set ys"
  have "inj_on fst (set ys)" using assms(2) by (simp add: distinct_map)
  with e show "onlyIn xs ys + onlyIn ys xs + disagree xs ys = 0"
    by (fastforce simp: onlyIn_def disagree_def filter_empty_conv inj_on_def)
qed

text \<open>C11: The comparison is exact. When both queries can be read to their end, with one row per
  organization and user on each side, the merge counts as missing the memberships that identity has
  and this application lacks, as stale the converse, as mismatched the pairs recorded with different
  roles, and every pair of either side once; it calls the records clean exactly when they are equal.\<close>

theorem drift_exact:
  assumes "distinct (map fst rows)" "onePerPair s"
  shows "\<exists>r. checkDrift False False rows s = Inr r
    \<and> df_Missing r = card {x \<in> set rows. fst x \<notin> fst ` set (assignmentRows s)}
    \<and> df_Stale r = card {y \<in> set (assignmentRows s). fst y \<notin> fst ` set rows}
    \<and> df_Mismatched r = card {x \<in> set rows. \<exists>y \<in> set (assignmentRows s). fst y = fst x \<and> snd y \<noteq> snd x}
    \<and> df_Compared r = card (fst ` (set rows \<union> set (assignmentRows s)))
    \<and> (cleanDrift r \<longleftrightarrow> set rows = set (assignmentRows s))"
proof -
  let ?L = "sort_key fst rows" and ?R = "assignmentRows s"
  have dl: "distinct (map fst ?L)" using assms(1) by (simp add: distinct_map)
  note dr = assignmentRows_distinct[OF assms(2)]
  have "ascending ?R" using dr by (simp add: assignmentRows_def strict_sorted_iff distinct_map)
  with driftLoop_counts[OF ascending_sort[OF assms(1)] this, of emptyDrift] obtain r where
    r: "checkDrift False False rows s = Inr r" "df_Missing r = onlyIn ?L ?R" "df_Stale r = onlyIn ?R ?L"
       "df_Mismatched r = disagree ?L ?R" "df_Compared r = onlyIn ?L ?R + onlyIn ?R ?L + inBoth ?L ?R"
    by (auto simp: checkDrift_def emptyDrift_def)
  have "distinct ?L" "distinct ?R" using dl dr by (simp_all add: distinct_map)
  then have c: "onlyIn ?L ?R = card {x \<in> set rows. fst x \<notin> fst ` set ?R}"
      "onlyIn ?R ?L = card {y \<in> set ?R. fst y \<notin> fst ` set rows}"
      "disagree ?L ?R = card {x \<in> set rows. \<exists>y \<in> set ?R. fst y = fst x \<and> snd y \<noteq> snd x}"
    by (simp_all add: onlyIn_def disagree_def card_filter)
  have "df_Compared r = card (fst ` (set rows \<union> set ?R))" using card_keys[OF dl dr] r(5) by simp
  moreover have "cleanDrift r \<longleftrightarrow> set rows = set ?R"
    using no_difference[OF dl dr] r(2-4) by (simp add: cleanDrift_def assignmentDrift_def)
  ultimately show ?thesis using r(1-4) unfolding c by blast
qed

theorem drift_exact_witness:
  "\<exists>r. checkDrift False False [((''a'', ''u''), []), ((''b'', ''v''), ''admin'')] sampleStore = Inr r \<and> \<not> cleanDrift r"
proof -
  let ?rows = "[((''a'', ''u''), []), ((''b'', ''v''), ''admin'')]"
  have "distinct (map fst ?rows)" "onePerPair sampleStore" by (simp_all add: onePerPair_def sampleStore_def)
  from drift_exact[OF this] obtain r where r: "checkDrift False False ?rows sampleStore = Inr r"
    "cleanDrift r \<longleftrightarrow> set ?rows = set (assignmentRows sampleStore)" by blast
  have "((''a'', ''u''), []) \<notin> set (assignmentRows sampleStore)" by (simp add: assignmentRows_def sampleStore_def)
  with r show ?thesis by auto
qed

end
