(* ===== verification/RoleMembers.thy ===== *)
theory RoleMembers
  imports AppRoles
begin

text \<open>
  \<open>internal/approles/members.go\<close> and \<open>reads.go\<close>: memberships are written to the shared identity
  store and to this application's mirror, which decides authorization, and every write that may
  lower somebody's authority ends in a sweep of the credentials that froze it.

  The outcome of an identity call is an argument; \<open>ms_identity\<close> is the trace of these calls and
  \<open>ms_swept\<close> that of the sweeps, each with whether the authority is said to have changed. The
  mirror is absent (None) where no application database was connected.
\<close>

section \<open>State and answers\<close>

datatype idOutcome = IdOk | IdNotFound | IdFailed

datatype idCall =
    IdAddByName string string string
  | IdAddByID string string "string option"
  | IdUpdateByName string string string
  | IdUpdateByID string string "string option"
  | IdRemove string string
  | IdRemoveAll string
  | IdDeleteOrg string

record memberState =
  ms_store :: "roleStore option"
  ms_identity :: "idCall list"
  ms_swept :: "(string \<times> bool) list"

datatype memberErr =
    NoSuchTemplate | NoAppStore | StoreError storeStmt | IdentityError | IdentityNotFound | SweepFailed | NoSweepSupplied

text \<open>\<open>reduce\<close> is the \<open>AuthorityReducer\<close>, nil as None: whether the sweep of a user succeeds.\<close>

type_synonym reducer = "(string \<Rightarrow> bool \<Rightarrow> bool) option"

definition reduceAuthority :: "reducer \<Rightarrow> string \<Rightarrow> bool \<Rightarrow> memberState \<Rightarrow> memberErr option \<times> memberState" where
  "reduceAuthority reduce user changed ms =
     (case reduce of
        None \<Rightarrow> (Some NoSweepSupplied, ms)
      | Some f \<Rightarrow> (if f user changed then None else Some SweepFailed, ms\<lparr>ms_swept := ms_swept ms @ [(user, changed)]\<rparr>))"

definition idCallM :: "idCall \<Rightarrow> idOutcome \<Rightarrow> memberState \<Rightarrow> memberErr option \<times> memberState" where
  "idCallM c out ms =
     (case out of IdOk \<Rightarrow> None | IdNotFound \<Rightarrow> Some IdentityNotFound | IdFailed \<Rightarrow> Some IdentityError,
      ms\<lparr>ms_identity := ms_identity ms @ [c]\<rparr>)"

definition appTemplateName :: "(storeStmt \<Rightarrow> bool) \<Rightarrow> string option \<Rightarrow> memberState \<Rightarrow> memberErr + string option" where
  "appTemplateName flt tid ms =
     (case (tid, ms_store ms) of
        (Some i, Some s) \<Rightarrow>
          if flt StmtTemplate then Inl (StoreError StmtTemplate)
          else (case templateByID i s of None \<Rightarrow> Inl NoSuchTemplate | Some t \<Rightarrow> Inr (Some (rt_Name t)))
      | _ \<Rightarrow> Inr None)"

definition appTemplateIDByName :: "(storeStmt \<Rightarrow> bool) \<Rightarrow> string \<Rightarrow> memberState \<Rightarrow> memberErr + string option" where
  "appTemplateIDByName flt name ms =
     (case ms_store ms of
        None \<Rightarrow> Inr None
      | Some s \<Rightarrow>
          if flt StmtTemplate then Inl (StoreError StmtTemplate)
          else (case templateIDByName name s of None \<Rightarrow> Inl NoSuchTemplate | Some i \<Rightarrow> Inr (Some i)))"

text \<open>A mirror write: nothing without a mirror, an error when its statement fails.\<close>

definition mirror :: "(storeStmt \<Rightarrow> bool) \<Rightarrow> storeStmt \<Rightarrow> (roleStore \<Rightarrow> roleStore) \<Rightarrow> memberState \<Rightarrow> memberErr option \<times> memberState" where
  "mirror flt stmt f ms =
     (case ms_store ms of
        None \<Rightarrow> (None, ms)
      | Some s \<Rightarrow> if flt stmt then (Some (StoreError stmt), ms) else (None, ms\<lparr>ms_store := Some (f s)\<rparr>))"

definition mirrorSetByID ::
    "(storeStmt \<Rightarrow> bool) \<Rightarrow> int \<Rightarrow> string \<Rightarrow> string \<Rightarrow> string option \<Rightarrow> orgScope \<Rightarrow> memberState \<Rightarrow> memberErr option \<times> memberState" where
  "mirrorSetByID flt now org user tid scope = mirror flt StmtSet (setRole org user tid scope now)"

definition mirrorDelete :: "(storeStmt \<Rightarrow> bool) \<Rightarrow> string \<Rightarrow> string \<Rightarrow> orgScope \<Rightarrow> memberState \<Rightarrow> memberErr option \<times> memberState" where
  "mirrorDelete flt org user scope = mirror flt StmtDelete (deleteRole org user scope)"

definition mirrorDeleteForUser ::
    "(storeStmt \<Rightarrow> bool) \<Rightarrow> storeStmt \<Rightarrow> string \<Rightarrow> orgScope \<Rightarrow> memberState \<Rightarrow> memberErr option \<times> memberState" where
  "mirrorDeleteForUser flt stmt user scope = mirror flt stmt (deleteRolesForUser user scope)"

definition mirrorDeleteForOrganization ::
    "(storeStmt \<Rightarrow> bool) \<Rightarrow> string \<Rightarrow> orgScope \<Rightarrow> memberState \<Rightarrow> memberErr option \<times> memberState" where
  "mirrorDeleteForOrganization flt org scope = mirror flt StmtDelete (deleteRolesForOrganization org scope)"

section \<open>The writes\<close>

definition addMemberWithRoleTemplate ::
    "(storeStmt \<Rightarrow> bool) \<Rightarrow> int \<Rightarrow> idOutcome \<Rightarrow> string \<Rightarrow> string \<Rightarrow> string option \<Rightarrow> orgScope \<Rightarrow> reducer \<Rightarrow>
     memberState \<Rightarrow> memberErr option \<times> memberState" where
  "addMemberWithRoleTemplate flt now out org user tid scope reduce ms =
     (case appTemplateName flt tid ms of
        Inl e \<Rightarrow> (Some e, ms)
      | Inr name \<Rightarrow>
          (case idCallM (case name of Some n \<Rightarrow> IdAddByName org user n | None \<Rightarrow> IdAddByID org user tid) out ms of
             (Some e, ms1) \<Rightarrow> (Some e, ms1)
           | (None, ms1) \<Rightarrow>
               (case mirrorSetByID flt now org user tid scope ms1 of
                  (Some e, ms2) \<Rightarrow> (Some e, ms2)
                | (None, ms2) \<Rightarrow> reduceAuthority reduce user True ms2)))"

definition addMemberWithParams ::
    "(storeStmt \<Rightarrow> bool) \<Rightarrow> int \<Rightarrow> idOutcome \<Rightarrow> string \<Rightarrow> string \<Rightarrow> string \<Rightarrow> orgScope \<Rightarrow> reducer \<Rightarrow>
     memberState \<Rightarrow> memberErr option \<times> memberState" where
  "addMemberWithParams flt now out org user name scope reduce ms =
     (case appTemplateIDByName flt name ms of
        Inl e \<Rightarrow> (Some e, ms)
      | Inr tid \<Rightarrow>
          (case idCallM (IdAddByName org user name) out ms of
             (Some e, ms1) \<Rightarrow> (Some e, ms1)
           | (None, ms1) \<Rightarrow>
               (case mirrorSetByID flt now org user tid scope ms1 of
                  (Some e, ms2) \<Rightarrow> (Some e, ms2)
                | (None, ms2) \<Rightarrow> reduceAuthority reduce user True ms2)))"

text \<open>Whether a reassignment moves the recorded role: True where it is not known.\<close>

definition roleChanges :: "(storeStmt \<Rightarrow> bool) \<Rightarrow> string \<Rightarrow> string \<Rightarrow> string option \<Rightarrow> orgScope \<Rightarrow> memberState \<Rightarrow> bool" where
  "roleChanges flt org user tid scope ms =
     (case ms_store ms of
        None \<Rightarrow> True
      | Some s \<Rightarrow>
          if flt StmtRead then True
          else (case roleForPair org user scope s of None \<Rightarrow> True | Some before \<Rightarrow> ro_TemplateID before \<noteq> tid))"

definition finishUpdate ::
    "(storeStmt \<Rightarrow> bool) \<Rightarrow> int \<Rightarrow> idCall \<Rightarrow> idOutcome \<Rightarrow> string \<Rightarrow> string \<Rightarrow> string option \<Rightarrow> orgScope \<Rightarrow> reducer \<Rightarrow> bool \<Rightarrow>
     memberState \<Rightarrow> memberErr option \<times> memberState" where
  "finishUpdate flt now c out org user tid scope reduce changed ms =
     (case idCallM c out ms of
        (e1, ms1) \<Rightarrow>
          (case (if e1 = None then mirrorSetByID flt now org user tid scope ms1 else (e1, ms1)) of
             (e2, ms2) \<Rightarrow>
               (case reduceAuthority reduce user changed ms2 of
                  (Some e, ms3) \<Rightarrow> (Some e, ms3)
                | (None, ms3) \<Rightarrow> (e2, ms3))))"

definition updateMemberRoleTemplate ::
    "(storeStmt \<Rightarrow> bool) \<Rightarrow> int \<Rightarrow> idOutcome \<Rightarrow> string \<Rightarrow> string \<Rightarrow> string option \<Rightarrow> orgScope \<Rightarrow> reducer \<Rightarrow>
     memberState \<Rightarrow> memberErr option \<times> memberState" where
  "updateMemberRoleTemplate flt now out org user tid scope reduce ms =
     (case appTemplateName flt tid ms of
        Inl e \<Rightarrow> (Some e, ms)
      | Inr name \<Rightarrow>
          finishUpdate flt now (case name of Some n \<Rightarrow> IdUpdateByName org user n | None \<Rightarrow> IdUpdateByID org user tid)
            out org user tid scope reduce (roleChanges flt org user tid scope ms) ms)"

definition updateMemberRole ::
    "(storeStmt \<Rightarrow> bool) \<Rightarrow> int \<Rightarrow> idOutcome \<Rightarrow> string \<Rightarrow> string \<Rightarrow> string \<Rightarrow> orgScope \<Rightarrow> reducer \<Rightarrow>
     memberState \<Rightarrow> memberErr option \<times> memberState" where
  "updateMemberRole flt now out org user name scope reduce ms =
     (case appTemplateIDByName flt name ms of
        Inl e \<Rightarrow> (Some e, ms)
      | Inr tid \<Rightarrow>
          finishUpdate flt now (IdUpdateByName org user name) out org user tid scope reduce
            (if tid = None then True else roleChanges flt org user tid scope ms) ms)"

definition removeMember ::
    "(storeStmt \<Rightarrow> bool) \<Rightarrow> idOutcome \<Rightarrow> string \<Rightarrow> string \<Rightarrow> orgScope \<Rightarrow> reducer \<Rightarrow> memberState \<Rightarrow> memberErr option \<times> memberState" where
  "removeMember flt out org user scope reduce ms =
     (case mirrorDelete flt org user scope ms of
        (Some e, ms1) \<Rightarrow> (Some e, ms1)
      | (None, ms1) \<Rightarrow>
          (case idCallM (IdRemove org user) out ms1 of
             (e, ms2) \<Rightarrow>
               (case reduceAuthority reduce user (out \<noteq> IdNotFound) ms2 of
                  (Some e', ms3) \<Rightarrow> (Some e', ms3)
                | (None, ms3) \<Rightarrow> (e, ms3))))"

text \<open>\<open>removed\<close> is the scope identity reports it emptied.\<close>

definition removeAllMembershipsForUser ::
    "(storeStmt \<Rightarrow> bool) \<Rightarrow> idOutcome \<Rightarrow> orgScope \<Rightarrow> string \<Rightarrow> orgScope \<Rightarrow> reducer \<Rightarrow> memberState \<Rightarrow>
     memberErr option \<times> memberState" where
  "removeAllMembershipsForUser flt out removed user scope reduce ms =
     (case mirrorDeleteForUser flt StmtDelete user scope ms of
        (Some e, ms1) \<Rightarrow> (Some e, ms1)
      | (None, ms1) \<Rightarrow>
          (case idCallM (IdRemoveAll user) out ms1 of
             (Some e, ms2) \<Rightarrow> (Some e, ms2)
           | (None, ms2) \<Rightarrow>
               (case mirrorDeleteForUser flt StmtDeleteAgain user removed ms2 of
                  (Some e, ms3) \<Rightarrow> (Some e, ms3)
                | (None, ms3) \<Rightarrow> reduceAuthority reduce user True ms3)))"

fun sweepMembers :: "reducer \<Rightarrow> string list \<Rightarrow> memberState \<Rightarrow> memberErr option \<times> memberState" where
  "sweepMembers reduce [] ms = (None, ms)"
| "sweepMembers reduce (u # us) ms =
     (case reduceAuthority reduce u True ms of
        (Some e, ms1) \<Rightarrow> (Some e, ms1)
      | (None, ms1) \<Rightarrow> sweepMembers reduce us ms1)"

text \<open>The members identity lists for the organization, None when the listing fails.\<close>

definition deleteOrganization ::
    "(storeStmt \<Rightarrow> bool) \<Rightarrow> string list option \<Rightarrow> idOutcome \<Rightarrow> string \<Rightarrow> orgScope \<Rightarrow> reducer \<Rightarrow> memberState \<Rightarrow>
     memberErr option \<times> memberState" where
  "deleteOrganization flt members out org scope reduce ms =
     (case members of
        None \<Rightarrow> (Some IdentityError, ms)
      | Some us \<Rightarrow>
          (case mirrorDeleteForOrganization flt org scope ms of
             (Some e, ms1) \<Rightarrow> (Some e, ms1)
           | (None, ms1) \<Rightarrow>
               (case idCallM (IdDeleteOrg org) out ms1 of
                  (Some e, ms2) \<Rightarrow> (Some e, ms2)
                | (None, ms2) \<Rightarrow> sweepMembers reduce us ms2)))"

definition purgeUserRoles :: "(storeStmt \<Rightarrow> bool) \<Rightarrow> string \<Rightarrow> orgScope \<Rightarrow> memberState \<Rightarrow> memberState" where
  "purgeUserRoles flt user scope ms = snd (mirrorDeleteForUser flt StmtDelete user scope ms)"

section \<open>The reads\<close>

text \<open>A membership as identity lists it: the organization; its role columns are overwritten.\<close>

definition getUserMemberships ::
    "(storeStmt \<Rightarrow> bool) \<Rightarrow> string list option \<Rightarrow> string \<Rightarrow> memberState \<Rightarrow> memberErr + (string \<times> role) list" where
  "getUserMemberships flt orgs user ms =
     (case ms_store ms of
        None \<Rightarrow> Inl NoAppStore
      | Some s \<Rightarrow>
          (case orgs of
             None \<Rightarrow> Inl IdentityError
           | Some os \<Rightarrow>
               if os = [] then Inr []
               else if flt StmtRead then Inl (StoreError StmtRead)
               else Inr (map (\<lambda>o'. (o', case rolesForUser user allOrgs s o' of None \<Rightarrow> noRole | Some r \<Rightarrow> r)) os)))"

definition getUserCombinedScopes ::
    "(storeStmt \<Rightarrow> bool) \<Rightarrow> string list option \<Rightarrow> string \<Rightarrow> memberState \<Rightarrow> memberErr + string list" where
  "getUserCombinedScopes flt orgs user ms =
     (case getUserMemberships flt orgs user ms of
        Inl e \<Rightarrow> Inl e
      | Inr rows \<Rightarrow> Inr (remdups (concat (map (ro_Scopes \<circ> snd) rows))))"

text \<open>\<open>hasScope\<close> is \<open>idauth.HasScope\<close> with the given pairs; the result is the set of organizations.\<close>

definition orgScopeForUser ::
    "(storeStmt \<Rightarrow> bool) \<Rightarrow> (string list \<Rightarrow> string \<Rightarrow> bool) \<Rightarrow> string list option \<Rightarrow> string \<Rightarrow> string \<Rightarrow> memberState \<Rightarrow>
     memberErr + string list" where
  "orgScopeForUser flt hasScope orgs user required ms =
     (if user = [] then Inr []
      else (case getUserMemberships flt orgs user ms of
              Inl e \<Rightarrow> Inl e
            | Inr rows \<Rightarrow> Inr (map fst (filter (\<lambda>r. hasScope (ro_Scopes (snd r)) required) rows))))"

text \<open>\<open>GetMemberWithRole\<close>: the answer of identity decides whether there is a member, the mirror the
  role. \<open>applyToMemberWithUser\<close> overwrites all four role columns, so a row is its role.\<close>

definition getMemberWithRole ::
    "(storeStmt \<Rightarrow> bool) \<Rightarrow> idOutcome \<Rightarrow> string \<Rightarrow> string \<Rightarrow> orgScope \<Rightarrow> memberState \<Rightarrow> memberErr + role" where
  "getMemberWithRole flt out org user scope ms =
     (case ms_store ms of
        None \<Rightarrow> Inl NoAppStore
      | Some s \<Rightarrow>
          (case out of
             IdNotFound \<Rightarrow> Inl IdentityNotFound
           | IdFailed \<Rightarrow> Inl IdentityError
           | IdOk \<Rightarrow>
               if flt StmtRead then Inl (StoreError StmtRead)
               else Inr (case roleForPair org user scope s of None \<Rightarrow> noRole | Some r \<Rightarrow> r)))"

definition getUserScopesForOrg ::
    "(storeStmt \<Rightarrow> bool) \<Rightarrow> idOutcome \<Rightarrow> string \<Rightarrow> string \<Rightarrow> memberState \<Rightarrow> memberErr + string list" where
  "getUserScopesForOrg flt out user org ms =
     (case getMemberWithRole flt out org user allOrgs ms of
        Inl IdentityNotFound \<Rightarrow> Inr []
      | Inl e \<Rightarrow> Inl e
      | Inr r \<Rightarrow> Inr (remdups (ro_Scopes r)))"

text \<open>\<open>GetMember\<close> overwrites the template id only; its row is never nil when identity answers.\<close>

definition getMember ::
    "(storeStmt \<Rightarrow> bool) \<Rightarrow> idOutcome \<Rightarrow> string \<Rightarrow> string \<Rightarrow> orgScope \<Rightarrow> memberState \<Rightarrow> memberErr + string option" where
  "getMember flt out org user scope ms =
     (case getMemberWithRole flt out org user scope ms of Inl e \<Rightarrow> Inl e | Inr r \<Rightarrow> Inr (ro_TemplateID r))"

definition checkMembership ::
    "(storeStmt \<Rightarrow> bool) \<Rightarrow> idOutcome \<Rightarrow> string \<Rightarrow> string \<Rightarrow> orgScope \<Rightarrow> memberState \<Rightarrow> memberErr + bool \<times> string option" where
  "checkMembership flt out org user scope ms =
     (case getMember flt out org user scope ms of
        Inl IdentityNotFound \<Rightarrow> Inr (False, None)
      | Inl e \<Rightarrow> Inl e
      | Inr tid \<Rightarrow> Inr (True, tid))"

text \<open>The rows of identity are the user ids, None where the listing fails.\<close>

definition listMembersWithUsers ::
    "(storeStmt \<Rightarrow> bool) \<Rightarrow> string list option \<Rightarrow> string \<Rightarrow> orgScope \<Rightarrow> memberState \<Rightarrow> memberErr + (string \<times> role) list" where
  "listMembersWithUsers flt users org scope ms =
     (case ms_store ms of
        None \<Rightarrow> Inl NoAppStore
      | Some s \<Rightarrow>
          (case users of
             None \<Rightarrow> Inl IdentityError
           | Some us \<Rightarrow>
               if us = [] then Inr []
               else if flt StmtRead then Inl (StoreError StmtRead)
               else Inr (map (\<lambda>u. (u, case rolesForOrganization org scope s u of None \<Rightarrow> noRole | Some r \<Rightarrow> r)) us)))"

definition listMembers ::
    "(storeStmt \<Rightarrow> bool) \<Rightarrow> string list option \<Rightarrow> string \<Rightarrow> orgScope \<Rightarrow> memberState \<Rightarrow> memberErr + (string \<times> string option) list" where
  "listMembers flt users org scope ms =
     (case listMembersWithUsers flt users org scope ms of
        Inl e \<Rightarrow> Inl e
      | Inr rows \<Rightarrow> Inr (map (\<lambda>r. (fst r, ro_TemplateID (snd r))) rows))"

section \<open>Revocations\<close>

lemma mirror_keeps [simp]:
  "mirror flt stmt f ms = (e, ms') \<Longrightarrow> ms_identity ms' = ms_identity ms"
  "mirror flt stmt f ms = (e, ms') \<Longrightarrow> ms_swept ms' = ms_swept ms"
  by (auto simp: mirror_def split: option.splits if_splits)

lemma reduceAuthority_keeps:
  "reduceAuthority reduce user changed ms = (e, ms') \<Longrightarrow> ms_store ms' = ms_store ms \<and> ms_identity ms' = ms_identity ms"
  by (auto simp: reduceAuthority_def split: option.splits)

lemma reduceAuthority_sweeps:
  "reduceAuthority reduce user changed ms = (e, ms') \<Longrightarrow>
   if reduce = None then e = Some NoSweepSupplied else ms_swept ms' = ms_swept ms @ [(user, changed)]"
  by (auto simp: reduceAuthority_def split: option.splits)

lemma sweepMembers_keeps:
  "sweepMembers reduce us ms = (e, ms') \<Longrightarrow> ms_store ms' = ms_store ms \<and> ms_identity ms' = ms_identity ms"
  by (induction us arbitrary: ms) (auto split: prod.splits option.splits dest!: reduceAuthority_keeps)

lemma idCallM_keeps: "idCallM c out ms = (e, ms') \<Longrightarrow> ms_store ms' = ms_store ms"
  by (auto simp: idCallM_def)

definition gone :: "(assignment \<Rightarrow> bool) \<Rightarrow> memberState \<Rightarrow> bool" where
  "gone p ms = (case ms_store ms of None \<Rightarrow> True | Some s \<Rightarrow> \<forall>a \<in> set (st_Assignments s). \<not> p a)"

lemma gone_cong: "ms_store ms' = ms_store ms \<Longrightarrow> gone p ms' = gone p ms"
  by (simp add: gone_def)

lemma mirror_delete_gone:
  "mirror flt stmt (deleteWhere p scope) ms = (None, ms') \<Longrightarrow> gone (\<lambda>a. p a \<and> scope (as_Org a)) ms'"
  by (auto simp: mirror_def gone_def deleteWhere_def split: option.splits if_splits)

lemma gone_deleteWhere: "gone p ms \<Longrightarrow> mirror flt stmt (deleteWhere q scope) ms = (e, ms') \<Longrightarrow> gone p ms'"
  by (auto simp: mirror_def gone_def deleteWhere_def split: option.splits if_splits)

lemmas mirror_defs = mirrorDelete_def mirrorDeleteForUser_def mirrorDeleteForOrganization_def
  deleteRole_def deleteRolesForUser_def deleteRolesForOrganization_def

lemma removeMember_gone:
  assumes "removeMember flt out org user scope reduce ms = (e, ms')" "ms_identity ms' \<noteq> ms_identity ms"
  shows "gone (\<lambda>a. isPair org user a \<and> scope (as_Org a)) ms'"
    "if reduce = None then e \<noteq> None else ms_swept ms' = ms_swept ms @ [(user, out \<noteq> IdNotFound)]"
proof -
  from assms obtain ms1 ms2 e2 where
    m: "mirror flt StmtDelete (deleteWhere (isPair org user) scope) ms = (None, ms1)"
    and i: "idCallM (IdRemove org user) out ms1 = (e2, ms2)"
    and r: "\<exists>e3. reduceAuthority reduce user (out \<noteq> IdNotFound) ms2 = (e3, ms') \<and> (e = None \<longrightarrow> e3 = None)"
    by (auto simp: removeMember_def mirror_defs split: prod.splits option.splits)
  show "gone (\<lambda>a. isPair org user a \<and> scope (as_Org a)) ms'"
    using mirror_delete_gone[OF m] idCallM_keeps[OF i] r gone_cong[of ms' ms1] by (auto dest!: reduceAuthority_keeps)
  have "ms_swept ms2 = ms_swept ms" using m i by (auto simp: idCallM_def)
  with r show "if reduce = None then e \<noteq> None else ms_swept ms' = ms_swept ms @ [(user, out \<noteq> IdNotFound)]"
    by (auto dest!: reduceAuthority_sweeps split: if_splits)
qed

lemma removeAll_gone:
  assumes "removeAllMembershipsForUser flt out removed user scope reduce ms = (e, ms')" "ms_identity ms' \<noteq> ms_identity ms"
  shows "gone (\<lambda>a. as_User a = user \<and> scope (as_Org a)) ms'"
proof -
  obtain e1 ms1 where m: "mirror flt StmtDelete (deleteWhere (\<lambda>a. as_User a = user) scope) ms = (e1, ms1)"
    by fastforce
  obtain e2 ms2 where i: "idCallM (IdRemoveAll user) out ms1 = (e2, ms2)" by fastforce
  obtain e3 ms3 where n: "mirror flt StmtDeleteAgain (deleteWhere (\<lambda>a. as_User a = user) removed) ms2 = (e3, ms3)"
    by fastforce
  obtain e4 ms4 where r: "reduceAuthority reduce user True ms3 = (e4, ms4)" by fastforce
  have e1: "e1 = None" using assms m by (cases e1) (auto simp: removeAllMembershipsForUser_def mirror_defs)
  with assms(1) m i n r have "ms' \<in> {ms2, ms3, ms4}"
    by (cases e2; cases e3) (auto simp: removeAllMembershipsForUser_def mirror_defs)
  moreover have g2: "gone (\<lambda>a. as_User a = user \<and> scope (as_Org a)) ms2"
    using mirror_delete_gone[OF m[unfolded e1]] idCallM_keeps[OF i] gone_cong[of ms2 ms1] by simp
  moreover have g3: "gone (\<lambda>a. as_User a = user \<and> scope (as_Org a)) ms3" by (rule gone_deleteWhere[OF g2 n])
  moreover have "gone (\<lambda>a. as_User a = user \<and> scope (as_Org a)) ms4"
    using g3 reduceAuthority_keeps[OF r] gone_cong[of ms4 ms3] by simp
  ultimately show ?thesis by blast
qed

lemma deleteOrganization_gone:
  assumes "deleteOrganization flt members out org scope reduce ms = (e, ms')" "ms_identity ms' \<noteq> ms_identity ms"
  shows "gone (\<lambda>a. as_Org a = org \<and> scope (as_Org a)) ms'"
proof -
  from assms obtain us ms1 ms2 e2 where
    m: "mirror flt StmtDelete (deleteWhere (\<lambda>a. as_Org a = org) scope) ms = (None, ms1)"
    and i: "idCallM (IdDeleteOrg org) out ms1 = (e2, ms2)"
    and r: "ms' = ms2 \<or> (\<exists>e3. sweepMembers reduce us ms2 = (e3, ms'))"
    by (auto simp: deleteOrganization_def mirror_defs split: prod.splits option.splits)
  from r have "ms_store ms' = ms_store ms2" by (auto dest!: sweepMembers_keeps)
  with mirror_delete_gone[OF m] idCallM_keeps[OF i] gone_cong[of ms' ms1] show ?thesis by simp
qed

text \<open>C13: A revocation never leaves this application granting what identity no longer does. By the
  time any of the three revocations asks identity to remove a membership, whatever identity then
  answers, no role of that membership inside the caller's scope is left in the mirror; and the
  removal of one member has swept that member's credentials, or answers an error without a sweep.\<close>

theorem revocation_clears_mirror_first:
  "(removeMember flt out org user scope reduce ms = (e, ms') \<and> ms_identity ms' \<noteq> ms_identity ms \<longrightarrow>
      gone (\<lambda>a. isPair org user a \<and> scope (as_Org a)) ms'
      \<and> (if reduce = None then e \<noteq> None else ms_swept ms' = ms_swept ms @ [(user, out \<noteq> IdNotFound)]))
   \<and> (removeAllMembershipsForUser flt out removed user scope reduce ms = (e, ms') \<and> ms_identity ms' \<noteq> ms_identity ms \<longrightarrow>
      gone (\<lambda>a. as_User a = user \<and> scope (as_Org a)) ms')
   \<and> (deleteOrganization flt members out org scope reduce ms = (e, ms') \<and> ms_identity ms' \<noteq> ms_identity ms \<longrightarrow>
      gone (\<lambda>a. as_Org a = org \<and> scope (as_Org a)) ms')"
  using removeMember_gone[of flt out org user scope reduce ms e ms'] removeAll_gone[of flt out removed user scope reduce ms e ms']
    deleteOrganization_gone[of flt members out org scope reduce ms e ms'] by blast

definition sampleMembers :: memberState where
  "sampleMembers = \<lparr>ms_store = Some (sampleStore\<lparr>st_Templates := [\<lparr>rt_ID = ''admin'', rt_Name = ''n'', rt_DisplayName = [],
      rt_Description = None, rt_Scopes = [''state:read''], rt_IsSystem = True\<rparr>]\<rparr>), ms_identity = [], ms_swept = []\<rparr>"

theorem revocation_clears_mirror_first_witness:
  "gone (isPair ''a'' ''u'') (snd (removeMember (\<lambda>_. False) IdFailed ''a'' ''u'' allOrgs (Some (\<lambda>_ _. True)) sampleMembers))"
proof -
  let ?run = "removeMember (\<lambda>_. False) IdFailed ''a'' ''u'' allOrgs (Some (\<lambda>_ _. True)) sampleMembers"
  have "ms_identity (snd ?run) \<noteq> ms_identity sampleMembers" by code_simp
  with conjunct1[OF revocation_clears_mirror_first, of "\<lambda>_. False" IdFailed "''a''" "''u''" allOrgs "Some (\<lambda>_ _. True)"
      sampleMembers "fst ?run" "snd ?run"]
  show ?thesis by (simp add: allOrgs_def)
qed

section \<open>Deleting an organization\<close>

lemma sweepMembers_prefix:
  "sweepMembers (Some f) us ms =
     (if takeWhile (\<lambda>u. f u True) us = us then None else Some SweepFailed,
      ms\<lparr>ms_swept := ms_swept ms @ map (\<lambda>u. (u, True)) (take (Suc (length (takeWhile (\<lambda>u. f u True) us))) us)\<rparr>)"
  by (induction us arbitrary: ms) (auto simp: reduceAuthority_def takeWhile_eq_all_conv[THEN iffD2])

text \<open>The sweep of a deleted organization stops at the first member whose sweep fails. The members
  before it and that one are swept, those after it are not; the organization is gone by then, so
  that a repeated deletion, for which identity lists nobody, sweeps nobody either.\<close>

theorem organization_delete_sweeps:
  assumes "\<not> flt StmtDelete"
    and "deleteOrganization flt (Some us) IdOk org scope (Some f) ms = (e, ms')"
  shows "ms_swept ms' = ms_swept ms @ map (\<lambda>u. (u, True)) (take (Suc (length (takeWhile (\<lambda>u. f u True) us))) us)
    \<and> e = (if takeWhile (\<lambda>u. f u True) us = us then None else Some SweepFailed)
    \<and> ms_swept (snd (deleteOrganization flt' (Some []) out' org scope' reduce' ms')) = ms_swept ms'"
proof -
  obtain e1 ms1 where m: "mirrorDeleteForOrganization flt org scope ms = (e1, ms1)" by fastforce
  have e1: "e1 = None" "ms_swept ms1 = ms_swept ms"
    using m assms(1) by (cases "ms_store ms"; fastforce simp: mirrorDeleteForOrganization_def mirror_def)+
  have "sweepMembers (Some f) us (ms1\<lparr>ms_identity := ms_identity ms1 @ [IdDeleteOrg org]\<rparr>) = (e, ms')"
    using assms(2) m e1 by (simp add: deleteOrganization_def idCallM_def)
  then have "ms_swept ms' = ms_swept ms @ map (\<lambda>u. (u, True)) (take (Suc (length (takeWhile (\<lambda>u. f u True) us))) us)"
    "e = (if takeWhile (\<lambda>u. f u True) us = us then None else Some SweepFailed)"
    using e1 unfolding sweepMembers_prefix prod.inject by auto
  moreover have "ms_swept (snd (deleteOrganization flt' (Some []) out' org scope' reduce' ms')) = ms_swept ms'"
    by (cases "ms_store ms'"; cases out'; simp add: deleteOrganization_def mirrorDeleteForOrganization_def mirror_def idCallM_def)
  ultimately show ?thesis by blast
qed

theorem organization_delete_sweeps_witness:
  "ms_swept (snd (deleteOrganization (\<lambda>_. False) (Some [''u'', ''v'', ''w'']) IdOk ''a'' allOrgs (Some (\<lambda>u _. u \<noteq> ''v'')) sampleMembers))
     = [(''u'', True), (''v'', True)]"
proof -
  let ?run = "deleteOrganization (\<lambda>_. False) (Some [''u'', ''v'', ''w'']) IdOk ''a'' allOrgs (Some (\<lambda>u _. u \<noteq> ''v'')) sampleMembers"
  have "?run = (fst ?run, snd ?run)" by simp
  from conjunct1[OF organization_delete_sweeps[OF _ this]] show ?thesis by (simp add: sampleMembers_def)
qed

section \<open>Grants\<close>

lemma mirrorSet_change:
  assumes "mirrorSetByID flt now org user tid scope ms = (e, ms')" "ms_store ms' \<noteq> ms_store ms"
  obtains s where "ms_store ms = Some s" "ms_store ms' = Some (setRole org user tid scope now s)"
  using assms by (auto simp: mirrorSetByID_def mirror_def split: option.splits if_splits)

definition grantEffect :: "string \<Rightarrow> string \<Rightarrow> string option \<Rightarrow> orgScope \<Rightarrow> int \<Rightarrow> memberState \<Rightarrow> memberState \<Rightarrow> bool" where
  "grantEffect org user tid scope now ms ms' =
     (case ms_store ms of None \<Rightarrow> False | Some s \<Rightarrow> ms_store ms' = Some (setRole org user tid scope now s))"

lemma mirrorSet_effect:
  "mirrorSetByID flt now org user tid scope ms = (e, ms') \<Longrightarrow> ms_store ms' = ms_store ms \<or> grantEffect org user tid scope now ms ms'"
  by (auto simp: mirrorSetByID_def mirror_def grantEffect_def split: option.splits if_splits)

lemma grantEffect_cong:
  "grantEffect org user tid scope now ms1 ms2 \<Longrightarrow> ms_store ms1 = ms_store ms \<Longrightarrow> ms_store ms' = ms_store ms2 \<Longrightarrow>
   grantEffect org user tid scope now ms ms'"
  by (simp add: grantEffect_def split: option.splits)

lemma add_effect:
  assumes "addMemberWithRoleTemplate flt now out org user tid scope reduce ms = (e, ms')" "ms_store ms' \<noteq> ms_store ms"
  shows "out = IdOk \<and> grantEffect org user tid scope now ms ms'"
proof -
  obtain name where n: "appTemplateName flt tid ms = Inr name"
    using assms by (cases "appTemplateName flt tid ms") (auto simp: addMemberWithRoleTemplate_def)
  let ?c = "case name of Some n \<Rightarrow> IdAddByName org user n | None \<Rightarrow> IdAddByID org user tid"
  obtain e1 ms1 where i: "idCallM ?c out ms = (e1, ms1)" by fastforce
  obtain e2 ms2 where m: "mirrorSetByID flt now org user tid scope ms1 = (e2, ms2)" by fastforce
  obtain e3 ms3 where r: "reduceAuthority reduce user True ms2 = (e3, ms3)" by fastforce
  have s1: "ms_store ms1 = ms_store ms" by (rule idCallM_keeps[OF i])
  have s3: "ms_store ms3 = ms_store ms2" using reduceAuthority_keeps[OF r] by simp
  have e1: "e1 = None" using assms n i s1 by (cases e1) (auto simp: addMemberWithRoleTemplate_def)
  then have "out = IdOk" using i by (cases out) (auto simp: idCallM_def)
  have "ms_store ms' = ms_store ms2"
    using assms(1) n i m r e1 s3 by (cases e2) (auto simp: addMemberWithRoleTemplate_def)
  with mirrorSet_effect[OF m] s1 assms(2) \<open>out = IdOk\<close> show ?thesis using grantEffect_cong by metis
qed

lemma addParams_effect:
  assumes "addMemberWithParams flt now out org user name scope reduce ms = (e, ms')" "ms_store ms' \<noteq> ms_store ms"
  shows "\<exists>tid. appTemplateIDByName flt name ms = Inr tid \<and> out = IdOk \<and> grantEffect org user tid scope now ms ms'"
proof -
  obtain tid where n: "appTemplateIDByName flt name ms = Inr tid"
    using assms by (cases "appTemplateIDByName flt name ms") (auto simp: addMemberWithParams_def)
  obtain e1 ms1 where i: "idCallM (IdAddByName org user name) out ms = (e1, ms1)" by fastforce
  obtain e2 ms2 where m: "mirrorSetByID flt now org user tid scope ms1 = (e2, ms2)" by fastforce
  obtain e3 ms3 where r: "reduceAuthority reduce user True ms2 = (e3, ms3)" by fastforce
  have s1: "ms_store ms1 = ms_store ms" by (rule idCallM_keeps[OF i])
  have s3: "ms_store ms3 = ms_store ms2" using reduceAuthority_keeps[OF r] by simp
  have e1: "e1 = None" using assms n i s1 by (cases e1) (auto simp: addMemberWithParams_def)
  then have "out = IdOk" using i by (cases out) (auto simp: idCallM_def)
  have "ms_store ms' = ms_store ms2"
    using assms(1) n i m r e1 s3 by (cases e2) (auto simp: addMemberWithParams_def)
  with mirrorSet_effect[OF m] s1 assms(2) \<open>out = IdOk\<close> n show ?thesis using grantEffect_cong by metis
qed

lemma finishUpdate_effect:
  assumes "finishUpdate flt now c out org user tid scope reduce changed ms = (e, ms')"
  shows "ms_store ms' = ms_store ms \<or> out = IdOk \<and> grantEffect org user tid scope now ms ms'"
    "if reduce = None then e = Some NoSweepSupplied else ms_swept ms' = ms_swept ms @ [(user, changed)]"
proof -
  obtain e1 ms1 where i: "idCallM c out ms = (e1, ms1)" by fastforce
  obtain e2 ms2 where m: "(if e1 = None then mirrorSetByID flt now org user tid scope ms1 else (e1, ms1)) = (e2, ms2)" by fastforce
  obtain e3 ms3 where r: "reduceAuthority reduce user changed ms2 = (e3, ms3)" by fastforce
  have s1: "ms_store ms1 = ms_store ms" "ms_swept ms1 = ms_swept ms" using i by (auto simp: idCallM_def)
  have ms': "ms' = ms3" "e3 \<noteq> None \<Longrightarrow> e = e3" using assms i m r by (auto simp: finishUpdate_def split: option.splits)
  have s3: "ms_store ms3 = ms_store ms2" using reduceAuthority_keeps[OF r] by simp
  have "ms_swept ms2 = ms_swept ms" using m s1(2) by (auto simp: mirrorSetByID_def split: if_splits)
  then show "if reduce = None then e = Some NoSweepSupplied else ms_swept ms' = ms_swept ms @ [(user, changed)]"
    using reduceAuthority_sweeps[OF r] ms' by (auto split: if_splits)
  show "ms_store ms' = ms_store ms \<or> out = IdOk \<and> grantEffect org user tid scope now ms ms'"
  proof (cases "e1 = None")
    case True
    then have "out = IdOk" using i by (cases out) (auto simp: idCallM_def)
    moreover have "ms_store ms2 = ms_store ms1 \<or> grantEffect org user tid scope now ms1 ms2"
      using m True mirrorSet_effect by simp
    ultimately show ?thesis using s1(1) s3 ms'(1) grantEffect_cong by metis
  next
    case False
    then have "ms2 = ms1" using m by (cases e1) auto
    then show ?thesis using s1(1) s3 ms'(1) by simp
  qed
qed

text \<open>A grant never runs ahead of identity. A new member or a reassignment, by template or by name,
  changes the mirror only after identity accepted the same call, and then only by recording the
  template the caller named for that organization and user, inside the caller's scope.\<close>

theorem grants_follow_identity:
  assumes "ms_store ms' \<noteq> ms_store ms"
    and "addMemberWithRoleTemplate flt now out org user tid scope reduce ms = (e, ms')
      \<or> updateMemberRoleTemplate flt now out org user tid scope reduce ms = (e, ms')
      \<or> appTemplateIDByName flt name ms = Inr tid
        \<and> (addMemberWithParams flt now out org user name scope reduce ms = (e, ms')
           \<or> updateMemberRole flt now out org user name scope reduce ms = (e, ms'))"
  shows "out = IdOk \<and> grantEffect org user tid scope now ms ms'"
  using assms(2)
proof (elim disjE conjE)
  assume "addMemberWithRoleTemplate flt now out org user tid scope reduce ms = (e, ms')"
  from add_effect[OF this assms(1)] show ?thesis .
next
  assume u: "updateMemberRoleTemplate flt now out org user tid scope reduce ms = (e, ms')"
  then obtain name' where "appTemplateName flt tid ms = Inr name'"
    using assms(1) by (cases "appTemplateName flt tid ms") (auto simp: updateMemberRoleTemplate_def)
  with u have "\<exists>c changed. finishUpdate flt now c out org user tid scope reduce changed ms = (e, ms')"
    by (auto simp: updateMemberRoleTemplate_def)
  with finishUpdate_effect(1) assms(1) show ?thesis by metis
next
  assume n: "appTemplateIDByName flt name ms = Inr tid"
  assume "addMemberWithParams flt now out org user name scope reduce ms = (e, ms')"
  from addParams_effect[OF this assms(1)] n show ?thesis by auto
next
  assume n: "appTemplateIDByName flt name ms = Inr tid"
  assume "updateMemberRole flt now out org user name scope reduce ms = (e, ms')"
  with n have "\<exists>c changed. finishUpdate flt now c out org user tid scope reduce changed ms = (e, ms')"
    unfolding updateMemberRole_def by auto
  with finishUpdate_effect(1) assms(1) show ?thesis by metis
qed

theorem grants_follow_identity_witness:
  "grantEffect ''a'' ''u'' None allOrgs 7 sampleMembers
     (snd (updateMemberRoleTemplate (\<lambda>_. False) 7 IdOk ''a'' ''u'' None allOrgs (Some (\<lambda>_ _. True)) sampleMembers))"
proof -
  let ?run = "updateMemberRoleTemplate (\<lambda>_. False) 7 IdOk ''a'' ''u'' None allOrgs (Some (\<lambda>_ _. True)) sampleMembers"
  have "case ms_store (snd ?run) of None \<Rightarrow> False | Some s \<Rightarrow> map as_MirroredAt (st_Assignments s) = [7, 1]" by code_simp
  then have "ms_store (snd ?run) \<noteq> ms_store sampleMembers"
    by (auto simp: sampleMembers_def sampleStore_def split: option.splits)
  from conjunct2[OF grants_follow_identity[OF this disjI2[OF disjI1]]] show ?thesis by (metis prod.collapse)
qed

section \<open>Reassignments\<close>

lemma roleChanges_sound:
  assumes "ms_store ms = Some s" "\<not> roleChanges flt org user tid scope ms"
  shows "\<exists>r. roleForPair org user scope s = Some r \<and> ro_TemplateID r = tid \<and> \<not> flt StmtRead"
  using assms by (auto simp: roleChanges_def split: option.splits if_splits)

lemma joinRole_template [simp]: "ro_TemplateID (joinRole s a) = as_Role a"
  by (simp add: joinRole_def noRole_def split: option.splits)

lemma roleForPair_template:
  "map_option ro_TemplateID (roleForPair org user scope s) =
   (if scope org then map_option as_Role (List.find (isPair org user) (st_Assignments s)) else None)"
proof -
  have "List.find (\<lambda>a. isPair org user a \<and> scope (as_Org a)) xs = (if scope org then List.find (isPair org user) xs else None)" for xs
    by (induction xs) (auto simp: isPair_def[abs_def])
  then show ?thesis by (simp add: roleForPair_def option.map_comp comp_def)
qed

lemma find_set_role:
  "List.find (isPair org user) (st_Assignments (setRole org user tid scope now s)) =
   (if scope org then Some (case List.find (isPair org user) (st_Assignments s) of
        None \<Rightarrow> \<lparr>as_Org = org, as_User = user, as_Role = tid, as_MirroredAt = now\<rparr>
      | Some a \<Rightarrow> a\<lparr>as_Role := tid, as_MirroredAt := now\<rparr>)
    else List.find (isPair org user) (st_Assignments s))"
proof (cases "\<exists>a \<in> set (st_Assignments s). isPair org user a")
  case True
  let ?f = "\<lambda>a. if isPair org user a then a\<lparr>as_Role := tid, as_MirroredAt := now\<rparr> else a"
  have "List.find (isPair org user) (map ?f xs) = map_option ?f (List.find (isPair org user) xs)" for xs
    by (rule find_map_pair) (auto simp: isPair_def)
  moreover obtain a where "List.find (isPair org user) (st_Assignments s) = Some a"
    using True by (cases "List.find (isPair org user) (st_Assignments s)") (auto simp: find_pair_None)
  moreover from this have "isPair org user a" using find_SomeD by metis
  ultimately show ?thesis using True by (simp add: setRole_def)
next
  case False
  then have "List.find (isPair org user) (st_Assignments s) = None" by (simp add: find_pair_None)
  moreover have "isPair org user \<lparr>as_Org = org, as_User = user, as_Role = tid, as_MirroredAt = now\<rparr>" by (simp add: isPair_def)
  ultimately show ?thesis using False by (simp add: setRole_def find_snoc)
qed

text \<open>The role the store records for a pair, None where it has no row the scope admits.\<close>

abbreviation recorded :: "string \<Rightarrow> string \<Rightarrow> orgScope \<Rightarrow> roleStore \<Rightarrow> string option option" where
  "recorded org user scope s \<equiv> map_option ro_TemplateID (roleForPair org user scope s)"

text \<open>A reassignment that moves the recorded role is always followed by a sweep that ends the
  sessions of the user, whatever the outcome of the statements; one to the role already held,
  when it could be read, sweeps the credentials and leaves the sessions alone.\<close>

theorem reassignment_swept:
  assumes "updateMemberRoleTemplate flt now out org user tid scope (Some f) ms = (e, ms')"
    and "ms_store ms = Some s" "ms_store ms' = Some s'"
    and "appTemplateName flt tid ms \<noteq> Inl NoSuchTemplate" "\<not> flt StmtTemplate"
  shows "ms_swept ms' = ms_swept ms @ [(user, recorded org user scope s \<noteq> Some tid \<or> flt StmtRead)]
    \<and> (recorded org user scope s' \<noteq> recorded org user scope s \<longrightarrow> last (ms_swept ms') = (user, True))"
proof -
  obtain name where n: "appTemplateName flt tid ms = Inr name"
    using assms(2,4,5) by (auto simp: appTemplateName_def split: option.splits)
  from assms(1) n obtain c where
    u: "finishUpdate flt now c out org user tid scope (Some f) (roleChanges flt org user tid scope ms) ms = (e, ms')"
    by (auto simp: updateMemberRoleTemplate_def)
  have ch: "roleChanges flt org user tid scope ms = (recorded org user scope s \<noteq> Some tid \<or> flt StmtRead)"
    using assms(2) by (auto simp: roleChanges_def split: option.splits)
  have sw: "ms_swept ms' = ms_swept ms @ [(user, recorded org user scope s \<noteq> Some tid \<or> flt StmtRead)]"
    using finishUpdate_effect(2)[OF u] ch by simp
  have "recorded org user scope s' = recorded org user scope s" if "recorded org user scope s = Some tid"
  proof -
    from finishUpdate_effect(1)[OF u] assms(2,3) have "s' = s \<or> s' = setRole org user tid scope now s"
      by (auto simp: grantEffect_def)
    then show ?thesis using that by (auto simp: roleForPair_template find_set_role split: if_splits option.splits)
  qed
  with sw show ?thesis by auto
qed

theorem reassignment_swept_witness:
  "ms_swept (snd (updateMemberRoleTemplate (\<lambda>_. False) 7 IdFailed ''a'' ''u'' None allOrgs (Some (\<lambda>_ _. True)) sampleMembers))
     = [(''u'', True)]"
proof -
  let ?run = "updateMemberRoleTemplate (\<lambda>_. False) 7 IdFailed ''a'' ''u'' None allOrgs (Some (\<lambda>_ _. True)) sampleMembers"
  obtain s where s: "ms_store sampleMembers = Some s" by (simp add: sampleMembers_def)
  have "case ms_store (snd ?run) of None \<Rightarrow> False | Some _ \<Rightarrow> True" by code_simp
  then obtain s' where s': "ms_store (snd ?run) = Some s'" by (auto split: option.splits)
  have "case appTemplateName (\<lambda>_. False) None sampleMembers of Inl _ \<Rightarrow> False | Inr _ \<Rightarrow> True" by code_simp
  then have n: "appTemplateName (\<lambda>_. False) None sampleMembers \<noteq> Inl NoSuchTemplate" by (auto split: sum.splits)
  have "?run = (fst ?run, snd ?run)" by simp
  from conjunct1[OF reassignment_swept[OF this s s' n]]
  have "ms_swept (snd ?run) = [(''u'', recorded ''a'' ''u'' allOrgs s \<noteq> Some None)]" by (simp add: sampleMembers_def)
  moreover have "recorded ''a'' ''u'' allOrgs s \<noteq> Some None"
    using s by (auto simp: sampleMembers_def sampleStore_def roleForPair_template isPair_def allOrgs_def)
  ultimately show ?thesis by simp
qed

section \<open>What the records grant\<close>

lemma joinRole_scopes:
  "x \<in> set (ro_Scopes (joinRole s a)) \<Longrightarrow> \<exists>tid t. as_Role a = Some tid \<and> templateByID tid s = Some t \<and> x \<in> set (rt_Scopes t)"
  by (auto simp: joinRole_def noRole_def split: option.splits)

lemma rolesForUser_scopes:
  assumes "rolesForUser user allOrgs s org = Some r" "x \<in> set (ro_Scopes r)"
  shows "\<exists>a \<in> set (st_Assignments s). \<exists>tid t. isPair org user a \<and> as_Role a = Some tid \<and> templateByID tid s = Some t \<and> x \<in> set (rt_Scopes t)"
proof -
  from assms(1) obtain a where a: "List.find (\<lambda>a. isPair org user a \<and> allOrgs (as_Org a)) (rev (st_Assignments s)) = Some a"
    "r = joinRole s a" by (auto simp: rolesForUser_def)
  with find_SomeD[OF a(1)] joinRole_scopes[of x s a] assms(2) show ?thesis by auto
qed

lemma getUserMemberships_Inr:
  assumes "getUserMemberships flt orgs user ms = Inr rows" "row \<in> set rows" "x \<in> set (ro_Scopes (snd row))"
  shows "\<exists>s os. ms_store ms = Some s \<and> orgs = Some os \<and> fst row \<in> set os
    \<and> (\<exists>r. rolesForUser user allOrgs s (fst row) = Some r \<and> x \<in> set (ro_Scopes r))"
proof -
  from assms(1,2) obtain s os where s: "ms_store ms = Some s" "orgs = Some os"
    "rows = map (\<lambda>o'. (o', case rolesForUser user allOrgs s o' of None \<Rightarrow> noRole | Some r \<Rightarrow> r)) os"
    by (auto simp: getUserMemberships_def split: option.splits if_splits)
  with assms(2) obtain o' where o: "o' \<in> set os" "row = (o', case rolesForUser user allOrgs s o' of None \<Rightarrow> noRole | Some r \<Rightarrow> r)"
    by auto
  with assms(3) have "\<exists>r. rolesForUser user allOrgs s o' = Some r \<and> x \<in> set (ro_Scopes r)"
    by (cases "rolesForUser user allOrgs s o'") (simp_all add: noRole_def)
  with s o show ?thesis by auto
qed

text \<open>Authority needs both records. Every scope this application grants a user comes from an
  organization that identity lists the user in and from the template its own mirror records for
  that very pair; in particular a membership without a recorded role grants nothing.\<close>

theorem access_needs_both_records:
  assumes "getUserCombinedScopes flt orgs user ms = Inr scopes" "x \<in> set scopes"
  shows "\<exists>s os org tid t. ms_store ms = Some s \<and> orgs = Some os \<and> org \<in> set os
    \<and> (\<exists>a \<in> set (st_Assignments s). isPair org user a \<and> as_Role a = Some tid)
    \<and> templateByID tid s = Some t \<and> x \<in> set (rt_Scopes t)"
proof -
  from assms(1) obtain rows where rows: "getUserMemberships flt orgs user ms = Inr rows"
    "scopes = remdups (concat (map (ro_Scopes \<circ> snd) rows))"
    by (auto simp: getUserCombinedScopes_def split: sum.splits)
  with assms(2) obtain row where row: "row \<in> set rows" "x \<in> set (ro_Scopes (snd row))" by auto
  from getUserMemberships_Inr[OF rows(1) row] obtain s os r where
    s: "ms_store ms = Some s" "orgs = Some os" "fst row \<in> set os" "rolesForUser user allOrgs s (fst row) = Some r"
    "x \<in> set (ro_Scopes r)" by blast
  from rolesForUser_scopes[OF s(4,5)] s(1-3) show ?thesis by blast
qed

definition grantedMembers :: memberState where
  "grantedMembers = sampleMembers\<lparr>ms_store := map_option (setRole ''a'' ''u'' (Some ''admin'') allOrgs 3) (ms_store sampleMembers)\<rparr>"

theorem access_needs_both_records_witness:
  "\<exists>a \<in> set (st_Assignments (the (ms_store grantedMembers))). isPair ''a'' ''u'' a"
proof -
  have "case getUserCombinedScopes (\<lambda>_. False) (Some [''a'']) ''u'' grantedMembers of Inl _ \<Rightarrow> False | Inr xs \<Rightarrow> xs = [''state:read'']"
    by code_simp
  then have g: "getUserCombinedScopes (\<lambda>_. False) (Some [''a'']) ''u'' grantedMembers = Inr [''state:read'']"
    by (auto split: sum.splits)
  from access_needs_both_records[OF g, of "''state:read''"] show ?thesis by auto
qed

lemma gone_no_role:
  "gone (\<lambda>a. isPair org user a \<and> scope (as_Org a)) ms \<Longrightarrow> scope org \<Longrightarrow> ms_store ms = Some s \<Longrightarrow>
   \<not> (\<exists>a \<in> set (st_Assignments s). isPair org user a)"
  by (auto simp: gone_def isPair_def)

text \<open>Whoever is removed is out at once. After a removal that got as far as asking identity,
  inside the caller's scope, the user's scopes in that organization are none and no permission can
  be exercised there, even if identity failed and goes on listing the membership.\<close>

theorem removed_member_is_locked_out:
  assumes "removeMember flt out org user scope reduce ms = (e, ms')" "ms_identity ms' \<noteq> ms_identity ms" "scope org"
    and "\<not> hasScope [] required"
  shows "getUserScopesForOrg flt' out' user org ms' \<in> {Inr [], Inl NoAppStore, Inl IdentityError, Inl (StoreError StmtRead)}
    \<and> (case orgScopeForUser flt' hasScope orgs user required ms' of Inl _ \<Rightarrow> True | Inr os \<Rightarrow> org \<notin> set os)"
proof -
  note g = removeMember_gone(1)[OF assms(1,2)]
  show ?thesis
  proof (cases "ms_store ms'")
    case None
    then show ?thesis by (simp add: getUserScopesForOrg_def getMemberWithRole_def orgScopeForUser_def getUserMemberships_def)
  next
    case (Some s)
    note no = gone_no_role[OF g assms(3) Some]
    have p: "roleForPair org user allOrgs s = None"
      using no by (auto simp: roleForPair_def find_None_iff)
    have q: "rolesForUser user allOrgs s org = None"
      using no by (auto simp: rolesForUser_def find_None_iff)
    have "getUserScopesForOrg flt' out' user org ms' \<in> {Inr [], Inl NoAppStore, Inl IdentityError, Inl (StoreError StmtRead)}"
      by (cases out') (simp_all add: getUserScopesForOrg_def getMemberWithRole_def Some p noRole_def)
    moreover have "org \<notin> set os" if "orgScopeForUser flt' hasScope orgs user required ms' = Inr os" for os
      using that assms(4) q
      by (auto simp: orgScopeForUser_def getUserMemberships_def Some noRole_def split: if_splits option.splits)
    ultimately show ?thesis by (auto split: sum.splits)
  qed
qed

theorem removed_member_is_locked_out_witness:
  "(case orgScopeForUser (\<lambda>_. False) (\<lambda>xs x. x \<in> set xs) (Some [''a'']) ''u'' ''state:read''
      (snd (removeMember (\<lambda>_. False) IdFailed ''a'' ''u'' allOrgs (Some (\<lambda>_ _. True)) grantedMembers))
    of Inl _ \<Rightarrow> True | Inr os \<Rightarrow> ''a'' \<notin> set os)"
proof -
  let ?run = "removeMember (\<lambda>_. False) IdFailed ''a'' ''u'' allOrgs (Some (\<lambda>_ _. True)) grantedMembers"
  have r: "?run = (fst ?run, snd ?run)" by simp
  have i: "ms_identity (snd ?run) \<noteq> ms_identity grantedMembers" by code_simp
  show ?thesis
    by (rule conjunct2[OF removed_member_is_locked_out[OF r i]]) (simp_all add: allOrgs_def)
qed

end
