(* ===== verification/Tenancy.thy ===== *)
theory Tenancy
  imports Prelude
begin

text \<open>
  Who may read and write which row. \<open>internal/tenantscope\<close> resolves a request to a scope,
  \<open>internal/tenancy\<close> derives one from a row for work that has no request, and
  \<open>tenant_write_scope.go\<close> turns a scope into the predicate of a write. The two locales state what a
  scoped reader and a scoped writer of a table promise; every scoped repository interprets them.

  The scope type itself is an alias of a library's; of its \<open>Empty\<close> the model uses what
  \<open>TestScopeEmpty\<close> pins: a scope is empty when it is no platform administrator's and lists no
  organization. An organization column is None where it is NULL.
\<close>

section \<open>Scopes\<close>

record scope =
  sc_PlatformAdmin :: bool
  sc_OrgIDs :: "string list"

definition noScope :: scope where
  "noScope = \<lparr>sc_PlatformAdmin = False, sc_OrgIDs = []\<rparr>"

definition scopeEmpty :: "scope \<Rightarrow> bool" where
  "scopeEmpty sc = (\<not> sc_PlatformAdmin sc \<and> sc_OrgIDs sc = [])"

text \<open>\<open>organization_id = ANY(..)\<close>: never true of NULL.\<close>

definition anyOrg :: "string list \<Rightarrow> string option \<Rightarrow> bool" where
  "anyOrg ids org = (case org of None \<Rightarrow> False | Some x \<Rightarrow> x \<in> set ids)"

text \<open>The rows a scope reaches.\<close>

definition reaches :: "scope \<Rightarrow> string option \<Rightarrow> bool" where
  "reaches sc org = (sc_PlatformAdmin sc \<or> anyOrg (sc_OrgIDs sc) org)"

record tenantWrite =
  tw_Skip :: bool
  tw_Deny :: bool
  tw_OrgIDs :: "string list"

definition scopeWrite :: "scope \<Rightarrow> tenantWrite" where
  "scopeWrite sc =
     (if sc_PlatformAdmin sc then \<lparr>tw_Skip = True, tw_Deny = False, tw_OrgIDs = []\<rparr>
      else if scopeEmpty sc then \<lparr>tw_Skip = False, tw_Deny = True, tw_OrgIDs = []\<rparr>
      else \<lparr>tw_Skip = False, tw_Deny = False, tw_OrgIDs = sc_OrgIDs sc\<rparr>)"

definition organizationScope :: "string \<Rightarrow> scope" where
  "organizationScope org = (if trimSpace org = [] then noScope else \<lparr>sc_PlatformAdmin = False, sc_OrgIDs = [org]\<rparr>)"

section \<open>Authority without a request\<close>

record systemScope =
  ss_organizationID :: string
  ss_origin :: string

datatype systemErr = RowNotNamed | SystemScopeUnowned

definition systemActingIn :: "string \<Rightarrow> string \<Rightarrow> string \<Rightarrow> systemErr + systemScope" where
  "systemActingIn org tbl row =
     (if trimSpace tbl = [] \<or> trimSpace row = [] then Inl RowNotNamed
      else if trimSpace org = [] then Inl SystemScopeUnowned
      else Inr \<lparr>ss_organizationID = trimSpace org, ss_origin = trimSpace tbl @ ''/'' @ trimSpace row\<rparr>)"

definition systemScopeOf :: "systemScope \<Rightarrow> scope" where
  "systemScopeOf s = (if ss_organizationID s = [] then noScope else \<lparr>sc_PlatformAdmin = False, sc_OrgIDs = [ss_organizationID s]\<rparr>)"

definition originOf :: "systemScope \<Rightarrow> string" where
  "originOf s = (if ss_origin s = [] then [] else ''system:'' @ ss_origin s)"

record dispatchAuthority =
  da_scope :: scope
  da_organizationID :: string
  da_origin :: string
  da_system :: bool

definition requestAuthority :: "string \<Rightarrow> dispatchAuthority" where
  "requestAuthority org = \<lparr>da_scope = \<lparr>sc_PlatformAdmin = False, sc_OrgIDs = [org]\<rparr>, da_organizationID = org,
     da_origin = ''request'', da_system = False\<rparr>"

definition systemAuthority :: "systemScope \<Rightarrow> dispatchAuthority" where
  "systemAuthority s = \<lparr>da_scope = systemScopeOf s, da_organizationID = ss_organizationID s, da_origin = originOf s, da_system = True\<rparr>"

text \<open>\<open>authenticateCallback\<close>: the credential of a run is the authority, in the run's organization.\<close>

definition authenticateCallback :: "string \<Rightarrow> string \<Rightarrow> string \<Rightarrow> string \<Rightarrow> string \<Rightarrow> dispatchAuthority option" where
  "authenticateCallback tbl runID org stored presented =
     (if presented = [] \<or> stored = [] then None
      else if presented \<noteq> stored then None
      else (case systemActingIn org tbl runID of Inl _ \<Rightarrow> None | Inr s \<Rightarrow> Some (systemAuthority s)))"

definition callbackTokenFrom :: "string \<Rightarrow> string \<Rightarrow> string" where
  "callbackTokenFrom header body = (if trimSpace header \<noteq> [] then trimSpace header else body)"

text \<open>The text of an organization column as a row carries it: empty where it is NULL.\<close>

definition orgText :: "string option \<Rightarrow> string" where
  "orgText org = (case org of None \<Rightarrow> [] | Some x \<Rightarrow> x)"

section \<open>What a scope reaches\<close>

lemma reaches_noScope [simp]: "\<not> reaches noScope org"
  by (simp add: reaches_def noScope_def anyOrg_def split: option.splits)

lemma reaches_empty: "scopeEmpty sc \<Longrightarrow> \<not> reaches sc org"
  by (simp add: reaches_def scopeEmpty_def anyOrg_def split: option.splits)

lemma reaches_admin [simp]: "sc_PlatformAdmin sc \<Longrightarrow> reaches sc org"
  by (simp add: reaches_def)

lemma reaches_member [simp]: "\<not> sc_PlatformAdmin sc \<Longrightarrow> reaches sc org = anyOrg (sc_OrgIDs sc) org"
  by (simp add: reaches_def)

lemma reaches_one [simp]: "reaches \<lparr>sc_PlatformAdmin = False, sc_OrgIDs = [o1]\<rparr> org = (org = Some o1)"
  by (auto simp: reaches_def anyOrg_def split: option.splits)

lemma scopeWrite_simps [simp]:
  "tw_Deny (scopeWrite sc) = scopeEmpty sc"
  "tw_Skip (scopeWrite sc) = sc_PlatformAdmin sc"
  "\<not> sc_PlatformAdmin sc \<Longrightarrow> tw_OrgIDs (scopeWrite sc) = sc_OrgIDs sc"
  by (auto simp: scopeWrite_def scopeEmpty_def)

text \<open>A credential reaches exactly the rows of its run's own organization.\<close>

lemma authenticateCallback_reaches:
  assumes "authenticateCallback tbl runID org stored presented = Some a"
  shows "reaches (da_scope a) o' = (o' = Some (trimSpace org))" "da_organizationID a = trimSpace org"
    "presented = stored" "stored \<noteq> []" "\<not> scopeEmpty (da_scope a)"
    "trimSpace org \<noteq> []"
  using assms
  by (auto simp: authenticateCallback_def systemActingIn_def systemAuthority_def systemScopeOf_def scopeEmpty_def
      split: if_splits)

section \<open>Scoped readers and writers\<close>

text \<open>A scoped reader answers the empty scope without a query, an administrator with the unscoped
  query and everybody else with the query under the organization predicate.\<close>

definition readInScope :: "'a \<Rightarrow> ('r list \<Rightarrow> 'a) \<Rightarrow> (string list \<Rightarrow> 'r list \<Rightarrow> 'a) \<Rightarrow> scope \<Rightarrow> 'r list \<Rightarrow> 'a" where
  "readInScope none readAll readOrgs sc t =
     (if scopeEmpty sc then none else if sc_PlatformAdmin sc then readAll t else readOrgs (sc_OrgIDs sc) t)"

locale scoped_reader =
  fixes orgOf :: "'r \<Rightarrow> string option"
    and none :: 'a
    and readAll :: "'r list \<Rightarrow> 'a"
    and readOrgs :: "string list \<Rightarrow> 'r list \<Rightarrow> 'a"
  assumes readOrgs_filter: "readOrgs ids t = readAll (filter (\<lambda>r. anyOrg ids (orgOf r)) t)"
    and readAll_Nil: "readAll [] = none"
begin

text \<open>The scoped reader is the unscoped one on the rows the scope reaches.\<close>

lemma reads_reached: "readInScope none readAll readOrgs sc t = readAll (filter (\<lambda>r. reaches sc (orgOf r)) t)"
proof -
  consider "scopeEmpty sc" | "sc_PlatformAdmin sc" | "\<not> scopeEmpty sc" "\<not> sc_PlatformAdmin sc" by blast
  then show ?thesis
  proof cases
    case 1
    then have "filter (\<lambda>r. reaches sc (orgOf r)) t = []" by (simp add: filter_empty_conv reaches_empty)
    with 1 show ?thesis by (simp add: readInScope_def readAll_Nil)
  next
    case 2
    then show ?thesis by (simp add: readInScope_def scopeEmpty_def)
  next
    case 3
    then show ?thesis by (simp add: readInScope_def readOrgs_filter)
  qed
qed

lemma reads_isolated:
  "filter (\<lambda>r. reaches sc (orgOf r)) t = filter (\<lambda>r. reaches sc (orgOf r)) t' \<Longrightarrow>
   readInScope none readAll readOrgs sc t = readInScope none readAll readOrgs sc t'"
  by (simp add: reads_reached)

end

text \<open>A scoped writer refuses the empty scope; an administrator's write runs unscoped and everybody
  else's under the organization predicate. A statement rewrites or deletes the rows it selects.\<close>

definition writeInScope ::
    "'a \<Rightarrow> ('r list \<Rightarrow> 'a \<times> 'r list) \<Rightarrow> (string list \<Rightarrow> 'r list \<Rightarrow> 'a \<times> 'r list) \<Rightarrow> scope \<Rightarrow> 'r list \<Rightarrow> 'a \<times> 'r list" where
  "writeInScope denied writeAll writeOrgs sc t =
     (let w = scopeWrite sc
      in if tw_Deny w then (denied, t) else if tw_Skip w then writeAll t else writeOrgs (tw_OrgIDs w) t)"

locale scoped_writer =
  fixes orgOf :: "'r \<Rightarrow> string option"
    and writeAll :: "'r list \<Rightarrow> 'a \<times> 'r list"
    and writeOrgs :: "string list \<Rightarrow> 'r list \<Rightarrow> 'a \<times> 'r list"
  assumes writeOrgs_others: "filter (\<lambda>r. \<not> anyOrg ids (orgOf r)) (snd (writeOrgs ids t)) = filter (\<lambda>r. \<not> anyOrg ids (orgOf r)) t"
begin

text \<open>The rows a scope does not reach are left as they are.\<close>

lemma writes_isolated:
  "filter (\<lambda>r. \<not> reaches sc (orgOf r)) (snd (writeInScope denied writeAll writeOrgs sc t)) = filter (\<lambda>r. \<not> reaches sc (orgOf r)) t"
proof -
  consider "scopeEmpty sc" | "sc_PlatformAdmin sc" | "\<not> scopeEmpty sc" "\<not> sc_PlatformAdmin sc" by blast
  then show ?thesis
  proof cases
    case 1
    then show ?thesis by (simp add: writeInScope_def Let_def)
  next
    case 2
    then show ?thesis by simp
  next
    case 3
    then show ?thesis by (simp add: writeInScope_def Let_def writeOrgs_others)
  qed
qed

end

text \<open>The two shapes of a write, an update and a delete of the rows a predicate selects, both answer
  how many rows they touched.\<close>

definition updateWhere :: "('r \<Rightarrow> bool) \<Rightarrow> ('r \<Rightarrow> 'r) \<Rightarrow> 'r list \<Rightarrow> nat \<times> 'r list" where
  "updateWhere p f t = (length (filter p t), map (\<lambda>r. if p r then f r else r) t)"

definition deleteRows :: "('r \<Rightarrow> bool) \<Rightarrow> 'r list \<Rightarrow> nat \<times> 'r list" where
  "deleteRows p t = (length (filter p t), filter (\<lambda>r. \<not> p r) t)"

lemma updateWhere_others:
  assumes "\<And>r. orgOf (f r) = orgOf r" "\<And>r. p r \<Longrightarrow> anyOrg ids (orgOf r)"
  shows "filter (\<lambda>r. \<not> anyOrg ids (orgOf r)) (snd (updateWhere p f t)) = filter (\<lambda>r. \<not> anyOrg ids (orgOf r)) t"
  using assms by (induction t) (auto simp: updateWhere_def)

lemma deleteRows_others:
  assumes "\<And>r. p r \<Longrightarrow> anyOrg ids (orgOf r)"
  shows "filter (\<lambda>r. \<not> anyOrg ids (orgOf r)) (snd (deleteRows p t)) = filter (\<lambda>r. \<not> anyOrg ids (orgOf r)) t"
  using assms by (induction t) (auto simp: deleteRows_def)

lemma updateWhere_length [simp]: "length (snd (updateWhere p f t)) = length t"
  by (simp add: updateWhere_def)

lemma updateWhere_none: "\<not> (\<exists>r \<in> set t. p r) \<Longrightarrow> updateWhere p f t = (0, t)"
  by (induction t) (auto simp: updateWhere_def)

end
