(* ===== verification/DriftRecords.thy ===== *)
theory DriftRecords
  imports Tenancy DriftPlan
begin

text \<open>
  \<open>db/repositories/drift_record_repository.go\<close> and the record half of \<open>callback_root_scope.go\<close>: the
  findings an organization has to acknowledge, one live row per state file. Rows are kept in the
  order they were inserted; the clock and the id a new row draws are arguments, statements fail as
  \<open>flt\<close> says or when a count does not fit its INTEGER column, and the unique index on the external
  reference is the violation the code handles.
\<close>

section \<open>The tables\<close>

record completeness =
  cm_Truncated :: bool
  cm_OmittedEntries :: int
  cm_OmittedAttrs :: int
  cm_Unparseable :: bool
  cm_Unmasked :: bool

definition noMarks :: completeness where
  "noMarks = \<lparr>cm_Truncated = False, cm_OmittedEntries = 0, cm_OmittedAttrs = 0, cm_Unparseable = False, cm_Unmasked = False\<rparr>"

definition markTruncation :: "completeness \<Rightarrow> completeness" where
  "markTruncation c = (if 0 < cm_OmittedEntries c \<or> 0 < cm_OmittedAttrs c then c\<lparr>cm_Truncated := True\<rparr> else c)"

text \<open>A summary is its JSON text, empty where there is none.\<close>

record infraDrift =
  if_Added :: int
  if_Changed :: int
  if_Destroyed :: int
  if_Summary :: string

definition noInfra :: infraDrift where
  "noInfra = \<lparr>if_Added = 0, if_Changed = 0, if_Destroyed = 0, if_Summary = []\<rparr>"

record sourceRow =
  so_ID :: string
  so_Org :: "string option"
  so_Name :: string

record driftRecordRow =
  re_ID :: string
  re_SourceID :: "string option"
  re_StateKey :: string
  re_PipelineConnectionID :: "string option"
  re_LastRunID :: "string option"
  re_Origin :: string
  re_Severity :: string
  re_Added :: int
  re_Changed :: int
  re_Destroyed :: int
  re_Summary :: string
  re_Status :: string
  re_AcknowledgedBy :: string
  re_AcknowledgedAt :: "int option"
  re_AckNote :: string
  re_ResolvedAt :: "int option"
  re_ExternalRef :: "string option"
  re_Detections :: int
  re_FirstDetectedAt :: int
  re_LastDetectedAt :: int
  re_Infra :: infraDrift
  re_Marks :: completeness
  re_Org :: "string option"

record detection =
  de_SourceID :: string
  de_StateKey :: string
  de_PipelineConnectionID :: "string option"
  de_RunID :: "string option"
  de_Origin :: string
  de_Added :: int
  de_Changed :: int
  de_Destroyed :: int
  de_Summary :: string
  de_ExternalRef :: "string option"
  de_Marks :: completeness
  de_Infra :: infraDrift

definition driftSeverity :: "int \<Rightarrow> string" where
  "driftSeverity destroyed = (if 0 < destroyed then ''critical'' else ''warning'')"

text \<open>The range of an INTEGER column.\<close>

definition int32 :: "int \<Rightarrow> bool" where
  "int32 n = (- (2 ^ 31) \<le> n \<and> n < 2 ^ 31)"

definition marksFit :: "completeness \<Rightarrow> bool" where
  "marksFit c = (int32 (cm_OmittedEntries c) \<and> int32 (cm_OmittedAttrs c))"

definition infraFits :: "infraDrift \<Rightarrow> bool" where
  "infraFits i = (int32 (if_Added i) \<and> int32 (if_Changed i) \<and> int32 (if_Destroyed i))"

datatype recordStmt = StmtUpsertRecord | StmtGetByRef | StmtResolveClean | StmtAck | StmtResolve | StmtGetRecord

datatype recordErr = NotInScope | SourceNotOwned | RecordStatementFailed

section \<open>A detection\<close>

definition live :: "driftRecordRow \<Rightarrow> bool" where
  "live r = (re_Status r \<noteq> ''resolved'')"

definition liveFor :: "string \<Rightarrow> string \<Rightarrow> driftRecordRow \<Rightarrow> bool" where
  "liveFor src key r = (re_SourceID r = Some src \<and> re_StateKey r = key \<and> live r)"

definition orElse :: "'a option \<Rightarrow> 'a option \<Rightarrow> 'a option" where
  "orElse a b = (case a of None \<Rightarrow> b | Some _ \<Rightarrow> a)"

text \<open>The row the INSERT would make, and the row the DO UPDATE makes of a live one.\<close>

definition newRecord :: "detection \<Rightarrow> string option \<Rightarrow> string \<Rightarrow> int \<Rightarrow> driftRecordRow" where
  "newRecord d org newID now =
     \<lparr>re_ID = newID, re_SourceID = Some (de_SourceID d), re_StateKey = de_StateKey d,
      re_PipelineConnectionID = de_PipelineConnectionID d, re_LastRunID = de_RunID d, re_Origin = de_Origin d,
      re_Severity = driftSeverity (de_Destroyed d), re_Added = de_Added d, re_Changed = de_Changed d,
      re_Destroyed = de_Destroyed d, re_Summary = (if de_Summary d = [] then ''[]'' else de_Summary d),
      re_Status = ''open'', re_AcknowledgedBy = [], re_AcknowledgedAt = None, re_AckNote = [], re_ResolvedAt = None,
      re_ExternalRef = de_ExternalRef d, re_Detections = 1, re_FirstDetectedAt = now, re_LastDetectedAt = now,
      re_Infra = de_Infra d, re_Marks = markTruncation (de_Marks d), re_Org = org\<rparr>"

definition mergeDetection :: "detection \<Rightarrow> int \<Rightarrow> driftRecordRow \<Rightarrow> driftRecordRow" where
  "mergeDetection d now r =
     r\<lparr>re_PipelineConnectionID := orElse (de_PipelineConnectionID d) (re_PipelineConnectionID r),
       re_LastRunID := orElse (de_RunID d) (re_LastRunID r), re_Origin := de_Origin d,
       re_Severity := driftSeverity (de_Destroyed d), re_Added := de_Added d, re_Changed := de_Changed d,
       re_Destroyed := de_Destroyed d, re_Summary := (if de_Summary d = [] then ''[]'' else de_Summary d),
       re_ExternalRef := orElse (de_ExternalRef d) (re_ExternalRef r), re_Infra := de_Infra d,
       re_Marks := markTruncation (de_Marks d), re_Detections := re_Detections r + 1, re_LastDetectedAt := now\<rparr>"

definition hasRef :: "string \<Rightarrow> string \<Rightarrow> driftRecordRow \<Rightarrow> bool" where
  "hasRef src x r = (re_SourceID r = Some src \<and> re_ExternalRef r = Some x)"

definition getByExternalRef :: "string \<Rightarrow> string \<Rightarrow> driftRecordRow list \<Rightarrow> driftRecordRow option" where
  "getByExternalRef src x t = List.find (hasRef src x) t"

text \<open>The unique index on source and external reference, against the rows other than the one written.\<close>

definition refTaken :: "detection \<Rightarrow> string option \<Rightarrow> driftRecordRow list \<Rightarrow> bool" where
  "refTaken d self t =
     (case de_ExternalRef d of
        None \<Rightarrow> False
      | Some x \<Rightarrow> \<exists>r \<in> set t. hasRef (de_SourceID d) x r \<and> Some (re_ID r) \<noteq> self)"

definition replayed :: "(recordStmt \<Rightarrow> bool) \<Rightarrow> detection \<Rightarrow> driftRecordRow list \<Rightarrow> recordErr + driftRecordRow" where
  "replayed flt d t =
     (case de_ExternalRef d of
        None \<Rightarrow> Inl RecordStatementFailed
      | Some x \<Rightarrow>
          if flt StmtGetByRef then Inl RecordStatementFailed
          else (case getByExternalRef (de_SourceID d) x t of None \<Rightarrow> Inl RecordStatementFailed | Some r \<Rightarrow> Inr r))"

definition ownedSource :: "string list option \<Rightarrow> string \<Rightarrow> sourceRow list \<Rightarrow> sourceRow option" where
  "ownedSource orgs src srcs =
     List.find (\<lambda>s. so_ID s = src \<and> so_Org s \<noteq> None \<and> (case orgs of None \<Rightarrow> True | Some ids \<Rightarrow> anyOrg ids (so_Org s))) srcs"

definition upsertDetectionWhere ::
    "(recordStmt \<Rightarrow> bool) \<Rightarrow> int \<Rightarrow> string \<Rightarrow> sourceRow list \<Rightarrow> detection \<Rightarrow> string list option \<Rightarrow> driftRecordRow list \<Rightarrow>
     (recordErr + driftRecordRow) \<times> driftRecordRow list" where
  "upsertDetectionWhere flt now newID srcs d orgs t =
     (if flt StmtUpsertRecord
         \<or> \<not> (int32 (de_Added d) \<and> int32 (de_Changed d) \<and> int32 (de_Destroyed d) \<and> marksFit (de_Marks d) \<and> infraFits (de_Infra d))
      then (Inl RecordStatementFailed, t)
      else (case ownedSource orgs (de_SourceID d) srcs of
              None \<Rightarrow> (Inl SourceNotOwned, t)
            | Some s \<Rightarrow>
                (case List.find (liveFor (de_SourceID d) (de_StateKey d)) t of
                   Some r \<Rightarrow>
                     if refTaken d (Some (re_ID r)) t then (replayed flt d t, t)
                     else (Inr (mergeDetection d now r),
                           map (\<lambda>x. if re_ID x = re_ID r then mergeDetection d now x else x) t)
                 | None \<Rightarrow>
                     if refTaken d None t then (replayed flt d t, t)
                     else (Inr (newRecord d (so_Org s) newID now), t @ [newRecord d (so_Org s) newID now]))))"

definition upsertDetection ::
    "(recordStmt \<Rightarrow> bool) \<Rightarrow> int \<Rightarrow> string \<Rightarrow> sourceRow list \<Rightarrow> detection \<Rightarrow> driftRecordRow list \<Rightarrow>
     (recordErr + driftRecordRow) \<times> driftRecordRow list" where
  "upsertDetection flt now newID srcs d = upsertDetectionWhere flt now newID srcs d None"

definition upsertDetectionInScope ::
    "(recordStmt \<Rightarrow> bool) \<Rightarrow> int \<Rightarrow> string \<Rightarrow> sourceRow list \<Rightarrow> detection \<Rightarrow> scope \<Rightarrow> driftRecordRow list \<Rightarrow>
     (recordErr + driftRecordRow) \<times> driftRecordRow list" where
  "upsertDetectionInScope flt now newID srcs d =
     writeInScope (Inl NotInScope) (upsertDetection flt now newID srcs d)
       (\<lambda>ids. upsertDetectionWhere flt now newID srcs d (Some ids))"

section \<open>Closing and acknowledging\<close>

definition resolveRow :: "int \<Rightarrow> driftRecordRow \<Rightarrow> driftRecordRow" where
  "resolveRow now r = r\<lparr>re_Status := ''resolved'', re_ResolvedAt := Some now\<rparr>"

definition resolveCleanWhere ::
    "(recordStmt \<Rightarrow> bool) \<Rightarrow> int \<Rightarrow> string \<Rightarrow> string \<Rightarrow> (driftRecordRow \<Rightarrow> bool) \<Rightarrow> driftRecordRow list \<Rightarrow>
     (recordErr + bool) \<times> driftRecordRow list" where
  "resolveCleanWhere flt now src key p t =
     (if flt StmtResolveClean then (Inl RecordStatementFailed, t)
      else (case updateWhere (\<lambda>r. liveFor src key r \<and> p r) (resolveRow now) t of (n, t') \<Rightarrow> (Inr (0 < n), t')))"

definition resolveClean ::
    "(recordStmt \<Rightarrow> bool) \<Rightarrow> int \<Rightarrow> string \<Rightarrow> string \<Rightarrow> driftRecordRow list \<Rightarrow> (recordErr + bool) \<times> driftRecordRow list" where
  "resolveClean flt now src key = resolveCleanWhere flt now src key (\<lambda>_. True)"

definition resolveCleanInScope ::
    "(recordStmt \<Rightarrow> bool) \<Rightarrow> int \<Rightarrow> string \<Rightarrow> string \<Rightarrow> scope \<Rightarrow> driftRecordRow list \<Rightarrow>
     (recordErr + bool) \<times> driftRecordRow list" where
  "resolveCleanInScope flt now src key =
     writeInScope (Inl NotInScope) (resolveClean flt now src key)
       (\<lambda>ids. resolveCleanWhere flt now src key (\<lambda>r. anyOrg ids (re_Org r)))"

text \<open>\<open>UPDATE .. RETURNING\<close> of the row with an id: the row it became, None where none was selected.\<close>

definition updateReturning ::
    "bool \<Rightarrow> (driftRecordRow \<Rightarrow> bool) \<Rightarrow> (driftRecordRow \<Rightarrow> driftRecordRow) \<Rightarrow> driftRecordRow list \<Rightarrow>
     (recordErr + driftRecordRow option) \<times> driftRecordRow list" where
  "updateReturning fails p f t =
     (if fails then (Inl RecordStatementFailed, t)
      else (Inr (map_option f (List.find p t)), snd (updateWhere p f t)))"

definition ackRow :: "string \<Rightarrow> string \<Rightarrow> int \<Rightarrow> driftRecordRow \<Rightarrow> driftRecordRow" where
  "ackRow actor note now r =
     r\<lparr>re_Status := ''acknowledged'', re_AcknowledgedBy := actor, re_AcknowledgedAt := Some now, re_AckNote := note\<rparr>"

definition acknowledge ::
    "(recordStmt \<Rightarrow> bool) \<Rightarrow> int \<Rightarrow> string \<Rightarrow> string \<Rightarrow> string \<Rightarrow> driftRecordRow list \<Rightarrow>
     (recordErr + driftRecordRow option) \<times> driftRecordRow list" where
  "acknowledge flt now i actor note =
     updateReturning (flt StmtAck) (\<lambda>r. re_ID r = i \<and> re_Status r = ''open'') (ackRow actor note now)"

definition acknowledgeInScope ::
    "(recordStmt \<Rightarrow> bool) \<Rightarrow> int \<Rightarrow> string \<Rightarrow> string \<Rightarrow> string \<Rightarrow> scope \<Rightarrow> driftRecordRow list \<Rightarrow>
     (recordErr + driftRecordRow option) \<times> driftRecordRow list" where
  "acknowledgeInScope flt now i actor note =
     writeInScope (Inl NotInScope) (acknowledge flt now i actor note)
       (\<lambda>ids. updateReturning (flt StmtAck) (\<lambda>r. re_ID r = i \<and> re_Status r = ''open'' \<and> anyOrg ids (re_Org r))
                (ackRow actor note now))"

definition resolveRecord ::
    "(recordStmt \<Rightarrow> bool) \<Rightarrow> int \<Rightarrow> string \<Rightarrow> driftRecordRow list \<Rightarrow> (recordErr + driftRecordRow option) \<times> driftRecordRow list" where
  "resolveRecord flt now i = updateReturning (flt StmtResolve) (\<lambda>r. re_ID r = i \<and> live r) (resolveRow now)"

definition resolveInScope ::
    "(recordStmt \<Rightarrow> bool) \<Rightarrow> int \<Rightarrow> string \<Rightarrow> scope \<Rightarrow> driftRecordRow list \<Rightarrow>
     (recordErr + driftRecordRow option) \<times> driftRecordRow list" where
  "resolveInScope flt now i =
     writeInScope (Inl NotInScope) (resolveRecord flt now i)
       (\<lambda>ids. updateReturning (flt StmtResolve) (\<lambda>r. re_ID r = i \<and> live r \<and> anyOrg ids (re_Org r)) (resolveRow now))"

text \<open>Resolved rows older than the age go; an age that is not positive is refused, None.\<close>

definition pruneResolved :: "int \<Rightarrow> int \<Rightarrow> driftRecordRow list \<Rightarrow> (nat \<times> driftRecordRow list) option" where
  "pruneResolved maxAge now t =
     (if maxAge \<le> 0 then None
      else Some (deleteRows (\<lambda>r. re_Status r = ''resolved''
             \<and> (case re_ResolvedAt r of None \<Rightarrow> False | Some x \<Rightarrow> x < now - maxAge)) t))"

section \<open>Reading\<close>

definition recordPage :: "int \<Rightarrow> int \<Rightarrow> int \<times> int" where
  "recordPage limit offset = (if limit \<le> 0 \<or> 500 < limit then 100 else limit, if offset < 0 then 0 else offset)"

record recordFilter =
  rf_Statuses :: "string list"
  rf_SourceID :: string
  rf_Severity :: string
  rf_Start :: "int option"
  rf_End :: "int option"

definition driftRecordFilter :: "recordFilter \<Rightarrow> driftRecordRow \<Rightarrow> bool" where
  "driftRecordFilter f r =
     ((rf_Statuses f \<noteq> [] \<longrightarrow> re_Status r \<in> set (rf_Statuses f))
      \<and> (rf_SourceID f \<noteq> [] \<longrightarrow> re_SourceID r = Some (rf_SourceID f))
      \<and> (rf_Severity f \<noteq> [] \<longrightarrow> re_Severity r = rf_Severity f)
      \<and> (case rf_Start f of None \<Rightarrow> True | Some x \<Rightarrow> x \<le> re_LastDetectedAt r)
      \<and> (case rf_End f of None \<Rightarrow> True | Some x \<Rightarrow> re_LastDetectedAt r \<le> x))"

text \<open>\<open>ORDER BY .. LIMIT .. OFFSET\<close>, rows with the same time in the order of the table.\<close>

definition window :: "int \<times> int \<Rightarrow> 'a list \<Rightarrow> 'a list" where
  "window pg xs = take (nat (fst pg)) (drop (nat (snd pg)) xs)"

definition listRecords :: "recordFilter \<Rightarrow> int \<Rightarrow> int \<Rightarrow> driftRecordRow list \<Rightarrow> driftRecordRow list" where
  "listRecords f limit offset t =
     window (recordPage limit offset) (sort_key (\<lambda>r. - re_LastDetectedAt r) (filter (driftRecordFilter f) t))"

definition listRecordsInScope :: "recordFilter \<Rightarrow> int \<Rightarrow> int \<Rightarrow> scope \<Rightarrow> driftRecordRow list \<Rightarrow> driftRecordRow list" where
  "listRecordsInScope f limit offset =
     readInScope [] (listRecords f limit offset)
       (\<lambda>ids t. window (recordPage limit offset)
          (sort_key (\<lambda>r. - re_LastDetectedAt r) (filter (\<lambda>r. anyOrg ids (re_Org r) \<and> driftRecordFilter f r) t)))"

definition countWhere :: "('r \<Rightarrow> bool) \<Rightarrow> 'r list \<Rightarrow> nat" where
  "countWhere p t = length (filter p t)"

definition countRecords :: "recordFilter \<Rightarrow> driftRecordRow list \<Rightarrow> nat" where
  "countRecords f = countWhere (driftRecordFilter f)"

definition countRecordsInScope :: "recordFilter \<Rightarrow> scope \<Rightarrow> driftRecordRow list \<Rightarrow> nat" where
  "countRecordsInScope f =
     readInScope 0 (countRecords f) (\<lambda>ids. countWhere (\<lambda>r. anyOrg ids (re_Org r) \<and> driftRecordFilter f r))"

definition getRecord :: "string \<Rightarrow> driftRecordRow list \<Rightarrow> driftRecordRow option" where
  "getRecord i = List.find (\<lambda>r. re_ID r = i)"

definition getRecordInScope :: "string \<Rightarrow> scope \<Rightarrow> driftRecordRow list \<Rightarrow> driftRecordRow option" where
  "getRecordInScope i =
     readInScope None (getRecord i) (\<lambda>ids. List.find (\<lambda>r. anyOrg ids (re_Org r) \<and> re_ID r = i))"

text \<open>\<open>GROUP BY status\<close> as a map: the statuses that occur, each with its count.\<close>

definition tally :: "(driftRecordRow \<Rightarrow> string) \<Rightarrow> (driftRecordRow \<Rightarrow> bool) \<Rightarrow> driftRecordRow list \<Rightarrow> (string \<times> nat) list" where
  "tally key p t =
     map (\<lambda>k. (k, countWhere (\<lambda>r. p r \<and> key r = k) t)) (sort (remdups (map key (filter p t))))"

definition countsByStatus :: "driftRecordRow list \<Rightarrow> (string \<times> nat) list" where
  "countsByStatus = tally re_Status (\<lambda>_. True)"

definition countsByStatusInScope :: "scope \<Rightarrow> driftRecordRow list \<Rightarrow> (string \<times> nat) list" where
  "countsByStatusInScope = readInScope [] countsByStatus (\<lambda>ids. tally re_Status (\<lambda>r. anyOrg ids (re_Org r)))"

definition countOpenBySeverity :: "driftRecordRow list \<Rightarrow> (string \<times> nat) list" where
  "countOpenBySeverity = tally re_Severity (\<lambda>r. re_Status r = ''open'')"

text \<open>The map from state key to live record; a later row of a key replaces an earlier one.\<close>

definition liveByState :: "string \<Rightarrow> driftRecordRow list \<Rightarrow> string \<Rightarrow> driftRecordRow option" where
  "liveByState src t key = List.find (liveFor src key) (rev t)"

definition liveByStateInScope :: "string \<Rightarrow> scope \<Rightarrow> driftRecordRow list \<Rightarrow> string \<Rightarrow> driftRecordRow option" where
  "liveByStateInScope src =
     readInScope (\<lambda>_. None) (liveByState src)
       (\<lambda>ids t key. List.find (\<lambda>r. anyOrg ids (re_Org r) \<and> liveFor src key r) (rev t))"

definition incomplete :: "driftRecordRow \<Rightarrow> bool" where
  "incomplete r = (live r \<and> (cm_Unparseable (re_Marks r) \<or> cm_Truncated (re_Marks r)))"

definition infraDrifted :: "driftRecordRow \<Rightarrow> bool" where
  "infraDrifted r = (0 < if_Added (re_Infra r) \<or> 0 < if_Changed (re_Infra r) \<or> 0 < if_Destroyed (re_Infra r))"

definition countIncomplete :: "driftRecordRow list \<Rightarrow> nat" where
  "countIncomplete = countWhere incomplete"

definition countIncompleteInScope :: "scope \<Rightarrow> driftRecordRow list \<Rightarrow> nat" where
  "countIncompleteInScope = readInScope 0 countIncomplete (\<lambda>ids. countWhere (\<lambda>r. anyOrg ids (re_Org r) \<and> incomplete r))"

definition countInfraDrifted :: "driftRecordRow list \<Rightarrow> nat" where
  "countInfraDrifted = countWhere (\<lambda>r. live r \<and> infraDrifted r)"

definition countInfraDriftedInScope :: "scope \<Rightarrow> driftRecordRow list \<Rightarrow> nat" where
  "countInfraDriftedInScope =
     readInScope 0 countInfraDrifted (\<lambda>ids. countWhere (\<lambda>r. anyOrg ids (re_Org r) \<and> live r \<and> infraDrifted r))"

record sourceRecordCounts =
  rc_SourceID :: string
  rc_SourceName :: string
  rc_Open :: nat
  rc_Acknowledged :: nat
  rc_Critical :: nat
  rc_InfraDrift :: nat

text \<open>\<open>countsBySourceQuery\<close>: the live records joined with their sources, one row per source, by name.\<close>

definition countsOf :: "driftRecordRow list \<Rightarrow> sourceRow \<Rightarrow> sourceRecordCounts" where
  "countsOf t s =
     (let rs = filter (\<lambda>r. live r \<and> re_SourceID r = Some (so_ID s)) t
      in \<lparr>rc_SourceID = so_ID s, rc_SourceName = so_Name s, rc_Open = countWhere (\<lambda>r. re_Status r = ''open'') rs,
          rc_Acknowledged = countWhere (\<lambda>r. re_Status r = ''acknowledged'') rs,
          rc_Critical = countWhere (\<lambda>r. re_Severity r = ''critical'') rs, rc_InfraDrift = countWhere infraDrifted rs\<rparr>)"

definition countsBySource :: "sourceRow list \<Rightarrow> driftRecordRow list \<Rightarrow> sourceRecordCounts list" where
  "countsBySource srcs t =
     map (countsOf t) (sort_key so_Name (filter (\<lambda>s. \<exists>r \<in> set t. live r \<and> re_SourceID r = Some (so_ID s)) srcs))"

definition countsBySourceInScope :: "sourceRow list \<Rightarrow> scope \<Rightarrow> driftRecordRow list \<Rightarrow> sourceRecordCounts list" where
  "countsBySourceInScope srcs sc =
     readInScope [] (countsBySource srcs)
       (\<lambda>ids t. countsBySource (filter (\<lambda>s. anyOrg ids (so_Org s)) srcs) (filter (\<lambda>r. anyOrg ids (re_Org r)) t)) sc"

section \<open>The scoped statements keep to their organization\<close>

lemma countWhere_filter: "countWhere p (filter q t) = countWhere (\<lambda>r. q r \<and> p r) t"
  by (simp add: countWhere_def conj_commute)

lemma tally_filter: "tally key p (filter q t) = tally key (\<lambda>r. q r \<and> p r) t"
  by (simp add: tally_def countWhere_filter conj_ac)

interpretation listRecords: scoped_reader re_Org "[]" "listRecords f limit offset"
    "\<lambda>ids t. window (recordPage limit offset)
       (sort_key (\<lambda>r. - re_LastDetectedAt r) (filter (\<lambda>r. anyOrg ids (re_Org r) \<and> driftRecordFilter f r) t))" for f limit offset
  by unfold_locales (simp_all add: listRecords_def window_def conj_commute)

interpretation countRecords: scoped_reader re_Org 0 "countRecords f"
    "\<lambda>ids. countWhere (\<lambda>r. anyOrg ids (re_Org r) \<and> driftRecordFilter f r)" for f
  by unfold_locales (simp_all add: countRecords_def countWhere_filter, simp add: countWhere_def)

interpretation getRecord: scoped_reader re_Org None "getRecord i"
    "\<lambda>ids. List.find (\<lambda>r. anyOrg ids (re_Org r) \<and> re_ID r = i)" for i
  by unfold_locales (simp_all add: getRecord_def find_filter)

interpretation countsByStatus: scoped_reader re_Org "[]" countsByStatus "\<lambda>ids. tally re_Status (\<lambda>r. anyOrg ids (re_Org r))"
  by unfold_locales (simp_all add: countsByStatus_def tally_filter, simp add: tally_def)

interpretation liveByState: scoped_reader re_Org "\<lambda>_. None" "liveByState src"
    "\<lambda>ids t key. List.find (\<lambda>r. anyOrg ids (re_Org r) \<and> liveFor src key r) (rev t)" for src
  by unfold_locales (simp_all add: fun_eq_iff liveByState_def rev_filter find_filter)

interpretation countIncomplete: scoped_reader re_Org 0 countIncomplete "\<lambda>ids. countWhere (\<lambda>r. anyOrg ids (re_Org r) \<and> incomplete r)"
  by unfold_locales (simp_all add: countIncomplete_def countWhere_filter, simp add: countWhere_def)

interpretation countInfraDrifted: scoped_reader re_Org 0 countInfraDrifted
    "\<lambda>ids. countWhere (\<lambda>r. anyOrg ids (re_Org r) \<and> live r \<and> infraDrifted r)"
  by unfold_locales (simp_all add: countInfraDrifted_def countWhere_filter, simp add: countWhere_def)

lemma rows_keep_org [simp]:
  "re_Org (resolveRow now r) = re_Org r" "re_Org (ackRow actor note now r) = re_Org r"
  "re_Org (mergeDetection d now r) = re_Org r"
  by (simp_all add: resolveRow_def ackRow_def mergeDetection_def)

interpretation resolveClean: scoped_writer re_Org "resolveClean flt now src key"
    "\<lambda>ids. resolveCleanWhere flt now src key (\<lambda>r. anyOrg ids (re_Org r))" for flt now src key
  by unfold_locales (auto simp: resolveCleanWhere_def case_prod_beta intro!: updateWhere_others)

interpretation acknowledge: scoped_writer re_Org "acknowledge flt now i actor msg"
    "\<lambda>ids. updateReturning (flt StmtAck) (\<lambda>r. re_ID r = i \<and> re_Status r = ''open'' \<and> anyOrg ids (re_Org r)) (ackRow actor msg now)"
    for flt now i actor msg
  by unfold_locales (auto simp: updateReturning_def intro!: updateWhere_others)

interpretation resolveRecord: scoped_writer re_Org "resolveRecord flt now i"
    "\<lambda>ids. updateReturning (flt StmtResolve) (\<lambda>r. re_ID r = i \<and> live r \<and> anyOrg ids (re_Org r)) (resolveRow now)"
    for flt now i
  by unfold_locales (auto simp: updateReturning_def intro!: updateWhere_others)

text \<open>A detection writes one row, of the source it is about. The live row it meets may carry another
  organization than its source only where a source changed hands after the row was made.\<close>

definition ownersAgree :: "sourceRow list \<Rightarrow> driftRecordRow list \<Rightarrow> bool" where
  "ownersAgree srcs t = (\<forall>r \<in> set t. \<forall>s \<in> set srcs. re_SourceID r = Some (so_ID s) \<longrightarrow> re_Org r = so_Org s)"

definition recordIDs :: "driftRecordRow list \<Rightarrow> bool" where
  "recordIDs t = distinct (map re_ID t)"

lemma ownedSource_Some:
  "ownedSource orgs src srcs = Some s \<Longrightarrow>
   s \<in> set srcs \<and> so_ID s = src \<and> so_Org s \<noteq> None \<and> (\<forall>ids. orgs = Some ids \<longrightarrow> anyOrg ids (so_Org s))"
  unfolding ownedSource_def by (drule find_SomeD) (auto split: option.splits)

lemma upsert_cases:
  assumes "upsertDetectionWhere flt now newID srcs d orgs t = (res, t')"
  obtains (same) "t' = t"
  | (merged) s r where "ownedSource orgs (de_SourceID d) srcs = Some s" "r \<in> set t" "liveFor (de_SourceID d) (de_StateKey d) r"
      "\<not> refTaken d (Some (re_ID r)) t"
      "t' = map (\<lambda>x. if re_ID x = re_ID r then mergeDetection d now x else x) t" "res = Inr (mergeDetection d now r)"
  | (opened) s where "ownedSource orgs (de_SourceID d) srcs = Some s"
      "\<not> (\<exists>r \<in> set t. liveFor (de_SourceID d) (de_StateKey d) r)" "\<not> refTaken d None t" "t' = t @ [newRecord d (so_Org s) newID now]"
      "res = Inr (newRecord d (so_Org s) newID now)"
proof -
  let ?bad = "flt StmtUpsertRecord
    \<or> \<not> (int32 (de_Added d) \<and> int32 (de_Changed d) \<and> int32 (de_Destroyed d) \<and> marksFit (de_Marks d) \<and> infraFits (de_Infra d))"
  show thesis
  proof (cases ?bad)
    case True
    with assms show thesis by (intro same) (simp add: upsertDetectionWhere_def)
  next
    case ok: False
    show thesis
    proof (cases "ownedSource orgs (de_SourceID d) srcs")
      case None
      with assms ok show thesis by (intro same) (simp add: upsertDetectionWhere_def)
    next
      case s: (Some s)
      show thesis
      proof (cases "List.find (liveFor (de_SourceID d) (de_StateKey d)) t")
        case None
        then have nl: "\<not> (\<exists>r \<in> set t. liveFor (de_SourceID d) (de_StateKey d) r)" by (auto simp: find_None_iff)
        show thesis
        proof (cases "refTaken d None t")
          case True
          with assms ok s None show thesis by (intro same) (simp add: upsertDetectionWhere_def)
        next
          case False
          with assms ok s None nl show thesis by (intro opened) (auto simp: upsertDetectionWhere_def)
        qed
      next
        case (Some r)
        note r = find_SomeD[OF this]
        show thesis
        proof (cases "refTaken d (Some (re_ID r)) t")
          case True
          with assms ok s Some show thesis by (intro same) (simp add: upsertDetectionWhere_def)
        next
          case False
          with assms ok s Some r show thesis by (intro merged) (auto simp: upsertDetectionWhere_def)
        qed
      qed
    qed
  qed
qed

section \<open>One live finding per state\<close>

text \<open>What the two unique indexes and the primary key hold: one live row per source and state key, one
  row per source and external reference, distinct ids.\<close>

definition stateOf :: "driftRecordRow \<Rightarrow> string option \<times> string" where
  "stateOf r = (re_SourceID r, re_StateKey r)"

definition oneLive :: "driftRecordRow list \<Rightarrow> bool" where
  "oneLive t = (\<forall>r \<in> set t. \<forall>r' \<in> set t.
     live r \<and> live r' \<and> re_SourceID r \<noteq> None \<and> stateOf r = stateOf r' \<longrightarrow> re_ID r = re_ID r')"

definition refOf :: "driftRecordRow \<Rightarrow> string option \<times> string option" where
  "refOf r = (re_SourceID r, re_ExternalRef r)"

definition oneRef :: "driftRecordRow list \<Rightarrow> bool" where
  "oneRef t = (\<forall>r \<in> set t. \<forall>r' \<in> set t.
     re_SourceID r \<noteq> None \<and> re_ExternalRef r \<noteq> None \<and> refOf r = refOf r' \<longrightarrow> re_ID r = re_ID r')"

definition recordsOK :: "driftRecordRow list \<Rightarrow> bool" where
  "recordsOK t = (recordIDs t \<and> oneLive t \<and> oneRef t)"

text \<open>The operations that change the table, by whom ever and in whatever order; the sources they are
  checked against may change between two of them.\<close>

inductive recordStep :: "driftRecordRow list \<Rightarrow> driftRecordRow list \<Rightarrow> bool" where
  detect: "newID \<notin> set (map re_ID t) \<Longrightarrow> recordStep t (snd (upsertDetectionInScope flt now newID srcs d sc t))"
| clean: "recordStep t (snd (resolveCleanInScope flt now src key sc t))"
| ack: "recordStep t (snd (acknowledgeInScope flt now i actor msg sc t))"
| close: "recordStep t (snd (resolveInScope flt now i sc t))"
| prune: "pruneResolved maxAge now t = Some (n, t') \<Longrightarrow> recordStep t t'"

lemma rows_keep_identity [simp]:
  "re_ID (resolveRow now r) = re_ID r" "re_ID (ackRow actor msg now r) = re_ID r" "re_ID (mergeDetection d now r) = re_ID r"
  "stateOf (resolveRow now r) = stateOf r" "stateOf (ackRow actor msg now r) = stateOf r" "stateOf (mergeDetection d now r) = stateOf r"
  "refOf (resolveRow now r) = refOf r" "refOf (ackRow actor msg now r) = refOf r"
  "re_SourceID (resolveRow now r) = re_SourceID r" "re_SourceID (ackRow actor msg now r) = re_SourceID r"
  "re_SourceID (mergeDetection d now r) = re_SourceID r" "re_StateKey (mergeDetection d now r) = re_StateKey r"
  "re_ExternalRef (resolveRow now r) = re_ExternalRef r" "re_ExternalRef (ackRow actor msg now r) = re_ExternalRef r"
  "re_Status (mergeDetection d now r) = re_Status r" "live (mergeDetection d now r) = live r"
  "\<not> live (resolveRow now r)" "live (ackRow actor msg now r)"
  by (simp_all add: resolveRow_def ackRow_def mergeDetection_def stateOf_def refOf_def live_def)

lemma oneLiveD:
  "oneLive t \<Longrightarrow> x \<in> set t \<Longrightarrow> y \<in> set t \<Longrightarrow> live x \<Longrightarrow> live y \<Longrightarrow> re_SourceID x \<noteq> None \<Longrightarrow> stateOf x = stateOf y \<Longrightarrow>
   re_ID x = re_ID y"
  unfolding oneLive_def by blast

lemma oneRefD:
  "oneRef t \<Longrightarrow> x \<in> set t \<Longrightarrow> y \<in> set t \<Longrightarrow> re_SourceID x \<noteq> None \<Longrightarrow> re_ExternalRef x \<noteq> None \<Longrightarrow> refOf x = refOf y \<Longrightarrow>
   re_ID x = re_ID y"
  unfolding oneRef_def by blast

lemma oneLive_map:
  assumes "oneLive t" "\<And>r. re_ID (g r) = re_ID r" "\<And>r. stateOf (g r) = stateOf r" "\<And>r. live (g r) \<Longrightarrow> live r"
  shows "oneLive (map g t)"
proof -
  have src: "re_SourceID (g r) = re_SourceID r" for r using assms(3)[of r] by (simp add: stateOf_def)
  show ?thesis
    unfolding oneLive_def set_map ball_simps
  proof (intro ballI impI)
    fix x y assume xy: "x \<in> set t" "y \<in> set t"
      and e: "live (g x) \<and> live (g y) \<and> re_SourceID (g x) \<noteq> None \<and> stateOf (g x) = stateOf (g y)"
    from e have "live x" "live y" "re_SourceID x \<noteq> None" "stateOf x = stateOf y"
      using assms(4) by (auto simp only: assms(3) src)
    from oneLiveD[OF assms(1) xy this] show "re_ID (g x) = re_ID (g y)" by (simp only: assms(2))
  qed
qed

lemma recordIDs_map: "(\<And>r. re_ID (g r) = re_ID r) \<Longrightarrow> recordIDs (map g t) = recordIDs t"
  by (simp add: recordIDs_def comp_def)

text \<open>An update that keeps id, state and reference and brings no row back to life keeps all three.\<close>

lemma updateWhere_ok:
  assumes "recordsOK t" "\<And>r. re_ID (f r) = re_ID r" "\<And>r. stateOf (f r) = stateOf r" "\<And>r. refOf (f r) = refOf r"
    and "\<And>r. p r \<Longrightarrow> live (f r) \<Longrightarrow> live r"
  shows "recordsOK (snd (updateWhere p f t))"
proof -
  let ?g = "\<lambda>r. if p r then f r else r"
  have src: "re_SourceID (f r) = re_SourceID r" "re_ExternalRef (f r) = re_ExternalRef r" for r
    using assms(3,4)[of r] by (simp_all add: stateOf_def refOf_def)
  have g: "re_ID (?g r) = re_ID r" "stateOf (?g r) = stateOf r" "refOf (?g r) = refOf r"
    "re_SourceID (?g r) = re_SourceID r" "re_ExternalRef (?g r) = re_ExternalRef r" for r
    by (simp_all add: assms(2-4) src)
  have lv: "live r" if "live (?g r)" for r using that assms(5)[of r] by (cases "p r") simp_all
  have "recordIDs (map ?g t)" using assms(1) by (simp only: recordIDs_map[of ?g, OF g(1)] recordsOK_def)
  moreover have "oneLive (map ?g t)"
    by (rule oneLive_map[OF _ g(1,2) lv]) (use assms(1) in \<open>simp_all only: recordsOK_def\<close>)
  moreover have "oneRef (map ?g t)"
    unfolding oneRef_def set_map ball_simps g(1,3,4,5) using assms(1) unfolding recordsOK_def oneRef_def by blast
  ultimately show ?thesis by (simp add: recordsOK_def updateWhere_def)
qed

lemma filter_ok: "recordsOK t \<Longrightarrow> recordsOK (filter q t)"
  by (auto simp: recordsOK_def recordIDs_def oneLive_def oneRef_def distinct_map_filter)

lemma refTaken_other:
  "\<not> refTaken d self t \<Longrightarrow> de_ExternalRef d = Some x \<Longrightarrow> y \<in> set t \<Longrightarrow> Some (re_ID y) \<noteq> self \<Longrightarrow>
   \<not> hasRef (de_SourceID d) x y"
  by (auto simp: refTaken_def)

lemma mergeDetection_ref:
  "re_ExternalRef (mergeDetection d now r) = orElse (de_ExternalRef d) (re_ExternalRef r)"
  by (simp add: mergeDetection_def)

lemma merged_ok:
  assumes "recordsOK t" "r \<in> set t" "liveFor (de_SourceID d) (de_StateKey d) r" "\<not> refTaken d (Some (re_ID r)) t"
  shows "recordsOK (map (\<lambda>x. if re_ID x = re_ID r then mergeDetection d now x else x) t)"
proof -
  let ?g = "\<lambda>x. if re_ID x = re_ID r then mergeDetection d now x else x"
  have g: "re_ID (?g x) = re_ID x" "stateOf (?g x) = stateOf x" "live (?g x) = live x" "re_SourceID (?g x) = re_SourceID x" for x
    by simp_all
  have ids: "x = r" if "x \<in> set t" "re_ID x = re_ID r" for x
    using assms(1,2) that by (auto simp: recordsOK_def recordIDs_def distinct_map inj_on_def)
  have "recordIDs (map ?g t)" using assms(1) by (simp only: recordIDs_map[of ?g, OF g(1)] recordsOK_def)
  moreover have "oneLive (map ?g t)" by (rule oneLive_map) (use assms(1) g in \<open>simp_all only: recordsOK_def\<close>)
  moreover have "oneRef (map ?g t)"
    unfolding oneRef_def set_map ball_simps
  proof (intro ballI impI)
    fix x y assume xy: "x \<in> set t" "y \<in> set t"
      and e: "re_SourceID (?g x) \<noteq> None \<and> re_ExternalRef (?g x) \<noteq> None \<and> refOf (?g x) = refOf (?g y)"
    have old: "re_ID x' = re_ID y'" if "x' \<in> set t" "y' \<in> set t" "re_SourceID x' \<noteq> None" "re_ExternalRef x' \<noteq> None"
      "refOf x' = refOf y'" for x' y' using oneRefD[of t x' y'] assms(1) that unfolding recordsOK_def by blast
    show "re_ID (?g x) = re_ID (?g y)"
    proof (cases "de_ExternalRef d")
      case None
      then have same: "refOf (?g z) = refOf z" for z by (simp add: refOf_def mergeDetection_ref orElse_def)
      with e have "refOf x = refOf y" by simp
      moreover have "re_ExternalRef x \<noteq> None" using e same[of x] by (metis refOf_def prod.inject)
      ultimately show ?thesis using old[OF xy] e g by simp
    next
      case (Some v)
      have nt: "\<not> hasRef (de_SourceID d) v z" if "z \<in> set t" "re_ID z \<noteq> re_ID r" for z
        using refTaken_other[OF assms(4) Some that(1)] that(2) by simp
      have src: "re_SourceID r = Some (de_SourceID d)" using assms(3) by (simp add: liveFor_def)
      have new: "refOf (mergeDetection d now r) = (Some (de_SourceID d), Some v)"
        by (simp add: refOf_def mergeDetection_ref orElse_def Some src)
      consider "re_ID x = re_ID r" "re_ID y = re_ID r" | "re_ID x = re_ID r" "re_ID y \<noteq> re_ID r"
        | "re_ID x \<noteq> re_ID r" "re_ID y = re_ID r" | "re_ID x \<noteq> re_ID r" "re_ID y \<noteq> re_ID r" by blast
      then show ?thesis
      proof cases
        case 2
        with ids[OF xy(1)] e new have "refOf y = (Some (de_SourceID d), Some v)" by simp
        with nt[OF xy(2)] 2 show ?thesis by (simp add: hasRef_def refOf_def)
      next
        case 3
        with ids[OF xy(2)] e new have "refOf x = (Some (de_SourceID d), Some v)" by simp
        with nt[OF xy(1)] 3 show ?thesis by (simp add: hasRef_def refOf_def)
      qed (use old[OF xy] e in auto)
    qed
  qed
  ultimately show ?thesis by (simp add: recordsOK_def)
qed

lemma opened_ok:
  assumes "recordsOK t" "newID \<notin> set (map re_ID t)" "\<not> (\<exists>r \<in> set t. liveFor (de_SourceID d) (de_StateKey d) r)"
    "\<not> refTaken d None t"
  shows "recordsOK (t @ [newRecord d org newID now])"
proof -
  let ?n = "newRecord d org newID now"
  have n: "re_ID ?n = newID" "stateOf ?n = (Some (de_SourceID d), de_StateKey d)"
    "re_StateKey ?n = de_StateKey d" "re_SourceID ?n = Some (de_SourceID d)"
    "refOf ?n = (Some (de_SourceID d), de_ExternalRef d)" "re_ExternalRef ?n = de_ExternalRef d"
    by (simp_all add: newRecord_def stateOf_def refOf_def)
  have "stateOf r \<noteq> stateOf ?n" if "r \<in> set t" "live r" for r
    using assms(3) that by (auto simp: n liveFor_def stateOf_def)
  then have "oneLive (t @ [?n])"
    using assms(1) unfolding recordsOK_def oneLive_def by (metis Un_iff empty_iff empty_set list.set_intros(1) set_ConsD set_append)
  moreover have "refOf r \<noteq> refOf ?n" if "r \<in> set t" "re_ExternalRef r \<noteq> None" for r
  proof
    assume eq: "refOf r = refOf ?n"
    with that(2) obtain v where v: "de_ExternalRef d = Some v" by (auto simp: n refOf_def)
    with refTaken_other[OF assms(4) v that(1)] eq show False by (simp add: n refOf_def hasRef_def)
  qed
  then have "oneRef (t @ [?n])"
    using assms(1) unfolding recordsOK_def oneRef_def
    by (metis Un_iff empty_iff empty_set list.set_intros(1) set_ConsD set_append n(6) refOf_def prod.inject)
  moreover have "recordIDs (t @ [?n])" using assms(1,2) by (simp add: recordsOK_def recordIDs_def n)
  ultimately show ?thesis by (simp add: recordsOK_def)
qed

lemma upsert_ok:
  assumes "recordsOK t" "newID \<notin> set (map re_ID t)"
  shows "recordsOK (snd (upsertDetectionWhere flt now newID srcs d orgs t))"
proof -
  obtain res t' where u: "upsertDetectionWhere flt now newID srcs d orgs t = (res, t')" by fastforce
  from u show ?thesis
  proof (cases rule: upsert_cases)
    case same
    with assms u show ?thesis by simp
  next
    case (merged s r)
    with u assms merged_ok[of t r d now] show ?thesis by simp
  next
    case (opened s)
    with u assms opened_ok[of t newID d "so_Org s" now] show ?thesis by simp
  qed
qed

lemma resolveCleanWhere_ok: "recordsOK t \<Longrightarrow> recordsOK (snd (resolveCleanWhere flt now src key p t))"
  by (auto simp: resolveCleanWhere_def case_prod_beta intro!: updateWhere_ok)

lemma updateReturning_ok:
  "recordsOK t \<Longrightarrow> (\<And>r. p r \<Longrightarrow> live r) \<Longrightarrow> recordsOK (snd (updateReturning b p (resolveRow now) t))"
  "recordsOK t \<Longrightarrow> (\<And>r. p r \<Longrightarrow> live r) \<Longrightarrow> recordsOK (snd (updateReturning b p (ackRow actor msg now) t))"
  by (auto simp: updateReturning_def intro!: updateWhere_ok)

text \<open>A scoped write is the unscoped one, the one under the predicate, or none.\<close>

lemma writeInScope_cases:
  "(\<And>ids. P (snd (writeOrgs ids t))) \<Longrightarrow> P (snd (writeAll t)) \<Longrightarrow> P t \<Longrightarrow> P (snd (writeInScope denied writeAll writeOrgs sc t))"
  by (simp add: writeInScope_def Let_def)

lemma recordStep_ok: "recordStep t t' \<Longrightarrow> recordsOK t \<Longrightarrow> recordsOK t'"
proof (induction rule: recordStep.induct)
  case (detect newID t flt now srcs d sc)
  show ?case unfolding upsertDetectionInScope_def upsertDetection_def
    by (rule writeInScope_cases) (use detect in \<open>simp_all add: upsert_ok\<close>)
next
  case (clean t flt now src key sc)
  show ?case unfolding resolveCleanInScope_def resolveClean_def
    by (rule writeInScope_cases) (use clean in \<open>simp_all add: resolveCleanWhere_ok\<close>)
next
  case (ack t flt now i actor msg sc)
  have "live r" if "re_Status r = ''open''" for r using that by (simp add: live_def)
  then show ?case unfolding acknowledgeInScope_def acknowledge_def
    by (intro writeInScope_cases[of recordsOK] updateReturning_ok) (use ack in auto)
next
  case (close t flt now i sc)
  show ?case unfolding resolveInScope_def resolveRecord_def
    by (intro writeInScope_cases[of recordsOK] updateReturning_ok) (use close in auto)
next
  case (prune maxAge now t n t')
  then show ?case by (auto simp: pruneResolved_def deleteRows_def filter_ok split: if_splits)
qed

text \<open>C17: However detections, clean results, acknowledgements, manual closings and the retention
  interleave, whoever runs them and whatever fails, the table holds at most one live finding per
  state file and one row per external reference.\<close>

theorem one_live_finding:
  assumes "recordStep\<^sup>*\<^sup>* [] t"
  shows "recordsOK t"
  using assms
proof (induction rule: rtranclp_induct)
  case base
  show ?case by (simp add: recordsOK_def recordIDs_def oneLive_def oneRef_def)
qed (rule recordStep_ok)

definition sampleSources :: "sourceRow list" where
  "sampleSources = [\<lparr>so_ID = ''s1'', so_Org = Some ''o1'', so_Name = ''prod''\<rparr>, \<lparr>so_ID = ''s2'', so_Org = Some ''o2'', so_Name = ''dev''\<rparr>]"

definition sampleDetection :: detection where
  "sampleDetection = \<lparr>de_SourceID = ''s1'', de_StateKey = ''app'', de_PipelineConnectionID = None, de_RunID = None,
     de_Origin = ''ingest'', de_Added = 1, de_Changed = 0, de_Destroyed = 0, de_Summary = [], de_ExternalRef = Some ''ci-1'',
     de_Marks = noMarks, de_Infra = noInfra\<rparr>"

abbreviation everyone :: scope where
  "everyone \<equiv> \<lparr>sc_PlatformAdmin = True, sc_OrgIDs = []\<rparr>"

theorem one_live_finding_witness:
  "recordsOK (snd (upsertDetectionInScope (\<lambda>_. False) 6 ''r2'' sampleSources sampleDetection everyone
     (snd (upsertDetectionInScope (\<lambda>_. False) 5 ''r1'' sampleSources sampleDetection everyone []))))"
proof -
  let ?t = "snd (upsertDetectionInScope (\<lambda>_. False) 5 ''r1'' sampleSources sampleDetection everyone [])"
  have "map re_ID ?t = [''r1'']" by code_simp
  then have "''r2'' \<notin> set (map re_ID ?t)" by simp
  then have "recordStep ?t (snd (upsertDetectionInScope (\<lambda>_. False) 6 ''r2'' sampleSources sampleDetection everyone ?t))"
    by (rule recordStep.detect)
  moreover have "recordStep [] ?t" by (rule recordStep.detect) simp
  ultimately have "recordStep\<^sup>*\<^sup>* [] (snd (upsertDetectionInScope (\<lambda>_. False) 6 ''r2'' sampleSources sampleDetection everyone ?t))"
    by (meson converse_rtranclp_into_rtranclp r_into_rtranclp)
  then show ?thesis by (rule one_live_finding)
qed

section \<open>Tenants do not meet\<close>

lemma upsert_isolated:
  assumes "recordIDs t" "ownersAgree srcs t" "upsertDetectionWhere flt now newID srcs d (Some ids) t = (res, t')"
  shows "filter (\<lambda>r. \<not> anyOrg ids (re_Org r)) t' = filter (\<lambda>r. \<not> anyOrg ids (re_Org r)) t"
  using assms(3)
proof (cases rule: upsert_cases)
  case same
  then show ?thesis by simp
next
  case (merged s r)
  from ownedSource_Some[OF merged(1)] have s: "s \<in> set srcs" "so_ID s = de_SourceID d" "anyOrg ids (so_Org s)" by auto
  from merged(3) have "re_SourceID r = Some (so_ID s)" using s(2) by (simp add: liveFor_def)
  with assms(2) merged(2) s(1,3) have org: "anyOrg ids (re_Org r)" unfolding ownersAgree_def by metis
  have ids: "x = r" if "x \<in> set t" "re_ID x = re_ID r" for x
    using assms(1) merged(2) that by (auto simp: recordIDs_def distinct_map inj_on_def)
  have "filter (\<lambda>x. \<not> anyOrg ids (re_Org x)) (map (\<lambda>x. if re_ID x = re_ID r then mergeDetection d now x else x) u)
      = filter (\<lambda>x. \<not> anyOrg ids (re_Org x)) u" if "set u \<subseteq> set t" for u
    using that
  proof (induction u)
    case (Cons x u)
    then show ?case using ids[of x] org by (cases "re_ID x = re_ID r") auto
  qed simp
  then show ?thesis using merged(5) by simp
next
  case (opened s)
  from ownedSource_Some[OF opened(1)] have "anyOrg ids (so_Org s)" by auto
  with opened(4) show ?thesis by (simp add: newRecord_def)
qed

interpretation upsertDetection: scoped_writer re_Org "\<lambda>t. if recordIDs t \<and> ownersAgree srcs t then upsertDetection flt now newID srcs d t else (res, t)"
    "\<lambda>ids t. if recordIDs t \<and> ownersAgree srcs t then upsertDetectionWhere flt now newID srcs d (Some ids) t else (res, t)"
    for flt now newID srcs d res
proof unfold_locales
  fix ids t
  show "filter (\<lambda>r. \<not> anyOrg ids (re_Org r))
      (snd (if recordIDs t \<and> ownersAgree srcs t then upsertDetectionWhere flt now newID srcs d (Some ids) t else (res, t)))
    = filter (\<lambda>r. \<not> anyOrg ids (re_Org r)) t"
    using upsert_isolated[of t srcs flt now newID d ids] by (auto simp: prod_eq_iff)
qed

lemma upsertInScope_isolated:
  assumes "recordIDs t" "ownersAgree srcs t"
  shows "filter (\<lambda>r. \<not> reaches sc (re_Org r)) (snd (upsertDetectionInScope flt now newID srcs d sc t))
    = filter (\<lambda>r. \<not> reaches sc (re_Org r)) t"
proof -
  have "upsertDetectionInScope flt now newID srcs d sc t = writeInScope (Inl NotInScope)
      (\<lambda>t. if recordIDs t \<and> ownersAgree srcs t then upsertDetection flt now newID srcs d t else (Inl NotInScope, t))
      (\<lambda>ids t. if recordIDs t \<and> ownersAgree srcs t then upsertDetectionWhere flt now newID srcs d (Some ids) t else (Inl NotInScope, t)) sc t"
    using assms by (simp add: upsertDetectionInScope_def writeInScope_def Let_def)
  then show ?thesis by (simp only: upsertDetection.writes_isolated)
qed

text \<open>No tenant writes another's findings. Recording a detection, resolving after a clean result,
  acknowledging and closing by hand leave every finding outside the caller's scope exactly as it
  was, a refused or empty scope leaves all of them.\<close>

theorem findings_are_written_in_scope:
  assumes "recordIDs t" "ownersAgree srcs t"
    and "t' \<in> {snd (upsertDetectionInScope flt now newID srcs d sc t), snd (resolveCleanInScope flt now src key sc t),
               snd (acknowledgeInScope flt now i actor msg sc t), snd (resolveInScope flt now i sc t)}"
  shows "filter (\<lambda>r. \<not> reaches sc (re_Org r)) t' = filter (\<lambda>r. \<not> reaches sc (re_Org r)) t"
  using assms(3) upsertInScope_isolated[OF assms(1,2)]
  by (auto simp only: insert_iff empty_iff resolveCleanInScope_def acknowledgeInScope_def resolveInScope_def
      resolveClean.writes_isolated acknowledge.writes_isolated resolveRecord.writes_isolated)

definition sampleRecords :: "driftRecordRow list" where
  "sampleRecords = snd (upsertDetectionInScope (\<lambda>_. False) 5 ''r1'' sampleSources sampleDetection everyone [])"

theorem findings_are_written_in_scope_witness:
  "filter (\<lambda>r. \<not> reaches (organizationScope ''o2'') (re_Org r))
     (snd (resolveInScope (\<lambda>_. False) 7 ''r1'' (organizationScope ''o2'') sampleRecords))
   = filter (\<lambda>r. \<not> reaches (organizationScope ''o2'') (re_Org r)) sampleRecords"
proof -
  have "recordIDs sampleRecords" "ownersAgree sampleSources sampleRecords" by code_simp+
  then show ?thesis by (rule findings_are_written_in_scope) blast
qed

text \<open>C18: No tenant reads another's findings. Every scoped reader, lists, single rows, totals, status
  tallies, live rows and the summary counts, answers what the unscoped one would answer if the
  table held only the rows the caller's scope reaches.\<close>

theorem findings_are_read_in_scope:
  "let mine = filter (\<lambda>r. reaches sc (re_Org r)) t
   in listRecordsInScope f limit offset sc t = listRecords f limit offset mine
    \<and> countRecordsInScope f sc t = countRecords f mine \<and> getRecordInScope i sc t = getRecord i mine
    \<and> countsByStatusInScope sc t = countsByStatus mine \<and> liveByStateInScope src sc t = liveByState src mine
    \<and> countIncompleteInScope sc t = countIncomplete mine \<and> countInfraDriftedInScope sc t = countInfraDrifted mine"
  unfolding listRecordsInScope_def countRecordsInScope_def getRecordInScope_def countsByStatusInScope_def
    liveByStateInScope_def countIncompleteInScope_def countInfraDriftedInScope_def Let_def
  using listRecords.reads_reached countRecords.reads_reached getRecord.reads_reached countsByStatus.reads_reached
    liveByState.reads_reached countIncomplete.reads_reached countInfraDrifted.reads_reached by blast

end
