(* ===== verification/DriftRuns.thy ===== *)
theory DriftRuns
  imports DriftRecords
begin

text \<open>
  \<open>db/repositories/drift_repository.go\<close>, the run half of \<open>callback_root_scope.go\<close> and
  \<open>services/driftreconcile\<close>: a run is dispatched to a CI job with a callback token of its own, is
  completed by the one callback that presents it, or is failed by the reconciler when none came.

  Rows are kept in the order they were inserted. Statements fail as \<open>flt\<close> says; recording a result
  also fails when a count does not fit its INTEGER column. NULL text columns read as the empty text.
\<close>

section \<open>The table\<close>

record driftRun =
  dn_ID :: string
  dn_PipelineConnectionID :: "string option"
  dn_SourceID :: "string option"
  dn_StateKey :: string
  dn_RepoRef :: string
  dn_WorkingDir :: string
  dn_Status :: string
  dn_Added :: "int option"
  dn_Changed :: "int option"
  dn_Destroyed :: "int option"
  dn_Drifted :: "bool option"
  dn_Summary :: string
  dn_Detail :: string
  dn_CallbackToken :: string
  dn_Actor :: string
  dn_CreatedAt :: int
  dn_UpdatedAt :: int
  dn_BatchID :: "string option"
  dn_CIRunID :: string
  dn_CIRunURL :: string
  dn_Infra :: infraDrift
  dn_Marks :: completeness
  dn_Org :: "string option"

datatype runStmt =
    StmtCreate | StmtGetRun | StmtUpdateStatus | StmtSetCIRun | StmtFailBatch | StmtConsume | StmtUpdateResult
  | StmtListExpired | StmtExpire string | StmtListRuns | StmtCountRuns | StmtLatest | StmtPruneRuns

datatype runErr = NoOrganization | RunNotInScope | RunStatementFailed runStmt

section \<open>Statements\<close>

text \<open>\<open>Create\<close>: the row the INSERT makes of the given run, which carries no result yet.\<close>

definition createRun ::
    "(runStmt \<Rightarrow> bool) \<Rightarrow> int \<Rightarrow> string \<Rightarrow> driftRun \<Rightarrow> string \<Rightarrow> driftRun list \<Rightarrow> (runErr + driftRun) \<times> driftRun list" where
  "createRun flt now newID d org t =
     (if trimSpace org = [] then (Inl NoOrganization, t)
      else if flt StmtCreate then (Inl (RunStatementFailed StmtCreate), t)
      else (let r = \<lparr>dn_ID = newID, dn_PipelineConnectionID = dn_PipelineConnectionID d, dn_SourceID = dn_SourceID d,
                     dn_StateKey = dn_StateKey d, dn_RepoRef = dn_RepoRef d, dn_WorkingDir = dn_WorkingDir d,
                     dn_Status = dn_Status d, dn_Added = None, dn_Changed = None, dn_Destroyed = None, dn_Drifted = None,
                     dn_Summary = [], dn_Detail = [], dn_CallbackToken = dn_CallbackToken d, dn_Actor = dn_Actor d,
                     dn_CreatedAt = now, dn_UpdatedAt = now, dn_BatchID = dn_BatchID d, dn_CIRunID = [], dn_CIRunURL = [],
                     dn_Infra = noInfra, dn_Marks = noMarks, dn_Org = Some (trimSpace org)\<rparr>
            in (Inr r, t @ [r])))"

definition getRun :: "string \<Rightarrow> driftRun list \<Rightarrow> driftRun option" where
  "getRun i = List.find (\<lambda>r. dn_ID r = i)"

definition setDetail :: "string \<Rightarrow> driftRun \<Rightarrow> driftRun" where
  "setDetail detail r = (if detail = [] then r else r\<lparr>dn_Detail := detail\<rparr>)"

definition updateStatus ::
    "(runStmt \<Rightarrow> bool) \<Rightarrow> int \<Rightarrow> string \<Rightarrow> string \<Rightarrow> string \<Rightarrow> driftRun list \<Rightarrow> bool \<times> driftRun list" where
  "updateStatus flt now i status detail t =
     (if flt StmtUpdateStatus then (False, t)
      else (True, snd (updateWhere (\<lambda>r. dn_ID r = i)
              (\<lambda>r. setDetail detail (r\<lparr>dn_Status := status, dn_UpdatedAt := now\<rparr>)) t)))"

definition setCIRun ::
    "(runStmt \<Rightarrow> bool) \<Rightarrow> int \<Rightarrow> string \<Rightarrow> string \<Rightarrow> string \<Rightarrow> driftRun list \<Rightarrow> bool \<times> driftRun list" where
  "setCIRun flt now i ciID ciURL t =
     (if flt StmtSetCIRun then (False, t)
      else (True, snd (updateWhere (\<lambda>r. dn_BatchID r = Some i \<or> dn_ID r = i)
              (\<lambda>r. r\<lparr>dn_CIRunID := ciID, dn_CIRunURL := ciURL, dn_UpdatedAt := now\<rparr>) t)))"

definition failRow :: "int \<Rightarrow> string \<Rightarrow> driftRun \<Rightarrow> driftRun" where
  "failRow now detail r = r\<lparr>dn_Status := ''failed'', dn_Detail := detail, dn_CallbackToken := [], dn_UpdatedAt := now\<rparr>"

definition failBatchRows :: "(runStmt \<Rightarrow> bool) \<Rightarrow> int \<Rightarrow> string \<Rightarrow> string \<Rightarrow> driftRun list \<Rightarrow> bool \<times> driftRun list" where
  "failBatchRows flt now batch detail t =
     (if flt StmtFailBatch then (False, t)
      else (True, snd (updateWhere (\<lambda>r. dn_BatchID r = Some batch \<and> dn_Status r = ''dispatched'') (failRow now detail) t)))"

text \<open>Whether the compare-and-clear took the token; None when the statement failed.\<close>

definition consumeCallbackToken ::
    "(runStmt \<Rightarrow> bool) \<Rightarrow> string \<Rightarrow> string \<Rightarrow> driftRun list \<Rightarrow> bool option \<times> driftRun list" where
  "consumeCallbackToken flt i token t =
     (if token = [] then (Some False, t)
      else if flt StmtConsume then (None, t)
      else (case updateWhere (\<lambda>r. dn_ID r = i \<and> dn_CallbackToken r = token) (\<lambda>r. r\<lparr>dn_CallbackToken := []\<rparr>) t of
              (n, t') \<Rightarrow> (Some (0 < n), t')))"

record runOutcome =
  ro_Status :: string
  ro_Added :: int
  ro_Changed :: int
  ro_Destroyed :: int
  ro_Drifted :: bool
  ro_Summary :: string
  ro_Detail :: string
  ro_Marks :: completeness
  ro_Infra :: infraDrift

definition outcomeFits :: "runOutcome \<Rightarrow> bool" where
  "outcomeFits o' = (int32 (ro_Added o') \<and> int32 (ro_Changed o') \<and> int32 (ro_Destroyed o') \<and> marksFit (ro_Marks o') \<and> infraFits (ro_Infra o'))"

definition resultRow :: "int \<Rightarrow> runOutcome \<Rightarrow> driftRun \<Rightarrow> driftRun" where
  "resultRow now o' r =
     setDetail (ro_Detail o')
       (r\<lparr>dn_Status := ro_Status o', dn_Added := Some (ro_Added o'), dn_Changed := Some (ro_Changed o'),
          dn_Destroyed := Some (ro_Destroyed o'), dn_Drifted := Some (ro_Drifted o'), dn_Summary := ro_Summary o',
          dn_UpdatedAt := now, dn_Marks := markTruncation (ro_Marks o'), dn_Infra := ro_Infra o'\<rparr>)"

definition updateResultWhere ::
    "(runStmt \<Rightarrow> bool) \<Rightarrow> int \<Rightarrow> string \<Rightarrow> runOutcome \<Rightarrow> (driftRun \<Rightarrow> bool) \<Rightarrow> driftRun list \<Rightarrow> runErr option \<times> driftRun list" where
  "updateResultWhere flt now i o' p t =
     (if flt StmtUpdateResult \<or> \<not> outcomeFits o' then (Some (RunStatementFailed StmtUpdateResult), t)
      else (None, snd (updateWhere (\<lambda>r. dn_ID r = i \<and> p r) (resultRow now o') t)))"

definition updateResult ::
    "(runStmt \<Rightarrow> bool) \<Rightarrow> int \<Rightarrow> string \<Rightarrow> runOutcome \<Rightarrow> driftRun list \<Rightarrow> runErr option \<times> driftRun list" where
  "updateResult flt now i o' = updateResultWhere flt now i o' (\<lambda>_. True)"

definition updateResultInScope ::
    "(runStmt \<Rightarrow> bool) \<Rightarrow> int \<Rightarrow> string \<Rightarrow> runOutcome \<Rightarrow> scope \<Rightarrow> driftRun list \<Rightarrow> runErr option \<times> driftRun list" where
  "updateResultInScope flt now i o' =
     writeInScope (Some RunNotInScope) (updateResult flt now i o')
       (\<lambda>ids. updateResultWhere flt now i o' (\<lambda>r. anyOrg ids (dn_Org r)))"

section \<open>Expiry and retention\<close>

text \<open>The oldest dispatched runs of before the cutoff, tokens included.\<close>

definition listExpiredDispatched :: "int \<Rightarrow> int \<Rightarrow> driftRun list \<Rightarrow> driftRun list" where
  "listExpiredDispatched cutoff limit t =
     take (nat (if limit \<le> 0 \<or> 500 < limit then 100 else limit))
       (sort_key dn_CreatedAt (filter (\<lambda>r. dn_Status r = ''dispatched'' \<and> dn_CreatedAt r < cutoff) t))"

definition expireDispatched ::
    "(runStmt \<Rightarrow> bool) \<Rightarrow> int \<Rightarrow> string \<Rightarrow> string \<Rightarrow> string \<Rightarrow> driftRun list \<Rightarrow> bool option \<times> driftRun list" where
  "expireDispatched flt now i token detail t =
     (if token = [] then (Some False, t)
      else if flt (StmtExpire i) then (None, t)
      else (case updateWhere (\<lambda>r. dn_ID r = i \<and> dn_Status r = ''dispatched'' \<and> dn_CallbackToken r = token) (failRow now detail) t of
              (n, t') \<Rightarrow> (Some (0 < n), t')))"

definition expiryBatchSize :: int where "expiryBatchSize = 100"

text \<open>\<open>reconcileOnce\<close>: the runs it failed, in order, are notified; a failing expiry is logged.\<close>

fun expireAll ::
    "(runStmt \<Rightarrow> bool) \<Rightarrow> int \<Rightarrow> string \<Rightarrow> driftRun list \<Rightarrow> (string \<times> string) list \<times> driftRun list \<Rightarrow>
     (string \<times> string) list \<times> driftRun list" where
  "expireAll flt now detail [] acc = acc"
| "expireAll flt now detail (r # rs) (sent, t) =
     (case expireDispatched flt now (dn_ID r) (dn_CallbackToken r) detail t of
        (Some True, t') \<Rightarrow> expireAll flt now detail rs (sent @ [(orgText (dn_Org r), dn_ID r)], t')
      | (_, t') \<Rightarrow> expireAll flt now detail rs (sent, t'))"

definition reconcileOnce ::
    "(runStmt \<Rightarrow> bool) \<Rightarrow> int \<Rightarrow> int \<Rightarrow> string \<Rightarrow> driftRun list \<Rightarrow> (string \<times> string) list \<times> driftRun list" where
  "reconcileOnce flt now ttl detail t =
     (if flt StmtListExpired then ([], t)
      else expireAll flt now detail (listExpiredDispatched (now - ttl) expiryBatchSize t) ([], t))"

text \<open>\<open>PruneRuns\<close>: \<open>row_number() OVER (PARTITION BY source_id, state_key ORDER BY created_at DESC)\<close>.\<close>

definition sameState :: "driftRun \<Rightarrow> driftRun \<Rightarrow> bool" where
  "sameState a b = (dn_SourceID a = dn_SourceID b \<and> dn_StateKey a = dn_StateKey b)"

definition newestRuns :: "driftRun list \<Rightarrow> driftRun list" where
  "newestRuns = sort_key (\<lambda>r. - dn_CreatedAt r)"

definition amongNewest :: "nat \<Rightarrow> driftRun list \<Rightarrow> driftRun \<Rightarrow> bool" where
  "amongNewest n t r = (dn_ID r \<in> dn_ID ` set (take n (newestRuns (filter (sameState r) t))))"

definition pruneRuns :: "int \<Rightarrow> int \<Rightarrow> int \<Rightarrow> driftRun list \<Rightarrow> (nat \<times> driftRun list) option" where
  "pruneRuns keep maxAge now t =
     (if keep < 1 then None
      else if maxAge \<le> 0 then None
      else Some (deleteRows (\<lambda>r. \<not> amongNewest (nat keep) t r \<and> dn_CreatedAt r < now - maxAge
                   \<and> dn_Status r \<notin> {''dispatched'', ''running''}) t))"

text \<open>\<open>pruneRetention\<close>: the runs, then the resolved records where they are attached; None leaves the
  retention off, a refused bound or failing statement is logged.\<close>

record retention =
  rt_Enabled :: bool
  rt_KeepPerState :: int
  rt_MaxAge :: int
  rt_ResolvedMaxAge :: int

definition pruneRetention ::
    "(runStmt \<Rightarrow> bool) \<Rightarrow> bool \<Rightarrow> retention \<Rightarrow> int \<Rightarrow> driftRun list \<times> driftRecordRow list option \<Rightarrow>
     driftRun list \<times> driftRecordRow list option" where
  "pruneRetention flt recordsFail cfg now tr =
     (if \<not> rt_Enabled cfg then tr
      else (let runs = (if flt StmtPruneRuns then fst tr
                        else (case pruneRuns (rt_KeepPerState cfg) (rt_MaxAge cfg) now (fst tr) of
                                None \<Rightarrow> fst tr | Some (_, t') \<Rightarrow> t'))
            in (runs, case snd tr of
                        None \<Rightarrow> None
                      | Some rs \<Rightarrow> if recordsFail then Some rs
                                   else (case pruneResolved (rt_ResolvedMaxAge cfg) now rs of
                                           None \<Rightarrow> Some rs | Some (_, rs') \<Rightarrow> Some rs'))))"

section \<open>Reading\<close>

definition runPage :: "int \<Rightarrow> int \<Rightarrow> int \<times> int" where
  "runPage limit offset = (if limit \<le> 0 \<or> 200 < limit then 50 else limit, if offset < 0 then 0 else offset)"

record driftRunFilter =
  fl_Status :: string
  fl_BatchID :: string
  fl_SourceID :: string
  fl_StateKey :: string
  fl_Since :: "int option"

definition driftRunFilterClause :: "driftRunFilter \<Rightarrow> driftRun \<Rightarrow> bool" where
  "driftRunFilterClause f r =
     ((fl_Status f \<noteq> [] \<longrightarrow> dn_Status r = fl_Status f)
      \<and> (fl_BatchID f \<noteq> [] \<longrightarrow> dn_BatchID r = Some (fl_BatchID f) \<or> dn_ID r = fl_BatchID f)
      \<and> (fl_SourceID f \<noteq> [] \<longrightarrow> dn_SourceID r = Some (fl_SourceID f))
      \<and> (fl_StateKey f \<noteq> [] \<longrightarrow> dn_StateKey r = fl_StateKey f)
      \<and> (case fl_Since f of None \<Rightarrow> True | Some x \<Rightarrow> x \<le> dn_CreatedAt r))"

text \<open>Never exposed in a listing.\<close>

definition hideToken :: "driftRun \<Rightarrow> driftRun" where
  "hideToken r = r\<lparr>dn_CallbackToken := []\<rparr>"

definition listRuns :: "driftRunFilter \<Rightarrow> int \<Rightarrow> int \<Rightarrow> driftRun list \<Rightarrow> driftRun list" where
  "listRuns f limit offset t = map hideToken (window (runPage limit offset) (newestRuns (filter (driftRunFilterClause f) t)))"

definition listRunsInScope :: "driftRunFilter \<Rightarrow> int \<Rightarrow> int \<Rightarrow> scope \<Rightarrow> driftRun list \<Rightarrow> driftRun list" where
  "listRunsInScope f limit offset =
     readInScope [] (listRuns f limit offset)
       (\<lambda>ids t. map hideToken (window (runPage limit offset)
          (newestRuns (filter (\<lambda>r. anyOrg ids (dn_Org r) \<and> driftRunFilterClause f r) t))))"

definition countRuns :: "driftRunFilter \<Rightarrow> driftRun list \<Rightarrow> nat" where
  "countRuns f = countWhere (driftRunFilterClause f)"

definition countRunsInScope :: "driftRunFilter \<Rightarrow> scope \<Rightarrow> driftRun list \<Rightarrow> nat" where
  "countRunsInScope f =
     readInScope 0 (countRuns f) (\<lambda>ids. countWhere (\<lambda>r. anyOrg ids (dn_Org r) \<and> driftRunFilterClause f r))"

definition countRunsIn :: "string list \<Rightarrow> driftRun list \<Rightarrow> nat" where
  "countRunsIn statuses = countWhere (\<lambda>r. dn_Status r \<in> set statuses)"

definition getRunInScope :: "string \<Rightarrow> scope \<Rightarrow> driftRun list \<Rightarrow> driftRun option" where
  "getRunInScope i = readInScope None (getRun i) (\<lambda>ids. List.find (\<lambda>r. anyOrg ids (dn_Org r) \<and> dn_ID r = i))"

text \<open>\<open>DISTINCT ON (state_key) .. ORDER BY state_key, created_at DESC\<close> as the map the code builds.\<close>

definition latestPerState :: "string \<Rightarrow> driftRun list \<Rightarrow> string \<Rightarrow> driftRun option" where
  "latestPerState src t key =
     map_option hideToken (List.find (\<lambda>r. dn_StateKey r = key) (newestRuns (filter (\<lambda>r. dn_SourceID r = Some src) t)))"

definition latestPerStateInScope :: "string \<Rightarrow> scope \<Rightarrow> driftRun list \<Rightarrow> string \<Rightarrow> driftRun option" where
  "latestPerStateInScope src =
     readInScope (\<lambda>_. None) (latestPerState src)
       (\<lambda>ids t key. map_option hideToken (List.find (\<lambda>r. dn_StateKey r = key)
          (newestRuns (filter (\<lambda>r. anyOrg ids (dn_Org r) \<and> dn_SourceID r = Some src) t))))"

section \<open>The scoped statements keep to their organization\<close>

interpretation listRuns: scoped_reader dn_Org "[]" "listRuns f limit offset"
    "\<lambda>ids t. map hideToken (window (runPage limit offset)
       (newestRuns (filter (\<lambda>r. anyOrg ids (dn_Org r) \<and> driftRunFilterClause f r) t)))" for f limit offset
  by unfold_locales (simp_all add: listRuns_def newestRuns_def window_def conj_commute)

interpretation countRuns: scoped_reader dn_Org 0 "countRuns f"
    "\<lambda>ids. countWhere (\<lambda>r. anyOrg ids (dn_Org r) \<and> driftRunFilterClause f r)" for f
  by unfold_locales (simp_all add: countRuns_def countWhere_filter, simp add: countWhere_def)

interpretation getRun: scoped_reader dn_Org None "getRun i" "\<lambda>ids. List.find (\<lambda>r. anyOrg ids (dn_Org r) \<and> dn_ID r = i)" for i
  by unfold_locales (simp_all add: getRun_def find_filter)

interpretation latestPerState: scoped_reader dn_Org "\<lambda>_. None" "latestPerState src"
    "\<lambda>ids t key. map_option hideToken (List.find (\<lambda>r. dn_StateKey r = key)
       (newestRuns (filter (\<lambda>r. anyOrg ids (dn_Org r) \<and> dn_SourceID r = Some src) t)))" for src
  by unfold_locales (simp_all add: fun_eq_iff latestPerState_def newestRuns_def conj_commute)

lemma resultRow_keeps [simp]:
  "dn_Org (resultRow now o' r) = dn_Org r" "dn_ID (resultRow now o' r) = dn_ID r"
  "dn_CallbackToken (resultRow now o' r) = dn_CallbackToken r" "dn_Status (resultRow now o' r) = ro_Status o'"
  "dn_CreatedAt (resultRow now o' r) = dn_CreatedAt r"
  by (simp_all add: resultRow_def setDetail_def)

lemma failRow_keeps [simp]:
  "dn_Org (failRow now detail r) = dn_Org r" "dn_ID (failRow now detail r) = dn_ID r"
  "dn_CallbackToken (failRow now detail r) = []" "dn_Status (failRow now detail r) = ''failed''"
  by (simp_all add: failRow_def)

interpretation updateResult: scoped_writer dn_Org "updateResult flt now i o'"
    "\<lambda>ids. updateResultWhere flt now i o' (\<lambda>r. anyOrg ids (dn_Org r))" for flt now i o'
  by unfold_locales (auto simp: updateResultWhere_def intro!: updateWhere_others)

text \<open>No tenant reads another's runs, and no listing shows a callback token. Every scoped reader
  answers what the unscoped one would answer if the table held only the rows the caller's scope
  reaches; the rows of a listing carry no token.\<close>

theorem runs_are_read_in_scope:
  "let mine = filter (\<lambda>r. reaches sc (dn_Org r)) t
   in listRunsInScope f limit offset sc t = listRuns f limit offset mine
    \<and> countRunsInScope f sc t = countRuns f mine \<and> getRunInScope i sc t = getRun i mine
    \<and> latestPerStateInScope src sc t = latestPerState src mine
    \<and> list_all (\<lambda>r. dn_CallbackToken r = []) (listRunsInScope f limit offset sc t)"
proof -
  have "list_all (\<lambda>r. dn_CallbackToken r = []) (listRuns f limit offset u)" for u
    by (simp add: listRuns_def list_all_iff hideToken_def)
  then show ?thesis
    unfolding listRunsInScope_def countRunsInScope_def getRunInScope_def latestPerStateInScope_def Let_def
    using listRuns.reads_reached countRuns.reads_reached getRun.reads_reached latestPerState.reads_reached by metis
qed

section \<open>The reconciler\<close>

text \<open>The runs of a sweep it may fail: those with a token left whose statement does not fail.\<close>

definition overdue :: "(runStmt \<Rightarrow> bool) \<Rightarrow> driftRun \<Rightarrow> bool" where
  "overdue flt r = (dn_CallbackToken r \<noteq> [] \<and> \<not> flt (StmtExpire (dn_ID r)))"

lemma runs_with_id: "distinct (map dn_ID t) \<Longrightarrow> x \<in> set t \<Longrightarrow> r \<in> set t \<Longrightarrow> dn_ID x = dn_ID r \<Longrightarrow> x = r"
  by (auto simp: distinct_map inj_on_def)

lemma expireDispatched_listed:
  assumes "distinct (map dn_ID t)" "r \<in> set t" "dn_Status r = ''dispatched''"
  shows "expireDispatched flt now (dn_ID r) (dn_CallbackToken r) detail t =
    (if overdue flt r then (Some True, map (\<lambda>x. if x = r then failRow now detail x else x) t)
     else (if dn_CallbackToken r = [] then Some False else None, t))"
proof -
  let ?p = "\<lambda>x. dn_ID x = dn_ID r \<and> dn_Status x = ''dispatched'' \<and> dn_CallbackToken x = dn_CallbackToken r"
  have p: "?p x = (x = r)" if "x \<in> set t" for x using runs_with_id[OF assms(1) that assms(2)] assms(3) by auto
  have "map (\<lambda>x. if ?p x then failRow now detail x else x) t = map (\<lambda>x. if x = r then failRow now detail x else x) t"
    by (rule map_cong[OF refl]) (simp only: p)
  moreover have "filter ?p t \<noteq> []" using p assms(2) by (auto simp: filter_empty_conv)
  ultimately show ?thesis by (simp add: expireDispatched_def overdue_def updateWhere_def)
qed

lemma expireAll_spec:
  assumes "distinct (map dn_ID t)" "set rs \<subseteq> set t" "distinct rs" "\<forall>r \<in> set rs. dn_Status r = ''dispatched''"
  shows "expireAll flt now detail rs (sent, t) =
    (sent @ map (\<lambda>r. (orgText (dn_Org r), dn_ID r)) (filter (overdue flt) rs),
     map (\<lambda>r. if r \<in> set rs \<and> overdue flt r then failRow now detail r else r) t)"
  using assms
proof (induction rs arbitrary: sent t)
  case (Cons r rs)
  let ?t = "map (\<lambda>x. if x = r then failRow now detail x else x) t"
  have r: "r \<in> set t" "dn_Status r = ''dispatched''" using Cons.prems by simp_all
  note step = expireDispatched_listed[OF Cons.prems(1) r, of flt now detail]
  show ?case
  proof (cases "overdue flt r")
    case True
    have ids: "distinct (map dn_ID ?t)"
    proof -
      have "map dn_ID ?t = map dn_ID t" by simp
      then show ?thesis using Cons.prems(1) by (simp only:)
    qed
    have sub: "set rs \<subseteq> set ?t" using Cons.prems(2,3) by auto
    have new: "failRow now detail r \<notin> set rs"
    proof
      assume "failRow now detail r \<in> set rs"
      then have "dn_Status (failRow now detail r) = ''dispatched''" using Cons.prems(4) by (metis list.set_intros(2))
      then show False by simp
    qed
    have tbl: "map (\<lambda>x. if x \<in> set rs \<and> overdue flt x then failRow now detail x else x) ?t
        = map (\<lambda>x. if x \<in> set (r # rs) \<and> overdue flt x then failRow now detail x else x) t"
      unfolding map_map o_def by (rule map_cong[OF refl]) (use True new Cons.prems(3) in auto)
    have "expireAll flt now detail (r # rs) (sent, t) = expireAll flt now detail rs (sent @ [(orgText (dn_Org r), dn_ID r)], ?t)"
      by (simp add: step True)
    also have "\<dots> = (sent @ map (\<lambda>r. (orgText (dn_Org r), dn_ID r)) (filter (overdue flt) (r # rs)),
        map (\<lambda>x. if x \<in> set rs \<and> overdue flt x then failRow now detail x else x) ?t)"
      using Cons.IH[OF ids sub] Cons.prems(3,4) True by simp
    finally show ?thesis unfolding tbl .
  next
    case False
    have "expireAll flt now detail (r # rs) (sent, t) = expireAll flt now detail rs (sent, t)"
      by (simp add: step False)
    moreover have "map (\<lambda>x. if x \<in> set rs \<and> overdue flt x then failRow now detail x else x) t
        = map (\<lambda>x. if x \<in> set (r # rs) \<and> overdue flt x then failRow now detail x else x) t"
      by (rule map_cong[OF refl]) (use False in auto)
    ultimately show ?thesis using Cons.IH[of t sent] Cons.prems False by simp
  qed
qed simp

text \<open>A sweep fails exactly the overdue runs it lists and notifies each once. The runs failed are
  those of the first \<open>expiryBatchSize\<close> dispatched runs of before the cutoff, oldest first, that
  still hold a token and whose statement does not fail; each loses its token, each is notified once
  and in that order, and every other run is left as it was.\<close>

theorem reconcile_fails_overdue:
  assumes "distinct (map dn_ID t)" "\<not> flt StmtListExpired"
  shows "let listed = take (nat expiryBatchSize)
           (sort_key dn_CreatedAt (filter (\<lambda>r. dn_Status r = ''dispatched'' \<and> dn_CreatedAt r < now - ttl) t))
         in reconcileOnce flt now ttl detail t =
              (map (\<lambda>r. (orgText (dn_Org r), dn_ID r)) (filter (overdue flt) listed),
               map (\<lambda>r. if r \<in> set listed \<and> overdue flt r then failRow now detail r else r) t)"
proof -
  let ?d = "filter (\<lambda>r. dn_Status r = ''dispatched'' \<and> dn_CreatedAt r < now - ttl) t"
  let ?l = "listExpiredDispatched (now - ttl) expiryBatchSize t"
  have l: "?l = take (nat expiryBatchSize) (sort_key dn_CreatedAt ?d)"
    by (simp add: listExpiredDispatched_def expiryBatchSize_def)
  have sub: "set ?l \<subseteq> set ?d" unfolding l by (rule subset_trans[OF set_take_subset]) simp
  have "distinct t" using assms(1) by (simp add: distinct_map)
  then have "distinct ?l" by (simp add: l)
  moreover have "set ?l \<subseteq> set t" "\<forall>r \<in> set ?l. dn_Status r = ''dispatched''" using sub by auto
  ultimately have "expireAll flt now detail ?l ([], t) = (map (\<lambda>r. (orgText (dn_Org r), dn_ID r)) (filter (overdue flt) ?l),
      map (\<lambda>r. if r \<in> set ?l \<and> overdue flt r then failRow now detail r else r) t)"
    using expireAll_spec[OF assms(1)] by simp
  then show ?thesis unfolding Let_def l[symmetric] reconcileOnce_def by (simp only: assms(2) if_False)
qed

section \<open>Retention\<close>

lemma sorted_take_below:
  assumes "sorted (map f ys)" "y \<in> set ys" "length (filter (\<lambda>z. f z \<le> f y) ys) \<le> n"
  shows "y \<in> set (take n ys)"
  using assms
proof (induction ys arbitrary: n)
  case (Cons z ys)
  have "f z \<le> f y" using Cons.prems(1,2) by auto
  with Cons.prems(3) obtain m where n: "n = Suc m" "length (filter (\<lambda>z. f z \<le> f y) ys) \<le> m" by (cases n) auto
  show ?case
  proof (cases "y = z")
    case False
    with Cons.prems(1,2) n Cons.IH[of m] show ?thesis by simp
  qed (simp add: n(1))
qed simp

text \<open>Retention keeps what is current. It removes no run that is dispatched or running, none younger
  than the age, and none of the newest \<open>keep\<close> runs of its state; it is refused when asked to keep
  none or given no age, and it reports how many rows went.\<close>

theorem retention_keeps_current:
  assumes "pruneRuns keep maxAge now t = Some (n, t')"
  shows "1 \<le> keep \<and> 0 < maxAge \<and> length t = n + length t' \<and> set t' \<subseteq> set t
    \<and> (\<forall>r \<in> set t. r \<in> set t' \<or> dn_Status r \<notin> {''dispatched'', ''running''} \<and> dn_CreatedAt r < now - maxAge
          \<and> nat keep < length (filter (\<lambda>x. sameState r x \<and> dn_CreatedAt r \<le> dn_CreatedAt x) t))"
proof -
  let ?p = "\<lambda>r. \<not> amongNewest (nat keep) t r \<and> dn_CreatedAt r < now - maxAge \<and> dn_Status r \<notin> {''dispatched'', ''running''}"
  from assms have k: "1 \<le> keep" "0 < maxAge" "n = length (filter ?p t)" "t' = filter (\<lambda>r. \<not> ?p r) t"
    by (auto simp: pruneRuns_def deleteRows_def split: if_splits)
  have newest: "amongNewest (nat keep) t r"
    if "r \<in> set t" "length (filter (\<lambda>x. sameState r x \<and> dn_CreatedAt r \<le> dn_CreatedAt x) t) \<le> nat keep" for r
  proof -
    let ?ys = "newestRuns (filter (sameState r) t)" and ?f = "\<lambda>x. - dn_CreatedAt x"
    have "length (filter (\<lambda>z. ?f z \<le> ?f r) ?ys) = length (filter (\<lambda>x. sameState r x \<and> dn_CreatedAt r \<le> dn_CreatedAt x) t)"
      by (simp add: newestRuns_def filter_sort conj_commute)
    moreover have "sorted (map ?f ?ys)" by (simp add: newestRuns_def)
    moreover have "r \<in> set ?ys" using that(1) by (simp add: newestRuns_def sameState_def)
    ultimately have "r \<in> set (take (nat keep) ?ys)" using that(2) by (intro sorted_take_below[of ?f]) simp_all
    then show ?thesis by (simp add: amongNewest_def)
  qed
  have "r \<in> set t' \<or> dn_Status r \<notin> {''dispatched'', ''running''} \<and> dn_CreatedAt r < now - maxAge
      \<and> nat keep < length (filter (\<lambda>x. sameState r x \<and> dn_CreatedAt r \<le> dn_CreatedAt x) t)" if "r \<in> set t" for r
  proof (cases "?p r")
    case True
    then have "\<not> length (filter (\<lambda>x. sameState r x \<and> dn_CreatedAt r \<le> dn_CreatedAt x) t) \<le> nat keep"
      using newest[OF that] by blast
    with True show ?thesis by (simp only: not_le simp_thms)
  next
    case False
    with that show ?thesis unfolding k(4) set_filter by blast
  qed
  moreover have "length t = n + length t'" "set t' \<subseteq> set t" using sum_length_filter_compl[of ?p t] k(3,4) by simp_all
  ultimately show ?thesis using k(1,2) by blast
qed

definition sampleRun :: "string \<Rightarrow> string \<Rightarrow> string \<Rightarrow> int \<Rightarrow> driftRun" where
  "sampleRun i status token created = \<lparr>dn_ID = i, dn_PipelineConnectionID = None, dn_SourceID = Some ''s1'', dn_StateKey = ''app'',
     dn_RepoRef = [], dn_WorkingDir = [], dn_Status = status, dn_Added = None, dn_Changed = None, dn_Destroyed = None,
     dn_Drifted = None, dn_Summary = [], dn_Detail = [], dn_CallbackToken = token, dn_Actor = ''ci'', dn_CreatedAt = created,
     dn_UpdatedAt = created, dn_BatchID = None, dn_CIRunID = [], dn_CIRunURL = [], dn_Infra = noInfra, dn_Marks = noMarks,
     dn_Org = Some ''o1''\<rparr>"

definition sampleRuns :: "driftRun list" where
  "sampleRuns = [sampleRun ''a'' ''dispatched'' ''t1'' 5, sampleRun ''b'' ''completed'' [] 6, sampleRun ''c'' ''dispatched'' ''t3'' 3,
     sampleRun ''d'' ''dispatched'' [] 2, sampleRun ''e'' ''completed'' [] 1]"

theorem reconcile_fails_overdue_witness:
  "fst (reconcileOnce (\<lambda>_. False) 100 10 ''late'' sampleRuns) = [(''o1'', ''c''), (''o1'', ''a'')]"
proof -
  have "distinct (map dn_ID sampleRuns)" by code_simp
  from reconcile_fails_overdue[OF this, of "\<lambda>_. False" 100 10 "''late''"] show ?thesis
    by (simp add: sampleRuns_def sampleRun_def expiryBatchSize_def overdue_def orgText_def)
qed

theorem retention_keeps_current_witness:
  "case pruneRuns 1 10 100 sampleRuns of None \<Rightarrow> False | Some (n, t') \<Rightarrow> n = 1 \<and> length sampleRuns = n + length t'"
proof -
  have "map_option (\<lambda>(n, t'). (n, map dn_ID t')) (pruneRuns 1 10 100 sampleRuns) = Some (1, [''a'', ''b'', ''c'', ''d''])" by code_simp
  then obtain t' where p: "pruneRuns 1 10 100 sampleRuns = Some (1, t')" by auto
  with retention_keeps_current[OF p] show ?thesis by simp
qed

end
