(* ===== verification/DriftCallback.thy ===== *)
theory DriftCallback
  imports DriftRuns
begin

text \<open>
  \<open>api/drift.go\<close> (\<open>RunResults\<close>) and \<open>api/drift_records.go\<close>: what a CI job reports about a dispatched
  run, what a pipeline pushes about a plan nobody dispatched, and what people do with the findings.

  Requests are given as their decoded bodies (for the callback, as binding left it), answers as a
  status with what the body says. The clock, the id a new record draws, failing statements and the
  JSON text of a summary (\<open>enc\<close>) are arguments. Notifications are detached sends: the trace lists
  those that were started.
\<close>

section \<open>State\<close>

record stateModuleRef =
  mf_SourceID :: string
  mf_StateKey :: string
  mf_ModuleSource :: string
  mf_ModuleVersion :: "string option"
  mf_RegistryHost :: string

datatype driftEvent =
    RunFailed string string string
  | DriftDetected string string
  | DriftIngested string string string

record driftState =
  dx_Runs :: "driftRun list"
  dx_Records :: "driftRecordRow list"
  dx_Refs :: "stateModuleRef list"
  dx_Sources :: "sourceRow list"
  dx_Events :: "driftEvent list"

record driftEnv =
  ev_run :: "runStmt \<Rightarrow> bool"
  ev_record :: "recordStmt \<Rightarrow> bool"
  ev_sourceFails :: bool
  ev_refsFail :: bool
  ev_now :: int
  ev_newID :: string
  ev_notifier :: bool
  ev_floatText :: "f64 \<Rightarrow> string"
  ev_canonicalHost :: "string \<Rightarrow> string"
  ev_enc :: "summaryEntry list \<Rightarrow> string"

datatype driftReply =
    Recorded
  | InvalidToken
  | AlreadyProcessed
  | ServerError
  | BadRequest
  | NotFound
  | Conflict
  | Unprocessable
  | Unverified
  | Clean bool
  | Replay driftRecordRow
  | RecordReply driftRecordRow

section \<open>Sources and module references in scope\<close>

definition getSourceInScope :: "scope \<Rightarrow> string \<Rightarrow> sourceRow list \<Rightarrow> sourceRow option" where
  "getSourceInScope sc i =
     readInScope None (List.find (\<lambda>s. so_ID s = i)) (\<lambda>ids. List.find (\<lambda>s. so_ID s = i \<and> anyOrg ids (so_Org s))) sc"

datatype sourceErr = SourceLoadFailed | NotOwnedHere

definition sourceFor :: "bool \<Rightarrow> sourceRow list \<Rightarrow> string \<Rightarrow> dispatchAuthority \<Rightarrow> sourceErr + sourceRow option" where
  "sourceFor fails srcs i auth =
     (if i = [] then Inr None
      else if fails then Inl SourceLoadFailed
      else (case getSourceInScope (da_scope auth) i srcs of None \<Rightarrow> Inl NotOwnedHere | Some s \<Rightarrow> Inr (Some s)))"

text \<open>\<open>ReplaceForState\<close> is one transaction: it succeeds as a whole or leaves the rows.\<close>

definition replaceForState :: "bool \<Rightarrow> string \<Rightarrow> string \<Rightarrow> stateModuleRef list \<Rightarrow> stateModuleRef list \<Rightarrow> bool \<times> stateModuleRef list" where
  "replaceForState fails src key refs t =
     (if fails then (False, t)
      else (True, filter (\<lambda>r. \<not> (mf_SourceID r = src \<and> mf_StateKey r = key)) t @ refs))"

definition replaceForStateInScope ::
    "bool \<Rightarrow> sourceRow list \<Rightarrow> string \<Rightarrow> string \<Rightarrow> stateModuleRef list \<Rightarrow> scope \<Rightarrow> stateModuleRef list \<Rightarrow> bool \<times> stateModuleRef list" where
  "replaceForStateInScope fails srcs src key refs =
     writeInScope False (replaceForState fails src key refs)
       (\<lambda>ids t. if \<exists>s \<in> set srcs. so_ID s = src \<and> anyOrg ids (so_Org s) then replaceForState fails src key refs t else (False, t))"

definition moduleRow :: "string \<Rightarrow> string \<Rightarrow> moduleRef \<Rightarrow> stateModuleRef" where
  "moduleRow src key m = \<lparr>mf_SourceID = src, mf_StateKey = key, mf_ModuleSource = mr_ModuleSource m,
     mf_ModuleVersion = mr_ModuleVersion m, mf_RegistryHost = mr_RegistryHost m\<rparr>"

definition captureModuleRefs ::
    "driftEnv \<Rightarrow> string \<Rightarrow> string \<Rightarrow> plan option \<Rightarrow> rawdoc \<Rightarrow> scope \<Rightarrow> driftState \<Rightarrow> driftState" where
  "captureModuleRefs env src key pl locks sc st =
     st\<lparr>dx_Refs := snd (replaceForStateInScope (ev_refsFail env) (dx_Sources st) src key
          (map (moduleRow src key) (moduleRefs (ev_canonicalHost env) pl (parseModuleLocks (ev_canonicalHost env) locks))) sc (dx_Refs st))\<rparr>"

section \<open>The callback of a run\<close>

text \<open>A sum of Go ints.\<close>

definition intSum :: "int list \<Rightarrow> int" where
  "intSum xs = sint (sum_list (map int64_of xs))"

definition hasDriftFinding :: "bool \<Rightarrow> infraDrift \<Rightarrow> bool" where
  "hasDriftFinding drifted i = (drifted \<or> 0 < intSum [if_Added i, if_Changed i, if_Destroyed i])"

definition recordDriftOutcome :: "driftEnv \<Rightarrow> driftRun \<Rightarrow> runOutcome \<Rightarrow> dispatchAuthority \<Rightarrow> driftState \<Rightarrow> driftState" where
  "recordDriftOutcome env run o' auth st =
     (case dn_SourceID run of
        None \<Rightarrow> st
      | Some src \<Rightarrow>
          if ro_Status o' \<noteq> ''completed'' \<or> dn_StateKey run = [] then st
          else if hasDriftFinding (ro_Drifted o') (ro_Infra o') then
            st\<lparr>dx_Records := snd (upsertDetectionInScope (ev_record env) (ev_now env) (ev_newID env) (dx_Sources st)
                 \<lparr>de_SourceID = src, de_StateKey = dn_StateKey run, de_PipelineConnectionID = dn_PipelineConnectionID run,
                  de_RunID = Some (dn_ID run), de_Origin = ''run'', de_Added = ro_Added o', de_Changed = ro_Changed o',
                  de_Destroyed = ro_Destroyed o', de_Summary = ro_Summary o', de_ExternalRef = None,
                  de_Marks = ro_Marks o', de_Infra = ro_Infra o'\<rparr> (da_scope auth) (dx_Records st))\<rparr>
          else if cm_Unparseable (ro_Marks o') then st
          else st\<lparr>dx_Records := snd (resolveCleanInScope (ev_record env) (ev_now env) src (dn_StateKey run)
                 (da_scope auth) (dx_Records st))\<rparr>)"

definition notifyDriftResult :: "driftEnv \<Rightarrow> string \<Rightarrow> string \<Rightarrow> runOutcome \<Rightarrow> driftState \<Rightarrow> driftState" where
  "notifyDriftResult env org runID o' st =
     (if \<not> ev_notifier env then st
      else if ro_Status o' = ''failed'' then st\<lparr>dx_Events := dx_Events st @ [RunFailed org runID (ro_Detail o')]\<rparr>
      else if ro_Drifted o' then st\<lparr>dx_Events := dx_Events st @ [DriftDetected org runID]\<rparr>
      else st)"

record driftRunResultPayload =
  pa_Token :: string
  pa_Status :: string
  pa_Added :: int
  pa_Changed :: int
  pa_Destroyed :: int
  pa_Drifted :: "bool option"
  pa_Detail :: string
  pa_Summary :: string
  pa_Plan :: "json option"
  pa_ModuleLocks :: rawdoc
  pa_Marks :: completeness
  pa_Infra :: infraDrift

definition outcomeOf :: "driftRunResultPayload \<Rightarrow> runOutcome" where
  "outcomeOf body =
     \<lparr>ro_Status = (if pa_Status body = [] then ''completed'' else pa_Status body),
      ro_Added = pa_Added body, ro_Changed = pa_Changed body, ro_Destroyed = pa_Destroyed body,
      ro_Drifted = (case pa_Drifted body of None \<Rightarrow> 0 < intSum [pa_Added body, pa_Changed body, pa_Destroyed body] | Some b \<Rightarrow> b),
      ro_Summary = pa_Summary body, ro_Detail = pa_Detail body, ro_Marks = pa_Marks body, ro_Infra = pa_Infra body\<rparr>"

text \<open>After the result is stored: the finding and the module references, where the run's source is one
  of the run's own organization, then the notification.\<close>

definition settleRun ::
    "driftEnv \<Rightarrow> driftRun \<Rightarrow> driftRunResultPayload \<Rightarrow> dispatchAuthority \<Rightarrow> driftState \<Rightarrow> driftReply \<times> driftState" where
  "settleRun env run body auth st =
     (let o' = outcomeOf body
      in (case sourceFor (ev_sourceFails env) (dx_Sources st) (orgText (dn_SourceID run)) auth of
            Inl SourceLoadFailed \<Rightarrow> (ServerError, st)
          | res \<Rightarrow>
              (let st1 = (case res of
                            Inr (Some src) \<Rightarrow>
                              (let st0 = recordDriftOutcome env run o' auth st
                               in (case pa_Plan body of
                                     None \<Rightarrow> st0
                                   | Some j \<Rightarrow>
                                       (case decodePlan j of
                                          None \<Rightarrow> st0
                                        | Some pl \<Rightarrow> captureModuleRefs env (so_ID src) (dn_StateKey run) (Some pl) (pa_ModuleLocks body)
                                                      (da_scope auth) st0)))
                          | _ \<Rightarrow> st)
               in (Recorded, notifyDriftResult env (orgText (dn_Org run)) (dn_ID run) o' st1))))"

text \<open>\<open>RunResults\<close> in the two parts another request may come between: reading the run and checking the
  credential, then taking the token and recording the result on the row as it was read.\<close>

definition authenticateRun :: "driftEnv \<Rightarrow> string \<Rightarrow> string \<Rightarrow> string \<Rightarrow> driftRun list \<Rightarrow> driftReply + driftRun \<times> dispatchAuthority" where
  "authenticateRun env runID header token t =
     (if ev_run env StmtGetRun then Inl ServerError
      else (case getRun runID t of
              None \<Rightarrow> Inl InvalidToken
            | Some run \<Rightarrow>
                (case authenticateCallback ''drift_runs'' (dn_ID run) (orgText (dn_Org run)) (dn_CallbackToken run)
                        (callbackTokenFrom header token) of
                   None \<Rightarrow> Inl InvalidToken
                 | Some auth \<Rightarrow> Inr (run, auth))))"

definition commitRun ::
    "driftEnv \<Rightarrow> driftRun \<Rightarrow> dispatchAuthority \<Rightarrow> driftRunResultPayload \<Rightarrow> driftState \<Rightarrow> driftReply \<times> driftState" where
  "commitRun env run auth body st =
     (case consumeCallbackToken (ev_run env) (dn_ID run) (dn_CallbackToken run) (dx_Runs st) of
        (None, _) \<Rightarrow> (ServerError, st)
      | (Some False, _) \<Rightarrow> (AlreadyProcessed, st)
      | (Some True, t1) \<Rightarrow>
          (case updateResultInScope (ev_run env) (ev_now env) (dn_ID run) (outcomeOf body) (da_scope auth) t1 of
             (Some _, t2) \<Rightarrow> (ServerError, st\<lparr>dx_Runs := t2\<rparr>)
           | (None, t2) \<Rightarrow> settleRun env run body auth (st\<lparr>dx_Runs := t2\<rparr>)))"

definition runResults ::
    "driftEnv \<Rightarrow> string \<Rightarrow> string \<Rightarrow> driftRunResultPayload \<Rightarrow> driftState \<Rightarrow> driftReply \<times> driftState" where
  "runResults env runID header body st =
     (case authenticateRun env runID header (pa_Token body) (dx_Runs st) of
        Inl r \<Rightarrow> (r, st)
      | Inr (run, auth) \<Rightarrow> commitRun env run auth body st)"

section \<open>Pushed results\<close>

text \<open>The body of an ingest: None where the body is too large or no JSON object of the right types.\<close>

record driftIngestPayload =
  ip_SourceID :: string
  ip_StateKey :: string
  ip_ExternalRef :: string
  ip_Plan :: "json option"
  ip_Added :: int
  ip_Changed :: int
  ip_Destroyed :: int
  ip_Drifted :: "bool option"
  ip_Summary :: string
  ip_ModuleLocks :: rawdoc
  ip_Marks :: completeness
  ip_Infra :: infraDrift

definition completenessFromResult :: "result \<Rightarrow> completeness" where
  "completenessFromResult r =
     \<lparr>cm_Truncated = planTruncated r, cm_OmittedEntries = int (rs_OmittedEntries r), cm_OmittedAttrs = int (rs_OmittedAttrs r),
      cm_Unparseable = rs_Unparseable r, cm_Unmasked = rs_Unmasked r\<rparr>"

definition explicitInfra :: "infraDrift \<Rightarrow> bool" where
  "explicitInfra i = (if_Added i \<noteq> 0 \<or> if_Changed i \<noteq> 0 \<or> if_Destroyed i \<noteq> 0 \<or> if_Summary i \<noteq> [])"

text \<open>The reading of an ingest: counts, verdict, marks and infra drift, the plan where one was sent;
  None for a plan that is no plan. \<open>"[]"\<close> is a clean summary.\<close>

definition readIngest :: "driftEnv \<Rightarrow> driftIngestPayload \<Rightarrow> (runOutcome \<times> plan option) option" where
  "readIngest env req =
     (let base = \<lparr>ro_Status = ''completed'', ro_Added = ip_Added req, ro_Changed = ip_Changed req, ro_Destroyed = ip_Destroyed req,
                  ro_Drifted = (0 < intSum [ip_Added req, ip_Changed req, ip_Destroyed req] \<or> 2 < length (ip_Summary req)),
                  ro_Summary = ip_Summary req, ro_Detail = [], ro_Marks = ip_Marks req, ro_Infra = ip_Infra req\<rparr>;
          override = (\<lambda>o'. case ip_Drifted req of None \<Rightarrow> o' | Some b \<Rightarrow> o'\<lparr>ro_Drifted := b\<rparr>)
      in (case ip_Plan req of
            None \<Rightarrow> Some (override base, None)
          | Some j \<Rightarrow>
              (case decodePlan j of
                 None \<Rightarrow> None
               | Some pl \<Rightarrow>
                   (let res = summarize (ev_floatText env) (Some pl)
                    in if rs_Unparseable res then None
                       else Some (override (base\<lparr>ro_Added := int (rs_Added res), ro_Changed := int (rs_Changed res),
                                ro_Destroyed := int (rs_Destroyed res), ro_Summary := ev_enc env (rs_Summary res),
                                ro_Drifted := planDrifted res, ro_Marks := completenessFromResult res,
                                ro_Infra := (if explicitInfra (ip_Infra req) then ip_Infra req
                                             else \<lparr>if_Added = int (rs_DriftAdded res), if_Changed = int (rs_DriftChanged res),
                                                   if_Destroyed = int (rs_DriftDestroyed res),
                                                   if_Summary = ev_enc env (rs_DriftSummary res)\<rparr>)\<rparr>), Some pl)))))"

definition storeIngest ::
    "driftEnv \<Rightarrow> driftIngestPayload \<Rightarrow> sourceRow \<Rightarrow> runOutcome \<Rightarrow> scope \<Rightarrow> driftState \<Rightarrow> driftReply \<times> driftState" where
  "storeIngest env req src o' sc st =
     (if \<not> hasDriftFinding (ro_Drifted o') (ro_Infra o') then
        (if cm_Unparseable (ro_Marks o') then (Unverified, st)
         else (case resolveCleanInScope (ev_record env) (ev_now env) (ip_SourceID req) (ip_StateKey req) sc (dx_Records st) of
                 (Inl _, t) \<Rightarrow> (ServerError, st\<lparr>dx_Records := t\<rparr>)
               | (Inr b, t) \<Rightarrow> (Clean b, st\<lparr>dx_Records := t\<rparr>)))
      else
        (case upsertDetectionInScope (ev_record env) (ev_now env) (ev_newID env) (dx_Sources st)
                \<lparr>de_SourceID = ip_SourceID req, de_StateKey = ip_StateKey req, de_PipelineConnectionID = None, de_RunID = None,
                 de_Origin = ''ingest'', de_Added = ro_Added o', de_Changed = ro_Changed o', de_Destroyed = ro_Destroyed o',
                 de_Summary = ro_Summary o', de_ExternalRef = (if ip_ExternalRef req = [] then None else Some (ip_ExternalRef req)),
                 de_Marks = ro_Marks o', de_Infra = ro_Infra o'\<rparr> sc (dx_Records st) of
           (Inl _, t) \<Rightarrow> (ServerError, st\<lparr>dx_Records := t\<rparr>)
         | (Inr r, t) \<Rightarrow>
             (RecordReply r,
              st\<lparr>dx_Records := t,
                 dx_Events := (if ev_notifier env then dx_Events st @ [DriftIngested (orgText (so_Org src)) (so_Name src) (ip_StateKey req)]
                               else dx_Events st)\<rparr>)))"

definition ingestDrift :: "driftEnv \<Rightarrow> driftIngestPayload option \<Rightarrow> scope \<Rightarrow> driftState \<Rightarrow> driftReply \<times> driftState" where
  "ingestDrift env body sc st =
     (case body of
        None \<Rightarrow> (BadRequest, st)
      | Some req \<Rightarrow>
          if ip_SourceID req = [] \<or> ip_StateKey req = [] then (BadRequest, st)
          else if ev_sourceFails env then (ServerError, st)
          else (case getSourceInScope sc (ip_SourceID req) (dx_Sources st) of
                  None \<Rightarrow> (NotFound, st)
                | Some src \<Rightarrow>
                    (case (if ip_ExternalRef req = [] \<or> ev_record env StmtGetByRef then None
                           else getByExternalRef (ip_SourceID req) (ip_ExternalRef req) (dx_Records st)) of
                       Some r \<Rightarrow> (Replay r, st)
                     | None \<Rightarrow>
                         (case readIngest env req of
                            None \<Rightarrow> (Unprocessable, st)
                          | Some (o', pl) \<Rightarrow>
                              storeIngest env req src o' sc
                                (if pl = None then st
                                 else captureModuleRefs env (ip_SourceID req) (ip_StateKey req) pl (ip_ModuleLocks req) sc st)))))"

section \<open>Acting on a finding\<close>

definition acknowledgeDriftRecord :: "driftEnv \<Rightarrow> string \<Rightarrow> string \<Rightarrow> string \<Rightarrow> scope \<Rightarrow> driftState \<Rightarrow> driftReply \<times> driftState" where
  "acknowledgeDriftRecord env i actor msg sc st =
     (if 1000 < length msg then (BadRequest, st)
      else (case acknowledgeInScope (ev_record env) (ev_now env) i actor msg sc (dx_Records st) of
              (Inl NotInScope, _) \<Rightarrow> (NotFound, st)
            | (Inl _, _) \<Rightarrow> (ServerError, st)
            | (Inr (Some r), t) \<Rightarrow> (RecordReply r, st\<lparr>dx_Records := t\<rparr>)
            | (Inr None, t) \<Rightarrow>
                (if \<not> ev_record env StmtGetRecord \<and> getRecordInScope i sc t \<noteq> None then Conflict else NotFound, st\<lparr>dx_Records := t\<rparr>)))"

definition resolveDriftRecord :: "driftEnv \<Rightarrow> string \<Rightarrow> scope \<Rightarrow> driftState \<Rightarrow> driftReply \<times> driftState" where
  "resolveDriftRecord env i sc st =
     (case resolveInScope (ev_record env) (ev_now env) i sc (dx_Records st) of
        (Inl NotInScope, _) \<Rightarrow> (NotFound, st)
      | (Inl _, _) \<Rightarrow> (ServerError, st)
      | (Inr (Some r), t) \<Rightarrow> (RecordReply r, st\<lparr>dx_Records := t\<rparr>)
      | (Inr None, t) \<Rightarrow>
          (if \<not> ev_record env StmtGetRecord \<and> getRecordInScope i sc t \<noteq> None then Conflict else NotFound, st\<lparr>dx_Records := t\<rparr>))"

definition getDriftRecord :: "driftEnv \<Rightarrow> string \<Rightarrow> scope \<Rightarrow> driftState \<Rightarrow> driftReply" where
  "getDriftRecord env i sc st =
     (if ev_record env StmtGetRecord then ServerError
      else (case getRecordInScope i sc (dx_Records st) of None \<Rightarrow> NotFound | Some r \<Rightarrow> RecordReply r))"

text \<open>\<open>ListDriftRecords\<close>: a status that is none is refused, a page or date that cannot be read is the
  default. \<open>statuses\<close> are the trimmed parts of the query.\<close>

definition listDriftRecords ::
    "string list \<Rightarrow> string \<Rightarrow> string \<Rightarrow> int option \<Rightarrow> int option \<Rightarrow> int option \<Rightarrow> int option \<Rightarrow> scope \<Rightarrow> driftState \<Rightarrow>
     (driftRecordRow list \<times> (string \<times> nat) list \<times> nat) option" where
  "listDriftRecords statuses src severity perPageQ pageQ startQ endQ sc st =
     (if \<exists>x \<in> set statuses. x \<notin> {''open'', ''acknowledged'', ''resolved''} then None
      else (let perPage = (case perPageQ of Some v \<Rightarrow> if 0 < v \<and> v \<le> 500 then v else 100 | None \<Rightarrow> 100);
                page = (case pageQ of Some v \<Rightarrow> if 0 < v then v else 1 | None \<Rightarrow> 1);
                f = \<lparr>rf_Statuses = statuses, rf_SourceID = src, rf_Severity = severity, rf_Start = startQ, rf_End = endQ\<rparr>
            in Some (listRecordsInScope f perPage ((page - 1) * perPage) sc (dx_Records st),
                     countsByStatusInScope sc (dx_Records st), countRecordsInScope f sc (dx_Records st))))"

end
