(* ===== verification/DriftSystem.thy ===== *)
theory DriftSystem
  imports DriftCallback
begin

text \<open>
  What holds of the drift plane as a whole: what a callback may change and for whom, that a run ends
  once however callbacks and the reconciler interleave, what happens to a run whose result cannot be
  stored, and what a repeated push does.
\<close>

section \<open>What a callback may change\<close>

lemma dec_resolved:
  assumes "resolveCleanInScope flt now src key sc t = (res, t')" "r \<in> set t" "live r" "\<forall>r' \<in> set t'. re_ID r' = re_ID r \<longrightarrow> \<not> live r'"
  shows "re_SourceID r = Some src \<and> re_StateKey r = key \<and> reaches sc (re_Org r)"
proof -
  have upd: ?thesis if "snd (updateWhere (\<lambda>r. liveFor src key r \<and> p r) (resolveRow now) t) = t'" "p r \<Longrightarrow> reaches sc (re_Org r)" for p
  proof -
    have "liveFor src key r \<and> p r"
    proof (rule ccontr)
      assume no: "\<not> (liveFor src key r \<and> p r)"
      from assms(2) have "(if liveFor src key r \<and> p r then resolveRow now r else r) \<in> set t'"
        unfolding that(1)[symmetric] updateWhere_def snd_conv set_map by (rule imageI)
      with no have "r \<in> set t'" by (simp only: if_False)
      with assms(3,4) show False by blast
    qed
    with that(2) show ?thesis by (simp add: liveFor_def)
  qed
  have w: "snd (resolveCleanWhere flt now src key p t) \<in> {t, snd (updateWhere (\<lambda>r. liveFor src key r \<and> p r) (resolveRow now) t)}" for p
    by (simp add: resolveCleanWhere_def case_prod_beta)
  have same: ?thesis if "t' = t" using that assms(2-4) by blast
  have t': "t' = snd (resolveCleanInScope flt now src key sc t)" using assms(1) by simp
  consider "scopeEmpty sc" | "\<not> scopeEmpty sc" "sc_PlatformAdmin sc" | "\<not> scopeEmpty sc" "\<not> sc_PlatformAdmin sc" by blast
  then show ?thesis
  proof cases
    case 1
    with t' same show ?thesis by (simp add: resolveCleanInScope_def writeInScope_def Let_def)
  next
    case 2
    then have "t' = snd (resolveCleanWhere flt now src key (\<lambda>_. True) t)"
      unfolding t' by (simp add: resolveCleanInScope_def resolveClean_def writeInScope_def Let_def)
    with w[of "\<lambda>_. True"] same upd[of "\<lambda>_. True"] 2(2) show ?thesis by fastforce
  next
    case 3
    then have "t' = snd (resolveCleanWhere flt now src key (\<lambda>r. anyOrg (sc_OrgIDs sc) (re_Org r)) t)"
      unfolding t' by (simp add: resolveCleanInScope_def writeInScope_def Let_def)
    with w[of "\<lambda>r. anyOrg (sc_OrgIDs sc) (re_Org r)"] same upd[of "\<lambda>r. anyOrg (sc_OrgIDs sc) (re_Org r)"] 3(2)
    show ?thesis by fastforce
  qed
qed

lemma upsert_keeps_live:
  assumes "upsertDetectionWhere flt now newID srcs d orgs t = (res, t')" "r \<in> set t" "live r"
  shows "\<exists>r' \<in> set t'. re_ID r' = re_ID r \<and> live r'"
  using assms(1)
proof (cases rule: upsert_cases)
  case (merged s r0)
  let ?g = "\<lambda>x. if re_ID x = re_ID r0 then mergeDetection d now x else x"
  have "?g r \<in> set t'" unfolding merged(5) set_map using assms(2) by (rule imageI)
  moreover have "re_ID (?g r) = re_ID r" "live (?g r)" using assms(3) by simp_all
  ultimately show ?thesis by blast
qed (use assms(2,3) in auto)

lemma upsertInScope_keeps_live:
  assumes "upsertDetectionInScope flt now newID srcs d sc t = (res, t')" "r \<in> set t" "live r"
  shows "\<exists>r' \<in> set t'. re_ID r' = re_ID r \<and> live r'"
  using assms(1) unfolding upsertDetectionInScope_def upsertDetection_def writeInScope_def Let_def
  using assms(2,3) by (auto split: if_splits dest: upsert_keeps_live[OF _ assms(2,3)])

lemma side_effects_keep_records [simp]:
  "dx_Records (captureModuleRefs env src key pl locks sc st) = dx_Records st"
  "dx_Records (notifyDriftResult env org i o' st) = dx_Records st"
  by (simp_all add: captureModuleRefs_def notifyDriftResult_def)

lemma settleRun_cases:
  assumes "settleRun env run body auth st = (reply, st')"
  obtains (failed) "st' = st" "reply = ServerError"
  | (foreign) "st' = notifyDriftResult env (orgText (dn_Org run)) (dn_ID run) (outcomeOf body) st" "reply = Recorded"
  | (owned) src st1 where "sourceFor (ev_sourceFails env) (dx_Sources st) (orgText (dn_SourceID run)) auth = Inr (Some src)"
      "st' = notifyDriftResult env (orgText (dn_Org run)) (dn_ID run) (outcomeOf body) st1" "reply = Recorded"
      "st1 = recordDriftOutcome env run (outcomeOf body) auth st
        \<or> (\<exists>pl. st1 = captureModuleRefs env (so_ID src) (dn_StateKey run) (Some pl) (pa_ModuleLocks body) (da_scope auth)
                   (recordDriftOutcome env run (outcomeOf body) auth st))"
proof (cases "sourceFor (ev_sourceFails env) (dx_Sources st) (orgText (dn_SourceID run)) auth")
  case (Inl e)
  with assms failed foreign show ?thesis by (cases e) (auto simp: settleRun_def Let_def)
next
  case (Inr found)
  show ?thesis
  proof (cases found)
    case None
    with Inr assms foreign show ?thesis by (auto simp: settleRun_def Let_def)
  next
    case (Some src)
    let ?st0 = "recordDriftOutcome env run (outcomeOf body) auth st"
    have "\<exists>st1. st' = notifyDriftResult env (orgText (dn_Org run)) (dn_ID run) (outcomeOf body) st1 \<and> reply = Recorded
      \<and> (st1 = ?st0 \<or> (\<exists>pl. st1 = captureModuleRefs env (so_ID src) (dn_StateKey run) (Some pl) (pa_ModuleLocks body) (da_scope auth) ?st0))"
      using assms Inr Some by (auto simp: settleRun_def Let_def split: option.splits)
    with Inr Some owned show ?thesis by blast
  qed
qed

lemma settleRun_records:
  assumes "settleRun env run body auth st = (reply, st')"
  shows "dx_Records st' = dx_Records st
    \<or> dx_Records st' = dx_Records (recordDriftOutcome env run (outcomeOf body) auth st) \<and> reply = Recorded"
  using assms by (cases rule: settleRun_cases) auto

lemma commitRun_cases:
  assumes "commitRun env run auth body st = (reply, st')"
  obtains (refused) "st' = st" "reply \<in> {ServerError, AlreadyProcessed}"
  | (lost) t1 e t2 where "consumeCallbackToken (ev_run env) (dn_ID run) (dn_CallbackToken run) (dx_Runs st) = (Some True, t1)"
      "updateResultInScope (ev_run env) (ev_now env) (dn_ID run) (outcomeOf body) (da_scope auth) t1 = (Some e, t2)"
      "st' = st\<lparr>dx_Runs := t2\<rparr>" "reply = ServerError"
  | (settled) t1 t2 where "consumeCallbackToken (ev_run env) (dn_ID run) (dn_CallbackToken run) (dx_Runs st) = (Some True, t1)"
      "updateResultInScope (ev_run env) (ev_now env) (dn_ID run) (outcomeOf body) (da_scope auth) t1 = (None, t2)"
      "settleRun env run body auth (st\<lparr>dx_Runs := t2\<rparr>) = (reply, st')"
proof -
  obtain b t1 where c: "consumeCallbackToken (ev_run env) (dn_ID run) (dn_CallbackToken run) (dx_Runs st) = (b, t1)" by fastforce
  obtain e t2 where u: "updateResultInScope (ev_run env) (ev_now env) (dn_ID run) (outcomeOf body) (da_scope auth) t1 = (e, t2)" by fastforce
  consider "b = None" | "b = Some False" | "b = Some True" "e = None" | x where "b = Some True" "e = Some x"
    by (cases b; cases e) auto
  then show ?thesis
  proof cases
    case 3
    with assms c u settled show ?thesis by (simp add: commitRun_def)
  next
    case 4
    with assms c u lost show ?thesis by (simp add: commitRun_def)
  qed (use assms c refused in \<open>simp_all add: commitRun_def\<close>)
qed

lemma authenticateRun_Inr:
  assumes "authenticateRun env i header token t = Inr (run, auth)"
  shows "getRun i t = Some run" "reaches (da_scope auth) o' = (o' = Some (trimSpace (orgText (dn_Org run))))"
    "da_organizationID auth = trimSpace (orgText (dn_Org run))" "dn_CallbackToken run \<noteq> []"
    "callbackTokenFrom header token = dn_CallbackToken run" "trimSpace (orgText (dn_Org run)) \<noteq> []"
proof -
  from assms obtain r where r: "getRun i t = Some r" by (auto simp: authenticateRun_def split: if_splits option.splits)
  with assms have a: "r = run" "authenticateCallback ''drift_runs'' (dn_ID run) (orgText (dn_Org run)) (dn_CallbackToken run)
      (callbackTokenFrom header token) = Some auth"
    by (auto simp: authenticateRun_def split: if_splits option.splits)
  from r a(1) show "getRun i t = Some run" by simp
  from authenticateCallback_reaches[OF a(2)] show "reaches (da_scope auth) o' = (o' = Some (trimSpace (orgText (dn_Org run))))"
    "da_organizationID auth = trimSpace (orgText (dn_Org run))" "dn_CallbackToken run \<noteq> []"
    "callbackTokenFrom header token = dn_CallbackToken run" "trimSpace (orgText (dn_Org run)) \<noteq> []" by simp_all
qed

lemma runResults_cases:
  assumes "runResults env i header body st = (reply, st')"
  obtains (rejected) "st' = st" "reply \<in> {ServerError, InvalidToken}"
  | (authentic) run auth where "authenticateRun env i header (pa_Token body) (dx_Runs st) = Inr (run, auth)"
      "commitRun env run auth body st = (reply, st')"
proof (cases "authenticateRun env i header (pa_Token body) (dx_Runs st)")
  case (Inl r)
  then have "r \<in> {ServerError, InvalidToken}" by (auto simp: authenticateRun_def split: if_splits option.splits)
  with Inl assms rejected show ?thesis by (simp add: runResults_def)
next
  case (Inr p)
  with assms authentic show ?thesis by (cases p) (simp add: runResults_def)
qed

text \<open>C16: Only a clean verdict closes a finding. When a live finding is no longer live after a callback,
  the callback was recorded for a completed run of that finding's source and state, in the
  finding's organization, whose result has no drift of either kind and whose plan was not
  unparseable; a failed or unverified run leaves every finding live.\<close>

theorem only_clean_verdict_resolves:
  assumes "runResults env i header body st = (reply, st')" "r \<in> set (dx_Records st)" "live r"
    and "\<forall>r' \<in> set (dx_Records st'). re_ID r' = re_ID r \<longrightarrow> \<not> live r'"
  shows "\<exists>run. getRun i (dx_Runs st) = Some run \<and> reply = Recorded
    \<and> re_SourceID r = dn_SourceID run \<and> re_StateKey r = dn_StateKey run \<and> re_Org r = Some (trimSpace (orgText (dn_Org run)))
    \<and> ro_Status (outcomeOf body) = ''completed'' \<and> \<not> hasDriftFinding (ro_Drifted (outcomeOf body)) (pa_Infra body)
    \<and> \<not> cm_Unparseable (pa_Marks body)"
proof -
  have changed: "dx_Records st' \<noteq> dx_Records st" using assms(2-4) by metis
  from assms(1) show ?thesis
  proof (cases rule: runResults_cases)
    case rejected
    with changed show ?thesis by simp
  next
    case (authentic run auth)
    from authentic(2) show ?thesis
    proof (cases rule: commitRun_cases)
      case (settled t1 t2)
      let ?st = "st\<lparr>dx_Runs := t2\<rparr>" and ?o = "outcomeOf body"
      have rec: "dx_Records st' = dx_Records (recordDriftOutcome env run ?o auth ?st)" "reply = Recorded"
        using settleRun_records[OF settled(3)] changed by simp_all
      have run: "ro_Status ?o = ''completed''" "dn_SourceID run \<noteq> None"
        using changed rec(1) by (auto simp: recordDriftOutcome_def split: option.splits if_splits)
      obtain src where src: "dn_SourceID run = Some src" using run(2) by auto
      have nofind: "\<not> hasDriftFinding (ro_Drifted ?o) (ro_Infra ?o)"
      proof
        assume "hasDriftFinding (ro_Drifted ?o) (ro_Infra ?o)"
        with rec(1) src run(1) changed obtain d where
          "dx_Records st' = snd (upsertDetectionInScope (ev_record env) (ev_now env) (ev_newID env) (dx_Sources st) d (da_scope auth) (dx_Records st))"
          by (auto simp: recordDriftOutcome_def split: if_splits)
        then show False
          using upsertInScope_keeps_live[OF _ assms(2,3), of "ev_record env" "ev_now env" "ev_newID env" "dx_Sources st" d "da_scope auth"]
            assms(4) by (metis prod.collapse)
      qed
      have marks: "\<not> cm_Unparseable (ro_Marks ?o)"
        using changed rec(1) src nofind by (auto simp: recordDriftOutcome_def split: if_splits)
      have "dx_Records st' = snd (resolveCleanInScope (ev_record env) (ev_now env) src (dn_StateKey run) (da_scope auth) (dx_Records st))"
        using changed rec(1) src nofind marks by (auto simp: recordDriftOutcome_def split: if_splits)
      then obtain res where "resolveCleanInScope (ev_record env) (ev_now env) src (dn_StateKey run) (da_scope auth) (dx_Records st) = (res, dx_Records st')"
        by (metis prod.collapse)
      from dec_resolved[OF this assms(2-4)] authenticateRun_Inr(1,2)[OF authentic(1)] src rec(2) run(1) nofind marks
      show ?thesis by (simp add: outcomeOf_def)
    qed (use changed in simp_all)
  qed
qed

section \<open>A callback keeps to its organization\<close>

definition refOwned :: "sourceRow list \<Rightarrow> scope \<Rightarrow> stateModuleRef \<Rightarrow> bool" where
  "refOwned srcs sc m = (\<exists>s \<in> set srcs. so_ID s = mf_SourceID m \<and> reaches sc (so_Org s))"

lemma refs_isolated:
  assumes "\<exists>s \<in> set srcs. so_ID s = src \<and> reaches sc (so_Org s)" "\<forall>m \<in> set refs. mf_SourceID m = src"
  shows "filter (\<lambda>m. \<not> refOwned srcs sc m) (snd (replaceForStateInScope fails srcs src key refs sc t)) = filter (\<lambda>m. \<not> refOwned srcs sc m) t"
proof -
  have own: "refOwned srcs sc m" if "mf_SourceID m = src" for m using assms(1) that by (simp add: refOwned_def)
  have new: "filter (\<lambda>m. \<not> refOwned srcs sc m) refs = []" using assms(2) own by (simp add: filter_empty_conv)
  have old: "filter (\<lambda>m. \<not> refOwned srcs sc m) (filter (\<lambda>r. \<not> (mf_SourceID r = src \<and> mf_StateKey r = key)) t)
      = filter (\<lambda>m. \<not> refOwned srcs sc m) t"
    unfolding filter_filter by (rule filter_cong[OF refl]) (use own in blast)
  have "filter (\<lambda>m. \<not> refOwned srcs sc m) (snd (replaceForState fails src key refs t)) = filter (\<lambda>m. \<not> refOwned srcs sc m) t"
    using old new by (simp add: replaceForState_def)
  then show ?thesis by (simp add: replaceForStateInScope_def writeInScope_def Let_def)
qed

interpretation getSource: scoped_reader so_Org None "List.find (\<lambda>s. so_ID s = i)"
    "\<lambda>ids. List.find (\<lambda>s. so_ID s = i \<and> anyOrg ids (so_Org s))" for i
  by unfold_locales (simp_all add: find_filter conj_commute)

lemma sourceFor_owned:
  assumes "sourceFor fails srcs i auth = Inr (Some src)"
  shows "so_ID src = i" "src \<in> set srcs" "reaches (da_scope auth) (so_Org src)"
proof -
  from assms have g: "getSourceInScope (da_scope auth) i srcs = Some src"
    by (auto simp: sourceFor_def split: if_splits option.splits)
  then have "List.find (\<lambda>s. so_ID s = i) (filter (\<lambda>s. reaches (da_scope auth) (so_Org s)) srcs) = Some src"
    unfolding getSourceInScope_def by (simp only: getSource.reads_reached)
  from find_SomeD[OF this] show "so_ID src = i" "src \<in> set srcs" "reaches (da_scope auth) (so_Org src)" by simp_all
qed

text \<open>What a scope does not reach is the same before and after.\<close>

definition othersKept :: "scope \<Rightarrow> driftState \<Rightarrow> driftState \<Rightarrow> bool" where
  "othersKept sc st st' =
     (filter (\<lambda>r. \<not> reaches sc (dn_Org r)) (dx_Runs st') = filter (\<lambda>r. \<not> reaches sc (dn_Org r)) (dx_Runs st)
      \<and> filter (\<lambda>r. \<not> reaches sc (re_Org r)) (dx_Records st') = filter (\<lambda>r. \<not> reaches sc (re_Org r)) (dx_Records st)
      \<and> filter (\<lambda>m. \<not> refOwned (dx_Sources st) sc m) (dx_Refs st') = filter (\<lambda>m. \<not> refOwned (dx_Sources st) sc m) (dx_Refs st)
      \<and> dx_Sources st' = dx_Sources st)"

lemma othersKept_refl [simp]: "othersKept sc st st"
  by (simp add: othersKept_def)

lemma othersKept_trans: "othersKept sc st st1 \<Longrightarrow> othersKept sc st1 st2 \<Longrightarrow> othersKept sc st st2"
  by (simp add: othersKept_def)

lemma recordDriftOutcome_kept:
  assumes "recordIDs (dx_Records st)" "ownersAgree (dx_Sources st) (dx_Records st)"
  shows "othersKept (da_scope auth) st (recordDriftOutcome env run o' auth st)"
  by (auto simp: recordDriftOutcome_def othersKept_def upsertInScope_isolated[OF assms] resolveCleanInScope_def
      resolveClean.writes_isolated split: option.splits)

lemma captureModuleRefs_kept:
  assumes "src \<in> set (dx_Sources st)" "reaches sc (so_Org src)"
  shows "othersKept sc st (captureModuleRefs env (so_ID src) key pl locks sc st)"
proof -
  have "\<exists>s \<in> set (dx_Sources st). so_ID s = so_ID src \<and> reaches sc (so_Org s)" using assms by blast
  from refs_isolated[OF this] show ?thesis by (simp add: othersKept_def captureModuleRefs_def moduleRow_def)
qed

lemma notifyDriftResult_kept: "othersKept sc st (notifyDriftResult env org i o' st)"
  by (simp add: othersKept_def notifyDriftResult_def)

lemma settleRun_kept:
  assumes "recordIDs (dx_Records st)" "ownersAgree (dx_Sources st) (dx_Records st)" "settleRun env run body auth st = (reply, st')"
  shows "othersKept (da_scope auth) st st'"
  using assms(3)
proof (cases rule: settleRun_cases)
  case (owned src st1)
  let ?st0 = "recordDriftOutcome env run (outcomeOf body) auth st"
  have k0: "othersKept (da_scope auth) st ?st0" by (rule recordDriftOutcome_kept[OF assms(1,2)])
  then have "dx_Sources ?st0 = dx_Sources st" by (simp add: othersKept_def)
  with sourceFor_owned[OF owned(1)]
  have "othersKept (da_scope auth) st
      (captureModuleRefs env (so_ID src) (dn_StateKey run) (Some pl) (pa_ModuleLocks body) (da_scope auth) ?st0)" for pl
    by (intro othersKept_trans[OF k0] captureModuleRefs_kept) simp_all
  with k0 owned(2,4) show ?thesis using othersKept_trans notifyDriftResult_kept by metis
qed (simp_all add: notifyDriftResult_kept)

lemma notifyDriftResult_sends:
  "\<exists>sent. dx_Events (notifyDriftResult env org i o' st) = dx_Events st @ sent
    \<and> set sent \<subseteq> {RunFailed org i (ro_Detail o'), DriftDetected org i}"
  by (simp add: notifyDriftResult_def)

lemma recording_sends_nothing [simp]:
  "dx_Events (recordDriftOutcome env run o' auth st) = dx_Events st"
  "dx_Events (captureModuleRefs env src key pl locks sc st) = dx_Events st"
  by (simp_all add: recordDriftOutcome_def captureModuleRefs_def split: option.splits)

lemma settleRun_events:
  assumes "settleRun env run body auth st = (reply, st')"
  shows "\<exists>sent. dx_Events st' = dx_Events st @ sent
    \<and> set sent \<subseteq> {RunFailed (orgText (dn_Org run)) (dn_ID run) (pa_Detail body), DriftDetected (orgText (dn_Org run)) (dn_ID run)}"
proof -
  let ?n = "notifyDriftResult env (orgText (dn_Org run)) (dn_ID run) (outcomeOf body)"
  from assms consider "st' = st" | st1 where "dx_Events st1 = dx_Events st" "st' = ?n st1"
    by (cases rule: settleRun_cases) (metis recording_sends_nothing)+
  then show ?thesis
  proof cases
    case 2
    have "ro_Detail (outcomeOf body) = pa_Detail body" by (simp add: outcomeOf_def)
    with 2 notifyDriftResult_sends[of env "orgText (dn_Org run)" "dn_ID run" "outcomeOf body" st1] show ?thesis by simp
  qed simp
qed

lemma consume_kept:
  assumes "consumeCallbackToken flt i token t = (b, t')" "distinct (map dn_ID t)" "getRun i t = Some run" "reaches sc (dn_Org run)"
  shows "filter (\<lambda>r. \<not> reaches sc (dn_Org r)) t' = filter (\<lambda>r. \<not> reaches sc (dn_Org r)) t"
proof -
  have only: "reaches sc (dn_Org r)" if "r \<in> set t" "dn_ID r = i" for r
  proof -
    from find_SomeD[OF assms(3)[unfolded getRun_def]] have "run \<in> set t" "dn_ID run = i" by simp_all
    with assms(2) that have "r = run" by (auto simp: distinct_map inj_on_def)
    with assms(4) show ?thesis by simp
  qed
  have upd: "filter (\<lambda>r. \<not> reaches sc (dn_Org r))
      (map (\<lambda>r. if dn_ID r = i \<and> dn_CallbackToken r = token then r\<lparr>dn_CallbackToken := []\<rparr> else r) t)
      = filter (\<lambda>r. \<not> reaches sc (dn_Org r)) t"
    by (rule filter_map_selected) (use only in fastforce)
  from assms(1) have "t' = t \<or> t' = snd (updateWhere (\<lambda>r. dn_ID r = i \<and> dn_CallbackToken r = token) (\<lambda>r. r\<lparr>dn_CallbackToken := []\<rparr>) t)"
    by (cases "token = []"; cases "flt StmtConsume") (simp_all add: consumeCallbackToken_def case_prod_beta)
  then show ?thesis
  proof
    assume "t' = snd (updateWhere (\<lambda>r. dn_ID r = i \<and> dn_CallbackToken r = token) (\<lambda>r. r\<lparr>dn_CallbackToken := []\<rparr>) t)"
    then show ?thesis unfolding updateWhere_def snd_conv by (simp only: upd)
  qed simp
qed

text \<open>C15: A callback keeps to its run's organization. Whatever a callback is answered, the runs, findings
  and module references of every other organization are the same after it, and every
  notification it starts names the run and its organization.\<close>

theorem callback_stays_in_organization:
  assumes "runResults env i header body st = (reply, st')" "getRun i (dx_Runs st) = Some run" "dn_Org run = Some org" "trimSpace org = org"
    and "distinct (map dn_ID (dx_Runs st))" "recordIDs (dx_Records st)" "ownersAgree (dx_Sources st) (dx_Records st)"
  shows "othersKept (organizationScope org) st st'
    \<and> (\<exists>sent. dx_Events st' = dx_Events st @ sent \<and> set sent \<subseteq> {RunFailed org i (pa_Detail body), DriftDetected org i})"
  using assms(1)
proof (cases rule: runResults_cases)
  case rejected
  then show ?thesis by simp
next
  case (authentic run' auth)
  note a = authenticateRun_Inr[OF authentic(1)]
  have run: "run' = run" using a(1) assms(2) by simp
  have "org \<noteq> []" using a(6) run assms(3,4) by (auto simp: orgText_def)
  then have sc: "reaches (organizationScope org) o' = reaches (da_scope auth) o'" for o'
    using a(2) assms(3,4) run by (simp add: organizationScope_def orgText_def)
  have i: "dn_ID run' = i" using find_SomeD[OF a(1)[unfolded getRun_def]] by simp
  have kept: "othersKept (organizationScope org) = othersKept (da_scope auth)"
    by (intro ext) (simp add: othersKept_def refOwned_def sc)
  have own: "reaches (da_scope auth) (dn_Org run)" using a(2) run assms(3,4) by (simp add: orgText_def)
  have tok: "othersKept (da_scope auth) st (st\<lparr>dx_Runs := t2\<rparr>)"
    if "consumeCallbackToken (ev_run env) (dn_ID run') (dn_CallbackToken run') (dx_Runs st) = (Some True, t1)"
      "updateResultInScope (ev_run env) (ev_now env) (dn_ID run') (outcomeOf body) (da_scope auth) t1 = (e, t2)" for e t1 t2
  proof -
    from that(1) i have c: "consumeCallbackToken (ev_run env) i (dn_CallbackToken run') (dx_Runs st) = (Some True, t1)" by simp
    have "t2 = snd (updateResultInScope (ev_run env) (ev_now env) (dn_ID run') (outcomeOf body) (da_scope auth) t1)"
      using that(2) by simp
    with consume_kept[OF c assms(5,2) own] show ?thesis
      by (simp add: othersKept_def updateResultInScope_def updateResult.writes_isolated)
  qed
  from authentic(2) show ?thesis
  proof (cases rule: commitRun_cases)
    case refused
    then show ?thesis by simp
  next
    case (lost t1 e t2)
    then show ?thesis using tok kept by simp
  next
    case (settled t1 t2)
    with settleRun_kept[OF _ _ settled(3)] assms(6,7) have "othersKept (da_scope auth) (st\<lparr>dx_Runs := t2\<rparr>) st'" by simp
    with tok[OF settled(1,2)] kept have "othersKept (organizationScope org) st st'" using othersKept_trans by metis
    moreover have "orgText (dn_Org run') = org" using run assms(3) by (simp add: orgText_def)
    ultimately show ?thesis using settleRun_events[OF settled(3)] i by simp
  qed
qed
section \<open>A run ends once\<close>

text \<open>Requests and the reconciler interleave between their statements: a callback that was
  authenticated on the row as it read it, and a run the reconciler listed, wait among the pending
  while anything else happens. The log has the ids of the runs whose token was taken, by a callback
  or by an expiry.\<close>

record runSystem =
  sy_State :: driftState
  sy_Callbacks :: "(driftRun \<times> dispatchAuthority) list"
  sy_Expiries :: "driftRun list"
  sy_Ended :: "string list"

definition runIDs :: "driftRun list \<Rightarrow> string set" where
  "runIDs t = set (map dn_ID t)"

definition takenBy :: "bool option \<Rightarrow> string \<Rightarrow> string list" where
  "takenBy b i = (if b = Some True then [i] else [])"

inductive runStep :: "runSystem \<Rightarrow> runSystem \<Rightarrow> bool" where
  dispatch: "newID \<notin> runIDs (dx_Runs (sy_State s)) \<union> set (sy_Ended s) \<Longrightarrow>
    createRun flt now newID d org (dx_Runs (sy_State s)) = (res, t) \<Longrightarrow>
    runStep s (s\<lparr>sy_State := (sy_State s)\<lparr>dx_Runs := t\<rparr>\<rparr>)"
| arrive: "authenticateRun env runID header token (dx_Runs (sy_State s)) = Inr (run, auth) \<Longrightarrow>
    runStep s (s\<lparr>sy_Callbacks := (run, auth) # sy_Callbacks s\<rparr>)"
| commit: "(run, auth) \<in> set (sy_Callbacks s) \<Longrightarrow> commitRun env run auth body (sy_State s) = (reply, st) \<Longrightarrow>
    runStep s (s\<lparr>sy_State := st, sy_Ended := sy_Ended s @
      takenBy (fst (consumeCallbackToken (ev_run env) (dn_ID run) (dn_CallbackToken run) (dx_Runs (sy_State s)))) (dn_ID run)\<rparr>)"
| listExpired: "runStep s (s\<lparr>sy_Expiries := listExpiredDispatched cutoff limit (dx_Runs (sy_State s))\<rparr>)"
| expire: "r \<in> set (sy_Expiries s) \<Longrightarrow>
    expireDispatched flt now (dn_ID r) (dn_CallbackToken r) detail (dx_Runs (sy_State s)) = (b, t) \<Longrightarrow>
    runStep s (s\<lparr>sy_State := (sy_State s)\<lparr>dx_Runs := t\<rparr>, sy_Ended := sy_Ended s @ takenBy b (dn_ID r)\<rparr>)"
| failBatch: "runStep s (s\<lparr>sy_State := (sy_State s)\<lparr>dx_Runs := snd (failBatchRows flt now batch detail (dx_Runs (sy_State s)))\<rparr>\<rparr>)"
| setStatus: "runStep s (s\<lparr>sy_State := (sy_State s)\<lparr>dx_Runs := snd (updateStatus flt now i status detail (dx_Runs (sy_State s)))\<rparr>\<rparr>)"
| setCI: "runStep s (s\<lparr>sy_State := (sy_State s)\<lparr>dx_Runs := snd (setCIRun flt now i ci url (dx_Runs (sy_State s)))\<rparr>\<rparr>)"
| retain: "pruneRuns keep maxAge now (dx_Runs (sy_State s)) = Some (n, t) \<Longrightarrow>
    runStep s (s\<lparr>sy_State := (sy_State s)\<lparr>dx_Runs := t\<rparr>\<rparr>)"
| other: "dx_Runs st = dx_Runs (sy_State s) \<Longrightarrow> runStep s (s\<lparr>sy_State := st\<rparr>)"

text \<open>A run in the log has no token left, and nothing gives a run a token but its creation.\<close>

definition endedOnce :: "string list \<Rightarrow> driftRun list \<Rightarrow> bool" where
  "endedOnce ended t = (distinct ended \<and> (\<forall>r \<in> set t. dn_ID r \<in> set ended \<longrightarrow> dn_CallbackToken r = []))"

text \<open>The tables a statement may leave: rows of before, with the token they had or none.\<close>

definition tokensShrink :: "driftRun list \<Rightarrow> driftRun list \<Rightarrow> bool" where
  "tokensShrink t t' = (\<forall>r' \<in> set t'. \<exists>r \<in> set t. dn_ID r = dn_ID r' \<and> dn_CallbackToken r' \<in> {dn_CallbackToken r, []})"

lemma tokensShrink_refl [simp, intro]: "tokensShrink t t"
  by (auto simp: tokensShrink_def)

lemma tokensShrink_trans: "tokensShrink t t' \<Longrightarrow> tokensShrink t' t'' \<Longrightarrow> tokensShrink t t''"
  unfolding tokensShrink_def by (metis insert_iff singletonD)

lemma tokensShrink_update:
  "(\<And>r. dn_ID (f r) = dn_ID r) \<Longrightarrow> (\<And>r. dn_CallbackToken (f r) \<in> {dn_CallbackToken r, []}) \<Longrightarrow>
   tokensShrink t (snd (updateWhere p f t))"
  unfolding tokensShrink_def updateWhere_def snd_conv set_map ball_simps by (auto intro: bexI[of _ r for r])

lemma endedOnce_shrink: "endedOnce ended t \<Longrightarrow> tokensShrink t t' \<Longrightarrow> endedOnce ended t'"
  unfolding endedOnce_def tokensShrink_def by (metis insert_iff singletonD)

lemma setDetail_keeps [simp]: "dn_ID (setDetail d r) = dn_ID r" "dn_CallbackToken (setDetail d r) = dn_CallbackToken r"
  by (simp_all add: setDetail_def)

lemma updateResultInScope_shrink: "tokensShrink t (snd (updateResultInScope flt now i o' sc t))"
  unfolding updateResultInScope_def updateResult_def
  by (rule writeInScope_cases) (auto simp: updateResultWhere_def intro!: tokensShrink_update)

text \<open>Taking a token leaves the row without one, and no row of the id had another.\<close>

lemma taken:
  assumes "updateWhere (\<lambda>r. dn_ID r = i \<and> q r \<and> dn_CallbackToken r = tok) f t = (n, t')" "0 < n" "tok \<noteq> []"
    and "distinct (map dn_ID t)" "\<And>r. dn_ID (f r) = dn_ID r" "\<And>r. dn_CallbackToken (f r) = []"
  shows "tokensShrink t t'" "\<forall>r \<in> set t'. dn_ID r = i \<longrightarrow> dn_CallbackToken r = []"
    "\<exists>r \<in> set t. dn_ID r = i \<and> dn_CallbackToken r \<noteq> []"
proof -
  let ?p = "\<lambda>r. dn_ID r = i \<and> q r \<and> dn_CallbackToken r = tok"
  from assms(1,2) obtain r where r: "r \<in> set t" "?p r"
    by (auto simp: updateWhere_def length_greater_0_conv filter_empty_conv)
  have only: "x = r" if "x \<in> set t" "dn_ID x = i" for x
    using assms(4) r that by (auto simp: distinct_map inj_on_def)
  show "tokensShrink t t'"
    using assms(1) tokensShrink_update[of f t ?p] assms(5,6) by (simp add: prod_eq_iff)
  show "\<forall>r \<in> set t'. dn_ID r = i \<longrightarrow> dn_CallbackToken r = []"
  proof (intro ballI impI)
    fix y assume "y \<in> set t'" "dn_ID y = i"
    with assms(1) obtain x where x: "x \<in> set t" "y = (if ?p x then f x else x)" by (auto simp: updateWhere_def)
    with \<open>dn_ID y = i\<close> assms(5) have "dn_ID x = i" by (auto split: if_splits)
    with only[OF x(1)] r x(2) assms(6) show "dn_CallbackToken y = []" by simp
  qed
  show "\<exists>r \<in> set t. dn_ID r = i \<and> dn_CallbackToken r \<noteq> []" using r assms(3) by blast
qed

lemma endedOnce_taken:
  assumes "endedOnce ended t" "tokensShrink t t'" "\<forall>r \<in> set t'. dn_ID r = i \<longrightarrow> dn_CallbackToken r = []"
    "\<exists>r \<in> set t. dn_ID r = i \<and> dn_CallbackToken r \<noteq> []"
  shows "endedOnce (ended @ [i]) t'"
proof -
  have "i \<notin> set ended" using assms(1,4) by (auto simp: endedOnce_def)
  with assms(3) endedOnce_shrink[OF assms(1,2)] show ?thesis by (auto simp: endedOnce_def)
qed

definition runsOK :: "runSystem \<Rightarrow> bool" where
  "runsOK s = (distinct (map dn_ID (dx_Runs (sy_State s))) \<and> endedOnce (sy_Ended s) (dx_Runs (sy_State s)))"

lemma updateWhere_ids [simp]: "(\<And>r. dn_ID (f r) = dn_ID r) \<Longrightarrow> map dn_ID (snd (updateWhere p f t)) = map dn_ID t"
  by (simp add: updateWhere_def)

lemma resultInScope_ids: "map dn_ID (snd (updateResultInScope flt now i o' sc t)) = map dn_ID t"
  unfolding updateResultInScope_def updateResult_def
  by (rule writeInScope_cases) (auto simp: updateResultWhere_def)

lemma outcome_keeps_runs [simp]:
  "dx_Runs (recordDriftOutcome env run o' auth st) = dx_Runs st"
  "dx_Runs (captureModuleRefs env src key pl locks sc st) = dx_Runs st"
  "dx_Runs (notifyDriftResult env org i o' st) = dx_Runs st"
  by (simp_all add: recordDriftOutcome_def captureModuleRefs_def notifyDriftResult_def split: option.splits)

lemma settleRun_keeps_runs: "settleRun env run body auth st = (r, st') \<Longrightarrow> dx_Runs st' = dx_Runs st"
  by (auto simp: settleRun_def Let_def split: sum.splits sourceErr.splits option.splits)

lemma commitRun_runs:
  assumes "commitRun env run auth body st = (r, st')"
    "consumeCallbackToken (ev_run env) (dn_ID run) (dn_CallbackToken run) (dx_Runs st) = (b, t1)"
  shows "if b = Some True
         then dx_Runs st' = snd (updateResultInScope (ev_run env) (ev_now env) (dn_ID run) (outcomeOf body) (da_scope auth) t1)
         else st' = st"
proof (cases "b = Some True")
  case True
  obtain e t2 where u: "updateResultInScope (ev_run env) (ev_now env) (dn_ID run) (outcomeOf body) (da_scope auth) t1 = (e, t2)"
    by fastforce
  have "dx_Runs st' = t2"
  proof (cases e)
    case None
    with assms u True have "settleRun env run body auth (st\<lparr>dx_Runs := t2\<rparr>) = (r, st')" by (simp add: commitRun_def)
    then show ?thesis by (simp add: settleRun_keeps_runs)
  next
    case (Some x)
    with assms u True show ?thesis by (auto simp: commitRun_def)
  qed
  with True u show ?thesis by simp
next
  case False
  then have "b = None \<or> b = Some False" by (cases b) auto
  with assms show ?thesis by (auto simp: commitRun_def)
qed

lemma consume_taken:
  assumes "consumeCallbackToken flt i tok t = (b, t1)" "distinct (map dn_ID t)"
  shows "if b = Some True
    then tokensShrink t t1 \<and> (\<forall>r \<in> set t1. dn_ID r = i \<longrightarrow> dn_CallbackToken r = [])
         \<and> (\<exists>r \<in> set t. dn_ID r = i \<and> dn_CallbackToken r \<noteq> []) \<and> map dn_ID t1 = map dn_ID t
    else t1 = t \<or> b \<noteq> Some True"
proof (cases "b = Some True")
  case True
  let ?f = "\<lambda>r. r\<lparr>dn_CallbackToken := []\<rparr>"
  obtain n t' where u: "updateWhere (\<lambda>r. dn_ID r = i \<and> True \<and> dn_CallbackToken r = tok) ?f t = (n, t')" by fastforce
  with True assms(1) have n: "tok \<noteq> []" "0 < n" "t1 = t'"
    by (auto simp: consumeCallbackToken_def split: if_splits)
  have "map dn_ID t1 = map dn_ID t"
    using updateWhere_ids[of ?f "\<lambda>r. dn_ID r = i \<and> True \<and> dn_CallbackToken r = tok" t] u n(3)
    by (simp del: updateWhere_ids)
  moreover have "tokensShrink t t1" "\<forall>r \<in> set t1. dn_ID r = i \<longrightarrow> dn_CallbackToken r = []"
      "\<exists>r \<in> set t. dn_ID r = i \<and> dn_CallbackToken r \<noteq> []"
    unfolding n(3) by (rule taken[OF u n(2,1) assms(2)]; simp)+
  ultimately show ?thesis using True by (simp only: if_True simp_thms)
qed simp

lemma expire_taken:
  assumes "expireDispatched flt now i tok detail t = (b, t1)" "distinct (map dn_ID t)"
  shows "if b = Some True
    then tokensShrink t t1 \<and> (\<forall>r \<in> set t1. dn_ID r = i \<longrightarrow> dn_CallbackToken r = [])
         \<and> (\<exists>r \<in> set t. dn_ID r = i \<and> dn_CallbackToken r \<noteq> []) \<and> map dn_ID t1 = map dn_ID t
    else t1 = t"
proof (cases "tok = [] \<or> flt (StmtExpire i)")
  case True
  with assms(1) show ?thesis by (auto simp: expireDispatched_def split: if_splits)
next
  case False
  obtain n t' where u: "updateWhere (\<lambda>r. dn_ID r = i \<and> dn_Status r = ''dispatched'' \<and> dn_CallbackToken r = tok) (failRow now detail) t = (n, t')"
    by fastforce
  with False assms(1) have n: "b = Some (0 < n)" "t1 = t'" by (auto simp: expireDispatched_def)
  show ?thesis
  proof (cases "0 < n")
    case True
    from taken[OF u True _ assms(2)] False n u show ?thesis
      using updateWhere_ids[of "failRow now detail" "\<lambda>r. dn_ID r = i \<and> dn_Status r = ''dispatched'' \<and> dn_CallbackToken r = tok" t] True
      by simp
  next
    case no: False
    with u have "\<not> (\<exists>r \<in> set t. dn_ID r = i \<and> dn_Status r = ''dispatched'' \<and> dn_CallbackToken r = tok)"
      by (auto simp: updateWhere_def filter_empty_conv)
    with u n no show ?thesis by (simp add: updateWhere_none)
  qed
qed

lemma runsOK_shrink:
  assumes "runsOK s" "tokensShrink (dx_Runs (sy_State s)) t" "map dn_ID t = map dn_ID (dx_Runs (sy_State s)) \<or> distinct (map dn_ID t)"
  shows "runsOK (s\<lparr>sy_State := (sy_State s)\<lparr>dx_Runs := t\<rparr>\<rparr>)"
  using assms(1,3) endedOnce_shrink[OF _ assms(2), of "sy_Ended s"] by (auto simp: runsOK_def)

lemma runStep_ok: "runStep s s' \<Longrightarrow> runsOK s \<Longrightarrow> runsOK s'"
proof (induction rule: runStep.induct)
  case (dispatch newID s flt now d org res t)
  let ?t = "dx_Runs (sy_State s)"
  from dispatch(2) consider "t = ?t" | r where "t = ?t @ [r]" "dn_ID r = newID"
    by (auto simp: createRun_def Let_def split: if_splits)
  then show ?case
  proof cases
    case 1
    with dispatch show ?thesis by (simp add: runsOK_def)
  next
    case 2
    with dispatch show ?thesis by (auto simp: runsOK_def endedOnce_def runIDs_def)
  qed
next
  case (commit run auth s env body reply st)
  let ?t = "dx_Runs (sy_State s)"
  have d: "distinct (map dn_ID ?t)" and e: "endedOnce (sy_Ended s) ?t" using commit by (simp_all add: runsOK_def)
  obtain b t1 where c: "consumeCallbackToken (ev_run env) (dn_ID run) (dn_CallbackToken run) ?t = (b, t1)" by fastforce
  note st = commitRun_runs[OF commit(2) c]
  show ?case
  proof (cases "b = Some True")
    case True
    note tk = consume_taken[OF c d, unfolded True, simplified]
    let ?u = "snd (updateResultInScope (ev_run env) (ev_now env) (dn_ID run) (outcomeOf body) (da_scope auth) t1)"
    have sh: "tokensShrink t1 ?u" by (rule updateResultInScope_shrink)
    have "\<forall>r \<in> set ?u. dn_ID r = dn_ID run \<longrightarrow> dn_CallbackToken r = []"
      using sh tk unfolding tokensShrink_def by (metis insert_iff singletonD)
    with endedOnce_taken[OF e tokensShrink_trans[OF _ sh]] tk have "endedOnce (sy_Ended s @ [dn_ID run]) ?u" by blast
    moreover have "map dn_ID ?u = map dn_ID ?t" using resultInScope_ids tk by metis
    ultimately show ?thesis using st True c d by (simp add: runsOK_def takenBy_def)
  next
    case False
    with st c d e show ?thesis by (simp add: runsOK_def takenBy_def)
  qed
next
  case (expire r s flt now detail b t)
  let ?t = "dx_Runs (sy_State s)"
  have d: "distinct (map dn_ID ?t)" and e: "endedOnce (sy_Ended s) ?t" using expire by (simp_all add: runsOK_def)
  note tk = expire_taken[OF expire(2) d]
  show ?case
  proof (cases "b = Some True")
    case True
    with tk endedOnce_taken[OF e] have "endedOnce (sy_Ended s @ [dn_ID r]) t" by simp
    with tk True d show ?thesis by (simp add: runsOK_def takenBy_def)
  next
    case False
    with tk d e show ?thesis by (simp add: runsOK_def takenBy_def)
  qed
next
  case (failBatch s flt now batch detail)
  let ?u = "snd (failBatchRows flt now batch detail (dx_Runs (sy_State s)))"
  have "tokensShrink (dx_Runs (sy_State s)) ?u" "map dn_ID ?u = map dn_ID (dx_Runs (sy_State s))"
    by (auto simp: failBatchRows_def intro!: tokensShrink_update)
  with failBatch show ?case by (intro runsOK_shrink) blast+
next
  case (setStatus s flt now i status detail)
  let ?u = "snd (updateStatus flt now i status detail (dx_Runs (sy_State s)))"
  have "tokensShrink (dx_Runs (sy_State s)) ?u" "map dn_ID ?u = map dn_ID (dx_Runs (sy_State s))"
    by (auto simp: updateStatus_def intro!: tokensShrink_update)
  with setStatus show ?case by (intro runsOK_shrink) blast+
next
  case (setCI s flt now i ci url)
  let ?u = "snd (setCIRun flt now i ci url (dx_Runs (sy_State s)))"
  have "tokensShrink (dx_Runs (sy_State s)) ?u" "map dn_ID ?u = map dn_ID (dx_Runs (sy_State s))"
    by (auto simp: setCIRun_def intro!: tokensShrink_update)
  with setCI show ?case by (intro runsOK_shrink) blast+
next
  case (retain keep maxAge now s n t)
  then have "tokensShrink (dx_Runs (sy_State s)) t" "distinct (map dn_ID t)"
    by (auto simp: pruneRuns_def deleteRows_def tokensShrink_def runsOK_def distinct_map_filter split: if_splits)
  with retain show ?case by (intro runsOK_shrink) blast+
qed (simp_all add: runsOK_def)

text \<open>C14: A run ends once. Whatever callbacks, replays and reconciler sweeps interleave between their
  statements, and whatever else dispatch and retention do meanwhile, the token of a run is taken
  at most once: no run is recorded by two callbacks, nor completed by one and expired as well.\<close>

theorem run_ends_once:
  assumes "runStep\<^sup>*\<^sup>* s s'" "dx_Runs (sy_State s) = []" "sy_Ended s = []"
  shows "distinct (sy_Ended s')"
proof -
  from assms(2,3) have "runsOK s" by (simp add: runsOK_def endedOnce_def)
  with assms(1) have "runsOK s'" by (induction rule: rtranclp_induct) (auto intro: runStep_ok)
  then show ?thesis by (simp add: runsOK_def endedOnce_def)
qed
section \<open>A result that cannot be stored\<close>

lemma getRun_update:
  assumes "\<And>r. dn_ID (f r) = dn_ID r" "getRun i t = Some r" "p r"
  shows "getRun i (snd (updateWhere p f t)) = Some (f r)"
  using assms by (induction t) (auto simp: getRun_def updateWhere_def split: if_splits)

text \<open>A result that cannot be stored leaves the run without an end. When a callback presents the
  right token of a dispatched run but a count is outside the INTEGER range, the caller is answered
  a server error and the run stays dispatched with its token taken: from then on every callback
  for it is refused, expiring it does nothing, and retention never removes it.\<close>

theorem unstorable_result_strands_run:
  assumes "runResults env i header body st = (reply, st')"
    and "authenticateRun env i header (pa_Token body) (dx_Runs st) = Inr (run, auth)"
    and "dn_Status run = ''dispatched''" "\<not> ev_run env StmtConsume" "\<not> outcomeFits (outcomeOf body)"
  shows "reply = ServerError \<and> getRun i (dx_Runs st') = Some (run\<lparr>dn_CallbackToken := []\<rparr>)
    \<and> (\<forall>env' header' body'. snd (runResults env' i header' body' st') = st'
          \<and> fst (runResults env' i header' body' st') \<in> {InvalidToken, ServerError})
    \<and> (\<forall>flt now detail. expireDispatched flt now i (dn_CallbackToken (run\<lparr>dn_CallbackToken := []\<rparr>)) detail (dx_Runs st')
          = (Some False, dx_Runs st'))
    \<and> (\<forall>keep maxAge now n t. pruneRuns keep maxAge now (dx_Runs st') = Some (n, t) \<longrightarrow> run\<lparr>dn_CallbackToken := []\<rparr> \<in> set t)"
proof -
  note a = authenticateRun_Inr[OF assms(2)]
  let ?f = "\<lambda>r. r\<lparr>dn_CallbackToken := []\<rparr>"
  let ?t = "snd (updateWhere (\<lambda>r. dn_ID r = dn_ID run \<and> dn_CallbackToken r = dn_CallbackToken run) ?f (dx_Runs st))"
  let ?run = "run\<lparr>dn_CallbackToken := []\<rparr>"
  from find_SomeD[OF a(1)[unfolded getRun_def]] have run: "run \<in> set (dx_Runs st)" "dn_ID run = i" by simp_all
  have "0 < fst (updateWhere (\<lambda>r. dn_ID r = dn_ID run \<and> dn_CallbackToken r = dn_CallbackToken run) ?f (dx_Runs st))"
    using run by (auto simp: updateWhere_def length_greater_0_conv filter_empty_conv)
  then have c: "consumeCallbackToken (ev_run env) (dn_ID run) (dn_CallbackToken run) (dx_Runs st) = (Some True, ?t)"
    using a(4) assms(4) by (simp add: consumeCallbackToken_def case_prod_beta)
  have "\<exists>e. updateResultInScope (ev_run env) (ev_now env) (dn_ID run) (outcomeOf body) (da_scope auth) ?t = (Some e, ?t)"
    using assms(5) by (simp add: updateResultInScope_def updateResult_def updateResultWhere_def writeInScope_def Let_def)
  then have com: "commitRun env run auth body st = (ServerError, st\<lparr>dx_Runs := ?t\<rparr>)"
    using c by (auto simp: commitRun_def)
  have st': "reply = ServerError" "st' = st\<lparr>dx_Runs := ?t\<rparr>" using assms(1,2) com by (simp_all add: runResults_def)
  have got: "getRun i (dx_Runs st') = Some ?run"
    unfolding st'(2) by (simp, rule getRun_update[of ?f, OF _ a(1)]) (simp_all add: run(2))
  have "authenticateRun env' i header' token' (dx_Runs st') \<in> {Inl InvalidToken, Inl ServerError}" for env' header' token'
    using got by (simp add: authenticateRun_def authenticateCallback_def)
  then have later: "runResults env' i header' body' st' \<in> {(InvalidToken, st'), (ServerError, st')}" for env' header' body'
    unfolding runResults_def using got by (simp add: authenticateRun_def authenticateCallback_def)
  have mem: "?run \<in> set (dx_Runs st')" using find_SomeD[OF got[unfolded getRun_def]] by simp
  have keep: "?run \<in> set t" if "pruneRuns keep maxAge now (dx_Runs st') = Some (n, t)" for keep maxAge now n t
  proof -
    have "t = filter (\<lambda>r. \<not> (\<not> amongNewest (nat keep) (dx_Runs st') r \<and> dn_CreatedAt r < now - maxAge
        \<and> dn_Status r \<notin> {''dispatched'', ''running''})) (dx_Runs st')"
      using that by (auto simp: pruneRuns_def deleteRows_def split: if_splits)
    with mem assms(3) show ?thesis by simp
  qed
  have "snd (runResults env' i header' body' st') = st' \<and> fst (runResults env' i header' body' st') \<in> {InvalidToken, ServerError}"
    for env' header' body' using later[of env' header' body'] by auto
  then show ?thesis using st'(1) got keep by (simp add: expireDispatched_def)
qed

section \<open>A repeated push\<close>

lemma upsert_hasRef:
  assumes "upsertDetectionWhere flt now newID srcs d orgs t = (Inr r, t')" "de_ExternalRef d = Some x"
  shows "\<exists>r' \<in> set t'. hasRef (de_SourceID d) x r'"
proof -
  have rep: "\<exists>r' \<in> set t. hasRef (de_SourceID d) x r'" if "replayed flt d t = Inr r"
    using that assms(2) find_SomeD[of "hasRef (de_SourceID d) x" t]
    by (auto simp: replayed_def getByExternalRef_def split: if_splits option.splits)
  obtain s where s: "ownedSource orgs (de_SourceID d) srcs = Some s"
    using assms(1) by (auto simp: upsertDetectionWhere_def split: if_splits option.splits)
  show ?thesis
  proof (cases "List.find (liveFor (de_SourceID d) (de_StateKey d)) t")
    case None
    with assms s have "t' = t \<and> replayed flt d t = Inr r \<or> t' = t @ [newRecord d (so_Org s) newID now]"
      by (auto simp: upsertDetectionWhere_def split: if_splits)
    with rep assms(2) show ?thesis by (auto simp: hasRef_def newRecord_def)
  next
    case (Some l)
    from find_SomeD[OF Some] have l: "re_SourceID l = Some (de_SourceID d)" "l \<in> set t" by (simp_all add: liveFor_def)
    from Some assms(1) s have "t' = t \<and> replayed flt d t = Inr r
        \<or> t' = map (\<lambda>x. if re_ID x = re_ID l then mergeDetection d now x else x) t"
      by (auto simp: upsertDetectionWhere_def split: if_splits)
    then show ?thesis
    proof
      assume t': "t' = map (\<lambda>x. if re_ID x = re_ID l then mergeDetection d now x else x) t"
      have "(\<lambda>x. if re_ID x = re_ID l then mergeDetection d now x else x) l \<in> set t'"
        unfolding t' set_map using l(2) by (rule imageI)
      moreover have "hasRef (de_SourceID d) x (mergeDetection d now l)"
        using l(1) assms(2) by (simp add: hasRef_def mergeDetection_def orElse_def)
      ultimately show ?thesis by auto
    qed (use rep in blast)
  qed
qed

text \<open>A repeated push is recorded once. After a push with an external reference was recorded, a push
  of that reference for that source is answered with a record that carries it and changes nothing,
  whatever plan or counts it brings.\<close>

theorem repeated_push_changes_nothing:
  assumes "ingestDrift env (Some req) sc st = (RecordReply r, st1)" "ip_ExternalRef req \<noteq> []"
    and "ip_SourceID req' = ip_SourceID req" "ip_ExternalRef req' = ip_ExternalRef req" "ip_StateKey req' \<noteq> []"
    and "\<not> ev_sourceFails env'" "\<not> ev_record env' StmtGetByRef"
  shows "\<exists>r'. ingestDrift env' (Some req') sc st1 = (Replay r', st1) \<and> hasRef (ip_SourceID req) (ip_ExternalRef req) r'"
proof -
  from assms(1) have q: "ip_SourceID req \<noteq> []" "\<not> ev_sourceFails env" by (auto simp: ingestDrift_def split: if_splits)
  obtain src where src: "getSourceInScope sc (ip_SourceID req) (dx_Sources st) = Some src"
    using assms(1) q by (auto simp: ingestDrift_def split: if_splits option.splits)
  obtain o' pl where o': "readIngest env req = Some (o', pl)"
    using assms(1) q src by (auto simp: ingestDrift_def split: if_splits option.splits)
  let ?st = "if pl = None then st else captureModuleRefs env (ip_SourceID req) (ip_StateKey req) pl (ip_ModuleLocks req) sc st"
  have store: "storeIngest env req src o' sc ?st = (RecordReply r, st1)"
    using assms(1) q src o' by (auto simp: ingestDrift_def split: if_splits option.splits)
  have srcs: "dx_Sources ?st = dx_Sources st" by (simp add: captureModuleRefs_def)
  define d where "d = \<lparr>de_SourceID = ip_SourceID req, de_StateKey = ip_StateKey req, de_PipelineConnectionID = None, de_RunID = None,
      de_Origin = ''ingest'', de_Added = ro_Added o', de_Changed = ro_Changed o', de_Destroyed = ro_Destroyed o',
      de_Summary = ro_Summary o', de_ExternalRef = (if ip_ExternalRef req = [] then None else Some (ip_ExternalRef req)),
      de_Marks = ro_Marks o', de_Infra = ro_Infra o'\<rparr>"
  obtain res t' where up: "upsertDetectionInScope (ev_record env) (ev_now env) (ev_newID env) (dx_Sources ?st) d sc (dx_Records ?st) = (res, t')"
    by fastforce
  have "hasDriftFinding (ro_Drifted o') (ro_Infra o')"
    using store by (auto simp: storeIngest_def split: if_splits sum.splits prod.splits)
  with store up have "res = Inr r \<and> dx_Records st1 = t' \<and> dx_Sources st1 = dx_Sources ?st"
    by (auto simp: storeIngest_def d_def[symmetric] split: sum.splits)
  then have st1: "res = Inr r" "dx_Records st1 = t'" "dx_Sources st1 = dx_Sources st" using srcs by simp_all
  have "\<exists>orgs. upsertDetectionWhere (ev_record env) (ev_now env) (ev_newID env) (dx_Sources ?st) d orgs (dx_Records ?st) = (Inr r, t')"
    using up st1(1) by (auto simp: upsertDetectionInScope_def upsertDetection_def writeInScope_def Let_def split: if_splits)
  then obtain orgs where u: "upsertDetectionWhere (ev_record env) (ev_now env) (ev_newID env) (dx_Sources ?st) d orgs (dx_Records ?st) = (Inr r, t')"
    by blast
  have "de_ExternalRef d = Some (ip_ExternalRef req)" "de_SourceID d = ip_SourceID req" by (simp_all add: d_def assms(2))
  with upsert_hasRef[OF u] obtain r' where "r' \<in> set t'" "hasRef (ip_SourceID req) (ip_ExternalRef req) r'" by auto
  then obtain r2 where r2: "getByExternalRef (ip_SourceID req) (ip_ExternalRef req) (dx_Records st1) = Some r2"
    unfolding getByExternalRef_def st1(2) by (meson find_None_iff not_None_eq)
  from find_SomeD[OF r2[unfolded getByExternalRef_def]] have "hasRef (ip_SourceID req) (ip_ExternalRef req) r2" by simp
  moreover have "ingestDrift env' (Some req') sc st1 = (Replay r2, st1)"
    using assms(2-7) q(1) src st1(3) r2 by (simp add: ingestDrift_def)
  ultimately show ?thesis by blast
qed
text \<open>A push with another reference for the same live finding replaces the reference it carried, so a
  late repetition of the first push finds no record and counts as a detection again.\<close>

lemma next_push_forgets_reference:
  assumes "recordsOK t" "r \<in> set t" "liveFor (de_SourceID d) (de_StateKey d) r" "re_ExternalRef r = Some a"
    and "de_ExternalRef d = Some b" "a \<noteq> b" "upsertDetectionWhere flt now newID srcs d orgs t = (Inr r', t')" "t' \<noteq> t"
  shows "getByExternalRef (de_SourceID d) a t' = None"
  using assms(7)
proof (cases rule: upsert_cases)
  case (merged s l)
  have l: "re_ID l = re_ID r"
    using oneLiveD[of t l r] assms(1-3) merged(2,3) by (auto simp: recordsOK_def liveFor_def stateOf_def)
  have "\<not> hasRef (de_SourceID d) a (if re_ID x = re_ID l then mergeDetection d now x else x)" if x: "x \<in> set t" for x
  proof (cases "re_ID x = re_ID r")
    case True
    with l assms(5,6) show ?thesis by (simp add: hasRef_def mergeDetection_ref orElse_def)
  next
    case False
    have "re_SourceID r = Some (de_SourceID d)" using assms(3) by (simp add: liveFor_def)
    with oneRefD[of t x r] assms(1,2,4) x False l show ?thesis by (auto simp: recordsOK_def hasRef_def refOf_def)
  qed
  then show ?thesis unfolding getByExternalRef_def find_None_iff merged(5) set_map by blast
qed (use assms(2,3,8) in blast)+
section \<open>A small deployment\<close>

definition sampleEnv :: driftEnv where
  "sampleEnv = \<lparr>ev_run = (\<lambda>_. False), ev_record = (\<lambda>_. False), ev_sourceFails = False, ev_refsFail = False, ev_now = 100,
     ev_newID = ''r2'', ev_notifier = True, ev_floatText = (\<lambda>_. []), ev_canonicalHost = (\<lambda>h. h), ev_enc = (\<lambda>_. [])\<rparr>"

definition sampleDriftState :: driftState where
  "sampleDriftState = \<lparr>dx_Runs = [sampleRun ''a'' ''dispatched'' ''t1'' 5], dx_Records = sampleRecords, dx_Refs = [],
     dx_Sources = sampleSources, dx_Events = []\<rparr>"

definition sampleResult :: "int \<Rightarrow> driftRunResultPayload" where
  "sampleResult added = \<lparr>pa_Token = ''t1'', pa_Status = [], pa_Added = added, pa_Changed = 0, pa_Destroyed = 0, pa_Drifted = None,
     pa_Detail = [], pa_Summary = [], pa_Plan = None, pa_ModuleLocks = Junk [], pa_Marks = noMarks, pa_Infra = noInfra\<rparr>"

lemma sample_owners: "recordIDs sampleRecords" "ownersAgree sampleSources sampleRecords"
  by code_simp+

theorem only_clean_verdict_resolves_witness:
  "\<exists>run. getRun ''a'' (dx_Runs sampleDriftState) = Some run \<and> dn_StateKey run = ''app'' \<and> ro_Status (outcomeOf (sampleResult 0)) = ''completed''"
proof -
  let ?p = "runResults sampleEnv ''a'' [] (sampleResult 0) sampleDriftState"
  have r: "length sampleRecords = 1" "live (hd sampleRecords)" "re_StateKey (hd sampleRecords) = ''app''" by code_simp+
  have "sampleRecords \<noteq> []" using r(1) by (metis list.size(3) zero_neq_one)
  then have "hd sampleRecords \<in> set (dx_Records sampleDriftState)" by (simp add: sampleDriftState_def)
  moreover have "\<not> list_ex live (dx_Records (snd ?p))" by code_simp
  then have "\<forall>r' \<in> set (dx_Records (snd ?p)). re_ID r' = re_ID (hd sampleRecords) \<longrightarrow> \<not> live r'" by (auto simp: list_ex_iff)
  ultimately show ?thesis
    using only_clean_verdict_resolves[of sampleEnv "''a''" "[]" "sampleResult 0" sampleDriftState "fst ?p" "snd ?p" "hd sampleRecords"] r(2,3)
    by auto
qed

theorem callback_stays_in_organization_witness:
  "othersKept (organizationScope ''o1'') sampleDriftState (snd (runResults sampleEnv ''a'' [] (sampleResult 3) sampleDriftState))"
proof -
  let ?p = "runResults sampleEnv ''a'' [] (sampleResult 3) sampleDriftState"
  have g: "getRun ''a'' (dx_Runs sampleDriftState) = Some (sampleRun ''a'' ''dispatched'' ''t1'' 5)"
    by (simp add: getRun_def sampleDriftState_def sampleRun_def)
  have "dn_Org (sampleRun ''a'' ''dispatched'' ''t1'' 5) = Some ''o1''" "trimSpace ''o1'' = ''o1''"
    "distinct (map dn_ID (dx_Runs sampleDriftState))" by code_simp+
  with callback_stays_in_organization[of sampleEnv "''a''" "[]" "sampleResult 3" sampleDriftState "fst ?p" "snd ?p", OF _ g] sample_owners
  show ?thesis by (simp add: sampleDriftState_def)
qed

theorem unstorable_result_strands_run_witness:
  "fst (runResults sampleEnv ''a'' [] (sampleResult 4294967296) sampleDriftState) = ServerError"
proof -
  let ?p = "runResults sampleEnv ''a'' [] (sampleResult 4294967296) sampleDriftState"
  let ?run = "sampleRun ''a'' ''dispatched'' ''t1'' 5"
  have "getRun ''a'' (dx_Runs sampleDriftState) = Some ?run" by (simp add: getRun_def sampleDriftState_def sampleRun_def)
  moreover have "authenticateCallback ''drift_runs'' (dn_ID ?run) (orgText (dn_Org ?run)) (dn_CallbackToken ?run)
      (callbackTokenFrom [] (pa_Token (sampleResult 4294967296))) \<noteq> None" by code_simp
  ultimately obtain auth where "authenticateRun sampleEnv ''a'' [] (pa_Token (sampleResult 4294967296)) (dx_Runs sampleDriftState) = Inr (?run, auth)"
    by (auto simp: authenticateRun_def sampleEnv_def)
  moreover have "dn_Status ?run = ''dispatched''" "\<not> ev_run sampleEnv StmtConsume" "\<not> outcomeFits (outcomeOf (sampleResult 4294967296))"
    by (simp_all add: sampleRun_def sampleEnv_def outcomeFits_def outcomeOf_def sampleResult_def int32_def)
  ultimately show ?thesis
    using unstorable_result_strands_run[of sampleEnv "''a''" "[]" "sampleResult 4294967296" sampleDriftState "fst ?p" "snd ?p"] by simp
qed

definition samplePush :: driftIngestPayload where
  "samplePush = \<lparr>ip_SourceID = ''s1'', ip_StateKey = ''app'', ip_ExternalRef = ''build-7'', ip_Plan = None, ip_Added = 1, ip_Changed = 0,
     ip_Destroyed = 0, ip_Drifted = None, ip_Summary = [], ip_ModuleLocks = Junk [], ip_Marks = noMarks, ip_Infra = noInfra\<rparr>"

theorem repeated_push_changes_nothing_witness:
  "\<exists>st1 r'. ingestDrift sampleEnv (Some samplePush) everyone st1 = (Replay r', st1)"
proof -
  have "(case ingestDrift sampleEnv (Some samplePush) everyone sampleDriftState of (RecordReply r, _) \<Rightarrow> True | _ \<Rightarrow> False)" by code_simp
  then obtain r st1 where "ingestDrift sampleEnv (Some samplePush) everyone sampleDriftState = (RecordReply r, st1)"
    by (auto split: prod.splits driftReply.splits)
  from repeated_push_changes_nothing[OF this, of samplePush sampleEnv] show ?thesis
    by (auto simp: samplePush_def sampleEnv_def)
qed

definition sampleSystem :: runSystem where
  "sampleSystem = \<lparr>sy_State = sampleDriftState\<lparr>dx_Runs := []\<rparr>, sy_Callbacks = [], sy_Expiries = [], sy_Ended = []\<rparr>"

theorem run_ends_once_witness:
  "\<exists>s'. runStep\<^sup>*\<^sup>* sampleSystem s' \<and> sy_Ended s' = [''a''] \<and> distinct (sy_Ended s')"
proof -
  let ?d = "sampleRun ''a'' ''dispatched'' ''t1'' 5"
  let ?c = "createRun (\<lambda>_. False) 5 ''a'' ?d ''o1'' []"
  let ?s1 = "sampleSystem\<lparr>sy_State := (sy_State sampleSystem)\<lparr>dx_Runs := snd ?c\<rparr>\<rparr>"
  have s1: "runStep sampleSystem ?s1"
    by (rule runStep.dispatch[of "''a''" _ "\<lambda>_. False" 5 ?d "''o1''" "fst ?c"]) (simp_all add: sampleSystem_def runIDs_def)
  have "(case authenticateRun sampleEnv ''a'' [] ''t1'' (snd ?c) of Inl _ \<Rightarrow> False | Inr (run, auth) \<Rightarrow>
      dn_ID run = ''a'' \<and> fst (consumeCallbackToken (ev_run sampleEnv) (dn_ID run) (dn_CallbackToken run) (snd ?c)) = Some True)" by code_simp
  then obtain run auth where a: "authenticateRun sampleEnv ''a'' [] ''t1'' (snd ?c) = Inr (run, auth)" "dn_ID run = ''a''"
      "fst (consumeCallbackToken (ev_run sampleEnv) (dn_ID run) (dn_CallbackToken run) (snd ?c)) = Some True"
    by (auto split: sum.splits)
  let ?s2 = "?s1\<lparr>sy_Callbacks := [(run, auth)]\<rparr>"
  have s2: "runStep ?s1 ?s2"
    using runStep.arrive[of sampleEnv "''a''" "[]" "''t1''" ?s1 run auth] a(1) by (simp add: sampleSystem_def)
  let ?r = "commitRun sampleEnv run auth (sampleResult 0) (sy_State ?s2)"
  have "\<exists>s3. runStep ?s2 s3 \<and> sy_Ended s3 = [''a'']"
    using runStep.commit[of run auth ?s2 sampleEnv "sampleResult 0" "fst ?r" "snd ?r"] a(2,3)
    by (auto simp: sampleSystem_def takenBy_def)
  then obtain s3 where s3: "runStep ?s2 s3" "sy_Ended s3 = [''a'']" by blast
  have steps: "runStep\<^sup>*\<^sup>* sampleSystem s3" using s1 s2 s3(1) by (meson rtranclp.rtrancl_into_rtrancl rtranclp.rtrancl_refl)
  have "dx_Runs (sy_State sampleSystem) = []" "sy_Ended sampleSystem = []" by (simp_all add: sampleSystem_def)
  from run_ends_once[OF steps this] steps s3(2) show ?thesis by blast
qed

text \<open>The sum of the counts is a Go int: counts that overflow it read as no drift, so a push of changes
  closes the live finding as clean, although no single count fits the column it would be stored in.\<close>

lemma overflowing_push_closes_finding:
  "fst (ingestDrift sampleEnv (Some (samplePush\<lparr>ip_ExternalRef := [], ip_Added := 2 ^ 62, ip_Changed := 2 ^ 62\<rparr>)) everyone sampleDriftState)
   = Clean True"
proof -
  have "(case ingestDrift sampleEnv (Some (samplePush\<lparr>ip_ExternalRef := [], ip_Added := 2 ^ 62, ip_Changed := 2 ^ 62\<rparr>)) everyone
    sampleDriftState of (Clean b, _) \<Rightarrow> b | _ \<Rightarrow> False)" by code_simp
  then show ?thesis by (auto split: prod.splits driftReply.splits)
qed

end
