(* ===== verification/Secrets.thy ===== *)
theory Secrets
  imports Prelude
begin

text \<open>
  \<open>internal/crypto\<close>: secrets at rest are sealed with AES-256-GCM under the current key, framed with the
  purpose they are for, and opened under the current or the retiring key.

  The cipher of the standard library is a record of its two functions; what is used of it is stated
  by \<open>gcmLaws\<close>: what was sealed opens to the same bytes, the seal is sixteen bytes longer, and
  only what \<open>Seal\<close> makes of a plaintext opens to it (the tag is recomputed over the ciphertext, which
  is the plaintext under a key stream). The environment is the values of its three variables; a drawn
  nonce is an argument, None where the random source fails.
\<close>

section \<open>Keys\<close>

datatype cryptErr = NoKey | MalformedKey | NoNonce | CiphertextTooShort | NoPreviousKey | NotOpened
  | UnknownPurpose | PurposeMismatch | PurposeTooLong | RoundTripFailed

record keyEnv =
  ke_TSM_ENCRYPTION_KEY :: string
  ke_ENCRYPTION_KEY :: string
  ke_TSM_ENCRYPTION_KEY_PREVIOUS :: string

definition hexVal :: "char \<Rightarrow> nat option" where
  "hexVal c =
     (if isDigit c then Some (of_char c - 48)
      else if CHR ''a'' \<le> c \<and> c \<le> CHR ''f'' then Some (of_char c - 87)
      else if CHR ''A'' \<le> c \<and> c \<le> CHR ''F'' then Some (of_char c - 55)
      else None)"

text \<open>\<open>hex.DecodeString\<close>.\<close>

fun hexDecode :: "string \<Rightarrow> string option" where
  "hexDecode [] = Some []"
| "hexDecode [c] = None"
| "hexDecode (a # b # s) =
     (case (hexVal a, hexVal b, hexDecode s) of
        (Some x, Some y, Some r) \<Rightarrow> Some (char_of (16 * x + y) # r)
      | _ \<Rightarrow> None)"

definition parseKey :: "string \<Rightarrow> cryptErr + string" where
  "parseKey v =
     (if v = [] then Inl NoKey
      else (case (if length v = 64 then hexDecode v else None) of
              Some b \<Rightarrow> if length b = 32 then Inr b else Inl MalformedKey
            | None \<Rightarrow> if length v = 32 then Inr v else Inl MalformedKey))"

definition loadKey :: "keyEnv \<Rightarrow> cryptErr + string" where
  "loadKey env = parseKey (if ke_TSM_ENCRYPTION_KEY env = [] then ke_ENCRYPTION_KEY env else ke_TSM_ENCRYPTION_KEY env)"

definition loadPreviousKey :: "keyEnv \<Rightarrow> cryptErr + string option" where
  "loadPreviousKey env =
     (if ke_TSM_ENCRYPTION_KEY_PREVIOUS env = [] then Inr None
      else map_sum id Some (parseKey (ke_TSM_ENCRYPTION_KEY_PREVIOUS env)))"

definition available :: "keyEnv \<Rightarrow> bool" where
  "available env = (case loadKey env of Inl _ \<Rightarrow> False | Inr _ \<Rightarrow> True)"

section \<open>The cipher\<close>

record gcmLib =
  gl_seal :: "string \<Rightarrow> string \<Rightarrow> string \<Rightarrow> string \<Rightarrow> string"
  gl_open :: "string \<Rightarrow> string \<Rightarrow> string \<Rightarrow> string \<Rightarrow> string option"

definition gcmLaws :: "gcmLib \<Rightarrow> bool" where
  "gcmLaws lib = (\<forall>k n aad. length k = 32 \<longrightarrow> length n = 12 \<longrightarrow>
     (\<forall>pt. gl_open lib k n (gl_seal lib k n pt aad) aad = Some pt \<and> length (gl_seal lib k n pt aad) = length pt + 16)
   \<and> (\<forall>ct pt. gl_open lib k n ct aad = Some pt \<longrightarrow> ct = gl_seal lib k n pt aad))"

definition encryptLegacy :: "gcmLib \<Rightarrow> keyEnv \<Rightarrow> string option \<Rightarrow> string \<Rightarrow> cryptErr + string" where
  "encryptLegacy lib env draw pt =
     (case loadKey env of
        Inl e \<Rightarrow> Inl e
      | Inr k \<Rightarrow> (case draw of None \<Rightarrow> Inl NoNonce | Some n \<Rightarrow> Inr (n @ gl_seal lib k n pt [])))"

text \<open>Opens a nonce and ciphertext under the current key, else under the retiring one, which sets
  \<open>previousKeyUsed\<close>. \<open>Decrypt\<close> does it without associated data.\<close>

definition openWithAAD :: "gcmLib \<Rightarrow> keyEnv \<Rightarrow> string \<Rightarrow> string \<Rightarrow> bool \<Rightarrow> (cryptErr + string) \<times> bool" where
  "openWithAAD lib env sealed aad used =
     (case loadKey env of
        Inl e \<Rightarrow> (Inl e, used)
      | Inr k \<Rightarrow>
          if length sealed < 12 then (Inl CiphertextTooShort, used)
          else (let n = take 12 sealed; ct = drop 12 sealed
                in case gl_open lib k n ct aad of
                     Some pt \<Rightarrow> (Inr pt, used)
                   | None \<Rightarrow>
                       (case loadPreviousKey env of
                          Inl e \<Rightarrow> (Inl e, used)
                        | Inr None \<Rightarrow> (Inl NoPreviousKey, used)
                        | Inr (Some k') \<Rightarrow>
                            (case gl_open lib k' n ct aad of
                               None \<Rightarrow> (Inl NotOpened, used)
                             | Some pt \<Rightarrow> (Inr pt, True)))))"

definition decryptLegacy :: "gcmLib \<Rightarrow> keyEnv \<Rightarrow> string \<Rightarrow> bool \<Rightarrow> (cryptErr + string) \<times> bool" where
  "decryptLegacy lib env ct used =
     (case loadKey env of
        Inl e \<Rightarrow> (Inl e, used)
      | Inr k \<Rightarrow>
          if length ct < 12 then (Inl CiphertextTooShort, used)
          else (case gl_open lib k (take 12 ct) (drop 12 ct) [] of
                  Some pt \<Rightarrow> (Inr pt, used)
                | None \<Rightarrow>
                    (case loadPreviousKey env of
                       Inl e \<Rightarrow> (Inl e, used)
                     | Inr None \<Rightarrow> (Inl NoPreviousKey, used)
                     | Inr (Some k') \<Rightarrow>
                         (case gl_open lib k' (take 12 ct) (drop 12 ct) [] of
                            None \<Rightarrow> (Inl NotOpened, used)
                          | Some pt \<Rightarrow> (Inr pt, True)))))"

section \<open>Purposes and frames\<close>

definition PurposeStateSourceCredentials :: string where "PurposeStateSourceCredentials = ''tsm/v1:state-source-credentials''"
definition PurposeCISourcePAT :: string where "PurposeCISourcePAT = ''tsm/v1:ci-source-pat''"
definition PurposeCISourceClientSecret :: string where "PurposeCISourceClientSecret = ''tsm/v1:ci-source-client-secret''"
definition PurposeCISourceAppPrivateKey :: string where "PurposeCISourceAppPrivateKey = ''tsm/v1:ci-source-app-private-key''"
definition PurposePipelineDispatchToken :: string where "PurposePipelineDispatchToken = ''tsm/v1:pipeline-dispatch-token''"
definition PurposeOIDCClientSecret :: string where "PurposeOIDCClientSecret = ''tsm/v1:oidc-client-secret''"
definition PurposeSMTPRelayPassword :: string where "PurposeSMTPRelayPassword = ''tsm/v1:smtp-relay-password''"

definition knownPurposes :: "string set" where
  "knownPurposes = {PurposeStateSourceCredentials, PurposeCISourcePAT, PurposeCISourceClientSecret, PurposeCISourceAppPrivateKey,
     PurposePipelineDispatchToken, PurposeOIDCClientSecret, PurposeSMTPRelayPassword}"

definition maxPurposeLen :: nat where "maxPurposeLen = 255"
definition frameMagic :: string where "frameMagic = CHR 0x00 # ''TSM-AAD''"

definition frame :: "string \<Rightarrow> string \<Rightarrow> string" where
  "frame p sealed = frameMagic @ [char_of (length p)] @ p @ sealed"

definition parseFrame :: "string \<Rightarrow> (string \<times> string) option" where
  "parseFrame ct =
     (if length ct < length frameMagic + 1 \<or> take (length frameMagic) ct \<noteq> frameMagic then None
      else (let n = of_char (ct ! length frameMagic) :: nat; start = length frameMagic + 1
            in if n = 0 \<or> length ct < start + n + 28 then None
               else Some (take n (drop start ct), drop (start + n) ct)))"

definition stampOf :: "string \<Rightarrow> string option" where
  "stampOf ct = (case parseFrame ct of None \<Rightarrow> None | Some (s, _) \<Rightarrow> if s \<in> knownPurposes then Some s else None)"

definition decryptFor :: "gcmLib \<Rightarrow> keyEnv \<Rightarrow> string \<Rightarrow> string \<Rightarrow> bool \<Rightarrow> (cryptErr + string) \<times> bool" where
  "decryptFor lib env ct p used =
     (if p \<notin> knownPurposes then (Inl UnknownPurpose, used)
      else (case parseFrame ct of
              None \<Rightarrow> decryptLegacy lib env ct used
            | Some (stamp, body) \<Rightarrow>
                if stamp \<notin> knownPurposes then (Inl UnknownPurpose, used)
                else if stamp \<noteq> p then (Inl PurposeMismatch, used)
                else (case openWithAAD lib env body stamp used of
                        (Inr pt, used') \<Rightarrow> (Inr pt, used')
                      | (Inl e, used') \<Rightarrow>
                          (case decryptLegacy lib env ct used' of
                             (Inr pt, used'') \<Rightarrow> (Inr pt, used'')
                           | (Inl _, used'') \<Rightarrow> (Inl e, used'')))))"

definition verifyRoundTrip :: "gcmLib \<Rightarrow> keyEnv \<Rightarrow> string \<Rightarrow> string \<Rightarrow> string \<Rightarrow> bool \<Rightarrow> cryptErr option \<times> bool" where
  "verifyRoundTrip lib env sealed pt p used =
     (case decryptFor lib env sealed p used of
        (Inl _, used') \<Rightarrow> (Some RoundTripFailed, used')
      | (Inr got, used') \<Rightarrow> (if got \<noteq> pt then Some RoundTripFailed else None, used'))"

definition encryptFor :: "gcmLib \<Rightarrow> keyEnv \<Rightarrow> string option \<Rightarrow> string \<Rightarrow> string \<Rightarrow> bool \<Rightarrow> (cryptErr + string) \<times> bool" where
  "encryptFor lib env draw pt p used =
     (if p \<notin> knownPurposes then (Inl UnknownPurpose, used)
      else (case loadKey env of
              Inl e \<Rightarrow> (Inl e, used)
            | Inr k \<Rightarrow>
                (case draw of
                   None \<Rightarrow> (Inl NoNonce, used)
                 | Some n \<Rightarrow>
                     if maxPurposeLen < length p then (Inl PurposeTooLong, used)
                     else (let out = frame p (n @ gl_seal lib k n pt p)
                           in case verifyRoundTrip lib env out pt p used of
                                (Some e, used') \<Rightarrow> (Inl e, used')
                              | (None, used') \<Rightarrow> (Inr out, used')))))"

section \<open>Keys are 32 bytes\<close>

lemma hexDecode_length: "hexDecode s = Some r \<Longrightarrow> length s = 2 * length r"
  by (induction s arbitrary: r rule: hexDecode.induct) (auto split: option.splits)

lemma parseKey_length: "parseKey v = Inr k \<Longrightarrow> length k = 32"
  by (auto simp: parseKey_def split: if_splits option.splits)

lemma loadKey_length: "loadKey env = Inr k \<Longrightarrow> length k = 32"
  unfolding loadKey_def by (rule parseKey_length)

lemma loadPreviousKey_length: "loadPreviousKey env = Inr (Some k) \<Longrightarrow> length k = 32"
  by (cases "parseKey (ke_TSM_ENCRYPTION_KEY_PREVIOUS env)") (auto simp: loadPreviousKey_def dest: parseKey_length split: if_splits)

lemma gcm_opens: "gcmLaws lib \<Longrightarrow> length k = 32 \<Longrightarrow> length n = 12 \<Longrightarrow> gl_open lib k n (gl_seal lib k n pt aad) aad = Some pt"
  unfolding gcmLaws_def by blast

lemma gcm_length: "gcmLaws lib \<Longrightarrow> length k = 32 \<Longrightarrow> length n = 12 \<Longrightarrow> length (gl_seal lib k n pt aad) = length pt + 16"
  unfolding gcmLaws_def by blast

lemma gcm_only: "gcmLaws lib \<Longrightarrow> length k = 32 \<Longrightarrow> length n = 12 \<Longrightarrow> gl_open lib k n ct aad = Some pt \<Longrightarrow> ct = gl_seal lib k n pt aad"
  unfolding gcmLaws_def by blast

lemma purpose_lengths: "p \<in> knownPurposes \<Longrightarrow> 0 < length p \<and> length p \<le> maxPurposeLen"
  by (auto simp: knownPurposes_def maxPurposeLen_def PurposeStateSourceCredentials_def PurposeCISourcePAT_def PurposeCISourceClientSecret_def
      PurposeCISourceAppPrivateKey_def PurposePipelineDispatchToken_def PurposeOIDCClientSecret_def PurposeSMTPRelayPassword_def)

lemma frameMagic_length [simp]: "length frameMagic = 8"
  by (simp add: frameMagic_def)

lemma parseFrame_frame:
  assumes "0 < length p" "length p \<le> maxPurposeLen" "28 \<le> length sealed"
  shows "parseFrame (frame p sealed) = Some (p, sealed)"
proof -
  have "of_char (char_of (length p) :: char) = length p" using assms(2) by (simp add: maxPurposeLen_def)
  with assms show ?thesis by (simp add: parseFrame_def frame_def nth_append Let_def)
qed

lemma parseFrame_only:
  assumes "parseFrame ct = Some (p, sealed)"
  shows "ct = frame p sealed" "28 \<le> length sealed"
proof -
  let ?n = "of_char (ct ! 8) :: nat"
  from assms have h: "9 \<le> length ct" "take 8 ct = frameMagic" "9 + ?n + 28 \<le> length ct" "p = take ?n (drop 9 ct)" "sealed = drop (9 + ?n) ct"
    by (auto simp: parseFrame_def Let_def split: if_splits)
  then have p: "length p = ?n" by simp
  have "ct = take 8 ct @ drop 8 ct" by simp
  also have "drop 8 ct = ct ! 8 # drop 9 ct" using h(1) Cons_nth_drop_Suc[of 8 ct] by simp
  also have "drop 9 ct = p @ sealed" unfolding h(4,5) using append_take_drop_id[of ?n "drop 9 ct"] by (simp add: add.commute)
  finally show "ct = frame p sealed" using h(2) p by (simp add: frame_def)
  show "28 \<le> length sealed" using h by simp
qed

section \<open>Opening what was sealed\<close>

definition opensUnder :: "gcmLib \<Rightarrow> keyEnv \<Rightarrow> string \<Rightarrow> string \<Rightarrow> string \<Rightarrow> bool" where
  "opensUnder lib env sealed aad pt = (\<exists>k n. (loadKey env = Inr k \<or> loadPreviousKey env = Inr (Some k)) \<and> length n = 12
     \<and> sealed = n @ gl_seal lib k n pt aad)"

lemma decryptLegacy_openWithAAD: "decryptLegacy lib env ct used = openWithAAD lib env ct [] used"
  unfolding decryptLegacy_def openWithAAD_def Let_def by (rule refl)

lemma openWithAAD_only:
  assumes "gcmLaws lib" "openWithAAD lib env sealed aad used = (Inr pt, used')"
  shows "opensUnder lib env sealed aad pt"
proof -
  obtain k where k: "loadKey env = Inr k" "12 \<le> length sealed"
    using assms(2) by (auto simp: openWithAAD_def split: sum.splits if_splits)
  have n: "length (take 12 sealed) = 12" using k(2) by simp
  obtain j where j: "loadKey env = Inr j \<or> loadPreviousKey env = Inr (Some j)" "gl_open lib j (take 12 sealed) (drop 12 sealed) aad = Some pt"
    using assms(2) k by (auto simp: openWithAAD_def Let_def split: option.splits sum.splits)
  then have "length j = 32" using loadKey_length loadPreviousKey_length by blast
  from gcm_only[OF assms(1) this n j(2)] have "sealed = take 12 sealed @ gl_seal lib j (take 12 sealed) pt aad"
    by (metis append_take_drop_id)
  with j(1) n show ?thesis unfolding opensUnder_def by blast
qed

lemma openWithAAD_sealed:
  assumes "gcmLaws lib" "loadKey env = Inr k" "length n = 12"
  shows "openWithAAD lib env (n @ gl_seal lib k n pt aad) aad used = (Inr pt, used)"
  using gcm_opens[OF assms(1) loadKey_length[OF assms(2)] assms(3)] assms(2,3) by (simp add: openWithAAD_def)

lemma openWithAAD_rotated:
  assumes "gcmLaws lib" "loadKey env = Inr k'" "loadPreviousKey env = Inr (Some k)" "length n = 12"
    "gl_open lib k' n (gl_seal lib k n pt aad) aad = None"
  shows "openWithAAD lib env (n @ gl_seal lib k n pt aad) aad used = (Inr pt, True)"
  using gcm_opens[OF assms(1) loadPreviousKey_length[OF assms(3)] assms(4)] assms by (simp add: openWithAAD_def)

lemma sealed_length:
  assumes "gcmLaws lib" "loadKey env = Inr k" "length n = 12"
  shows "28 \<le> length (n @ gl_seal lib k n pt aad)"
  using gcm_length[OF assms(1) loadKey_length[OF assms(2)] assms(3)] assms(3) by simp

lemma decryptFor_frame:
  assumes "p \<in> knownPurposes" "28 \<le> length sealed" "openWithAAD lib env sealed p used = (Inr pt, used')"
  shows "decryptFor lib env (frame p sealed) p used = (Inr pt, used')"
  using assms parseFrame_frame[of p sealed] purpose_lengths[OF assms(1)] by (simp add: decryptFor_def)

lemma encryptFor_frames:
  assumes "encryptFor lib env (Some n) pt p used = (Inr ct, used')"
  obtains k where "loadKey env = Inr k" "ct = frame p (n @ gl_seal lib k n pt p)" "p \<in> knownPurposes"
  using assms by (auto simp: encryptFor_def Let_def split: if_splits sum.splits option.splits prod.splits)

lemma encryptFor_total:
  assumes "gcmLaws lib" "loadKey env = Inr k" "length n = 12" "p \<in> knownPurposes"
  shows "encryptFor lib env (Some n) pt p used = (Inr (frame p (n @ gl_seal lib k n pt p)), used)"
  using decryptFor_frame[OF assms(4) sealed_length[OF assms(1-3)] openWithAAD_sealed[OF assms(1-3)]]
    assms purpose_lengths[OF assms(4)] by (simp add: encryptFor_def verifyRoundTrip_def Let_def)

text \<open>C22: A secret comes back. With a usable key and a nonce, sealing for a purpose always succeeds; the
  result opens to the same bytes for that purpose wherever the current key is the same, without the
  retiring key, and is refused for every other purpose, whatever the keys are.\<close>

theorem sealed_secrets_reopen:
  assumes "gcmLaws lib" "loadKey env = Inr k" "length n = 12" "p \<in> knownPurposes"
  shows "\<exists>ct. encryptFor lib env (Some n) pt p used = (Inr ct, used) \<and> stampOf ct = Some p
    \<and> (\<forall>env' u. loadKey env' = Inr k \<longrightarrow> decryptFor lib env' ct p u = (Inr pt, u))
    \<and> (\<forall>env' u q. q \<in> knownPurposes \<and> q \<noteq> p \<longrightarrow> decryptFor lib env' ct q u = (Inl PurposeMismatch, u))"
proof (intro exI conjI allI impI)
  let ?sealed = "n @ gl_seal lib k n pt p"
  have parsed: "parseFrame (frame p ?sealed) = Some (p, ?sealed)"
    using parseFrame_frame sealed_length[OF assms(1-3)] purpose_lengths[OF assms(4)] by blast
  show "encryptFor lib env (Some n) pt p used = (Inr (frame p ?sealed), used)" by (rule encryptFor_total[OF assms])
  show "stampOf (frame p ?sealed) = Some p" using parsed assms(4) by (simp add: stampOf_def)
  fix env' u
  show "decryptFor lib env' (frame p ?sealed) p u = (Inr pt, u)" if "loadKey env' = Inr k"
    using decryptFor_frame[OF assms(4) sealed_length[OF assms(1-3)] openWithAAD_sealed[OF assms(1) that assms(3)]] .
  fix q
  show "decryptFor lib env' (frame p ?sealed) q u = (Inl PurposeMismatch, u)" if "q \<in> knownPurposes \<and> q \<noteq> p"
    using parsed assms(4) that by (auto simp: decryptFor_def)
qed

text \<open>Nothing opens but what was sealed for it. A ciphertext that opens for a purpose is the frame of
  a seal bound to that very purpose, or a seal made before purposes existed, under the current or
  the retiring key; one whose frame names another purpose never opens.\<close>

theorem opens_only_what_was_sealed:
  assumes "gcmLaws lib" "decryptFor lib env ct p used = (Inr pt, used')"
  shows "(\<exists>sealed. ct = frame p sealed \<and> opensUnder lib env sealed p pt)
    \<or> (opensUnder lib env ct [] pt \<and> stampOf ct \<in> {None, Some p})"
proof (cases "parseFrame ct")
  case None
  with assms(2) have "openWithAAD lib env ct [] used = (Inr pt, used')"
    by (simp add: decryptFor_def decryptLegacy_openWithAAD split: if_splits)
  from openWithAAD_only[OF assms(1) this] None show ?thesis by (simp add: stampOf_def)
next
  case (Some sb)
  then obtain stamp body where f: "parseFrame ct = Some (stamp, body)" by (cases sb) auto
  with assms(2) have p: "stamp \<in> knownPurposes" "stamp = p" by (auto simp: decryptFor_def split: if_splits)
  show ?thesis
  proof (cases "fst (openWithAAD lib env body p used)")
    case (Inr b)
    with assms(2) f p have "openWithAAD lib env body p used = (Inr pt, used')"
      by (cases "openWithAAD lib env body p used") (auto simp: decryptFor_def)
    from openWithAAD_only[OF assms(1) this] parseFrame_only(1)[OF f] p show ?thesis by blast
  next
    case (Inl e)
    with assms(2) f p obtain u where "openWithAAD lib env ct [] u = (Inr pt, used')"
      by (cases "openWithAAD lib env body p used")
        (auto simp: decryptFor_def decryptLegacy_openWithAAD split: prod.splits sum.splits)
    from openWithAAD_only[OF assms(1) this] f p show ?thesis by (simp add: stampOf_def)
  qed
qed

text \<open>A rotation loses nothing, and re-saving finishes it. A secret sealed under the key that retires
  opens under the new one while the old is configured as the previous key, and sets the flag that
  says it was needed; saved again under the new key it opens without the previous key and leaves
  the flag alone.\<close>

theorem rotation_keeps_secrets:
  assumes "gcmLaws lib" "encryptFor lib old (Some n) pt p used = (Inr ct, used1)" "length n = 12" "loadKey old = Inr k"
    and "loadKey new = Inr k'" "loadPreviousKey new = Inr (Some k)" "gl_open lib k' n (gl_seal lib k n pt p) p = None"
    and "length n' = 12" "loadKey later = Inr k'"
  shows "decryptFor lib new ct p u = (Inr pt, True)
    \<and> (\<exists>ct'. encryptFor lib new (Some n') pt p u = (Inr ct', u) \<and> decryptFor lib later ct' p u = (Inr pt, u))"
proof -
  from assms(2,4) have ct: "ct = frame p (n @ gl_seal lib k n pt p)" "p \<in> knownPurposes" by (auto elim: encryptFor_frames)
  have "decryptFor lib new ct p u = (Inr pt, True)"
    unfolding ct(1)
    by (rule decryptFor_frame[OF ct(2) sealed_length[OF assms(1,4,3)] openWithAAD_rotated[OF assms(1,5,6,3,7)]])
  moreover have "decryptFor lib later (frame p (n' @ gl_seal lib k' n' pt p)) p u = (Inr pt, u)"
    by (rule decryptFor_frame[OF ct(2) sealed_length[OF assms(1,5,8)] openWithAAD_sealed[OF assms(1,9,8)]])
  ultimately show ?thesis using encryptFor_total[OF assms(1,5,8) ct(2)] by blast
qed

section \<open>A cipher and two keys\<close>

text \<open>A tag of the first bytes of the key, the nonce and the associated data in front of the plaintext.\<close>

definition sampleTag :: "string \<Rightarrow> string \<Rightarrow> string" where
  "sampleTag k aad = take 16 (take 8 k @ take 8 aad @ replicate 16 CHR ''.'')"

definition sampleGCM :: gcmLib where
  "sampleGCM = \<lparr>gl_seal = (\<lambda>k n pt aad. sampleTag k aad @ pt),
     gl_open = (\<lambda>k n ct aad. if take 16 ct = sampleTag k aad \<and> 16 \<le> length ct then Some (drop 16 ct) else None)\<rparr>"

lemma sampleTag_length [simp]: "length (sampleTag k aad) = 16"
  by (simp add: sampleTag_def)

lemma sampleGCM_laws: "gcmLaws sampleGCM"
proof -
  have "gl_open sampleGCM k n ct aad = Some pt \<Longrightarrow> ct = gl_seal sampleGCM k n pt aad" for k n ct aad pt
    by (auto simp: sampleGCM_def split: if_splits) (metis append_take_drop_id)
  moreover have "gl_open sampleGCM k n (gl_seal sampleGCM k n pt aad) aad = Some pt" "length (gl_seal sampleGCM k n pt aad) = length pt + 16"
    for k n aad pt by (simp_all add: sampleGCM_def)
  ultimately show ?thesis unfolding gcmLaws_def by blast
qed

definition sampleOldKey :: keyEnv where
  "sampleOldKey = \<lparr>ke_TSM_ENCRYPTION_KEY = replicate 32 CHR ''k'', ke_ENCRYPTION_KEY = [], ke_TSM_ENCRYPTION_KEY_PREVIOUS = []\<rparr>"

definition sampleNewKey :: keyEnv where
  "sampleNewKey = \<lparr>ke_TSM_ENCRYPTION_KEY = replicate 64 CHR ''a'', ke_ENCRYPTION_KEY = [],
     ke_TSM_ENCRYPTION_KEY_PREVIOUS = replicate 32 CHR ''k''\<rparr>"

lemma sample_keys:
  "loadKey sampleOldKey = Inr (replicate 32 CHR ''k'')" "loadKey sampleNewKey = Inr (replicate 32 CHR 0xAA)"
  "loadPreviousKey sampleNewKey = Inr (Some (replicate 32 CHR ''k''))"
  by code_simp+

theorem sealed_secrets_reopen_witness:
  "\<exists>ct. encryptFor sampleGCM sampleOldKey (Some (replicate 12 CHR ''n'')) ''s3cret'' PurposeCISourcePAT False = (Inr ct, False)
     \<and> decryptFor sampleGCM sampleOldKey ct PurposeCISourcePAT False = (Inr ''s3cret'', False)
     \<and> decryptFor sampleGCM sampleOldKey ct PurposeSMTPRelayPassword False = (Inl PurposeMismatch, False)"
proof -
  have "PurposeCISourcePAT \<in> knownPurposes" "PurposeSMTPRelayPassword \<in> knownPurposes" "PurposeSMTPRelayPassword \<noteq> PurposeCISourcePAT"
    by (simp_all add: knownPurposes_def PurposeCISourcePAT_def PurposeSMTPRelayPassword_def)
  with sealed_secrets_reopen[OF sampleGCM_laws sample_keys(1), of "replicate 12 CHR ''n''" PurposeCISourcePAT "''s3cret''" False] sample_keys(1)
  show ?thesis by (metis length_replicate)
qed

theorem opens_only_what_was_sealed_witness:
  "let ct = replicate 12 CHR ''n'' @ gl_seal sampleGCM (replicate 32 CHR ''k'') (replicate 12 CHR ''n'') ''s3cret'' []
   in fst (decryptFor sampleGCM sampleOldKey ct PurposeOIDCClientSecret False) = Inr ''s3cret''
    \<and> stampOf ct = None \<and> opensUnder sampleGCM sampleOldKey ct [] ''s3cret''"
proof -
  let ?ct = "replicate 12 CHR ''n'' @ gl_seal sampleGCM (replicate 32 CHR ''k'') (replicate 12 CHR ''n'') ''s3cret'' []"
  have parsed: "parseFrame ?ct = None" "PurposeOIDCClientSecret \<in> knownPurposes"
    by (simp add: parseFrame_def frameMagic_def, simp add: knownPurposes_def)
  have "decryptFor sampleGCM sampleOldKey ?ct PurposeOIDCClientSecret False = (Inr ''s3cret'', False)"
    using openWithAAD_sealed[OF sampleGCM_laws sample_keys(1)] parsed by (simp add: decryptFor_def decryptLegacy_openWithAAD)
  note opened = this
  have "hd (frame PurposeOIDCClientSecret sealed) \<noteq> hd ?ct" for sealed
    by (simp add: frame_def frameMagic_def numeral_eq_Suc)
  then have "\<not> (\<exists>sealed. ?ct = frame PurposeOIDCClientSecret sealed \<and> opensUnder sampleGCM sampleOldKey sealed PurposeOIDCClientSecret ''s3cret'')"
    by metis
  with opens_only_what_was_sealed[OF sampleGCM_laws opened] have "opensUnder sampleGCM sampleOldKey ?ct [] ''s3cret''" by blast
  with parsed(1) opened show ?thesis by (simp add: Let_def stampOf_def)
qed

theorem rotation_keeps_secrets_witness:
  "\<exists>ct. encryptFor sampleGCM sampleOldKey (Some (replicate 12 CHR ''n'')) ''s3cret'' PurposeSMTPRelayPassword False = (Inr ct, False)
     \<and> decryptFor sampleGCM sampleNewKey ct PurposeSMTPRelayPassword False = (Inr ''s3cret'', True)"
proof -
  let ?n = "replicate 12 CHR ''n''" and ?p = PurposeSMTPRelayPassword
  have n: "length ?n = 12" "?p \<in> knownPurposes" by (simp_all add: knownPurposes_def)
  obtain ct where ct: "encryptFor sampleGCM sampleOldKey (Some ?n) ''s3cret'' ?p False = (Inr ct, False)"
    using encryptFor_total[OF sampleGCM_laws sample_keys(1) n] by blast
  have "gl_open sampleGCM (replicate 32 CHR 0xAA) ?n (gl_seal sampleGCM (replicate 32 CHR ''k'') ?n ''s3cret'' ?p) ?p = None"
    by (simp add: sampleGCM_def sampleTag_def numeral_eq_Suc)
  from rotation_keeps_secrets[OF sampleGCM_laws ct n(1) sample_keys(1) sample_keys(2) sample_keys(3) this n(1) sample_keys(2), of False]
  have "decryptFor sampleGCM sampleNewKey ct ?p False = (Inr ''s3cret'', True)" by blast
  with ct show ?thesis by blast
qed

end
