(* ===== verification/Connections.thy ===== *)
theory Connections
  imports Tenancy Json Secrets
begin

text \<open>
  What a dispatch is made through: \<open>pipeline_repository.go\<close>, \<open>ci_source_repository.go\<close> and their scoped
  halves, the connection handlers of \<open>api/drift.go\<close> and the CI source handlers of \<open>api/ci_sources.go\<close>,
  with the credential each stores, resolves and evicts.

  A connection or CI source column is None where it is NULL, and a secret's bytes are empty where it
  is. Minting a token from a credential and whether text is an RSA key are answers of the shared
  credential library, hence arguments; its cache is keyed by the credential. The acting organization
  is an argument, empty where it was refused. The flag \<open>previousKeyUsed\<close> is a report and left out.
\<close>

section \<open>Secrets of a row\<close>

record cryptoEnv =
  cy_lib :: gcmLib
  cy_keys :: keyEnv
  cy_draw :: "string option"

abbreviation sealValue :: "cryptoEnv \<Rightarrow> string \<Rightarrow> string \<Rightarrow> cryptErr + string" where
  "sealValue cy pt p \<equiv> fst (encryptFor (cy_lib cy) (cy_keys cy) (cy_draw cy) pt p False)"

abbreviation openValue :: "cryptoEnv \<Rightarrow> string \<Rightarrow> string \<Rightarrow> cryptErr + string" where
  "openValue cy ct p \<equiv> fst (decryptFor (cy_lib cy) (cy_keys cy) ct p False)"

text \<open>What was sealed opens again under the same keys: sealing checks it.\<close>

lemma sealed_opens: "sealValue cy pt p = Inr ct \<Longrightarrow> openValue cy ct p = Inr pt \<and> ct \<noteq> []"
  by (auto simp: encryptFor_def Let_def verifyRoundTrip_def frame_def frameMagic_def
      split: if_splits sum.splits option.splits prod.splits)

section \<open>Pipeline connections\<close>

record pipelineConnection =
  pc_ID :: string
  pc_Name :: string
  pc_Provider :: string
  pc_Config :: "json gomap"
  pc_EncryptedToken :: string
  pc_CreatedAt :: int
  pc_UpdatedAt :: int
  pc_Org :: "string option"

datatype connErr = ConnNoOrganization | ConnNotInScope | ConnStatementFailed

definition configStr :: "string \<Rightarrow> json gomap \<Rightarrow> string" where
  "configStr k m = (case oget k m of Some (JStr s) \<Rightarrow> s | _ \<Rightarrow> [])"

definition fanOutConfigIsValid :: "json gomap \<Rightarrow> bool" where
  "fanOutConfigIsValid m = (case oget ''fan_out'' m of None \<Rightarrow> True | Some (JBool b) \<Rightarrow> True | Some _ \<Rightarrow> False)"

definition listConnections :: "pipelineConnection list \<Rightarrow> pipelineConnection list" where
  "listConnections = sort_key (\<lambda>p. - pc_CreatedAt p)"

definition listConnectionsInScope :: "scope \<Rightarrow> pipelineConnection list \<Rightarrow> pipelineConnection list" where
  "listConnectionsInScope = readInScope [] listConnections
     (\<lambda>ids t. sort_key (\<lambda>p. - pc_CreatedAt p) (filter (\<lambda>p. anyOrg ids (pc_Org p)) t))"

definition getConnection :: "string \<Rightarrow> pipelineConnection list \<Rightarrow> pipelineConnection option" where
  "getConnection i = List.find (\<lambda>p. pc_ID p = i)"

definition getConnectionInScope :: "string \<Rightarrow> scope \<Rightarrow> pipelineConnection list \<Rightarrow> pipelineConnection option" where
  "getConnectionInScope i = readInScope None (getConnection i) (\<lambda>ids. List.find (\<lambda>p. anyOrg ids (pc_Org p) \<and> pc_ID p = i))"

definition createConnection ::
    "bool \<Rightarrow> int \<Rightarrow> string \<Rightarrow> pipelineConnection \<Rightarrow> string \<Rightarrow> pipelineConnection list \<Rightarrow>
     (connErr + pipelineConnection) \<times> pipelineConnection list" where
  "createConnection fails now newID p org t =
     (if trimSpace org = [] then (Inl ConnNoOrganization, t)
      else if fails then (Inl ConnStatementFailed, t)
      else (let r = p\<lparr>pc_ID := newID, pc_CreatedAt := now, pc_UpdatedAt := now, pc_Org := Some (trimSpace org)\<rparr>
            in (Inr r, t @ [r])))"

definition editConnection :: "int \<Rightarrow> pipelineConnection \<Rightarrow> bool \<Rightarrow> pipelineConnection \<Rightarrow> pipelineConnection" where
  "editConnection now p updateToken r =
     r\<lparr>pc_Name := pc_Name p, pc_Config := pc_Config p,
       pc_EncryptedToken := if updateToken then pc_EncryptedToken p else pc_EncryptedToken r, pc_UpdatedAt := now\<rparr>"

definition updateConnectionWhere ::
    "bool \<Rightarrow> int \<Rightarrow> pipelineConnection \<Rightarrow> bool \<Rightarrow> (pipelineConnection \<Rightarrow> bool) \<Rightarrow> pipelineConnection list \<Rightarrow>
     (connErr + pipelineConnection option) \<times> pipelineConnection list" where
  "updateConnectionWhere fails now p updateToken q t =
     (if fails then (Inl ConnStatementFailed, t)
      else (Inr (map_option (editConnection now p updateToken) (List.find (\<lambda>r. pc_ID r = pc_ID p \<and> q r) t)),
            snd (updateWhere (\<lambda>r. pc_ID r = pc_ID p \<and> q r) (editConnection now p updateToken) t)))"

definition updateConnectionInScope ::
    "bool \<Rightarrow> int \<Rightarrow> pipelineConnection \<Rightarrow> bool \<Rightarrow> scope \<Rightarrow> pipelineConnection list \<Rightarrow>
     (connErr + pipelineConnection option) \<times> pipelineConnection list" where
  "updateConnectionInScope fails now p updateToken =
     writeInScope (Inl ConnNotInScope) (updateConnectionWhere fails now p updateToken (\<lambda>_. True))
       (\<lambda>ids. updateConnectionWhere fails now p updateToken (\<lambda>r. anyOrg ids (pc_Org r)))"

definition deleteConnectionInScope ::
    "bool \<Rightarrow> string \<Rightarrow> scope \<Rightarrow> pipelineConnection list \<Rightarrow> (connErr + bool) \<times> pipelineConnection list" where
  "deleteConnectionInScope fails i =
     writeInScope (Inl ConnNotInScope)
       (\<lambda>t. if fails then (Inl ConnStatementFailed, t) else (Inr True, snd (deleteRows (\<lambda>r. pc_ID r = i) t)))
       (\<lambda>ids t. if fails then (Inl ConnStatementFailed, t)
                else (case deleteRows (\<lambda>r. pc_ID r = i \<and> anyOrg ids (pc_Org r)) t of (n, t') \<Rightarrow> (Inr (0 < n), t')))"

section \<open>CI sources\<close>

record ciSourceRow =
  ci_ID :: string
  ci_Name :: string
  ci_Provider :: string
  ci_Organization :: string
  ci_Project :: "string option"
  ci_AuthMethod :: string
  ci_EncryptedToken :: string
  ci_TenantID :: "string option"
  ci_ClientID :: "string option"
  ci_EncryptedClientSecret :: string
  ci_GithubAppID :: "string option"
  ci_GithubInstallationID :: "string option"
  ci_EncryptedAppPrivateKey :: string
  ci_CreatedAt :: int
  ci_UpdatedAt :: int
  ci_Org :: "string option"

definition listCISources :: "ciSourceRow list \<Rightarrow> ciSourceRow list" where
  "listCISources = sort_key ci_Name"

definition listCISourcesInScope :: "scope \<Rightarrow> ciSourceRow list \<Rightarrow> ciSourceRow list" where
  "listCISourcesInScope = readInScope [] listCISources (\<lambda>ids t. sort_key ci_Name (filter (\<lambda>s. anyOrg ids (ci_Org s)) t))"

definition getCISource :: "string \<Rightarrow> ciSourceRow list \<Rightarrow> ciSourceRow option" where
  "getCISource i = List.find (\<lambda>s. ci_ID s = i)"

definition getCISourceInScope :: "string \<Rightarrow> scope \<Rightarrow> ciSourceRow list \<Rightarrow> ciSourceRow option" where
  "getCISourceInScope i = readInScope None (getCISource i) (\<lambda>ids. List.find (\<lambda>s. anyOrg ids (ci_Org s) \<and> ci_ID s = i))"

definition createCISource ::
    "bool \<Rightarrow> int \<Rightarrow> string \<Rightarrow> ciSourceRow \<Rightarrow> string \<Rightarrow> ciSourceRow list \<Rightarrow> (connErr + ciSourceRow) \<times> ciSourceRow list" where
  "createCISource fails now newID s org t =
     (if trimSpace org = [] then (Inl ConnNoOrganization, t)
      else if fails then (Inl ConnStatementFailed, t)
      else (let r = s\<lparr>ci_ID := newID, ci_AuthMethod := (if ci_AuthMethod s = [] then ''pat'' else ci_AuthMethod s),
                      ci_CreatedAt := now, ci_UpdatedAt := now, ci_Org := Some (trimSpace org)\<rparr>
            in (Inr r, t @ [r])))"

text \<open>\<open>ciSourceUpdateSet\<close>: every column of the credential, never the provider.\<close>

definition editCISource :: "int \<Rightarrow> ciSourceRow \<Rightarrow> ciSourceRow \<Rightarrow> ciSourceRow" where
  "editCISource now s r =
     r\<lparr>ci_Name := ci_Name s, ci_Organization := ci_Organization s, ci_Project := ci_Project s, ci_AuthMethod := ci_AuthMethod s,
       ci_EncryptedToken := ci_EncryptedToken s, ci_TenantID := ci_TenantID s, ci_ClientID := ci_ClientID s,
       ci_EncryptedClientSecret := ci_EncryptedClientSecret s, ci_GithubAppID := ci_GithubAppID s,
       ci_GithubInstallationID := ci_GithubInstallationID s, ci_EncryptedAppPrivateKey := ci_EncryptedAppPrivateKey s,
       ci_UpdatedAt := now\<rparr>"

definition updateCISourceWhere ::
    "bool \<Rightarrow> int \<Rightarrow> ciSourceRow \<Rightarrow> (ciSourceRow \<Rightarrow> bool) \<Rightarrow> ciSourceRow list \<Rightarrow> (connErr + ciSourceRow option) \<times> ciSourceRow list" where
  "updateCISourceWhere fails now s q t =
     (if fails then (Inl ConnStatementFailed, t)
      else (Inr (map_option (editCISource now s) (List.find (\<lambda>r. ci_ID r = ci_ID s \<and> q r) t)),
            snd (updateWhere (\<lambda>r. ci_ID r = ci_ID s \<and> q r) (editCISource now s) t)))"

definition updateCISourceInScope ::
    "bool \<Rightarrow> int \<Rightarrow> ciSourceRow \<Rightarrow> scope \<Rightarrow> ciSourceRow list \<Rightarrow> (connErr + ciSourceRow option) \<times> ciSourceRow list" where
  "updateCISourceInScope fails now s =
     writeInScope (Inl ConnNotInScope) (updateCISourceWhere fails now s (\<lambda>_. True))
       (\<lambda>ids. updateCISourceWhere fails now s (\<lambda>r. anyOrg ids (ci_Org r)))"

definition deleteCISourceInScope :: "bool \<Rightarrow> string \<Rightarrow> scope \<Rightarrow> ciSourceRow list \<Rightarrow> (connErr + bool) \<times> ciSourceRow list" where
  "deleteCISourceInScope fails i =
     writeInScope (Inl ConnNotInScope)
       (\<lambda>t. if fails then (Inl ConnStatementFailed, t) else (Inr True, snd (deleteRows (\<lambda>r. ci_ID r = i) t)))
       (\<lambda>ids t. if fails then (Inl ConnStatementFailed, t)
                else (case deleteRows (\<lambda>r. ci_ID r = i \<and> anyOrg ids (ci_Org r)) t of (n, t') \<Rightarrow> (Inr (0 < n), t')))"

section \<open>The credential of a CI source\<close>

record ciSourceRequest =
  cq_Name :: string
  cq_Provider :: string
  cq_Organization :: string
  cq_Project :: string
  cq_AuthMethod :: string
  cq_Token :: string
  cq_TenantID :: string
  cq_ClientID :: string
  cq_ClientSecret :: string
  cq_GithubAppID :: string
  cq_GithubInstallationID :: string
  cq_AppPrivateKey :: string

datatype authMethodErr = AuthBadRequest | AuthServerErr

definition applyCISourceAuthMethod ::
    "cryptoEnv \<Rightarrow> (string \<Rightarrow> bool) \<Rightarrow> ciSourceRow \<Rightarrow> ciSourceRequest \<Rightarrow> authMethodErr + ciSourceRow" where
  "applyCISourceAuthMethod cy isRSAKey src req =
     (if cq_AuthMethod req = ''pat'' then
        (if cq_Token req = [] then Inl AuthBadRequest
         else (case sealValue cy (cq_Token req) PurposeCISourcePAT of
                 Inl _ \<Rightarrow> Inl AuthServerErr
               | Inr enc \<Rightarrow> Inr (src\<lparr>ci_EncryptedToken := enc\<rparr>)))
      else if cq_AuthMethod req = ''app'' then
        (if cq_Provider req = ''azure_devops'' then
           (let tenant = trimSpace (cq_TenantID req); client = trimSpace (cq_ClientID req)
            in if tenant = [] \<or> client = [] \<or> cq_ClientSecret req = [] then Inl AuthBadRequest
               else (case sealValue cy (cq_ClientSecret req) PurposeCISourceClientSecret of
                       Inl _ \<Rightarrow> Inl AuthServerErr
                     | Inr enc \<Rightarrow> Inr (src\<lparr>ci_EncryptedClientSecret := enc, ci_TenantID := Some tenant, ci_ClientID := Some client\<rparr>)))
         else if cq_Provider req = ''github_actions'' then
           (let app = trimSpace (cq_GithubAppID req); inst = trimSpace (cq_GithubInstallationID req)
            in if app = [] \<or> inst = [] \<or> trimSpace (cq_AppPrivateKey req) = [] then Inl AuthBadRequest
               else if \<not> isRSAKey (cq_AppPrivateKey req) then Inl AuthBadRequest
               else (case sealValue cy (cq_AppPrivateKey req) PurposeCISourceAppPrivateKey of
                       Inl _ \<Rightarrow> Inl AuthServerErr
                     | Inr enc \<Rightarrow> Inr (src\<lparr>ci_EncryptedAppPrivateKey := enc, ci_GithubAppID := Some app,
                                           ci_GithubInstallationID := Some inst\<rparr>)))
         else Inl AuthBadRequest)
      else if cq_AuthMethod req = ''workload_identity'' then
        (if cq_Provider req \<noteq> ''azure_devops'' then Inl AuthBadRequest
         else (let client = trimSpace (cq_ClientID req)
               in if client = [] then Inl AuthBadRequest else Inr (src\<lparr>ci_ClientID := Some client\<rparr>)))
      else Inl AuthBadRequest)"

text \<open>The credential a token is minted with, and what its cache entry is filed under.\<close>

datatype ciCreds = EntraCreds string string string | GitHubAppCreds string string string | WorkloadIdentityCreds string

datatype sourceTokenErr = SecretNotOpened cryptErr | MethodNotSupported | MintFailed

definition ptrStr :: "string option \<Rightarrow> string" where
  "ptrStr p = (case p of None \<Rightarrow> [] | Some s \<Rightarrow> s)"

definition mintFor :: "(ciCreds \<Rightarrow> string option) \<Rightarrow> ciCreds \<Rightarrow> sourceTokenErr + string" where
  "mintFor mint c = (case mint c of None \<Rightarrow> Inl MintFailed | Some tok \<Rightarrow> Inr tok)"

definition sourceToken :: "cryptoEnv \<Rightarrow> (ciCreds \<Rightarrow> string option) \<Rightarrow> ciSourceRow \<Rightarrow> sourceTokenErr + string" where
  "sourceToken cy mint src =
     (if ci_AuthMethod src = ''app'' then
        (if ci_Provider src = ''azure_devops'' then
           (case openValue cy (ci_EncryptedClientSecret src) PurposeCISourceClientSecret of
              Inl e \<Rightarrow> Inl (SecretNotOpened e)
            | Inr secret \<Rightarrow> mintFor mint (EntraCreds (ptrStr (ci_TenantID src)) (ptrStr (ci_ClientID src)) secret))
         else if ci_Provider src = ''github_actions'' then
           (case openValue cy (ci_EncryptedAppPrivateKey src) PurposeCISourceAppPrivateKey of
              Inl e \<Rightarrow> Inl (SecretNotOpened e)
            | Inr key \<Rightarrow> mintFor mint (GitHubAppCreds (ptrStr (ci_GithubAppID src)) (ptrStr (ci_GithubInstallationID src)) key))
         else Inl MethodNotSupported)
      else if ci_AuthMethod src = ''workload_identity'' then
        (if ci_Provider src \<noteq> ''azure_devops'' then Inl MethodNotSupported
         else mintFor mint (WorkloadIdentityCreds (trimSpace (ptrStr (ci_ClientID src)))))
      else (case openValue cy (ci_EncryptedToken src) PurposeCISourcePAT of
              Inl e \<Rightarrow> Inl (SecretNotOpened e)
            | Inr pt \<Rightarrow> Inr pt))"

definition adoBearerMethod :: "string \<Rightarrow> bool" where
  "adoBearerMethod m = (m = ''app'' \<or> m = ''workload_identity'')"

text \<open>\<open>evictCachedCIToken\<close>: the credential whose cache entry goes, if any.\<close>

definition evictCachedCIToken :: "cryptoEnv \<Rightarrow> ciSourceRow \<Rightarrow> ciCreds option" where
  "evictCachedCIToken cy src =
     (if ci_AuthMethod src = ''app'' then
        (if ci_Provider src = ''azure_devops'' then
           (if ci_EncryptedClientSecret src = [] then None
            else (case openValue cy (ci_EncryptedClientSecret src) PurposeCISourceClientSecret of
                    Inl _ \<Rightarrow> None
                  | Inr secret \<Rightarrow> Some (EntraCreds (ptrStr (ci_TenantID src)) (ptrStr (ci_ClientID src)) secret)))
         else if ci_Provider src = ''github_actions'' then
           (if ci_EncryptedAppPrivateKey src = [] then None
            else (case openValue cy (ci_EncryptedAppPrivateKey src) PurposeCISourceAppPrivateKey of
                    Inl _ \<Rightarrow> None
                  | Inr key \<Rightarrow> Some (GitHubAppCreds (ptrStr (ci_GithubAppID src)) (ptrStr (ci_GithubInstallationID src)) key)))
         else None)
      else if ci_AuthMethod src = ''workload_identity'' then Some (WorkloadIdentityCreds (ptrStr (ci_ClientID src)))
      else None)"

section \<open>CI source requests\<close>

text \<open>\<open>ciSourceJSON\<close>: of a secret only whether there is one.\<close>

record ciSourceView =
  cv_ID :: string
  cv_Name :: string
  cv_Provider :: string
  cv_Organization :: string
  cv_Project :: "string option"
  cv_AuthMethod :: string
  cv_HasToken :: bool
  cv_TenantID :: "string option"
  cv_ClientID :: "string option"
  cv_HasClientSecret :: bool
  cv_GithubAppID :: "string option"
  cv_GithubInstallationID :: "string option"
  cv_HasAppPrivateKey :: bool
  cv_CreatedAt :: int
  cv_UpdatedAt :: int

definition ciSourceJSON :: "ciSourceRow \<Rightarrow> ciSourceView" where
  "ciSourceJSON s = \<lparr>cv_ID = ci_ID s, cv_Name = ci_Name s, cv_Provider = ci_Provider s, cv_Organization = ci_Organization s,
     cv_Project = ci_Project s, cv_AuthMethod = (if ci_AuthMethod s = [] then ''pat'' else ci_AuthMethod s),
     cv_HasToken = (ci_EncryptedToken s \<noteq> []), cv_TenantID = ci_TenantID s, cv_ClientID = ci_ClientID s,
     cv_HasClientSecret = (ci_EncryptedClientSecret s \<noteq> []), cv_GithubAppID = ci_GithubAppID s,
     cv_GithubInstallationID = ci_GithubInstallationID s, cv_HasAppPrivateKey = (ci_EncryptedAppPrivateKey s \<noteq> []),
     cv_CreatedAt = ci_CreatedAt s, cv_UpdatedAt = ci_UpdatedAt s\<rparr>"

datatype ciReply = CISource ciSourceView | CISources "ciSourceView list" | CIBad | CINotFound | CIServerError | CIRefusedOrganization | CIDeleted

record connFaults =
  cf_load :: bool
  cf_write :: bool
  cf_reference :: bool

definition listCISourcesH :: "connFaults \<Rightarrow> scope \<Rightarrow> ciSourceRow list \<Rightarrow> ciReply" where
  "listCISourcesH flt sc t = (if cf_load flt then CIServerError else CISources (map ciSourceJSON (listCISourcesInScope sc t)))"

text \<open>The request with its fields trimmed and its method defaulted.\<close>

definition cleanRequest :: "ciSourceRequest \<Rightarrow> ciSourceRequest" where
  "cleanRequest req =
     req\<lparr>cq_Name := trimSpace (cq_Name req), cq_Organization := trimSpace (cq_Organization req), cq_Project := trimSpace (cq_Project req),
         cq_AuthMethod := (let m = trimSpace (cq_AuthMethod req) in if m = [] then ''pat'' else m)\<rparr>"

definition validRequest :: "ciSourceRequest \<Rightarrow> bool" where
  "validRequest req =
     (cq_Name req \<noteq> [] \<and> cq_Organization req \<noteq> []
      \<and> (cq_Provider req = ''github_actions'' \<or> (cq_Provider req = ''azure_devops'' \<and> cq_Project req \<noteq> [])))"

text \<open>The row of a request, without a credential.\<close>

definition requestRow :: "string \<Rightarrow> ciSourceRequest \<Rightarrow> ciSourceRow" where
  "requestRow i req = \<lparr>ci_ID = i, ci_Name = cq_Name req, ci_Provider = cq_Provider req, ci_Organization = cq_Organization req,
     ci_Project = (if cq_Project req = [] then None else Some (cq_Project req)), ci_AuthMethod = cq_AuthMethod req,
     ci_EncryptedToken = [], ci_TenantID = None, ci_ClientID = None, ci_EncryptedClientSecret = [], ci_GithubAppID = None,
     ci_GithubInstallationID = None, ci_EncryptedAppPrivateKey = [], ci_CreatedAt = 0, ci_UpdatedAt = 0, ci_Org = None\<rparr>"

definition createCISourceH ::
    "cryptoEnv \<Rightarrow> (string \<Rightarrow> bool) \<Rightarrow> int \<Rightarrow> connFaults \<Rightarrow> string \<Rightarrow> ciSourceRequest \<Rightarrow> string \<Rightarrow> ciSourceRow list \<Rightarrow>
     ciReply \<times> ciSourceRow list" where
  "createCISourceH cy isRSAKey now flt newID req0 org t =
     (let req = cleanRequest req0
      in if \<not> validRequest req then (CIBad, t)
         else (case applyCISourceAuthMethod cy isRSAKey (requestRow [] req) req of
                 Inl AuthServerErr \<Rightarrow> (CIServerError, t)
               | Inl AuthBadRequest \<Rightarrow> (CIBad, t)
               | Inr src \<Rightarrow>
                   if org = [] then (CIRefusedOrganization, t)
                   else (case createCISource (cf_write flt) now newID src org t of
                           (Inl _, t') \<Rightarrow> (CIServerError, t')
                         | (Inr saved, t') \<Rightarrow> (CISource (ciSourceJSON saved), t'))))"

text \<open>\<open>UpdateCISource\<close>: also the credential whose cached token is evicted.\<close>

definition updateCISourceH ::
    "cryptoEnv \<Rightarrow> (string \<Rightarrow> bool) \<Rightarrow> int \<Rightarrow> connFaults \<Rightarrow> string \<Rightarrow> ciSourceRequest \<Rightarrow> scope \<Rightarrow> ciSourceRow list \<Rightarrow>
     ciReply \<times> ciSourceRow list \<times> ciCreds option" where
  "updateCISourceH cy isRSAKey now flt i req0 sc t =
     (if cf_load flt then (CIServerError, t, None)
      else (case getCISourceInScope i sc t of
              None \<Rightarrow> (CINotFound, t, None)
            | Some existing \<Rightarrow>
                (let req = cleanRequest req0
                 in if cq_Name req = [] \<or> cq_Organization req = [] then (CIBad, t, None)
                    else if cq_Provider req \<noteq> ci_Provider existing then (CIBad, t, None)
                    else if \<not> validRequest req then (CIBad, t, None)
                    else (case applyCISourceAuthMethod cy isRSAKey (requestRow i req) req of
                            Inl AuthServerErr \<Rightarrow> (CIServerError, t, None)
                          | Inl AuthBadRequest \<Rightarrow> (CIBad, t, None)
                          | Inr src \<Rightarrow>
                              (case updateCISourceInScope (cf_write flt) now src sc t of
                                 (Inl ConnNotInScope, t') \<Rightarrow> (CINotFound, t', None)
                               | (Inr None, t') \<Rightarrow> (CINotFound, t', None)
                               | (Inl _, t') \<Rightarrow> (CIServerError, t', None)
                               | (Inr (Some saved), t') \<Rightarrow> (CISource (ciSourceJSON saved), t', evictCachedCIToken cy existing))))))"

definition deleteCISourceH :: "connFaults \<Rightarrow> string \<Rightarrow> scope \<Rightarrow> ciSourceRow list \<Rightarrow> ciReply \<times> ciSourceRow list" where
  "deleteCISourceH flt i sc t =
     (case deleteCISourceInScope (cf_write flt) i sc t of
        (Inl ConnNotInScope, t') \<Rightarrow> (CINotFound, t')
      | (Inl _, t') \<Rightarrow> (CIServerError, t')
      | (Inr False, t') \<Rightarrow> (CINotFound, t')
      | (Inr True, t') \<Rightarrow> (CIDeleted, t'))"

section \<open>Connection requests\<close>

datatype pipelineReply = Pipeline pipelineConnection | Pipelines "pipelineConnection list" | PipelineBad | PipelineMissing
  | PipelineServerError | PipelineRefusedOrganization | PipelineDeleted

record pipelineRequest =
  pq_Name :: string
  pq_Provider :: string
  pq_Config :: "json gomap"
  pq_Token :: string

definition ciSourceReferenceInOrganization ::
    "connFaults \<Rightarrow> ciSourceRow list \<Rightarrow> json gomap \<Rightarrow> string \<Rightarrow> pipelineReply option" where
  "ciSourceReferenceInOrganization flt srcs cfg org =
     (let ref = configStr ''ci_source_id'' cfg
      in if trimSpace ref = [] then None
         else if cf_reference flt then Some PipelineServerError
         else (case getCISourceInScope ref (organizationScope org) srcs of None \<Rightarrow> Some PipelineBad | Some _ \<Rightarrow> None))"

text \<open>The token as it is stored: left where none is given, None with the refusal.\<close>

definition sealToken :: "cryptoEnv \<Rightarrow> string \<Rightarrow> pipelineReply + string" where
  "sealToken cy tok =
     (if tok = [] then Inr []
      else if \<not> available (cy_keys cy) then Inl PipelineBad
      else (case sealValue cy tok PurposePipelineDispatchToken of
              Inl _ \<Rightarrow> Inl PipelineServerError
            | Inr enc \<Rightarrow> Inr enc))"

definition listPipelinesH :: "connFaults \<Rightarrow> scope \<Rightarrow> pipelineConnection list \<Rightarrow> pipelineReply" where
  "listPipelinesH flt sc t = (if cf_load flt then PipelineServerError else Pipelines (listConnectionsInScope sc t))"

definition createPipelineH ::
    "cryptoEnv \<Rightarrow> int \<Rightarrow> connFaults \<Rightarrow> string \<Rightarrow> ciSourceRow list \<Rightarrow> pipelineRequest \<Rightarrow> string \<Rightarrow> pipelineConnection list \<Rightarrow>
     pipelineReply \<times> pipelineConnection list" where
  "createPipelineH cy now flt newID srcs req org t =
     (if pq_Name req = [] \<or> pq_Provider req = [] then (PipelineBad, t)
      else if pq_Provider req \<noteq> ''github_actions'' \<and> pq_Provider req \<noteq> ''azure_devops'' then (PipelineBad, t)
      else if \<not> fanOutConfigIsValid (pq_Config req) then (PipelineBad, t)
      else (case sealToken cy (pq_Token req) of
              Inl r \<Rightarrow> (r, t)
            | Inr enc \<Rightarrow>
                if org = [] then (PipelineRefusedOrganization, t)
                else (case ciSourceReferenceInOrganization flt srcs (pq_Config req) org of
                        Some r \<Rightarrow> (r, t)
                      | None \<Rightarrow>
                          (case createConnection (cf_write flt) now newID
                                  \<lparr>pc_ID = [], pc_Name = pq_Name req, pc_Provider = pq_Provider req, pc_Config = pq_Config req,
                                   pc_EncryptedToken = enc, pc_CreatedAt = 0, pc_UpdatedAt = 0, pc_Org = None\<rparr> org t of
                             (Inl _, t') \<Rightarrow> (PipelineServerError, t')
                           | (Inr saved, t') \<Rightarrow> (Pipeline saved, t')))))"

definition updatePipelineH ::
    "cryptoEnv \<Rightarrow> int \<Rightarrow> connFaults \<Rightarrow> string \<Rightarrow> ciSourceRow list \<Rightarrow> pipelineRequest \<Rightarrow> scope \<Rightarrow> pipelineConnection list \<Rightarrow>
     pipelineReply \<times> pipelineConnection list" where
  "updatePipelineH cy now flt i srcs req sc t =
     (if pq_Name req = [] then (PipelineBad, t)
      else if \<not> fanOutConfigIsValid (pq_Config req) then (PipelineBad, t)
      else (case sealToken cy (pq_Token req) of
              Inl r \<Rightarrow> (r, t)
            | Inr enc \<Rightarrow>
                if cf_load flt then (PipelineServerError, t)
                else (case getConnectionInScope i sc t of
                        None \<Rightarrow> (PipelineMissing, t)
                      | Some existing \<Rightarrow>
                          (case ciSourceReferenceInOrganization flt srcs (pq_Config req) (orgText (pc_Org existing)) of
                             Some r \<Rightarrow> (r, t)
                           | None \<Rightarrow>
                               (case updateConnectionInScope (cf_write flt) now
                                       \<lparr>pc_ID = i, pc_Name = pq_Name req, pc_Provider = [], pc_Config = pq_Config req,
                                        pc_EncryptedToken = enc, pc_CreatedAt = 0, pc_UpdatedAt = 0, pc_Org = None\<rparr>
                                       (pq_Token req \<noteq> []) sc t of
                                  (Inl ConnNotInScope, t') \<Rightarrow> (PipelineMissing, t')
                                | (Inl _, t') \<Rightarrow> (PipelineServerError, t')
                                | (Inr None, t') \<Rightarrow> (PipelineMissing, t')
                                | (Inr (Some saved), t') \<Rightarrow> (Pipeline saved, t'))))))"

definition deletePipelineH :: "connFaults \<Rightarrow> string \<Rightarrow> scope \<Rightarrow> pipelineConnection list \<Rightarrow> pipelineReply \<times> pipelineConnection list" where
  "deletePipelineH flt i sc t =
     (case deleteConnectionInScope (cf_write flt) i sc t of
        (Inl ConnNotInScope, t') \<Rightarrow> (PipelineMissing, t')
      | (Inl _, t') \<Rightarrow> (PipelineServerError, t')
      | (Inr False, t') \<Rightarrow> (PipelineMissing, t')
      | (Inr True, t') \<Rightarrow> (PipelineDeleted, t'))"

section \<open>The scoped statements keep to their organization\<close>

lemma edit_keeps [simp]:
  "pc_ID (editConnection now p b r) = pc_ID r" "pc_Org (editConnection now p b r) = pc_Org r" "pc_Provider (editConnection now p b r) = pc_Provider r"
  "ci_ID (editCISource now s c) = ci_ID c" "ci_Org (editCISource now s c) = ci_Org c" "ci_Provider (editCISource now s c) = ci_Provider c"
  by (simp_all add: editConnection_def editCISource_def)

interpretation listConnections: scoped_reader pc_Org "[]" listConnections
    "\<lambda>ids t. sort_key (\<lambda>p. - pc_CreatedAt p) (filter (\<lambda>p. anyOrg ids (pc_Org p)) t)"
  by unfold_locales (simp_all add: listConnections_def)

interpretation getConnection: scoped_reader pc_Org None "getConnection i" "\<lambda>ids. List.find (\<lambda>p. anyOrg ids (pc_Org p) \<and> pc_ID p = i)" for i
  by unfold_locales (simp_all add: getConnection_def find_filter)

interpretation updateConnection: scoped_writer pc_Org "updateConnectionWhere fails now p b (\<lambda>_. True)"
    "\<lambda>ids. updateConnectionWhere fails now p b (\<lambda>r. anyOrg ids (pc_Org r))" for fails now p b
  by unfold_locales (auto simp: updateConnectionWhere_def intro!: updateWhere_others)

interpretation deleteConnection: scoped_writer pc_Org
    "\<lambda>t. if fails then (Inl ConnStatementFailed, t) else (Inr True, snd (deleteRows (\<lambda>r. pc_ID r = i) t))"
    "\<lambda>ids t. if fails then (Inl ConnStatementFailed, t)
       else (case deleteRows (\<lambda>r. pc_ID r = i \<and> anyOrg ids (pc_Org r)) t of (n, t') \<Rightarrow> (Inr (0 < n), t'))" for fails i
  by unfold_locales (auto simp: case_prod_beta intro!: deleteRows_others)

interpretation listCISources: scoped_reader ci_Org "[]" listCISources "\<lambda>ids t. sort_key ci_Name (filter (\<lambda>s. anyOrg ids (ci_Org s)) t)"
  by unfold_locales (simp_all add: listCISources_def)

interpretation getCISource: scoped_reader ci_Org None "getCISource i" "\<lambda>ids. List.find (\<lambda>s. anyOrg ids (ci_Org s) \<and> ci_ID s = i)" for i
  by unfold_locales (simp_all add: getCISource_def find_filter)

interpretation updateCISource: scoped_writer ci_Org "updateCISourceWhere fails now s (\<lambda>_. True)"
    "\<lambda>ids. updateCISourceWhere fails now s (\<lambda>r. anyOrg ids (ci_Org r))" for fails now s
  by unfold_locales (auto simp: updateCISourceWhere_def intro!: updateWhere_others)

interpretation deleteCISource: scoped_writer ci_Org
    "\<lambda>t. if fails then (Inl ConnStatementFailed, t) else (Inr True, snd (deleteRows (\<lambda>r. ci_ID r = i) t))"
    "\<lambda>ids t. if fails then (Inl ConnStatementFailed, t)
       else (case deleteRows (\<lambda>r. ci_ID r = i \<and> anyOrg ids (ci_Org r)) t of (n, t') \<Rightarrow> (Inr (0 < n), t'))" for fails i
  by unfold_locales (auto simp: case_prod_beta intro!: deleteRows_others)

lemma getConnectionInScope_row:
  assumes "getConnectionInScope i sc t = Some p"
  shows "p \<in> set t" "pc_ID p = i" "reaches sc (pc_Org p)"
proof -
  from assms have "getConnection i (filter (\<lambda>r. reaches sc (pc_Org r)) t) = Some p"
    unfolding getConnectionInScope_def by (simp only: getConnection.reads_reached)
  then have "List.find (\<lambda>p. pc_ID p = i) (filter (\<lambda>r. reaches sc (pc_Org r)) t) = Some p"
    by (simp only: getConnection_def)
  from find_SomeD[OF this] show "p \<in> set t" "pc_ID p = i" "reaches sc (pc_Org p)" by simp_all
qed

lemma getCISourceInScope_row:
  assumes "getCISourceInScope i sc t = Some s"
  shows "s \<in> set t" "ci_ID s = i" "reaches sc (ci_Org s)"
proof -
  from assms have "getCISource i (filter (\<lambda>r. reaches sc (ci_Org r)) t) = Some s"
    unfolding getCISourceInScope_def by (simp only: getCISource.reads_reached)
  then have "List.find (\<lambda>s. ci_ID s = i) (filter (\<lambda>r. reaches sc (ci_Org r)) t) = Some s"
    by (simp only: getCISource_def)
  from find_SomeD[OF this] show "s \<in> set t" "ci_ID s = i" "reaches sc (ci_Org s)" by simp_all
qed

text \<open>A scoped update answers the row the scope found, edited, and edits every row it selects.\<close>

lemma updateCISourceInScope_row:
  assumes "updateCISourceInScope fails now s sc t = (Inr (Some saved), t')"
  shows "\<exists>old. getCISourceInScope (ci_ID s) sc t = Some old \<and> saved = editCISource now s old
    \<and> t' = map (\<lambda>r. if ci_ID r = ci_ID s \<and> reaches sc (ci_Org r) then editCISource now s r else r) t"
proof -
  consider "scopeEmpty sc" | "sc_PlatformAdmin sc" | "\<not> scopeEmpty sc" "\<not> sc_PlatformAdmin sc" by blast
  then show ?thesis
    by cases (use assms in \<open>auto simp: updateCISourceInScope_def writeInScope_def Let_def updateCISourceWhere_def getCISourceInScope_def
        readInScope_def getCISource_def scopeEmpty_def conj_commute updateWhere_def split: if_splits\<close>)
qed

lemma updateConnectionInScope_row:
  assumes "updateConnectionInScope fails now p b sc t = (Inr (Some saved), t')"
  shows "\<exists>old. getConnectionInScope (pc_ID p) sc t = Some old \<and> saved = editConnection now p b old
    \<and> t' = map (\<lambda>r. if pc_ID r = pc_ID p \<and> reaches sc (pc_Org r) then editConnection now p b r else r) t"
proof -
  consider "scopeEmpty sc" | "sc_PlatformAdmin sc" | "\<not> scopeEmpty sc" "\<not> sc_PlatformAdmin sc" by blast
  then show ?thesis
    by cases (use assms in \<open>auto simp: updateConnectionInScope_def writeInScope_def Let_def updateConnectionWhere_def getConnectionInScope_def
        readInScope_def getConnection_def scopeEmpty_def conj_commute updateWhere_def split: if_splits\<close>)
qed

lemma organizationScope_reaches: "reaches (organizationScope org) o' = (trimSpace org \<noteq> [] \<and> o' = Some org)"
  by (simp add: organizationScope_def)

end
