(* ===== verification/Credentials.thy ===== *)
theory Credentials
  imports Connections
begin

text \<open>
  What the connection and CI source handlers promise: a CI source holds exactly one credential of its
  method, the credential submitted is the one a token is made of, an edit evicts what the old one
  had minted, and a connection borrows only a CI source of its own organization.
\<close>

section \<open>One credential per CI source\<close>

text \<open>Exactly the columns of the row's method are set, and its coordinates are those of its provider.\<close>

definition namedBy :: "string option \<Rightarrow> bool" where
  "namedBy x = (case x of None \<Rightarrow> False | Some s \<Rightarrow> s \<noteq> [] \<and> trimSpace s = s)"

definition ciSourceOK :: "ciSourceRow \<Rightarrow> bool" where
  "ciSourceOK r =
     ((ci_Provider r = ''github_actions'' \<or> (ci_Provider r = ''azure_devops'' \<and> namedBy (ci_Project r)))
      \<and> (let pat = (ci_EncryptedToken r \<noteq> []); sec = (ci_EncryptedClientSecret r \<noteq> []); key = (ci_EncryptedAppPrivateKey r \<noteq> []) in
          (ci_AuthMethod r = ''pat'' \<and> pat \<and> \<not> sec \<and> \<not> key \<and> ci_TenantID r = None \<and> ci_ClientID r = None
             \<and> ci_GithubAppID r = None \<and> ci_GithubInstallationID r = None)
        \<or> (ci_AuthMethod r = ''app'' \<and> ci_Provider r = ''azure_devops'' \<and> \<not> pat \<and> sec \<and> \<not> key \<and> namedBy (ci_TenantID r)
             \<and> namedBy (ci_ClientID r) \<and> ci_GithubAppID r = None \<and> ci_GithubInstallationID r = None)
        \<or> (ci_AuthMethod r = ''app'' \<and> ci_Provider r = ''github_actions'' \<and> \<not> pat \<and> \<not> sec \<and> key \<and> ci_TenantID r = None
             \<and> ci_ClientID r = None \<and> namedBy (ci_GithubAppID r) \<and> namedBy (ci_GithubInstallationID r))
        \<or> (ci_AuthMethod r = ''workload_identity'' \<and> ci_Provider r = ''azure_devops'' \<and> \<not> pat \<and> \<not> sec \<and> \<not> key
             \<and> ci_TenantID r = None \<and> namedBy (ci_ClientID r) \<and> ci_GithubAppID r = None \<and> ci_GithubInstallationID r = None)))"

text \<open>The token the credential of a request stands for.\<close>

definition requestedToken :: "(ciCreds \<Rightarrow> string option) \<Rightarrow> ciSourceRequest \<Rightarrow> sourceTokenErr + string" where
  "requestedToken mint req =
     (if cq_AuthMethod req = ''pat'' then Inr (cq_Token req)
      else if cq_AuthMethod req = ''workload_identity'' then mintFor mint (WorkloadIdentityCreds (trimSpace (cq_ClientID req)))
      else if cq_Provider req = ''azure_devops'' then
        mintFor mint (EntraCreds (trimSpace (cq_TenantID req)) (trimSpace (cq_ClientID req)) (cq_ClientSecret req))
      else mintFor mint (GitHubAppCreds (trimSpace (cq_GithubAppID req)) (trimSpace (cq_GithubInstallationID req)) (cq_AppPrivateKey req)))"

lemma cleanRequest_trimmed: "trimSpace (cq_Project (cleanRequest req)) = cq_Project (cleanRequest req)"
  by (simp add: cleanRequest_def)

text \<open>The rows that apply makes are told apart by the method and the provider.\<close>

lemma apply_cases [consumes 1, case_names pat entra app identity]:
  assumes "applyCISourceAuthMethod cy isRSA (requestRow i req) req = Inr src"
  obtains enc where "cq_AuthMethod req = ''pat''" "sealValue cy (cq_Token req) PurposeCISourcePAT = Inr enc"
      "src = (requestRow i req)\<lparr>ci_EncryptedToken := enc\<rparr>"
  | enc where "cq_AuthMethod req = ''app''" "cq_Provider req = ''azure_devops''"
      "sealValue cy (cq_ClientSecret req) PurposeCISourceClientSecret = Inr enc"
      "trimSpace (cq_TenantID req) \<noteq> []" "trimSpace (cq_ClientID req) \<noteq> []"
      "src = (requestRow i req)\<lparr>ci_EncryptedClientSecret := enc, ci_TenantID := Some (trimSpace (cq_TenantID req)),
        ci_ClientID := Some (trimSpace (cq_ClientID req))\<rparr>"
  | enc where "cq_AuthMethod req = ''app''" "cq_Provider req = ''github_actions''"
      "sealValue cy (cq_AppPrivateKey req) PurposeCISourceAppPrivateKey = Inr enc"
      "trimSpace (cq_GithubAppID req) \<noteq> []" "trimSpace (cq_GithubInstallationID req) \<noteq> []"
      "src = (requestRow i req)\<lparr>ci_EncryptedAppPrivateKey := enc, ci_GithubAppID := Some (trimSpace (cq_GithubAppID req)),
        ci_GithubInstallationID := Some (trimSpace (cq_GithubInstallationID req))\<rparr>"
  | "cq_AuthMethod req = ''workload_identity''" "cq_Provider req = ''azure_devops''" "trimSpace (cq_ClientID req) \<noteq> []"
      "src = (requestRow i req)\<lparr>ci_ClientID := Some (trimSpace (cq_ClientID req))\<rparr>"
  using assms unfolding applyCISourceAuthMethod_def Let_def
  by (simp split: if_splits sum.splits)

text \<open>What of a row its credential depends on.\<close>

definition sameCredential :: "ciSourceRow \<Rightarrow> ciSourceRow \<Rightarrow> bool" where
  "sameCredential r s = (ci_Provider r = ci_Provider s \<and> ci_Project r = ci_Project s \<and> ci_AuthMethod r = ci_AuthMethod s
     \<and> ci_EncryptedToken r = ci_EncryptedToken s \<and> ci_TenantID r = ci_TenantID s \<and> ci_ClientID r = ci_ClientID s
     \<and> ci_EncryptedClientSecret r = ci_EncryptedClientSecret s \<and> ci_GithubAppID r = ci_GithubAppID s
     \<and> ci_GithubInstallationID r = ci_GithubInstallationID s \<and> ci_EncryptedAppPrivateKey r = ci_EncryptedAppPrivateKey s)"

lemma sameCredential_token: "sameCredential r s \<Longrightarrow> sourceToken cy mint r = sourceToken cy mint s"
  unfolding sameCredential_def sourceToken_def by (elim conjE) (simp only:)

lemma sameCredential_OK: "sameCredential r s \<Longrightarrow> ciSourceOK r = ciSourceOK s"
  by (simp add: sameCredential_def ciSourceOK_def)

lemma apply_token:
  assumes "applyCISourceAuthMethod cy isRSA (requestRow i req) req = Inr src"
  shows "sourceToken cy mint src = requestedToken mint req"
  using assms
proof (cases rule: apply_cases)
  case (pat enc)
  then show ?thesis using sealed_opens[OF pat(2)] by (simp add: sourceToken_def requestedToken_def requestRow_def)
next
  case (entra enc)
  then show ?thesis using sealed_opens[OF entra(3)] by (simp add: sourceToken_def requestedToken_def requestRow_def ptrStr_def)
next
  case (app enc)
  then show ?thesis using sealed_opens[OF app(3)] by (simp add: sourceToken_def requestedToken_def requestRow_def ptrStr_def)
next
  case identity
  then show ?thesis by (simp add: sourceToken_def requestedToken_def requestRow_def ptrStr_def)
qed

lemma apply_OK:
  assumes "applyCISourceAuthMethod cy isRSA (requestRow i (cleanRequest req)) (cleanRequest req) = Inr src" "validRequest (cleanRequest req)"
  shows "ciSourceOK src" "ci_Provider src = cq_Provider (cleanRequest req)" "ci_ID src = i" "ci_AuthMethod src \<noteq> []"
proof -
  let ?req = "cleanRequest req"
  have p: "cq_Provider ?req = ''github_actions'' \<or> (cq_Provider ?req = ''azure_devops'' \<and> namedBy (ci_Project (requestRow i ?req)))"
    using assms(2) cleanRequest_trimmed[of req] by (auto simp: validRequest_def requestRow_def namedBy_def)
  have row: "ci_Provider (requestRow i ?req) = cq_Provider ?req" "ci_ID (requestRow i ?req) = i" "ci_AuthMethod (requestRow i ?req) = cq_AuthMethod ?req"
    "ci_EncryptedToken (requestRow i ?req) = []" "ci_TenantID (requestRow i ?req) = None" "ci_ClientID (requestRow i ?req) = None"
    "ci_EncryptedClientSecret (requestRow i ?req) = []" "ci_GithubAppID (requestRow i ?req) = None"
    "ci_GithubInstallationID (requestRow i ?req) = None" "ci_EncryptedAppPrivateKey (requestRow i ?req) = []"
    by (simp_all add: requestRow_def)
  from assms(1) have "ciSourceOK src \<and> ci_Provider src = cq_Provider ?req \<and> ci_ID src = i \<and> ci_AuthMethod src \<noteq> []"
  proof (cases rule: apply_cases)
    case (pat enc)
    then show ?thesis using sealed_opens[OF pat(2)] p by (simp add: ciSourceOK_def row Let_def)
  next
    case (entra enc)
    then show ?thesis using sealed_opens[OF entra(3)] p by (simp add: ciSourceOK_def row Let_def namedBy_def)
  next
    case (app enc)
    then show ?thesis using sealed_opens[OF app(3)] p by (simp add: ciSourceOK_def row Let_def namedBy_def)
  next
    case identity
    then show ?thesis using p by (simp add: ciSourceOK_def row Let_def namedBy_def)
  qed
  then show "ciSourceOK src" "ci_Provider src = cq_Provider ?req" "ci_ID src = i" "ci_AuthMethod src \<noteq> []" by blast+
qed

lemma createCISourceH_row:
  assumes "createCISourceH cy isRSA now flt newID req org t = (CISource v, t')"
  shows "\<exists>src r. applyCISourceAuthMethod cy isRSA (requestRow [] (cleanRequest req)) (cleanRequest req) = Inr src
    \<and> validRequest (cleanRequest req) \<and> sameCredential r src \<and> ci_Org r = Some (trimSpace org) \<and> v = ciSourceJSON r \<and> t' = t @ [r]"
proof -
  from assms have valid: "validRequest (cleanRequest req)" by (auto simp: createCISourceH_def Let_def split: if_splits)
  with assms obtain src where a: "applyCISourceAuthMethod cy isRSA (requestRow [] (cleanRequest req)) (cleanRequest req) = Inr src"
    by (auto simp: createCISourceH_def Let_def split: sum.splits authMethodErr.splits)
  with assms valid obtain r where r: "createCISource (cf_write flt) now newID src org t = (Inr r, t')" "v = ciSourceJSON r"
    by (auto simp: createCISourceH_def Let_def split: if_splits sum.splits prod.splits)
  have "sameCredential r src" "ci_Org r = Some (trimSpace org)" "t' = t @ [r]"
    using r(1) apply_OK(4)[OF a valid] by (auto simp: createCISource_def Let_def sameCredential_def split: if_splits)
  with a valid r(2) show ?thesis by blast
qed

lemma updateCISourceH_row:
  assumes "updateCISourceH cy isRSA now flt i req sc t = (CISource v, t', ev)"
  shows "\<exists>src old. applyCISourceAuthMethod cy isRSA (requestRow i (cleanRequest req)) (cleanRequest req) = Inr src
    \<and> validRequest (cleanRequest req) \<and> getCISourceInScope i sc t = Some old \<and> ci_Provider old = ci_Provider src
    \<and> v = ciSourceJSON (editCISource now src old) \<and> ev = evictCachedCIToken cy old
    \<and> t' = map (\<lambda>r. if ci_ID r = i \<and> reaches sc (ci_Org r) then editCISource now src r else r) t"
proof -
  from assms obtain old where old: "getCISourceInScope i sc t = Some old"
    by (auto simp: updateCISourceH_def split: if_splits option.splits)
  with assms have valid: "validRequest (cleanRequest req)" "cq_Provider (cleanRequest req) = ci_Provider old"
    by (auto simp: updateCISourceH_def Let_def split: if_splits)
  with assms old obtain src where a: "applyCISourceAuthMethod cy isRSA (requestRow i (cleanRequest req)) (cleanRequest req) = Inr src"
    by (auto simp: updateCISourceH_def Let_def split: if_splits sum.splits authMethodErr.splits)
  with assms old valid obtain saved where s: "updateCISourceInScope (cf_write flt) now src sc t = (Inr (Some saved), t')"
      "v = ciSourceJSON saved" "ev = evictCachedCIToken cy old"
    by (auto simp: updateCISourceH_def Let_def split: if_splits sum.splits option.splits prod.splits connErr.splits)
  have i: "ci_ID src = i" "ci_Provider old = ci_Provider src" using apply_OK[OF a valid(1)] valid(2) by simp_all
  from updateCISourceInScope_row[OF s(1)] old i(1) have "saved = editCISource now src old"
    "t' = map (\<lambda>r. if ci_ID r = i \<and> reaches sc (ci_Org r) then editCISource now src r else r) t" by auto
  with a valid(1) old i(2) s(2,3) show ?thesis by blast
qed

text \<open>A refused request leaves the table as it was.\<close>

lemma createCISourceH_table:
  "(\<exists>v t'. createCISourceH cy isRSA now flt newID req org t = (CISource v, t'))
    \<or> snd (createCISourceH cy isRSA now flt newID req org t) = t"
  by (auto simp: createCISourceH_def createCISource_def Let_def split: sum.splits authMethodErr.splits)

lemma updateCISourceWhere_refused:
  assumes "updateCISourceWhere fails now s q t = (res, t')" "\<nexists>saved. res = Inr (Some saved)"
  shows "t' = t"
proof (cases "List.find (\<lambda>r. ci_ID r = ci_ID s \<and> q r) t")
  case None
  then have "\<not> (\<exists>r \<in> set t. ci_ID r = ci_ID s \<and> q r)" by (simp add: find_None_iff)
  from updateWhere_none[OF this] assms(1) show ?thesis by (auto simp: updateCISourceWhere_def split: if_splits)
next
  case (Some r)
  with assms show ?thesis by (auto simp: updateCISourceWhere_def split: if_splits)
qed

lemma updateCISourceInScope_refused:
  "updateCISourceInScope fails now s sc t = (res, t') \<Longrightarrow> \<nexists>saved. res = Inr (Some saved) \<Longrightarrow> t' = t"
  unfolding updateCISourceInScope_def writeInScope_def Let_def
  by (auto split: if_splits dest: updateCISourceWhere_refused)

lemma updateCISourceH_table:
  "(\<exists>v t' ev. updateCISourceH cy isRSA now flt i req sc t = (CISource v, t', ev))
    \<or> fst (snd (updateCISourceH cy isRSA now flt i req sc t)) = t"
  by (auto simp: updateCISourceH_def Let_def split: option.splits sum.splits authMethodErr.splits prod.splits connErr.splits
      dest!: updateCISourceInScope_refused)

lemma deleteCISourceH_subset: "set (snd (deleteCISourceH flt i sc t)) \<subseteq> set t"
proof -
  have "snd (deleteCISourceH flt i sc t) = snd (deleteCISourceInScope (cf_write flt) i sc t)"
    by (auto simp: deleteCISourceH_def split: sum.splits connErr.splits bool.splits prod.splits)
  then show ?thesis by (auto simp: deleteCISourceInScope_def writeInScope_def deleteRows_def Let_def split: if_splits)
qed

text \<open>C23: A CI source holds one credential, of its own method. Whatever is created, edited or deleted,
  every row of the table keeps exactly the columns its method needs, named and non-empty, and none
  of another method; in particular an edit that changes the method leaves nothing of the old
  credential behind.\<close>

theorem ci_sources_hold_one_credential:
  assumes "list_all ciSourceOK t" "distinct (map ci_ID t)"
  shows "list_all ciSourceOK (snd (createCISourceH cy isRSA now flt newID req org t))
    \<and> list_all ciSourceOK (fst (snd (updateCISourceH cy isRSA now flt i req' sc t)))
    \<and> list_all ciSourceOK (snd (deleteCISourceH flt i sc t))"
proof (intro conjI)
  show "list_all ciSourceOK (snd (createCISourceH cy isRSA now flt newID req org t))"
    using createCISourceH_table[of cy isRSA now flt newID req org t]
  proof
    assume "\<exists>v t'. createCISourceH cy isRSA now flt newID req org t = (CISource v, t')"
    then obtain v t' where c: "createCISourceH cy isRSA now flt newID req org t = (CISource v, t')" by blast
    from createCISourceH_row[OF c] apply_OK(1) sameCredential_OK assms(1) c show ?thesis by fastforce
  qed (use assms(1) in simp)
  show "list_all ciSourceOK (fst (snd (updateCISourceH cy isRSA now flt i req' sc t)))"
    using updateCISourceH_table[of cy isRSA now flt i req' sc t]
  proof
    assume "\<exists>v t' ev. updateCISourceH cy isRSA now flt i req' sc t = (CISource v, t', ev)"
    then obtain v t' ev where u: "updateCISourceH cy isRSA now flt i req' sc t = (CISource v, t', ev)" by blast
    from updateCISourceH_row[OF u] obtain src old where s:
      "applyCISourceAuthMethod cy isRSA (requestRow i (cleanRequest req')) (cleanRequest req') = Inr src" "validRequest (cleanRequest req')"
      "getCISourceInScope i sc t = Some old" "ci_Provider old = ci_Provider src"
      "t' = map (\<lambda>r. if ci_ID r = i \<and> reaches sc (ci_Org r) then editCISource now src r else r) t" by blast
    have "ciSourceOK (editCISource now src r)" if r: "r \<in> set t" "ci_ID r = i" for r
    proof -
      have "r = old" using r getCISourceInScope_row[OF s(3)] assms(2) by (auto simp: distinct_map inj_on_def)
      then have "sameCredential (editCISource now src r) src" using s(4) by (simp add: sameCredential_def editCISource_def)
      from sameCredential_OK[OF this] apply_OK(1)[OF s(1,2)] show ?thesis by simp
    qed
    with s(5) u assms(1) show ?thesis by (auto simp: list_all_iff)
  qed (use assms(1) in simp)
  show "list_all ciSourceOK (snd (deleteCISourceH flt i sc t))"
    using deleteCISourceH_subset[of flt i sc t] assms(1) by (auto simp: list_all_iff)
qed

lemma evicts_what_was_minted:
  assumes "ciSourceOK r"
  shows "(\<forall>c. evictCachedCIToken cy r = Some c \<longrightarrow> (\<forall>mint. sourceToken cy mint r = mintFor mint c))
    \<and> (evictCachedCIToken cy r = None \<longrightarrow> (\<forall>mint mint'. sourceToken cy mint r = sourceToken cy mint' r))"
proof -
  consider "ci_AuthMethod r = ''pat''"
    | "ci_AuthMethod r = ''app''" "ci_Provider r = ''azure_devops''" "ci_EncryptedClientSecret r \<noteq> []"
    | "ci_AuthMethod r = ''app''" "ci_Provider r = ''github_actions''" "ci_EncryptedAppPrivateKey r \<noteq> []"
    | "ci_AuthMethod r = ''workload_identity''" "ci_Provider r = ''azure_devops''" "namedBy (ci_ClientID r)"
    using assms unfolding ciSourceOK_def Let_def by blast
  then show ?thesis
    by cases (auto simp: evictCachedCIToken_def sourceToken_def namedBy_def ptrStr_def split: sum.splits option.splits)
qed

text \<open>The credential submitted is the one used, and the one it replaces is forgotten. After a creation
  or an edit the token of the row is what the submitted credential stands for, trimmed as it is
  stored. The edit evicts the cache entry of the credential the row had, when that had one minted:
  the very credential every token of the old row came from.\<close>

theorem submitted_credential_is_used:
  assumes "createCISourceH cy isRSA now flt newID req org t = (CISource v, t1)"
    and "updateCISourceH cy isRSA now flt' i req' sc t = (CISource v', t2, ev)" "distinct (map ci_ID t)" "list_all ciSourceOK t"
  shows "(\<exists>r. t1 = t @ [r] \<and> ci_Org r = Some (trimSpace org) \<and> (\<forall>mint. sourceToken cy mint r = requestedToken mint (cleanRequest req)))
    \<and> (\<exists>old new. old \<in> set t \<and> ci_ID old = i \<and> reaches sc (ci_Org old) \<and> t2 = map (\<lambda>r. if r = old then new else r) t
        \<and> ci_ID new = i \<and> ci_Org new = ci_Org old \<and> (\<forall>mint. sourceToken cy mint new = requestedToken mint (cleanRequest req'))
        \<and> (\<forall>c. ev = Some c \<longrightarrow> (\<forall>mint. sourceToken cy mint old = mintFor mint c))
        \<and> (ev = None \<longrightarrow> (\<forall>mint mint'. sourceToken cy mint old = sourceToken cy mint' old)))"
proof
  from createCISourceH_row[OF assms(1)] obtain src r where r:
    "applyCISourceAuthMethod cy isRSA (requestRow [] (cleanRequest req)) (cleanRequest req) = Inr src" "sameCredential r src"
    "ci_Org r = Some (trimSpace org)" "t1 = t @ [r]" by blast
  with sameCredential_token[OF r(2)] apply_token[OF r(1)]
  show "\<exists>r. t1 = t @ [r] \<and> ci_Org r = Some (trimSpace org) \<and> (\<forall>mint. sourceToken cy mint r = requestedToken mint (cleanRequest req))"
    by metis
next
  from updateCISourceH_row[OF assms(2)] obtain src old where s:
    "applyCISourceAuthMethod cy isRSA (requestRow i (cleanRequest req')) (cleanRequest req') = Inr src"
    "getCISourceInScope i sc t = Some old" "ci_Provider old = ci_Provider src" "ev = evictCachedCIToken cy old"
    "t2 = map (\<lambda>r. if ci_ID r = i \<and> reaches sc (ci_Org r) then editCISource now src r else r) t" by blast
  note o' = getCISourceInScope_row[OF s(2)]
  have only: "ci_ID r = i \<and> reaches sc (ci_Org r) \<longleftrightarrow> r = old" if "r \<in> set t" for r
    using that o' assms(3) by (auto simp: distinct_map inj_on_def)
  have t2: "t2 = map (\<lambda>r. if r = old then editCISource now src old else r) t"
    unfolding s(5) using only by (intro map_cong) auto
  have "sameCredential (editCISource now src old) src" using s(3) by (simp add: sameCredential_def editCISource_def)
  from sameCredential_token[OF this] apply_token[OF s(1)]
  have new: "sourceToken cy mint (editCISource now src old) = requestedToken mint (cleanRequest req')" for mint by simp
  have "ciSourceOK old" using o'(1) assms(4) by (simp add: list_all_iff)
  from evicts_what_was_minted[OF this, of cy] s(4) o' t2 new
  show "\<exists>old new. old \<in> set t \<and> ci_ID old = i \<and> reaches sc (ci_Org old) \<and> t2 = map (\<lambda>r. if r = old then new else r) t
      \<and> ci_ID new = i \<and> ci_Org new = ci_Org old \<and> (\<forall>mint. sourceToken cy mint new = requestedToken mint (cleanRequest req'))
      \<and> (\<forall>c. ev = Some c \<longrightarrow> (\<forall>mint. sourceToken cy mint old = mintFor mint c))
      \<and> (ev = None \<longrightarrow> (\<forall>mint mint'. sourceToken cy mint old = sourceToken cy mint' old))"
    by (intro exI[of _ old] exI[of _ "editCISource now src old"]) simp
qed

section \<open>Connections and their organization\<close>

definition ownReference :: "ciSourceRow list \<Rightarrow> string \<Rightarrow> pipelineConnection \<Rightarrow> bool" where
  "ownReference srcs org p =
     (let ref = configStr ''ci_source_id'' (pc_Config p)
      in trimSpace ref = [] \<or> (\<exists>s \<in> set srcs. ci_ID s = ref \<and> ci_Org s = Some org))"

lemma reference_owned:
  assumes "ciSourceReferenceInOrganization flt srcs cfg org = None"
  shows "trimSpace (configStr ''ci_source_id'' cfg) = [] \<or> (\<exists>s \<in> set srcs. ci_ID s = configStr ''ci_source_id'' cfg \<and> ci_Org s = Some org)"
proof (cases "trimSpace (configStr ''ci_source_id'' cfg) = []")
  case False
  with assms obtain s where "getCISourceInScope (configStr ''ci_source_id'' cfg) (organizationScope org) srcs = Some s"
    by (auto simp: ciSourceReferenceInOrganization_def Let_def split: if_splits option.splits)
  from getCISourceInScope_row[OF this] show ?thesis by (auto simp: organizationScope_reaches)
qed simp

lemma reference_refuses [simp]: "ciSourceReferenceInOrganization flt srcs cfg org \<noteq> Some (Pipeline p)"
  by (auto simp: ciSourceReferenceInOrganization_def Let_def split: option.splits)

lemma sealToken_refuses [simp]: "sealToken cy tok \<noteq> Inl (Pipeline p)"
  by (auto simp: sealToken_def split: sum.splits)

lemma sealToken_opens: "sealToken cy tok = Inr enc \<Longrightarrow> tok \<noteq> [] \<Longrightarrow> openValue cy enc PurposePipelineDispatchToken = Inr tok \<and> enc \<noteq> []"
  using sealed_opens by (auto simp: sealToken_def split: if_splits sum.splits)

lemma createPipelineH_row:
  assumes "createPipelineH cy now flt newID srcs req org t = (Pipeline p, t')"
  shows "pc_Org p = Some (trimSpace org) \<and> ownReference srcs org p \<and> fanOutConfigIsValid (pc_Config p) \<and> t' = t @ [p]
    \<and> (if pq_Token req = [] then pc_EncryptedToken p = []
       else openValue cy (pc_EncryptedToken p) PurposePipelineDispatchToken = Inr (pq_Token req))"
proof -
  from assms obtain enc where e: "sealToken cy (pq_Token req) = Inr enc" "fanOutConfigIsValid (pq_Config req)"
    by (auto simp: createPipelineH_def split: if_splits sum.splits)
  with assms have ref: "ciSourceReferenceInOrganization flt srcs (pq_Config req) org = None"
    by (auto simp: createPipelineH_def split: if_splits option.splits)
  have p: "pc_Org p = Some (trimSpace org)" "pc_Config p = pq_Config req" "pc_EncryptedToken p = enc" "t' = t @ [p]"
    using assms e ref by (auto simp: createPipelineH_def createConnection_def Let_def split: if_splits)
  have "pq_Token req = [] \<Longrightarrow> enc = []" using e(1) by (simp add: sealToken_def)
  with p e reference_owned[OF ref] sealToken_opens[OF e(1)] show ?thesis by (simp add: ownReference_def Let_def)
qed

lemma updatePipelineH_row:
  assumes "updatePipelineH cy now flt i srcs req sc t = (Pipeline p, t')"
  shows "\<exists>old \<in> set t. pc_ID old = i \<and> reaches sc (pc_Org old) \<and> pc_Org p = pc_Org old \<and> pc_Provider p = pc_Provider old
    \<and> ownReference srcs (orgText (pc_Org old)) p \<and> fanOutConfigIsValid (pc_Config p)
    \<and> (if pq_Token req = [] then pc_EncryptedToken p = pc_EncryptedToken old
       else openValue cy (pc_EncryptedToken p) PurposePipelineDispatchToken = Inr (pq_Token req))"
proof -
  from assms obtain enc old where e: "sealToken cy (pq_Token req) = Inr enc" "fanOutConfigIsValid (pq_Config req)" "getConnectionInScope i sc t = Some old"
    by (auto simp: updatePipelineH_def split: if_splits sum.splits option.splits)
  with assms have ref: "ciSourceReferenceInOrganization flt srcs (pq_Config req) (orgText (pc_Org old)) = None"
    by (auto simp: updatePipelineH_def split: if_splits option.splits)
  obtain q b where "updateConnectionInScope (cf_write flt) now q b sc t = (Inr (Some p), t')" "pc_ID q = i" "pc_Config q = pq_Config req"
      "pc_EncryptedToken q = enc" "b = (pq_Token req \<noteq> [])"
    using assms e ref by (auto simp: updatePipelineH_def split: if_splits sum.splits option.splits prod.splits connErr.splits)
  with updateConnectionInScope_row[of "cf_write flt" now q b sc t p t'] e(3) have "p = editConnection now q b old" by simp
  then have p: "pc_Org p = pc_Org old" "pc_Provider p = pc_Provider old" "pc_Config p = pq_Config req"
    "pc_EncryptedToken p = (if pq_Token req \<noteq> [] then enc else pc_EncryptedToken old)"
    using \<open>pc_Config q = pq_Config req\<close> \<open>pc_EncryptedToken q = enc\<close> \<open>b = (pq_Token req \<noteq> [])\<close> by (simp_all add: editConnection_def)
  with getConnectionInScope_row[OF e(3)] e(2) reference_owned[OF ref] sealToken_opens[OF e(1)]
  show ?thesis by (intro bexI[of _ old]) (simp_all add: ownReference_def Let_def)
qed

lemma updatePipelineH_table:
  "\<exists>q b. snd (updatePipelineH cy now flt i srcs req sc t) \<in> {t, snd (updateConnectionInScope (cf_write flt) now q b sc t)}"
proof -
  let ?q = "\<lambda>enc. \<lparr>pc_ID = i, pc_Name = pq_Name req, pc_Provider = [], pc_Config = pq_Config req,
     pc_EncryptedToken = enc, pc_CreatedAt = 0, pc_UpdatedAt = 0, pc_Org = None\<rparr>"
  have "snd (updatePipelineH cy now flt i srcs req sc t) = t
    \<or> snd (updatePipelineH cy now flt i srcs req sc t)
        = snd (updateConnectionInScope (cf_write flt) now (?q (projr (sealToken cy (pq_Token req)))) (pq_Token req \<noteq> []) sc t)"
    unfolding updatePipelineH_def
    by (auto split: sum.splits option.splits prod.splits connErr.splits)
  then show ?thesis by blast
qed

lemma pipelines_elsewhere:
  "filter (\<lambda>r. \<not> reaches sc (pc_Org r)) (snd (updatePipelineH cy now flt i srcs req sc t)) = filter (\<lambda>r. \<not> reaches sc (pc_Org r)) t"
  "filter (\<lambda>r. \<not> reaches sc (pc_Org r)) (snd (deletePipelineH flt i sc t)) = filter (\<lambda>r. \<not> reaches sc (pc_Org r)) t"
proof -
  obtain q b where "snd (updatePipelineH cy now flt i srcs req sc t) \<in> {t, snd (updateConnectionInScope (cf_write flt) now q b sc t)}"
    using updatePipelineH_table by blast
  then show "filter (\<lambda>r. \<not> reaches sc (pc_Org r)) (snd (updatePipelineH cy now flt i srcs req sc t)) = filter (\<lambda>r. \<not> reaches sc (pc_Org r)) t"
    using updateConnection.writes_isolated by (auto simp: updateConnectionInScope_def)
  have "snd (deletePipelineH flt i sc t) = snd (deleteConnectionInScope (cf_write flt) i sc t)"
    by (auto simp: deletePipelineH_def split: sum.splits connErr.splits bool.splits prod.splits)
  then show "filter (\<lambda>r. \<not> reaches sc (pc_Org r)) (snd (deletePipelineH flt i sc t)) = filter (\<lambda>r. \<not> reaches sc (pc_Org r)) t"
    unfolding deleteConnectionInScope_def using deleteConnection.writes_isolated by simp
qed

text \<open>A connection stays in its organization and borrows only its organization's credential. An edit or
  a delete leaves what the caller does not reach as it is; what is created is the organization's
  own and what is edited keeps organization and provider; the CI source it names, if any, is a row
  of that organization; and the token it stores is the one submitted, or the one it had.\<close>

theorem connections_stay_in_organization:
  assumes "createPipelineH cy now flt newID srcs req org t = (reply, t1)"
    and "updatePipelineH cy now flt i srcs req' sc t = (reply', t2)"
    and "deletePipelineH flt i sc t = (reply'', t3)"
  shows "(\<forall>u \<in> {t2, t3}. filter (\<lambda>r. \<not> reaches sc (pc_Org r)) u = filter (\<lambda>r. \<not> reaches sc (pc_Org r)) t)
    \<and> (\<forall>p. reply = Pipeline p \<longrightarrow> pc_Org p = Some (trimSpace org) \<and> ownReference srcs org p \<and> t1 = t @ [p])
    \<and> (\<forall>p. reply' = Pipeline p \<longrightarrow> (\<exists>old \<in> set t. pc_ID old = i \<and> reaches sc (pc_Org old) \<and> pc_Org p = pc_Org old
          \<and> pc_Provider p = pc_Provider old \<and> ownReference srcs (orgText (pc_Org old)) p
          \<and> (if pq_Token req' = [] then pc_EncryptedToken p = pc_EncryptedToken old
             else openValue cy (pc_EncryptedToken p) PurposePipelineDispatchToken = Inr (pq_Token req'))))"
proof (intro conjI allI impI ballI)
  fix u assume "u \<in> {t2, t3}"
  then show "filter (\<lambda>r. \<not> reaches sc (pc_Org r)) u = filter (\<lambda>r. \<not> reaches sc (pc_Org r)) t"
    using pipelines_elsewhere[of sc] assms(2,3) by (metis insertE singletonD snd_conv)
next
  fix p assume "reply' = Pipeline p"
  with assms(2) have "updatePipelineH cy now flt i srcs req' sc t = (Pipeline p, t2)" by simp
  from updatePipelineH_row[OF this]
  show "\<exists>old \<in> set t. pc_ID old = i \<and> reaches sc (pc_Org old) \<and> pc_Org p = pc_Org old \<and> pc_Provider p = pc_Provider old
      \<and> ownReference srcs (orgText (pc_Org old)) p
      \<and> (if pq_Token req' = [] then pc_EncryptedToken p = pc_EncryptedToken old
         else openValue cy (pc_EncryptedToken p) PurposePipelineDispatchToken = Inr (pq_Token req'))" by blast
qed (use assms(1) createPipelineH_row in \<open>blast+\<close>)

section \<open>Concrete requests\<close>

definition sampleCrypto :: cryptoEnv where
  "sampleCrypto = \<lparr>cy_lib = sampleGCM, cy_keys = sampleOldKey, cy_draw = Some (replicate 12 CHR ''n'')\<rparr>"

definition sampleSealed :: "string \<Rightarrow> string \<Rightarrow> string" where
  "sampleSealed pt p = frame p (replicate 12 CHR ''n'' @ gl_seal sampleGCM (replicate 32 CHR ''k'') [] pt p)"

definition noFaults :: connFaults where
  "noFaults = \<lparr>cf_load = False, cf_write = False, cf_reference = False\<rparr>"

definition patRequest :: ciSourceRequest where
  "patRequest = \<lparr>cq_Name = ''gh'', cq_Provider = ''github_actions'', cq_Organization = ''acme'', cq_Project = [], cq_AuthMethod = [],
     cq_Token = ''tok'', cq_TenantID = [], cq_ClientID = [], cq_ClientSecret = [], cq_GithubAppID = [], cq_GithubInstallationID = [],
     cq_AppPrivateKey = []\<rparr>"

definition identityRequest :: ciSourceRequest where
  "identityRequest = patRequest\<lparr>cq_Provider := ''azure_devops'', cq_Project := ''infra'', cq_AuthMethod := ''workload_identity'', cq_Token := [],
     cq_ClientID := '' c9 ''\<rparr>"

definition sampleCISource :: ciSourceRow where
  "sampleCISource = (requestRow ''c1'' (identityRequest\<lparr>cq_AuthMethod := ''app''\<rparr>))\<lparr>
     ci_EncryptedClientSecret := sampleSealed ''s3'' PurposeCISourceClientSecret,
     ci_TenantID := Some ''t1'', ci_ClientID := Some ''c1'', ci_Org := Some ''o1''\<rparr>"

lemma sampleCISource_OK: "ciSourceOK sampleCISource"
  by code_simp

theorem ci_sources_hold_one_credential_witness:
  "list_all ciSourceOK (fst (snd (updateCISourceH sampleCrypto (\<lambda>_. True) 5 noFaults ''c1'' identityRequest
     \<lparr>sc_PlatformAdmin = False, sc_OrgIDs = [''o1'']\<rparr> [sampleCISource])))"
proof -
  have "list_all ciSourceOK [sampleCISource]" "distinct (map ci_ID [sampleCISource])" by (simp_all add: sampleCISource_OK)
  from ci_sources_hold_one_credential[OF this] show ?thesis by blast
qed

theorem submitted_credential_is_used_witness:
  "\<exists>r new ev. fst (snd (updateCISourceH sampleCrypto (\<lambda>_. True) 5 noFaults ''c1'' identityRequest
        \<lparr>sc_PlatformAdmin = False, sc_OrgIDs = [''o1'']\<rparr> [sampleCISource])) = [new]
     \<and> snd (snd (updateCISourceH sampleCrypto (\<lambda>_. True) 5 noFaults ''c1'' identityRequest
        \<lparr>sc_PlatformAdmin = False, sc_OrgIDs = [''o1'']\<rparr> [sampleCISource])) = Some ev
     \<and> sourceToken sampleCrypto (\<lambda>c. Some ''m'') sampleCISource = mintFor (\<lambda>c. Some ''m'') ev
     \<and> snd (createCISourceH sampleCrypto (\<lambda>_. True) 5 noFaults ''c2'' patRequest ''o1'' [sampleCISource]) = [sampleCISource, r]
     \<and> sourceToken sampleCrypto (\<lambda>_. None) r = Inr ''tok''"
proof -
  let ?sc = "\<lparr>sc_PlatformAdmin = False, sc_OrgIDs = [''o1'']\<rparr>"
  let ?c = "createCISourceH sampleCrypto (\<lambda>_. True) 5 noFaults ''c2'' patRequest ''o1'' [sampleCISource]"
  let ?u = "updateCISourceH sampleCrypto (\<lambda>_. True) 5 noFaults ''c1'' identityRequest ?sc [sampleCISource]"
  have "case fst ?c of CISource _ \<Rightarrow> True | _ \<Rightarrow> False" "case fst ?u of CISource _ \<Rightarrow> True | _ \<Rightarrow> False" by code_simp+
  then obtain v v' t1 t2 ev where c: "?c = (CISource v, t1)" and u: "?u = (CISource v', t2, ev)"
    by (cases ?c; cases ?u) (auto split: ciReply.splits)
  have ok: "list_all ciSourceOK [sampleCISource]" "distinct (map ci_ID [sampleCISource])" by (simp_all add: sampleCISource_OK)
  have "case snd (snd ?u) of None \<Rightarrow> False | Some _ \<Rightarrow> True" by code_simp
  with u obtain e where e: "ev = Some e" by (auto split: option.splits)
  have "requestedToken (\<lambda>_. None) (cleanRequest patRequest) = Inr ''tok''" by code_simp
  with submitted_credential_is_used[OF c u ok(2,1)] c u e show ?thesis by fastforce
qed

theorem connections_stay_in_organization_witness:
  "\<exists>p. createPipelineH sampleCrypto 5 noFaults ''p1'' [sampleCISource]
       \<lparr>pq_Name = ''drift'', pq_Provider = ''azure_devops'', pq_Config = [(''ci_source_id'', JStr ''c1'')], pq_Token = []\<rparr> ''o1'' [] = (Pipeline p, [p])
     \<and> ownReference [sampleCISource] ''o1'' p"
proof -
  let ?req = "\<lparr>pq_Name = ''drift'', pq_Provider = ''azure_devops'', pq_Config = [(''ci_source_id'', JStr ''c1'')], pq_Token = []\<rparr>"
  let ?c = "createPipelineH sampleCrypto 5 noFaults ''p1'' [sampleCISource] ?req ''o1'' []"
  have "case fst ?c of Pipeline _ \<Rightarrow> True | _ \<Rightarrow> False" by code_simp
  then obtain p t1 where c: "?c = (Pipeline p, t1)" by (cases ?c) (auto split: pipelineReply.splits)
  obtain r2 t2 where u: "updatePipelineH sampleCrypto 5 noFaults ''p1'' [sampleCISource] ?req noScope [] = (r2, t2)" by fastforce
  obtain r3 t3 where d: "deletePipelineH noFaults ''p1'' noScope [] = (r3, t3)" by fastforce
  from connections_stay_in_organization[OF c u d] c show ?thesis by auto
qed

end
