(* ===== verification/DriftDispatch.thy ===== *)
theory DriftDispatch
  imports DriftSystem Credentials
begin

text \<open>
  \<open>api/validate.go\<close>, the dispatch half of \<open>api/drift.go\<close>, the pipeline and CI source reads it
  makes and \<open>internal/pipelines\<close>' two dispatch calls: a target is checked, its connection, sources
  and credential are read under one authority, a run row is written per target and one CI job is
  started for all of them, or none is left behind.

  Go maps are given in the order of their iteration. What other systems answer (decryption and
  minting of a credential, the CI provider), the drawn ids and tokens and failing statements are
  arguments; the calls made to a CI provider are part of the result.
\<close>

section \<open>Inputs\<close>

definition isAlnum :: "char \<Rightarrow> bool" where
  "isAlnum c = (isDigit c \<or> (CHR ''A'' \<le> c \<and> c \<le> CHR ''Z'') \<or> (CHR ''a'' \<le> c \<and> c \<le> CHR ''z''))"

text \<open>The expressions of \<open>validate.go\<close>, each over the whole string.\<close>

definition reWorkingDir :: "string \<Rightarrow> bool" where
  "reWorkingDir = list_all (\<lambda>c. isAlnum c \<or> c \<in> set ''._/-'')"

definition reTFVersion :: "string \<Rightarrow> bool" where
  "reTFVersion = list_all (\<lambda>c. isAlnum c \<or> c \<in> set ''._-'')"

definition reHost :: "string \<Rightarrow> bool" where
  "reHost s =
     (let host = takeWhile (\<lambda>c. c \<noteq> CHR '':'') s; port = drop (length host) s
      in host \<noteq> [] \<and> list_all (\<lambda>c. isAlnum c \<or> c \<in> set ''.-'') host
         \<and> (port = [] \<or> (tl port \<noteq> [] \<and> list_all isDigit (tl port))))"

definition reProviderName :: "string \<Rightarrow> bool" where
  "reProviderName s = (s \<noteq> [] \<and> list_all (\<lambda>c. isDigit c \<or> (CHR ''a'' \<le> c \<and> c \<le> CHR ''z'') \<or> c \<in> set ''_-'') s)"

definition reVersionSpec :: "string \<Rightarrow> bool" where
  "reVersionSpec s = (s \<noteq> [] \<and> list_all (\<lambda>c. isAlnum c \<or> c \<in> set '' .,<>=~!^*-'') s)"

definition forbiddenInKey :: "char \<Rightarrow> bool" where
  "forbiddenInKey c = (of_char c < (32::nat) \<or> of_char c = (127::nat) \<or> c \<in> set ''$;|&<>''
     \<or> c \<in> {CHR 0x22, CHR 0x27, CHR 0x60, CHR 0x5C})"

definition reStateKeyForbidden :: "string \<Rightarrow> bool" where
  "reStateKeyForbidden = list_ex forbiddenInKey"

datatype validateErr =
    InvalidWorkingDir | InvalidRepoRef | InvalidVersion | InvalidHost | InvalidName string | InvalidSpec string
  | TooManyTargets | KeyTooLong | KeyForbidden | TooManyParams | InvalidParam | SameTokenName string string | DuplicateTarget string string

fun validateVersionMap :: "string \<Rightarrow> (string \<times> string) list \<Rightarrow> validateErr option" where
  "validateVersionMap kind [] = None"
| "validateVersionMap kind ((name, version) # m) =
     (if \<not> reProviderName name then Some (InvalidName kind)
      else if \<not> reVersionSpec version then Some (InvalidSpec kind)
      else validateVersionMap kind m)"

definition validatePipelineInputs ::
    "string \<Rightarrow> string \<Rightarrow> string \<Rightarrow> string \<Rightarrow> (string \<times> string) list \<Rightarrow> (string \<times> string) list \<Rightarrow> validateErr option" where
  "validatePipelineInputs workingDir repoRef tfVersion registryHost providers modules =
     (if workingDir \<noteq> [] \<and> \<not> reWorkingDir workingDir then Some InvalidWorkingDir
      else if repoRef \<noteq> [] \<and> \<not> reWorkingDir repoRef then Some InvalidRepoRef
      else if tfVersion \<noteq> [] \<and> \<not> reTFVersion tfVersion then Some InvalidVersion
      else if registryHost \<noteq> [] \<and> \<not> reHost registryHost then Some InvalidHost
      else (case validateVersionMap ''provider'' providers of
              Some e \<Rightarrow> Some e
            | None \<Rightarrow> validateVersionMap ''module'' modules))"

section \<open>Targets\<close>

record driftTargetItem =
  ti_SourceID :: string
  ti_StateKey :: string
  ti_WorkingDir :: string
  ti_Params :: "(string \<times> string) list"

record driftTarget =
  tg_PipelineConnectionID :: string
  tg_SourceID :: string
  tg_StateKey :: string
  tg_RepoRef :: string
  tg_WorkingDir :: string
  tg_Targets :: "driftTargetItem list"

definition targetItems :: "driftTarget \<Rightarrow> driftTargetItem list" where
  "targetItems t =
     (if tg_Targets t \<noteq> [] then tg_Targets t
      else [\<lparr>ti_SourceID = tg_SourceID t, ti_StateKey = tg_StateKey t, ti_WorkingDir = tg_WorkingDir t, ti_Params = []\<rparr>])"

definition decodeTargetItem :: "json \<Rightarrow> driftTargetItem option" where
  "decodeTargetItem j = do {
     kvs \<leftarrow> structMembers j;
     src \<leftarrow> fieldOr [] decodeStr ''source_id'' kvs;
     key \<leftarrow> fieldOr [] decodeStr ''state_key'' kvs;
     dir \<leftarrow> fieldOr [] decodeStr ''working_dir'' kvs;
     params \<leftarrow> fieldOr [] (decodeStructMap decodeStr) ''params'' kvs;
     Some \<lparr>ti_SourceID = src, ti_StateKey = key, ti_WorkingDir = dir, ti_Params = params\<rparr>
   }"

definition decodeDriftTarget :: "json \<Rightarrow> driftTarget option" where
  "decodeDriftTarget j = do {
     kvs \<leftarrow> structMembers j;
     conn \<leftarrow> fieldOr [] decodeStr ''pipeline_connection_id'' kvs;
     src \<leftarrow> fieldOr [] decodeStr ''source_id'' kvs;
     key \<leftarrow> fieldOr [] decodeStr ''state_key'' kvs;
     ref \<leftarrow> fieldOr [] decodeStr ''repo_ref'' kvs;
     dir \<leftarrow> fieldOr [] decodeStr ''working_dir'' kvs;
     targets \<leftarrow> fieldOr [] (\<lambda>v. Option.bind (decodeList v) (decodeAll decodeTargetItem)) ''targets'' kvs;
     Some \<lparr>tg_PipelineConnectionID = conn, tg_SourceID = src, tg_StateKey = key, tg_RepoRef = ref, tg_WorkingDir = dir,
       tg_Targets = targets\<rparr>
   }"

definition maxDriftTargets :: nat where "maxDriftTargets = 100"
definition maxStateKeyLen :: nat where "maxStateKeyLen = 512"
definition maxDriftTargetParams :: nat where "maxDriftTargetParams = 8"

definition fanOutCallbackTokenVariableName :: "string \<Rightarrow> string" where
  "fanOutCallbackTokenVariableName workingDir = ''cb_token_'' @ replaceAll CHR ''/'' CHR ''_'' workingDir"

definition validateItem :: "driftTargetItem \<Rightarrow> validateErr option" where
  "validateItem item =
     (case validatePipelineInputs (ti_WorkingDir item) [] [] [] [] [] of
        Some e \<Rightarrow> Some e
      | None \<Rightarrow>
          if maxStateKeyLen < length (ti_StateKey item) then Some KeyTooLong
          else if reStateKeyForbidden (ti_StateKey item) then Some KeyForbidden
          else if maxDriftTargetParams < length (ti_Params item) then Some TooManyParams
          else if list_ex (\<lambda>(k, v). \<not> reWorkingDir k \<or> \<not> reWorkingDir v) (ti_Params item) then Some InvalidParam
          else None)"

text \<open>The loop of \<open>validateDriftTargets\<close>: \<open>seen\<close> are the pairs and \<open>names\<close> the token names so far.\<close>

fun validateTargetsLoop ::
    "driftTargetItem list \<Rightarrow> (string \<times> string) list \<Rightarrow> (string \<times> string) list \<Rightarrow> validateErr option" where
  "validateTargetsLoop [] seen names = None"
| "validateTargetsLoop (item # items) seen names =
     (case validateItem item of
        Some e \<Rightarrow> Some e
      | None \<Rightarrow>
          (let name = fanOutCallbackTokenVariableName (ti_WorkingDir item)
           in case map_of names name of
                Some other \<Rightarrow> Some (SameTokenName other (ti_WorkingDir item))
              | None \<Rightarrow>
                  (let names' = (name, ti_WorkingDir item) # names; key = (ti_SourceID item, ti_StateKey item)
                   in if key = ([], []) then validateTargetsLoop items seen names'
                      else if key \<in> set seen then Some (DuplicateTarget (fst key) (snd key))
                      else validateTargetsLoop items (key # seen) names')))"

definition validateDriftTargets :: "driftTargetItem list \<Rightarrow> validateErr option" where
  "validateDriftTargets items =
     (if maxDriftTargets < length items then Some TooManyTargets else validateTargetsLoop items [] [])"

section \<open>Errors\<close>

definition fanOutFromMap :: "json gomap \<Rightarrow> bool" where
  "fanOutFromMap m = (case oget ''fan_out'' m of Some (JBool b) \<Rightarrow> b | _ \<Rightarrow> False)"

datatype dispatchErr =
    LoadConnectionFailed | PipelineNotFound | FanOutNotCapable | FanOutRequiresSecretVariables | LoadSourceFailed
  | DecryptFailed cryptErr | LoadCISourceFailed | CISourceNotReachable | CITokenFailed sourceTokenErr | CreateRunFailed runErr | EncodeFailed
  | UnsupportedProvider string | CIConfigIncomplete | CICredentialMissing | CIRefused string

section \<open>The call to the CI provider\<close>

record adoRunVariable =
  rv_Value :: string
  rv_IsSecret :: bool

text \<open>What is posted: the provider's coordinates, the ref, the inputs or template parameters, the
  \<open>targets\<close> parameter where it is sent, and the run variables.\<close>

record ciCall =
  cc_Token :: string
  cc_Bearer :: bool
  cc_Path :: "string list"
  cc_Ref :: string
  cc_Params :: "(string \<times> string) list"
  cc_Targets :: "json option"
  cc_Variables :: "adoRunVariable gomap"

record driftInputs =
  in_CallbackURL :: string
  in_CallbackToken :: string
  in_WorkingDir :: string
  in_Targets :: "json option"

type_synonym ciRef = "string \<times> string"

definition wireParams :: "driftInputs \<Rightarrow> (string \<times> string) list" where
  "wireParams i = [(''callback_url'', in_CallbackURL i), (''callback_token'', in_CallbackToken i), (''working_dir'', in_WorkingDir i)]"

text \<open>The answer to a call: its status and, of an Azure DevOps body that decodes, the run's id and link.\<close>

record ciAnswer =
  ca_Status :: int
  ca_Message :: string
  ca_Run :: "ciRef option"

definition dispatchGitHub ::
    "(ciCall \<Rightarrow> string + ciAnswer) \<Rightarrow> string \<Rightarrow> json gomap \<Rightarrow> string \<Rightarrow> (string \<times> string) list \<Rightarrow> json option \<Rightarrow>
     dispatchErr option \<times> ciCall list" where
  "dispatchGitHub http token cfg ref inputs targets =
     (if configStr ''owner'' cfg = [] \<or> configStr ''repo'' cfg = [] \<or> configStr ''workflow_id'' cfg = [] then (Some CIConfigIncomplete, [])
      else if token = [] then (Some CICredentialMissing, [])
      else (let ref1 = (if ref = [] then configStr ''ref'' cfg else ref);
                ref2 = (if ref1 = [] then ''main'' else ref1);
                call = \<lparr>cc_Token = token, cc_Bearer = True,
                        cc_Path = [configStr ''owner'' cfg, configStr ''repo'' cfg, configStr ''workflow_id'' cfg], cc_Ref = ref2,
                        cc_Params = inputs, cc_Targets = targets, cc_Variables = []\<rparr>
            in (case http call of
                  Inl e \<Rightarrow> Some (CIRefused e)
                | Inr a \<Rightarrow> if ca_Status a = 204 then None else Some (CIRefused (ca_Message a)), [call])))"

definition dispatchGitHubDrift ::
    "(ciCall \<Rightarrow> string + ciAnswer) \<Rightarrow> string \<Rightarrow> json gomap \<Rightarrow> string \<Rightarrow> driftInputs \<Rightarrow> (dispatchErr + ciRef option) \<times> ciCall list" where
  "dispatchGitHubDrift http token cfg ref inputs =
     (case dispatchGitHub http token cfg ref (wireParams inputs) (in_Targets inputs) of
        (Some e, calls) \<Rightarrow> (Inl e, calls)
      | (None, calls) \<Rightarrow> (Inr None, calls))"

definition dispatchAzureDevOpsRun ::
    "(ciCall \<Rightarrow> string + ciAnswer) \<Rightarrow> string \<Rightarrow> bool \<Rightarrow> json gomap \<Rightarrow> string \<Rightarrow> (string \<times> string) list \<Rightarrow> json option \<Rightarrow>
     adoRunVariable gomap \<Rightarrow> (dispatchErr + ciRef option) \<times> ciCall list" where
  "dispatchAzureDevOpsRun http token bearer cfg ref params targets variables =
     (if configStr ''organization'' cfg = [] \<or> configStr ''project'' cfg = [] \<or> configStr ''pipeline_id'' cfg = [] then (Inl CIConfigIncomplete, [])
      else if token = [] then (Inl CICredentialMissing, [])
      else (let ref1 = (if ref = [] then configStr ''ref'' cfg else ref);
                ref2 = (if ref1 = [] \<or> hasPrefix ref1 ''refs/'' then ref1 else ''refs/heads/'' @ ref1);
                call = \<lparr>cc_Token = token, cc_Bearer = bearer,
                        cc_Path = [configStr ''organization'' cfg, configStr ''project'' cfg, configStr ''pipeline_id'' cfg], cc_Ref = ref2,
                        cc_Params = params, cc_Targets = targets, cc_Variables = variables\<rparr>
            in (case http call of
                  Inl e \<Rightarrow> Inl (CIRefused e)
                | Inr a \<Rightarrow>
                    if ca_Status a \<noteq> 200 \<and> ca_Status a \<noteq> 201 then Inl (CIRefused (ca_Message a))
                    else (case ca_Run a of
                            None \<Rightarrow> Inr None
                          | Some (i, u) \<Rightarrow> if i = [] then Inr None else Inr (Some (i, u))), [call])))"

definition dispatchAzureDevOpsDrift ::
    "(ciCall \<Rightarrow> string + ciAnswer) \<Rightarrow> string \<Rightarrow> bool \<Rightarrow> json gomap \<Rightarrow> string \<Rightarrow> driftInputs \<Rightarrow> adoRunVariable gomap \<Rightarrow>
     (dispatchErr + ciRef option) \<times> ciCall list" where
  "dispatchAzureDevOpsDrift http token bearer cfg ref inputs variables =
     dispatchAzureDevOpsRun http token bearer cfg ref (wireParams inputs) (in_Targets inputs) variables"

section \<open>Dispatch\<close>

record dispatchEnv =
  dp_connFails :: bool
  dp_sourceFails :: bool
  dp_ciSourceFails :: bool
  dp_createFails :: "nat \<Rightarrow> bool"
  dp_flt :: "runStmt \<Rightarrow> bool"
  dp_encodeFails :: bool
  dp_now :: int
  dp_newID :: "nat \<Rightarrow> string"
  dp_newToken :: "nat \<Rightarrow> string"
  dp_newBatch :: string
  dp_crypto :: cryptoEnv
  dp_mint :: "ciCreds \<Rightarrow> string option"
  dp_http :: "ciCall \<Rightarrow> string + ciAnswer"
  dp_callbackBase :: string
  dp_text :: "dispatchErr \<Rightarrow> string"

record dispatchTables =
  dt_Connections :: "pipelineConnection list"
  dt_CISources :: "ciSourceRow list"
  dt_Sources :: "sourceRow list"

definition resolvePipelineToken ::
    "dispatchEnv \<Rightarrow> ciSourceRow list \<Rightarrow> pipelineConnection \<Rightarrow> dispatchAuthority \<Rightarrow> dispatchErr + string \<times> bool" where
  "resolvePipelineToken env srcs conn auth =
     (if pc_EncryptedToken conn \<noteq> [] then
        (case openValue (dp_crypto env) (pc_EncryptedToken conn) PurposePipelineDispatchToken of
           Inl e \<Rightarrow> Inl (DecryptFailed e)
         | Inr pt \<Rightarrow> Inr (pt, False))
      else (let i = configStr ''ci_source_id'' (pc_Config conn)
            in if i = [] then Inr ([], False)
               else if dp_ciSourceFails env then Inl LoadCISourceFailed
               else (case getCISourceInScope i (da_scope auth) srcs of
                       None \<Rightarrow> Inl CISourceNotReachable
                     | Some s \<Rightarrow>
                         (case sourceToken (dp_crypto env) (dp_mint env) s of
                            Inl e \<Rightarrow> Inl (CITokenFailed e)
                          | Inr tok \<Rightarrow> Inr (tok, adoBearerMethod (ci_AuthMethod s))))))"

record driftBatch =
  db_BatchID :: string
  db_Runs :: "driftRun list"

text \<open>\<open>failBatch\<close>: the rows by statement, the runs in memory one by one. It is called with a run at least.\<close>

definition failBatch ::
    "dispatchEnv \<Rightarrow> driftBatch \<Rightarrow> string option \<Rightarrow> string \<Rightarrow> driftRun list \<Rightarrow> driftBatch \<times> driftRun list" where
  "failBatch env batch col detail t =
     (batch\<lparr>db_Runs := map (\<lambda>r. r\<lparr>dn_Status := ''failed'', dn_Detail := detail, dn_CallbackToken := []\<rparr>) (db_Runs batch)\<rparr>,
      (case col of
         Some _ \<Rightarrow> snd (failBatchRows (dp_flt env) (dp_now env) (db_BatchID batch) detail t)
       | None \<Rightarrow> snd (updateStatus (dp_flt env) (dp_now env) (dn_ID (hd (db_Runs batch))) ''failed'' detail t)))"

definition newRun :: "dispatchEnv \<Rightarrow> pipelineConnection \<Rightarrow> string \<Rightarrow> string \<Rightarrow> string option \<Rightarrow> nat \<Rightarrow> driftTargetItem \<Rightarrow> driftRun" where
  "newRun env conn repoRef actor col n item =
     \<lparr>dn_ID = [], dn_PipelineConnectionID = Some (pc_ID conn), dn_SourceID = (if ti_SourceID item = [] then None else Some (ti_SourceID item)),
      dn_StateKey = ti_StateKey item, dn_RepoRef = repoRef, dn_WorkingDir = ti_WorkingDir item, dn_Status = ''dispatched'',
      dn_Added = None, dn_Changed = None, dn_Destroyed = None, dn_Drifted = None, dn_Summary = [], dn_Detail = [],
      dn_CallbackToken = dp_newToken env n, dn_Actor = actor, dn_CreatedAt = 0, dn_UpdatedAt = 0, dn_BatchID = col,
      dn_CIRunID = [], dn_CIRunURL = [], dn_Infra = noInfra, dn_Marks = noMarks, dn_Org = None\<rparr>"

text \<open>One row per target; the loop stops at the first that cannot be created.\<close>

fun createRuns ::
    "dispatchEnv \<Rightarrow> dispatchAuthority \<Rightarrow> (nat \<Rightarrow> driftTargetItem \<Rightarrow> driftRun) \<Rightarrow> nat \<Rightarrow> driftTargetItem list \<Rightarrow>
     driftRun list \<times> driftRun list \<Rightarrow> runErr option \<times> driftRun list \<times> driftRun list" where
  "createRuns env auth mk n [] (runs, t) = (None, runs, t)"
| "createRuns env auth mk n (item # items) (runs, t) =
     (case createRun (\<lambda>_. dp_createFails env n) (dp_now env) (dp_newID env n) (mk n item) (da_organizationID auth) t of
        (Inl e, t') \<Rightarrow> (Some e, runs, t')
      | (Inr r, t') \<Rightarrow> createRuns env auth mk (Suc n) items (runs @ [r], t'))"

definition callbackURL :: "dispatchEnv \<Rightarrow> string \<Rightarrow> string" where
  "callbackURL env i = trimRight CHR ''/'' (dp_callbackBase env) @ ''/api/v1/drift/runs/'' @ i @ ''/results''"

definition fanOutTarget :: "dispatchEnv \<Rightarrow> driftTargetItem \<times> driftRun \<Rightarrow> json" where
  "fanOutTarget env = (\<lambda>(item, r). JObj ([(''working_dir'', JStr (ti_WorkingDir item)), (''state_key'', JStr (ti_StateKey item)),
       (''callback_url'', JStr (callbackURL env (dn_ID r)))]
     @ (if ti_Params item = [] then [] else [(''params'', JObj (map (map_prod id JStr) (ti_Params item)))])))"

definition fanOutVariables :: "(driftTargetItem \<times> driftRun) list \<Rightarrow> adoRunVariable gomap" where
  "fanOutVariables prs =
     omap_of (map (\<lambda>(item, r). (fanOutCallbackTokenVariableName (ti_WorkingDir item),
                                \<lparr>rv_Value = dn_CallbackToken r, rv_IsSecret = True\<rparr>)) prs)"

text \<open>After the rows exist: the inputs, the one call, and what is recorded of its answer.\<close>

definition launchBatch ::
    "dispatchEnv \<Rightarrow> pipelineConnection \<Rightarrow> string \<Rightarrow> string \<times> bool \<Rightarrow> driftTargetItem list \<Rightarrow> string option \<Rightarrow> driftRun list \<Rightarrow> driftRun list \<Rightarrow>
     (driftBatch option \<times> dispatchErr option) \<times> driftRun list \<times> ciCall list" where
  "launchBatch env conn repoRef cred items col runs t =
     (let first = hd runs;
          batch = \<lparr>db_BatchID = (case col of None \<Rightarrow> dn_ID first | Some b \<Rightarrow> b), db_Runs = runs\<rparr>;
          fan = 1 < length items;
          prs = zip items runs;
          inputs = \<lparr>in_CallbackURL = callbackURL env (dn_ID first), in_CallbackToken = dn_CallbackToken first,
                    in_WorkingDir = ti_WorkingDir (hd items),
                    in_Targets = (if fan then Some (JArr (map (fanOutTarget env) prs)) else None)\<rparr>;
          giveUp = (\<lambda>e calls. let (b, t') = failBatch env batch col (dp_text env e) t in ((Some b, Some e), t', calls))
      in if fan \<and> dp_encodeFails env then giveUp EncodeFailed []
         else (let (res, calls) =
                 (if pc_Provider conn = ''github_actions'' then dispatchGitHubDrift (dp_http env) (fst cred) (pc_Config conn) repoRef inputs
                  else if pc_Provider conn = ''azure_devops'' then
                    dispatchAzureDevOpsDrift (dp_http env) (fst cred) (snd cred) (pc_Config conn) repoRef inputs
                      (if fan then fanOutVariables prs else [])
                  else (Inl (UnsupportedProvider (pc_Provider conn)), []))
               in (case res of
                     Inl e \<Rightarrow> giveUp e calls
                   | Inr ref \<Rightarrow>
                       (let (ok, t') = (case ref of None \<Rightarrow> (False, t)
                                        | Some (i, u) \<Rightarrow> setCIRun (dp_flt env) (dp_now env) (db_BatchID batch) i u t);
                            runs' = map (\<lambda>r. case ref of
                                               Some (i, u) \<Rightarrow> if ok then r\<lparr>dn_CIRunID := i, dn_CIRunURL := u\<rparr> else r
                                             | None \<Rightarrow> r) runs
                        in ((Some (batch\<lparr>db_Runs := map hideToken runs'\<rparr>), None), t', calls)))))"

fun sourcesErr :: "bool \<Rightarrow> sourceRow list \<Rightarrow> driftTargetItem list \<Rightarrow> dispatchAuthority \<Rightarrow> dispatchErr option" where
  "sourcesErr fails srcs [] auth = None"
| "sourcesErr fails srcs (item # items) auth =
     (case sourceFor fails srcs (ti_SourceID item) auth of
        Inl NotOwnedHere \<Rightarrow> Some PipelineNotFound
      | Inl SourceLoadFailed \<Rightarrow> Some LoadSourceFailed
      | Inr _ \<Rightarrow> sourcesErr fails srcs items auth)"

text \<open>Everything that is read and refused before a row exists.\<close>

definition authorizeDispatch ::
    "dispatchEnv \<Rightarrow> dispatchTables \<Rightarrow> driftTarget \<Rightarrow> dispatchAuthority \<Rightarrow> dispatchErr + pipelineConnection \<times> string \<times> bool" where
  "authorizeDispatch env tbl tgt auth =
     (let items = targetItems tgt; fan = 1 < length items
      in if dp_connFails env then Inl LoadConnectionFailed
         else (case getConnectionInScope (tg_PipelineConnectionID tgt) (da_scope auth) (dt_Connections tbl) of
                 None \<Rightarrow> Inl PipelineNotFound
               | Some conn \<Rightarrow>
                   if fan \<and> \<not> fanOutFromMap (pc_Config conn) then Inl FanOutNotCapable
                   else if fan \<and> pc_Provider conn \<noteq> ''azure_devops'' then Inl FanOutRequiresSecretVariables
                   else (case sourcesErr (dp_sourceFails env) (dt_Sources tbl) items auth of
                           Some e \<Rightarrow> Inl e
                         | None \<Rightarrow>
                             (case resolvePipelineToken env (dt_CISources tbl) conn auth of
                                Inl e \<Rightarrow> Inl e
                              | Inr cred \<Rightarrow> Inr (conn, cred)))))"

definition dispatchDriftBatch ::
    "dispatchEnv \<Rightarrow> dispatchTables \<Rightarrow> driftTarget \<Rightarrow> string \<Rightarrow> dispatchAuthority \<Rightarrow> driftRun list \<Rightarrow>
     (driftBatch option \<times> dispatchErr option) \<times> driftRun list \<times> ciCall list" where
  "dispatchDriftBatch env tbl tgt actor auth t =
     (case authorizeDispatch env tbl tgt auth of
        Inl e \<Rightarrow> ((None, Some e), t, [])
      | Inr (conn, cred) \<Rightarrow>
          (let items = targetItems tgt; col = (if 1 < length items then Some (dp_newBatch env) else None)
           in case createRuns env auth (newRun env conn (tg_RepoRef tgt) actor col) 0 items ([], t) of
                (Some e, runs, t') \<Rightarrow>
                  ((None, Some (CreateRunFailed e)),
                   (case col of
                      Some b \<Rightarrow>
                        if runs = [] then t'
                        else snd (failBatch env \<lparr>db_BatchID = b, db_Runs = runs\<rparr> col
                               (''batch aborted: '' @ dp_text env (CreateRunFailed e)) t')
                    | None \<Rightarrow> t'), [])
              | (None, runs, t') \<Rightarrow> launchBatch env conn (tg_RepoRef tgt) cred items col runs t'))"

section \<open>The request\<close>

datatype batchReply = OneRun driftRun | ManyRuns string "driftRun list"

definition driftBatchResponse :: "driftBatch \<Rightarrow> batchReply" where
  "driftBatchResponse batch = (if length (db_Runs batch) = 1 then OneRun (hd (db_Runs batch)) else ManyRuns (db_BatchID batch) (db_Runs batch))"

datatype createRunReply = RunBad | RunRefused | RunNotFound | RunBadGateway batchReply | RunServerError | RunAccepted batchReply

definition createRunReplyOf :: "driftBatch option \<Rightarrow> dispatchErr option \<Rightarrow> createRunReply" where
  "createRunReplyOf b e =
     (case (b, e) of
        (_, Some PipelineNotFound) \<Rightarrow> RunNotFound
      | (_, Some FanOutNotCapable) \<Rightarrow> RunBad
      | (_, Some FanOutRequiresSecretVariables) \<Rightarrow> RunBad
      | (Some batch, Some _) \<Rightarrow> RunBadGateway (driftBatchResponse batch)
      | (None, Some _) \<Rightarrow> RunServerError
      | (Some batch, None) \<Rightarrow> RunAccepted (driftBatchResponse batch)
      | (None, None) \<Rightarrow> RunServerError)"

text \<open>\<open>CreateRun\<close>: the reply, the runs, the calls and the runs an audit entry is written for. A dispatch never
  returns neither a batch nor an error.\<close>

definition createRunH ::
    "dispatchEnv \<Rightarrow> dispatchTables \<Rightarrow> driftTarget \<Rightarrow> string \<Rightarrow> string \<Rightarrow> driftRun list \<Rightarrow>
     createRunReply \<times> driftRun list \<times> ciCall list \<times> string list" where
  "createRunH env tbl req actor org t =
     (if tg_PipelineConnectionID req = [] then (RunBad, t, [], [])
      else if validatePipelineInputs [] (tg_RepoRef req) [] [] [] [] \<noteq> None then (RunBad, t, [], [])
      else if validateDriftTargets (targetItems req) \<noteq> None then (RunBad, t, [], [])
      else if org = [] then (RunRefused, t, [], [])
      else (case dispatchDriftBatch env tbl req actor (requestAuthority org) t of
              ((b, e), t', calls) \<Rightarrow>
                (createRunReplyOf b e, t', calls, case b of None \<Rightarrow> [] | Some batch \<Rightarrow> map dn_ID (db_Runs batch))))"

section \<open>What validation guarantees\<close>

definition itemOK :: "driftTargetItem \<Rightarrow> bool" where
  "itemOK item = (reWorkingDir (ti_WorkingDir item) \<and> length (ti_StateKey item) \<le> 512
     \<and> \<not> list_ex forbiddenInKey (ti_StateKey item) \<and> length (ti_Params item) \<le> 8
     \<and> (\<forall>(k, v) \<in> set (ti_Params item). reWorkingDir k \<and> reWorkingDir v))"

abbreviation tokenName :: "driftTargetItem \<Rightarrow> string" where
  "tokenName item \<equiv> fanOutCallbackTokenVariableName (ti_WorkingDir item)"

abbreviation targetKey :: "driftTargetItem \<Rightarrow> string \<times> string" where
  "targetKey item \<equiv> (ti_SourceID item, ti_StateKey item)"

lemma reWorkingDir_Nil [simp]: "reWorkingDir []"
  by (simp add: reWorkingDir_def)

lemma validateItem_None: "validateItem item = None \<longleftrightarrow> itemOK item"
  by (auto simp: validateItem_def validatePipelineInputs_def itemOK_def maxStateKeyLen_def maxDriftTargetParams_def
      reStateKeyForbidden_def list_ex_iff split: option.splits)

lemma validateTargetsLoop_None:
  "validateTargetsLoop items seen names = None \<longleftrightarrow>
     list_all itemOK items \<and> distinct (map tokenName items) \<and> set (map tokenName items) \<inter> fst ` set names = {}
     \<and> distinct (filter (\<lambda>k. k \<noteq> ([], [])) (map targetKey items))
     \<and> set (filter (\<lambda>k. k \<noteq> ([], [])) (map targetKey items)) \<inter> set seen = {}"
proof (induction items arbitrary: seen names)
  case (Cons item items)
  have free: "map_of names (tokenName item) = None \<longleftrightarrow> tokenName item \<notin> fst ` set names"
    by (simp add: map_of_eq_None_iff)
  show ?case
  proof (cases "validateItem item")
    case None
    then have ok: "itemOK item" by (simp add: validateItem_None)
    show ?thesis
    proof (cases "map_of names (tokenName item)")
      case taken: None
      let ?names = "(tokenName item, ti_WorkingDir item) # names"
      consider "targetKey item = ([], [])" | "targetKey item \<noteq> ([], [])" "targetKey item \<in> set seen"
        | "targetKey item \<noteq> ([], [])" "targetKey item \<notin> set seen" by blast
      then show ?thesis
      proof cases
        case 1
        with None taken have "validateTargetsLoop (item # items) seen names = validateTargetsLoop items seen ?names"
          by (simp add: Let_def)
        with 1 ok taken[unfolded free] Cons.IH[of seen ?names] show ?thesis by auto
      next
        case 2
        with None taken have "validateTargetsLoop (item # items) seen names \<noteq> None" by (auto simp: Let_def)
        with 2 show ?thesis by auto
      next
        case 3
        with None taken have "validateTargetsLoop (item # items) seen names = validateTargetsLoop items (targetKey item # seen) ?names"
          by (auto simp: Let_def)
        with 3 ok taken[unfolded free] Cons.IH[of "targetKey item # seen" ?names] show ?thesis by auto
      qed
    next
      case (Some other)
      with None free show ?thesis by (auto simp: Let_def)
    qed
  next
    case (Some e)
    then have "\<not> itemOK item" using validateItem_None[of item] by simp
    with Some show ?thesis by simp
  qed
qed simp

text \<open>Validation accepts exactly the targets that are safe together. A list passes exactly when it
  has at most a hundred targets, each with a plain working directory and parameters and a bounded
  state key free of quoting and control characters, no two of which share the name of a secret
  variable or a tracked state.\<close>

theorem validation_exact:
  "validateDriftTargets items = None \<longleftrightarrow>
     length items \<le> 100 \<and> list_all itemOK items \<and> distinct (map tokenName items)
     \<and> distinct (filter (\<lambda>k. k \<noteq> ([], [])) (map targetKey items))"
  by (auto simp: validateDriftTargets_def maxDriftTargets_def validateTargetsLoop_None)

section \<open>One authority\<close>

definition ownTables :: "scope \<Rightarrow> dispatchTables \<Rightarrow> dispatchTables" where
  "ownTables sc tbl = \<lparr>dt_Connections = filter (\<lambda>p. reaches sc (pc_Org p)) (dt_Connections tbl),
     dt_CISources = filter (\<lambda>s. reaches sc (ci_Org s)) (dt_CISources tbl),
     dt_Sources = filter (\<lambda>s. reaches sc (so_Org s)) (dt_Sources tbl)\<rparr>"

lemma own_reads:
  "getConnectionInScope i sc (filter (\<lambda>p. reaches sc (pc_Org p)) ps) = getConnectionInScope i sc ps"
  "getCISourceInScope i sc (filter (\<lambda>s. reaches sc (ci_Org s)) cs) = getCISourceInScope i sc cs"
  "getSourceInScope sc i (filter (\<lambda>s. reaches sc (so_Org s)) ss) = getSourceInScope sc i ss"
  unfolding getConnectionInScope_def getCISourceInScope_def getSourceInScope_def
  by (simp_all only: getConnection.reads_reached getCISource.reads_reached getSource.reads_reached filter_filter conj_absorb)

lemma own_sources:
  "sourcesErr fails (filter (\<lambda>s. reaches (da_scope auth) (so_Org s)) srcs) items auth = sourcesErr fails srcs items auth"
  by (induction items) (auto simp: sourceFor_def own_reads split: sum.splits sourceErr.splits option.splits)

lemma own_token: "resolvePipelineToken env (filter (\<lambda>s. reaches (da_scope auth) (ci_Org s)) cs) conn auth = resolvePipelineToken env cs conn auth"
  by (simp add: resolvePipelineToken_def own_reads Let_def)

text \<open>A dispatch sees one organization. Its outcome, the rows it writes and the calls it makes are the
  same when every connection, CI source and state source its authority does not reach is taken
  away, so a row that names another organization's is as good as missing.\<close>

theorem dispatch_sees_one_organization:
  "dispatchDriftBatch env (ownTables (da_scope auth) tbl) tgt actor auth t = dispatchDriftBatch env tbl tgt actor auth t"
  by (simp only: dispatchDriftBatch_def authorizeDispatch_def ownTables_def dispatchTables.simps own_reads own_sources own_token)

section \<open>What the rows are\<close>

text \<open>The k-th row of a dispatch: its id and token are the k-th drawn.\<close>

definition madeFrom :: "dispatchEnv \<Rightarrow> dispatchAuthority \<Rightarrow> driftRun \<Rightarrow> nat \<Rightarrow> driftRun \<Rightarrow> bool" where
  "madeFrom env auth d k r =
     (dn_ID r = dp_newID env k \<and> dn_CallbackToken r = dn_CallbackToken d \<and> dn_Status r = dn_Status d \<and> dn_BatchID r = dn_BatchID d
      \<and> dn_SourceID r = dn_SourceID d \<and> dn_StateKey r = dn_StateKey d \<and> dn_WorkingDir r = dn_WorkingDir d
      \<and> dn_Org r = Some (trimSpace (da_organizationID auth)))"

lemma createRun_cases:
  assumes "createRun (\<lambda>_. b) (dp_now env) (dp_newID env k) d (da_organizationID auth) t = (res, t')"
  obtains (failed) e where "res = Inl e" "t' = t" | (made) r where "res = Inr r" "t' = t @ [r]" "madeFrom env auth d k r"
  using assms by (auto simp: createRun_def madeFrom_def Let_def split: if_splits)

lemma createRuns_spec:
  assumes "createRuns env auth mk n items (runs, t) = (e, runs', t')"
  shows "\<exists>rs. runs' = runs @ rs \<and> t' = t @ rs \<and> length rs \<le> length items \<and> (e = None \<longleftrightarrow> length rs = length items)
    \<and> (\<forall>k < length rs. madeFrom env auth (mk (n + k) (items ! k)) (n + k) (rs ! k))"
  using assms
proof (induction items arbitrary: n runs t)
  case (Cons item items)
  obtain res t1 where c: "createRun (\<lambda>_. dp_createFails env n) (dp_now env) (dp_newID env n) (mk n item) (da_organizationID auth) t = (res, t1)"
    by fastforce
  from c show ?case
  proof (cases rule: createRun_cases)
    case (failed x)
    with Cons.prems c have "e = Some x" "runs' = runs" "t' = t" by auto
    then show ?thesis by (intro exI[of _ "[]"]) simp
  next
    case (made r)
    with Cons.prems c have "createRuns env auth mk (Suc n) items (runs @ [r], t @ [r]) = (e, runs', t')" by simp
    from Cons.IH[OF this] obtain rs where rs: "runs' = (runs @ [r]) @ rs" "t' = (t @ [r]) @ rs" "length rs \<le> length items"
      "e = None \<longleftrightarrow> length rs = length items"
      "\<forall>k < length rs. madeFrom env auth (mk (Suc n + k) (items ! k)) (Suc n + k) (rs ! k)" by blast
    have "madeFrom env auth (mk (n + k) ((item # items) ! k)) (n + k) ((r # rs) ! k)" if "k < length (r # rs)" for k
      using rs(5) made(3) that by (cases k) simp_all
    with rs show ?thesis by (intro exI[of _ "r # rs"]) simp
  qed
qed auto

text \<open>Where a dispatch gets past its checks it is \<open>createRuns\<close> and what follows.\<close>

lemma authorizeDispatch_Inr:
  assumes "authorizeDispatch env tbl tgt auth = Inr (conn, cred)"
  shows "getConnectionInScope (tg_PipelineConnectionID tgt) (da_scope auth) (dt_Connections tbl) = Some conn"
    "1 < length (targetItems tgt) \<Longrightarrow> pc_Provider conn = ''azure_devops''"
  using assms by (auto simp: authorizeDispatch_def Let_def split: if_splits option.splits sum.splits)

lemma dispatch_cases:
  assumes "dispatchDriftBatch env tbl tgt actor auth t = ((b, e), t', calls)"
  obtains (refused) x where "b = None" "e = Some x" "t' = t" "calls = []"
  | (aborted) conn x runs where
      "b = None" "e = Some (CreateRunFailed x)" "calls = []"
      "createRuns env auth (newRun env conn (tg_RepoRef tgt) actor (if 1 < length (targetItems tgt) then Some (dp_newBatch env) else None)) 0
         (targetItems tgt) ([], t) = (Some x, runs, t @ runs)"
      "t' = (if 1 < length (targetItems tgt) \<and> runs \<noteq> []
             then snd (failBatchRows (dp_flt env) (dp_now env) (dp_newBatch env) (''batch aborted: '' @ dp_text env (CreateRunFailed x)) (t @ runs))
             else t @ runs)"
  | (launched) conn cred runs where
      "getConnectionInScope (tg_PipelineConnectionID tgt) (da_scope auth) (dt_Connections tbl) = Some conn"
      "1 < length (targetItems tgt) \<Longrightarrow> pc_Provider conn = ''azure_devops''"
      "createRuns env auth (newRun env conn (tg_RepoRef tgt) actor (if 1 < length (targetItems tgt) then Some (dp_newBatch env) else None)) 0
         (targetItems tgt) ([], t) = (None, runs, t @ runs)"
      "launchBatch env conn (tg_RepoRef tgt) cred (targetItems tgt) (if 1 < length (targetItems tgt) then Some (dp_newBatch env) else None)
         runs (t @ runs) = ((b, e), t', calls)"
proof -
  let ?items = "targetItems tgt" and ?col = "if 1 < length (targetItems tgt) then Some (dp_newBatch env) else None"
  show ?thesis
  proof (cases "authorizeDispatch env tbl tgt auth")
    case (Inl x)
    with assms have "b = None" "e = Some x" "t' = t" "calls = []" by (simp_all add: dispatchDriftBatch_def)
    then show ?thesis by (rule refused)
  next
    case (Inr cc)
    obtain conn cred where cc: "cc = (conn, cred)" by (cases cc)
    note conn = authorizeDispatch_Inr[OF Inr[unfolded cc]]
    obtain x runs t1 where c: "createRuns env auth (newRun env conn (tg_RepoRef tgt) actor ?col) 0 ?items ([], t) = (x, runs, t1)"
      by (metis prod_cases3)
    from createRuns_spec[OF this] have t1: "t1 = t @ runs" by auto
    have d: "dispatchDriftBatch env tbl tgt actor auth t =
      (case createRuns env auth (newRun env conn (tg_RepoRef tgt) actor ?col) 0 ?items ([], t) of
         (Some e, runs, t') \<Rightarrow>
           ((None, Some (CreateRunFailed e)),
            (case ?col of
               Some b \<Rightarrow> if runs = [] then t' else snd (failBatch env \<lparr>db_BatchID = b, db_Runs = runs\<rparr> ?col
                          (''batch aborted: '' @ dp_text env (CreateRunFailed e)) t')
             | None \<Rightarrow> t'), [])
       | (None, runs, t') \<Rightarrow> launchBatch env conn (tg_RepoRef tgt) cred ?items ?col runs t')"
      unfolding dispatchDriftBatch_def Inr cc Let_def by simp
    show ?thesis
    proof (cases x)
      case None
      with assms c t1 d have "launchBatch env conn (tg_RepoRef tgt) cred ?items ?col runs (t @ runs) = ((b, e), t', calls)"
        by (simp only: prod.case option.case)
      with launched[OF conn] c None t1 show ?thesis by blast
    next
      case (Some y)
      with assms c t1 d have "b = None" "e = Some (CreateRunFailed y)" "calls = []"
        "t' = (if 1 < length ?items \<and> runs \<noteq> []
               then snd (failBatchRows (dp_flt env) (dp_now env) (dp_newBatch env) (''batch aborted: '' @ dp_text env (CreateRunFailed y)) (t @ runs))
               else t @ runs)"
        by (auto simp: failBatch_def)
      with aborted c Some t1 show ?thesis by blast
    qed
  qed
qed

text \<open>The inputs a batch is started with.\<close>

definition batchInputs :: "dispatchEnv \<Rightarrow> driftTargetItem list \<Rightarrow> driftRun list \<Rightarrow> driftInputs" where
  "batchInputs env items runs =
     \<lparr>in_CallbackURL = callbackURL env (dn_ID (hd runs)), in_CallbackToken = dn_CallbackToken (hd runs),
      in_WorkingDir = ti_WorkingDir (hd items),
      in_Targets = (if 1 < length items then Some (JArr (map (fanOutTarget env) (zip items runs))) else None)\<rparr>"

definition batchOf :: "string option \<Rightarrow> driftRun list \<Rightarrow> driftBatch" where
  "batchOf col runs = \<lparr>db_BatchID = (case col of None \<Rightarrow> dn_ID (hd runs) | Some b \<Rightarrow> b), db_Runs = runs\<rparr>"

lemma ifE_pair: "(if c then x else y) = z \<Longrightarrow> (c \<Longrightarrow> x = z \<Longrightarrow> R) \<Longrightarrow> (\<not> c \<Longrightarrow> y = z \<Longrightarrow> R) \<Longrightarrow> R"
  by (simp split: if_splits)

lemma github_one_call:
  assumes "dispatchGitHub http token cfg ref inputs targets = (e, calls)"
  shows "length calls \<le> 1 \<and> (e = None \<longrightarrow> (\<exists>call. calls = [call] \<and> cc_Params call = inputs \<and> cc_Targets call = targets))"
  using assms unfolding dispatchGitHub_def Let_def by (elim ifE_pair) auto

lemma azure_one_call:
  assumes "dispatchAzureDevOpsRun http token bearer cfg ref params targets vars = (res, calls)"
  shows "length calls \<le> 1 \<and> (\<forall>r. res = Inr r \<longrightarrow> (\<exists>call. calls = [call] \<and> cc_Params call = params \<and> cc_Targets call = targets
    \<and> cc_Variables call = vars))"
  using assms unfolding dispatchAzureDevOpsRun_def Let_def by (elim ifE_pair) auto

lemma github_calls:
  assumes "dispatchGitHubDrift http token cfg ref inputs = (res, calls)"
  shows "length calls \<le> 1" "res = Inr r \<Longrightarrow> \<exists>call. calls = [call] \<and> cc_Params call = wireParams inputs \<and> cc_Targets call = in_Targets inputs"
proof -
  obtain e c where "dispatchGitHub http token cfg ref (wireParams inputs) (in_Targets inputs) = (e, c)" by fastforce
  with github_one_call[OF this] assms show "length calls \<le> 1"
      "res = Inr r \<Longrightarrow> \<exists>call. calls = [call] \<and> cc_Params call = wireParams inputs \<and> cc_Targets call = in_Targets inputs"
    by (cases e; simp add: dispatchGitHubDrift_def)+
qed

lemma azure_calls:
  assumes "dispatchAzureDevOpsDrift http token bearer cfg ref inputs vars = (res, calls)"
  shows "length calls \<le> 1" "res = Inr r \<Longrightarrow> \<exists>call. calls = [call] \<and> cc_Params call = wireParams inputs \<and> cc_Targets call = in_Targets inputs
    \<and> cc_Variables call = vars"
  using azure_one_call assms unfolding dispatchAzureDevOpsDrift_def by blast+

lemma launchBatch_cases:
  assumes "launchBatch env conn repoRef cred items col runs t = ((b, e), t', calls)"
  obtains (failed) x where "e = Some x" "length calls \<le> 1" "t' = snd (failBatch env (batchOf col runs) col (dp_text env x) t)"
  | (started) call where "e = None" "calls = [call]" "cc_Params call = wireParams (batchInputs env items runs)"
      "cc_Targets call = in_Targets (batchInputs env items runs)"
      "pc_Provider conn = ''azure_devops'' \<Longrightarrow> cc_Variables call = (if 1 < length items then fanOutVariables (zip items runs) else [])"
      "t' = t \<or> (\<exists>i u. t' = snd (setCIRun (dp_flt env) (dp_now env) (db_BatchID (batchOf col runs)) i u t))"
proof -
  let ?res = "if pc_Provider conn = ''github_actions'' then dispatchGitHubDrift (dp_http env) (fst cred) (pc_Config conn) repoRef (batchInputs env items runs)
     else if pc_Provider conn = ''azure_devops'' then
       dispatchAzureDevOpsDrift (dp_http env) (fst cred) (snd cred) (pc_Config conn) repoRef (batchInputs env items runs)
         (if 1 < length items then fanOutVariables (zip items runs) else [])
     else (Inl (UnsupportedProvider (pc_Provider conn)), [])"
  obtain res cs where r: "?res = (res, cs)" by fastforce
  have one: "length cs \<le> 1" using r github_calls(1) azure_calls(1) by (auto split: if_splits)
  have l: "launchBatch env conn repoRef cred items col runs t =
     (if 1 < length items \<and> dp_encodeFails env
      then let (b, t') = failBatch env (batchOf col runs) col (dp_text env EncodeFailed) t in ((Some b, Some EncodeFailed), t', [])
      else (case res of
              Inl e \<Rightarrow> let (b, t') = failBatch env (batchOf col runs) col (dp_text env e) t in ((Some b, Some e), t', cs)
            | Inr ref \<Rightarrow>
                (let (ok, t') = (case ref of None \<Rightarrow> (False, t)
                                 | Some (i, u) \<Rightarrow> setCIRun (dp_flt env) (dp_now env) (db_BatchID (batchOf col runs)) i u t);
                     runs' = map (\<lambda>r. case ref of Some (i, u) \<Rightarrow> if ok then r\<lparr>dn_CIRunID := i, dn_CIRunURL := u\<rparr> else r | None \<Rightarrow> r) runs
                 in ((Some ((batchOf col runs)\<lparr>db_Runs := map hideToken runs'\<rparr>), None), t', cs))))"
    unfolding launchBatch_def Let_def batchInputs_def[symmetric] batchOf_def[symmetric] r by simp
  show ?thesis
  proof (cases "1 < length items \<and> dp_encodeFails env")
    case True
    with assms l have "e = Some EncodeFailed" "calls = []" "t' = snd (failBatch env (batchOf col runs) col (dp_text env EncodeFailed) t)"
      by (auto simp: case_prod_beta)
    then show ?thesis using failed by simp
  next
    case go: False
    show ?thesis
    proof (cases res)
      case (Inl x)
      with assms l go have "e = Some x" "calls = cs" "t' = snd (failBatch env (batchOf col runs) col (dp_text env x) t)"
        by (auto simp: case_prod_beta)
      with one failed show ?thesis by simp
    next
      case (Inr ref)
      have "\<exists>call. cs = [call] \<and> cc_Params call = wireParams (batchInputs env items runs)
          \<and> cc_Targets call = in_Targets (batchInputs env items runs)
          \<and> (pc_Provider conn = ''azure_devops'' \<longrightarrow> cc_Variables call = (if 1 < length items then fanOutVariables (zip items runs) else []))"
        using r Inr github_calls(2) azure_calls(2) by (cases "pc_Provider conn = ''github_actions''") (fastforce split: if_splits)+
      then obtain call where call: "cs = [call]" "cc_Params call = wireParams (batchInputs env items runs)"
          "cc_Targets call = in_Targets (batchInputs env items runs)"
          "pc_Provider conn = ''azure_devops'' \<Longrightarrow> cc_Variables call = (if 1 < length items then fanOutVariables (zip items runs) else [])"
        by blast
      have out: "e = None" "calls = cs" "t' = (case ref of None \<Rightarrow> t
          | Some iu \<Rightarrow> snd (setCIRun (dp_flt env) (dp_now env) (db_BatchID (batchOf col runs)) (fst iu) (snd iu) t))"
        using assms l go Inr by (auto simp: Let_def case_prod_beta split: option.splits)
      then have "t' = t \<or> (\<exists>i u. t' = snd (setCIRun (dp_flt env) (dp_now env) (db_BatchID (batchOf col runs)) i u t))"
        by (cases ref) auto
      with call out(1,2) started show ?thesis by blast
    qed
  qed
qed

section \<open>All or nothing\<close>

lemma updateWhere_append_fresh:
  assumes "\<forall>r \<in> set t. \<not> p r"
  shows "snd (updateWhere p f (t @ new)) = t @ map (\<lambda>r. if p r then f r else r) new"
proof -
  have "map (\<lambda>r. if p r then f r else r) t = t" using assms by (induction t) auto
  then show ?thesis by (simp add: updateWhere_def)
qed

text \<open>Ids and the batch id are drawn fresh.\<close>

definition freshDraws :: "dispatchEnv \<Rightarrow> driftRun list \<Rightarrow> bool" where
  "freshDraws env t = (inj (dp_newID env)
     \<and> (\<forall>i \<in> insert (dp_newBatch env) (range (dp_newID env)). list_all (\<lambda>r. dn_ID r \<noteq> i \<and> dn_BatchID r \<noteq> Some i) t))"

lemma freshDraws_batch: "freshDraws env t \<Longrightarrow> r \<in> set t \<Longrightarrow> dn_BatchID r \<noteq> Some (dp_newBatch env) \<and> dn_ID r \<noteq> dp_newBatch env"
  by (auto simp: freshDraws_def list_all_iff)

lemma freshDraws_id: "freshDraws env t \<Longrightarrow> r \<in> set t \<Longrightarrow> dn_ID r \<noteq> dp_newID env k \<and> dn_BatchID r \<noteq> Some (dp_newID env k)"
  by (auto simp: freshDraws_def list_all_iff)

lemma failBatchRows_new:
  assumes "freshDraws env t" "\<forall>r \<in> set runs. dn_BatchID r = Some (dp_newBatch env) \<and> dn_Status r = ''dispatched''"
  shows "snd (failBatchRows (dp_flt env) (dp_now env) (dp_newBatch env) detail (t @ runs))
    = t @ map (if dp_flt env StmtFailBatch then id else failRow (dp_now env) detail) runs"
proof -
  let ?p = "\<lambda>r. dn_BatchID r = Some (dp_newBatch env) \<and> dn_Status r = ''dispatched''"
  have "snd (updateWhere ?p (failRow (dp_now env) detail) (t @ runs)) = t @ map (\<lambda>r. if ?p r then failRow (dp_now env) detail r else r) runs"
    by (rule updateWhere_append_fresh) (use freshDraws_batch[OF assms(1)] in blast)
  also have "\<dots> = t @ map (failRow (dp_now env) detail) runs" using assms(2) by simp
  finally show ?thesis by (simp add: failBatchRows_def)
qed

text \<open>The status and the token a row of a batch that is given up is left with: a fan-out's rows lose their
  token, a single row keeps it, and a statement that fails leaves the row as it was created.\<close>

definition failedAs :: "dispatchEnv \<Rightarrow> bool \<Rightarrow> string \<Rightarrow> string \<times> string" where
  "failedAs env fan token =
     (if dp_flt env (if fan then StmtFailBatch else StmtUpdateStatus) then (''dispatched'', token)
      else (''failed'', if fan then [] else token))"

lemma failed_rows:
  assumes "freshDraws env t"
    and "\<forall>r \<in> set runs. dn_BatchID r = col \<and> dn_Status r = ''dispatched''" "dn_ID (hd runs) = dp_newID env 0"
    and "col = Some (dp_newBatch env) \<or> (col = None \<and> length runs = 1)"
  shows "\<exists>f. snd (failBatch env (batchOf col runs) col detail (t @ runs)) = t @ map f runs
    \<and> (\<forall>r \<in> set runs. (dn_Status (f r), dn_CallbackToken (f r)) = failedAs env (col \<noteq> None) (dn_CallbackToken r)
         \<and> dn_ID (f r) = dn_ID r \<and> dn_StateKey (f r) = dn_StateKey r \<and> dn_Org (f r) = dn_Org r)"
  using assms(4)
proof
  assume "col = Some (dp_newBatch env)"
  then show ?thesis using failBatchRows_new[OF assms(1), of runs] assms(2)
    by (intro exI[of _ "if dp_flt env StmtFailBatch then id else failRow (dp_now env) detail"])
      (simp add: failBatch_def batchOf_def failedAs_def failRow_def)
next
  assume single: "col = None \<and> length runs = 1"
  then obtain r where r: "runs = [r]" by (cases runs) auto
  let ?f = "\<lambda>r. setDetail detail (r\<lparr>dn_Status := ''failed'', dn_UpdatedAt := dp_now env\<rparr>)"
  have "snd (updateWhere (\<lambda>r. dn_ID r = dp_newID env 0) ?f (t @ runs)) = t @ map (\<lambda>r. if dn_ID r = dp_newID env 0 then ?f r else r) runs"
    by (rule updateWhere_append_fresh) (use freshDraws_id[OF assms(1)] in blast)
  then show ?thesis using single r assms(2,3)
    by (intro exI[of _ "if dp_flt env StmtUpdateStatus then id else ?f"])
      (simp add: failBatch_def updateStatus_def batchOf_def setDetail_def failedAs_def)
qed

text \<open>Recording the provider's run leaves what a row is.\<close>

lemma recorded_rows:
  assumes "freshDraws env t" "i \<in> {dp_newBatch env, dp_newID env 0}"
    and "t' = t @ runs \<or> (\<exists>ci u. t' = snd (setCIRun (dp_flt env) (dp_now env) i ci u (t @ runs)))"
  shows "\<exists>g. t' = t @ map g runs \<and> (\<forall>r. dn_ID (g r) = dn_ID r \<and> dn_CallbackToken (g r) = dn_CallbackToken r
    \<and> dn_Status (g r) = dn_Status r \<and> dn_StateKey (g r) = dn_StateKey r \<and> dn_Org (g r) = dn_Org r)"
  using assms(3)
proof
  assume "t' = t @ runs"
  then show ?thesis by (intro exI[of _ id]) simp
next
  let ?p = "\<lambda>r. dn_BatchID r = Some i \<or> dn_ID r = i"
  assume "\<exists>ci u. t' = snd (setCIRun (dp_flt env) (dp_now env) i ci u (t @ runs))"
  then obtain ci u where t': "t' = snd (setCIRun (dp_flt env) (dp_now env) i ci u (t @ runs))" by blast
  let ?f = "\<lambda>r. r\<lparr>dn_CIRunID := ci, dn_CIRunURL := u, dn_UpdatedAt := dp_now env\<rparr>"
  have "snd (updateWhere ?p ?f (t @ runs)) = t @ map (\<lambda>r. if ?p r then ?f r else r) runs"
    by (rule updateWhere_append_fresh) (use freshDraws_batch[OF assms(1)] freshDraws_id[OF assms(1)] assms(2) in auto)
  with t' show ?thesis by (intro exI[of _ "if dp_flt env StmtSetCIRun then id else (\<lambda>r. if ?p r then ?f r else r)"])
    (simp add: setCIRun_def)
qed

text \<open>C19: What a dispatch leaves behind. It makes one call at most and only appends rows, each in the
  dispatching organization and with the k-th id drawn. One that succeeds made exactly one call and wrote
  one dispatched row per target, each with its own token. One that reports an error leaves the rows made so
  far failed: those of a fan-out without their token, a single one with it. The error of the statement that
  fails them is not looked at: where it fails, the rows stay dispatched and keep their tokens.\<close>

theorem dispatch_leaves_exact_rows:
  assumes "dispatchDriftBatch env tbl tgt actor auth t = ((b, e), t', calls)" "freshDraws env t"
  shows "\<exists>new. t' = t @ new \<and> length calls \<le> 1
    \<and> (\<forall>k < length new. dn_ID (new ! k) = dp_newID env k \<and> dn_StateKey (new ! k) = ti_StateKey (targetItems tgt ! k)
         \<and> dn_Org (new ! k) = Some (trimSpace (da_organizationID auth)))
    \<and> (if e = None
       then length calls = 1 \<and> length new = length (targetItems tgt)
         \<and> (\<forall>k < length new. dn_CallbackToken (new ! k) = dp_newToken env k \<and> dn_Status (new ! k) = ''dispatched'')
       else length new \<le> length (targetItems tgt)
         \<and> (\<forall>k < length new. (dn_Status (new ! k), dn_CallbackToken (new ! k))
               = (if dp_flt env (if 1 < length (targetItems tgt) then StmtFailBatch else StmtUpdateStatus)
                  then (''dispatched'', dp_newToken env k)
                  else (''failed'', if 1 < length (targetItems tgt) then [] else dp_newToken env k))))"
  using assms(1)
proof (cases rule: dispatch_cases)
  case (aborted conn x runs)
  let ?fan = "1 < length (targetItems tgt)"
  let ?f = "if dp_flt env StmtFailBatch then id else failRow (dp_now env) (''batch aborted: '' @ dp_text env (CreateRunFailed x))"
  from createRuns_spec[OF aborted(4)] have made: "length runs < length (targetItems tgt)"
    and run: "\<And>k. k < length runs \<Longrightarrow> dn_ID (runs ! k) = dp_newID env k \<and> dn_CallbackToken (runs ! k) = dp_newToken env k
      \<and> dn_Status (runs ! k) = ''dispatched'' \<and> dn_StateKey (runs ! k) = ti_StateKey (targetItems tgt ! k)
      \<and> dn_BatchID (runs ! k) = (if ?fan then Some (dp_newBatch env) else None)
      \<and> dn_Org (runs ! k) = Some (trimSpace (da_organizationID auth))"
    by (auto simp: less_le madeFrom_def newRun_def)
  have fan: "runs \<noteq> [] \<Longrightarrow> ?fan" using made by (cases runs) auto
  then have "\<forall>r \<in> set runs. dn_BatchID r = Some (dp_newBatch env) \<and> dn_Status r = ''dispatched''"
    using run by (cases "runs = []") (auto simp: in_set_conv_nth)
  from failBatchRows_new[OF assms(2) this] aborted(5) fan have "t' = t @ map ?f runs" by (cases "runs = []") simp_all
  then show ?thesis using aborted(1-3) made run fan
    by (intro exI[of _ "map ?f runs"]) (cases "runs = []"; simp add: failRow_def)
next
  case (launched conn cred runs)
  let ?fan = "1 < length (targetItems tgt)" and ?items = "targetItems tgt"
  let ?col = "if ?fan then Some (dp_newBatch env) else None"
  from createRuns_spec[OF launched(3)] have len: "length runs = length ?items" and
    run: "\<And>k. k < length runs \<Longrightarrow> dn_ID (runs ! k) = dp_newID env k \<and> dn_CallbackToken (runs ! k) = dp_newToken env k
      \<and> dn_Status (runs ! k) = ''dispatched'' \<and> dn_StateKey (runs ! k) = ti_StateKey (?items ! k) \<and> dn_BatchID (runs ! k) = ?col
      \<and> dn_Org (runs ! k) = Some (trimSpace (da_organizationID auth))" by (auto simp: madeFrom_def newRun_def)
  have "?items \<noteq> []" by (simp add: targetItems_def)
  with len have pos: "0 < length runs" by simp
  then have first: "dn_ID (hd runs) = dp_newID env 0" using run[of 0] by (simp add: hd_conv_nth)
  have single: "\<not> ?fan \<Longrightarrow> length runs = 1" using pos len by linarith
  then have col: "?col = Some (dp_newBatch env) \<or> (?col = None \<and> length runs = 1)" by simp
  have all: "dn_BatchID r = ?col \<and> dn_Status r = ''dispatched''" if "r \<in> set runs" for r
    using that run by (auto simp: in_set_conv_nth)
  from launched(4) show ?thesis
  proof (cases rule: launchBatch_cases)
    case (failed x)
    obtain f where f: "t' = t @ map f runs" "\<forall>r \<in> set runs. (dn_Status (f r), dn_CallbackToken (f r)) = failedAs env (?col \<noteq> None) (dn_CallbackToken r)
         \<and> dn_ID (f r) = dn_ID r \<and> dn_StateKey (f r) = dn_StateKey r \<and> dn_Org (f r) = dn_Org r"
      using failed_rows[OF assms(2), of runs ?col "dp_text env x"] all first col unfolding failed(3) by blast
    have "(?col \<noteq> None) = ?fan" by simp
    then show ?thesis using failed(1,2) f run len nth_mem[of _ runs]
      by (intro exI[of _ "map f runs"]) (simp add: failedAs_def)
  next
    case (started call)
    have "db_BatchID (batchOf ?col runs) \<in> {dp_newBatch env, dp_newID env 0}" using first by (simp add: batchOf_def)
    from recorded_rows[OF assms(2) this started(6)] obtain g where g: "t' = t @ map g runs" "\<forall>r. dn_ID (g r) = dn_ID r
        \<and> dn_CallbackToken (g r) = dn_CallbackToken r \<and> dn_Status (g r) = dn_Status r \<and> dn_StateKey (g r) = dn_StateKey r
        \<and> dn_Org (g r) = dn_Org r" by blast
    then show ?thesis using started(1,2) len run by (intro exI[of _ "map g runs"]) simp
  qed
qed simp

section \<open>Tokens\<close>

lemma oget_omap_of: "distinct (map fst kvs) \<Longrightarrow> (k, v) \<in> set kvs \<Longrightarrow> oget k (omap_of kvs) = Some v"
proof (induction kvs rule: rev_induct)
  case (snoc p kvs)
  obtain k' v' where p: "p = (k', v')" by (cases p)
  show ?case
  proof (cases "k = k'")
    case True
    with snoc.prems p have "v = v'" by force
    with True p show ?thesis by (simp add: omap_of_snoc)
  next
    case False
    with snoc p show ?thesis by (simp add: omap_of_snoc)
  qed
qed simp

lemma fanOutTarget_ids:
  assumes "map dn_ID rs = map dn_ID rs'"
  shows "map (fanOutTarget env) (zip items rs) = map (fanOutTarget env) (zip items rs')"
proof -
  let ?f = "\<lambda>(item, i). JObj ([(''working_dir'', JStr (ti_WorkingDir item)), (''state_key'', JStr (ti_StateKey item)),
       (''callback_url'', JStr (callbackURL env i))]
     @ (if ti_Params item = [] then [] else [(''params'', JObj (map (map_prod id JStr) (ti_Params item)))]))"
  have "map (fanOutTarget env) (zip items us) = map ?f (zip items (map dn_ID us))" for us
    unfolding zip_map2 map_map by (rule map_cong[OF refl]) (simp add: fanOutTarget_def split: prod.splits)
  with assms show ?thesis by simp
qed

text \<open>Every target's token travels in its own secret variable. In a fan-out that was validated and
  started, the k-th target's variable holds the token of the k-th run as a secret, whatever order the
  variables are read in, and the \<open>targets\<close> parameter is made of the targets and the run ids alone.\<close>

theorem fan_out_tokens_reach_their_targets:
  assumes "dispatchDriftBatch env tbl tgt actor auth t = ((b, None), t', calls)"
    and "validateDriftTargets (targetItems tgt) = None" "1 < length (targetItems tgt)"
  shows "\<exists>call. calls = [call]
    \<and> (\<forall>k < length (targetItems tgt). oget (tokenName (targetItems tgt ! k)) (cc_Variables call)
          = Some \<lparr>rv_Value = dp_newToken env k, rv_IsSecret = True\<rparr>)
    \<and> (\<forall>rs. map dn_ID rs = map (dp_newID env) [0..<length (targetItems tgt)] \<longrightarrow>
          cc_Targets call = Some (JArr (map (fanOutTarget env) (zip (targetItems tgt) rs))))"
  using assms(1)
proof (cases rule: dispatch_cases)
  case (launched conn cred runs)
  let ?items = "targetItems tgt" and ?col = "Some (dp_newBatch env)"
  have len: "length runs = length ?items"
    and made: "\<forall>k < length runs. madeFrom env auth (newRun env conn (tg_RepoRef tgt) actor ?col k (?items ! k)) k (runs ! k)"
    using createRuns_spec[OF launched(3)] assms(3) by auto
  have run: "dn_ID (runs ! k) = dp_newID env k" "dn_CallbackToken (runs ! k) = dp_newToken env k" if "k < length ?items" for k
    using made that len by (simp_all add: madeFrom_def newRun_def)
  from launched(4) show ?thesis
  proof (cases rule: launchBatch_cases)
    case (started call)
    let ?kvs = "map (\<lambda>(item, r). (tokenName item, \<lparr>rv_Value = dn_CallbackToken r, rv_IsSecret = True\<rparr>)) (zip ?items runs)"
    have vars: "cc_Variables call = omap_of ?kvs" using started(5) launched(2) assms(3) by (simp add: fanOutVariables_def)
    have "map fst ?kvs = map tokenName ?items" using len by (auto intro: nth_equalityI)
    then have d: "distinct (map fst ?kvs)" using assms(2)[unfolded validation_exact] by (simp only:)
    have "oget (tokenName (?items ! k)) (cc_Variables call) = Some \<lparr>rv_Value = dp_newToken env k, rv_IsSecret = True\<rparr>"
      if k: "k < length ?items" for k
    proof -
      have "?kvs ! k = (tokenName (?items ! k), \<lparr>rv_Value = dp_newToken env k, rv_IsSecret = True\<rparr>)"
        using k len run(2)[OF k] by simp
      moreover have "?kvs ! k \<in> set ?kvs" using k len by (intro nth_mem) simp
      ultimately show ?thesis unfolding vars by (intro oget_omap_of[OF d]) simp
    qed
    moreover have "map dn_ID runs = map (dp_newID env) [0..<length ?items]"
      using len run(1) by (intro nth_equalityI) simp_all
    then have "cc_Targets call = Some (JArr (map (fanOutTarget env) (zip ?items rs)))"
      if "map dn_ID rs = map (dp_newID env) [0..<length ?items]" for rs
      using started(4) assms(3) fanOutTarget_ids[of runs rs env ?items] that by (simp add: batchInputs_def)
    ultimately show ?thesis using started(2) by blast
  qed simp
qed simp_all

text \<open>The first target's token is in the plain parameters as well, in a fan-out like in a single
  dispatch.\<close>

lemma fan_out_sends_first_token_in_clear:
  assumes "dispatchDriftBatch env tbl tgt actor auth t = ((b, None), t', calls)"
  shows "\<exists>call. calls = [call] \<and> (''callback_token'', dp_newToken env 0) \<in> set (cc_Params call)"
  using assms
proof (cases rule: dispatch_cases)
  case (launched conn cred runs)
  from createRuns_spec[OF launched(3)] have len: "length runs = length (targetItems tgt)"
    and made: "\<forall>k < length runs. madeFrom env auth (newRun env conn (tg_RepoRef tgt) actor
        (if 1 < length (targetItems tgt) then Some (dp_newBatch env) else None) k (targetItems tgt ! k)) k (runs ! k)" by auto
  have "targetItems tgt \<noteq> []" by (simp add: targetItems_def)
  with len have ne: "runs \<noteq> []" by auto
  then have "dn_CallbackToken (hd runs) = dp_newToken env 0" using made by (simp add: hd_conv_nth madeFrom_def newRun_def)
  from launched(4) this show ?thesis by (cases rule: launchBatch_cases) (auto simp: wireParams_def batchInputs_def)
qed simp_all

text \<open>A single dispatch the provider refused keeps its token in the table, unlike a batch: only the copy
  in memory loses it, so a callback with it is still accepted for the failed run.\<close>

lemma single_refusal_keeps_token:
  assumes "dispatchDriftBatch env tbl tgt actor auth t = ((b, Some e), t', calls)" "calls \<noteq> []" "length (targetItems tgt) = 1"
  shows "\<exists>r \<in> set t'. dn_ID r = dp_newID env 0 \<and> dn_CallbackToken r = dp_newToken env 0"
  using assms(1)
proof (cases rule: dispatch_cases)
  case (launched conn cred runs)
  have len: "length runs = 1" and made: "\<forall>k < length runs. madeFrom env auth (newRun env conn (tg_RepoRef tgt) actor None k (targetItems tgt ! k)) k (runs ! k)"
    using createRuns_spec[OF launched(3)] assms(3) by auto
  then obtain r where r: "runs = [r]" by (cases runs) auto
  with made have id: "dn_ID r = dp_newID env 0" "dn_CallbackToken r = dp_newToken env 0" by (simp_all add: madeFrom_def newRun_def)
  from launched(4) show ?thesis
  proof (cases rule: launchBatch_cases)
    case (failed x)
    let ?f = "\<lambda>r. setDetail (dp_text env x) (r\<lparr>dn_Status := ''failed'', dn_UpdatedAt := dp_now env\<rparr>)"
    have "t' = t @ runs \<or> t' = snd (updateWhere (\<lambda>y. dn_ID y = dn_ID r) ?f (t @ runs))"
      using failed(3) assms(3) r by (simp add: failBatch_def updateStatus_def batchOf_def)
    then have "r \<in> set t' \<or> ?f r \<in> set t'" using r by (auto simp: updateWhere_def)
    moreover have "dn_ID (?f r) = dn_ID r" "dn_CallbackToken (?f r) = dn_CallbackToken r" by (simp_all add: setDetail_def)
    ultimately show ?thesis using id by metis
  qed simp
qed (use assms(2) in simp_all)

section \<open>A small fleet\<close>

definition sampleDispatchEnv :: "int \<Rightarrow> dispatchEnv" where
  "sampleDispatchEnv status = \<lparr>dp_connFails = False, dp_sourceFails = False, dp_ciSourceFails = False, dp_createFails = (\<lambda>_. False),
     dp_flt = (\<lambda>_. False), dp_encodeFails = False, dp_now = 50, dp_newID = (\<lambda>k. replicate (Suc k) CHR ''r''),
     dp_newToken = (\<lambda>k. replicate (Suc k) CHR ''t''), dp_newBatch = ''batch'', dp_crypto = sampleCrypto, dp_mint = (\<lambda>_. None),
     dp_http = (\<lambda>_. Inr \<lparr>ca_Status = status, ca_Message = ''no'', ca_Run = None\<rparr>), dp_callbackBase = ''https://tsm/'', dp_text = (\<lambda>_. ''refused'')\<rparr>"

definition sampleTables :: dispatchTables where
  "sampleTables = \<lparr>dt_Connections = [\<lparr>pc_ID = ''p1'', pc_Name = ''drift'', pc_Provider = ''azure_devops'',
       pc_Config = [(''fan_out'', JBool True), (''organization'', JStr ''acme''), (''pipeline_id'', JStr ''9''), (''project'', JStr ''infra'')],
       pc_EncryptedToken = sampleSealed ''pat'' PurposePipelineDispatchToken, pc_CreatedAt = 0, pc_UpdatedAt = 0, pc_Org = Some ''o1''\<rparr>],
     dt_CISources = [], dt_Sources = sampleSources\<rparr>"

definition sampleTarget :: driftTarget where
  "sampleTarget = \<lparr>tg_PipelineConnectionID = ''p1'', tg_SourceID = [], tg_StateKey = [], tg_RepoRef = [], tg_WorkingDir = [],
     tg_Targets = [\<lparr>ti_SourceID = ''s1'', ti_StateKey = ''a'', ti_WorkingDir = ''apps/a'', ti_Params = []\<rparr>,
                   \<lparr>ti_SourceID = ''s1'', ti_StateKey = ''b'', ti_WorkingDir = ''apps/b'', ti_Params = []\<rparr>]\<rparr>"

lemma sample_fresh: "freshDraws (sampleDispatchEnv status) []"
  by (auto simp: freshDraws_def sampleDispatchEnv_def inj_def replicate_eq_replicate)

theorem dispatch_leaves_exact_rows_witness:
  "case dispatchDriftBatch (sampleDispatchEnv 503) sampleTables sampleTarget ''ann'' (requestAuthority ''o1'') [] of
     ((b, e), t', calls) \<Rightarrow> e \<noteq> None \<and> map (\<lambda>r. (dn_Status r, dn_CallbackToken r)) t' = [(''failed'', []), (''failed'', [])]"
proof -
  obtain b e t' calls where d: "dispatchDriftBatch (sampleDispatchEnv 503) sampleTables sampleTarget ''ann'' (requestAuthority ''o1'') [] = ((b, e), t', calls)"
    by (metis surj_pair)
  have "case dispatchDriftBatch (sampleDispatchEnv 503) sampleTables sampleTarget ''ann'' (requestAuthority ''o1'') [] of
     ((b, e), t', calls) \<Rightarrow> \<not> Option.is_none e \<and> length t' = 2" by code_simp
  with d have r: "e \<noteq> None" "length t' = 2" by (auto simp: Option.is_none_def)
  then obtain p q where t': "t' = [p, q]" by (auto simp: length_Suc_conv numeral_2_eq_2)
  have "1 < length (targetItems sampleTarget)" by code_simp
  with dispatch_leaves_exact_rows[OF d sample_fresh] r have
    "\<forall>k < 2. (dn_Status (t' ! k), dn_CallbackToken (t' ! k)) = (''failed'', [])" by (auto simp: sampleDispatchEnv_def)
  from this[rule_format, of 0] this[rule_format, of 1] d r t' show ?thesis by simp
qed

theorem fan_out_tokens_reach_their_targets_witness:
  "\<exists>call. oget ''cb_token_apps_b'' (cc_Variables call) = Some \<lparr>rv_Value = ''tt'', rv_IsSecret = True\<rparr>
     \<and> snd (snd (dispatchDriftBatch (sampleDispatchEnv 200) sampleTables sampleTarget ''ann'' (requestAuthority ''o1'') [])) = [call]"
proof -
  let ?d = "dispatchDriftBatch (sampleDispatchEnv 200) sampleTables sampleTarget ''ann'' (requestAuthority ''o1'') []"
  have "Option.is_none (snd (fst ?d))" "Option.is_none (validateDriftTargets (targetItems sampleTarget))" by code_simp+
  then have d: "?d = ((fst (fst ?d), None), fst (snd ?d), snd (snd ?d))" and v: "validateDriftTargets (targetItems sampleTarget) = None"
    by (simp_all add: Option.is_none_def prod_eq_iff)
  have n: "1 < length (targetItems sampleTarget)" by code_simp
  from fan_out_tokens_reach_their_targets[OF d v n] obtain call where c: "snd (snd ?d) = [call]"
    "\<forall>k < length (targetItems sampleTarget). oget (tokenName (targetItems sampleTarget ! k)) (cc_Variables call)
       = Some \<lparr>rv_Value = dp_newToken (sampleDispatchEnv 200) k, rv_IsSecret = True\<rparr>" by blast
  have "tokenName (targetItems sampleTarget ! 1) = ''cb_token_apps_b''" by code_simp
  with c(2)[rule_format, of 1] n have "oget ''cb_token_apps_b'' (cc_Variables call) = Some \<lparr>rv_Value = ''tt'', rv_IsSecret = True\<rparr>"
    by (simp add: sampleDispatchEnv_def)
  with c(1) show ?thesis by blast
qed

end
