(* ===== verification/Scheduler.thy ===== *)
theory Scheduler
  imports DriftDispatch
begin

text \<open>
  \<open>services/scheduler\<close>, \<open>db/repositories/schedule_repository.go\<close> with its scoped half and
  \<open>api/schedules.go\<close>: schedules are polled, claimed by a compare-and-set of their next run, and
  dispatched under the authority of their own row.

  Instants are integers, in nanoseconds. The cron library is an argument: None for an expression it
  does not parse, otherwise the function from an instant to the next one. A schedule's target is the
  JSON document its column holds.
\<close>

section \<open>Durations\<close>

text \<open>\<open>time.ParseDuration\<close>: a sign, then terms of digits, fraction and unit. The fraction is computed in
  float64, the sum in 64 unsigned bits.\<close>

definition unitNanos :: "string \<Rightarrow> int option" where
  "unitNanos u =
     (if u = ''ns'' then Some 1
      else if u = ''us'' \<or> u = [CHR 0xC2, CHR 0xB5, CHR ''s''] \<or> u = [CHR 0xCE, CHR 0xBC, CHR ''s''] then Some 1000
      else if u = ''ms'' then Some 1000000
      else if u = ''s'' then Some 1000000000
      else if u = ''m'' then Some 60000000000
      else if u = ''h'' then Some 3600000000000
      else None)"

fun leadingInt :: "int \<Rightarrow> string \<Rightarrow> (int \<times> string) option" where
  "leadingInt x [] = Some (x, [])"
| "leadingInt x (c # s) =
     (if \<not> isDigit c then Some (x, c # s)
      else if 2 ^ 63 div 10 < x then None
      else if 2 ^ 63 < x * 10 + digitVal c then None
      else leadingInt (x * 10 + digitVal c) s)"

fun leadingFraction :: "int \<Rightarrow> int \<Rightarrow> bool \<Rightarrow> string \<Rightarrow> int \<times> int \<times> string" where
  "leadingFraction x scale over [] = (x, scale, [])"
| "leadingFraction x scale over (c # s) =
     (if \<not> isDigit c then (x, scale, c # s)
      else if over \<or> (2 ^ 63 - 1) div 10 < x \<or> 2 ^ 63 < x * 10 + digitVal c then leadingFraction x scale True s
      else leadingFraction (x * 10 + digitVal c) (scale * 10) False s)"

text \<open>\<open>uint64(float64(f) * (float64(unit) / scale))\<close>.\<close>

definition fracNanos :: "int \<Rightarrow> int \<Rightarrow> int \<Rightarrow> int" where
  "fracNanos f unit scale =
     (case (roundFrac f 1, roundFrac unit scale) of
        (Some (m1, e1), Some (m2, e2)) \<Rightarrow>
          (case (if 0 \<le> e1 + e2 then roundFrac (m1 * m2 * 2 ^ nat (e1 + e2)) 1 else roundFrac (m1 * m2) (2 ^ nat (- (e1 + e2)))) of
             None \<Rightarrow> 0
           | Some (m, e) \<Rightarrow> if 0 \<le> e then m * 2 ^ nat e else m div 2 ^ nat (- e))
      | _ \<Rightarrow> 0)"

definition isUnitChar :: "char \<Rightarrow> bool" where
  "isUnitChar c = (c \<noteq> CHR ''.'' \<and> \<not> isDigit c)"

definition durationTerm :: "string \<Rightarrow> (int \<times> string) option" where
  "durationTerm s =
     (if s = [] \<or> \<not> (hd s = CHR ''.'' \<or> isDigit (hd s)) then None
      else (case leadingInt 0 s of
              None \<Rightarrow> None
            | Some (v, s1) \<Rightarrow>
                (let dot = (s1 \<noteq> [] \<and> hd s1 = CHR ''.'');
                     (f, scale, s2) = (if dot then leadingFraction 0 1 False (tl s1) else (0, 1, s1));
                     pre = (length s1 \<noteq> length s); post = (dot \<and> length s2 \<noteq> length (tl s1));
                     u = takeWhile isUnitChar s2; rest = drop (length u) s2
                 in if \<not> pre \<and> \<not> post \<or> u = [] then None
                    else (case unitNanos u of
                            None \<Rightarrow> None
                          | Some unit \<Rightarrow>
                              if 2 ^ 63 div unit < v then None
                              else (let n = v * unit + (if 0 < f then fracNanos f unit scale else 0)
                                    in if 2 ^ 63 < n then None else Some (n, rest))))))"

lemma leadingInt_length: "leadingInt x s = Some (v, r) \<Longrightarrow> length r \<le> length s"
  by (induction x s rule: leadingInt.induct) (auto split: if_splits)

lemma leadingFraction_length: "leadingFraction x sc b s = (f, sc', r) \<Longrightarrow> length r \<le> length s"
  by (induction x sc b s rule: leadingFraction.induct) (auto split: if_splits)

lemma takeWhile_shorter: "takeWhile P s \<noteq> [] \<Longrightarrow> length (drop (length (takeWhile P s)) s) < length s"
  by (cases s) (auto split: if_splits)

lemma durationTerm_shorter [termination_simp]:
  assumes "durationTerm s = Some (n, r)"
  shows "length r < length s"
proof -
  obtain v s1 where i: "leadingInt 0 s = Some (v, s1)" using assms by (auto simp: durationTerm_def split: if_splits option.splits)
  obtain f sc s2 where fr: "(if s1 \<noteq> [] \<and> hd s1 = CHR ''.'' then leadingFraction 0 1 False (tl s1) else (0, 1, s1)) = (f, sc, s2)"
    by (metis prod_cases3)
  have "length s2 \<le> length s1" using fr leadingFraction_length[of 0 1 False "tl s1" f sc s2] by (auto split: if_splits)
  moreover have "length r < length s2"
  proof (cases "takeWhile isUnitChar s2 = []")
    case True
    with assms i fr show ?thesis by (simp add: durationTerm_def Let_def split: if_splits)
  next
    case False
    from assms i fr have "r = drop (length (takeWhile isUnitChar s2)) s2"
      unfolding durationTerm_def Let_def by (simp split: if_splits option.splits)
    with takeWhile_shorter[OF False] show ?thesis by simp
  qed
  ultimately show ?thesis using leadingInt_length[OF i] by linarith
qed

function durationTerms :: "int \<Rightarrow> string \<Rightarrow> int option" where
  "durationTerms d s =
     (if s = [] then Some d
      else (case durationTerm s of
              None \<Rightarrow> None
            | Some (n, r) \<Rightarrow>
                (let d' = (d + n) mod 2 ^ 64 in if 2 ^ 63 < d' then None else durationTerms d' r)))"
  by pat_completeness auto
termination
  by (relation "measure (\<lambda>(d, s). length s)") (auto dest: durationTerm_shorter)

declare durationTerms.simps [simp del]

definition parseDuration :: "string \<Rightarrow> int option" where
  "parseDuration s =
     (let neg = (s \<noteq> [] \<and> hd s = CHR ''-'');
          body = (if s \<noteq> [] \<and> (hd s = CHR ''-'' \<or> hd s = CHR ''+'') then tl s else s)
      in if body = ''0'' then Some 0
         else if body = [] then None
         else (case durationTerms 0 body of
                 None \<Rightarrow> None
               | Some d \<Rightarrow> if neg then Some (- d) else if 2 ^ 63 - 1 < d then None else Some d))"

section \<open>The next run\<close>

type_synonym cronLib = "string \<Rightarrow> (int \<Rightarrow> int) option"

abbreviation minute :: int where "minute \<equiv> 60000000000"
abbreviation hour :: int where "hour \<equiv> 3600000000000"

definition computeNextRun :: "cronLib \<Rightarrow> string \<Rightarrow> int \<Rightarrow> int option" where
  "computeNextRun cron expr0 start =
     (let expr = trimSpace expr0
      in case cron expr of
           Some next \<Rightarrow> Some (next start)
         | None \<Rightarrow>
             if expr = ''daily'' then Some (start + 24 * hour)
             else if expr = ''weekly'' then Some (start + 7 * 24 * hour)
             else if hasPrefix expr ''every '' then
               (case parseDuration (trimSpace (trimPrefix expr ''every '')) of
                  None \<Rightarrow> None
                | Some d \<Rightarrow> Some (start + (if d < minute then minute else d)))
             else None)"

section \<open>The table of schedules\<close>

record scheduleRow =
  sd_ID :: string
  sd_Name :: string
  sd_CronExpr :: string
  sd_TargetType :: string
  sd_TargetConfig :: json
  sd_Enabled :: bool
  sd_LastRunAt :: "int option"
  sd_NextRunAt :: "int option"
  sd_LastRunID :: "string option"
  sd_LastStatus :: "string option"
  sd_CreatedAt :: int
  sd_UpdatedAt :: int
  sd_Org :: "string option"

datatype scheduleErr = ScheduleNoOrganization | ScheduleNotInScope | ScheduleStatementFailed

text \<open>\<open>COALESCE\<close> of the Go side: an absent target is the empty object, an empty id no id.\<close>

definition targetOrEmpty :: "json option \<Rightarrow> json" where
  "targetOrEmpty cfg = (case cfg of None \<Rightarrow> JObj [] | Some j \<Rightarrow> j)"

definition nullID :: "string option \<Rightarrow> string option" where
  "nullID i = (case i of None \<Rightarrow> None | Some x \<Rightarrow> if x = [] then None else Some x)"

record scheduleInput =
  sn_Name :: string
  sn_CronExpr :: string
  sn_TargetType :: string
  sn_TargetConfig :: "json option"
  sn_Enabled :: bool

definition createSchedule ::
    "bool \<Rightarrow> int \<Rightarrow> string \<Rightarrow> scheduleInput \<Rightarrow> int option \<Rightarrow> string \<Rightarrow> scheduleRow list \<Rightarrow> (scheduleErr + scheduleRow) \<times> scheduleRow list" where
  "createSchedule fails now newID s next org t =
     (if trimSpace org = [] then (Inl ScheduleNoOrganization, t)
      else if fails then (Inl ScheduleStatementFailed, t)
      else (let r = \<lparr>sd_ID = newID, sd_Name = sn_Name s, sd_CronExpr = sn_CronExpr s, sd_TargetType = sn_TargetType s,
                     sd_TargetConfig = targetOrEmpty (sn_TargetConfig s), sd_Enabled = sn_Enabled s, sd_LastRunAt = None,
                     sd_NextRunAt = next, sd_LastRunID = None, sd_LastStatus = None, sd_CreatedAt = now, sd_UpdatedAt = now,
                     sd_Org = Some (trimSpace org)\<rparr>
            in (Inr r, t @ [r])))"

definition listSchedules :: "scheduleRow list \<Rightarrow> scheduleRow list" where
  "listSchedules = sort_key (\<lambda>s. - sd_CreatedAt s)"

definition listSchedulesInScope :: "scope \<Rightarrow> scheduleRow list \<Rightarrow> scheduleRow list" where
  "listSchedulesInScope = readInScope [] listSchedules
     (\<lambda>ids t. sort_key (\<lambda>s. - sd_CreatedAt s) (filter (\<lambda>s. anyOrg ids (sd_Org s)) t))"

definition getSchedule :: "string \<Rightarrow> scheduleRow list \<Rightarrow> scheduleRow option" where
  "getSchedule i = List.find (\<lambda>s. sd_ID s = i)"

definition getScheduleInScope :: "string \<Rightarrow> scope \<Rightarrow> scheduleRow list \<Rightarrow> scheduleRow option" where
  "getScheduleInScope i = readInScope None (getSchedule i) (\<lambda>ids. List.find (\<lambda>s. anyOrg ids (sd_Org s) \<and> sd_ID s = i))"

definition editSchedule :: "int \<Rightarrow> scheduleInput \<Rightarrow> int option \<Rightarrow> scheduleRow \<Rightarrow> scheduleRow" where
  "editSchedule now s next r =
     r\<lparr>sd_Name := sn_Name s, sd_CronExpr := sn_CronExpr s, sd_TargetType := sn_TargetType s,
       sd_TargetConfig := targetOrEmpty (sn_TargetConfig s), sd_Enabled := sn_Enabled s, sd_NextRunAt := next, sd_UpdatedAt := now\<rparr>"

text \<open>\<open>UPDATE .. RETURNING\<close>: None where no row was selected.\<close>

definition updateScheduleWhere ::
    "bool \<Rightarrow> int \<Rightarrow> string \<Rightarrow> scheduleInput \<Rightarrow> int option \<Rightarrow> (scheduleRow \<Rightarrow> bool) \<Rightarrow> scheduleRow list \<Rightarrow>
     (scheduleErr + scheduleRow option) \<times> scheduleRow list" where
  "updateScheduleWhere fails now i s next p t =
     (if fails then (Inl ScheduleStatementFailed, t)
      else (Inr (map_option (editSchedule now s next) (List.find (\<lambda>r. sd_ID r = i \<and> p r) t)),
            snd (updateWhere (\<lambda>r. sd_ID r = i \<and> p r) (editSchedule now s next) t)))"

definition updateScheduleInScope ::
    "bool \<Rightarrow> int \<Rightarrow> string \<Rightarrow> scheduleInput \<Rightarrow> int option \<Rightarrow> scope \<Rightarrow> scheduleRow list \<Rightarrow>
     (scheduleErr + scheduleRow option) \<times> scheduleRow list" where
  "updateScheduleInScope fails now i s next =
     writeInScope (Inl ScheduleNotInScope) (updateScheduleWhere fails now i s next (\<lambda>_. True))
       (\<lambda>ids. updateScheduleWhere fails now i s next (\<lambda>r. anyOrg ids (sd_Org r)))"

text \<open>\<open>DeleteInScope\<close>: an administrator's delete reports a row whether there was one or not.\<close>

definition deleteScheduleInScope :: "bool \<Rightarrow> string \<Rightarrow> scope \<Rightarrow> scheduleRow list \<Rightarrow> (scheduleErr + bool) \<times> scheduleRow list" where
  "deleteScheduleInScope fails i =
     writeInScope (Inl ScheduleNotInScope)
       (\<lambda>t. if fails then (Inl ScheduleStatementFailed, t) else (Inr True, snd (deleteRows (\<lambda>r. sd_ID r = i) t)))
       (\<lambda>ids t. if fails then (Inl ScheduleStatementFailed, t)
                else (case deleteRows (\<lambda>r. sd_ID r = i \<and> anyOrg ids (sd_Org r)) t of (n, t') \<Rightarrow> (Inr (0 < n), t')))"

definition isDue :: "int \<Rightarrow> scheduleRow \<Rightarrow> bool" where
  "isDue now r = (sd_Enabled r \<and> (case sd_NextRunAt r of None \<Rightarrow> False | Some n \<Rightarrow> n \<le> now))"

definition getDue :: "int \<Rightarrow> nat \<Rightarrow> scheduleRow list \<Rightarrow> scheduleRow list" where
  "getDue now limit t = take limit (sort_key (\<lambda>r. the (sd_NextRunAt r)) (filter (isDue now) t))"

definition recordRun :: "string \<Rightarrow> string \<Rightarrow> string option \<Rightarrow> int \<Rightarrow> int option \<Rightarrow> scheduleRow list \<Rightarrow> scheduleRow list" where
  "recordRun i status runID ranAt next t =
     snd (updateWhere (\<lambda>r. sd_ID r = i)
       (\<lambda>r. r\<lparr>sd_LastRunAt := Some ranAt, sd_LastStatus := Some status, sd_LastRunID := nullID runID, sd_NextRunAt := next,
              sd_UpdatedAt := ranAt\<rparr>) t)"

definition claimRow :: "int \<Rightarrow> int option \<Rightarrow> scheduleRow \<Rightarrow> scheduleRow" where
  "claimRow ranAt next r = r\<lparr>sd_LastRunAt := Some ranAt, sd_NextRunAt := next, sd_UpdatedAt := ranAt\<rparr>"

definition claimDue :: "string \<Rightarrow> int \<Rightarrow> int \<Rightarrow> int option \<Rightarrow> scheduleRow list \<Rightarrow> bool \<times> scheduleRow list" where
  "claimDue i observed ranAt next t =
     (case updateWhere (\<lambda>r. sd_ID r = i \<and> sd_Enabled r \<and> sd_NextRunAt r = Some observed) (claimRow ranAt next) t of
        (n, t') \<Rightarrow> (0 < n, t'))"

definition recordOutcome :: "int \<Rightarrow> string \<Rightarrow> string \<Rightarrow> string option \<Rightarrow> scheduleRow list \<Rightarrow> scheduleRow list" where
  "recordOutcome now i status runID t =
     snd (updateWhere (\<lambda>r. sd_ID r = i)
       (\<lambda>r. r\<lparr>sd_LastStatus := Some status, sd_LastRunID := nullID runID, sd_UpdatedAt := now\<rparr>) t)"

section \<open>The scoped statements keep to their organization\<close>

interpretation listSchedules: scoped_reader sd_Org "[]" listSchedules
    "\<lambda>ids t. sort_key (\<lambda>s. - sd_CreatedAt s) (filter (\<lambda>s. anyOrg ids (sd_Org s)) t)"
  by unfold_locales (simp_all add: listSchedules_def)

interpretation getSchedule: scoped_reader sd_Org None "getSchedule i"
    "\<lambda>ids. List.find (\<lambda>s. anyOrg ids (sd_Org s) \<and> sd_ID s = i)" for i
  by unfold_locales (simp_all add: getSchedule_def find_filter)

lemma editSchedule_keeps [simp]: "sd_ID (editSchedule now s nx r) = sd_ID r" "sd_NextRunAt (editSchedule now s nx r) = nx"
    "sd_Org (editSchedule now s nx r) = sd_Org r"
  by (simp_all add: editSchedule_def)

interpretation updateSchedule: scoped_writer sd_Org "updateScheduleWhere fails now i inp nx (\<lambda>_. True)"
    "\<lambda>ids. updateScheduleWhere fails now i inp nx (\<lambda>r. anyOrg ids (sd_Org r))" for fails now i inp nx
  by unfold_locales (auto simp: updateScheduleWhere_def intro!: updateWhere_others)

interpretation deleteSchedule: scoped_writer sd_Org
    "\<lambda>t. if fails then (Inl ScheduleStatementFailed, t) else (Inr True, snd (deleteRows (\<lambda>r. sd_ID r = i) t))"
    "\<lambda>ids t. if fails then (Inl ScheduleStatementFailed, t)
       else (case deleteRows (\<lambda>r. sd_ID r = i \<and> anyOrg ids (sd_Org r)) t of (n, t') \<Rightarrow> (Inr (0 < n), t'))" for fails i
  by unfold_locales (auto simp: case_prod_beta intro!: deleteRows_others)

lemma schedulesInScope:
  "getScheduleInScope i sc t = getSchedule i (filter (\<lambda>r. reaches sc (sd_Org r)) t)"
  "filter (\<lambda>r. \<not> reaches sc (sd_Org r)) (snd (updateScheduleInScope fails now i inp nx sc t)) = filter (\<lambda>r. \<not> reaches sc (sd_Org r)) t"
  "filter (\<lambda>r. \<not> reaches sc (sd_Org r)) (snd (deleteScheduleInScope fails i sc t)) = filter (\<lambda>r. \<not> reaches sc (sd_Org r)) t"
  unfolding getScheduleInScope_def updateScheduleInScope_def deleteScheduleInScope_def
  by (rule getSchedule.reads_reached updateSchedule.writes_isolated deleteSchedule.writes_isolated)+

section \<open>Firing\<close>

datatype fireErr = NoAuthority | InvalidTargetConfig | DispatchFailed dispatchErr | UnknownTargetType

text \<open>\<open>driftDispatcher.Dispatch\<close>: the run id, the status and the error, if any.\<close>

definition dispatchTarget ::
    "dispatchEnv \<Rightarrow> dispatchTables \<Rightarrow> string \<Rightarrow> json \<Rightarrow> string \<Rightarrow> systemScope \<Rightarrow> driftRun list \<Rightarrow>
     (string \<times> string \<times> fireErr option) \<times> driftRun list \<times> ciCall list" where
  "dispatchTarget env tbl targetType cfg actor derived t =
     (if ss_organizationID derived = [] then (([], ''failed'', Some NoAuthority), t, [])
      else if targetType = ''drift'' then
        (case decodeDriftTarget cfg of
           None \<Rightarrow> (([], ''failed'', Some InvalidTargetConfig), t, [])
         | Some tgt \<Rightarrow>
             (case dispatchDriftBatch env tbl tgt actor (systemAuthority derived) t of
                ((b, e), t', calls) \<Rightarrow>
                  (let i = (case b of None \<Rightarrow> [] | Some x \<Rightarrow> db_BatchID x)
                   in case e of
                        Some x \<Rightarrow> ((i, ''failed'', Some (DispatchFailed x)), t', calls)
                      | None \<Rightarrow> ((i, ''success'', None), t', calls))))
      else (([], ''skipped'', Some UnknownTargetType), t, []))"

record schedWorld =
  sw_Schedules :: "scheduleRow list"
  sw_Runs :: "driftRun list"
  sw_Calls :: "ciCall list"

text \<open>What a replica runs with. The draws and faults of a firing are those of the schedule's id.\<close>

record runnerEnv =
  rn_cron :: cronLib
  rn_now :: int
  rn_batchLimit :: int
  rn_maxInFlight :: int
  rn_dueFails :: bool
  rn_countFails :: "string \<Rightarrow> bool"
  rn_claimFails :: "string \<Rightarrow> bool"
  rn_recordFails :: "string \<Rightarrow> bool"
  rn_dispatch :: "string \<Rightarrow> dispatchEnv"
  rn_tables :: dispatchTables

definition defaultBatchLimit :: int where "defaultBatchLimit = 50"

definition batchLimit :: "runnerEnv \<Rightarrow> nat" where
  "batchLimit env = nat (if rn_batchLimit env \<le> 0 then defaultBatchLimit else rn_batchLimit env)"

definition inFlight :: "driftRun list \<Rightarrow> nat" where
  "inFlight = countRunsIn [''dispatched'', ''running'']"

definition finishFiring :: "runnerEnv \<Rightarrow> string \<Rightarrow> string \<Rightarrow> string option \<Rightarrow> schedWorld \<Rightarrow> schedWorld" where
  "finishFiring env i status runID w =
     (if rn_recordFails env i then w
      else w\<lparr>sw_Schedules := recordOutcome (rn_now env) i status runID (sw_Schedules w)\<rparr>)"

text \<open>A claimed schedule: the authority of its row, the dispatch and its outcome.\<close>

definition fireClaimed :: "runnerEnv \<Rightarrow> scheduleRow \<Rightarrow> schedWorld \<Rightarrow> schedWorld" where
  "fireClaimed env s w =
     (case systemActingIn (orgText (sd_Org s)) ''schedules'' (sd_ID s) of
        Inl _ \<Rightarrow> finishFiring env (sd_ID s) ''failed'' None w
      | Inr derived \<Rightarrow>
          (case dispatchTarget (rn_dispatch env (sd_ID s)) (rn_tables env) (sd_TargetType s) (sd_TargetConfig s) ''scheduler'' derived (sw_Runs w) of
             ((runID, status, e), runs, calls) \<Rightarrow>
               finishFiring env (sd_ID s) (if e \<noteq> None \<and> status = [] then ''failed'' else status) (Some runID)
                 (w\<lparr>sw_Runs := runs, sw_Calls := sw_Calls w @ calls\<rparr>)))"

text \<open>\<open>fire\<close>: whether the schedule was claimed, here or elsewhere.\<close>

definition fire :: "runnerEnv \<Rightarrow> scheduleRow \<Rightarrow> schedWorld \<Rightarrow> bool \<times> schedWorld" where
  "fire env s w =
     (case sd_NextRunAt s of
        None \<Rightarrow> (True, w)
      | Some observed \<Rightarrow>
          if \<not> rn_countFails env (sd_ID s) \<and> 0 < rn_maxInFlight env \<and> rn_maxInFlight env \<le> int (inFlight (sw_Runs w)) then (False, w)
          else if rn_claimFails env (sd_ID s) then (False, w)
          else (case claimDue (sd_ID s) observed (rn_now env) (computeNextRun (rn_cron env) (sd_CronExpr s) (rn_now env)) (sw_Schedules w) of
                  (False, t) \<Rightarrow> (True, w\<lparr>sw_Schedules := t\<rparr>)
                | (True, t) \<Rightarrow> (True, fireClaimed env s (w\<lparr>sw_Schedules := t\<rparr>))))"

fun fireAll :: "runnerEnv \<Rightarrow> scheduleRow list \<Rightarrow> nat \<times> schedWorld \<Rightarrow> nat \<times> schedWorld" where
  "fireAll env [] acc = acc"
| "fireAll env (s # ss) (unclaimed, w) =
     (case fire env s w of (ok, w') \<Rightarrow> fireAll env ss (if ok then unclaimed else Suc unclaimed, w'))"

text \<open>\<open>checkDue\<close>: the due schedules are fired in turn; the count is the backlog it reports.\<close>

definition checkDue :: "runnerEnv \<Rightarrow> schedWorld \<Rightarrow> nat \<times> schedWorld" where
  "checkDue env w =
     (if rn_dueFails env then (0, w)
      else fireAll env (getDue (rn_now env) (batchLimit env) (sw_Schedules w)) (0, w))"

section \<open>Requests\<close>

datatype scheduleReply =
    ScheduleIs scheduleRow | ScheduleGone | ScheduleBad | ScheduleNotFound | ScheduleServerError
  | ScheduleBadGateway string | ScheduleRefused | ScheduleRan "scheduleRow option"

record scheduleRequest =
  sq_Name :: string
  sq_CronExpr :: string
  sq_TargetType :: string
  sq_TargetConfig :: "json option"
  sq_Enabled :: "bool option"

definition requestType :: "scheduleRequest \<Rightarrow> string" where
  "requestType req = (if sq_TargetType req = [] then ''drift'' else sq_TargetType req)"

definition requestTarget :: "scheduleRequest \<Rightarrow> driftTarget option" where
  "requestTarget req =
     (case sq_TargetConfig req of None \<Rightarrow> decodeDriftTarget (JObj []) | Some j \<Rightarrow> decodeDriftTarget j)"

text \<open>Binding and \<open>validate\<close> together: whether the request is accepted.\<close>

definition validateSchedule :: "cronLib \<Rightarrow> int \<Rightarrow> scheduleRequest \<Rightarrow> bool" where
  "validateSchedule cron now req =
     (sq_Name req \<noteq> [] \<and> sq_CronExpr req \<noteq> [] \<and> requestType req = ''drift''
      \<and> computeNextRun cron (sq_CronExpr req) now \<noteq> None
      \<and> (case requestTarget req of
           None \<Rightarrow> False
         | Some t \<Rightarrow> tg_PipelineConnectionID t \<noteq> []
                   \<and> validatePipelineInputs [] (tg_RepoRef t) [] [] [] [] = None
                   \<and> validateDriftTargets (targetItems t) = None))"

definition scheduleInputOf :: "scheduleRequest \<Rightarrow> scheduleInput" where
  "scheduleInputOf req = \<lparr>sn_Name = sq_Name req, sn_CronExpr = sq_CronExpr req, sn_TargetType = requestType req,
     sn_TargetConfig = sq_TargetConfig req, sn_Enabled = (sq_Enabled req \<noteq> Some False)\<rparr>"

definition nextRunOf :: "cronLib \<Rightarrow> int \<Rightarrow> string \<Rightarrow> bool \<Rightarrow> int option" where
  "nextRunOf cron now expr enabled = (if enabled then computeNextRun cron expr now else None)"

text \<open>\<open>targetReferencesInOrganization\<close>: None when every reference is the organization's own.\<close>

definition targetReferencesInOrganization :: "bool \<Rightarrow> dispatchTables \<Rightarrow> scheduleRequest \<Rightarrow> string \<Rightarrow> scheduleReply option" where
  "targetReferencesInOrganization fails tbl req org =
     (case requestTarget req of
        None \<Rightarrow> Some ScheduleBad
      | Some t \<Rightarrow>
          (let sc = organizationScope org
           in if tg_PipelineConnectionID t \<noteq> [] \<and> fails then Some ScheduleServerError
              else if tg_PipelineConnectionID t \<noteq> [] \<and> getConnectionInScope (tg_PipelineConnectionID t) sc (dt_Connections tbl) = None
              then Some ScheduleBad
              else if \<exists>item \<in> set (targetItems t). ti_SourceID item \<noteq> []
                         \<and> (fails \<or> getSourceInScope sc (ti_SourceID item) (dt_Sources tbl) = None)
              then Some (if fails then ScheduleServerError else ScheduleBad)
              else None))"

record scheduleFaults =
  sf_load :: bool
  sf_write :: bool
  sf_references :: bool

definition createScheduleH ::
    "cronLib \<Rightarrow> int \<Rightarrow> scheduleFaults \<Rightarrow> string \<Rightarrow> dispatchTables \<Rightarrow> scheduleRequest \<Rightarrow> string \<Rightarrow> scheduleRow list \<Rightarrow> scheduleReply \<times> scheduleRow list" where
  "createScheduleH cron now flt newID tbl req org t =
     (if \<not> validateSchedule cron now req then (ScheduleBad, t)
      else if org = [] then (ScheduleRefused, t)
      else (case targetReferencesInOrganization (sf_references flt) tbl req org of
              Some r \<Rightarrow> (r, t)
            | None \<Rightarrow>
                (case createSchedule (sf_write flt) now newID (scheduleInputOf req)
                        (nextRunOf cron now (sq_CronExpr req) (sq_Enabled req \<noteq> Some False)) org t of
                   (Inl _, t') \<Rightarrow> (ScheduleServerError, t')
                 | (Inr s, t') \<Rightarrow> (ScheduleIs s, t'))))"

definition getScheduleH :: "scheduleFaults \<Rightarrow> string \<Rightarrow> scope \<Rightarrow> scheduleRow list \<Rightarrow> scheduleReply" where
  "getScheduleH flt i sc t =
     (if sf_load flt then ScheduleServerError
      else (case getScheduleInScope i sc t of None \<Rightarrow> ScheduleNotFound | Some s \<Rightarrow> ScheduleIs s))"

definition updateScheduleH ::
    "cronLib \<Rightarrow> int \<Rightarrow> scheduleFaults \<Rightarrow> dispatchTables \<Rightarrow> string \<Rightarrow> scheduleRequest \<Rightarrow> scope \<Rightarrow> scheduleRow list \<Rightarrow> scheduleReply \<times> scheduleRow list" where
  "updateScheduleH cron now flt tbl i req sc t =
     (if \<not> validateSchedule cron now req then (ScheduleBad, t)
      else if sf_load flt then (ScheduleServerError, t)
      else (case getScheduleInScope i sc t of
              None \<Rightarrow> (ScheduleNotFound, t)
            | Some existing \<Rightarrow>
                (case targetReferencesInOrganization (sf_references flt) tbl req (orgText (sd_Org existing)) of
                   Some r \<Rightarrow> (r, t)
                 | None \<Rightarrow>
                     (case updateScheduleInScope (sf_write flt) now i (scheduleInputOf req)
                             (nextRunOf cron now (sq_CronExpr req) (sq_Enabled req \<noteq> Some False)) sc t of
                        (Inl ScheduleNotInScope, t') \<Rightarrow> (ScheduleNotFound, t')
                      | (Inl _, t') \<Rightarrow> (ScheduleServerError, t')
                      | (Inr None, t') \<Rightarrow> (ScheduleNotFound, t')
                      | (Inr (Some s), t') \<Rightarrow> (ScheduleIs s, t')))))"

definition deleteScheduleH :: "scheduleFaults \<Rightarrow> string \<Rightarrow> scope \<Rightarrow> scheduleRow list \<Rightarrow> scheduleReply \<times> scheduleRow list" where
  "deleteScheduleH flt i sc t =
     (case deleteScheduleInScope (sf_write flt) i sc t of
        (Inl ScheduleNotInScope, t') \<Rightarrow> (ScheduleNotFound, t')
      | (Inl _, t') \<Rightarrow> (ScheduleServerError, t')
      | (Inr False, t') \<Rightarrow> (ScheduleNotFound, t')
      | (Inr True, t') \<Rightarrow> (ScheduleGone, t'))"

text \<open>\<open>RunSchedule\<close>: fires at once, under the authority of the row and not of the caller.\<close>

definition runScheduleH :: "runnerEnv \<Rightarrow> scheduleFaults \<Rightarrow> string \<Rightarrow> string \<Rightarrow> scope \<Rightarrow> schedWorld \<Rightarrow> scheduleReply \<times> schedWorld" where
  "runScheduleH env flt i actor sc w =
     (if sf_load flt then (ScheduleServerError, w)
      else (case getScheduleInScope i sc (sw_Schedules w) of
              None \<Rightarrow> (ScheduleNotFound, w)
            | Some s \<Rightarrow>
                (case systemActingIn (orgText (sd_Org s)) ''schedules'' (sd_ID s) of
                   Inl _ \<Rightarrow> (ScheduleServerError, w)
                 | Inr derived \<Rightarrow>
                     (case dispatchTarget (rn_dispatch env (sd_ID s)) (rn_tables env) (sd_TargetType s) (sd_TargetConfig s) actor derived (sw_Runs w) of
                        ((runID, status, e), runs, calls) \<Rightarrow>
                          (let t' = (if sf_write flt then sw_Schedules w
                                     else recordRun (sd_ID s) status (Some runID) (rn_now env)
                                            (nextRunOf (rn_cron env) (rn_now env) (sd_CronExpr s) (sd_Enabled s)) (sw_Schedules w));
                               w' = w\<lparr>sw_Schedules := t', sw_Runs := runs, sw_Calls := sw_Calls w @ calls\<rparr>
                           in (if e \<noteq> None then ScheduleBadGateway status else ScheduleRan (getScheduleInScope (sd_ID s) sc t'), w'))))))"

end
