(* ===== verification/Firing.thy ===== *)
theory Firing
  imports Scheduler
begin

text \<open>
  What the scheduler promises: a due run is claimed once however many replicas poll, the keyword
  schedules run exactly when they say, the runs in flight are bounded through a poll and a schedule is
  read and written in its own organization only.
\<close>

section \<open>A keyword's next run lies ahead\<close>

lemma durationTerms_bounds: "durationTerms d s = Some r \<Longrightarrow> 0 \<le> d \<Longrightarrow> d \<le> 2 ^ 63 \<Longrightarrow> 0 \<le> r \<and> r \<le> 2 ^ 63"
proof (induction d s rule: durationTerms.induct)
  case (1 d s)
  show ?case
  proof (cases "s = []")
    case True
    with 1 show ?thesis by (simp add: durationTerms.simps)
  next
    case False
    with 1(2) obtain n r' where t: "durationTerm s = Some (n, r')"
      by (subst (asm) durationTerms.simps) (auto split: option.splits)
    let ?d = "(d + n) mod 2 ^ 64"
    from 1(2) False t have "\<not> 2 ^ 63 < ?d" "durationTerms ?d r' = Some r"
      by (subst (asm) durationTerms.simps; simp add: Let_def split: if_splits)+
    with 1(1)[OF False t refl refl] show ?thesis by simp
  qed
qed

lemma parseDuration_bounds: "parseDuration s = Some d \<Longrightarrow> - (2 ^ 63) \<le> d \<and> d \<le> 2 ^ 63 - 1"
  using durationTerms_bounds[of 0] by (fastforce simp: parseDuration_def Let_def split: if_splits option.splits)

lemma computeNextRun_keyword:
  assumes "cron (trimSpace e) = None" "computeNextRun cron e x = Some n"
  shows "x + minute \<le> n \<and> n < x + 2 ^ 63"
  using assms parseDuration_bounds by (fastforce simp: computeNextRun_def Let_def split: if_splits option.splits)

section \<open>A firing happens once\<close>

text \<open>Any number of replicas poll, claim and are edited around, on one clock. \<open>fs_Observed\<close> has the
  firings a replica has seen due, \<open>fs_Computed\<close> those it has computed a next run for and will try to
  claim, \<open>fs_Prepared\<close> the next runs that edits and hand-started runs have computed and not yet written.
  Every statement comes after what it writes was computed, at any distance. \<open>fs_Fired\<close> are the firings that
  were claimed and \<open>fs_Late\<close> the next runs that had already passed when they were written.\<close>

record firingSystem =
  fs_Clock :: int
  fs_Schedules :: "scheduleRow list"
  fs_Observed :: "(string \<times> int) list"
  fs_Computed :: "(string \<times> int \<times> int option) list"
  fs_Prepared :: "(string \<times> int option) list"
  fs_Late :: "(string \<times> int) list"
  fs_Fired :: "(string \<times> int) list"

definition observed :: "scheduleRow list \<Rightarrow> (string \<times> int) list" where
  "observed due = map (\<lambda>s. (sd_ID s, the (sd_NextRunAt s))) due"

definition overdue :: "int \<Rightarrow> string \<Rightarrow> int option \<Rightarrow> (string \<times> int) list" where
  "overdue now i nx = (case nx of None \<Rightarrow> [] | Some n \<Rightarrow> if now < n then [] else [(i, n)])"

inductive pollStep :: "cronLib \<Rightarrow> firingSystem \<Rightarrow> firingSystem \<Rightarrow> bool" for cron where
  passTime: "0 \<le> d \<Longrightarrow> pollStep cron s (s\<lparr>fs_Clock := fs_Clock s + d\<rparr>)"
| poll: "pollStep cron s (s\<lparr>fs_Observed := fs_Observed s @ observed (getDue (fs_Clock s) limit (fs_Schedules s))\<rparr>)"
| compute: "(i, o') \<in> set (fs_Observed s) \<Longrightarrow>
    pollStep cron s (s\<lparr>fs_Computed := fs_Computed s @ [(i, o', computeNextRun cron expr (fs_Clock s))]\<rparr>)"
| claim: "(i, o', nx) \<in> set (fs_Computed s) \<Longrightarrow> claimDue i o' ranAt nx (fs_Schedules s) = (True, t) \<Longrightarrow>
    pollStep cron s (s\<lparr>fs_Schedules := t, fs_Late := overdue (fs_Clock s) i nx @ fs_Late s, fs_Fired := fs_Fired s @ [(i, o')]\<rparr>)"
| outcome: "pollStep cron s (s\<lparr>fs_Schedules := recordOutcome now i status runID (fs_Schedules s)\<rparr>)"
| prepare: "pollStep cron s (s\<lparr>fs_Prepared := fs_Prepared s @ [(i, nextRunOf cron (fs_Clock s) expr enabled)]\<rparr>)"
| runNow: "(i, nx) \<in> set (fs_Prepared s) \<Longrightarrow>
    pollStep cron s (s\<lparr>fs_Schedules := recordRun i status runID ranAt nx (fs_Schedules s),
      fs_Late := overdue (fs_Clock s) i nx @ fs_Late s\<rparr>)"
| edit: "(i, nx) \<in> set (fs_Prepared s) \<Longrightarrow>
    pollStep cron s (s\<lparr>fs_Schedules := snd (updateScheduleInScope fails (fs_Clock s) i inp nx sc (fs_Schedules s)),
      fs_Late := overdue (fs_Clock s) i nx @ fs_Late s\<rparr>)"
| create: "newID \<notin> sd_ID ` set (fs_Schedules s) \<union> fst ` set (fs_Fired s) \<Longrightarrow>
    pollStep cron s (s\<lparr>fs_Schedules := snd (createSchedule fails (fs_Clock s) newID inp nx org (fs_Schedules s))\<rparr>)"
| remove: "pollStep cron s (s\<lparr>fs_Schedules := snd (deleteScheduleInScope fails i sc (fs_Schedules s))\<rparr>)"

text \<open>A next run that was not late when it was written lies past everything that was fired.\<close>

definition pastFirings :: "(string \<times> int) list \<Rightarrow> (string \<times> int) list \<Rightarrow> scheduleRow list \<Rightarrow> bool" where
  "pastFirings late fired t = (\<forall>r \<in> set t. \<forall>n. sd_NextRunAt r = Some n \<longrightarrow> (sd_ID r, n) \<in> set late
     \<or> (\<forall>o'. (sd_ID r, o') \<in> set fired \<longrightarrow> o' < n))"

definition onTime :: "(string \<times> int) list \<Rightarrow> (string \<times> int) list \<Rightarrow> (string \<times> int) list" where
  "onTime late fired = filter (\<lambda>x. x \<notin> set late) fired"

definition firingOK :: "firingSystem \<Rightarrow> bool" where
  "firingOK s = (distinct (map sd_ID (fs_Schedules s)) \<and> distinct (onTime (fs_Late s) (fs_Fired s))
     \<and> pastFirings (fs_Late s) (fs_Fired s) (fs_Schedules s)
     \<and> (\<forall>x \<in> set (fs_Observed s) \<union> set (fs_Fired s). snd x \<le> fs_Clock s)
     \<and> (\<forall>(i, o', nx) \<in> set (fs_Computed s). o' \<le> fs_Clock s))"

text \<open>An update of the table keeps the invariant where a next run is the one there was, lies ahead or is noted
  as late.\<close>

definition nextsAhead :: "int \<Rightarrow> (string \<times> int) list \<Rightarrow> scheduleRow list \<Rightarrow> scheduleRow list \<Rightarrow> bool" where
  "nextsAhead now late t t' = (\<forall>r' \<in> set t'. \<forall>n. sd_NextRunAt r' = Some n \<longrightarrow>
     now < n \<or> (sd_ID r', n) \<in> set late \<or> (\<exists>r \<in> set t. sd_ID r = sd_ID r' \<and> sd_NextRunAt r = Some n))"

lemma pastFirings_ahead:
  assumes "pastFirings late fired t" "nextsAhead now late' t t'" "\<forall>x \<in> set fired. snd x \<le> now" "set late \<subseteq> set late'"
  shows "pastFirings late' fired t'"
  unfolding pastFirings_def
proof (intro ballI allI impI)
  fix r' n assume r': "r' \<in> set t'" "sd_NextRunAt r' = Some n"
  from assms(2) r' consider "now < n" | "(sd_ID r', n) \<in> set late'" | r where "r \<in> set t" "sd_ID r = sd_ID r'" "sd_NextRunAt r = Some n"
    unfolding nextsAhead_def by blast
  then show "(sd_ID r', n) \<in> set late' \<or> (\<forall>o'. (sd_ID r', o') \<in> set fired \<longrightarrow> o' < n)"
  proof cases
    case 1
    with assms(3) show ?thesis by fastforce
  next
    case 3
    with assms(1,4) show ?thesis unfolding pastFirings_def by (metis subsetD)
  qed simp
qed

lemma nextsAhead_update:
  assumes "\<And>r. sd_ID (f r) = sd_ID r"
    and "\<And>r n. p r \<Longrightarrow> sd_NextRunAt (f r) = Some n \<Longrightarrow> now < n \<or> (sd_ID r, n) \<in> set late \<or> sd_NextRunAt r = Some n"
  shows "nextsAhead now late t (snd (updateWhere p f t))"
  unfolding nextsAhead_def updateWhere_def snd_conv set_map
proof (intro ballI allI impI)
  fix r' n assume "r' \<in> (\<lambda>r. if p r then f r else r) ` set t" "sd_NextRunAt r' = Some n"
  then obtain r where "r \<in> set t" "p r \<and> r' = f r \<or> r' = r" "sd_NextRunAt r' = Some n" by auto
  with assms show "now < n \<or> (sd_ID r', n) \<in> set late \<or> (\<exists>r \<in> set t. sd_ID r = sd_ID r' \<and> sd_NextRunAt r = Some n)" by metis
qed

lemma onTime_more: "distinct (onTime late fired) \<Longrightarrow> distinct (onTime (more' @ late) fired)"
  unfolding onTime_def by (induction fired) (auto split: if_splits)

lemma firingOK_table:
  assumes "firingOK s" "nextsAhead (fs_Clock s) (extra @ fs_Late s) (fs_Schedules s) t" "distinct (map sd_ID t)"
  shows "firingOK (s\<lparr>fs_Schedules := t, fs_Late := extra @ fs_Late s\<rparr>)"
proof -
  have "pastFirings (fs_Late s) (fs_Fired s) (fs_Schedules s)" "\<forall>x \<in> set (fs_Fired s). snd x \<le> fs_Clock s"
    using assms(1) by (auto simp: firingOK_def)
  from pastFirings_ahead[OF this(1) assms(2) this(2)] have "pastFirings (extra @ fs_Late s) (fs_Fired s) t" by simp
  with assms(1,3) onTime_more show ?thesis by (simp add: firingOK_def)
qed

lemmas firingOK_rows = firingOK_table[where extra = "[]", simplified]

lemma updateWhere_sdIDs: "(\<And>r. sd_ID (f r) = sd_ID r) \<Longrightarrow> map sd_ID (snd (updateWhere p f t)) = map sd_ID t"
  by (simp add: updateWhere_def)

lemma nextsAhead_refl [simp]: "nextsAhead now late t t"
  by (auto simp: nextsAhead_def)

lemma nextsAhead_sub: "set t' \<subseteq> set t \<Longrightarrow> nextsAhead now late t t'"
  by (auto simp: nextsAhead_def)

lemma overdue_cases: "nx = Some n \<Longrightarrow> now < n \<or> (i, n) \<in> set (overdue now i nx)"
  by (simp add: overdue_def)

lemma updateScheduleWhere_ok:
  "nextsAhead now (overdue now i nx @ late) t (snd (updateScheduleWhere fails now' i inp nx p t))"
  "map sd_ID (snd (updateScheduleWhere fails now' i inp nx p t)) = map sd_ID t"
  using overdue_cases[of nx _ now i]
  by (fastforce simp: updateScheduleWhere_def updateWhere_sdIDs intro!: nextsAhead_update)+

lemma getDue_observed:
  assumes "(i, x) \<in> set (observed (getDue now limit t))"
  shows "x \<le> now"
proof -
  from assms obtain r where "r \<in> set (getDue now limit t)" "x = the (sd_NextRunAt r)" by (auto simp: observed_def)
  moreover have "set (getDue now limit t) \<subseteq> set (filter (isDue now) t)"
    unfolding getDue_def by (rule subset_trans[OF set_take_subset]) simp
  ultimately show ?thesis by (auto simp: isDue_def split: option.splits)
qed

lemma claimDue_ok:
  assumes "claimDue i o' ranAt nx t = (True, t')" "distinct (map sd_ID t)" "pastFirings late fired t" "\<forall>x \<in> set fired. snd x \<le> now"
    and "o' \<le> now" "late' = overdue now i nx @ late"
  shows "pastFirings late' (fired @ [(i, o')]) t'" "(i, o') \<notin> set late \<Longrightarrow> (i, o') \<notin> set fired" "map sd_ID t' = map sd_ID t"
proof -
  let ?p = "\<lambda>r. sd_ID r = i \<and> sd_Enabled r \<and> sd_NextRunAt r = Some o'"
  from assms(1) have n: "0 < fst (updateWhere ?p (claimRow ranAt nx) t)" "t' = snd (updateWhere ?p (claimRow ranAt nx) t)"
    by (auto simp: claimDue_def split: prod.splits)
  from n(1) obtain r where r: "r \<in> set t" "?p r" by (auto simp: updateWhere_def length_greater_0_conv filter_empty_conv)
  with assms(3) show "(i, o') \<notin> set late \<Longrightarrow> (i, o') \<notin> set fired" unfolding pastFirings_def by blast
  have row: "sd_ID (claimRow ranAt nx y) = sd_ID y" "sd_NextRunAt (claimRow ranAt nx y) = nx" for y by (simp_all add: claimRow_def)
  show "map sd_ID t' = map sd_ID t" unfolding n(2) by (rule updateWhere_sdIDs) (simp add: row)
  have "nextsAhead now late' t t'" unfolding n(2)
    by (rule nextsAhead_update) (use overdue_cases[of nx _ now i] in \<open>auto simp: row assms(6)\<close>)
  from pastFirings_ahead[OF assms(3) this assms(4)] assms(6) have old: "pastFirings late' fired t'" by auto
  have new: "o' < m \<or> (i, m) \<in> set late'" if y: "y \<in> set t'" "sd_NextRunAt y = Some m" "sd_ID y = i" for y m
  proof -
    from y(1) n(2) obtain z where z: "z \<in> set t" "y = (if ?p z then claimRow ranAt nx z else z)" by (auto simp: updateWhere_def)
    with y(3) row have "sd_ID z = i" by (auto split: if_splits)
    with assms(2) r z(1) have "z = r" by (auto simp: distinct_map inj_on_def)
    with r z have "y = claimRow ranAt nx r" by simp
    with y(2) row assms(5,6) overdue_cases[of nx m now i] show ?thesis by auto
  qed
  show "pastFirings late' (fired @ [(i, o')]) t'" using old new unfolding pastFirings_def by fastforce
qed

lemma pollStep_ok:
  assumes "pollStep cron s s'" "firingOK s"
  shows "firingOK s'"
  using assms
proof (induction rule: pollStep.induct)
  case (passTime d s)
  have "snd x \<le> fs_Clock s + d" if "x \<in> set (fs_Observed s) \<union> set (fs_Fired s)" for x
  proof -
    have "snd x \<le> fs_Clock s" using passTime(2) that unfolding firingOK_def by blast
    with passTime(1) show ?thesis by simp
  qed
  moreover have "o' \<le> fs_Clock s + d" if "(i, o', nx) \<in> set (fs_Computed s)" for i o' nx
  proof -
    have "o' \<le> fs_Clock s" using passTime(2) that unfolding firingOK_def by blast
    with passTime(1) show ?thesis by simp
  qed
  ultimately show ?case using passTime(2) by (auto simp: firingOK_def)
next
  case (poll s limit)
  have "snd x \<le> fs_Clock s" if "x \<in> set (observed (getDue (fs_Clock s) limit (fs_Schedules s)))" for x
    using getDue_observed[of "fst x" "snd x"] that by simp
  with poll show ?case by (auto simp: firingOK_def)
next
  case (compute i o' s expr)
  then have "snd (i, o') \<le> fs_Clock s" unfolding firingOK_def by blast
  with compute show ?case by (auto simp: firingOK_def)
next
  case (claim i o' nx s ranAt t)
  then have o': "o' \<le> fs_Clock s" unfolding firingOK_def by blast
  let ?late = "overdue (fs_Clock s) i nx @ fs_Late s"
  from claim(3) have "distinct (map sd_ID (fs_Schedules s))" "pastFirings (fs_Late s) (fs_Fired s) (fs_Schedules s)"
    "\<forall>x \<in> set (fs_Fired s). snd x \<le> fs_Clock s" by (auto simp: firingOK_def)
  note c = claimDue_ok[OF claim(2) this o' refl]
  have "distinct (onTime ?late (fs_Fired s @ [(i, o')]))"
    using claim(3) c(2) onTime_more[of "fs_Late s" "fs_Fired s"] by (auto simp: firingOK_def onTime_def)
  with c(1,3) o' claim(3) show ?case by (simp add: firingOK_def)
next
  case (outcome s now i status runID)
  show ?case
    by (rule firingOK_rows[OF outcome]) (use outcome in \<open>auto simp: recordOutcome_def firingOK_def updateWhere_sdIDs intro!: nextsAhead_update\<close>)
next
  case (prepare s i expr enabled)
  then show ?case by (simp add: firingOK_def)
next
  case (runNow i nx s status runID ranAt)
  show ?case
    by (rule firingOK_table[OF runNow(2)])
      (use runNow(2) overdue_cases[of nx _ "fs_Clock s" i] in \<open>auto simp: recordRun_def firingOK_def updateWhere_sdIDs intro!: nextsAhead_update\<close>)
next
  case (edit i nx s fails inp sc)
  show ?case
    by (rule firingOK_table[OF edit(2)])
      (use edit(2) updateScheduleWhere_ok in \<open>auto simp: updateScheduleInScope_def writeInScope_def Let_def firingOK_def\<close>)
next
  case (create newID s fails inp nx org)
  then show ?case
    by (auto simp: createSchedule_def Let_def firingOK_def pastFirings_def image_iff)
next
  case (remove s fails i sc)
  have "set (snd (deleteScheduleInScope fails i sc (fs_Schedules s))) \<subseteq> set (fs_Schedules s)
      \<and> distinct (map sd_ID (snd (deleteScheduleInScope fails i sc (fs_Schedules s))))"
    using remove by (auto simp: deleteScheduleInScope_def writeInScope_def Let_def deleteRows_def firingOK_def distinct_map_filter split: if_splits)
  then show ?case by (intro firingOK_rows[OF remove] nextsAhead_sub) auto
qed

text \<open>C20: A due run is claimed once. Whatever replicas poll, compute and claim in whatever order, and
  however schedules are created, edited, run by hand and deleted meanwhile, no due run of a schedule is
  claimed twice, unless it is a next run that had already passed on the clock when it was written. Nothing
  is assumed of the cron library: its zero time, for an expression that never occurs, is such a late next
  run, and so is one that an edit or a run by hand computed and wrote only after it had gone by.\<close>

theorem firing_at_most_once:
  assumes "(pollStep cron)\<^sup>*\<^sup>* s s'" "distinct (map sd_ID (fs_Schedules s))"
    and "fs_Observed s = []" "fs_Computed s = []" "fs_Fired s = []"
  shows "distinct (filter (\<lambda>x. x \<notin> set (fs_Late s')) (fs_Fired s'))"
proof -
  have "firingOK s" using assms(2-5) by (simp add: firingOK_def pastFirings_def onTime_def)
  with assms(1) have "firingOK s'" by (induction rule: rtranclp_induct) (auto intro: pollStep_ok)
  then show ?thesis by (simp add: firingOK_def onTime_def)
qed

text \<open>An expression the library parses but finds no instant for yields its zero time: the claim writes
  that, and the schedule is due again at once, with the very value that was claimed the next time.\<close>

lemma unsatisfiable_cron_stays_due:
  assumes "cron (trimSpace expr) = Some (\<lambda>_. zero)" "zero \<le> now" "r \<in> set t" "sd_ID r = i" "sd_Enabled r" "sd_NextRunAt r = Some zero"
  shows "\<exists>t'. claimDue i zero now (computeNextRun cron expr now) t = (True, t')
    \<and> (\<exists>r' \<in> set t'. sd_ID r' = i \<and> sd_Enabled r' \<and> sd_NextRunAt r' = Some zero \<and> isDue now r')"
proof -
  let ?p = "\<lambda>r. sd_ID r = i \<and> sd_Enabled r \<and> sd_NextRunAt r = Some zero"
  have nx: "computeNextRun cron expr now = Some zero" using assms(1) by (simp add: computeNextRun_def)
  have "0 < fst (updateWhere ?p (claimRow now (Some zero)) t)"
    using assms(3-6) by (auto simp: updateWhere_def length_greater_0_conv filter_empty_conv)
  moreover have "(\<lambda>r. if ?p r then claimRow now (Some zero) r else r) r \<in> set (snd (updateWhere ?p (claimRow now (Some zero)) t))"
    unfolding updateWhere_def snd_conv set_map using assms(3) by (rule imageI)
  then have "claimRow now (Some zero) r \<in> set (snd (updateWhere ?p (claimRow now (Some zero)) t))" using assms(4-6) by simp
  moreover have "isDue now (claimRow now (Some zero) r)" using assms(2,5) by (simp add: isDue_def claimRow_def)
  moreover have "sd_ID (claimRow now (Some zero) r) = i" "sd_Enabled (claimRow now (Some zero) r)"
    "sd_NextRunAt (claimRow now (Some zero) r) = Some zero" using assms(4,5) by (simp_all add: claimRow_def)
  ultimately show ?thesis
    unfolding claimDue_def nx case_prod_beta by blast
qed

section \<open>Every so many minutes\<close>

lemma digitVal_nonneg: "isDigit c \<Longrightarrow> 0 \<le> digitVal c"
proof -
  assume "isDigit c"
  then have "(48::nat) \<le> of_char c" by (simp add: isDigit_def less_eq_char_def)
  moreover have "(of_char c :: int) = int (of_char c)" by (rule of_nat_of_char [symmetric])
  ultimately show ?thesis unfolding digitVal_def by linarith
qed

lemma foldl_digits_mono: "list_all isDigit ds \<Longrightarrow> 0 \<le> x \<Longrightarrow> x \<le> foldl (\<lambda>a c. 10 * a + digitVal c) x ds"
proof (induction ds arbitrary: x)
  case (Cons c ds)
  then have "0 \<le> digitVal c" by (simp add: digitVal_nonneg)
  with Cons.prems have "x \<le> 10 * x + digitVal c" by simp
  also have "\<dots> \<le> foldl (\<lambda>a c. 10 * a + digitVal c) (10 * x + digitVal c) ds"
    using Cons \<open>0 \<le> digitVal c\<close> by simp
  finally show ?case by simp
qed simp

lemma leadingInt_digits:
  assumes "list_all isDigit ds" "0 \<le> x" "foldl (\<lambda>a c. 10 * a + digitVal c) x ds \<le> 2 ^ 63" "r = [] \<or> \<not> isDigit (hd r)"
  shows "leadingInt x (ds @ r) = Some (foldl (\<lambda>a c. 10 * a + digitVal c) x ds, r)"
  using assms
proof (induction ds arbitrary: x)
  case Nil
  then show ?case by (cases r) auto
next
  case (Cons c ds)
  have d: "0 \<le> digitVal c" using Cons.prems(1) by (simp add: digitVal_nonneg)
  have "10 * x + digitVal c \<le> 2 ^ 63" using foldl_digits_mono[of ds "10 * x + digitVal c"] Cons.prems d by simp
  moreover from this d have "x \<le> 2 ^ 63 div 10" by simp
  ultimately show ?case using Cons d by (simp add: mult.commute)
qed

lemma durationTerm_minutes:
  assumes "1 \<le> k" "k \<le> 2 ^ 63 div minute"
  shows "durationTerm (itoa k @ ''m'') = Some (k * minute, [])"
proof -
  have i: "itoa k = decDigits k" using assms(1) by (simp add: itoa_def)
  have ds: "decDigits k \<noteq> []" "list_all isDigit (decDigits k)" using decDigits_digits[of k] assms(1) by auto
  have v: "foldl (\<lambda>a c. 10 * a + digitVal c) 0 (decDigits k) = k" using decVal_decDigits[of k] assms(1) by (simp add: decVal_def)
  have "k \<le> 2 ^ 63" using assms(2) by simp
  with v leadingInt_digits[OF ds(2), of 0 "''m''"] have l: "leadingInt 0 (itoa k @ ''m'') = Some (k, ''m'')"
    by (simp add: i isDigit_def)
  have "isDigit (hd (itoa k @ ''m''))" using ds by (cases "decDigits k") (auto simp: i)
  moreover have "takeWhile isUnitChar ''m'' = ''m''" by (simp add: isUnitChar_def isDigit_def)
  moreover have "unitNanos ''m'' = Some minute" by (simp add: unitNanos_def)
  ultimately show ?thesis using l ds(1) assms(2) by (simp add: durationTerm_def Let_def i)
qed

lemma parseDuration_minutes:
  assumes "1 \<le> k" "k \<le> 2 ^ 63 div minute"
  shows "parseDuration (itoa k @ ''m'') = Some (k * minute)"
proof -
  obtain d ds where i: "itoa k = d # ds" "d \<noteq> CHR ''-''" "d \<noteq> CHR ''+''" using itoa_Cons[of k] assms(1) by auto
  have lim: "k * minute \<le> 2 ^ 63 - 1" using assms(2) by simp
  then have m: "k * minute mod 2 ^ 64 = k * minute" using assms(1) by (intro mod_pos_pos_trivial) simp_all
  have "durationTerms 0 (itoa k @ ''m'') = Some (k * minute)"
    by (subst durationTerms.simps) (use durationTerm_minutes[OF assms] lim m in \<open>simp add: Let_def durationTerms.simps\<close>)
  then show ?thesis using i lim by (simp add: parseDuration_def Let_def)
qed

lemma trimSpace_ends: "s \<noteq> [] \<Longrightarrow> \<not> isSpace (hd s) \<Longrightarrow> \<not> isSpace (last s) \<Longrightarrow> trimSpace s = s"
  by (simp add: trimSpace_id)

text \<open>A keyword schedule runs when it says. \<open>every <k>m\<close> is read back as exactly k minutes from now, for
  every k whose minutes fit a duration, and no keyword yields a run less than a minute ahead or
  further than a duration reaches.\<close>

theorem keyword_runs_exact:
  assumes "\<forall>e. cron e = None"
  shows "(\<forall>k. 1 \<le> k \<and> k \<le> 2 ^ 63 div minute \<longrightarrow> computeNextRun cron (''every '' @ itoa k @ ''m'') now = Some (now + k * minute))
    \<and> (\<forall>e n. computeNextRun cron e now = Some n \<longrightarrow> now + minute \<le> n \<and> n < now + 2 ^ 63)"
proof (intro conjI allI impI)
  fix k :: int assume k: "1 \<le> k \<and> k \<le> 2 ^ 63 div minute"
  obtain d ds where i: "itoa k = d # ds" "isDigit d"
    using itoa_Cons[of k] decDigits_digits[of k] k by (cases "itoa k") (auto simp: itoa_def)
  have body: "trimSpace (itoa k @ ''m'') = itoa k @ ''m''"
    by (rule trimSpace_ends) (use i in \<open>auto simp: isSpace_def isDigit_def\<close>)
  have whole: "trimSpace (''every '' @ itoa k @ ''m'') = ''every '' @ itoa k @ ''m''"
    by (rule trimSpace_ends) (simp_all add: isSpace_def)
  have "1 * minute \<le> k * minute" using k by (intro mult_right_mono) simp_all
  then have "\<not> k * minute < minute" by simp
  then show "computeNextRun cron (''every '' @ itoa k @ ''m'') now = Some (now + k * minute)"
    unfolding computeNextRun_def whole Let_def trimPrefix_append hasPrefix_append body
    using assms parseDuration_minutes[of k] k by (simp del: append.simps)
next
  fix e n assume n: "computeNextRun cron e now = Some n"
  have "cron (trimSpace e) = None" using assms by blast
  from computeNextRun_keyword[OF this n] show "now + minute \<le> n" "n < now + 2 ^ 63" by simp_all
qed

theorem keyword_runs_exact_witness: "computeNextRun (\<lambda>_. None) ''every 15m'' 7 = Some (7 + 15 * minute)"
proof -
  have "\<forall>e. (\<lambda>_. None) e = (None :: (int \<Rightarrow> int) option)" by simp
  from keyword_runs_exact[OF this, of 7, THEN conjunct1, rule_format, of 15]
  have "computeNextRun (\<lambda>_. None) (''every '' @ itoa 15 @ ''m'') 7 = Some (7 + 15 * minute)" by simp
  moreover have "''every '' @ itoa 15 @ ''m'' = ''every 15m''" by code_simp
  ultimately show ?thesis by simp
qed

section \<open>The cap on runs in flight\<close>

definition active :: "driftRun \<Rightarrow> bool" where
  "active r = (dn_Status r = ''dispatched'' \<or> dn_Status r = ''running'')"

lemma inFlight_active: "inFlight t = length (filter active t)"
  by (simp add: inFlight_def countRunsIn_def countWhere_def active_def[abs_def])

lemma inFlight_append: "inFlight (t @ u) \<le> inFlight t + length u"
  by (simp add: inFlight_active)

lemma inFlight_update:
  assumes "\<And>r. p r \<Longrightarrow> active (f r) \<Longrightarrow> active r"
  shows "inFlight (snd (updateWhere p f t)) \<le> inFlight t"
  using assms by (induction t) (auto simp: inFlight_active updateWhere_def le_SucI)

lemma failBatch_inFlight: "inFlight (snd (failBatch env batch col detail t)) \<le> inFlight t"
  by (auto simp: failBatch_def failBatchRows_def updateStatus_def setDetail_def failRow_def active_def
      intro!: inFlight_update split: option.splits if_splits)

lemma dispatch_inFlight:
  assumes "dispatchDriftBatch env tbl tgt actor auth t = ((b, e), t', calls)"
  shows "inFlight t' \<le> inFlight t + length (targetItems tgt)"
  using assms
proof (cases rule: dispatch_cases)
  case (aborted conn x runs)
  have "length runs \<le> length (targetItems tgt)" using createRuns_spec[OF aborted(4)] by auto
  with inFlight_append[of t runs] have "inFlight (t @ runs) \<le> inFlight t + length (targetItems tgt)" by linarith
  moreover have "inFlight t' \<le> inFlight (t @ runs)"
    unfolding aborted(5) by (auto simp: failBatchRows_def active_def intro!: inFlight_update)
  ultimately show ?thesis by linarith
next
  case (launched conn cred runs)
  let ?col = "if 1 < length (targetItems tgt) then Some (dp_newBatch env) else None"
  have "length runs \<le> length (targetItems tgt)" using createRuns_spec[OF launched(3)] by auto
  with inFlight_append[of t runs] have "inFlight (t @ runs) \<le> inFlight t + length (targetItems tgt)" by linarith
  moreover have "inFlight t' \<le> inFlight (t @ runs)"
    using launched(4)
  proof (cases rule: launchBatch_cases)
    case (failed x)
    show ?thesis unfolding failed(3) by (rule failBatch_inFlight)
  next
    case (started call)
    from started(6) show ?thesis
      by (auto simp: setCIRun_def active_def intro!: inFlight_update)
  qed
  ultimately show ?thesis by linarith
qed simp

lemma dispatchTarget_inFlight:
  assumes "dispatchTarget env tbl ty cfg actor derived t = (res, t', calls)" "\<And>tgt. decodeDriftTarget cfg = Some tgt \<Longrightarrow> length (targetItems tgt) \<le> k"
  shows "inFlight t' \<le> inFlight t + k"
proof (cases "decodeDriftTarget cfg")
  case None
  with assms(1) show ?thesis by (auto simp: dispatchTarget_def split: if_splits)
next
  case (Some tgt)
  obtain b e t1 c1 where d: "dispatchDriftBatch env tbl tgt actor (systemAuthority derived) t = ((b, e), t1, c1)" by (metis surj_pair)
  have "t' = t \<or> t' = t1" using assms(1) Some d by (auto simp: dispatchTarget_def Let_def split: if_splits option.splits)
  with dispatch_inFlight[OF d] assms(2)[OF Some] show ?thesis by auto
qed

text \<open>A schedule whose target passed validation.\<close>

definition scheduleValid :: "scheduleRow \<Rightarrow> bool" where
  "scheduleValid s = (case decodeDriftTarget (sd_TargetConfig s) of
     None \<Rightarrow> False | Some tgt \<Rightarrow> validateDriftTargets (targetItems tgt) = None)"

lemma fire_inFlight:
  assumes "fire env s w = (b, w')" "scheduleValid s" "0 < rn_maxInFlight env"
  shows "int (inFlight (sw_Runs w')) \<le> max (int (inFlight (sw_Runs w))) (rn_maxInFlight env - 1 + 100)
    + (if rn_countFails env (sd_ID s) then 100 else 0)"
proof -
  have same: "sw_Runs (finishFiring env i st r u) = sw_Runs u" for i st r u by (simp add: finishFiring_def)
  have grow: "inFlight (sw_Runs (fireClaimed env s u)) \<le> inFlight (sw_Runs u) + 100" for u
  proof (cases "systemActingIn (orgText (sd_Org s)) ''schedules'' (sd_ID s)")
    case (Inl x)
    then show ?thesis by (simp add: fireClaimed_def same)
  next
    case (Inr derived)
    obtain i st e runs calls where d: "dispatchTarget (rn_dispatch env (sd_ID s)) (rn_tables env) (sd_TargetType s) (sd_TargetConfig s)
        ''scheduler'' derived (sw_Runs u) = ((i, st, e), runs, calls)" by (metis prod_cases3)
    have "length (targetItems tgt) \<le> 100" if "decodeDriftTarget (sd_TargetConfig s) = Some tgt" for tgt
      using assms(2) that by (simp add: scheduleValid_def validateDriftTargets_def maxDriftTargets_def split: if_splits)
    from dispatchTarget_inFlight[OF d this] Inr d show ?thesis by (simp add: fireClaimed_def same)
  qed
  have "sw_Runs w' = sw_Runs w \<or> (\<exists>t. w' = fireClaimed env s (w\<lparr>sw_Schedules := t\<rparr>) 
      \<and> (rn_countFails env (sd_ID s) \<or> int (inFlight (sw_Runs w)) < rn_maxInFlight env))"
    using assms(1,3) by (auto simp: fire_def split: option.splits if_splits prod.splits bool.splits)
  then show ?thesis
  proof
    assume "\<exists>t. w' = fireClaimed env s (w\<lparr>sw_Schedules := t\<rparr>)
      \<and> (rn_countFails env (sd_ID s) \<or> int (inFlight (sw_Runs w)) < rn_maxInFlight env)"
    then obtain t where "w' = fireClaimed env s (w\<lparr>sw_Schedules := t\<rparr>)"
      "rn_countFails env (sd_ID s) \<or> int (inFlight (sw_Runs w)) < rn_maxInFlight env" by blast
    with grow[of "w\<lparr>sw_Schedules := t\<rparr>"] show ?thesis by auto
  qed auto
qed

text \<open>C21: The runs in flight are bounded through a whole poll. However many schedules a poll fires, where all
  their targets passed validation the runs in flight after it are no more than before it, or than one
  target, of a hundred runs at most, above what a positive cap lets start, plus a hundred for every due
  schedule whose count of the runs in flight fails: the code then fires without looking at the cap. The
  count is taken afresh for every firing; nothing else starts runs during the poll.\<close>

theorem in_flight_bounded:
  assumes "0 < rn_maxInFlight env" "\<forall>s \<in> set (sw_Schedules w). scheduleValid s"
  shows "int (inFlight (sw_Runs (snd (checkDue env w))))
    \<le> max (int (inFlight (sw_Runs w))) (rn_maxInFlight env - 1 + 100)
      + 100 * int (length (filter (\<lambda>s. rn_countFails env (sd_ID s)) (getDue (rn_now env) (batchLimit env) (sw_Schedules w))))"
proof -
  have all: "int (inFlight (sw_Runs (snd (fireAll env ss (n, u))))) \<le> max (int (inFlight (sw_Runs u))) (rn_maxInFlight env - 1 + 100)
      + 100 * int (length (filter (\<lambda>s. rn_countFails env (sd_ID s)) ss))"
    if "\<forall>s \<in> set ss. scheduleValid s" for ss n u
    using that
  proof (induction ss arbitrary: n u)
    case (Cons s ss)
    obtain b u' where f: "fire env s u = (b, u')" by fastforce
    have "int (inFlight (sw_Runs u')) \<le> max (int (inFlight (sw_Runs u))) (rn_maxInFlight env - 1 + 100)
        + (if rn_countFails env (sd_ID s) then 100 else 0)"
      using fire_inFlight[OF f _ assms(1)] Cons.prems by simp
    moreover have "int (inFlight (sw_Runs (snd (fireAll env (s # ss) (n, u)))))
        \<le> max (int (inFlight (sw_Runs u'))) (rn_maxInFlight env - 1 + 100)
          + 100 * int (length (filter (\<lambda>s. rn_countFails env (sd_ID s)) ss))"
      using Cons.IH[of "if b then n else Suc n" u'] Cons.prems f by simp
    ultimately show ?case by (auto split: if_splits)
  qed simp
  have "set (getDue (rn_now env) (batchLimit env) (sw_Schedules w)) \<subseteq> set (sw_Schedules w)"
    unfolding getDue_def by (rule subset_trans[OF set_take_subset]) auto
  with assms(2) all have "\<forall>s \<in> set (getDue (rn_now env) (batchLimit env) (sw_Schedules w)). scheduleValid s" by blast
  from all[OF this] show ?thesis by (auto simp: checkDue_def)
qed

section \<open>Schedules and organizations\<close>

text \<open>Every connection and source a target names is a row of the organization.\<close>

definition ownedTarget :: "dispatchTables \<Rightarrow> string \<Rightarrow> json \<Rightarrow> bool" where
  "ownedTarget tbl org cfg =
     (case decodeDriftTarget cfg of
        None \<Rightarrow> False
      | Some tgt \<Rightarrow>
          (\<exists>p \<in> set (dt_Connections tbl). pc_ID p = tg_PipelineConnectionID tgt \<and> pc_Org p = Some org)
        \<and> (\<forall>item \<in> set (targetItems tgt). ti_SourceID item \<noteq> [] \<longrightarrow>
             (\<exists>s \<in> set (dt_Sources tbl). so_ID s = ti_SourceID item \<and> so_Org s = Some org)))"

lemma references_owned:
  assumes "targetReferencesInOrganization fails tbl req org = None" "validateSchedule cron now req"
  shows "ownedTarget tbl org (targetOrEmpty (sq_TargetConfig req)) \<and> trimSpace org \<noteq> []"
proof -
  obtain tgt where t: "requestTarget req = Some tgt" "tg_PipelineConnectionID tgt \<noteq> []"
    using assms(2) by (auto simp: validateSchedule_def split: option.splits)
  have d: "decodeDriftTarget (targetOrEmpty (sq_TargetConfig req)) = Some tgt"
    using t(1) by (auto simp: requestTarget_def targetOrEmpty_def split: option.splits)
  from assms(1) t obtain p where "getConnectionInScope (tg_PipelineConnectionID tgt) (organizationScope org) (dt_Connections tbl) = Some p"
    by (auto simp: targetReferencesInOrganization_def Let_def split: if_splits)
  then have "getConnection (tg_PipelineConnectionID tgt) (filter (\<lambda>r. reaches (organizationScope org) (pc_Org r)) (dt_Connections tbl)) = Some p"
    unfolding getConnectionInScope_def by (simp only: getConnection.reads_reached)
  then have p: "p \<in> set (dt_Connections tbl)" "pc_ID p = tg_PipelineConnectionID tgt" "reaches (organizationScope org) (pc_Org p)"
    unfolding getConnection_def by (auto dest: find_SomeD)
  have "\<exists>s \<in> set (dt_Sources tbl). so_ID s = ti_SourceID item \<and> so_Org s = Some org"
    if i: "item \<in> set (targetItems tgt)" "ti_SourceID item \<noteq> []" for item
  proof -
    from assms(1) t i obtain s where "getSourceInScope (organizationScope org) (ti_SourceID item) (dt_Sources tbl) = Some s"
      by (auto simp: targetReferencesInOrganization_def Let_def split: if_splits)
    then have "List.find (\<lambda>s. so_ID s = ti_SourceID item) (filter (\<lambda>r. reaches (organizationScope org) (so_Org r)) (dt_Sources tbl)) = Some s"
      unfolding getSourceInScope_def by (simp only: getSource.reads_reached)
    from find_SomeD[OF this] show ?thesis by (auto simp: organizationScope_reaches)
  qed
  with p d show ?thesis by (auto simp: ownedTarget_def organizationScope_reaches)
qed

text \<open>An update answers the row the caller's scope found, edited.\<close>

lemma updateScheduleInScope_row:
  assumes "updateScheduleInScope fails now i inp nx sc t = (Inr (Some s), t')"
  shows "\<exists>old. getScheduleInScope i sc t = Some old \<and> s = editSchedule now inp nx old"
proof -
  consider "scopeEmpty sc" | "sc_PlatformAdmin sc" | "\<not> scopeEmpty sc" "\<not> sc_PlatformAdmin sc" by blast
  then show ?thesis
    by cases (use assms in \<open>auto simp: updateScheduleInScope_def writeInScope_def Let_def updateScheduleWhere_def getScheduleInScope_def
        readInScope_def getSchedule_def scopeEmpty_def conj_commute split: if_splits\<close>)
qed

lemma updateScheduleH_table:
  "snd (updateScheduleH cron now flt tbl i req sc t) \<in>
     {t, snd (updateScheduleInScope (sf_write flt) now i (scheduleInputOf req)
            (nextRunOf cron now (sq_CronExpr req) (sq_Enabled req \<noteq> Some False)) sc t)}"
  by (auto simp: updateScheduleH_def split: option.splits sum.splits scheduleErr.splits prod.splits)

lemma deleteScheduleH_table: "snd (deleteScheduleH flt i sc t) = snd (deleteScheduleInScope (sf_write flt) i sc t)"
  by (auto simp: deleteScheduleH_def split: sum.splits scheduleErr.splits bool.splits prod.splits)

lemma references_refuse [simp]: "targetReferencesInOrganization fails tbl req org \<noteq> Some (ScheduleIs s)"
  by (auto simp: targetReferencesInOrganization_def Let_def split: option.splits)

lemma created_schedule_owned:
  assumes "createScheduleH cron now flt newID tbl req org t = (ScheduleIs s, t')"
  shows "sd_Org s = Some (trimSpace org) \<and> ownedTarget tbl org (sd_TargetConfig s) \<and> t' = t @ [s]"
proof -
  from assms have v: "validateSchedule cron now req" "targetReferencesInOrganization (sf_references flt) tbl req org = None"
    by (auto simp: createScheduleH_def split: if_splits option.splits)
  with assms references_owned[OF v(2,1)] show ?thesis
    by (auto simp: createScheduleH_def createSchedule_def scheduleInputOf_def Let_def split: if_splits)
qed

lemma updated_schedule_owned:
  assumes "updateScheduleH cron now flt tbl i req sc t = (ScheduleIs s, t')"
  shows "\<exists>old \<in> set t. sd_ID old = i \<and> reaches sc (sd_Org old) \<and> sd_Org s = sd_Org old \<and> ownedTarget tbl (orgText (sd_Org s)) (sd_TargetConfig s)"
proof -
  from assms obtain old where o': "validateSchedule cron now req" "getScheduleInScope i sc t = Some old"
      "targetReferencesInOrganization (sf_references flt) tbl req (orgText (sd_Org old)) = None"
    by (auto simp: updateScheduleH_def split: if_splits option.splits)
  with assms obtain f nx u where "updateScheduleInScope f now i (scheduleInputOf req) nx sc t = (Inr (Some s), u)"
    by (auto simp: updateScheduleH_def split: if_splits option.splits sum.splits scheduleErr.splits prod.splits)
  with updateScheduleInScope_row o'(2) have "s = editSchedule now (scheduleInputOf req) nx old" by fastforce
  moreover from o'(2) have "old \<in> set t" "sd_ID old = i" "reaches sc (sd_Org old)"
    unfolding schedulesInScope(1) getSchedule_def by (auto dest: find_SomeD)
  ultimately show ?thesis
    using references_owned[OF o'(3,1)] by (intro bexI[of _ old]) (simp_all add: editSchedule_def scheduleInputOf_def)
qed

text \<open>A schedule stays in its organization. An edit or a delete leaves the rows out of the caller's
  reach as they are; a schedule that is created is the caller's organization's, one that is edited
  was in reach and keeps its organization; and either way every pipeline connection and every
  source the stored target names is a row of that same organization.\<close>

theorem schedules_stay_in_organization:
  assumes "createScheduleH cron now flt newID tbl req org t = (reply, t1)"
    and "updateScheduleH cron now flt tbl i req' sc t = (reply', t2)"
    and "deleteScheduleH flt i sc t = (reply'', t3)"
  shows "(\<forall>u \<in> {t2, t3}. filter (\<lambda>r. \<not> reaches sc (sd_Org r)) u = filter (\<lambda>r. \<not> reaches sc (sd_Org r)) t)
    \<and> (\<forall>s. reply = ScheduleIs s \<longrightarrow> sd_Org s = Some (trimSpace org) \<and> ownedTarget tbl org (sd_TargetConfig s) \<and> t1 = t @ [s])
    \<and> (\<forall>s. reply' = ScheduleIs s \<longrightarrow> (\<exists>old \<in> set t. sd_ID old = i \<and> reaches sc (sd_Org old) \<and> sd_Org s = sd_Org old
          \<and> ownedTarget tbl (orgText (sd_Org s)) (sd_TargetConfig s)))"
proof (intro conjI allI impI ballI)
  fix u assume "u \<in> {t2, t3}"
  then show "filter (\<lambda>r. \<not> reaches sc (sd_Org r)) u = filter (\<lambda>r. \<not> reaches sc (sd_Org r)) t"
    using updateScheduleH_table[of cron now flt tbl i req' sc t] deleteScheduleH_table[of flt i sc t] assms(2,3) schedulesInScope(2,3) by auto
next
  fix s assume "reply' = ScheduleIs s"
  with assms(2) have "updateScheduleH cron now flt tbl i req' sc t = (ScheduleIs s, t2)" by simp
  then show "\<exists>old \<in> set t. sd_ID old = i \<and> reaches sc (sd_Org old) \<and> sd_Org s = sd_Org old
      \<and> ownedTarget tbl (orgText (sd_Org s)) (sd_TargetConfig s)" by (rule updated_schedule_owned)
qed (use assms(1) created_schedule_owned in \<open>blast+\<close>)

section \<open>Concrete firings and requests\<close>

definition sampleSchedule :: scheduleRow where
  "sampleSchedule = \<lparr>sd_ID = ''d1'', sd_Name = ''nightly'', sd_CronExpr = ''daily'', sd_TargetType = ''drift'',
     sd_TargetConfig = JObj [(''pipeline_connection_id'', JStr ''p1''), (''source_id'', JStr ''s1''), (''state_key'', JStr ''a'')],
     sd_Enabled = True, sd_LastRunAt = None, sd_NextRunAt = Some 40, sd_LastRunID = None, sd_LastStatus = None,
     sd_CreatedAt = 0, sd_UpdatedAt = 0, sd_Org = Some ''o1''\<rparr>"

definition sampleRunner :: runnerEnv where
  "sampleRunner = \<lparr>rn_cron = (\<lambda>_. None), rn_now = 50, rn_batchLimit = 0, rn_maxInFlight = 1, rn_dueFails = False,
     rn_countFails = (\<lambda>_. False), rn_claimFails = (\<lambda>_. False), rn_recordFails = (\<lambda>_. False),
     rn_dispatch = (\<lambda>_. sampleDispatchEnv 200), rn_tables = sampleTables\<rparr>"

text \<open>A cron library that knows one expression, the full hour.\<close>

definition hourly :: cronLib where
  "hourly e = (if e = ''0 * * * *'' then Some (\<lambda>x. (x div hour + 1) * hour) else None)"

definition sampleFiring :: firingSystem where
  "sampleFiring = \<lparr>fs_Clock = 50, fs_Schedules = [sampleSchedule], fs_Observed = [], fs_Computed = [], fs_Prepared = [],
     fs_Late = [], fs_Fired = []\<rparr>"

lemma sampleSchedule_due: "observed (getDue 50 2 [sampleSchedule]) = [(''d1'', 40)]"
  by code_simp

lemma hourly_next: "computeNextRun hourly ''0 * * * *'' 50 = Some hour"
  by code_simp

lemma sampleSchedule_claimed:
  "claimDue ''d1'' 40 50 (Some hour) [sampleSchedule] = (True, [claimRow 50 (Some hour) sampleSchedule])"
  by (simp add: claimDue_def updateWhere_def sampleSchedule_def)

theorem firing_at_most_once_witness:
  "\<exists>s'. (pollStep hourly)\<^sup>*\<^sup>* sampleFiring s' \<and> fs_Computed s' = [(''d1'', 40, Some hour), (''d1'', 40, Some hour)]
     \<and> fs_Late s' = [] \<and> fs_Fired s' = [(''d1'', 40)] \<and> distinct (fs_Fired s')"
proof -
  let ?seen = "sampleFiring\<lparr>fs_Observed := fs_Observed sampleFiring
      @ observed (getDue (fs_Clock sampleFiring) 2 (fs_Schedules sampleFiring))\<rparr>"
  let ?next = "\<lambda>s. s\<lparr>fs_Computed := fs_Computed s @ [(''d1'', 40, computeNextRun hourly ''0 * * * *'' (fs_Clock s))]\<rparr>"
  let ?two = "?next (?next ?seen)"
  let ?row = "claimRow 50 (Some hour) sampleSchedule"
  let ?last = "?two\<lparr>fs_Schedules := [?row], fs_Late := overdue (fs_Clock ?two) ''d1'' (Some hour) @ fs_Late ?two,
      fs_Fired := fs_Fired ?two @ [(''d1'', 40)]\<rparr>"
  have seen: "fs_Observed ?seen = [(''d1'', 40)]" by (simp add: sampleFiring_def sampleSchedule_due)
  have 1: "pollStep hourly sampleFiring ?seen" by (rule pollStep.poll)
  have 2: "pollStep hourly ?seen (?next ?seen)" by (rule pollStep.compute) (simp add: seen)
  have 3: "pollStep hourly (?next ?seen) ?two" by (rule pollStep.compute) (use seen in simp)
  have both: "fs_Computed ?two = [(''d1'', 40, Some hour), (''d1'', 40, Some hour)]" by (simp add: sampleFiring_def hourly_next)
  have 4: "pollStep hourly ?two ?last"
    by (rule pollStep.claim[where ranAt = 50]) (use both sampleSchedule_claimed in \<open>simp_all add: sampleFiring_def\<close>)
  have run: "(pollStep hourly)\<^sup>*\<^sup>* sampleFiring ?last"
    using 1 2 3 4 by (meson converse_rtranclp_into_rtranclp rtranclp.rtrancl_refl)
  have end': "fs_Fired ?last = [(''d1'', 40)]" "fs_Late ?last = []" by (simp_all add: sampleFiring_def overdue_def)
  from firing_at_most_once[OF run] have "distinct (filter (\<lambda>x. x \<notin> set (fs_Late ?last)) (fs_Fired ?last))"
    by (simp add: sampleFiring_def)
  then have "distinct (fs_Fired ?last)" unfolding end' by simp
  with run both end' show ?thesis by (intro exI[of _ ?last]) simp
qed

text \<open>The window an edit leaves: it computes the next run, the schedule fires at that very instant, and the
  edit then writes the instant back, due again.\<close>

definition nightlyInput :: scheduleInput where
  "nightlyInput = \<lparr>sn_Name = ''nightly'', sn_CronExpr = ''0 * * * *'', sn_TargetType = ''drift'', sn_TargetConfig = None, sn_Enabled = True\<rparr>"

lemma late_edit_fires_twice:
  "\<exists>s s'. (pollStep hourly)\<^sup>*\<^sup>* s s' \<and> distinct (map sd_ID (fs_Schedules s)) \<and> fs_Observed s = [] \<and> fs_Fired s = []
     \<and> fs_Fired s' = [(''d1'', hour), (''d1'', hour)] \<and> fs_Late s' = [(''d1'', hour)]"
proof -
  let ?row = "sampleSchedule\<lparr>sd_NextRunAt := Some hour\<rparr>"
  let ?s0 = "sampleFiring\<lparr>fs_Schedules := [?row]\<rparr>"
  let ?s1 = "?s0\<lparr>fs_Prepared := [(''d1'', Some hour)]\<rparr>"
  let ?s2 = "?s1\<lparr>fs_Clock := hour\<rparr>"
  let ?s3 = "?s2\<lparr>fs_Observed := [(''d1'', hour)]\<rparr>"
  let ?s4 = "?s3\<lparr>fs_Computed := [(''d1'', hour, Some (2 * hour))]\<rparr>"
  let ?s5 = "?s4\<lparr>fs_Schedules := [claimRow hour (Some (2 * hour)) ?row], fs_Fired := [(''d1'', hour)]\<rparr>"
  let ?again = "editSchedule hour nightlyInput (Some hour) (claimRow hour (Some (2 * hour)) ?row)"
  let ?s6 = "?s5\<lparr>fs_Schedules := [?again], fs_Late := [(''d1'', hour)]\<rparr>"
  let ?s7 = "?s6\<lparr>fs_Schedules := [claimRow hour (Some (2 * hour)) ?again], fs_Fired := [(''d1'', hour), (''d1'', hour)]\<rparr>"
  have n: "computeNextRun hourly ''0 * * * *'' 50 = Some hour" "computeNextRun hourly ''0 * * * *'' hour = Some (2 * hour)" by code_simp+
  have 1: "pollStep hourly ?s0 ?s1"
    using pollStep.prepare[of hourly ?s0 "''d1''" "''0 * * * *''" True] n by (simp add: sampleFiring_def nextRunOf_def)
  have 2: "pollStep hourly ?s1 ?s2" using pollStep.passTime[of "hour - 50" hourly ?s1] by (simp add: sampleFiring_def)
  have 3: "pollStep hourly ?s2 ?s3" using pollStep.poll[of hourly ?s2 1]
    by (simp add: sampleFiring_def observed_def getDue_def isDue_def sampleSchedule_def)
  have 4: "pollStep hourly ?s3 ?s4" using pollStep.compute[of "''d1''" hour ?s3 hourly "''0 * * * *''"] n by (simp add: sampleFiring_def)
  have 5: "pollStep hourly ?s4 ?s5"
    using pollStep.claim[of "''d1''" hour "Some (2 * hour)" ?s4 hour "[claimRow hour (Some (2 * hour)) ?row]" hourly]
    by (simp add: sampleFiring_def overdue_def claimDue_def updateWhere_def sampleSchedule_def)
  have 6: "pollStep hourly ?s5 ?s6"
    using pollStep.edit[of "''d1''" "Some hour" ?s5 hourly False nightlyInput "noScope\<lparr>sc_PlatformAdmin := True\<rparr>"]
    by (simp add: sampleFiring_def overdue_def updateScheduleInScope_def writeInScope_def updateScheduleWhere_def updateWhere_def
        claimRow_def sampleSchedule_def noScope_def scopeEmpty_def Let_def)
  have 7: "pollStep hourly ?s6 ?s7"
    using pollStep.claim[of "''d1''" hour "Some (2 * hour)" ?s6 hour "[claimRow hour (Some (2 * hour)) ?again]" hourly]
    by (simp add: sampleFiring_def overdue_def claimDue_def updateWhere_def sampleSchedule_def claimRow_def editSchedule_def nightlyInput_def)
  have "(pollStep hourly)\<^sup>*\<^sup>* ?s0 ?s7"
    using 1 2 3 4 5 6 7 by (meson converse_rtranclp_into_rtranclp rtranclp.rtrancl_refl)
  then show ?thesis by (intro exI[of _ ?s0] exI[of _ ?s7]) (simp add: sampleFiring_def)
qed

theorem in_flight_bounded_witness:
  "case checkDue sampleRunner \<lparr>sw_Schedules = [sampleSchedule], sw_Runs = [], sw_Calls = []\<rparr> of
     (n, w) \<Rightarrow> n = 0 \<and> inFlight (sw_Runs w) = 1 \<and> int (inFlight (sw_Runs w)) \<le> max 0 (1 - 1 + 100)"
proof -
  let ?w = "\<lparr>sw_Schedules = [sampleSchedule], sw_Runs = [], sw_Calls = []\<rparr>"
  have "scheduleValid sampleSchedule" by code_simp
  then have v: "\<forall>s \<in> set (sw_Schedules ?w). scheduleValid s" by simp
  have "0 < rn_maxInFlight sampleRunner" by (simp add: sampleRunner_def)
  note in_flight_bounded[OF this v]
  moreover have "filter (\<lambda>s. rn_countFails sampleRunner (sd_ID s)) ss = []" for ss by (simp add: sampleRunner_def)
  moreover have "inFlight (sw_Runs ?w) = 0" "rn_maxInFlight sampleRunner = 1" by code_simp+
  moreover have "fst (checkDue sampleRunner ?w) = 0" "inFlight (sw_Runs (snd (checkDue sampleRunner ?w))) = 1" by code_simp+
  ultimately show ?thesis by (simp add: case_prod_beta)
qed

definition sampleRequest :: scheduleRequest where
  "sampleRequest = \<lparr>sq_Name = ''nightly'', sq_CronExpr = ''daily'', sq_TargetType = [],
     sq_TargetConfig = Some (sd_TargetConfig sampleSchedule), sq_Enabled = None\<rparr>"

theorem schedules_stay_in_organization_witness:
  "\<exists>s. createScheduleH (\<lambda>_. None) 50 \<lparr>sf_load = False, sf_write = False, sf_references = False\<rparr> ''d2'' sampleTables sampleRequest ''o1'' [sampleSchedule]
     = (ScheduleIs s, [sampleSchedule, s]) \<and> sd_Org s = Some ''o1'' \<and> ownedTarget sampleTables ''o1'' (sd_TargetConfig s)"
proof -
  let ?flt = "\<lparr>sf_load = False, sf_write = False, sf_references = False\<rparr>"
  let ?create = "createScheduleH (\<lambda>_. None) 50 ?flt ''d2'' sampleTables sampleRequest ''o1'' [sampleSchedule]"
  have "case fst ?create of ScheduleIs _ \<Rightarrow> True | _ \<Rightarrow> False" by code_simp
  then obtain s t1 where c: "?create = (ScheduleIs s, t1)" by (cases ?create) (auto split: scheduleReply.splits)
  obtain reply' t2 where u: "updateScheduleH (\<lambda>_. None) 50 ?flt sampleTables ''d1'' sampleRequest noScope [sampleSchedule] = (reply', t2)"
    by fastforce
  obtain reply'' t3 where d: "deleteScheduleH ?flt ''d1'' noScope [sampleSchedule] = (reply'', t3)" by fastforce
  have "trimSpace ''o1'' = ''o1''" by code_simp
  with schedules_stay_in_organization[OF c u d, THEN conjunct2, THEN conjunct1] c show ?thesis by auto
qed

end
