(* ===== verification/Access.thy ===== *)
theory Access
  imports RoleMembers Tenancy
begin

text \<open>
  Who a request is: \<open>internal/auth/scopes.go\<close>, \<open>middleware/auth.go\<close>, \<open>csrf.go\<close>, \<open>rbac.go\<close>, \<open>tenantscope.go\<close>,
  \<open>internal/tenantscope\<close>, the scopes half of \<open>internal/platformadmin\<close> and \<open>api/acting_organization.go\<close>.

  The shared identity module (scope implication, the key digest, the tenancy resolver, the
  platform-admin carrier, the users and keys it stores) is a parameter: a record of the functions the
  code calls. A request's context is the record \<open>reqContext\<close>, an absent entry None.
\<close>

section \<open>Scopes\<close>

record idAuthLib =
  ia_HasScope :: "string list \<Rightarrow> string \<Rightarrow> (string \<times> string) list \<Rightarrow> bool"
  ia_ValidateAPIKey :: "string \<Rightarrow> string \<Rightarrow> bool"
  ia_KeyScopes :: "string list \<Rightarrow> string list"
  ia_DisplayPrefixLength :: nat
  ia_OrganizationsRead :: string
  ia_OrganizationsWrite :: string
  ia_OrganizationsCreate :: string
  ia_UsersRead :: string
  ia_APIKeysManage :: string

definition rwPairs :: "idAuthLib \<Rightarrow> (string \<times> string) list" where
  "rwPairs lib = [(''state:read'', ''state:write''), (ia_OrganizationsRead lib, ia_OrganizationsWrite lib)]"

definition hasScope :: "idAuthLib \<Rightarrow> string list \<Rightarrow> string \<Rightarrow> bool" where
  "hasScope lib scopes s = ia_HasScope lib scopes s (rwPairs lib)"

text \<open>What is used of the module: a held scope is satisfied, \<open>admin\<close> satisfies every scope, and
  \<open>KeyScopes\<close> takes \<open>admin\<close> away and nothing else.\<close>

definition scopeLaws :: "idAuthLib \<Rightarrow> bool" where
  "scopeLaws lib \<longleftrightarrow>
     (\<forall>l s p. s \<in> set l \<longrightarrow> ia_HasScope lib l s p) \<and> (\<forall>l s p. ''admin'' \<in> set l \<longrightarrow> ia_HasScope lib l s p)
     \<and> (\<forall>l. set (ia_KeyScopes lib l) = set l - {''admin''})"

record roleTemplateSeed =
  ts_Name :: string
  ts_Scopes :: "string list"

definition appRoleTemplates :: "idAuthLib \<Rightarrow> roleTemplateSeed list" where
  "appRoleTemplates lib =
     [\<lparr>ts_Name = ''admin'', ts_Scopes = [''admin'']\<rparr>,
      \<lparr>ts_Name = ''editor'', ts_Scopes = [''state:read'', ''state:write'', ''state:transfer'', ''state:drift'', ''state:execute'', ''sources:manage'']\<rparr>,
      \<lparr>ts_Name = ''operator'', ts_Scopes = [''state:read'', ''state:drift'', ''state:execute'']\<rparr>,
      \<lparr>ts_Name = ''viewer'', ts_Scopes = [''state:read'']\<rparr>,
      \<lparr>ts_Name = ''org_owner'', ts_Scopes = [ia_OrganizationsWrite lib, ia_UsersRead lib, ia_APIKeysManage lib, ''state:read'', ''state:write'',
         ''state:drift'', ''state:execute'', ''state:transfer'', ''sources:manage'']\<rparr>,
      \<lparr>ts_Name = ''org_provisioner'', ts_Scopes = [ia_OrganizationsCreate lib, ia_OrganizationsRead lib]\<rparr>]"

section \<open>The context of a request\<close>

record claims =
  cl_UserID :: string
  cl_Email :: string
  cl_Scopes :: "string list"
  cl_JTI :: string
  cl_IssuedAt :: "int option"

record reqContext =
  cx_user_id :: "string option"
  cx_scopes :: "string list option"
  cx_auth_method :: "string option"
  cx_api_key_id :: "string option"
  cx_api_key_organization_id :: "string option"
  cx_jwt_claims :: "claims option"
  cx_tenant_scope :: "scope option"

definition emptyContext :: reqContext where
  "emptyContext = \<lparr>cx_user_id = None, cx_scopes = None, cx_auth_method = None, cx_api_key_id = None,
     cx_api_key_organization_id = None, cx_jwt_claims = None, cx_tenant_scope = None\<rparr>"

definition userIDOf :: "reqContext \<Rightarrow> string" where
  "userIDOf c = (case cx_user_id c of Some u \<Rightarrow> u | None \<Rightarrow> [])"

definition scopesOf :: "reqContext \<Rightarrow> string list" where
  "scopesOf c = (case cx_scopes c of Some s \<Rightarrow> s | None \<Rightarrow> [])"

definition isAdmin :: "idAuthLib \<Rightarrow> reqContext \<Rightarrow> bool" where
  "isAdmin lib c = hasScope lib (scopesOf c) ''admin''"

text \<open>\<open>RequireScope\<close> and \<open>RequireAnyScope\<close>: whether the request goes on; otherwise 403.\<close>

definition requireScope :: "idAuthLib \<Rightarrow> string \<Rightarrow> reqContext \<Rightarrow> bool" where
  "requireScope lib s c = (case cx_scopes c of None \<Rightarrow> False | Some l \<Rightarrow> hasScope lib l s)"

section \<open>API keys at the door\<close>

record apiKey =
  ak_ID :: string
  ak_UserID :: "string option"
  ak_OrganizationID :: string
  ak_Name :: string
  ak_Description :: "string option"
  ak_KeyHash :: string
  ak_KeyPrefix :: string
  ak_Scopes :: "string list"
  ak_ExpiresAt :: "int option"

text \<open>The membership reads: the faults of the application store, identity's answers, and the mirror.\<close>

record memberReads =
  mr_flt :: "storeStmt \<Rightarrow> bool"
  mr_Member :: "string \<Rightarrow> string \<Rightarrow> idOutcome"
  mr_Orgs :: "string \<Rightarrow> string list option"
  mr_state :: memberState

definition memberOf :: "memberReads \<Rightarrow> string \<Rightarrow> string \<Rightarrow> memberErr + bool \<times> string option" where
  "memberOf mr org user = checkMembership (mr_flt mr) (mr_Member mr org user) org user allOrgs (mr_state mr)"

definition liveScopes :: "memberReads \<Rightarrow> string \<Rightarrow> memberErr + string list" where
  "liveScopes mr user = getUserCombinedScopes (mr_flt mr) (mr_Orgs mr user) user (mr_state mr)"

definition grantedSubset :: "idAuthLib \<Rightarrow> string list \<Rightarrow> string list \<Rightarrow> string list" where
  "grantedSubset lib keyScopes live = filter (hasScope lib live) keyScopes"

text \<open>The scopes of a key once its owner's membership is confirmed, None where it is refused.\<close>

definition cappedScopes :: "idAuthLib \<Rightarrow> memberReads option \<Rightarrow> apiKey \<Rightarrow> string \<Rightarrow> string list option" where
  "cappedScopes lib orgs k userID =
     (case orgs of
        None \<Rightarrow> Some (ak_Scopes k)
      | Some mr \<Rightarrow>
          (case memberOf mr (ak_OrganizationID k) userID of
             Inl _ \<Rightarrow> None
           | Inr (member, _) \<Rightarrow>
               if \<not> member then None
               else (case liveScopes mr userID of Inl _ \<Rightarrow> None | Inr live \<Rightarrow> Some (grantedSubset lib (ak_Scopes k) live))))"

definition acceptKey :: "idAuthLib \<Rightarrow> (string \<Rightarrow> idOutcome) option \<Rightarrow> memberReads option \<Rightarrow> int \<Rightarrow> apiKey \<Rightarrow> reqContext \<Rightarrow> reqContext option" where
  "acceptKey lib users orgs now k c =
     (if (case ak_ExpiresAt k of None \<Rightarrow> False | Some e \<Rightarrow> e < now) then None
      else (let userID = (case ak_UserID k of None \<Rightarrow> [] | Some u \<Rightarrow> trimSpace u)
            in if userID = [] then None
               else if trimSpace (ak_OrganizationID k) = [] then None
               else if (case users of None \<Rightarrow> False | Some lookup \<Rightarrow> lookup userID \<noteq> IdOk) then None
               else (case cappedScopes lib orgs k userID of
                       None \<Rightarrow> None
                     | Some scopes \<Rightarrow>
                         Some (c\<lparr>cx_user_id := Some userID, cx_scopes := Some (ia_KeyScopes lib scopes), cx_auth_method := Some ''apikey'',
                                 cx_api_key_id := Some (ak_ID k), cx_api_key_organization_id := Some (ak_OrganizationID k)\<rparr>))))"

text \<open>The loop stops at the first candidate whose digest the token opens, whatever becomes of it.\<close>

fun firstGenuine :: "idAuthLib \<Rightarrow> string \<Rightarrow> apiKey list \<Rightarrow> apiKey option" where
  "firstGenuine lib token [] = None"
| "firstGenuine lib token (k # ks) = (if ia_ValidateAPIKey lib token (ak_KeyHash k) then Some k else firstGenuine lib token ks)"

definition authenticateAPIKey ::
    "idAuthLib \<Rightarrow> (string \<Rightarrow> apiKey list option) \<Rightarrow> (string \<Rightarrow> idOutcome) option \<Rightarrow> memberReads option \<Rightarrow> int \<Rightarrow> string \<Rightarrow> reqContext \<Rightarrow> reqContext option" where
  "authenticateAPIKey lib byPrefix users orgs now token c =
     (if length token < ia_DisplayPrefixLength lib then None
      else (case byPrefix (take (ia_DisplayPrefixLength lib) token) of
              None \<Rightarrow> None
            | Some candidates \<Rightarrow>
                (case firstGenuine lib token candidates of None \<Rightarrow> None | Some k \<Rightarrow> acceptKey lib users orgs now k c)))"

section \<open>Sessions\<close>

text \<open>The carrier answers None where its lookup failed; the service is None where it is not configured.\<close>

record carrier =
  ca_SessionScopes :: "string \<Rightarrow> string list \<Rightarrow> string list option"
  ca_IsPlatformAdmin :: "string \<Rightarrow> bool option"

definition hasAdmin :: "string list \<Rightarrow> bool" where
  "hasAdmin scopes = (''admin'' \<in> set scopes)"

definition sessionScopes :: "carrier option \<Rightarrow> string \<Rightarrow> string list \<Rightarrow> string list option" where
  "sessionScopes sv userID scopes =
     (case sv of
        None \<Rightarrow> None
      | Some ca \<Rightarrow>
          (case ca_SessionScopes ca userID scopes of
             None \<Rightarrow> None
           | Some eff \<Rightarrow> Some (if \<not> hasAdmin eff \<and> hasAdmin scopes then eff @ [''admin''] else eff)))"

definition certificateScopes :: "carrier option \<Rightarrow> string \<Rightarrow> string list \<Rightarrow> string list option" where
  "certificateScopes sv userID scopes = (case sv of None \<Rightarrow> None | Some ca \<Rightarrow> ca_SessionScopes ca userID scopes)"

text \<open>\<open>elevate\<close>: the service pointer may be nil, a different thing from a service without a carrier.\<close>

definition elevate :: "carrier option option \<Rightarrow> string \<Rightarrow> string list \<Rightarrow> string list option" where
  "elevate platformAdmins userID scopes =
     (case platformAdmins of None \<Rightarrow> Some scopes | Some sv \<Rightarrow> sessionScopes sv userID scopes)"

text \<open>\<open>extractToken\<close>: the \<open>Authorization\<close> header and the session cookie, None where there is none.\<close>

record credentials =
  rq_Authorization :: string
  rq_AuthCookie :: "string option"

definition extractToken :: "credentials \<Rightarrow> string \<times> bool" where
  "extractToken rq =
     (if hasPrefix (rq_Authorization rq) ''Bearer '' then (trimSpace (trimPrefix (rq_Authorization rq) ''Bearer ''), False)
      else (case rq_AuthCookie rq of Some v \<Rightarrow> if v \<noteq> [] then (v, True) else ([], False) | None \<Rightarrow> ([], False)))"

definition setAuthContext :: "string \<Rightarrow> claims \<Rightarrow> bool \<Rightarrow> string list \<Rightarrow> reqContext \<Rightarrow> reqContext" where
  "setAuthContext userID cl fromCookie scopes c =
     c\<lparr>cx_user_id := Some userID, cx_jwt_claims := Some cl,
       cx_auth_method := Some (if fromCookie then ''jwt_cookie'' else ''jwt''), cx_scopes := Some scopes\<rparr>"

text \<open>What the middleware is given. A revocation read answers None on a fault; the readers of
  revocations and of keys may be absent.\<close>

record authDeps =
  ad_lib :: idAuthLib
  ad_validate :: "string \<Rightarrow> claims option"
  ad_tokenRevoked :: "(string \<Rightarrow> bool option) option"
  ad_userRevoked :: "(string \<Rightarrow> int \<Rightarrow> bool option) option"
  ad_byPrefix :: "(string \<Rightarrow> apiKey list option) option"
  ad_users :: "string \<Rightarrow> idOutcome"
  ad_orgs :: "memberReads option"
  ad_platformAdmins :: "carrier option option"

text \<open>A check that is absent passes; one that fails or finds a revocation gives its status.\<close>

definition revocation :: "bool option option \<Rightarrow> nat option" where
  "revocation r = (case r of None \<Rightarrow> None | Some None \<Rightarrow> Some 500 | Some (Some revoked) \<Rightarrow> if revoked then Some 401 else None)"

definition tokenRevocation :: "authDeps \<Rightarrow> claims \<Rightarrow> nat option" where
  "tokenRevocation ad cl =
     revocation (case ad_tokenRevoked ad of None \<Rightarrow> None | Some f \<Rightarrow> if cl_JTI cl = [] then None else Some (f (cl_JTI cl)))"

definition userRevocation :: "authDeps \<Rightarrow> claims \<Rightarrow> nat option" where
  "userRevocation ad cl =
     revocation (case (ad_userRevoked ad, cl_IssuedAt cl) of (Some f, Some t) \<Rightarrow> Some (f (cl_UserID cl) t) | _ \<Rightarrow> None)"

definition authenticateSession :: "authDeps \<Rightarrow> claims \<Rightarrow> bool \<Rightarrow> reqContext \<Rightarrow> nat + reqContext" where
  "authenticateSession ad cl fromCookie c =
     (case tokenRevocation ad cl of
        Some st \<Rightarrow> Inl st
      | None \<Rightarrow>
          (case userRevocation ad cl of
             Some st \<Rightarrow> Inl st
           | None \<Rightarrow>
               (case ad_users ad (cl_UserID cl) of
                  IdNotFound \<Rightarrow> Inl 401
                | IdFailed \<Rightarrow> Inl 500
                | IdOk \<Rightarrow>
                    (case elevate (ad_platformAdmins ad) (cl_UserID cl) (cl_Scopes cl) of
                       None \<Rightarrow> Inl 500
                     | Some scopes \<Rightarrow> Inr (setAuthContext (cl_UserID cl) cl fromCookie scopes c)))))"

definition authMiddleware :: "authDeps \<Rightarrow> int \<Rightarrow> credentials \<Rightarrow> reqContext \<Rightarrow> nat + reqContext" where
  "authMiddleware ad now rq c =
     (if cx_auth_method c = Some ''mtls'' then Inr c
      else (case extractToken rq of
              (token, fromCookie) \<Rightarrow>
                if token = [] then Inl 401
                else (case ad_validate ad token of
                        Some cl \<Rightarrow> authenticateSession ad cl fromCookie c
                      | None \<Rightarrow>
                          (case ad_byPrefix ad of
                             None \<Rightarrow> Inl 401
                           | Some byPrefix \<Rightarrow>
                               if fromCookie \<or> \<not> hasPrefix token ''tsm_'' then Inl 401
                               else (case authenticateAPIKey (ad_lib ad) byPrefix (Some (ad_users ad)) (ad_orgs ad) now token c of
                                       None \<Rightarrow> Inl 401
                                     | Some c' \<Rightarrow> Inr c')))))"

text \<open>\<open>OptionalAuthMiddleware\<close> always goes on: a credential it does not accept is no credential, and
  one whose elevation fails keeps its own scopes.\<close>

definition optionalAuthMiddleware :: "authDeps \<Rightarrow> credentials \<Rightarrow> reqContext \<Rightarrow> reqContext" where
  "optionalAuthMiddleware ad rq c =
     (case extractToken rq of
        (token, fromCookie) \<Rightarrow>
          if token = [] then c
          else (case ad_validate ad token of
                  None \<Rightarrow> c
                | Some cl \<Rightarrow>
                    if tokenRevocation ad cl \<noteq> None \<or> userRevocation ad cl \<noteq> None \<or> ad_users ad (cl_UserID cl) \<noteq> IdOk then c
                    else (case elevate (ad_platformAdmins ad) (cl_UserID cl) (cl_Scopes cl) of
                            None \<Rightarrow> setAuthContext (cl_UserID cl) cl fromCookie (cl_Scopes cl) c
                          | Some scopes \<Rightarrow> setAuthContext (cl_UserID cl) cl fromCookie scopes c)))"

text \<open>\<open>CSRFProtect\<close>: whether a request goes on, from its method, the session cookie, the CSRF cookie and
  the header; otherwise 403.\<close>

definition csrfProtect :: "string \<Rightarrow> string option \<Rightarrow> string option \<Rightarrow> string \<Rightarrow> bool" where
  "csrfProtect m session cookieTok header =
     (m \<in> {''GET'', ''HEAD'', ''OPTIONS'', ''TRACE''} \<or> session = None \<or> session = Some []
      \<or> (case cookieTok of None \<Rightarrow> False | Some tok \<Rightarrow> tok \<noteq> [] \<and> header \<noteq> [] \<and> tok = header))"

section \<open>The tenant of a request\<close>

datatype credential = CredentialUnspecified | CredentialAPIKey | CredentialSession

record principal =
  pr_UserID :: string
  pr_Credential :: credential
  pr_KeyOrgID :: string

definition credentialOf :: "reqContext \<Rightarrow> credential" where
  "credentialOf c =
     (if cx_auth_method c = Some ''apikey'' then CredentialAPIKey
      else if cx_auth_method c = Some ''jwt'' \<or> cx_auth_method c = Some ''jwt_cookie'' then CredentialSession
      else CredentialUnspecified)"

definition keyOrganization :: "reqContext \<Rightarrow> string" where
  "keyOrganization c =
     (if credentialOf c \<noteq> CredentialAPIKey then []
      else (case cx_api_key_organization_id c of None \<Rightarrow> [] | Some i \<Rightarrow> trimSpace i))"

definition principalOf :: "reqContext \<Rightarrow> principal" where
  "principalOf c = \<lparr>pr_UserID = trimSpace (userIDOf c), pr_Credential = credentialOf c, pr_KeyOrgID = keyOrganization c\<rparr>"

text \<open>The shared resolver under this application's policy (\<open>AdminsApplyToAPIKeys\<close> off,
  \<open>KeyBindsOrganization\<close> on): the scope of a principal for a required scope, None where it fails, and
  the acting organization of a scope and the selecting header.\<close>

datatype actingErr = Ambiguous | NoActingOrganization | ActingNotPermitted | ActingFailed

record tenantLib =
  tb_Resolve :: "bool \<Rightarrow> bool \<Rightarrow> principal \<Rightarrow> string \<Rightarrow> scope option"
  tb_ActingOrganization :: "scope \<Rightarrow> string \<Rightarrow> actingErr + string"

definition tenantScopeMW :: "tenantLib \<Rightarrow> string \<Rightarrow> reqContext \<Rightarrow> reqContext" where
  "tenantScopeMW tb required c =
     (case tb_Resolve tb False True (principalOf c) required of
        None \<Rightarrow> c
      | Some sc \<Rightarrow> c\<lparr>cx_tenant_scope := Some sc\<rparr>)"

text \<open>\<open>actingOrganization\<close>: the organization, or the status answered.\<close>

definition actingOrganization :: "tenantLib \<Rightarrow> (string \<Rightarrow> bool) option \<Rightarrow> string \<Rightarrow> reqContext \<Rightarrow> nat + string" where
  "actingOrganization tb exists selected c =
     (case cx_tenant_scope c of
        None \<Rightarrow> Inl 500
      | Some sc \<Rightarrow>
          (case tb_ActingOrganization tb sc selected of
             Inl Ambiguous \<Rightarrow> Inl 400
           | Inl NoActingOrganization \<Rightarrow> Inl 403
           | Inl ActingNotPermitted \<Rightarrow> Inl 403
           | Inl ActingFailed \<Rightarrow> Inl 500
           | Inr org \<Rightarrow>
               if \<not> sc_PlatformAdmin sc then Inr org
               else (case exists of None \<Rightarrow> Inl 500 | Some found \<Rightarrow> if found org then Inr org else Inl 403)))"
end
