(* ===== verification/ApiKeys.thy ===== *)
theory ApiKeys
  imports Access
begin

text \<open>
  \<open>api/apikeys.go\<close>: the keys a user mints for machines.

  The key repository is the shared module's: a record of its operations over a state of its own, with
  \<open>kl_row\<close> the row the table holds under an id, which no handler calls. Drawing a key and parsing a time
  are arguments; instants are seconds. A handler answers, leaves a repository and writes audit entries.
\<close>

section \<open>The repository\<close>

datatype keyErr = KeyRowNotFound | KeyStatementFailed

record 'k keyLib =
  kl_row :: "string \<Rightarrow> 'k \<Rightarrow> apiKey option"
  kl_GetAPIKeyByID :: "string \<Rightarrow> 'k \<Rightarrow> keyErr + apiKey option"
  kl_ListAPIKeys :: "'k \<Rightarrow> apiKey list option"
  kl_ListAPIKeysByUser :: "string \<Rightarrow> 'k \<Rightarrow> apiKey list option"
  kl_GetAPIKeysByPrefix :: "string \<Rightarrow> 'k \<Rightarrow> apiKey list option"
  kl_CreateAPIKey :: "apiKey \<Rightarrow> 'k \<Rightarrow> (keyErr + apiKey) \<times> 'k"
  kl_Update :: "apiKey \<Rightarrow> 'k \<Rightarrow> keyErr option \<times> 'k"
  kl_RevokeAPIKey :: "string \<Rightarrow> 'k \<Rightarrow> keyErr option \<times> 'k"

text \<open>What is used of it: reads show rows of the table, under their id; a creation adds the row under a
  new id, an update replaces the row of that id, a revocation takes it away, and a call that fails
  leaves the table as it was.\<close>

definition keyReadLaws :: "'k keyLib \<Rightarrow> bool" where
  "keyReadLaws L \<longleftrightarrow>
     (\<forall>i k s. kl_row L i s = Some k \<longrightarrow> ak_ID k = i)
     \<and> (\<forall>i k s. kl_GetAPIKeyByID L i s = Inr (Some k) \<longrightarrow> kl_row L i s = Some k)
     \<and> (\<forall>p ks k s. kl_GetAPIKeysByPrefix L p s = Some ks \<longrightarrow>
          (k \<in> set ks) = (kl_row L (ak_ID k) s = Some k \<and> ak_KeyPrefix k = p))"

definition createLaw :: "'k keyLib \<Rightarrow> bool" where
  "createLaw L \<longleftrightarrow> (\<forall>r s. case kl_CreateAPIKey L r s of
     (Inl _, s') \<Rightarrow> (\<forall>i. kl_row L i s' = kl_row L i s)
   | (Inr r', s') \<Rightarrow> r' = r\<lparr>ak_ID := ak_ID r'\<rparr> \<and> kl_row L (ak_ID r') s = None
       \<and> (\<forall>i. kl_row L i s' = (if i = ak_ID r' then Some r' else kl_row L i s)))"

definition updateLaw :: "'k keyLib \<Rightarrow> bool" where
  "updateLaw L \<longleftrightarrow> (\<forall>k s. case kl_Update L k s of
     (Some _, s') \<Rightarrow> (\<forall>i. kl_row L i s' = kl_row L i s)
   | (None, s') \<Rightarrow> (\<forall>i. kl_row L i s' = (if i = ak_ID k then Some k else kl_row L i s)))"

definition revokeLaw :: "'k keyLib \<Rightarrow> bool" where
  "revokeLaw L \<longleftrightarrow> (\<forall>j s. case kl_RevokeAPIKey L j s of
     (Some _, s') \<Rightarrow> (\<forall>i. kl_row L i s' = kl_row L i s)
   | (None, s') \<Rightarrow> (\<forall>i. kl_row L i s' = (if i = j then None else kl_row L i s)))"

definition keyLaws :: "'k keyLib \<Rightarrow> bool" where
  "keyLaws L \<longleftrightarrow> keyReadLaws L \<and> createLaw L \<and> updateLaw L \<and> revokeLaw L"

section \<open>A call\<close>

record 'k keyCall =
  kc_lib :: idAuthLib
  kc_keys :: "'k keyLib"
  kc_orgs :: memberReads
  kc_tenant :: tenantLib
  kc_orgExists :: "string \<Rightarrow> bool"
  kc_selected :: string
  kc_generate :: "(string \<times> string \<times> string) option"
  kc_parseTime :: "string \<Rightarrow> int option"
  kc_now :: int
  kc_context :: reqContext

datatype keyReply = KeyStatus nat | KeyShown apiKey | KeysShown "apiKey list" | KeyMinted string apiKey
  | KeyRotated string apiKey string | KeyDeleted

datatype keyAudit = KeyAudit string string

record apiKeyInput =
  ki_Name :: string
  ki_Description :: string
  ki_Scopes :: "string list"
  ki_ExpiresAt :: string

definition maxRotationGraceHours :: int where "maxRotationGraceHours = 72"

definition assignableKeyScopes :: "string list" where
  "assignableKeyScopes = [''state:read'', ''state:write'', ''state:drift'', ''state:execute'', ''state:transfer'', ''sources:manage'']"

text \<open>The first scope that may not be granted.\<close>

fun validateGrantedScopes :: "idAuthLib \<Rightarrow> reqContext \<Rightarrow> string list \<Rightarrow> string option" where
  "validateGrantedScopes lib c [] = None"
| "validateGrantedScopes lib c (s # r) =
     (if s \<notin> set assignableKeyScopes then Some s
      else if \<not> hasScope lib (scopesOf c) s then Some s
      else validateGrantedScopes lib c r)"

definition ownsOrAdmin :: "'k keyCall \<Rightarrow> string \<Rightarrow> 'k \<Rightarrow> nat + apiKey" where
  "ownsOrAdmin kc i s =
     (case kl_GetAPIKeyByID (kc_keys kc) i s of
        Inl KeyRowNotFound \<Rightarrow> Inl 404
      | Inr None \<Rightarrow> Inl 404
      | Inl KeyStatementFailed \<Rightarrow> Inl 500
      | Inr (Some key) \<Rightarrow>
          if \<not> isAdmin (kc_lib kc) (kc_context kc) \<and> ak_UserID key \<noteq> Some (userIDOf (kc_context kc)) then Inl 404
          else Inr key)"

text \<open>The expiry of a request, None where it is refused.\<close>

definition parseExpiry :: "'k keyCall \<Rightarrow> string \<Rightarrow> int option option" where
  "parseExpiry kc raw =
     (if raw = [] then Some None
      else (case kc_parseTime kc raw of None \<Rightarrow> None | Some t \<Rightarrow> if t < kc_now kc then None else Some (Some t)))"

section \<open>Listing\<close>

definition ownerAllowed :: "('e + (string \<times> role) list) \<Rightarrow> (string \<Rightarrow> bool) \<Rightarrow> bool \<Rightarrow> 'e + bool" where
  "ownerAllowed memberships permits unowned =
     (case memberships of
        Inl e \<Rightarrow> Inl e
      | Inr ms \<Rightarrow> Inr ((ms = [] \<and> unowned) \<or> list_ex (\<lambda>m. permits (fst m)) ms))"

text \<open>\<open>keysVisibleToScope\<close>, with the cache of the owners already decided.\<close>

fun keysVisibleLoop ::
    "(string \<Rightarrow> 'e + (string \<times> role) list) \<Rightarrow> (string \<Rightarrow> bool) \<Rightarrow> bool \<Rightarrow> bool gomap \<Rightarrow> apiKey list \<Rightarrow> 'e + apiKey list" where
  "keysVisibleLoop memberships permits unowned allowed [] = Inr []"
| "keysVisibleLoop memberships permits unowned allowed (k # ks) =
     (case ak_UserID k of
        None \<Rightarrow> keysVisibleLoop memberships permits unowned allowed ks
      | Some owner \<Rightarrow>
          (case (case oget owner allowed of
                   Some ok \<Rightarrow> Inr (ok, allowed)
                 | None \<Rightarrow> (case ownerAllowed (memberships owner) permits unowned of
                              Inl e \<Rightarrow> Inl e
                            | Inr ok \<Rightarrow> Inr (ok, oput owner ok allowed))) of
             Inl e \<Rightarrow> Inl e
           | Inr (ok, allowed') \<Rightarrow>
               map_sum id (\<lambda>out. if ok then k # out else out) (keysVisibleLoop memberships permits unowned allowed' ks)))"

definition keysVisibleToScope ::
    "(string \<Rightarrow> 'e + (string \<times> role) list) \<Rightarrow> (string \<Rightarrow> bool) \<Rightarrow> bool \<Rightarrow> apiKey list \<Rightarrow> 'e + apiKey list" where
  "keysVisibleToScope memberships permits unowned ks = keysVisibleLoop memberships permits unowned [] ks"

definition membershipsOf :: "memberReads \<Rightarrow> string \<Rightarrow> memberErr + (string \<times> role) list" where
  "membershipsOf mr user = getUserMemberships (mr_flt mr) (mr_Orgs mr user) user (mr_state mr)"

definition listAPIKeysH :: "'k keyCall \<Rightarrow> 'k \<Rightarrow> keyReply" where
  "listAPIKeysH kc s =
     (let user = userIDOf (kc_context kc); mr = kc_orgs kc
      in if isAdmin (kc_lib kc) (kc_context kc)
         then (case orgScopeForUser (mr_flt mr) (hasScope (kc_lib kc)) (mr_Orgs mr user) user ''admin'' (mr_state mr) of
                 Inl _ \<Rightarrow> KeyStatus 500
               | Inr adminOrgs \<Rightarrow>
                   (case kl_ListAPIKeys (kc_keys kc) s of
                      None \<Rightarrow> KeyStatus 500
                    | Some allKeys \<Rightarrow>
                        (case keysVisibleToScope (membershipsOf mr) (\<lambda>o'. o' \<in> set adminOrgs) True allKeys of
                           Inl _ \<Rightarrow> KeyStatus 500
                         | Inr keys \<Rightarrow> KeysShown keys)))
         else (case kl_ListAPIKeysByUser (kc_keys kc) user s of None \<Rightarrow> KeyStatus 500 | Some keys \<Rightarrow> KeysShown keys))"

section \<open>Minting\<close>

datatype mintErr = MintRefused nat | OwnerNotMember | MintFailed

definition mintKey :: "'k keyCall \<Rightarrow> apiKeyInput \<Rightarrow> int option \<Rightarrow> string \<Rightarrow> 'k \<Rightarrow> (mintErr + string \<times> apiKey) \<times> 'k" where
  "mintKey kc req expires userID s =
     (case actingOrganization (kc_tenant kc) (Some (kc_orgExists kc)) (kc_selected kc) (kc_context kc) of
        Inl st \<Rightarrow> (Inl (MintRefused st), s)
      | Inr organizationID \<Rightarrow>
          if organizationID = [] then (Inl (MintRefused 200), s)
          else (case memberOf (kc_orgs kc) organizationID userID of
             Inl _ \<Rightarrow> (Inl MintFailed, s)
           | Inr (member, _) \<Rightarrow>
               if \<not> member then (Inl OwnerNotMember, s)
               else (case kc_generate kc of
                       None \<Rightarrow> (Inl MintFailed, s)
                     | Some (fullKey, hash, prefix) \<Rightarrow>
                         (case kl_CreateAPIKey (kc_keys kc)
                                 \<lparr>ak_ID = [], ak_UserID = Some userID, ak_OrganizationID = organizationID, ak_Name = ki_Name req,
                                  ak_Description = (if ki_Description req = [] then None else Some (ki_Description req)),
                                  ak_KeyHash = hash, ak_KeyPrefix = prefix, ak_Scopes = ki_Scopes req, ak_ExpiresAt = expires\<rparr> s of
                            (Inl _, s') \<Rightarrow> (Inl MintFailed, s')
                          | (Inr row, s') \<Rightarrow> (Inr (fullKey, row), s')))))"

text \<open>The answer to a failed minting.\<close>

definition mintStatus :: "mintErr \<Rightarrow> nat" where
  "mintStatus e = (case e of MintRefused st \<Rightarrow> st | OwnerNotMember \<Rightarrow> 403 | MintFailed \<Rightarrow> 500)"

text \<open>A body that does not bind is None; a name is required.\<close>

definition boundInput :: "apiKeyInput option \<Rightarrow> apiKeyInput option" where
  "boundInput body = (case body of None \<Rightarrow> None | Some req \<Rightarrow> if ki_Name req = [] then None else Some req)"

text \<open>The checks creation and update make of their body, or the status answered.\<close>

definition checkedInput :: "'k keyCall \<Rightarrow> apiKeyInput option \<Rightarrow> nat + apiKeyInput \<times> int option" where
  "checkedInput kc body =
     (case boundInput body of
        None \<Rightarrow> Inl 400
      | Some req \<Rightarrow>
          if ki_Scopes req = [] then Inl 400
          else if validateGrantedScopes (kc_lib kc) (kc_context kc) (ki_Scopes req) \<noteq> None then Inl 400
          else (case parseExpiry kc (ki_ExpiresAt req) of None \<Rightarrow> Inl 400 | Some expires \<Rightarrow> Inr (req, expires)))"

definition createAPIKeyH :: "'k keyCall \<Rightarrow> apiKeyInput option \<Rightarrow> 'k \<Rightarrow> keyReply \<times> 'k \<times> keyAudit list" where
  "createAPIKeyH kc body s =
     (case checkedInput kc body of
        Inl st \<Rightarrow> (KeyStatus st, s, [])
      | Inr (req, expires) \<Rightarrow>
          (case mintKey kc req expires (userIDOf (kc_context kc)) s of
             (Inl e, s') \<Rightarrow> (KeyStatus (mintStatus e), s', [])
           | (Inr (key, created), s') \<Rightarrow> (KeyMinted key created, s', [KeyAudit ''api_key.create'' (ak_ID created)])))"

section \<open>The handlers of one key\<close>

definition getAPIKeyH :: "'k keyCall \<Rightarrow> string \<Rightarrow> 'k \<Rightarrow> keyReply" where
  "getAPIKeyH kc i s = (case ownsOrAdmin kc i s of Inl st \<Rightarrow> KeyStatus st | Inr key \<Rightarrow> KeyShown key)"

definition editedKey :: "apiKeyInput \<Rightarrow> int option \<Rightarrow> apiKey \<Rightarrow> apiKey" where
  "editedKey req expires key =
     key\<lparr>ak_Name := ki_Name req, ak_Description := (if ki_Description req = [] then None else Some (ki_Description req)),
         ak_Scopes := ki_Scopes req, ak_ExpiresAt := expires\<rparr>"

definition updateAPIKeyH :: "'k keyCall \<Rightarrow> string \<Rightarrow> apiKeyInput option \<Rightarrow> 'k \<Rightarrow> keyReply \<times> 'k \<times> keyAudit list" where
  "updateAPIKeyH kc i body s =
     (case ownsOrAdmin kc i s of
        Inl st \<Rightarrow> (KeyStatus st, s, [])
      | Inr key \<Rightarrow>
          (case checkedInput kc body of
             Inl st \<Rightarrow> (KeyStatus st, s, [])
           | Inr (req, expires) \<Rightarrow>
               (case kl_Update (kc_keys kc) (editedKey req expires key) s of
                  (Some KeyRowNotFound, s') \<Rightarrow> (KeyStatus 404, s', [])
                | (Some KeyStatementFailed, s') \<Rightarrow> (KeyStatus 500, s', [])
                | (None, s') \<Rightarrow> (KeyShown (editedKey req expires key), s', [KeyAudit ''api_key.update'' (ak_ID key)]))))"

definition deleteAPIKeyH :: "'k keyCall \<Rightarrow> string \<Rightarrow> 'k \<Rightarrow> keyReply \<times> 'k \<times> keyAudit list" where
  "deleteAPIKeyH kc i s =
     (case ownsOrAdmin kc i s of
        Inl st \<Rightarrow> (KeyStatus st, s, [])
      | Inr key \<Rightarrow>
          (case kl_RevokeAPIKey (kc_keys kc) (ak_ID key) s of
             (Some KeyStatementFailed, s') \<Rightarrow> (KeyStatus 500, s', [])
           | (_, s') \<Rightarrow> (KeyDeleted, s', [KeyAudit ''api_key.delete'' (ak_ID key)])))"

text \<open>What becomes of the old key: an immediate revocation, or an expiry after the grace period. A key
  already gone is as good as either.\<close>

definition retireOld :: "'k keyCall \<Rightarrow> int \<Rightarrow> apiKey \<Rightarrow> 'k \<Rightarrow> keyErr option \<times> 'k" where
  "retireOld kc grace key s =
     (if grace = 0 then kl_RevokeAPIKey (kc_keys kc) (ak_ID key) s
      else kl_Update (kc_keys kc) (key\<lparr>ak_ExpiresAt := Some (kc_now kc + grace * 3600)\<rparr>) s)"

definition rotateAPIKeyH :: "'k keyCall \<Rightarrow> string \<Rightarrow> int \<Rightarrow> 'k \<Rightarrow> keyReply \<times> 'k \<times> keyAudit list" where
  "rotateAPIKeyH kc i grace s =
     (if grace < 0 \<or> maxRotationGraceHours < grace then (KeyStatus 400, s, [])
      else (case ownsOrAdmin kc i s of
              Inl st \<Rightarrow> (KeyStatus st, s, [])
            | Inr key \<Rightarrow>
                if validateGrantedScopes (kc_lib kc) (kc_context kc) (ak_Scopes key) \<noteq> None then (KeyStatus 403, s, [])
                else (let owner = (case ak_UserID key of Some u \<Rightarrow> u | None \<Rightarrow> userIDOf (kc_context kc));
                          input = \<lparr>ki_Name = ak_Name key, ki_Description = (case ak_Description key of None \<Rightarrow> [] | Some d \<Rightarrow> d),
                                   ki_Scopes = ak_Scopes key, ki_ExpiresAt = []\<rparr>
                      in case mintKey kc input (ak_ExpiresAt key) owner s of
                           (Inl e, s1) \<Rightarrow> (KeyStatus (mintStatus e), s1, [])
                         | (Inr (secret, created), s1) \<Rightarrow>
                             (case retireOld kc grace key s1 of
                                (Some KeyStatementFailed, s2) \<Rightarrow> (KeyStatus 500, s2, [])
                              | (_, s2) \<Rightarrow> (KeyRotated secret created (ak_ID key), s2, [KeyAudit ''api_key.rotate'' (ak_ID key)])))))"
end
