(* ===== verification/KeyAuthority.thy ===== *)
theory KeyAuthority
  imports ApiKeys
begin

text \<open>
  What a key can do, from its minting to a request it authenticates: the rows the handlers of
  \<open>api/apikeys.go\<close> leave, the context \<open>middleware/auth.go\<close> makes of a token, and the organization
  the request then acts in.
\<close>

section \<open>What a call changes\<close>

lemma validate_None:
  "validateGrantedScopes lib c l = None \<longleftrightarrow> set l \<subseteq> set assignableKeyScopes \<and> (\<forall>sc \<in> set l. hasScope lib (scopesOf c) sc)"
  by (induction l) auto

lemma row_id: "keyLaws L \<Longrightarrow> kl_row L i s = Some k \<Longrightarrow> ak_ID k = i"
  unfolding keyLaws_def keyReadLaws_def by blast

lemma get_row: "keyLaws L \<Longrightarrow> kl_GetAPIKeyByID L i s = Inr (Some k) \<Longrightarrow> kl_row L i s = Some k"
  unfolding keyLaws_def keyReadLaws_def by blast

lemma prefix_rows:
  "keyLaws L \<Longrightarrow> kl_GetAPIKeysByPrefix L p s = Some ks \<Longrightarrow> k \<in> set ks \<longleftrightarrow> kl_row L (ak_ID k) s = Some k \<and> ak_KeyPrefix k = p"
  unfolding keyLaws_def keyReadLaws_def by blast

lemma owned_row:
  assumes "keyLaws (kc_keys kc)" "ownsOrAdmin kc i s = Inr k"
  shows "kl_row (kc_keys kc) i s = Some k" "ak_ID k = i"
  using assms get_row row_id by (fastforce simp: ownsOrAdmin_def split: sum.splits option.splits keyErr.splits if_splits)+

text \<open>How a call may leave the table: as it was, with one row put, or with one taken away.\<close>

definition putRow :: "'k keyLib \<Rightarrow> apiKey \<Rightarrow> 'k \<Rightarrow> 'k \<Rightarrow> bool" where
  "putRow L k s s' \<longleftrightarrow> (\<forall>i. kl_row L i s' = (if i = ak_ID k then Some k else kl_row L i s))"

definition sameRows :: "'k keyLib \<Rightarrow> 'k \<Rightarrow> 'k \<Rightarrow> bool" where
  "sameRows L s s' \<longleftrightarrow> (\<forall>i. kl_row L i s' = kl_row L i s)"

lemma sameRows_refl [simp]: "sameRows L s s" by (simp add: sameRows_def)

lemma update_rows:
  assumes "keyLaws L" "kl_Update L k s = (e, s')"
  shows "if e = None then putRow L k s s' else sameRows L s s'"
proof -
  have "updateLaw L" using assms(1) by (simp add: keyLaws_def)
  from this[unfolded updateLaw_def, THEN spec[of _ k], THEN spec[of _ s]] assms(2) show ?thesis
    by (cases e) (auto simp: putRow_def sameRows_def)
qed

lemma revoke_rows:
  assumes "keyLaws L" "kl_RevokeAPIKey L j s = (e, s')"
  shows "kl_row L i s' = Some k \<Longrightarrow> kl_row L i s = Some k"
proof -
  have "revokeLaw L" using assms(1) by (simp add: keyLaws_def)
  from this[unfolded revokeLaw_def, THEN spec[of _ j], THEN spec[of _ s]] assms(2) show "kl_row L i s' = Some k \<Longrightarrow> kl_row L i s = Some k"
    by (cases e) (auto split: if_splits)
qed

lemma create_rows:
  assumes "keyLaws L" "kl_CreateAPIKey L r s = (out, s')"
  shows "case out of Inl _ \<Rightarrow> sameRows L s s' | Inr r' \<Rightarrow> r' = r\<lparr>ak_ID := ak_ID r'\<rparr> \<and> kl_row L (ak_ID r') s = None \<and> putRow L r' s s'"
proof -
  have "createLaw L" using assms(1) by (simp add: keyLaws_def)
  from this[unfolded createLaw_def, THEN spec[of _ r], THEN spec[of _ s]] assms(2) show ?thesis
    by (cases out) (simp_all add: putRow_def sameRows_def)
qed

text \<open>What a minted row is.\<close>

definition mintedRow :: "'k keyCall \<Rightarrow> apiKeyInput \<Rightarrow> int option \<Rightarrow> string \<Rightarrow> string \<Rightarrow> apiKey \<Rightarrow> bool" where
  "mintedRow kc req expires userID secret row \<longleftrightarrow>
     ak_UserID row = Some userID \<and> ak_Scopes row = ki_Scopes req \<and> ak_ExpiresAt row = expires
     \<and> ak_OrganizationID row \<noteq> []
     \<and> actingOrganization (kc_tenant kc) (Some (kc_orgExists kc)) (kc_selected kc) (kc_context kc) = Inr (ak_OrganizationID row)
     \<and> (\<exists>t. memberOf (kc_orgs kc) (ak_OrganizationID row) userID = Inr (True, t))
     \<and> kc_generate kc = Some (secret, ak_KeyHash row, ak_KeyPrefix row)"

lemma mintKey_minted:
  assumes "keyLaws (kc_keys kc)" "mintKey kc req expires userID s = (Inr (secret, row), s')"
  shows "mintedRow kc req expires userID secret row" "kl_row (kc_keys kc) (ak_ID row) s = None" "putRow (kc_keys kc) row s s'"
proof -
  obtain org t hash prefix row0 where h: "actingOrganization (kc_tenant kc) (Some (kc_orgExists kc)) (kc_selected kc) (kc_context kc) = Inr org"
      "org \<noteq> []" "memberOf (kc_orgs kc) org userID = Inr (True, t)" "kc_generate kc = Some (secret, hash, prefix)"
      "kl_CreateAPIKey (kc_keys kc) row0 s = (Inr row, s')"
      "ak_UserID row0 = Some userID" "ak_Scopes row0 = ki_Scopes req" "ak_ExpiresAt row0 = expires" "ak_OrganizationID row0 = org"
      "ak_KeyHash row0 = hash" "ak_KeyPrefix row0 = prefix"
    using assms(2) unfolding mintKey_def by (fastforce split: sum.splits if_splits option.splits prod.splits)
  from create_rows[OF assms(1) h(5)] have c: "row = row0\<lparr>ak_ID := ak_ID row\<rparr>" "kl_row (kc_keys kc) (ak_ID row) s = None" "putRow (kc_keys kc) row s s'"
    by simp_all
  have "ak_UserID row = Some userID" "ak_Scopes row = ki_Scopes req" "ak_ExpiresAt row = expires" "ak_OrganizationID row = org"
      "ak_KeyHash row = hash" "ak_KeyPrefix row = prefix"
    using h(6-11) by (subst c(1), simp)+
  with h show "mintedRow kc req expires userID secret row" by (simp add: mintedRow_def)
  show "kl_row (kc_keys kc) (ak_ID row) s = None" "putRow (kc_keys kc) row s s'" by (rule c)+
qed

lemma mintKey_failed:
  assumes "keyLaws (kc_keys kc)" "mintKey kc req expires userID s = (Inl e, s')"
  shows "sameRows (kc_keys kc) s s'"
  using assms(2) create_rows[OF assms(1)] unfolding mintKey_def
  by (fastforce split: sum.splits if_splits option.splits prod.splits)

section \<open>The calls of a deployment\<close>

inductive keyStep :: "'k keyCall \<Rightarrow> 'k \<Rightarrow> 'k \<Rightarrow> bool" where
  create: "createAPIKeyH kc body s = (r, s', a) \<Longrightarrow> keyStep kc s s'"
| update: "updateAPIKeyH kc i body s = (r, s', a) \<Longrightarrow> keyStep kc s s'"
| delete: "deleteAPIKeyH kc i s = (r, s', a) \<Longrightarrow> keyStep kc s s'"
| rotate: "rotateAPIKeyH kc i grace s = (r, s', a) \<Longrightarrow> keyStep kc s s'"

text \<open>A table that started empty and was only changed by the handlers, each call with its own caller,
  clock and membership.\<close>

inductive keyHistory :: "'k keyLib \<Rightarrow> 'k \<Rightarrow> bool" where
  start: "(\<And>i. kl_row L i s = None) \<Longrightarrow> keyHistory L s"
| step: "keyHistory L s \<Longrightarrow> kc_keys kc = L \<Longrightarrow> keyStep kc s s' \<Longrightarrow> keyHistory L s'"

text \<open>What a call puts in the table: a minted row, or the row that was there with an edit its caller may make.\<close>

definition grantable :: "'k keyCall \<Rightarrow> apiKey \<Rightarrow> bool" where
  "grantable kc k \<longleftrightarrow> validateGrantedScopes (kc_lib kc) (kc_context kc) (ak_Scopes k) = None"

definition minted :: "'k keyCall \<Rightarrow> apiKey \<Rightarrow> bool" where
  "minted kc k \<longleftrightarrow> (\<exists>req expires userID secret. mintedRow kc req expires userID secret k)"

definition edited :: "apiKey \<Rightarrow> apiKey \<Rightarrow> bool" where
  "edited k0 k \<longleftrightarrow> ak_ID k = ak_ID k0 \<and> ak_UserID k = ak_UserID k0 \<and> ak_OrganizationID k = ak_OrganizationID k0
     \<and> ak_KeyHash k = ak_KeyHash k0 \<and> ak_KeyPrefix k = ak_KeyPrefix k0"

definition mayAppear :: "'k keyCall \<Rightarrow> 'k \<Rightarrow> apiKey \<Rightarrow> bool" where
  "mayAppear kc s k \<longleftrightarrow> grantable kc k
     \<and> (case kl_row (kc_keys kc) (ak_ID k) s of
          None \<Rightarrow> minted kc k
        | Some k0 \<Rightarrow> ownsOrAdmin kc (ak_ID k) s = Inr k0 \<and> edited k0 k)"

definition change :: "'k keyCall \<Rightarrow> 'k \<Rightarrow> 'k \<Rightarrow> bool" where
  "change kc s s' \<longleftrightarrow> (\<forall>i k. kl_row (kc_keys kc) i s' = Some k \<longrightarrow> kl_row (kc_keys kc) i s = Some k \<or> mayAppear kc s k)"

lemma change_same: "sameRows (kc_keys kc) s s' \<Longrightarrow> change kc s s'"
  by (simp add: change_def sameRows_def)

lemma change_put:
  assumes "putRow (kc_keys kc) k s s'" "mayAppear kc s k"
  shows "change kc s s'"
  unfolding change_def
proof (intro allI impI)
  fix i k' assume r: "kl_row (kc_keys kc) i s' = Some k'"
  have "kl_row (kc_keys kc) i s' = (if i = ak_ID k then Some k else kl_row (kc_keys kc) i s)"
    using assms(1) unfolding putRow_def by (rule spec)
  then have "(i = ak_ID k \<and> k' = k) \<or> kl_row (kc_keys kc) i s = Some k'" using r by (cases "i = ak_ID k") simp_all
  then show "kl_row (kc_keys kc) i s = Some k' \<or> mayAppear kc s k'" using assms(2) by blast
qed

lemma change_edit:
  assumes "keyLaws (kc_keys kc)" "ownsOrAdmin kc i s = Inr k0" "grantable kc k" "edited k0 k" "kl_Update (kc_keys kc) k s = (e, s')"
  shows "change kc s s'"
proof (cases e)
  case None
  have o: "kl_row (kc_keys kc) i s = Some k0" "ak_ID k0 = i" by (rule owned_row[OF assms(1,2)])+
  then have i: "ak_ID k = i" using assms(4) by (simp add: edited_def)
  have "putRow (kc_keys kc) k s s'" using update_rows[OF assms(1,5)] None by simp
  moreover have "mayAppear kc s k" using assms(2-4) o i by (simp add: mayAppear_def)
  ultimately show ?thesis by (rule change_put)
next
  case (Some x)
  then show ?thesis using update_rows[OF assms(1,5)] by (simp add: change_same)
qed

lemma checkedInput_granted:
  "checkedInput kc body = Inr (req, expires) \<Longrightarrow> validateGrantedScopes (kc_lib kc) (kc_context kc) (ki_Scopes req) = None"
  by (auto simp: checkedInput_def split: option.splits if_splits)

lemma change_minted:
  assumes "keyLaws (kc_keys kc)" "validateGrantedScopes (kc_lib kc) (kc_context kc) (ki_Scopes req) = None"
    and "mintKey kc req expires userID s = (Inr (secret, row), s')"
  shows "change kc s s'"
proof -
  note m = mintKey_minted[OF assms(1,3)]
  have "ak_Scopes row = ki_Scopes req" using m(1) by (simp add: mintedRow_def)
  then have "grantable kc row" "minted kc row" using assms(2) m(1) unfolding grantable_def minted_def by auto
  then have "mayAppear kc s row" using m(2) by (simp add: mayAppear_def)
  then show ?thesis by (rule change_put[OF m(3)])
qed

lemma change_create:
  assumes "keyLaws (kc_keys kc)" "createAPIKeyH kc body s = (r, s', a)"
  shows "change kc s s'"
proof (cases "checkedInput kc body")
  case (Inr x)
  obtain req expires where x: "x = (req, expires)" by (cases x)
  obtain out s1 where m: "mintKey kc req expires (userIDOf (kc_context kc)) s = (out, s1)" by fastforce
  then have s': "s' = s1" using assms(2) Inr x unfolding createAPIKeyH_def by (simp split: sum.splits prod.splits)
  show ?thesis
  proof (cases out)
    case (Inl e)
    then show ?thesis using mintKey_failed[OF assms(1)] m s' by (simp add: change_same)
  next
    case i: (Inr y)
    then show ?thesis using change_minted[OF assms(1) checkedInput_granted] Inr x m s' by (cases y) blast
  qed
qed (use assms(2) in \<open>simp add: createAPIKeyH_def change_same\<close>)

lemma change_update:
  assumes "keyLaws (kc_keys kc)" "updateAPIKeyH kc i body s = (r, s', a)"
  shows "change kc s s'"
proof (cases "ownsOrAdmin kc i s")
  case o: (Inr k0)
  show ?thesis
  proof (cases "checkedInput kc body")
    case (Inr x)
    obtain req expires where x: "x = (req, expires)" by (cases x)
    obtain e s1 where u: "kl_Update (kc_keys kc) (editedKey req expires k0) s = (e, s1)" by fastforce
    then have s': "s' = s1" using assms(2) o Inr x unfolding updateAPIKeyH_def by (simp split: option.splits keyErr.splits)
    have "grantable kc (editedKey req expires k0)" "edited k0 (editedKey req expires k0)"
      using checkedInput_granted Inr x unfolding grantable_def edited_def editedKey_def by auto
    from change_edit[OF assms(1) o this u] show ?thesis unfolding s' .
  qed (use assms(2) o in \<open>simp add: updateAPIKeyH_def change_same\<close>)
qed (use assms(2) in \<open>simp add: updateAPIKeyH_def change_same\<close>)

lemma change_revoke: "keyLaws (kc_keys kc) \<Longrightarrow> kl_RevokeAPIKey (kc_keys kc) j s = (e, s') \<Longrightarrow> change kc s s'"
  unfolding change_def by (intro allI impI disjI1) (rule revoke_rows)

lemma change_delete:
  assumes "keyLaws (kc_keys kc)" "deleteAPIKeyH kc i s = (r, s', a)"
  shows "change kc s s'"
proof (cases "ownsOrAdmin kc i s")
  case (Inr k0)
  obtain e s1 where u: "kl_RevokeAPIKey (kc_keys kc) (ak_ID k0) s = (e, s1)" by fastforce
  then have "s' = s1" using assms(2) Inr unfolding deleteAPIKeyH_def by (simp split: option.splits keyErr.splits)
  then show ?thesis using change_revoke[OF assms(1) u] by simp
qed (use assms(2) in \<open>simp add: deleteAPIKeyH_def change_same\<close>)

lemma retireOld_change:
  assumes "keyLaws (kc_keys kc)" "grantable kc k0" "kl_row (kc_keys kc) (ak_ID k0) s = Some k0"
    and "ownsOrAdmin kc (ak_ID k0) s = Inr k0" "change kc s s1" "retireOld kc grace k0 s1 = (e, s')"
  shows "change kc s s'"
proof (cases "grace = 0")
  case True
  then have "kl_RevokeAPIKey (kc_keys kc) (ak_ID k0) s1 = (e, s')" using assms(6) by (simp add: retireOld_def)
  from revoke_rows[OF assms(1) this] show ?thesis using assms(5) unfolding change_def by blast
next
  case False
  let ?k = "k0\<lparr>ak_ExpiresAt := Some (kc_now kc + grace * 3600)\<rparr>"
  have u: "kl_Update (kc_keys kc) ?k s1 = (e, s')" using assms(6) False by (simp add: retireOld_def)
  have m: "mayAppear kc s ?k" using assms(2-4) by (simp add: mayAppear_def grantable_def edited_def)
  show ?thesis
    unfolding change_def
  proof (intro allI impI)
    fix i k assume r: "kl_row (kc_keys kc) i s' = Some k"
    have "kl_row (kc_keys kc) i s' = Some ?k \<or> kl_row (kc_keys kc) i s' = kl_row (kc_keys kc) i s1"
      using update_rows[OF assms(1) u] unfolding putRow_def sameRows_def by (metis (full_types))
    then have "k = ?k \<or> kl_row (kc_keys kc) i s1 = Some k" using r by (auto simp only: option.inject)
    then show "kl_row (kc_keys kc) i s = Some k \<or> mayAppear kc s k" using m assms(5) unfolding change_def by blast
  qed
qed

lemma change_rotate:
  assumes "keyLaws (kc_keys kc)" "rotateAPIKeyH kc i grace s = (r, s', a)"
  shows "change kc s s'"
proof (cases "grace < 0 \<or> maxRotationGraceHours < grace")
  case g: False
  show ?thesis
  proof (cases "ownsOrAdmin kc i s")
    case o: (Inr k0)
    have row: "kl_row (kc_keys kc) i s = Some k0" "ak_ID k0 = i" by (rule owned_row[OF assms(1) o])+
    show ?thesis
    proof (cases "validateGrantedScopes (kc_lib kc) (kc_context kc) (ak_Scopes k0)")
      case v: None
      let ?owner = "case ak_UserID k0 of Some u \<Rightarrow> u | None \<Rightarrow> userIDOf (kc_context kc)"
      let ?req = "\<lparr>ki_Name = ak_Name k0, ki_Description = (case ak_Description k0 of None \<Rightarrow> [] | Some d \<Rightarrow> d), ki_Scopes = ak_Scopes k0, ki_ExpiresAt = []\<rparr>"
      obtain out s1 where m: "mintKey kc ?req (ak_ExpiresAt k0) ?owner s = (out, s1)" by fastforce
      show ?thesis
      proof (cases out)
        case (Inl e)
        then have "s' = s1" using assms(2) g o v m unfolding rotateAPIKeyH_def Let_def by simp
        then show ?thesis using mintKey_failed[OF assms(1)] m Inl by (simp add: change_same)
      next
        case (Inr y)
        obtain secret created where y: "y = (secret, created)" by (cases y)
        obtain e s2 where e: "retireOld kc grace k0 s1 = (e, s2)" by fastforce
        have "s' = s2" using assms(2) g o v m Inr y e unfolding rotateAPIKeyH_def Let_def
          by (simp split: option.splits keyErr.splits)
        have m': "mintKey kc ?req (ak_ExpiresAt k0) ?owner s = (Inr (secret, created), s1)" using m Inr y by simp
        have c: "change kc s s1" using change_minted[OF assms(1) _ m'] v by simp
        from retireOld_change[OF assms(1) _ _ _ c e] v row o \<open>s' = s2\<close> show ?thesis
          by (auto simp: grantable_def)
      qed
    qed (use assms(2) g o in \<open>simp add: rotateAPIKeyH_def change_same\<close>)
  qed (use assms(2) g in \<open>simp add: rotateAPIKeyH_def change_same\<close>)
qed (use assms(2) in \<open>simp add: rotateAPIKeyH_def change_same\<close>)

lemma step_change:
  assumes "keyStep kc s s'" "keyLaws (kc_keys kc)"
  shows "change kc s s'"
  using assms by (cases rule: keyStep.cases) (blast intro: change_create change_update change_delete change_rotate)+

lemma history_rows:
  assumes "keyHistory L s" "keyLaws L" "kl_row L i s = Some k"
  shows "set (ak_Scopes k) \<subseteq> set assignableKeyScopes \<and> (\<exists>u. ak_UserID k = Some u) \<and> ak_OrganizationID k \<noteq> []"
  using assms
proof (induction arbitrary: i k rule: keyHistory.induct)
  case (step L s kc s')
  have c: "kl_row L i s = Some k \<or> mayAppear kc s k"
    using step_change[OF step.hyps(3)] step.hyps(2) step.prems unfolding change_def by blast
  have old: "set (ak_Scopes k0) \<subseteq> set assignableKeyScopes \<and> (\<exists>u. ak_UserID k0 = Some u) \<and> ak_OrganizationID k0 \<noteq> []"
    if "kl_row L j s = Some k0" for j k0 using step.IH[OF step.prems(1) that] .
  show ?case
  proof (cases "kl_row L i s = Some k")
    case False
    then have a: "mayAppear kc s k" using c by simp
    then have "set (ak_Scopes k) \<subseteq> set assignableKeyScopes" unfolding mayAppear_def grantable_def validate_None by simp
    moreover have "(\<exists>u. ak_UserID k = Some u) \<and> ak_OrganizationID k \<noteq> []"
    proof (cases "kl_row L (ak_ID k) s")
      case None
      then show ?thesis using a step.hyps(2) by (auto simp: mayAppear_def minted_def mintedRow_def)
    next
      case (Some k0)
      then show ?thesis using a step.hyps(2) old[OF Some] by (auto simp: mayAppear_def edited_def)
    qed
    ultimately show ?thesis by simp
  qed (rule old)
qed simp

section \<open>At the door\<close>

lemma firstGenuine_in: "firstGenuine lib token ks = Some k \<Longrightarrow> k \<in> set ks \<and> ia_ValidateAPIKey lib token (ak_KeyHash k)"
  by (induction ks) (auto split: if_splits)

lemma cappedScopes_Some:
  assumes "cappedScopes lib (Some mr) k u = Some scopes"
  shows "\<exists>t live. memberOf mr (ak_OrganizationID k) u = Inr (True, t) \<and> liveScopes mr u = Inr live \<and> scopes = filter (hasScope lib live) (ak_Scopes k)"
  using assms by (auto simp: cappedScopes_def grantedSubset_def split: sum.splits if_splits)

text \<open>The context a key \<open>k\<close> makes of a request, for its owner \<open>u\<close>.\<close>

definition keyContext :: "idAuthLib \<Rightarrow> (string \<Rightarrow> idOutcome) \<Rightarrow> memberReads \<Rightarrow> int \<Rightarrow> apiKey \<Rightarrow> string \<Rightarrow> reqContext \<Rightarrow> bool" where
  "keyContext lib users mr now k u c \<longleftrightarrow>
     (\<forall>e. ak_ExpiresAt k = Some e \<longrightarrow> now \<le> e) \<and> map_option trimSpace (ak_UserID k) = Some u \<and> u \<noteq> [] \<and> users u = IdOk
     \<and> (\<exists>t. memberOf mr (ak_OrganizationID k) u = Inr (True, t))
     \<and> (\<exists>live. liveScopes mr u = Inr live \<and> scopesOf c = ia_KeyScopes lib (filter (hasScope lib live) (ak_Scopes k)))
     \<and> cx_user_id c = Some u \<and> cx_auth_method c = Some ''apikey'' \<and> cx_api_key_id c = Some (ak_ID k)
     \<and> cx_api_key_organization_id c = Some (ak_OrganizationID k)"

lemma acceptKey_context:
  assumes "acceptKey lib (Some users) (Some mr) now k c0 = Some c"
  shows "\<exists>u. keyContext lib users mr now k u c"
proof -
  obtain u scopes where h: "ak_UserID k = Some u" "trimSpace u \<noteq> []" "\<not> (case ak_ExpiresAt k of None \<Rightarrow> False | Some e \<Rightarrow> e < now)"
      "users (trimSpace u) = IdOk" "cappedScopes lib (Some mr) k (trimSpace u) = Some scopes"
      "c = c0\<lparr>cx_user_id := Some (trimSpace u), cx_scopes := Some (ia_KeyScopes lib scopes), cx_auth_method := Some ''apikey'',
              cx_api_key_id := Some (ak_ID k), cx_api_key_organization_id := Some (ak_OrganizationID k)\<rparr>"
    using assms unfolding acceptKey_def Let_def by (auto split: if_splits option.splits)
  from cappedScopes_Some[OF h(5)] h show ?thesis
    unfolding keyContext_def by (intro exI[of _ "trimSpace u"]) (auto simp: scopesOf_def)
qed

lemma authMiddleware_key:
  assumes "authMiddleware ad now rq emptyContext = Inr c" "cx_auth_method c = Some ''apikey''"
    and "ad_byPrefix ad = Some byPrefix" "ad_orgs ad = Some mr"
  shows "\<exists>token ks k u. byPrefix (take (ia_DisplayPrefixLength (ad_lib ad)) token) = Some ks \<and> k \<in> set ks
           \<and> ia_ValidateAPIKey (ad_lib ad) token (ak_KeyHash k) \<and> keyContext (ad_lib ad) (ad_users ad) mr now k u c"
proof -
  obtain token fromCookie where t: "extractToken rq = (token, fromCookie)" by fastforce
  have "ad_validate ad token = None"
  proof (cases "ad_validate ad token")
    case (Some cl)
    then have "authenticateSession ad cl fromCookie emptyContext = Inr c"
      using assms(1) t by (auto simp: authMiddleware_def emptyContext_def split: if_splits)
    then show ?thesis using assms(2)
      by (auto simp: authenticateSession_def setAuthContext_def split: option.splits idOutcome.splits if_splits)
  qed simp
  then have "authenticateAPIKey (ad_lib ad) byPrefix (Some (ad_users ad)) (Some mr) now token emptyContext = Some c"
    using assms(1,3,4) t by (auto simp: authMiddleware_def emptyContext_def split: if_splits option.splits)
  then obtain ks k where "byPrefix (take (ia_DisplayPrefixLength (ad_lib ad)) token) = Some ks" "firstGenuine (ad_lib ad) token ks = Some k"
      "acceptKey (ad_lib ad) (Some (ad_users ad)) (Some mr) now k emptyContext = Some c"
    unfolding authenticateAPIKey_def by (auto split: if_splits option.splits)
  then show ?thesis using firstGenuine_in acceptKey_context by blast
qed

text \<open>C24: A key never carries more than it was minted with or than its owner holds. Whatever calls the
  key table has seen, a request that a key authenticates acts for the owner of a stored, unexpired key
  whose digest the token opens; the owner exists and is a member of the key's organization at that
  moment; every scope of the request is stored with the key, one of the six assignable ones, and held
  by the owner live; and \<open>admin\<close> is never among them.\<close>

theorem key_authority_bounded:
  assumes "keyLaws L" "scopeLaws (ad_lib ad)" "keyHistory L s"
    and "ad_byPrefix ad = Some (\<lambda>p. kl_GetAPIKeysByPrefix L p s)" "ad_orgs ad = Some mr"
    and "authMiddleware ad now rq emptyContext = Inr c" "cx_auth_method c = Some ''apikey''"
  shows "\<exists>token k u t live. kl_row L (ak_ID k) s = Some k \<and> ia_ValidateAPIKey (ad_lib ad) token (ak_KeyHash k)
           \<and> (\<forall>e. ak_ExpiresAt k = Some e \<longrightarrow> now \<le> e) \<and> cx_user_id c = Some u \<and> map_option trimSpace (ak_UserID k) = Some u
           \<and> ad_users ad u = IdOk \<and> memberOf mr (ak_OrganizationID k) u = Inr (True, t) \<and> liveScopes mr u = Inr live
           \<and> set (scopesOf c) \<subseteq> set (ak_Scopes k) \<inter> set assignableKeyScopes
           \<and> (\<forall>sc \<in> set (scopesOf c). hasScope (ad_lib ad) live sc) \<and> ''admin'' \<notin> set (scopesOf c)
           \<and> cx_api_key_organization_id c = Some (ak_OrganizationID k)"
proof -
  from authMiddleware_key[OF assms(6,7,4,5)] obtain token ks k u where h:
      "kl_GetAPIKeysByPrefix L (take (ia_DisplayPrefixLength (ad_lib ad)) token) s = Some ks" "k \<in> set ks"
      "ia_ValidateAPIKey (ad_lib ad) token (ak_KeyHash k)" "keyContext (ad_lib ad) (ad_users ad) mr now k u c" by blast
  have row: "kl_row L (ak_ID k) s = Some k" using prefix_rows[OF assms(1) h(1)] h(2) by blast
  from h(4) obtain t live where x: "memberOf mr (ak_OrganizationID k) u = Inr (True, t)" "liveScopes mr u = Inr live"
      "scopesOf c = ia_KeyScopes (ad_lib ad) (filter (hasScope (ad_lib ad) live) (ak_Scopes k))"
    unfolding keyContext_def by blast
  have sc: "set (scopesOf c) = {sc \<in> set (ak_Scopes k). hasScope (ad_lib ad) live sc} - {''admin''}"
    using assms(2) x(3) by (simp add: scopeLaws_def)
  have "set (ak_Scopes k) \<subseteq> set assignableKeyScopes" using history_rows[OF assms(3,1) row] by blast
  with sc have "set (scopesOf c) \<subseteq> set (ak_Scopes k) \<inter> set assignableKeyScopes"
      "\<forall>sc \<in> set (scopesOf c). hasScope (ad_lib ad) live sc" "''admin'' \<notin> set (scopesOf c)" by auto
  with h(3,4) row x(1,2) show ?thesis unfolding keyContext_def by blast
qed

text \<open>C25: No call mints or edits a key beyond its caller: a row that a call adds or changes carries only
  assignable scopes, each satisfied by the caller's own; a new row is bound to the organization the
  caller acts in, of which its owner is a member at that moment, and an edited row is one the caller
  owns or administers, with owner, organization, digest and prefix as they were.\<close>

theorem key_writes_bounded:
  assumes "keyLaws (kc_keys kc)" "keyStep kc s s'" "kl_row (kc_keys kc) i s' = Some k" "kl_row (kc_keys kc) i s \<noteq> Some k"
  shows "set (ak_Scopes k) \<subseteq> set assignableKeyScopes \<and> (\<forall>sc \<in> set (ak_Scopes k). hasScope (kc_lib kc) (scopesOf (kc_context kc)) sc)
    \<and> (case kl_row (kc_keys kc) i s of
         None \<Rightarrow> actingOrganization (kc_tenant kc) (Some (kc_orgExists kc)) (kc_selected kc) (kc_context kc) = Inr (ak_OrganizationID k)
           \<and> (\<exists>u t. ak_UserID k = Some u \<and> memberOf (kc_orgs kc) (ak_OrganizationID k) u = Inr (True, t))
       | Some k0 \<Rightarrow> (isAdmin (kc_lib kc) (kc_context kc) \<or> ak_UserID k0 = Some (userIDOf (kc_context kc))) \<and> edited k0 k)"
proof -
  have m: "mayAppear kc s k" using step_change[OF assms(2,1)] assms(3,4) unfolding change_def by blast
  have i: "ak_ID k = i" using row_id[OF assms(1,3)] .
  have "grantable kc k" using m by (simp add: mayAppear_def)
  moreover have "actingOrganization (kc_tenant kc) (Some (kc_orgExists kc)) (kc_selected kc) (kc_context kc) = Inr (ak_OrganizationID k)
      \<and> (\<exists>u t. ak_UserID k = Some u \<and> memberOf (kc_orgs kc) (ak_OrganizationID k) u = Inr (True, t))" if "kl_row (kc_keys kc) i s = None"
    using m i that by (auto simp: mayAppear_def minted_def mintedRow_def)
  moreover have "(isAdmin (kc_lib kc) (kc_context kc) \<or> ak_UserID k0 = Some (userIDOf (kc_context kc))) \<and> edited k0 k"
    if "kl_row (kc_keys kc) i s = Some k0" for k0
  proof -
    have "ownsOrAdmin kc i s = Inr k0" "edited k0 k" using m i that by (simp_all add: mayAppear_def)
    then show ?thesis by (auto simp: ownsOrAdmin_def split: sum.splits option.splits keyErr.splits if_splits)
  qed
  ultimately show ?thesis unfolding grantable_def validate_None by (cases "kl_row (kc_keys kc) i s") simp_all
qed

section \<open>Where a key acts\<close>

text \<open>What is used of the tenancy resolver: under \<open>KeyBindsOrganization\<close> a key reaches its own organization
  only and never as a platform administrator; the acting organization is one the scope reaches.\<close>

definition resolverLaws :: "tenantLib \<Rightarrow> bool" where
  "resolverLaws tb \<longleftrightarrow>
     (\<forall>p required sc. tb_Resolve tb False True p required = Some sc \<longrightarrow> pr_Credential p = CredentialAPIKey \<longrightarrow>
        \<not> sc_PlatformAdmin sc \<and> set (sc_OrgIDs sc) \<subseteq> {pr_KeyOrgID p})
     \<and> (\<forall>sc selected org. tb_ActingOrganization tb sc selected = Inr org \<longrightarrow> reaches sc (Some org))"

text \<open>A key acts in the organization it was minted for and in no other. Once \<open>TenantScope\<close> has run on
  a request a key authenticated, the scope reaches only rows of the key's organization, and a key
  minted by that request belongs to it too.\<close>

theorem keys_act_in_their_organization:
  assumes "resolverLaws tb" "authMiddleware ad now rq emptyContext = Inr c" "cx_auth_method c = Some ''apikey''"
    and "ad_byPrefix ad = Some byPrefix" "ad_orgs ad = Some mr"
  shows "\<exists>org. cx_api_key_organization_id c = Some org
     \<and> (\<forall>required sc o'. cx_tenant_scope (tenantScopeMW tb required c) = Some sc \<longrightarrow> reaches sc o' \<longrightarrow> o' = Some (trimSpace org))
     \<and> (\<forall>(kc :: 'k keyCall) s s' i row required. keyLaws (kc_keys kc) \<longrightarrow> kc_context kc = tenantScopeMW tb required c \<longrightarrow> kc_tenant kc = tb \<longrightarrow>
          keyStep kc s s' \<longrightarrow> kl_row (kc_keys kc) i s = None \<longrightarrow> kl_row (kc_keys kc) i s' = Some row \<longrightarrow> ak_OrganizationID row = trimSpace org)"
proof -
  from authMiddleware_key[OF assms(2,3,4,5)] obtain k u where k: "keyContext (ad_lib ad) (ad_users ad) mr now k u c" by blast
  let ?org = "ak_OrganizationID k"
  have none: "cx_tenant_scope c = None"
    using assms(2) by (auto simp: authMiddleware_def authenticateSession_def authenticateAPIKey_def acceptKey_def Let_def setAuthContext_def
        emptyContext_def split: if_splits option.splits prod.splits idOutcome.splits)
  have p: "pr_Credential (principalOf c) = CredentialAPIKey" "pr_KeyOrgID (principalOf c) = trimSpace ?org"
    using k by (simp_all add: keyContext_def principalOf_def credentialOf_def keyOrganization_def)
  have reach: "o' = Some (trimSpace ?org)" if "cx_tenant_scope (tenantScopeMW tb required c) = Some sc" "reaches sc o'" for required sc o'
  proof -
    have "tb_Resolve tb False True (principalOf c) required = Some sc"
      using that(1) none by (auto simp: tenantScopeMW_def split: option.splits)
    then have "\<not> sc_PlatformAdmin sc" "set (sc_OrgIDs sc) \<subseteq> {trimSpace ?org}" using assms(1) p unfolding resolverLaws_def by force+
    then show ?thesis using that(2) by (auto simp: reaches_def anyOrg_def split: option.splits)
  qed
  have mint: "ak_OrganizationID row = trimSpace ?org"
    if "keyLaws (kc_keys kc)" "kc_context kc = tenantScopeMW tb required c" "kc_tenant kc = tb" "keyStep kc s s'"
      "kl_row (kc_keys kc) i s = None" "kl_row (kc_keys kc) i s' = Some row" for kc :: "'k keyCall" and s s' i row required
  proof -
    have "mayAppear kc s row" using step_change[OF that(4,1)] that(5,6) unfolding change_def by force
    then have "minted kc row" using row_id[OF that(1,6)] that(5) by (simp add: mayAppear_def)
    then have a: "actingOrganization tb (Some (kc_orgExists kc)) (kc_selected kc) (tenantScopeMW tb required c) = Inr (ak_OrganizationID row)"
      using that(2,3) by (auto simp: minted_def mintedRow_def)
    then obtain sc where sc: "cx_tenant_scope (tenantScopeMW tb required c) = Some sc"
        "tb_ActingOrganization tb sc (kc_selected kc) = Inr (ak_OrganizationID row)"
      by (auto simp: actingOrganization_def split: option.splits sum.splits actingErr.splits if_splits)
    then have "reaches sc (Some (ak_OrganizationID row))" using assms(1) unfolding resolverLaws_def by blast
    from reach[OF sc(1) this] show ?thesis by simp
  qed
  from k have "cx_api_key_organization_id c = Some ?org" by (simp add: keyContext_def)
  with reach mint show ?thesis by blast
qed

section \<open>A fresh key\<close>

text \<open>What drawing a key promises: its shape, and that no other stored digest opens to it.\<close>

definition freshSecret :: "idAuthLib \<Rightarrow> 'k keyLib \<Rightarrow> 'k \<Rightarrow> string \<Rightarrow> apiKey \<Rightarrow> bool" where
  "freshSecret lib L s secret row \<longleftrightarrow>
     hasPrefix secret ''tsm_'' \<and> trimSpace secret = secret \<and> ia_DisplayPrefixLength lib \<le> length secret
     \<and> ak_KeyPrefix row = take (ia_DisplayPrefixLength lib) secret
     \<and> (\<forall>i k. kl_row L i s = Some k \<longrightarrow> ia_ValidateAPIKey lib secret (ak_KeyHash k) = (k = row))"

lemma firstGenuine_only:
  "row \<in> set ks \<Longrightarrow> (\<And>k. k \<in> set ks \<Longrightarrow> ia_ValidateAPIKey lib token (ak_KeyHash k) = (k = row)) \<Longrightarrow> firstGenuine lib token ks = Some row"
  by (induction ks) auto

text \<open>C26: A key that was minted opens the door. Presented as a bearer token before it expires, the secret of
  the answer authenticates a request as the caller who minted it, by the row it made, with the granted
  scopes its owner still holds, in the organization it was minted for.\<close>

theorem minted_key_authenticates:
  assumes "keyLaws (kc_keys kc)" "createAPIKeyH kc body s = (KeyMinted secret row, s', a)"
    and "freshSecret (ad_lib ad) (kc_keys kc) s' secret row" "ad_validate ad secret = None"
    and "ad_byPrefix ad = Some (\<lambda>p. kl_GetAPIKeysByPrefix (kc_keys kc) p s')" "kl_GetAPIKeysByPrefix (kc_keys kc) (ak_KeyPrefix row) s' \<noteq> None"
    and "ad_orgs ad = Some (kc_orgs kc)" "ad_users ad (userIDOf (kc_context kc)) = IdOk"
    and "trimSpace (userIDOf (kc_context kc)) = userIDOf (kc_context kc)" "userIDOf (kc_context kc) \<noteq> []" "trimSpace (ak_OrganizationID row) \<noteq> []"
    and "liveScopes (kc_orgs kc) (userIDOf (kc_context kc)) = Inr live" "\<forall>e. ak_ExpiresAt row = Some e \<longrightarrow> now \<le> e"
  shows "\<exists>c. authMiddleware ad now \<lparr>rq_Authorization = ''Bearer '' @ secret, rq_AuthCookie = cookie\<rparr> emptyContext = Inr c
           \<and> cx_user_id c = Some (userIDOf (kc_context kc)) \<and> cx_api_key_id c = Some (ak_ID row)
           \<and> scopesOf c = ia_KeyScopes (ad_lib ad) (filter (hasScope (ad_lib ad) live) (ak_Scopes row))
           \<and> cx_api_key_organization_id c = Some (ak_OrganizationID row)"
proof -
  let ?u = "userIDOf (kc_context kc)" and ?L = "kc_keys kc"
  obtain req expires where m: "mintKey kc req expires ?u s = (Inr (secret, row), s')"
    using assms(2) unfolding createAPIKeyH_def by (auto split: sum.splits prod.splits)
  note mk = mintKey_minted[OF assms(1) m]
  obtain t where r: "ak_UserID row = Some ?u" "memberOf (kc_orgs kc) (ak_OrganizationID row) ?u = Inr (True, t)"
    using mk(1) by (auto simp: mintedRow_def)
  have row: "kl_row ?L (ak_ID row) s' = Some row" using mk(3) by (simp add: putRow_def)
  obtain ks where ks: "kl_GetAPIKeysByPrefix ?L (ak_KeyPrefix row) s' = Some ks" using assms(6) by blast
  note f = assms(3)[unfolded freshSecret_def]
  have "row \<in> set ks" using prefix_rows[OF assms(1) ks] row by blast
  then have g: "firstGenuine (ad_lib ad) secret ks = Some row"
    using prefix_rows[OF assms(1) ks] f by (intro firstGenuine_only) blast+
  have capped: "cappedScopes (ad_lib ad) (Some (kc_orgs kc)) row ?u = Some (filter (hasScope (ad_lib ad) live) (ak_Scopes row))"
    using r(2) assms(12) by (simp add: cappedScopes_def grantedSubset_def)
  have e: "\<not> (case ak_ExpiresAt row of None \<Rightarrow> False | Some e \<Rightarrow> e < now)" using assms(13) by (auto split: option.splits)
  have "secret \<noteq> []" using f by (cases secret) auto
  moreover have "extractToken \<lparr>rq_Authorization = ''Bearer '' @ secret, rq_AuthCookie = cookie\<rparr> = (secret, False)"
    using f trimPrefix_append[of "''Bearer ''" secret] hasPrefix_append[of "''Bearer ''" secret] by (simp add: extractToken_def del: append_Cons)
  moreover have "\<exists>c. authenticateAPIKey (ad_lib ad) (\<lambda>p. kl_GetAPIKeysByPrefix ?L p s') (Some (ad_users ad)) (Some (kc_orgs kc)) now secret emptyContext = Some c
      \<and> cx_user_id c = Some ?u \<and> cx_api_key_id c = Some (ak_ID row) \<and> scopesOf c = ia_KeyScopes (ad_lib ad) (filter (hasScope (ad_lib ad) live) (ak_Scopes row))
      \<and> cx_api_key_organization_id c = Some (ak_OrganizationID row)"
    using f ks g capped e r(1) assms(8-11) by (simp add: authenticateAPIKey_def acceptKey_def Let_def scopesOf_def)
  ultimately show ?thesis
    using assms(4,5,7) f by (auto simp: authMiddleware_def emptyContext_def)
qed

section \<open>The list\<close>

text \<open>The cache of owners changes nothing: it holds what the lookup would say.\<close>

lemma keysVisibleLoop_filter:
  assumes "\<forall>u ok. oget u allowed = Some ok \<longrightarrow> ownerAllowed (ms u) permits unowned = Inr ok" "omap_ok allowed"
    and "keysVisibleLoop ms permits unowned allowed ks = Inr out"
  shows "out = filter (\<lambda>k. \<exists>u. ak_UserID k = Some u \<and> ownerAllowed (ms u) permits unowned = Inr True) ks"
  using assms
proof (induction ks arbitrary: allowed out)
  case (Cons k ks)
  show ?case
  proof (cases "ak_UserID k")
    case (Some u)
    obtain ok allowed' where o: "ownerAllowed (ms u) permits unowned = Inr ok"
        "(case oget u allowed of Some ok \<Rightarrow> Inr (ok, allowed)
          | None \<Rightarrow> (case ownerAllowed (ms u) permits unowned of Inl e \<Rightarrow> Inl e | Inr ok \<Rightarrow> Inr (ok, oput u ok allowed))) = Inr (ok, allowed')"
        "allowed' = allowed \<or> allowed' = oput u ok allowed"
      using Cons.prems(1,3) Some by (auto split: option.splits sum.splits)
    then obtain out' where out': "keysVisibleLoop ms permits unowned allowed' ks = Inr out'" "out = (if ok then k # out' else out')"
      using Cons.prems(3) Some by (cases "keysVisibleLoop ms permits unowned allowed' ks") auto
    have "\<forall>v ok'. oget v allowed' = Some ok' \<longrightarrow> ownerAllowed (ms v) permits unowned = Inr ok'"
      using o(1,3) Cons.prems(1,2) by (auto simp: oget_oput split: if_splits)
    moreover have "omap_ok allowed'" using o(3) Cons.prems(2) by auto
    ultimately have "out' = filter (\<lambda>k. \<exists>u. ak_UserID k = Some u \<and> ownerAllowed (ms u) permits unowned = Inr True) ks"
      using out'(1) by (rule Cons.IH)
    then show ?thesis using out'(2) o(1) Some by simp
  qed (use Cons in \<open>auto\<close>)
qed simp

lemma keys_listed_by_membership:
  "keysVisibleToScope ms permits unowned ks = Inr out \<Longrightarrow>
     out = filter (\<lambda>k. \<exists>u. ak_UserID k = Some u \<and> ownerAllowed (ms u) permits unowned = Inr True) ks"
  unfolding keysVisibleToScope_def by (rule keysVisibleLoop_filter) (auto simp: omap_ok_def)

section \<open>Concrete keys\<close>

definition sampleIdAuth :: idAuthLib where
  "sampleIdAuth = \<lparr>ia_HasScope = (\<lambda>l s p. ''admin'' \<in> set l \<or> s \<in> set l \<or> list_ex (\<lambda>rw. fst rw = s \<and> snd rw \<in> set l) p),
     ia_ValidateAPIKey = (\<lambda>token hash. hash = CHR ''#'' # token), ia_KeyScopes = filter (\<lambda>s. s \<noteq> ''admin''), ia_DisplayPrefixLength = 6,
     ia_OrganizationsRead = ''organizations:read'', ia_OrganizationsWrite = ''organizations:write'',
     ia_OrganizationsCreate = ''organizations:create'', ia_UsersRead = ''users:read'', ia_APIKeysManage = ''api_keys:manage''\<rparr>"

abbreviation rowIn :: "string \<Rightarrow> apiKey list \<Rightarrow> apiKey option" where
  "rowIn i s \<equiv> List.find (\<lambda>k. ak_ID k = i) s"

definition sampleKeyLib :: "apiKey list keyLib" where
  "sampleKeyLib = \<lparr>kl_row = rowIn,
     kl_GetAPIKeyByID = (\<lambda>i s. case rowIn i s of None \<Rightarrow> Inl KeyRowNotFound | Some k \<Rightarrow> Inr (Some k)),
     kl_ListAPIKeys = Some, kl_ListAPIKeysByUser = (\<lambda>u s. Some (filter (\<lambda>k. ak_UserID k = Some u) s)),
     kl_GetAPIKeysByPrefix = (\<lambda>p s. Some (filter (\<lambda>k. rowIn (ak_ID k) s = Some k \<and> ak_KeyPrefix k = p) s)),
     kl_CreateAPIKey = (\<lambda>r s. let r' = r\<lparr>ak_ID := replicate (Suc (sum_list (map (length \<circ> ak_ID) s))) CHR ''k''\<rparr> in (Inr r', s @ [r'])),
     kl_Update = (\<lambda>k s. if rowIn (ak_ID k) s = None then (Some KeyRowNotFound, s) else (None, map (\<lambda>r. if ak_ID r = ak_ID k then k else r) s)),
     kl_RevokeAPIKey = (\<lambda>i s. if rowIn i s = None then (Some KeyRowNotFound, s) else (None, filter (\<lambda>k. ak_ID k \<noteq> i) s))\<rparr>"

lemma rowIn_Some: "rowIn i s = Some k \<Longrightarrow> ak_ID k = i \<and> k \<in> set s"
  by (auto simp: find_Some_iff)

lemma rowIn_map: "rowIn i (map (\<lambda>r. if ak_ID r = ak_ID k then k else r) s) = (if i = ak_ID k \<and> rowIn i s \<noteq> None then Some k else rowIn i s)"
  by (induction s) auto

lemma rowIn_filter: "rowIn i (filter (\<lambda>k. ak_ID k \<noteq> j) s) = (if i = j then None else rowIn i s)"
  by (induction s) auto

lemma rowIn_snoc: "rowIn i (s @ [r]) = (case rowIn i s of Some k \<Rightarrow> Some k | None \<Rightarrow> if ak_ID r = i then Some r else None)"
  by (induction s) auto

lemma rowIn_long: "sum_list (map (length \<circ> ak_ID) s) < length i \<Longrightarrow> rowIn i s = None"
  by (induction s) auto

lemma sampleKeyLib_laws: "keyLaws sampleKeyLib"
proof -
  have "keyReadLaws sampleKeyLib"
    unfolding keyReadLaws_def sampleKeyLib_def by (auto dest: rowIn_Some split: option.splits)
  moreover have "updateLaw sampleKeyLib" "revokeLaw sampleKeyLib"
    unfolding updateLaw_def revokeLaw_def sampleKeyLib_def by (auto simp: rowIn_map rowIn_filter)
  moreover have "createLaw sampleKeyLib"
    unfolding createLaw_def sampleKeyLib_def by (auto simp: Let_def rowIn_snoc rowIn_long split: option.splits)
  ultimately show ?thesis by (simp add: keyLaws_def)
qed

lemma sampleIdAuth_laws: "scopeLaws sampleIdAuth"
  by (auto simp: scopeLaws_def sampleIdAuth_def)

definition sampleReads :: memberReads where
  "sampleReads = \<lparr>mr_flt = (\<lambda>_. False),
     mr_Member = (\<lambda>org u. if (org, u) \<in> {(''a'', ''u''), (''b'', ''v''), (''a'', ''w'')} then IdOk else IdNotFound),
     mr_Orgs = (\<lambda>u. if u = ''v'' then Some [''b''] else Some [''a'']),
     mr_state = \<lparr>ms_store = Some \<lparr>st_Templates = [\<lparr>rt_ID = ''t'', rt_Name = ''editor'', rt_DisplayName = [], rt_Description = None,
                     rt_Scopes = [''state:read'', ''state:write''], rt_IsSystem = True\<rparr>,
                   \<lparr>rt_ID = ''adm'', rt_Name = ''admin'', rt_DisplayName = [], rt_Description = None, rt_Scopes = [''admin''], rt_IsSystem = True\<rparr>],
                   st_Assignments = [\<lparr>as_Org = ''a'', as_User = ''u'', as_Role = Some ''t'', as_MirroredAt = 0\<rparr>,
                     \<lparr>as_Org = ''b'', as_User = ''v'', as_Role = Some ''t'', as_MirroredAt = 0\<rparr>,
                     \<lparr>as_Org = ''a'', as_User = ''w'', as_Role = Some ''adm'', as_MirroredAt = 0\<rparr>]\<rparr>,
                   ms_identity = [], ms_swept = []\<rparr>\<rparr>"

definition sampleTenant :: tenantLib where
  "sampleTenant = \<lparr>tb_Resolve = (\<lambda>_ _ p _. Some \<lparr>sc_PlatformAdmin = False, sc_OrgIDs = (if pr_Credential p = CredentialAPIKey then [pr_KeyOrgID p] else [''a''])\<rparr>),
     tb_ActingOrganization = (\<lambda>sc _. case sc_OrgIDs sc of [] \<Rightarrow> Inl NoActingOrganization | o' # _ \<Rightarrow> Inr o')\<rparr>"

lemma sampleTenant_laws: "resolverLaws sampleTenant"
  by (auto simp: resolverLaws_def sampleTenant_def reaches_def anyOrg_def split: list.splits)

text \<open>A session of a user with scopes, acting in organization a.\<close>

definition sampleSession :: "string \<Rightarrow> string list \<Rightarrow> reqContext" where
  "sampleSession u scopes = emptyContext\<lparr>cx_user_id := Some u, cx_scopes := Some scopes, cx_auth_method := Some ''jwt'',
     cx_tenant_scope := Some \<lparr>sc_PlatformAdmin = False, sc_OrgIDs = [''a'']\<rparr>\<rparr>"

definition sampleKeyCall :: "reqContext \<Rightarrow> apiKey list keyCall" where
  "sampleKeyCall c = \<lparr>kc_lib = sampleIdAuth, kc_keys = sampleKeyLib, kc_orgs = sampleReads, kc_tenant = sampleTenant,
     kc_orgExists = (\<lambda>_. True), kc_selected = [], kc_generate = Some (''tsm_xyz'', ''#tsm_xyz'', ''tsm_xy''),
     kc_parseTime = (\<lambda>_. Some 500), kc_now = 100, kc_context = c\<rparr>"

definition sampleInputs :: apiKeyInput where
  "sampleInputs = \<lparr>ki_Name = ''ci'', ki_Description = [], ki_Scopes = [''state:read''], ki_ExpiresAt = ''later''\<rparr>"

definition sampleMint :: "keyReply \<times> apiKey list \<times> keyAudit list" where
  "sampleMint = createAPIKeyH (sampleKeyCall (sampleSession ''u'' [''state:write''])) (Some sampleInputs) []"

definition mintedSample :: apiKey where
  "mintedSample = \<lparr>ak_ID = ''k'', ak_UserID = Some ''u'', ak_OrganizationID = ''a'', ak_Name = ''ci'', ak_Description = None,
     ak_KeyHash = ''#tsm_xyz'', ak_KeyPrefix = ''tsm_xy'', ak_Scopes = [''state:read''], ak_ExpiresAt = Some 500\<rparr>"

definition sampleAuthDeps :: "apiKey list \<Rightarrow> authDeps" where
  "sampleAuthDeps s = \<lparr>ad_lib = sampleIdAuth, ad_validate = (\<lambda>_. None), ad_tokenRevoked = None, ad_userRevoked = None,
     ad_byPrefix = Some (\<lambda>p. kl_GetAPIKeysByPrefix sampleKeyLib p s), ad_users = (\<lambda>_. IdOk), ad_orgs = Some sampleReads, ad_platformAdmins = None\<rparr>"

definition sampleKeyContext :: reqContext where
  "sampleKeyContext = emptyContext\<lparr>cx_user_id := Some ''u'', cx_scopes := Some [''state:read''], cx_auth_method := Some ''apikey'',
     cx_api_key_id := Some ''k'', cx_api_key_organization_id := Some ''a''\<rparr>"

lemma sampleMint_row: "sampleMint = (KeyMinted ''tsm_xyz'' mintedSample, [mintedSample], [KeyAudit ''api_key.create'' ''k''])"
  by code_simp

lemma sampleMint_step: "keyStep (sampleKeyCall (sampleSession ''u'' [''state:write''])) [] [mintedSample]"
  using sampleMint_row unfolding sampleMint_def by (rule keyStep.create)

lemma sampleMint_history: "keyHistory sampleKeyLib [mintedSample]"
proof (rule keyHistory.step)
  show "keyHistory sampleKeyLib []" by (rule keyHistory.start) (simp add: sampleKeyLib_def)
  show "kc_keys (sampleKeyCall (sampleSession ''u'' [''state:write''])) = sampleKeyLib" by (simp add: sampleKeyCall_def)
qed (rule sampleMint_step)

lemma sampleDoor:
  "authMiddleware (sampleAuthDeps [mintedSample]) 200 \<lparr>rq_Authorization = ''Bearer tsm_xyz'', rq_AuthCookie = None\<rparr> emptyContext = Inr sampleKeyContext"
  by code_simp

theorem key_authority_bounded_witness:
  "\<exists>k. rowIn (ak_ID k) [mintedSample] = Some k \<and> set (scopesOf sampleKeyContext) \<subseteq> set (ak_Scopes k)"
proof -
  have h: "scopeLaws (ad_lib (sampleAuthDeps [mintedSample]))" "ad_orgs (sampleAuthDeps [mintedSample]) = Some sampleReads"
      "ad_byPrefix (sampleAuthDeps [mintedSample]) = Some (\<lambda>p. kl_GetAPIKeysByPrefix sampleKeyLib p [mintedSample])"
      "cx_auth_method sampleKeyContext = Some ''apikey''" "kl_row sampleKeyLib = rowIn"
    using sampleIdAuth_laws by (simp_all add: sampleAuthDeps_def sampleKeyContext_def sampleKeyLib_def)
  from key_authority_bounded[OF sampleKeyLib_laws h(1) sampleMint_history h(3,2) sampleDoor h(4)] obtain k
    where "kl_row sampleKeyLib (ak_ID k) [mintedSample] = Some k" "set (scopesOf sampleKeyContext) \<subseteq> set (ak_Scopes k) \<inter> set assignableKeyScopes"
    by (elim exE conjE) (rule that)
  then have "rowIn (ak_ID k) [mintedSample] = Some k \<and> set (scopesOf sampleKeyContext) \<subseteq> set (ak_Scopes k)" unfolding h(5) by simp
  then show ?thesis by (rule exI)
qed

theorem key_writes_bounded_witness: "set (ak_Scopes mintedSample) \<subseteq> set assignableKeyScopes"
proof -
  let ?kc = "sampleKeyCall (sampleSession ''u'' [''state:write''])"
  have k: "kc_keys ?kc = sampleKeyLib" "kl_row sampleKeyLib = rowIn" by (simp_all add: sampleKeyCall_def sampleKeyLib_def)
  have "rowIn ''k'' [mintedSample] = Some mintedSample" by (simp add: mintedSample_def)
  with key_writes_bounded[OF _ sampleMint_step, of "''k''" mintedSample] sampleKeyLib_laws k show ?thesis by simp
qed

theorem keys_act_in_their_organization_witness:
  "\<forall>o'. reaches \<lparr>sc_PlatformAdmin = False, sc_OrgIDs = [''a'']\<rparr> o' \<longrightarrow> o' = Some ''a''"
proof -
  have "ad_orgs (sampleAuthDeps [mintedSample]) = Some sampleReads"
      "ad_byPrefix (sampleAuthDeps [mintedSample]) = Some (\<lambda>p. kl_GetAPIKeysByPrefix sampleKeyLib p [mintedSample])"
      "cx_auth_method sampleKeyContext = Some ''apikey''" "cx_api_key_organization_id sampleKeyContext = Some ''a''"
    by (simp_all add: sampleAuthDeps_def sampleKeyContext_def)
  note h = this
  have "\<forall>required sc o'. cx_tenant_scope (tenantScopeMW sampleTenant required sampleKeyContext) = Some sc \<longrightarrow> reaches sc o' \<longrightarrow> o' = Some (trimSpace ''a'')"
    using keys_act_in_their_organization[OF sampleTenant_laws sampleDoor h(3,2,1), where 'k = "apiKey list"] unfolding h(4) option.inject by metis
  moreover have "cx_tenant_scope (tenantScopeMW sampleTenant [] sampleKeyContext) = Some \<lparr>sc_PlatformAdmin = False, sc_OrgIDs = [''a'']\<rparr>"
    "trimSpace ''a'' = ''a''" by code_simp+
  ultimately show ?thesis by metis
qed

theorem minted_key_authenticates_witness:
  "\<exists>c. authMiddleware (sampleAuthDeps [mintedSample]) 200 \<lparr>rq_Authorization = ''Bearer tsm_xyz'', rq_AuthCookie = Some ''x''\<rparr> emptyContext = Inr c
     \<and> scopesOf c = [''state:read'']"
proof -
  let ?kc = "sampleKeyCall (sampleSession ''u'' [''state:write''])" and ?ad = "sampleAuthDeps [mintedSample]"
  have u: "userIDOf (kc_context ?kc) = ''u''" "kc_keys ?kc = sampleKeyLib" "kc_orgs ?kc = sampleReads" "ad_lib ?ad = sampleIdAuth" "ad_validate ?ad = (\<lambda>_. None)"
      "ad_byPrefix ?ad = Some (\<lambda>p. kl_GetAPIKeysByPrefix sampleKeyLib p [mintedSample])" "ad_orgs ?ad = Some sampleReads" "ad_users ?ad ''u'' = IdOk"
    by (simp_all add: sampleKeyCall_def sampleSession_def sampleAuthDeps_def userIDOf_def)
  have f: "freshSecret sampleIdAuth sampleKeyLib [mintedSample] ''tsm_xyz'' mintedSample"
    unfolding freshSecret_def by (intro conjI) (code_simp, code_simp, code_simp, code_simp, auto simp: sampleKeyLib_def sampleIdAuth_def mintedSample_def split: if_splits)
  have l: "liveScopes sampleReads ''u'' = Inr [''state:read'', ''state:write'']" "kl_GetAPIKeysByPrefix sampleKeyLib (ak_KeyPrefix mintedSample) [mintedSample] \<noteq> None"
      "trimSpace ''u'' = ''u''" "trimSpace (ak_OrganizationID mintedSample) \<noteq> []" "\<forall>e. ak_ExpiresAt mintedSample = Some e \<longrightarrow> 200 \<le> e"
    by (code_simp, code_simp, code_simp, code_simp, simp add: mintedSample_def)
  have s: "ia_KeyScopes sampleIdAuth (filter (hasScope sampleIdAuth [''state:read'', ''state:write'']) (ak_Scopes mintedSample)) = [''state:read'']" by code_simp
  from minted_key_authenticates[of ?kc "Some sampleInputs" "[]" "''tsm_xyz''" mintedSample "[mintedSample]" "[KeyAudit ''api_key.create'' ''k'']" ?ad
      "[''state:read'', ''state:write'']" 200 "Some ''x''"] u f l s sampleKeyLib_laws sampleMint_row[unfolded sampleMint_def]
  show ?thesis by auto
qed

text \<open>The check of one key admits any administrator: w administers organization a only, cannot see the key
  of v, a member of organization b, in the list, and deletes it.\<close>

lemma admin_reaches_foreign_keys:
  "let kc = sampleKeyCall (sampleSession ''w'' [''admin'']);
       foreign = mintedSample\<lparr>ak_UserID := Some ''v'', ak_OrganizationID := ''b''\<rparr>
   in listAPIKeysH kc [foreign] = KeysShown [] \<and> deleteAPIKeyH kc ''k'' [foreign] = (KeyDeleted, [], [KeyAudit ''api_key.delete'' ''k''])"
  by code_simp

text \<open>Rotation with a grace period writes the end of the grace period over the old key's expiry, also where
  that was sooner or past: a key that expired at 50 is valid again at 100, for an hour.\<close>

lemma rotation_revives_expired_key:
  "let kc = sampleKeyCall (sampleSession ''u'' [''state:write'']); old = mintedSample\<lparr>ak_ID := ''o'', ak_KeyHash := ''#tsm_old'', ak_KeyPrefix := ''tsm_ol'', ak_ExpiresAt := Some 50\<rparr>;
       enter = (\<lambda>s. authMiddleware (sampleAuthDeps s) 100 \<lparr>rq_Authorization = ''Bearer tsm_old'', rq_AuthCookie = None\<rparr> emptyContext)
   in case rotateAPIKeyH kc ''o'' 1 [old] of (KeyRotated _ _ _, s', _) \<Rightarrow>
        enter [old] = Inl 401 \<and> rowIn ''o'' s' = Some (old\<lparr>ak_ExpiresAt := Some 3700\<rparr>) \<and> (\<exists>c \<in> set_option (case enter s' of Inr c \<Rightarrow> Some c | _ \<Rightarrow> None). scopesOf c = [''state:read'']) | _ \<Rightarrow> False"
  by code_simp
end
