(* ===== verification/Gates.thy ===== *)
theory Gates
  imports Prelude
begin

text \<open>
  The gates before a credential is looked at: the attempt limiters of \<open>middleware/loginratelimit.go\<close> and
  \<open>middleware/setup.go\<close>, the setup token, and the suite service token of \<open>middleware/suite.go\<close>.

  Instants are nanoseconds. \<open>allow\<close> reads the clock twice, for the cutoff and for the attempt it records;
  it holds its mutex, so calls are a sequence. The setup store's answers and bcrypt are parameters.
\<close>

section \<open>Attempts\<close>

type_synonym attempts = "int list gomap"

definition loginMaxAttempts :: nat where "loginMaxAttempts = 5"
definition loginRateWindow :: int where "loginRateWindow = 60000000000"
definition setupMaxAttempts :: nat where "setupMaxAttempts = 5"
definition setupRateWindow :: int where "setupRateWindow = 60000000000"

definition attemptsOf :: "string \<Rightarrow> attempts \<Rightarrow> int list" where
  "attemptsOf key a = (case oget key a of None \<Rightarrow> [] | Some ts \<Rightarrow> ts)"

definition allow :: "nat \<Rightarrow> int \<Rightarrow> int \<Rightarrow> int \<Rightarrow> string \<Rightarrow> attempts \<Rightarrow> bool \<times> attempts" where
  "allow mx window now1 now2 key a =
     (let recent = filter (\<lambda>t. now1 - window < t) (attemptsOf key a)
      in if mx \<le> length recent then (False, oput key recent a)
         else (True, oput key (recent @ [now2]) a))"

definition setupAllow :: "int \<Rightarrow> int \<Rightarrow> string \<Rightarrow> attempts \<Rightarrow> bool \<times> attempts" where
  "setupAllow = allow setupMaxAttempts setupRateWindow"

text \<open>\<open>LoginRateLimit\<close>: whether the request goes on; otherwise 429.\<close>

definition loginRateLimit :: "int \<Rightarrow> int \<Rightarrow> string \<Rightarrow> attempts \<Rightarrow> bool \<times> attempts" where
  "loginRateLimit = allow loginMaxAttempts loginRateWindow"

section \<open>The setup token\<close>

text \<open>What the store answers, None where a query fails.\<close>

record setupStore =
  su_IsSetupCompleted :: "bool option"
  su_HasPendingFeatureSetup :: "bool option"
  su_GetSetupTokenHash :: "string option"

text \<open>\<open>strings.EqualFold\<close> with a text of ASCII letters: the Kelvin sign folds to k, the long s to s.\<close>

fun foldText :: "string \<Rightarrow> string" where
  "foldText [] = []"
| "foldText (c # s) =
     (if c = CHR 0xE2 \<and> take 2 s = [CHR 0x84, CHR 0xAA] then CHR ''k'' # foldText (drop 2 s)
      else if c = CHR 0xC5 \<and> take 1 s = [CHR 0xBF] then CHR ''s'' # foldText (drop 1 s)
      else (if CHR ''A'' \<le> c \<and> c \<le> CHR ''Z'' then char_of (of_char c + 32 :: nat) else c) # foldText s)"

definition equalFold :: "string \<Rightarrow> string \<Rightarrow> bool" where
  "equalFold s ascii = (foldText s = foldText ascii)"

text \<open>\<open>SplitN(header, " ", 2)\<close> with its scheme checked: the token, None where the header is none.\<close>

definition setupToken :: "string \<Rightarrow> string option" where
  "setupToken header =
     (case strIndex header '' '' of
        None \<Rightarrow> None
      | Some i \<Rightarrow> if equalFold (take i header) ''SetupToken'' then Some (trimSpace (drop (Suc i) header)) else None)"

text \<open>Whether the endpoints are open, or the status that says they are not.\<close>

definition setupOpen :: "setupStore \<Rightarrow> nat option" where
  "setupOpen st =
     (case su_IsSetupCompleted st of
        None \<Rightarrow> Some 500
      | Some False \<Rightarrow> None
      | Some True \<Rightarrow>
          (case su_HasPendingFeatureSetup st of None \<Rightarrow> Some 500 | Some hasPending \<Rightarrow> if hasPending then None else Some 403))"

text \<open>None lets the request through.\<close>

definition checkSetupToken :: "(string \<Rightarrow> string \<Rightarrow> bool) \<Rightarrow> setupStore \<Rightarrow> string \<Rightarrow> nat option" where
  "checkSetupToken bcrypt st header =
     (case setupToken header of
        None \<Rightarrow> Some 401
      | Some raw \<Rightarrow>
          (case su_GetSetupTokenHash st of
             None \<Rightarrow> Some 500
           | Some hash \<Rightarrow> if hash = [] then Some 403 else if bcrypt hash raw then None else Some 401))"

definition setupTokenMiddleware ::
    "(string \<Rightarrow> string \<Rightarrow> bool) \<Rightarrow> setupStore \<Rightarrow> int \<Rightarrow> int \<Rightarrow> string \<Rightarrow> string \<Rightarrow> attempts \<Rightarrow> nat option \<times> attempts" where
  "setupTokenMiddleware bcrypt st now1 now2 ip header a =
     (case setupOpen st of
        Some status \<Rightarrow> (Some status, a)
      | None \<Rightarrow>
          (case setupAllow now1 now2 ip a of
             (False, a') \<Rightarrow> (Some 429, a')
           | (True, a') \<Rightarrow> (checkSetupToken bcrypt st header, a')))"

text \<open>\<open>RequireSuiteServiceToken\<close>: whether the request goes on; an unset token admits nobody.\<close>

definition requireSuiteServiceToken :: "string \<Rightarrow> string \<Rightarrow> bool" where
  "requireSuiteServiceToken want got = (want \<noteq> [] \<and> got = want)"

section \<open>How many attempts are let through\<close>

text \<open>A run of the limiter: every call has its key and its two clock readings, and notes the second one
  where it lets the attempt through.\<close>

type_synonym attempt = "string \<times> int \<times> int"

fun runAttempts :: "nat \<Rightarrow> int \<Rightarrow> attempt list \<Rightarrow> attempts \<Rightarrow> (string \<times> int) list" where
  "runAttempts mx window [] a = []"
| "runAttempts mx window ((key, now1, now2) # rest) a =
     (case allow mx window now1 now2 key a of
        (ok, a') \<Rightarrow> (if ok then [(key, now2)] else []) @ runAttempts mx window rest a')"

text \<open>The clock does not run back.\<close>

fun clockFrom :: "int \<Rightarrow> attempt list \<Rightarrow> bool" where
  "clockFrom t [] = True"
| "clockFrom t ((key, now1, now2) # rest) = (t \<le> now1 \<and> now1 \<le> now2 \<and> clockFrom now2 rest)"

definition within :: "int \<Rightarrow> int \<Rightarrow> int list \<Rightarrow> nat" where
  "within from window ts = length (filter (\<lambda>t. from < t \<and> t \<le> from + window) ts)"

lemma attemptsOf_oput [simp]: "attemptsOf key (oput key' v a) = (if key = key' then v else attemptsOf key a)"
  by (simp add: attemptsOf_def)

lemma within_append: "within b w (xs @ ys) = within b w xs + within b w ys"
  by (simp add: within_def)

lemma within_le: "within b w ts \<le> length ts"
  by (simp add: within_def)

lemma within_late: "\<forall>t \<in> set ts. b + w < t \<Longrightarrow> within b w ts = 0"
  by (auto simp: within_def filter_empty_conv)

lemma within_pruned:
  assumes "now1 \<le> b + w" shows "within b w (filter (\<lambda>t. now1 - w < t) ts) = within b w ts"
proof -
  have "(\<lambda>t. now1 - w < t \<and> b < t \<and> t \<le> b + w) = (\<lambda>t. b < t \<and> t \<le> b + w)" using assms by auto
  then show ?thesis by (simp add: within_def)
qed

text \<open>The attempts of a key that a run lets through.\<close>

definition letThrough :: "nat \<Rightarrow> int \<Rightarrow> string \<Rightarrow> attempt list \<Rightarrow> attempts \<Rightarrow> int list" where
  "letThrough mx window key rs a = map snd (filter (\<lambda>x. fst x = key) (runAttempts mx window rs a))"

lemma letThrough_Nil [simp]: "letThrough mx window key [] a = []"
  by (simp add: letThrough_def)

lemma letThrough_Cons:
  "letThrough mx window key ((k, now1, now2) # rs) a =
     (case allow mx window now1 now2 k a of (ok, a') \<Rightarrow> (if ok \<and> k = key then [now2] else []) @ letThrough mx window key rs a')"
  by (simp add: letThrough_def split: prod.splits)

lemma letThrough_later: "clockFrom t0 rs \<Longrightarrow> t \<in> set (letThrough mx window key rs a) \<Longrightarrow> t0 \<le> t"
proof (induction rs arbitrary: t0 a)
  case (Cons r rs)
  obtain k now1 now2 where r: "r = (k, now1, now2)" by (cases r) auto
  then show ?case using Cons.prems Cons.IH[of now2] by (fastforce simp: letThrough_Cons split: prod.splits if_splits)
qed simp

text \<open>The attempts kept for a key and those still to be let through: what pruning forgets is out of every
  interval an attempt can still fall into.\<close>

lemma attempts_within:
  assumes "clockFrom t0 rs" "within b window (attemptsOf key a) \<le> mx"
  shows "within b window (attemptsOf key a) + within b window (letThrough mx window key rs a) \<le> mx"
  using assms
proof (induction rs arbitrary: t0 a)
  case (Cons r rs)
  obtain k now1 now2 where r: "r = (k, now1, now2)" by (cases r) auto
  have c: "now1 \<le> now2" "clockFrom now2 rs" "clockFrom now1 (r # rs)" using Cons.prems(1) r by simp_all
  let ?ts = "attemptsOf key a" and ?recent = "filter (\<lambda>t. now1 - window < t) (attemptsOf key a)"
  consider (late) "b + window < now1" | (other) "now1 \<le> b + window" "k \<noteq> key"
    | (refused) "now1 \<le> b + window" "k = key" "mx \<le> length ?recent" | (admitted) "now1 \<le> b + window" "k = key" "length ?recent < mx" by linarith
  then show ?case
  proof cases
    case late
    have "within b window (letThrough mx window key (r # rs) a) = 0"
      using letThrough_later[OF c(3)] late by (intro within_late) fastforce
    then show ?thesis using Cons.prems(2) by simp
  next
    case other
    obtain ok a' where al: "allow mx window now1 now2 k a = (ok, a')" by fastforce
    then have "attemptsOf key a' = ?ts" using other(2) by (auto simp: allow_def Let_def split: if_splits)
    then show ?thesis using Cons.IH[OF c(2), of a'] Cons.prems(2) r al other(2) by (simp add: letThrough_Cons)
  next
    case refused
    then have al: "allow mx window now1 now2 k a = (False, oput key ?recent a)" by (simp add: allow_def Let_def)
    then show ?thesis using Cons.IH[OF c(2), of "oput key ?recent a"] Cons.prems(2) r refused(1)
      by (simp add: letThrough_Cons within_pruned)
  next
    case admitted
    then have al: "allow mx window now1 now2 k a = (True, oput key (?recent @ [now2]) a)" by (simp add: allow_def Let_def)
    have "within b window (?recent @ [now2]) \<le> mx" using within_le[of b window "?recent @ [now2]"] admitted(3) by simp
    then show ?thesis using Cons.IH[OF c(2), of "oput key (?recent @ [now2]) a"] r al admitted(1,2)
      within_append[of b window "[now2]" "letThrough mx window key rs (oput key (?recent @ [now2]) a)"]
      by (simp add: letThrough_Cons within_append within_pruned)
  qed
qed (simp add: within_def)

text \<open>In any interval of one minute at most five attempts of one address get past the limiter, however
  many arrive and whatever other addresses do, for logins and for the setup token alike.\<close>

theorem attempts_bounded:
  assumes "clockFrom t0 rs"
  shows "within b loginRateWindow (letThrough loginMaxAttempts loginRateWindow ip rs []) \<le> 5
    \<and> within b setupRateWindow (letThrough setupMaxAttempts setupRateWindow ip rs []) \<le> 5"
proof -
  have e: "within b w (attemptsOf ip []) = 0" for w by (simp add: attemptsOf_def oget_def within_def)
  have "within b w (letThrough 5 w ip rs []) \<le> 5" for w using attempts_within[OF assms, of b w ip "[]" 5] e by simp
  then show ?thesis by (simp add: loginMaxAttempts_def setupMaxAttempts_def)
qed

text \<open>Six attempts within a minute, and one a minute after the first.\<close>

definition sampleAttempts :: "attempt list" where
  "sampleAttempts = map (\<lambda>i. (''ip'', i, i)) [1, 2, 3, 4, 5, 6, 60000000001]"

theorem attempts_bounded_witness:
  "within 0 loginRateWindow (letThrough loginMaxAttempts loginRateWindow ''ip'' sampleAttempts []) \<le> 5
   \<and> letThrough loginMaxAttempts loginRateWindow ''ip'' sampleAttempts [] = [1, 2, 3, 4, 5, 60000000001]"
proof (intro conjI)
  have "clockFrom 0 sampleAttempts" by code_simp
  then show "within 0 loginRateWindow (letThrough loginMaxAttempts loginRateWindow ''ip'' sampleAttempts []) \<le> 5" by (rule conjunct1[OF attempts_bounded])
qed code_simp

text \<open>The setup endpoints let a request through only before setup is complete or while a feature is pending,
  and only with the token the stored digest is of.\<close>

lemma setup_token_opens:
  assumes "setupTokenMiddleware bcrypt st now1 now2 ip header a = (None, a')"
  shows "(su_IsSetupCompleted st = Some False \<or> su_HasPendingFeatureSetup st = Some True) \<and> fst (setupAllow now1 now2 ip a)
    \<and> (\<exists>raw hash. setupToken header = Some raw \<and> su_GetSetupTokenHash st = Some hash \<and> hash \<noteq> [] \<and> bcrypt hash raw)"
  using assms by (auto simp: setupTokenMiddleware_def setupOpen_def checkSetupToken_def split: option.splits prod.splits bool.splits if_splits)
end
