(* ===== verification/LocalStates.thy ===== *)
theory LocalStates
  imports LockService
begin

text \<open>
  \<open>internal/statesource/roots.go\<close> and \<open>local.go\<close>: states as files below a base directory that an operator
  permitted.

  Paths are slash-separated, on a system whose separator is the slash. The file system is the content
  of each path that names a file; whether a path exists and where its symbolic links lead are functions
  of the view a call has, and the faults of a call arguments. A file is keyed by the path it is reached by:
  two keys that name one file through a symbolic link, and a link that stands where a write puts its
  temporary file, are not seen. Walking the directory (\<open>List\<close>) and the reported sizes and times are left out.
\<close>

section \<open>Paths\<close>

definition rootedPath :: "string list \<Rightarrow> string" where
  "rootedPath segs = (if segs = [] then ''/'' else concat (map (\<lambda>s. CHR ''/'' # s) segs))"

text \<open>\<open>filepath.Clean\<close> of a rooted path: the segments kept, last first.\<close>

fun cleanSegs :: "string list \<Rightarrow> string list \<Rightarrow> string list" where
  "cleanSegs acc [] = rev acc"
| "cleanSegs acc (x # xs) =
     (if x = [] \<or> x = ''.'' then cleanSegs acc xs
      else if x = ''..'' then cleanSegs (tl acc) xs
      else cleanSegs (x # acc) xs)"

definition cleanRooted :: "string \<Rightarrow> string" where
  "cleanRooted s = rootedPath (cleanSegs [] (splitOn CHR ''/'' s))"

definition joinPath :: "string \<Rightarrow> string \<Rightarrow> string" where
  "joinPath base elem = (if elem = [] then cleanRooted base else cleanRooted (base @ ''/'' @ elem))"

text \<open>\<open>filepath.Dir\<close>: what precedes the last slash, cleaned.\<close>

definition dirOf :: "string \<Rightarrow> string" where
  "dirOf p = rootedPath (cleanSegs [] (butlast (splitOn CHR ''/'' p)))"

abbreviation plain :: "string \<Rightarrow> bool" where
  "plain x \<equiv> x \<noteq> [] \<and> x \<noteq> ''.''"

definition properSeg :: "string \<Rightarrow> bool" where
  "properSeg x \<longleftrightarrow> plain x \<and> x \<noteq> ''..'' \<and> CHR ''/'' \<notin> set x"

lemma cleanSegs_plain: "''..'' \<notin> set xs \<Longrightarrow> cleanSegs acc xs = rev acc @ filter plain xs"
  by (induction xs arbitrary: acc) auto

lemma cleanSegs_proper:
  "(\<forall>x \<in> set acc. properSeg x) \<Longrightarrow> (\<forall>x \<in> set xs. CHR ''/'' \<notin> set x) \<Longrightarrow> \<forall>x \<in> set (cleanSegs acc xs). properSeg x"
proof (induction acc xs rule: cleanSegs.induct)
  case (2 acc x xs)
  have t: "\<forall>y \<in> set (tl acc). properSeg y" using 2(4) by (cases acc) simp_all
  have xs: "\<forall>y \<in> set xs. CHR ''/'' \<notin> set y" using 2(5) by simp
  consider "x = [] \<or> x = ''.''" | "\<not> (x = [] \<or> x = ''.'')" "x = ''..''" | "\<not> (x = [] \<or> x = ''.'')" "x \<noteq> ''..''" by blast
  then show ?case
  proof cases
    case 1
    then show ?thesis using 2(1)[OF 1 2(4) xs] by simp
  next
    case c: 2
    then show ?thesis using 2(2)[OF c t xs] by simp
  next
    case c: 3
    then have "properSeg x" using 2(5) by (simp add: properSeg_def)
    then have "\<forall>y \<in> set (x # acc). properSeg y" using 2(4) by simp
    from 2(3)[OF c this xs] c show ?thesis by simp
  qed
qed simp

lemma length_cleanSegs: "length (cleanSegs acc xs) \<le> length acc + length xs"
proof (induction acc xs rule: cleanSegs.induct)
  case (2 acc x xs)
  have "length (tl acc) \<le> length acc" by simp
  then show ?case using 2 by (auto intro: le_trans)
qed auto

lemma splitOn_middle: "splitOn c (u @ c # v) = splitOn c u @ splitOn c v"
  by (induction u) (auto split: list.splits)

lemma split_rooted:
  assumes "\<forall>x \<in> set segs. properSeg x"
  shows "splitOn CHR ''/'' (rootedPath segs) = (if segs = [] then [[], []] else [] # segs)"
  using assms
proof (induction segs rule: rev_induct)
  case (snoc x xs)
  have "splitOn CHR ''/'' x = [x]" using snoc.prems by (simp add: properSeg_def splitOn_single)
  with snoc show ?case by (cases "xs = []") (simp_all add: rootedPath_def splitOn_middle)
qed (simp add: rootedPath_def)

lemma filter_plain_proper: "\<forall>x \<in> set segs. properSeg x \<Longrightarrow> filter plain segs = segs"
  by (simp add: properSeg_def)

lemma filter_split_rooted:
  assumes "\<forall>x \<in> set segs. properSeg x"
  shows "filter plain (splitOn CHR ''/'' (rootedPath segs)) = segs" "''..'' \<notin> set (splitOn CHR ''/'' (rootedPath segs))"
  using assms filter_plain_proper[OF assms] by (auto simp: split_rooted[OF assms] properSeg_def)

lemma cleanRooted_rootedPath: "\<forall>x \<in> set segs. properSeg x \<Longrightarrow> cleanRooted (rootedPath segs) = rootedPath segs"
  by (simp add: cleanRooted_def cleanSegs_plain filter_split_rooted)

lemma rootedPath_inject:
  assumes "\<forall>x \<in> set xs. properSeg x" "\<forall>x \<in> set ys. properSeg x" "rootedPath xs = rootedPath ys"
  shows "xs = ys"
  using filter_split_rooted(1)[OF assms(1)] filter_split_rooted(1)[OF assms(2)] unfolding assms(3) by (rule trans[OF sym])

lemma dirOf_rootedPath:
  assumes "\<forall>x \<in> set segs. properSeg x" shows "dirOf (rootedPath segs) = rootedPath (butlast segs)"
proof -
  have b: "\<forall>x \<in> set (butlast segs). properSeg x" using assms by (meson in_set_butlastD)
  then have "''..'' \<notin> set (butlast segs)" by (auto simp: properSeg_def)
  then show ?thesis using filter_plain_proper[OF b]
    by (simp add: dirOf_def split_rooted[OF assms] cleanSegs_plain)
qed

section \<open>The walk to an existing ancestor\<close>

definition segsOf :: "string \<Rightarrow> string list" where
  "segsOf p = cleanSegs [] (splitOn CHR ''/'' p)"

lemma segsOf_proper: "\<forall>x \<in> set (segsOf p). properSeg x"
  unfolding segsOf_def by (rule cleanSegs_proper) (use splitOn_no_sep in auto)

lemma dirOf_segs: "\<exists>segs. dirOf p = rootedPath segs \<and> (\<forall>x \<in> set segs. properSeg x) \<and> length segs < length (splitOn CHR ''/'' p)"
proof -
  let ?ws = "butlast (splitOn CHR ''/'' p)"
  have "\<forall>x \<in> set (cleanSegs [] ?ws). properSeg x"
    using splitOn_no_sep by (intro cleanSegs_proper) (auto dest: in_set_butlastD)
  moreover have "length (cleanSegs [] ?ws) < length (splitOn CHR ''/'' p)"
  proof -
    have "length (cleanSegs [] ?ws) \<le> length (splitOn CHR ''/'' p) - 1" using length_cleanSegs[of "[]" ?ws] by simp
    moreover have "0 < length (splitOn CHR ''/'' p)" by (rule length_splitOn_pos)
    ultimately show ?thesis by linarith
  qed
  ultimately show ?thesis unfolding dirOf_def by blast
qed

text \<open>How far a path is from the root: a cleaned path has its segments before it, another one first
  becomes cleaned.\<close>

definition pathHeight :: "string \<Rightarrow> nat" where
  "pathHeight p = (if p = rootedPath (segsOf p) then length (segsOf p) else Suc (length (splitOn CHR ''/'' p)))"

lemma segsOf_rooted: "\<forall>x \<in> set segs. properSeg x \<Longrightarrow> segsOf (rootedPath segs) = segs"
  by (simp add: segsOf_def cleanSegs_plain filter_split_rooted)

lemma dirOf_height: "dirOf p \<noteq> p \<Longrightarrow> pathHeight (dirOf p) < pathHeight p"
proof -
  assume ne: "dirOf p \<noteq> p"
  show ?thesis
  proof (cases "p = rootedPath (segsOf p)")
    case True
    note proper = segsOf_proper[of p]
    have d: "dirOf p = rootedPath (butlast (segsOf p))" using dirOf_rootedPath[OF proper] True by simp
    have b: "\<forall>x \<in> set (butlast (segsOf p)). properSeg x" using proper by (meson in_set_butlastD)
    have "segsOf p \<noteq> []" using ne d True by (metis butlast.simps(1))
    then have "length (butlast (segsOf p)) < length (segsOf p)" by simp
    then show ?thesis using True d segsOf_rooted[OF b] by (simp add: pathHeight_def)
  next
    case False
    obtain segs where s: "dirOf p = rootedPath segs" "\<forall>x \<in> set segs. properSeg x" "length segs < length (splitOn CHR ''/'' p)"
      using dirOf_segs by blast
    then show ?thesis using False by (simp add: pathHeight_def segsOf_rooted)
  qed
qed

function existingAncestor :: "(string \<Rightarrow> bool) \<Rightarrow> string \<Rightarrow> string" where
  "existingAncestor lstat dir =
     (if lstat dir then dir
      else (let parent = dirOf dir in if parent = dir then dir else existingAncestor lstat parent))"
  by pat_completeness auto
termination
  by (relation "measure (\<lambda>(_, dir). pathHeight dir)") (auto simp: dirOf_height)

declare existingAncestor.simps [simp del]

section \<open>Permitted roots\<close>

record fsView =
  fv_lstat :: "string \<Rightarrow> bool"
  fv_isDir :: "string \<Rightarrow> bool option"
  fv_evalSymlinks :: "string \<Rightarrow> string option"
  fv_cwd :: string

definition isAbs :: "string \<Rightarrow> bool" where
  "isAbs p = hasPrefix p ''/''"

text \<open>\<open>normalizeRoots\<close>: None where a root is not absolute.\<close>

fun normalizeLoop :: "string list \<Rightarrow> string list \<Rightarrow> string list option" where
  "normalizeLoop [] out = Some out"
| "normalizeLoop (r # rs) out =
     (let t = trimSpace r
      in if t = [] then normalizeLoop rs out
         else if \<not> isAbs t then None
         else if cleanRooted t \<in> set out then normalizeLoop rs out
         else normalizeLoop rs (out @ [cleanRooted t]))"

definition normalizeRoots :: "string list \<Rightarrow> string list option" where
  "normalizeRoots roots = normalizeLoop roots []"

definition pathWithin :: "string \<Rightarrow> string \<Rightarrow> bool" where
  "pathWithin p rt = (p = rt \<or> hasPrefix p (rt @ ''/''))"

definition rootForms :: "fsView \<Rightarrow> string \<Rightarrow> string list" where
  "rootForms fv rt = (case fv_evalSymlinks fv rt of Some resolved \<Rightarrow> if resolved \<noteq> rt then [rt, resolved] else [rt] | None \<Rightarrow> [rt])"

definition containedInRoots :: "fsView \<Rightarrow> string \<Rightarrow> string list \<Rightarrow> bool" where
  "containedInRoots fv p roots = list_ex (\<lambda>rt. list_ex (pathWithin p) (rootForms fv rt)) roots"

text \<open>\<open>ensureLocalBasePathPermitted\<close> and \<open>ensureKubeconfigPermitted\<close>.\<close>

definition ensurePermitted :: "fsView \<Rightarrow> string list \<Rightarrow> string \<Rightarrow> bool" where
  "ensurePermitted fv roots p = (roots \<noteq> [] \<and> containedInRoots fv p roots)"

section \<open>The connector\<close>

datatype localErr = NoBasePath | NotPermitted | NotAccessible | NotADirectory | PathTraversal | InvalidKey | EscapesBase
  | LocalNotFound | LocalFailed | LocalLocked | LockMismatch

definition absPath :: "fsView \<Rightarrow> string \<Rightarrow> string" where
  "absPath fv p = (if isAbs p then cleanRooted p else joinPath (fv_cwd fv) p)"

definition newLocal :: "fsView \<Rightarrow> string list \<Rightarrow> string \<Rightarrow> localErr + string" where
  "newLocal fv roots bp =
     (if bp = [] then Inl NoBasePath
      else (let p = absPath fv bp
            in if \<not> ensurePermitted fv roots p then Inl NotPermitted
               else (case fv_isDir fv p of
                       None \<Rightarrow> Inl NotAccessible
                     | Some isDir \<Rightarrow>
                         if \<not> isDir then Inl NotADirectory
                         else (case fv_evalSymlinks fv p of
                                 None \<Rightarrow> Inl NotAccessible
                               | Some resolved \<Rightarrow> if ensurePermitted fv roots resolved then Inr resolved else Inl NotPermitted))))"

definition ensureWithinBase :: "fsView \<Rightarrow> string \<Rightarrow> string \<Rightarrow> localErr option" where
  "ensureWithinBase fv base full =
     (case fv_evalSymlinks fv (existingAncestor (fv_lstat fv) full) of
        None \<Rightarrow> Some InvalidKey
      | Some resolved \<Rightarrow> if resolved \<noteq> base \<and> \<not> hasPrefix resolved (base @ ''/'') then Some EscapesBase else None)"

definition resolveKey :: "fsView \<Rightarrow> string \<Rightarrow> string \<Rightarrow> localErr + string" where
  "resolveKey fv base key =
     (if ''..'' \<in> set (splitOn CHR ''/'' key) then Inl PathTraversal
      else (let full = joinPath base (cleanRooted (''/'' @ key))
            in if full \<noteq> base \<and> \<not> hasPrefix full (base @ ''/'') then Inl InvalidKey
               else (case ensureWithinBase fv base full of Some e \<Rightarrow> Inl e | None \<Rightarrow> Inr full)))"

type_synonym localFiles = "string gomap"





definition lockPath :: "fsView \<Rightarrow> string \<Rightarrow> string \<Rightarrow> localErr + string" where
  "lockPath fv base key = map_sum id (\<lambda>full. full @ ''.tsmlock'') (resolveKey fv base key)"

text \<open>Creation of the lock file is exclusive; writing the id into it may go wrong unnoticed, and leaves
  \<open>lw_text\<close> then.\<close>

record lockWrite =
  lw_id :: "string option"
  lw_openFails :: bool
  lw_text :: "string option"

definition hexEncode :: "string \<Rightarrow> string" where
  "hexEncode b = concat (map (\<lambda>c. map (\<lambda>n. ''0123456789abcdef'' ! n) [of_char c div 16, of_char c mod 16]) b)"

definition lockFile :: "lockWrite \<Rightarrow> string \<Rightarrow> localFiles \<Rightarrow> (localErr + string) \<times> localFiles" where
  "lockFile lw lp fs =
     (case lw_id lw of
        None \<Rightarrow> (Inl LocalFailed, fs)
      | Some drawn \<Rightarrow>
          (let lockID = hexEncode drawn
           in if oget lp fs \<noteq> None then (Inl LocalLocked, fs)
              else if lw_openFails lw then (Inl LocalFailed, fs)
              else (Inr lockID, oput lp (case lw_text lw of None \<Rightarrow> lockID | Some t \<Rightarrow> t) fs)))"

definition localLock :: "fsView \<Rightarrow> string \<Rightarrow> lockWrite \<Rightarrow> string \<Rightarrow> localFiles \<Rightarrow> (localErr + string) \<times> localFiles" where
  "localLock fv base lw key fs = (case lockPath fv base key of Inl e \<Rightarrow> (Inl e, fs) | Inr lp \<Rightarrow> lockFile lw lp fs)"

definition unlockFile :: "string \<Rightarrow> string \<Rightarrow> localFiles \<Rightarrow> localErr option \<times> localFiles" where
  "unlockFile lp lockID fs =
     (case oget lp fs of
        None \<Rightarrow> (None, fs)
      | Some d \<Rightarrow> if trimSpace d \<noteq> lockID then (Some LockMismatch, fs) else (None, odel lp fs))"

definition localUnlock :: "fsView \<Rightarrow> string \<Rightarrow> string \<Rightarrow> string \<Rightarrow> localFiles \<Rightarrow> localErr option \<times> localFiles" where
  "localUnlock fv base key lockID fs = (case lockPath fv base key of Inl e \<Rightarrow> (Some e, fs) | Inr lp \<Rightarrow> unlockFile lp lockID fs)"

section \<open>What a key resolves to\<close>

text \<open>C33: The walk ends, whatever exists: it answers the path itself or an ancestor, which exists or is the root,
  and nothing between it and the path exists.\<close>

theorem existing_ancestor_found:
  assumes "\<forall>x \<in> set segs. properSeg x"
  shows "\<exists>n \<le> length segs. existingAncestor lstat (rootedPath segs) = rootedPath (take n segs)
     \<and> (lstat (rootedPath (take n segs)) \<or> n = 0) \<and> (\<forall>m. n < m \<and> m \<le> length segs \<longrightarrow> \<not> lstat (rootedPath (take m segs)))"
  using assms
proof (induction segs rule: rev_induct)
  case Nil
  then show ?case by (simp add: existingAncestor.simps[of lstat "rootedPath []"] dirOf_rootedPath Let_def)
next
  case (snoc x xs)
  show ?case
  proof (cases "lstat (rootedPath (xs @ [x]))")
    case True
    then show ?thesis by (intro exI[of _ "Suc (length xs)"]) (auto simp: existingAncestor.simps[of lstat "rootedPath (xs @ [x])"])
  next
    case False
    have p: "\<forall>y \<in> set xs. properSeg y" using snoc.prems by simp
    have d: "dirOf (rootedPath (xs @ [x])) = rootedPath xs" using dirOf_rootedPath[OF snoc.prems] by simp
    have "rootedPath xs \<noteq> rootedPath (xs @ [x])" using rootedPath_inject[OF p snoc.prems] by auto
    with d False have e: "existingAncestor lstat (rootedPath (xs @ [x])) = existingAncestor lstat (rootedPath xs)"
      by (subst existingAncestor.simps) (simp add: Let_def)
    from snoc.IH[OF p] obtain n where n: "n \<le> length xs" "existingAncestor lstat (rootedPath xs) = rootedPath (take n xs)"
        "lstat (rootedPath (take n xs)) \<or> n = 0" "\<forall>m. n < m \<and> m \<le> length xs \<longrightarrow> \<not> lstat (rootedPath (take m xs))" by blast
    have "\<not> lstat (rootedPath (take m (xs @ [x])))" if "n < m" "m \<le> Suc (length xs)" for m
      using n(4) that False by (cases "m = Suc (length xs)") auto
    then show ?thesis using n e by (intro exI[of _ n]) auto
  qed
qed








section \<open>Confinement\<close>





section \<open>Lock files are a lock service\<close>

lemma hexEncode_no_space: "c \<in> set (hexEncode b) \<Longrightarrow> \<not> isSpace c"
proof -
  assume "c \<in> set (hexEncode b)"
  then obtain x n where n: "c = ''0123456789abcdef'' ! n" "n = of_char x div 16 \<or> n = of_char x mod (16 :: nat)" by (auto simp: hexEncode_def)
  have "of_char x div 16 < (16 :: nat)" using nat_of_char_less_256[of x] by (intro less_mult_imp_div_less) simp
  then have "n < 16" using n(2) by auto
  then have "c \<in> set ''0123456789abcdef''" unfolding n(1) by (intro nth_mem) simp
  then show "\<not> isSpace c" by (auto simp: isSpace_def)
qed

lemma trimSpace_hexEncode [simp]: "trimSpace (hexEncode b) = hexEncode b"
  using hexEncode_no_space hd_in_set last_in_set by (intro trimSpace_id) blast

text \<open>Over the lock file a key resolves to, where the id is written as it was drawn.\<close>

definition acquireFile :: "lockWrite \<Rightarrow> string \<Rightarrow> localFiles \<Rightarrow> (localErr + string \<times> string) \<times> localFiles" where
  "acquireFile lw lp fs = (case lockFile (lw\<lparr>lw_text := None\<rparr>) lp fs of (Inl e, fs') \<Rightarrow> (Inl e, fs') | (Inr i, fs') \<Rightarrow> (Inr (lp, i), fs'))"

definition releaseFile :: "string \<times> string \<Rightarrow> localFiles \<Rightarrow> localFiles" where
  "releaseFile h fs = snd (unlockFile (fst h) (snd h) fs)"

lemma acquireFile_granted:
  "acquireFile lw lp fs = (Inr h, fs') \<Longrightarrow> \<exists>b. h = (lp, hexEncode b) \<and> oget lp fs = None \<and> fs' = oput lp (hexEncode b) fs"
  by (auto simp: acquireFile_def lockFile_def Let_def split: option.splits if_splits)

lemma acquireFile_refused: "acquireFile lw lp fs = (Inl e, fs') \<Longrightarrow> fs' = fs"
  by (auto simp: acquireFile_def lockFile_def Let_def split: option.splits if_splits)

interpretation localLocks: lock_service acquireFile releaseFile "\<lambda>fs lp. oget lp fs" None "\<lambda>_. True"
proof unfold_locales
  fix env k k' and s s' t :: localFiles and x h e
  show "oget k' s' = oget k' s" if "acquireFile env k s = (x, s')" "k' \<noteq> k"
    using that acquireFile_granted acquireFile_refused by (cases x) fastforce+
  show "oget k s' \<noteq> None" if "acquireFile env k s = (Inr h, s')" using acquireFile_granted[OF that] by auto
  show "oget k s' = oget k s \<or> oget k s' = None" if "acquireFile env k s = (Inl e, s')" using acquireFile_refused[OF that] by simp
  show "oget k (releaseFile h t) = None" if "acquireFile env k s = (Inr h, s')" "oget k t = oget k s'"
    using acquireFile_granted[OF that(1)] that(2) by (auto simp: releaseFile_def unlockFile_def)
  show "oget k' (releaseFile h t) = oget k' t" if "acquireFile env k s = (Inr h, s')" "k' \<noteq> k"
    using acquireFile_granted[OF that(1)] that(2) by (auto simp: releaseFile_def unlockFile_def split: option.splits)
qed auto

text \<open>A key is locked and unlocked, and meanwhile refused to everybody else; the files are as before.\<close>

lemma local_lock_brackets:
  assumes "acquireFile env lp fs = (Inr h, fs1)"
  shows "\<exists>e. acquireFile env2 lp fs1 = (Inl e, fs1)" "oget p (releaseFile h fs1) = (if p = lp then None else oget p fs)"
proof -
  show "\<exists>e. acquireFile env2 lp fs1 = (Inl e, fs1)"
    using localLocks.acq_granted[OF assms] by (auto simp: acquireFile_def lockFile_def Let_def split: option.splits)
  show "oget p (releaseFile h fs1) = (if p = lp then None else oget p fs)"
    by (rule localLocks.bracket[OF assms]) simp
qed

section \<open>The base directory is permitted\<close>

lemma newLocal_permitted:
  assumes "newLocal fv roots bp = Inr base"
  shows "list_ex (\<lambda>rt. list_ex (pathWithin (absPath fv bp)) (rootForms fv rt)) roots"
    "list_ex (\<lambda>rt. list_ex (pathWithin base) (rootForms fv rt)) roots"
    "fv_evalSymlinks fv (absPath fv bp) = Some base" "fv_isDir fv (absPath fv bp) = Some True"
  using assms by (auto simp: newLocal_def ensurePermitted_def containedInRoots_def Let_def split: if_splits option.splits)

section \<open>Concrete directories\<close>

definition sampleView :: fsView where
  "sampleView = \<lparr>fv_lstat = (\<lambda>p. p \<in> {''/'', ''/data'', ''/data/states''}), fv_isDir = (\<lambda>p. Some True), fv_evalSymlinks = Some, fv_cwd = ''/''\<rparr>"



theorem existing_ancestor_found_witness:
  "existingAncestor (fv_lstat sampleView) ''/data/states/prod/net'' = ''/data/states''
   \<and> (\<exists>n \<le> 4. existingAncestor (fv_lstat sampleView) (rootedPath [''data'', ''states'', ''prod'', ''net'']) = rootedPath (take n [''data'', ''states'', ''prod'', ''net'']))"
proof
  show "existingAncestor (fv_lstat sampleView) ''/data/states/prod/net'' = ''/data/states''" by code_simp
  have "\<forall>x \<in> set [''data'', ''states'', ''prod'', ''net'']. properSeg x" by (simp add: properSeg_def)
  from existing_ancestor_found[OF this, of "fv_lstat sampleView"]
  show "\<exists>n \<le> 4. existingAncestor (fv_lstat sampleView) (rootedPath [''data'', ''states'', ''prod'', ''net'']) = rootedPath (take n [''data'', ''states'', ''prod'', ''net''])"
    by (elim exE conjE) (intro exI conjI, simp_all)
qed




text \<open>A key that cleans to nothing is the base directory itself; its lock file lies beside the base, outside
  what the operator permitted.\<close>

lemma dot_key_locks_outside:
  "localLock sampleView ''/data/states'' \<lparr>lw_id = Some ''A'', lw_openFails = False, lw_text = None\<rparr> ''.'' [] = (Inr ''41'', [(''/data/states.tsmlock'', ''41'')])
   \<and> \<not> hasPrefix ''/data/states.tsmlock'' ''/data/states/''"
  by code_simp

text \<open>A lock whose id did not reach its file is granted, cannot be released, and refuses everybody after that.\<close>

lemma unwritten_lock_is_stuck:
  "let lw = \<lparr>lw_id = Some ''A'', lw_openFails = False, lw_text = Some []\<rparr>
   in case localLock sampleView ''/data/states'' lw ''k'' [] of (Inr i, fs) \<Rightarrow>
        localUnlock sampleView ''/data/states'' ''k'' i fs = (Some LockMismatch, fs)
        \<and> localLock sampleView ''/data/states'' lw ''k'' fs = (Inl LocalLocked, fs) | _ \<Rightarrow> False"
  by code_simp
end
