(* ===== verification/Freshness.thy ===== *)
theory Freshness
  imports DriftCallback
begin

text \<open>
  \<open>internal/version/semver.go\<close> and \<open>api/module_freshness.go\<close>: whether the module versions a state was planned
  with are behind what the sibling registry publishes.

  The semantic-version library decides validity and order of texts that begin with v; what a registry
  answers for a module, None for every failure, and the canonical form of a host are parameters.
\<close>

section \<open>Versions\<close>

record semverLib =
  sl_IsValid :: "string \<Rightarrow> bool"
  sl_Compare :: "string \<Rightarrow> string \<Rightarrow> int"

definition normalizeVersion :: "semverLib \<Rightarrow> string \<Rightarrow> string option" where
  "normalizeVersion lib v =
     (if v = [] then None
      else (let w = (if hd v \<noteq> CHR ''v'' then CHR ''v'' # v else v) in if sl_IsValid lib w then Some w else None))"

definition versionIsValid :: "semverLib \<Rightarrow> string \<Rightarrow> bool" where
  "versionIsValid lib v = (normalizeVersion lib v \<noteq> None)"

definition compareVersions :: "semverLib \<Rightarrow> string \<Rightarrow> string \<Rightarrow> int" where
  "compareVersions lib a b =
     (case (normalizeVersion lib a, normalizeVersion lib b) of
        (None, None) \<Rightarrow> 0
      | (None, Some _) \<Rightarrow> - 1
      | (Some _, None) \<Rightarrow> 1
      | (Some na, Some nb) \<Rightarrow> sl_Compare lib na nb)"

text \<open>What is used of the library: it orders the valid texts.\<close>

definition semverLaws :: "semverLib \<Rightarrow> bool" where
  "semverLaws lib \<longleftrightarrow>
     (\<forall>a b. sl_IsValid lib a \<longrightarrow> sl_IsValid lib b \<longrightarrow> sl_Compare lib a b = - sl_Compare lib b a)
     \<and> (\<forall>a b c. sl_IsValid lib a \<longrightarrow> sl_IsValid lib b \<longrightarrow> sl_IsValid lib c \<longrightarrow>
          sl_Compare lib a b \<le> 0 \<longrightarrow> sl_Compare lib b c \<le> 0 \<longrightarrow> sl_Compare lib a c \<le> 0)"

section \<open>Freshness\<close>

record publishedVersion =
  pv_Version :: string
  pv_Deprecated :: bool

definition latestStep :: "semverLib \<Rightarrow> publishedVersion \<Rightarrow> string \<Rightarrow> string" where
  "latestStep lib v latest =
     (if pv_Deprecated v \<or> \<not> versionIsValid lib (pv_Version v) then latest
      else if latest = [] \<or> 0 < compareVersions lib (pv_Version v) latest then pv_Version v else latest)"

text \<open>\<open>latestRegistryVersion\<close>: the answer is a list of modules with their versions.\<close>

definition latestRegistryVersion :: "semverLib \<Rightarrow> publishedVersion list list option \<Rightarrow> string option" where
  "latestRegistryVersion lib body =
     (case body of
        None \<Rightarrow> None
      | Some modules \<Rightarrow> (case fold (latestStep lib) (concat modules) [] of [] \<Rightarrow> None | v \<Rightarrow> Some v))"

datatype freshnessStatus = NoRegistry | ConstraintOnly | UnknownVersion | UpToDate | Behind

record moduleFreshness =
  fr_ModuleSource :: string
  fr_RegistryHost :: string
  fr_Current :: "string option"
  fr_Latest :: "string option"
  fr_Status :: freshnessStatus

record registryEnv =
  rg_semver :: semverLib
  rg_canonicalHost :: "string \<Rightarrow> string"
  rg_fetch :: "string \<Rightarrow> publishedVersion list list option"
  rg_siblingURL :: string
  rg_siblingHost :: string

definition rated :: "semverLib \<Rightarrow> stateModuleRef \<Rightarrow> string \<Rightarrow> string option \<Rightarrow> moduleFreshness" where
  "rated lib ref current latest =
     \<lparr>fr_ModuleSource = mf_ModuleSource ref, fr_RegistryHost = mf_RegistryHost ref, fr_Current = Some current, fr_Latest = latest,
      fr_Status = (case latest of None \<Rightarrow> UnknownVersion | Some l \<Rightarrow> if 0 \<le> compareVersions lib current l then UpToDate else Behind)\<rparr>"

definition unrated :: "stateModuleRef \<Rightarrow> freshnessStatus \<Rightarrow> moduleFreshness" where
  "unrated ref st = \<lparr>fr_ModuleSource = mf_ModuleSource ref, fr_RegistryHost = mf_RegistryHost ref, fr_Current = mf_ModuleVersion ref, fr_Latest = None, fr_Status = st\<rparr>"

text \<open>\<open>computeFreshness\<close>, with the versions already fetched for this request.\<close>

fun freshnessLoop :: "registryEnv \<Rightarrow> string option gomap \<Rightarrow> stateModuleRef list \<Rightarrow> moduleFreshness list" where
  "freshnessLoop rg cache [] = []"
| "freshnessLoop rg cache (ref # refs) =
     (if rg_siblingURL rg = [] \<or> rg_siblingHost rg = [] \<or> rg_canonicalHost rg (mf_RegistryHost ref) \<noteq> rg_siblingHost rg
      then unrated ref NoRegistry # freshnessLoop rg cache refs
      else (case mf_ModuleVersion ref of
              None \<Rightarrow> unrated ref ConstraintOnly # freshnessLoop rg cache refs
            | Some current \<Rightarrow>
                (case oget (mf_ModuleSource ref) cache of
                   Some latest \<Rightarrow> rated (rg_semver rg) ref current latest # freshnessLoop rg cache refs
                 | None \<Rightarrow>
                     (let latest = latestRegistryVersion (rg_semver rg) (rg_fetch rg (mf_ModuleSource ref))
                      in rated (rg_semver rg) ref current latest # freshnessLoop rg (oput (mf_ModuleSource ref) latest cache) refs))))"

definition computeFreshness :: "registryEnv \<Rightarrow> stateModuleRef list \<Rightarrow> moduleFreshness list" where
  "computeFreshness rg refs = freshnessLoop rg [] refs"

section \<open>The latest version\<close>

abbreviation offered :: "semverLib \<Rightarrow> publishedVersion \<Rightarrow> bool" where
  "offered lib v \<equiv> \<not> pv_Deprecated v \<and> versionIsValid lib (pv_Version v)"

lemma valid_normal: "versionIsValid lib a \<Longrightarrow> \<exists>na. normalizeVersion lib a = Some na \<and> sl_IsValid lib na"
  by (auto simp: versionIsValid_def normalizeVersion_def Let_def split: if_splits)

lemma valid_nonempty: "versionIsValid lib a \<Longrightarrow> a \<noteq> []"
  by (auto simp: versionIsValid_def normalizeVersion_def)

lemma compare_anti:
  assumes "semverLaws lib" shows "compareVersions lib a b = - compareVersions lib b a"
proof (cases "normalizeVersion lib a = None \<or> normalizeVersion lib b = None")
  case False
  then obtain na nb where n: "normalizeVersion lib a = Some na" "normalizeVersion lib b = Some nb"
    by (cases "normalizeVersion lib a"; cases "normalizeVersion lib b") auto
  then have v: "sl_IsValid lib na" "sl_IsValid lib nb" by (auto simp: normalizeVersion_def Let_def split: if_splits)
  have "sl_Compare lib na nb = - sl_Compare lib nb na" using assms v unfolding semverLaws_def by blast
  with n show ?thesis by (simp add: compareVersions_def)
qed (auto simp: compareVersions_def split: option.splits)

lemma compare_refl: "semverLaws lib \<Longrightarrow> compareVersions lib a a = 0"
  using compare_anti[of lib a a] by simp

lemma compare_trans:
  assumes "semverLaws lib" "versionIsValid lib a" "versionIsValid lib b" "versionIsValid lib c"
    and "compareVersions lib a b \<le> 0" "compareVersions lib b c \<le> 0"
  shows "compareVersions lib a c \<le> 0"
proof -
  obtain na nb nc where n: "normalizeVersion lib a = Some na" "sl_IsValid lib na" "normalizeVersion lib b = Some nb" "sl_IsValid lib nb"
      "normalizeVersion lib c = Some nc" "sl_IsValid lib nc"
    using valid_normal[OF assms(2)] valid_normal[OF assms(3)] valid_normal[OF assms(4)] by blast
  have t: "sl_Compare lib na nb \<le> 0 \<Longrightarrow> sl_Compare lib nb nc \<le> 0 \<Longrightarrow> sl_Compare lib na nc \<le> 0"
    using assms(1) n(2,4,6) unfolding semverLaws_def by blast
  show ?thesis using t assms(5,6) n by (simp add: compareVersions_def)
qed

text \<open>The running maximum: nothing offered yet, or an offered version no offered one is above.\<close>

definition greatestOf :: "semverLib \<Rightarrow> publishedVersion list \<Rightarrow> string \<Rightarrow> bool" where
  "greatestOf lib vs l \<longleftrightarrow>
     (\<exists>v \<in> set vs. offered lib v \<and> pv_Version v = l) \<and> (\<forall>v \<in> set vs. offered lib v \<longrightarrow> compareVersions lib (pv_Version v) l \<le> 0)"

lemma latest_fold:
  assumes "semverLaws lib"
  shows "if \<exists>v \<in> set vs. offered lib v then greatestOf lib vs (fold (latestStep lib) vs []) else fold (latestStep lib) vs [] = []"
proof (induction vs rule: rev_induct)
  case (snoc v vs)
  let ?l = "fold (latestStep lib) vs []"
  have e: "fold (latestStep lib) (vs @ [v]) [] = latestStep lib v ?l" by simp
  show ?case
  proof (cases "offered lib v")
    case False
    then have s: "latestStep lib v ?l = ?l" by (simp add: latestStep_def)
    show ?thesis using snoc.IH False unfolding e s by (auto simp: greatestOf_def split: if_splits)
  next
    case v: True
    show ?thesis
    proof (cases "\<exists>v \<in> set vs. offered lib v")
      case False
      then have "?l = []" using snoc.IH by simp
      then have "latestStep lib v ?l = pv_Version v" using v by (simp add: latestStep_def)
      then show ?thesis using v False unfolding e by (auto simp: greatestOf_def compare_refl[OF assms])
    next
      case True
      then have g: "greatestOf lib vs ?l" using snoc.IH by simp
      then obtain u where u: "u \<in> set vs" "offered lib u" "pv_Version u = ?l" by (auto simp: greatestOf_def)
      then have l: "?l \<noteq> []" "versionIsValid lib ?l" using valid_nonempty by metis+
      show ?thesis
      proof (cases "0 < compareVersions lib (pv_Version v) ?l")
        case True
        then have n: "compareVersions lib ?l (pv_Version v) \<le> 0" using compare_anti[OF assms, of ?l "pv_Version v"] by simp
        have s: "latestStep lib v ?l = pv_Version v" using True v l by (simp add: latestStep_def)
        have "compareVersions lib (pv_Version w) (pv_Version v) \<le> 0" if "w \<in> set vs" "offered lib w" for w
          using compare_trans[OF assms _ l(2) _ _ n, of "pv_Version w"] that g v by (auto simp: greatestOf_def)
        then show ?thesis using v unfolding e s by (auto simp: greatestOf_def compare_refl[OF assms])
      next
        case False
        then have s: "latestStep lib v ?l = ?l" using v l by (simp add: latestStep_def)
        show ?thesis using False g v unfolding e s by (auto simp: greatestOf_def)
      qed
    qed
  qed
qed simp

text \<open>The version a module is compared with is the greatest the registry offers: of all versions of all
  modules in its answer that are valid and not deprecated, one that no other is above, and none
  where there is no such version or no answer.\<close>

theorem latest_is_greatest:
  assumes "semverLaws lib"
  shows "case latestRegistryVersion lib body of
      None \<Rightarrow> \<forall>modules. body = Some modules \<longrightarrow> (\<forall>v \<in> set (concat modules). \<not> offered lib v)
    | Some l \<Rightarrow> \<exists>modules. body = Some modules \<and> (\<exists>v \<in> set (concat modules). offered lib v \<and> pv_Version v = l)
        \<and> (\<forall>v \<in> set (concat modules). offered lib v \<longrightarrow> compareVersions lib (pv_Version v) l \<le> 0)"
proof (cases body)
  case (Some modules)
  let ?vs = "concat modules" and ?l = "fold (latestStep lib) (concat modules) []"
  note f = latest_fold[OF assms, of ?vs]
  have r: "latestRegistryVersion lib body = (if ?l = [] then None else Some ?l)"
    using Some by (cases ?l) (simp_all add: latestRegistryVersion_def)
  show ?thesis
  proof (cases "\<exists>v \<in> set ?vs. offered lib v")
    case True
    then have g: "greatestOf lib ?vs ?l" using f by simp
    then have "?l \<noteq> []" using valid_nonempty unfolding greatestOf_def by metis
    then show ?thesis using g Some unfolding r greatestOf_def by simp
  next
    case False
    then have "?l = []" using f by simp
    then show ?thesis using False Some unfolding r by simp
  qed
qed (simp add: latestRegistryVersion_def)

section \<open>Every module is rated on its own\<close>

definition freshnessOf :: "registryEnv \<Rightarrow> stateModuleRef \<Rightarrow> moduleFreshness" where
  "freshnessOf rg ref =
     (if rg_siblingURL rg = [] \<or> rg_siblingHost rg = [] \<or> rg_canonicalHost rg (mf_RegistryHost ref) \<noteq> rg_siblingHost rg
      then unrated ref NoRegistry
      else (case mf_ModuleVersion ref of
              None \<Rightarrow> unrated ref ConstraintOnly
            | Some current \<Rightarrow> rated (rg_semver rg) ref current (latestRegistryVersion (rg_semver rg) (rg_fetch rg (mf_ModuleSource ref)))))"

lemma freshnessLoop_map:
  assumes "\<forall>m l. oget m cache = Some l \<longrightarrow> l = latestRegistryVersion (rg_semver rg) (rg_fetch rg m)"
  shows "freshnessLoop rg cache refs = map (freshnessOf rg) refs"
  using assms
proof (induction refs arbitrary: cache)
  case (Cons ref refs)
  let ?c = "oput (mf_ModuleSource ref) (latestRegistryVersion (rg_semver rg) (rg_fetch rg (mf_ModuleSource ref))) cache"
  have "\<forall>m l. oget m ?c = Some l \<longrightarrow> l = latestRegistryVersion (rg_semver rg) (rg_fetch rg m)" using Cons.prems by auto
  from Cons.IH[OF this] Cons.IH[OF Cons.prems] Cons.prems show ?case
    by (auto simp: freshnessOf_def Let_def split: option.splits)
qed simp

lemma computeFreshness_map: "computeFreshness rg refs = map (freshnessOf rg) refs"
  unfolding computeFreshness_def by (rule freshnessLoop_map) (simp add: oget_def)

section \<open>Concrete versions\<close>

definition sampleSemver :: semverLib where
  "sampleSemver = \<lparr>sl_IsValid = (\<lambda>v. length v = 2), sl_Compare = (\<lambda>a b. int (of_char (last a)) - int (of_char (last b)))\<rparr>"

lemma sampleSemver_laws: "semverLaws sampleSemver"
  by (auto simp: semverLaws_def sampleSemver_def)

theorem latest_is_greatest_witness:
  "let body = Some [[\<lparr>pv_Version = ''v9'', pv_Deprecated = True\<rparr>, \<lparr>pv_Version = ''3'', pv_Deprecated = False\<rparr>], [\<lparr>pv_Version = ''v7'', pv_Deprecated = False\<rparr>]]
   in latestRegistryVersion sampleSemver body = Some ''v7'' \<and> compareVersions sampleSemver ''3'' ''v7'' \<le> 0"
proof -
  let ?body = "Some [[\<lparr>pv_Version = ''v9'', pv_Deprecated = True\<rparr>, \<lparr>pv_Version = ''3'', pv_Deprecated = False\<rparr>], [\<lparr>pv_Version = ''v7'', pv_Deprecated = False\<rparr>]]"
  have "latestRegistryVersion sampleSemver ?body = Some ''v7''" "versionIsValid sampleSemver ''3''" by code_simp+
  with latest_is_greatest[OF sampleSemver_laws, of ?body] show ?thesis by (auto simp: Let_def)
qed
end
