(* ===== verification/CredSweep.thy ===== *)
theory CredSweep
  imports ApiKeys
begin

text \<open>
  What happens to credentials when authority is withdrawn: \<open>internal/credlifecycle\<close> and
  \<open>user_token_revocation_repository.go\<close>.

  Sessions die by a watermark per user, keys by their rows. The table of watermarks is this
  application's; the keys are those of \<open>ApiKeys\<close>, the retained authority is read from the role store as
  it is when the sweep runs. Instants are microseconds; a token's \<open>iat\<close> is the second it was issued in,
  never after the instant of issue.
\<close>

section \<open>Watermarks\<close>

definition revokeAllUserTokens :: "bool \<Rightarrow> int \<Rightarrow> string \<Rightarrow> int gomap \<Rightarrow> bool \<times> int gomap" where
  "revokeAllUserTokens fails now user ws = (if fails then (False, ws) else (True, oput user now ws))"

definition revokeAllUserTokensFor :: "bool \<Rightarrow> int \<Rightarrow> string list \<Rightarrow> int gomap \<Rightarrow> nat option \<times> int gomap" where
  "revokeAllUserTokensFor fails now users ws =
     (if users = [] then (Some 0, ws)
      else if fails then (None, ws)
      else (Some (length (remdups users)), fold (\<lambda>u. oput u now) (remdups users) ws))"

definition tokensRevokedSince :: "int gomap \<Rightarrow> string \<Rightarrow> int \<Rightarrow> bool" where
  "tokensRevokedSince ws user issuedAt = (case oget user ws of None \<Rightarrow> False | Some w \<Rightarrow> issuedAt < w)"

definition cleanupExpiredWatermarks :: "int \<Rightarrow> int \<Rightarrow> int gomap \<Rightarrow> int gomap" where
  "cleanupExpiredWatermarks now maxTokenTTL ws = filter (\<lambda>p. \<not> snd p < now - maxTokenTTL) ws"

section \<open>The sweeper\<close>

definition authorityRetained :: "idAuthLib \<Rightarrow> string list \<Rightarrow> string list \<Rightarrow> bool" where
  "authorityRetained lib have retained = list_all (hasScope lib retained) have"

text \<open>The platform-admin carrier: an answer, no carrier in this deployment, or a failure.\<close>

datatype adminAnswer = AdminIs bool | AdminsNotConfigured | AdminsFailed

record 'k sweeper =
  sw_lib :: idAuthLib
  sw_tokens :: "bool option"
  sw_keys :: "'k keyLib option"
  sw_revokeForUser :: "string \<Rightarrow> 'k \<Rightarrow> nat option \<times> 'k"
  sw_orgs :: "memberReads option"
  sw_admins :: "string \<Rightarrow> adminAnswer"

text \<open>\<open>NewSweeper\<close>: with nothing to sweep there is no sweeper, and a nil sweeper does nothing.\<close>

definition newSweeper :: "'k sweeper \<Rightarrow> 'k sweeper option" where
  "newSweeper sw = (if sw_tokens sw = None \<and> sw_keys sw = None then None else Some sw)"

record sweepOutcome =
  oc_TokensRevoked :: bool
  oc_KeysRevoked :: nat
  oc_KeysRetained :: nat
  oc_Incomplete :: bool

definition nothingSwept :: sweepOutcome where
  "nothingSwept = \<lparr>oc_TokensRevoked = False, oc_KeysRevoked = 0, oc_KeysRetained = 0, oc_Incomplete = False\<rparr>"

record 'k credentialStore =
  cs_Watermarks :: "int gomap"
  cs_Keys :: 'k

definition revokeTokens :: "'k sweeper \<Rightarrow> int \<Rightarrow> string \<Rightarrow> 'k credentialStore \<Rightarrow> sweepOutcome \<times> 'k credentialStore" where
  "revokeTokens sw now user cs =
     (case sw_tokens sw of
        None \<Rightarrow> (nothingSwept, cs)
      | Some fails \<Rightarrow>
          (case revokeAllUserTokens fails now user (cs_Watermarks cs) of
             (ok, ws) \<Rightarrow> (if ok then nothingSwept\<lparr>oc_TokensRevoked := True\<rparr> else nothingSwept\<lparr>oc_Incomplete := True\<rparr>,
                          cs\<lparr>cs_Watermarks := ws\<rparr>)))"

text \<open>The authority a user retains, None where it is not known.\<close>

definition retainedScopes :: "'k sweeper \<Rightarrow> string \<Rightarrow> string list option" where
  "retainedScopes sw user =
     (case sw_orgs sw of
        None \<Rightarrow> None
      | Some mr \<Rightarrow>
          (case liveScopes mr user of
             Inl _ \<Rightarrow> None
           | Inr retained \<Rightarrow>
               (case sw_admins sw user of
                  AdminIs b \<Rightarrow> Some (if b then retained @ [''admin''] else retained)
                | AdminsNotConfigured \<Rightarrow> Some retained
                | AdminsFailed \<Rightarrow> None)))"

text \<open>One key of the list, and the loop over them. A key already gone is neither revoked nor a failure.\<close>

definition sweepKey :: "idAuthLib \<Rightarrow> 'k keyLib \<Rightarrow> string list \<Rightarrow> apiKey \<Rightarrow> sweepOutcome \<times> 'k \<Rightarrow> sweepOutcome \<times> 'k" where
  "sweepKey lib L retained k os =
     (case os of
        (out, s) \<Rightarrow>
          if authorityRetained lib (ak_Scopes k) retained then (out\<lparr>oc_KeysRetained := Suc (oc_KeysRetained out)\<rparr>, s)
          else (case kl_RevokeAPIKey L (ak_ID k) s of
                  (Some KeyRowNotFound, s') \<Rightarrow> (out, s')
                | (Some KeyStatementFailed, s') \<Rightarrow> (out\<lparr>oc_Incomplete := True\<rparr>, s')
                | (None, s') \<Rightarrow> (out\<lparr>oc_KeysRevoked := Suc (oc_KeysRevoked out)\<rparr>, s')))"

definition revokeOverAskingKeys :: "'k sweeper \<Rightarrow> string \<Rightarrow> 'k credentialStore \<Rightarrow> sweepOutcome \<times> 'k credentialStore" where
  "revokeOverAskingKeys sw user cs =
     (case sw_keys sw of
        None \<Rightarrow> (nothingSwept, cs)
      | Some L \<Rightarrow>
          (case retainedScopes sw user of
             None \<Rightarrow> (nothingSwept\<lparr>oc_Incomplete := True\<rparr>, cs)
           | Some retained \<Rightarrow>
               (case kl_ListAPIKeysByUser L user (cs_Keys cs) of
                  None \<Rightarrow> (nothingSwept\<lparr>oc_Incomplete := True\<rparr>, cs)
                | Some ks \<Rightarrow>
                    (case fold (sweepKey (sw_lib sw) L retained) ks (nothingSwept, cs_Keys cs) of
                       (out, s) \<Rightarrow> (out, cs\<lparr>cs_Keys := s\<rparr>)))))"

definition authorityReduced :: "'k sweeper option \<Rightarrow> int \<Rightarrow> string \<Rightarrow> 'k credentialStore \<Rightarrow> sweepOutcome \<times> 'k credentialStore" where
  "authorityReduced creds now user cs =
     (case creds of
        None \<Rightarrow> (nothingSwept, cs)
      | Some sw \<Rightarrow>
          (case revokeTokens sw now user cs of
             (out, cs1) \<Rightarrow>
               (case revokeOverAskingKeys sw user cs1 of
                  (keyOut, cs2) \<Rightarrow>
                    (out\<lparr>oc_KeysRevoked := oc_KeysRevoked keyOut, oc_KeysRetained := oc_KeysRetained keyOut,
                         oc_Incomplete := oc_Incomplete out \<or> oc_Incomplete keyOut\<rparr>, cs2))))"

definition keysOnly :: "'k sweeper option \<Rightarrow> string \<Rightarrow> 'k credentialStore \<Rightarrow> sweepOutcome \<times> 'k credentialStore" where
  "keysOnly creds user cs = (case creds of None \<Rightarrow> (nothingSwept, cs) | Some sw \<Rightarrow> revokeOverAskingKeys sw user cs)"

definition userDeprovisioned :: "'k sweeper option \<Rightarrow> int \<Rightarrow> string \<Rightarrow> 'k credentialStore \<Rightarrow> sweepOutcome \<times> 'k credentialStore" where
  "userDeprovisioned creds now user cs =
     (case creds of
        None \<Rightarrow> (nothingSwept, cs)
      | Some sw \<Rightarrow>
          (case revokeTokens sw now user cs of
             (out, cs1) \<Rightarrow>
               if sw_keys sw = None then (out, cs1)
               else (case sw_revokeForUser sw user (cs_Keys cs1) of
                       (None, s) \<Rightarrow> (out\<lparr>oc_Incomplete := True\<rparr>, cs1\<lparr>cs_Keys := s\<rparr>)
                     | (Some n, s) \<Rightarrow> (out\<lparr>oc_KeysRevoked := n\<rparr>, cs1\<lparr>cs_Keys := s\<rparr>))))"

text \<open>What is used of the keys here: a listing by user has that user's rows and no others, a revocation
  that finds no row means there is none, and the bulk revocation takes away the user's rows.\<close>

definition sweepLaws :: "'k keyLib \<Rightarrow> (string \<Rightarrow> 'k \<Rightarrow> nat option \<times> 'k) \<Rightarrow> bool" where
  "sweepLaws L revokeForUser \<longleftrightarrow> keyReadLaws L \<and> revokeLaw L
     \<and> (\<forall>u ks k s. kl_ListAPIKeysByUser L u s = Some ks \<longrightarrow> (k \<in> set ks) = (kl_row L (ak_ID k) s = Some k \<and> ak_UserID k = Some u))
     \<and> (\<forall>i s s'. kl_RevokeAPIKey L i s = (Some KeyRowNotFound, s') \<longrightarrow> kl_row L i s = None)
     \<and> (\<forall>u s. case revokeForUser u s of
          (None, s') \<Rightarrow> \<forall>i. kl_row L i s' = kl_row L i s
        | (Some n, s') \<Rightarrow> \<forall>i. kl_row L i s' = (case kl_row L i s of None \<Rightarrow> None | Some k \<Rightarrow> if ak_UserID k = Some u then None else Some k))"

lemma sweepLaws_rows:
  assumes "sweepLaws L rf"
  shows "kl_row L i s = Some k \<Longrightarrow> ak_ID k = i"
    and "kl_ListAPIKeysByUser L u s = Some ks \<Longrightarrow> (k \<in> set ks) = (kl_row L (ak_ID k) s = Some k \<and> ak_UserID k = Some u)"
    and "kl_RevokeAPIKey L i s = (Some KeyRowNotFound, s') \<Longrightarrow> kl_row L i s = None"
  using assms unfolding sweepLaws_def keyReadLaws_def by blast+

lemma sweepLaws_revoke:
  assumes "sweepLaws L rf" "kl_RevokeAPIKey L j s = (e, s')"
  shows "kl_row L i s' = (if e = None \<and> i = j then None else kl_row L i s)"
proof -
  have "revokeLaw L" using assms(1) unfolding sweepLaws_def by (elim conjE)
  from this[unfolded revokeLaw_def, THEN spec[of _ j], THEN spec[of _ s]] assms(2) show ?thesis by (cases e) simp_all
qed

lemma sweepLaws_bulk:
  assumes "sweepLaws L rf" "rf u s = (Some n, s')"
  shows "kl_row L i s' = (case kl_row L i s of None \<Rightarrow> None | Some k \<Rightarrow> if ak_UserID k = Some u then None else Some k)"
proof -
  have "\<forall>u s. case rf u s of
          (None, s') \<Rightarrow> \<forall>i. kl_row L i s' = kl_row L i s
        | (Some n, s') \<Rightarrow> \<forall>i. kl_row L i s' = (case kl_row L i s of None \<Rightarrow> None | Some k \<Rightarrow> if ak_UserID k = Some u then None else Some k)"
    using assms(1) unfolding sweepLaws_def by (elim conjE)
  from this[THEN spec[of _ u], THEN spec[of _ s]] assms(2) show ?thesis by simp
qed

section \<open>Sessions that ended stay ended\<close>

text \<open>What may happen to the watermarks while tokens of lifetime \<open>ttl\<close> are about: time passes, other
  revocations come, and the cleanup runs with a lifetime that is not shorter.\<close>

inductive watermarkStep :: "int \<Rightarrow> int \<times> int gomap \<Rightarrow> int \<times> int gomap \<Rightarrow> bool" where
  later: "now \<le> now' \<Longrightarrow> watermarkStep ttl (now, ws) (now', ws)"
| revoked: "revokeAllUserTokens fails now user ws = (ok, ws') \<Longrightarrow> watermarkStep ttl (now, ws) (now, ws')"
| revokedMany: "revokeAllUserTokensFor fails now users ws = (n, ws') \<Longrightarrow> watermarkStep ttl (now, ws) (now, ws')"
| cleaned: "ttl \<le> maxTTL \<Longrightarrow> watermarkStep ttl (now, ws) (now, cleanupExpiredWatermarks now maxTTL ws)"

inductive watermarkRun :: "int \<Rightarrow> int \<times> int gomap \<Rightarrow> int \<times> int gomap \<Rightarrow> bool" where
  refl: "watermarkRun ttl x x"
| step: "watermarkRun ttl x y \<Longrightarrow> watermarkStep ttl y z \<Longrightarrow> watermarkRun ttl x z"

lemma oget_fold_oput: "oget u (fold (\<lambda>u. oput u now) us ws) = (if u \<in> set us then Some now else oget u ws)"
  by (induction us arbitrary: ws) auto

lemma oget_filter:
  assumes "omap_ok ws" shows "oget u (filter P ws) = (case oget u ws of None \<Rightarrow> None | Some w \<Rightarrow> if P (u, w) then Some w else None)"
  using assms unfolding oget_def
proof (induction ws)
  case (Cons p ws)
  obtain k v where p: "p = (k, v)" by (cases p)
  have ok: "omap_ok ws" using Cons.prems by (simp add: omap_ok_def)
  have "map_of ws k = None" using omap_ok_distinct[OF Cons.prems] by (simp add: p map_of_eq_None_iff)
  then show ?case using Cons.IH[OF ok] by (auto simp: p)
qed simp

lemma omap_ok_filter: "omap_ok ws \<Longrightarrow> omap_ok (filter P ws)"
  unfolding omap_ok_def by (simp add: sorted_wrt_map sorted_wrt_filter)

lemma omap_ok_fold_oput: "omap_ok ws \<Longrightarrow> omap_ok (fold (\<lambda>u. oput u now) us ws)"
  by (induction us arbitrary: ws) auto

text \<open>A session of the user issued before the watermark stays covered until it has expired anyway.\<close>

definition covered :: "int \<Rightarrow> string \<Rightarrow> int \<Rightarrow> int \<times> int gomap \<Rightarrow> bool" where
  "covered ttl user iat x \<longleftrightarrow> omap_ok (snd x) \<and> (iat + ttl < fst x \<or> tokensRevokedSince (snd x) user iat)"

lemma covered_step:
  assumes "covered ttl user iat (now, ws)" "watermarkStep ttl (now, ws) z" "iat < now" shows "covered ttl user iat z"
  using assms(2)
proof (cases rule: watermarkStep.cases)
  case later
  then show ?thesis using assms(1) by (auto simp: covered_def)
next
  case revoked
  then show ?thesis using assms(1,3) by (auto simp: covered_def revokeAllUserTokens_def tokensRevokedSince_def split: if_splits)
next
  case revokedMany
  then show ?thesis using assms(1,3)
    by (auto simp: covered_def revokeAllUserTokensFor_def tokensRevokedSince_def oget_fold_oput omap_ok_fold_oput split: if_splits)
next
  case cleaned
  then show ?thesis using assms(1)
    by (auto simp: covered_def cleanupExpiredWatermarks_def tokensRevokedSince_def oget_filter omap_ok_filter split: option.splits)
qed

lemma watermarkStep_time: "watermarkStep ttl x y \<Longrightarrow> fst x \<le> fst y"
  by (induction rule: watermarkStep.induct) auto

lemma covered_run:
  assumes "watermarkRun ttl x y" "covered ttl user iat x" "iat < fst x" shows "covered ttl user iat y \<and> iat < fst y"
  using assms
proof (induction rule: watermarkRun.induct)
  case (step ttl x y z)
  then have "covered ttl user iat y" "iat < fst y" by blast+
  then show ?case using covered_step[of ttl user iat "fst y" "snd y" z] watermarkStep_time[OF step.hyps(2)] step.hyps(2) by simp
qed simp

text \<open>C27: A withdrawal of authority ends the sessions that carry it. Once the sweep has moved the watermark,
  and however revocations, cleanups and time follow, a token issued to the user before the sweep is
  refused by the middleware for as long as it lives.\<close>

theorem swept_sessions_are_refused:
  assumes "authorityReduced (Some sw) t0 user cs = (out, cs') \<or> userDeprovisioned (Some sw) t0 user cs = (out, cs')"
    and "oc_TokensRevoked out" "omap_ok (cs_Watermarks cs)" "watermarkRun ttl (t0, cs_Watermarks cs') (now, ws)"
    and "ad_validate ad token = Some cl" "cl_UserID cl = user" "cl_IssuedAt cl = Some iat" "iat < t0" "now \<le> iat + ttl"
    and "ad_userRevoked ad = Some (\<lambda>u t. Some (tokensRevokedSince ws u t))"
    and "extractToken rq = (token, fromCookie)" "cx_auth_method c \<noteq> Some ''mtls''"
  shows "\<exists>st. authMiddleware ad clock rq c = Inl st"
proof -
  have fst: "oc_TokensRevoked (fst (revokeTokens sw t0 user cs)) \<and> cs_Watermarks cs' = cs_Watermarks (snd (revokeTokens sw t0 user cs))"
    using assms(1)
  proof
    assume "authorityReduced (Some sw) t0 user cs = (out, cs')"
    then show ?thesis using assms(2)
      by (auto simp: authorityReduced_def revokeOverAskingKeys_def split: prod.splits option.splits)
  next
    assume "userDeprovisioned (Some sw) t0 user cs = (out, cs')"
    then show ?thesis using assms(2)
      by (auto simp: userDeprovisioned_def split: prod.splits option.splits if_splits)
  qed
  then have "cs_Watermarks cs' = oput user t0 (cs_Watermarks cs)"
    by (auto simp: revokeTokens_def revokeAllUserTokens_def nothingSwept_def split: option.splits if_splits)
  then have "covered ttl user iat (t0, cs_Watermarks cs')"
    using assms(3,8) by (auto simp: covered_def tokensRevokedSince_def)
  from covered_run[OF assms(4) this] assms(8,9) have "tokensRevokedSince ws user iat" by (simp add: covered_def)
  then have "userRevocation ad cl = Some 401" using assms(6,7,10) by (simp add: userRevocation_def revocation_def)
  then have "\<exists>st. authenticateSession ad cl fromCookie c = Inl st" by (auto simp: authenticateSession_def split: option.splits)
  then show ?thesis using assms(5,11,12) by (simp add: authMiddleware_def)
qed

section \<open>Keys that ask for too much go\<close>

text \<open>What is left of the rows once the keys of a list that over-ask are revoked.\<close>

definition sweptRow :: "idAuthLib \<Rightarrow> string list \<Rightarrow> apiKey list \<Rightarrow> apiKey option \<Rightarrow> apiKey option" where
  "sweptRow lib retained ks r =
     (case r of
        None \<Rightarrow> None
      | Some k \<Rightarrow> if \<exists>j \<in> set ks. ak_ID j = ak_ID k \<and> \<not> authorityRetained lib (ak_Scopes j) retained then None else Some k)"

lemma sweepKey_incomplete: "oc_Incomplete (fst os) \<Longrightarrow> oc_Incomplete (fst (sweepKey lib L retained k os))"
  by (auto simp: sweepKey_def split: prod.splits option.splits keyErr.splits)

lemma sweepKeys_incomplete: "oc_Incomplete (fst os) \<Longrightarrow> oc_Incomplete (fst (fold (sweepKey lib L retained) ks os))"
  by (induction ks arbitrary: os) (simp_all add: sweepKey_incomplete)

lemma sweepKey_row:
  assumes "sweepLaws L rf" "sweepKey lib L retained k (out, s) = (out', s')" "\<not> oc_Incomplete out'"
  shows "kl_row L i s' = sweptRow lib retained [k] (kl_row L i s)"
proof (cases "authorityRetained lib (ak_Scopes k) retained")
  case False
  obtain e s1 where r: "kl_RevokeAPIKey L (ak_ID k) s = (e, s1)" by (cases "kl_RevokeAPIKey L (ak_ID k) s")
  note law = sweepLaws_revoke[OF assms(1) r, of i] and gone = sweepLaws_rows(3)[OF assms(1)] and id = sweepLaws_rows(1)[OF assms(1)]
  have "e \<noteq> Some KeyStatementFailed" "s' = s1" using assms(2,3) False r by (auto simp: sweepKey_def split: option.splits keyErr.splits)
  then consider "e = None" | "e = Some KeyRowNotFound" by (metis keyErr.exhaust option.exhaust)
  then show ?thesis
  proof cases
    case 1
    then show ?thesis using law id[of i s] \<open>s' = s1\<close> False by (cases "kl_row L i s") (auto simp: sweptRow_def)
  next
    case 2
    then have "kl_row L (ak_ID k) s = None" using gone r by simp
    then show ?thesis using 2 law id[of i s] \<open>s' = s1\<close> by (cases "kl_row L i s") (auto simp: sweptRow_def)
  qed
qed (use assms in \<open>auto simp: sweepKey_def sweptRow_def split: option.splits\<close>)

lemma sweepKeys_rows:
  assumes "sweepLaws L rf" "fold (sweepKey lib L retained) ks (out, s) = (out', s')" "\<not> oc_Incomplete out'"
  shows "kl_row L i s' = sweptRow lib retained ks (kl_row L i s)"
  using assms(2,3)
proof (induction ks arbitrary: out s)
  case (Cons k ks)
  obtain out1 s1 where k: "sweepKey lib L retained k (out, s) = (out1, s1)" by (cases "sweepKey lib L retained k (out, s)")
  then have rest: "fold (sweepKey lib L retained) ks (out1, s1) = (out', s')" using Cons.prems(1) by simp
  then have "\<not> oc_Incomplete out1" using sweepKeys_incomplete[of "(out1, s1)" lib L retained ks] Cons.prems(2) by auto
  note sweepKey_row[OF assms(1) k this, of i]
  with Cons.IH[OF rest Cons.prems(2)] show ?case by (auto simp: sweptRow_def split: option.splits)
qed (simp add: sweptRow_def split: option.splits)

lemma complete_sweep_rows:
  assumes "sweepLaws L (sw_revokeForUser sw)" "sw_keys sw = Some L"
    and "authorityReduced (Some sw) now user cs = (out, cs') \<or> keysOnly (Some sw) user cs = (out, cs')" "\<not> oc_Incomplete out"
  shows "\<exists>retained. retainedScopes sw user = Some retained
    \<and> (\<forall>i. kl_row L i (cs_Keys cs') = (case kl_row L i (cs_Keys cs) of
         None \<Rightarrow> None
       | Some k \<Rightarrow> if ak_UserID k = Some user \<and> \<not> authorityRetained (sw_lib sw) (ak_Scopes k) retained then None else Some k))"
proof -
  obtain cs1 keyOut where o: "cs_Keys cs1 = cs_Keys cs" "revokeOverAskingKeys sw user cs1 = (keyOut, cs')" "\<not> oc_Incomplete keyOut"
    using assms(3)
  proof
    assume "authorityReduced (Some sw) now user cs = (out, cs')"
    moreover have "cs_Keys (snd (revokeTokens sw now user cs)) = cs_Keys cs"
      by (auto simp: revokeTokens_def split: option.splits prod.splits)
    ultimately show thesis using assms(4) that[of "snd (revokeTokens sw now user cs)"] by (auto simp: authorityReduced_def split: prod.splits)
  qed (use assms(4) that[of cs] in \<open>simp add: keysOnly_def\<close>)
  then obtain retained ks s' where r: "retainedScopes sw user = Some retained" "kl_ListAPIKeysByUser L user (cs_Keys cs) = Some ks"
      "fold (sweepKey (sw_lib sw) L retained) ks (nothingSwept, cs_Keys cs) = (keyOut, s')" "cs_Keys cs' = s'"
    using assms(2) by (auto simp: revokeOverAskingKeys_def nothingSwept_def split: option.splits prod.splits)
  note listed = sweepLaws_rows(2)[OF assms(1) r(2)] and id = sweepLaws_rows(1)[OF assms(1)]
  have "kl_row L i (cs_Keys cs') = sweptRow (sw_lib sw) retained ks (kl_row L i (cs_Keys cs))" for i
    using sweepKeys_rows[OF assms(1) r(3) o(3)] r(4) by simp
  moreover have "sweptRow (sw_lib sw) retained ks (kl_row L i (cs_Keys cs)) = (case kl_row L i (cs_Keys cs) of
         None \<Rightarrow> None
       | Some k \<Rightarrow> if ak_UserID k = Some user \<and> \<not> authorityRetained (sw_lib sw) (ak_Scopes k) retained then None else Some k)" for i
  proof (cases "kl_row L i (cs_Keys cs)")
    case (Some k)
    have "(\<exists>j \<in> set ks. ak_ID j = ak_ID k \<and> \<not> authorityRetained (sw_lib sw) (ak_Scopes j) retained)
        = (ak_UserID k = Some user \<and> \<not> authorityRetained (sw_lib sw) (ak_Scopes k) retained)" (is "?l = ?r")
    proof
      assume ?l
      then obtain j where j: "j \<in> set ks" "ak_ID j = ak_ID k" "\<not> authorityRetained (sw_lib sw) (ak_Scopes j) retained" by blast
      then have "kl_row L (ak_ID k) (cs_Keys cs) = Some j" "ak_UserID j = Some user" using listed[of j] by simp_all
      then show ?r using j(3) Some id[OF Some] by simp
    next
      assume ?r
      moreover have "k \<in> set ks" using listed[of k] Some id[OF Some] calculation by simp
      ultimately show ?l by blast
    qed
    then show ?thesis by (simp add: Some sweptRow_def)
  qed (simp add: sweptRow_def)
  ultimately show ?thesis using r(1) by auto
qed

lemma sweepKey_complete:
  assumes "\<forall>i s. fst (kl_RevokeAPIKey L i s) \<noteq> Some KeyStatementFailed"
  shows "oc_Incomplete (fst (sweepKey lib L retained k os)) = oc_Incomplete (fst os)"
  using assms by (auto simp: sweepKey_def split: prod.splits option.splits keyErr.splits dest!: spec[of _ "ak_ID k"] spec[of _ "snd os"])

lemma sweepKeys_complete:
  assumes "\<forall>i s. fst (kl_RevokeAPIKey L i s) \<noteq> Some KeyStatementFailed"
  shows "oc_Incomplete (fst (fold (sweepKey lib L retained) ks os)) = oc_Incomplete (fst os)"
  by (induction ks arbitrary: os) (simp_all add: sweepKey_complete[OF assms])

text \<open>A sweep whose statements work moves the watermark, and is complete where the retained authority is known.\<close>

lemma working_sweep:
  assumes "sw_tokens sw = Some False" "sw_keys sw = Some L" "authorityReduced (Some sw) now user cs = (out, cs')"
    and "\<forall>i s. fst (kl_RevokeAPIKey L i s) \<noteq> Some KeyStatementFailed" "\<forall>s. kl_ListAPIKeysByUser L user s \<noteq> None"
  shows "cs_Watermarks cs' = oput user now (cs_Watermarks cs)" "retainedScopes sw user \<noteq> None \<Longrightarrow> \<not> oc_Incomplete out"
proof -
  let ?t = "revokeTokens sw now user cs"
  have t: "cs_Watermarks (snd ?t) = oput user now (cs_Watermarks cs)" "\<not> oc_Incomplete (fst ?t)"
    using assms(1) by (simp_all add: revokeTokens_def revokeAllUserTokens_def nothingSwept_def)
  obtain keyOut where k: "revokeOverAskingKeys sw user (snd ?t) = (keyOut, cs')" "oc_Incomplete out = (oc_Incomplete (fst ?t) \<or> oc_Incomplete keyOut)"
    using assms(3) by (auto simp: authorityReduced_def split: prod.splits)
  have "cs_Watermarks cs' = cs_Watermarks (snd ?t)"
    using k(1) by (auto simp: revokeOverAskingKeys_def split: option.splits prod.splits)
  then show "cs_Watermarks cs' = oput user now (cs_Watermarks cs)" using t(1) by simp
  assume "retainedScopes sw user \<noteq> None"
  then obtain retained ks where r: "retainedScopes sw user = Some retained" "kl_ListAPIKeysByUser L user (cs_Keys (snd ?t)) = Some ks"
    using assms(5) by fastforce
  have "keyOut = fst (fold (sweepKey (sw_lib sw) L retained) ks (nothingSwept, cs_Keys (snd ?t)))"
    using k(1) r assms(2) by (auto simp: revokeOverAskingKeys_def split: prod.splits)
  then have "\<not> oc_Incomplete keyOut" by (simp add: sweepKeys_complete[OF assms(4)] nothingSwept_def)
  then show "\<not> oc_Incomplete out" using k(2) t(2) by simp
qed

text \<open>A sweep that is complete leaves exactly the keys that are justified: a key of the user stays, as it is,
  when the authority the user retains grants every scope it carries, and is gone otherwise; nobody
  else's key is touched.\<close>

theorem sweep_leaves_justified_keys:
  assumes "sweepLaws L (sw_revokeForUser sw)" "sw_keys sw = Some L"
    and "authorityReduced (Some sw) now user cs = (out, cs') \<or> keysOnly (Some sw) user cs = (out, cs')" "\<not> oc_Incomplete out"
  shows "\<exists>retained. retainedScopes sw user = Some retained
    \<and> (\<forall>i. kl_row L i (cs_Keys cs') = (case kl_row L i (cs_Keys cs) of
         None \<Rightarrow> None
       | Some k \<Rightarrow> if ak_UserID k = Some user \<and> \<not> authorityRetained (sw_lib sw) (ak_Scopes k) retained then None else Some k))"
  by (rule complete_sweep_rows[OF assms])

lemma offboarding_takes_all_keys:
  assumes "sweepLaws L (sw_revokeForUser sw)" "sw_keys sw = Some L" "userDeprovisioned (Some sw) now user cs = (out, cs')" "\<not> oc_Incomplete out"
  shows "kl_row L i (cs_Keys cs') = (case kl_row L i (cs_Keys cs) of None \<Rightarrow> None | Some k \<Rightarrow> if ak_UserID k = Some user then None else Some k)"
proof -
  have "cs_Keys (snd (revokeTokens sw now user cs)) = cs_Keys cs"
    by (auto simp: revokeTokens_def split: option.splits prod.splits)
  moreover obtain n where "sw_revokeForUser sw user (cs_Keys (snd (revokeTokens sw now user cs))) = (Some n, cs_Keys cs')"
    using assms(2-4) by (auto simp: userDeprovisioned_def split: prod.splits option.splits)
  ultimately show ?thesis using sweepLaws_bulk[OF assms(1), of user "cs_Keys cs"] by simp
qed
end
