(* ===== verification/AdminPlane.thy ===== *)
theory AdminPlane
  imports CredSweep
begin

text \<open>
  Administration of users, organizations and their members: \<open>api/admin_write.go\<close>, \<open>admin_org_scope.go\<close>,
  \<open>admin_platform_admin_bootstrap.go\<close> and \<open>role_ceiling.go\<close>.

  The shared identity store answers for users and organizations; what it is asked to change is
  recorded as \<open>aw_Calls\<close>. Membership writes are those of \<open>RoleMembers\<close>; the sweeps they call for run
  after their last statement, so they are replayed on the credentials over the final role store.
  \<open>uuid.Parse\<close> gives the canonical text of an id, which is how the database reads it.
\<close>

section \<open>The state and the environment\<close>

record idUser =
  iu_ID :: string
  iu_Email :: string
  iu_Name :: string
  iu_OIDCSub :: "string option"

record idOrganization =
  io_ID :: string
  io_Name :: string
  io_DisplayName :: string
  io_IdpType :: "string option"
  io_IdpName :: "string option"

datatype storeCall = StoreCreateUser string string | StoreUpdateUser idUser | StoreDeleteUser string
  | StoreCreateOrg string string | StoreRenameOrg string string | StoreUpdateOrg idOrganization

record 'k adminState =
  aw_Members :: memberState
  aw_Creds :: "'k credentialStore"
  aw_Calls :: "storeCall list"

text \<open>A scope of the identity store here: organizations, and whether rows of no organization are included.\<close>

record 'k adminEnv =
  an_lib :: idAuthLib
  an_flt :: "storeStmt \<Rightarrow> bool"
  an_now :: int
  an_creds :: "'k sweeper option"
  an_platformAdmins :: "(string \<Rightarrow> adminAnswer) option"
  an_Member :: "string \<Rightarrow> string \<Rightarrow> idOutcome"
  an_Orgs :: "string \<Rightarrow> string list option"
  an_uuid :: "string \<Rightarrow> string option"
  an_getUser :: "string \<Rightarrow> string list \<times> bool \<Rightarrow> idUser option"
  an_getOrg :: "string \<Rightarrow> idOrganization option"
  an_newID :: "string option"
  an_rename :: idOutcome
  an_write :: idOutcome
  an_members :: "string list option"
  an_emptied :: orgScope
  an_route :: string
  an_context :: reqContext

definition callerID :: "'k adminEnv \<Rightarrow> string" where
  "callerID env = userIDOf (an_context env)"

text \<open>The sweeper reads the role store as it is when it runs.\<close>

definition atState :: "memberState \<Rightarrow> 'k sweeper \<Rightarrow> 'k sweeper" where
  "atState ms sw = sw\<lparr>sw_orgs := map_option (\<lambda>mr. mr\<lparr>mr_state := ms\<rparr>) (sw_orgs sw)\<rparr>"

text \<open>\<open>sweepReduced\<close>: the reducer the routes hand over; it reports no failure.\<close>

definition sweepReduced :: "'k sweeper option \<Rightarrow> int \<Rightarrow> string \<times> bool \<Rightarrow> 'k credentialStore \<Rightarrow> 'k credentialStore" where
  "sweepReduced creds now uc cs =
     (case uc of (user, changed) \<Rightarrow> snd (if \<not> changed then keysOnly creds user cs else authorityReduced creds now user cs))"

definition runSwept ::
    "'k adminEnv \<Rightarrow> (reducer \<Rightarrow> memberState \<Rightarrow> memberErr option \<times> memberState) \<Rightarrow> 'k adminState \<Rightarrow> memberErr option \<times> 'k adminState" where
  "runSwept env f st =
     (case f (Some (\<lambda>_ _. True)) (aw_Members st) of
        (e, ms) \<Rightarrow>
          (e, st\<lparr>aw_Members := ms,
                 aw_Creds := fold (sweepReduced (map_option (atState ms) (an_creds env)) (an_now env))
                               (drop (length (ms_swept (aw_Members st))) (ms_swept ms)) (aw_Creds st)\<rparr>))"

definition routeOrgScope :: "string \<Rightarrow> orgScope" where
  "routeOrgScope org = (\<lambda>o'. o' = org)"

section \<open>Who may administer what\<close>

definition orgManagementScope :: "idAuthLib \<Rightarrow> string list \<Rightarrow> bool" where
  "orgManagementScope lib scopes = (hasScope lib scopes (ia_OrganizationsWrite lib) \<or> hasScope lib scopes ''admin'')"

definition callerIsPlatformAdmin :: "'k adminEnv \<Rightarrow> bool" where
  "callerIsPlatformAdmin env =
     (case an_platformAdmins env of
        None \<Rightarrow> False
      | Some admins \<Rightarrow>
          cx_auth_method (an_context env) \<noteq> Some ''apikey'' \<and> callerID env \<noteq> [] \<and> admins (callerID env) = AdminIs True)"

definition platformAdminBootstrapRoutes :: "string list" where
  "platformAdminBootstrapRoutes = [''POST /api/v1/admin/organizations/:id/members'']"

definition platformAdminMayBootstrap :: "'k adminEnv \<Rightarrow> bool" where
  "platformAdminMayBootstrap env = (an_route env \<in> set platformAdminBootstrapRoutes \<and> callerIsPlatformAdmin env)"

text \<open>The guards answer None where the request goes on, else the status.\<close>

definition requireOrgScope :: "'k adminEnv \<Rightarrow> string \<Rightarrow> memberState \<Rightarrow> nat option" where
  "requireOrgScope env org ms =
     (if org = [] \<or> callerID env = [] then Some 403
      else if \<not> orgManagementScope (an_lib env) (scopesOf (an_context env)) then Some 403
      else if platformAdminMayBootstrap env then None
      else (case getUserScopesForOrg (an_flt env) (an_Member env org (callerID env)) (callerID env) org ms of
              Inl _ \<Rightarrow> Some 500
            | Inr scopes \<Rightarrow> if orgManagementScope (an_lib env) scopes then None else Some 403))"

fun sharedAdminLoop :: "'k adminEnv \<Rightarrow> memberState \<Rightarrow> string list \<Rightarrow> nat option" where
  "sharedAdminLoop env ms [] = Some 403"
| "sharedAdminLoop env ms (org # orgs) =
     (case getUserScopesForOrg (an_flt env) (an_Member env org (callerID env)) (callerID env) org ms of
        Inl _ \<Rightarrow> Some 500
      | Inr scopes \<Rightarrow> if hasScope (an_lib env) scopes ''admin'' then None else sharedAdminLoop env ms orgs)"

definition requireSharedOrgAdminWithTargetUser :: "'k adminEnv \<Rightarrow> string \<Rightarrow> memberState \<Rightarrow> nat option" where
  "requireSharedOrgAdminWithTargetUser env target ms =
     (if target = [] \<or> callerID env = [] then Some 403
      else (case getUserMemberships (an_flt env) (an_Orgs env target) target ms of
              Inl _ \<Rightarrow> Some 500
            | Inr memberships \<Rightarrow> if memberships = [] then None else sharedAdminLoop env ms (map fst memberships)))"

definition callerScopeFor :: "'k adminEnv \<Rightarrow> string \<Rightarrow> memberState \<Rightarrow> string list option" where
  "callerScopeFor env required ms =
     (case orgScopeForUser (an_flt env) (hasScope (an_lib env)) (an_Orgs env (callerID env)) (callerID env) required ms of
        Inl _ \<Rightarrow> None | Inr orgs \<Rightarrow> Some orgs)"

definition callerOrgScope :: "'k adminEnv \<Rightarrow> memberState \<Rightarrow> (string list \<times> bool) option" where
  "callerOrgScope env ms = map_option (\<lambda>orgs. (orgs, True)) (callerScopeFor env ''admin'' ms)"

section \<open>The ceiling on roles\<close>

fun withinCaller :: "idAuthLib \<Rightarrow> string list \<Rightarrow> string list \<Rightarrow> bool" where
  "withinCaller lib caller [] = True"
| "withinCaller lib caller (s # r) = (if s = ''admin'' then False else if \<not> hasScope lib caller s then False else withinCaller lib caller r)"

definition roleScopesPermittedBy :: "idAuthLib \<Rightarrow> string list \<Rightarrow> string list \<Rightarrow> bool" where
  "roleScopesPermittedBy lib caller scopes =
     (if scopes = [] then True else if hasScope lib caller ''admin'' then True else withinCaller lib caller scopes)"

definition checkRoleAssignment :: "'k adminEnv \<Rightarrow> string option \<Rightarrow> memberState \<Rightarrow> nat option" where
  "checkRoleAssignment env raw ms =
     (if raw = None \<or> raw = Some [] then None
      else (case an_uuid env (the raw) of
              None \<Rightarrow> Some 400
            | Some i \<Rightarrow>
                (case ms_store ms of
                   None \<Rightarrow> Some 500
                 | Some s \<Rightarrow>
                     if an_flt env StmtTemplate then Some 500
                     else (case templateByID i s of
                             None \<Rightarrow> Some 400
                           | Some t \<Rightarrow> if roleScopesPermittedBy (an_lib env) (scopesOf (an_context env)) (rt_Scopes t) then None else Some 403))))"

text \<open>No id is no role; None is a refusal. The code hands on the trimmed text, which the uuid columns read as the
  id the parser answers; a text the columns do not read is a failing statement.\<close>

definition validRoleTemplateID :: "'k adminEnv \<Rightarrow> string option \<Rightarrow> string option option" where
  "validRoleTemplateID env raw =
     (if raw = None \<or> trimSpace (the raw) = [] then Some None
      else (case an_uuid env (trimSpace (the raw)) of None \<Rightarrow> None | Some i \<Rightarrow> Some (Some i)))"

section \<open>Users\<close>

definition called :: "storeCall \<Rightarrow> 'k adminState \<Rightarrow> 'k adminState" where
  "called c st = st\<lparr>aw_Calls := aw_Calls st @ [c]\<rparr>"

text \<open>A handler that writes answers a status and leaves a state. A body that does not bind is None.\<close>

definition createUserH :: "'k adminEnv \<Rightarrow> (string \<times> string) option \<Rightarrow> 'k adminState \<Rightarrow> nat \<times> 'k adminState" where
  "createUserH env body st =
     (case body of
        None \<Rightarrow> (400, st)
      | Some (email, name) \<Rightarrow>
          if trimSpace email = [] then (400, st)
          else (if an_newID env = None then 500 else 201, called (StoreCreateUser (trimSpace email) (trimSpace name)) st))"

definition updateUserH :: "'k adminEnv \<Rightarrow> string \<Rightarrow> (string \<times> string) option \<Rightarrow> 'k adminState \<Rightarrow> nat \<times> 'k adminState" where
  "updateUserH env i body st =
     (case body of
        None \<Rightarrow> (400, st)
      | Some (email, name) \<Rightarrow>
          (case callerOrgScope env (aw_Members st) of
             None \<Rightarrow> (500, st)
           | Some scope \<Rightarrow>
               (case an_getUser env i scope of
                  None \<Rightarrow> (404, st)
                | Some u \<Rightarrow>
                    (case an_write env of IdOk \<Rightarrow> 200 | IdNotFound \<Rightarrow> 404 | IdFailed \<Rightarrow> 500,
                     called (StoreUpdateUser (if trimSpace name \<noteq> [] then u\<lparr>iu_Name := trimSpace name\<rparr> else u)) st))))"

definition deleteUserH :: "'k adminEnv \<Rightarrow> string \<Rightarrow> 'k adminState \<Rightarrow> nat \<times> 'k adminState" where
  "deleteUserH env i st =
     (case callerOrgScope env (aw_Members st) of
        None \<Rightarrow> (500, st)
      | Some scope \<Rightarrow>
          (case userDeprovisioned (an_creds env) (an_now env) i (aw_Creds st) of
             (out, cs) \<Rightarrow>
               if oc_Incomplete out then (500, st\<lparr>aw_Creds := cs\<rparr>)
               else (let st1 = called (StoreDeleteUser i) (st\<lparr>aw_Creds := cs\<rparr>)
                     in case an_write env of
                          IdFailed \<Rightarrow> (500, st1)
                        | IdNotFound \<Rightarrow> (204, st1)
                        | IdOk \<Rightarrow> (204, st1\<lparr>aw_Members := purgeUserRoles (an_flt env) i allOrgs (aw_Members st1)\<rparr>))))"

definition membershipsInCallerScope :: "string list \<Rightarrow> (string \<times> role) list \<Rightarrow> (string \<times> role) list" where
  "membershipsInCallerScope orgs memberships = filter (\<lambda>m. fst m \<in> set orgs) memberships"

definition getUserMembershipsH :: "'k adminEnv \<Rightarrow> string \<Rightarrow> memberState \<Rightarrow> nat + (string \<times> role) list" where
  "getUserMembershipsH env i ms =
     (case callerScopeFor env ''admin'' ms of
        None \<Rightarrow> Inl 500
      | Some orgs \<Rightarrow>
          (case getUserMemberships (an_flt env) (an_Orgs env i) i ms of
             Inl _ \<Rightarrow> Inl 500
           | Inr memberships \<Rightarrow> Inr (membershipsInCallerScope orgs memberships)))"

definition erasedUser :: "idUser \<Rightarrow> string \<Rightarrow> idUser" where
  "erasedUser u i = u\<lparr>iu_Email := ''erased-'' @ i @ ''@anonymized.invalid'', iu_Name := ''Erased User'', iu_OIDCSub := None\<rparr>"

text \<open>\<open>EraseUser\<close>: its reducer is the offboarding of the user, whose failure is the strip's.\<close>

definition eraseUserH :: "'k adminEnv \<Rightarrow> string \<Rightarrow> idOutcome \<Rightarrow> 'k adminState \<Rightarrow> nat \<times> 'k adminState" where
  "eraseUserH env i removed st =
     (case callerOrgScope env (aw_Members st) of
        None \<Rightarrow> (500, st)
      | Some scope \<Rightarrow>
          (case an_getUser env i scope of
             None \<Rightarrow> (404, st)
           | Some u \<Rightarrow>
               (let st1 = called (StoreUpdateUser (erasedUser u i)) st
                in case an_write env of
                     IdNotFound \<Rightarrow> (404, st1)
                   | IdFailed \<Rightarrow> (500, st1)
                   | IdOk \<Rightarrow>
                       (case userDeprovisioned (an_creds env) (an_now env) i (aw_Creds st1) of
                          (out, cs) \<Rightarrow>
                            (case removeAllMembershipsForUser (an_flt env) removed (an_emptied env) i allOrgs
                                    (Some (\<lambda>_ _. \<not> oc_Incomplete out)) (aw_Members st1) of
                               (e, ms) \<Rightarrow>
                                 (if e = None then 200 else 500,
                                  st1\<lparr>aw_Members := ms,
                                      aw_Creds := (if ms_swept ms \<noteq> ms_swept (aw_Members st1) then cs else aw_Creds st1)\<rparr>))))))"

section \<open>Organizations and their members\<close>

definition nilIfEmpty :: "string \<Rightarrow> string option" where
  "nilIfEmpty s = (if trimSpace s = [] then None else Some (trimSpace s))"

record orgRequest =
  or_Name :: string
  or_DisplayName :: string
  or_IdpType :: "string option"
  or_IdpName :: "string option"

definition createOrganizationH :: "'k adminEnv \<Rightarrow> orgRequest option \<Rightarrow> idOutcome \<Rightarrow> 'k adminState \<Rightarrow> nat \<times> 'k adminState" where
  "createOrganizationH env body added st =
     (case body of
        None \<Rightarrow> (400, st)
      | Some req \<Rightarrow>
          if trimSpace (or_Name req) = [] then (400, st)
          else (let st1 = called (StoreCreateOrg (trimSpace (or_Name req)) (trimSpace (or_DisplayName req))) st
                in case an_newID env of
                     None \<Rightarrow> (500, st1)
                   | Some org \<Rightarrow>
                       if callerID env = [] then (201, st1)
                       else (case addMemberWithParams (an_flt env) (an_now env) added org (callerID env) ''org_owner'' (routeOrgScope org)
                                    (Some (\<lambda>_ _. True)) (aw_Members st1) of
                               (e, ms) \<Rightarrow> (if e = None then 201 else 500, st1\<lparr>aw_Members := ms\<rparr>))))"

definition editedOrg :: "orgRequest \<Rightarrow> idOrganization \<Rightarrow> idOrganization" where
  "editedOrg req org =
     org\<lparr>io_DisplayName := (if trimSpace (or_DisplayName req) \<noteq> [] then trimSpace (or_DisplayName req) else io_DisplayName org),
         io_IdpType := (case or_IdpType req of None \<Rightarrow> io_IdpType org | Some v \<Rightarrow> nilIfEmpty v),
         io_IdpName := (case or_IdpName req of None \<Rightarrow> io_IdpName org | Some v \<Rightarrow> nilIfEmpty v)\<rparr>"

definition updateOrganizationH :: "'k adminEnv \<Rightarrow> string \<Rightarrow> orgRequest option \<Rightarrow> 'k adminState \<Rightarrow> nat \<times> 'k adminState" where
  "updateOrganizationH env i body st =
     (case body of
        None \<Rightarrow> (400, st)
      | Some req \<Rightarrow>
          (case an_getOrg env i of
             None \<Rightarrow> (404, st)
           | Some org \<Rightarrow>
               (let name = trimSpace (or_Name req); renames = (name \<noteq> [] \<and> name \<noteq> io_Name org);
                    st1 = (if renames then called (StoreRenameOrg (io_ID org) name) st else st);
                    org1 = (if renames then org\<lparr>io_Name := name\<rparr> else org)
                in if renames \<and> an_rename env \<noteq> IdOk then (if an_rename env = IdNotFound then 404 else 500, st1)
                   else (case an_write env of IdOk \<Rightarrow> 200 | IdNotFound \<Rightarrow> 404 | IdFailed \<Rightarrow> 500,
                         called (StoreUpdateOrg (editedOrg req org1)) st1))))"

definition deleteOrganizationH :: "'k adminEnv \<Rightarrow> string \<Rightarrow> 'k adminState \<Rightarrow> nat \<times> 'k adminState" where
  "deleteOrganizationH env org st =
     (case runSwept env (deleteOrganization (an_flt env) (an_members env) (an_write env) org (routeOrgScope org)) st of
        (e, st') \<Rightarrow> (if e = None \<or> e = Some IdentityNotFound then 204 else 500, st'))"

definition listOrganizationMembersH :: "'k adminEnv \<Rightarrow> string \<Rightarrow> memberState \<Rightarrow> nat + (string \<times> role) list" where
  "listOrganizationMembersH env org ms =
     (case listMembersWithUsers (an_flt env) (an_members env) org (routeOrgScope org) ms of Inl _ \<Rightarrow> Inl 500 | Inr rows \<Rightarrow> Inr rows)"

definition addOrganizationMemberH :: "'k adminEnv \<Rightarrow> string \<Rightarrow> (string \<times> string option) option \<Rightarrow> 'k adminState \<Rightarrow> nat \<times> 'k adminState" where
  "addOrganizationMemberH env org body st =
     (case body of
        None \<Rightarrow> (400, st)
      | Some (user, raw) \<Rightarrow>
          if trimSpace user = [] then (400, st)
          else (case checkRoleAssignment env raw (aw_Members st) of
                  Some status \<Rightarrow> (status, st)
                | None \<Rightarrow>
                    (case validRoleTemplateID env raw of
                       None \<Rightarrow> (400, st)
                     | Some tid \<Rightarrow>
                         (case runSwept env (addMemberWithRoleTemplate (an_flt env) (an_now env) (an_write env) org user tid (routeOrgScope org)) st of
                            (e, st') \<Rightarrow> (if e = None then 201 else 500, st')))))"

definition updateOrganizationMemberH ::
    "'k adminEnv \<Rightarrow> string \<Rightarrow> string \<Rightarrow> string option option \<Rightarrow> 'k adminState \<Rightarrow> nat \<times> 'k adminState" where
  "updateOrganizationMemberH env org user body st =
     (case body of
        None \<Rightarrow> (400, st)
      | Some raw \<Rightarrow>
          (case checkRoleAssignment env raw (aw_Members st) of
             Some status \<Rightarrow> (status, st)
           | None \<Rightarrow>
               (case validRoleTemplateID env raw of
                  None \<Rightarrow> (400, st)
                | Some tid \<Rightarrow>
                    (case runSwept env (updateMemberRoleTemplate (an_flt env) (an_now env) (an_write env) org user tid (routeOrgScope org)) st of
                       (e, st') \<Rightarrow> (if e = None \<or> e = Some IdentityNotFound then 200 else 500, st')))))"

definition removeOrganizationMemberH :: "'k adminEnv \<Rightarrow> string \<Rightarrow> string \<Rightarrow> 'k adminState \<Rightarrow> nat \<times> 'k adminState" where
  "removeOrganizationMemberH env org user st =
     (case runSwept env (removeMember (an_flt env) (an_write env) org user (routeOrgScope org)) st of
        (e, st') \<Rightarrow> (if e = None \<or> e = Some IdentityNotFound then 204 else 500, st'))"
end
