(* ===== verification/AdminAuthority.thy ===== *)
theory AdminAuthority
  imports AdminPlane KeyAuthority
begin

text \<open>
  What the administration of members promises: no role above the caller's own authority is recorded,
  and whatever authority a request withdraws, the sessions and keys that carry it end with it.
\<close>

section \<open>The effect of one membership request\<close>

text \<open>The role on record for a pair: no record, or a record with or without a role.\<close>

definition onRecord :: "string \<Rightarrow> string \<Rightarrow> roleStore \<Rightarrow> string option option" where
  "onRecord org user s = map_option as_Role (List.find (isPair org user) (st_Assignments s))"

lemma recorded_onRecord: "recorded org user scope s = (if scope org then onRecord org user s else None)"
  unfolding onRecord_def by (rule roleForPair_template)

lemma onRecord_setRole_same: "scope org \<Longrightarrow> onRecord org user (setRole org user tid scope now s) = Some tid"
  by (simp add: onRecord_def find_set_role split: option.splits)

lemma find_other_pair:
  assumes "(o', u') \<noteq> (org, user)"
  shows "List.find (isPair o' u') (map (\<lambda>a. if isPair org user a then a\<lparr>as_Role := tid, as_MirroredAt := now\<rparr> else a) xs) = List.find (isPair o' u') xs"
proof (induction xs)
  case (Cons a xs)
  have "isPair o' u' a \<Longrightarrow> \<not> isPair org user a" using assms by (auto simp: isPair_def)
  moreover have "isPair o' u' (a\<lparr>as_Role := tid, as_MirroredAt := now\<rparr>) = isPair o' u' a" by (simp add: isPair_def)
  ultimately show ?case using Cons.IH by auto
qed simp

lemma onRecord_setRole_other:
  assumes "(o', u') \<noteq> (org, user)" shows "onRecord o' u' (setRole org user tid scope now s) = onRecord o' u' s"
proof -
  have n: "\<not> isPair o' u' \<lparr>as_Org = org, as_User = user, as_Role = tid, as_MirroredAt = now\<rparr>" using assms by (auto simp: isPair_def)
  show ?thesis
    by (simp add: onRecord_def setRole_def find_other_pair[OF assms] find_snoc n split: option.splits)
qed

lemma onRecord_deleteRole: "onRecord o' u' (deleteRole org user scope s) = (if (o', u') = (org, user) \<and> scope org then None else onRecord o' u' s)"
proof -
  have "List.find (isPair o' u') (filter (\<lambda>a. \<not> (isPair org user a \<and> scope (as_Org a))) xs)
      = (if (o', u') = (org, user) \<and> scope org then None else List.find (isPair o' u') xs)" for xs
    unfolding isPair_def[abs_def] by (induction xs) auto
  then show ?thesis by (simp add: onRecord_def deleteRole_def deleteWhere_def)
qed

lemma templates_kept [simp]:
  "st_Templates (setRole org user tid scope now s) = st_Templates s" "st_Templates (deleteRole org user scope s) = st_Templates s"
  by (simp_all add: setRole_def deleteRole_def deleteWhere_def)

section \<open>One request about a member\<close>

inductive memberRequest :: "'k adminEnv \<Rightarrow> string \<Rightarrow> string \<Rightarrow> 'k adminState \<Rightarrow> 'k adminState \<Rightarrow> bool" where
  added: "addOrganizationMemberH env org (Some (user, raw)) st = (status, st') \<Longrightarrow> memberRequest env org user st st'"
| updated: "updateOrganizationMemberH env org user (Some raw) st = (status, st') \<Longrightarrow> memberRequest env org user st st'"
| removed: "removeOrganizationMemberH env org user st = (status, st') \<Longrightarrow> memberRequest env org user st st'"

text \<open>What a write does to the store, with the sweeps it calls for.\<close>

definition memberWrite :: "'k adminEnv \<Rightarrow> string \<Rightarrow> string \<Rightarrow> (roleStore \<Rightarrow> roleStore) \<Rightarrow> bool \<Rightarrow> memberState \<Rightarrow> memberState \<Rightarrow> bool" where
  "memberWrite env org user f changed ms ms' \<longleftrightarrow>
     (ms_store ms' = ms_store ms \<or> ms_store ms' = map_option f (ms_store ms) \<and> ms_swept ms' = ms_swept ms @ [(user, changed)])"

lemma add_write:
  assumes "addMemberWithRoleTemplate flt now out org user tid scope (Some f) ms = (e, ms')"
  shows "memberWrite env org user (setRole org user tid scope now) True ms ms'"
proof (cases "ms_store ms' = ms_store ms")
  case False
  from add_effect[OF assms False] have g: "out = IdOk" "grantEffect org user tid scope now ms ms'" by simp_all
  obtain name where n: "appTemplateName flt tid ms = Inr name"
    using assms False by (cases "appTemplateName flt tid ms") (auto simp: addMemberWithRoleTemplate_def)
  let ?c = "case name of Some n \<Rightarrow> IdAddByName org user n | None \<Rightarrow> IdAddByID org user tid"
  obtain e1 ms1 where i: "idCallM ?c out ms = (e1, ms1)" by fastforce
  obtain e2 ms2 where m: "mirrorSetByID flt now org user tid scope ms1 = (e2, ms2)" by fastforce
  obtain e3 ms3 where r: "reduceAuthority (Some f) user True ms2 = (e3, ms3)" by fastforce
  have e1: "e1 = None" "ms_store ms1 = ms_store ms" "ms_swept ms1 = ms_swept ms" using i g(1) by (auto simp: idCallM_def)
  have m2: "ms_swept ms2 = ms_swept ms1" using m unfolding mirrorSetByID_def by (rule mirror_keeps(2))
  have "e2 \<noteq> None \<Longrightarrow> ms_store ms2 = ms_store ms1" using m by (auto simp: mirrorSetByID_def mirror_def split: option.splits if_splits)
  moreover have "(e, ms') = (case e2 of Some e \<Rightarrow> (Some e, ms2) | None \<Rightarrow> (e3, ms3))"
    using assms n i m r e1(1) by (cases e2; cases name) (auto simp: addMemberWithRoleTemplate_def)
  ultimately have "ms' = ms3" using False e1(2) by (auto split: option.splits)
  then have "ms_swept ms' = ms_swept ms @ [(user, True)]" using reduceAuthority_sweeps[OF r] m2 e1(3) by simp
  then show ?thesis using g(2) by (auto simp: memberWrite_def grantEffect_def split: option.splits)
qed (simp add: memberWrite_def)

lemma update_write:
  assumes "updateMemberRoleTemplate flt now out org user tid scope (Some f) ms = (e, ms')"
  shows "memberWrite env org user (setRole org user tid scope now) (roleChanges flt org user tid scope ms) ms ms'"
proof (cases "appTemplateName flt tid ms")
  case (Inl e)
  then show ?thesis using assms by (simp add: updateMemberRoleTemplate_def memberWrite_def)
next
  case (Inr name)
  then obtain c where "finishUpdate flt now c out org user tid scope (Some f) (roleChanges flt org user tid scope ms) ms = (e, ms')"
    using assms by (auto simp: updateMemberRoleTemplate_def)
  from finishUpdate_effect[OF this] show ?thesis by (auto simp: memberWrite_def grantEffect_def split: option.splits)
qed

lemma update_ok:
  assumes "updateMemberRoleTemplate flt now out org user tid scope reduce ms = (e, ms')" "ms_store ms' \<noteq> ms_store ms"
  shows "out = IdOk"
  using assms finishUpdate_effect(1) by (fastforce simp: updateMemberRoleTemplate_def split: sum.splits)

lemma remove_write:
  assumes "removeMember flt out org user scope (Some f) ms = (e, ms')"
  shows "memberWrite env org user (deleteRole org user scope) (out \<noteq> IdNotFound) ms ms'"
proof -
  obtain e1 ms1 where m: "mirrorDelete flt org user scope ms = (e1, ms1)" by fastforce
  obtain e2 ms2 where i: "idCallM (IdRemove org user) out ms1 = (e2, ms2)" by fastforce
  obtain e3 ms3 where r: "reduceAuthority (Some f) user (out \<noteq> IdNotFound) ms2 = (e3, ms3)" by fastforce
  have m1: "ms_swept ms1 = ms_swept ms" using m unfolding mirrorDelete_def by (rule mirror_keeps(2))
  have st1: "e1 \<noteq> None \<Longrightarrow> ms_store ms1 = ms_store ms" "e1 = None \<Longrightarrow> ms_store ms1 = map_option (deleteRole org user scope) (ms_store ms)"
    using m by (auto simp: mirrorDelete_def mirror_def split: option.splits if_splits)
  have i2: "ms_store ms2 = ms_store ms1" "ms_swept ms2 = ms_swept ms1" using i by (auto simp: idCallM_def)
  have "ms' = (if e1 = None then ms3 else ms1)" using assms m i r by (auto simp: removeMember_def split: option.splits)
  then show ?thesis using st1 m1 i2 reduceAuthority_keeps[OF r] reduceAuthority_sweeps[OF r] by (auto simp: memberWrite_def)
qed

lemma runSwept_write:
  assumes "runSwept env g st = (e, st')" "memberWrite env org user f changed (aw_Members st) (aw_Members st')"
    and "ms_store (aw_Members st') \<noteq> ms_store (aw_Members st)"
  shows "aw_Creds st' = sweepReduced (map_option (atState (aw_Members st')) (an_creds env)) (an_now env) (user, changed) (aw_Creds st)"
  using assms by (auto simp: runSwept_def memberWrite_def split: prod.splits)

lemma runSwept_run: "runSwept env g st = (e, st') \<Longrightarrow> g (Some (\<lambda>_ _. True)) (aw_Members st) = (e, aw_Members st')"
  by (auto simp: runSwept_def split: prod.splits)

text \<open>Every request that changes the store is one of three writes, and its sweep is the one that write calls for.\<close>

lemma memberRequest_cases:
  assumes "memberRequest env org user st st'" "ms_store (aw_Members st') \<noteq> ms_store (aw_Members st)"
  obtains (granted) raw tid changed where "checkRoleAssignment env raw (aw_Members st) = None" "validRoleTemplateID env raw = Some tid"
      "ms_store (aw_Members st') = map_option (setRole org user tid (routeOrgScope org) (an_now env)) (ms_store (aw_Members st))"
      "\<not> changed \<Longrightarrow> \<not> roleChanges (an_flt env) org user tid (routeOrgScope org) (aw_Members st)"
      "aw_Creds st' = sweepReduced (map_option (atState (aw_Members st')) (an_creds env)) (an_now env) (user, changed) (aw_Creds st)"
      "an_write env = IdOk"
  | (withdrawn) "ms_store (aw_Members st') = map_option (deleteRole org user (routeOrgScope org)) (ms_store (aw_Members st))"
      "aw_Creds st' = sweepReduced (map_option (atState (aw_Members st')) (an_creds env)) (an_now env) (user, an_write env \<noteq> IdNotFound) (aw_Creds st)"
  using assms(1)
proof cases
  case (added raw status)
  obtain tid e where r: "checkRoleAssignment env raw (aw_Members st) = None" "validRoleTemplateID env raw = Some tid"
      "runSwept env (addMemberWithRoleTemplate (an_flt env) (an_now env) (an_write env) org user tid (routeOrgScope org)) st = (e, st')"
    using added assms(2) by (auto simp: addOrganizationMemberH_def split: if_splits option.splits prod.splits)
  note w = add_write[OF runSwept_run[OF r(3)], of env]
  show thesis
    by (rule granted[OF r(1,2) _ _ runSwept_write[OF r(3) w assms(2)] add_effect[OF runSwept_run[OF r(3)] assms(2), THEN conjunct1]])
      (use w assms(2) in \<open>auto simp: memberWrite_def\<close>)
next
  case (updated raw status)
  obtain tid e where r: "checkRoleAssignment env raw (aw_Members st) = None" "validRoleTemplateID env raw = Some tid"
      "runSwept env (updateMemberRoleTemplate (an_flt env) (an_now env) (an_write env) org user tid (routeOrgScope org)) st = (e, st')"
    using updated assms(2) by (auto simp: updateOrganizationMemberH_def split: if_splits option.splits prod.splits)
  note w = update_write[OF runSwept_run[OF r(3)], of env]
  show thesis
    by (rule granted[OF r(1,2) _ _ runSwept_write[OF r(3) w assms(2)] update_ok[OF runSwept_run[OF r(3)] assms(2)]])
      (use w assms(2) in \<open>auto simp: memberWrite_def\<close>)
next
  case (removed status)
  obtain e where r: "runSwept env (removeMember (an_flt env) (an_write env) org user (routeOrgScope org)) st = (e, st')"
    using removed by (auto simp: removeOrganizationMemberH_def split: prod.splits)
  note w = remove_write[OF runSwept_run[OF r], of env]
  show thesis
    by (rule withdrawn[OF _ runSwept_write[OF r w assms(2)]]) (use w assms(2) in \<open>auto simp: memberWrite_def\<close>)
qed

section \<open>No role above the caller\<close>

lemma withinCaller_iff: "withinCaller lib caller scopes \<longleftrightarrow> (\<forall>x \<in> set scopes. x \<noteq> ''admin'' \<and> hasScope lib caller x)"
  by (induction scopes) auto

text \<open>The forms the UUID parser documents: a standard text, an URN and the bare digits have no space in them
  and are 36, 45 and 32 bytes long; of 38 bytes only the middle 36 are examined, as a standard text.\<close>

definition uuidForms :: "(string \<Rightarrow> string option) \<Rightarrow> bool" where
  "uuidForms parse \<longleftrightarrow> (\<forall>r i. parse r = Some i \<longrightarrow>
     (length r \<in> {32, 36, 45} \<and> list_all (\<lambda>c. \<not> isSpace c) r)
     \<or> (\<exists>c m d. r = c # m @ [d] \<and> length m = 36 \<and> list_all (\<lambda>c. \<not> isSpace c) m \<and> parse m = Some i))"

lemma trimSpace_around:
  assumes "m \<noteq> []" "list_all (\<lambda>c. \<not> isSpace c) m"
  shows "trimSpace (c # m @ [d]) = (if isSpace c then [] else [c]) @ m @ (if isSpace d then [] else [d])"
proof -
  obtain h t where m: "m = h # t" using assms(1) by (cases m) auto
  obtain u l where l: "m = u @ [l]" using assms(1) by (metis rev_exhaust)
  have h: "\<not> isSpace h" using assms(2) m by simp
  have "\<not> isSpace l" using assms(2) l by simp
  then have r: "dropWhile isSpace (rev m @ v) = rev m @ v" for v using l by simp
  have "dropWhile isSpace (c # m @ [d]) = (if isSpace c then [] else [c]) @ m @ [d]" using h m by simp
  then show ?thesis using r[of "[d]"] r[of "[c]"] r[of "[]"] by (simp add: trimSpace_def)
qed

text \<open>So a text and the text without the space around it are one id, where both are one.\<close>

lemma uuid_trim:
  assumes "uuidForms parse" "parse r = Some i" "parse (trimSpace r) = Some j"
  shows "i = j"
proof -
  have form: "(length x \<in> {32, 36, 45} \<and> list_all (\<lambda>c. \<not> isSpace c) x)
      \<or> (\<exists>c m d. x = c # m @ [d] \<and> length m = 36 \<and> list_all (\<lambda>c. \<not> isSpace c) m \<and> parse m = Some k)" if "parse x = Some k" for x k
    using assms(1) that unfolding uuidForms_def by blast
  have len: "length x \<noteq> 37" if "parse x = Some k" for x k using form[OF that] by auto
  from form[OF assms(2)] show ?thesis
  proof (elim disjE exE conjE)
    assume "list_all (\<lambda>c. \<not> isSpace c) r"
    then have "trimSpace r = r" by (intro trimSpace_id) (cases r; auto simp: list_all_iff)
    with assms(2,3) show ?thesis by simp
  next
    fix c m d assume m: "r = c # m @ [d]" "length m = 36" "list_all (\<lambda>c. \<not> isSpace c) m" "parse m = Some i"
    from m(2) have "m \<noteq> []" by auto
    have "trimSpace r = (if isSpace c then [] else [c]) @ m @ (if isSpace d then [] else [d])"
      unfolding m(1) by (rule trimSpace_around[OF \<open>m \<noteq> []\<close> m(3)])
    with len[OF assms(3)] assms(2,3) m show ?thesis by (cases "isSpace c"; cases "isSpace d") auto
  qed
qed

lemma ceiling:
  assumes "uuidForms (an_uuid env)" "checkRoleAssignment env raw ms = None" "validRoleTemplateID env raw = Some (Some tid)" "ms_store ms = Some s"
  shows "\<exists>t. templateByID tid s = Some t \<and> roleScopesPermittedBy (an_lib env) (scopesOf (an_context env)) (rt_Scopes t)"
proof -
  obtain r where r: "raw = Some r" "trimSpace r \<noteq> []" "an_uuid env (trimSpace r) = Some tid"
    using assms(3) by (auto simp: validRoleTemplateID_def split: if_splits option.splits)
  have "r \<noteq> []" using r(2) by (auto simp: trimSpace_Nil)
  then obtain i where i: "an_uuid env r = Some i" using assms(2) r(1) by (auto simp: checkRoleAssignment_def split: option.splits)
  from uuid_trim[OF assms(1) i r(3)] have "i = tid" .
  then show ?thesis using assms(2,4) r(1) i \<open>r \<noteq> []\<close> by (auto simp: checkRoleAssignment_def split: if_splits option.splits)
qed

text \<open>C29: A request about a member writes at most that member's role, and never one above the caller: the role it
  records is one whose every scope the caller holds, with admin only where the caller is admin. No
  definition of a role changes. The ceiling is checked on the id as it was sent and the role recorded is
  the one it names without the space around it: of the UUID parser only the forms it documents are used.\<close>

theorem roles_stay_within_ceiling:
  assumes "uuidForms (an_uuid env)" "memberRequest env org user st st'" "ms_store (aw_Members st) = Some s" "ms_store (aw_Members st') = Some s'"
  shows "st_Templates s' = st_Templates s
    \<and> (\<forall>o' u'. (o', u') \<noteq> (org, user) \<longrightarrow> onRecord o' u' s' = onRecord o' u' s)
    \<and> (\<forall>tid. onRecord org user s' = Some (Some tid) \<longrightarrow> onRecord org user s = Some (Some tid) \<or>
         (\<exists>t. templateByID tid s = Some t \<and> (hasScope (an_lib env) (scopesOf (an_context env)) ''admin''
            \<or> (\<forall>x \<in> set (rt_Scopes t). x \<noteq> ''admin'' \<and> hasScope (an_lib env) (scopesOf (an_context env)) x))))"
proof (cases "ms_store (aw_Members st') = ms_store (aw_Members st)")
  case True
  then show ?thesis using assms(3,4) by simp
next
  case False
  from assms(2) False show ?thesis
  proof (cases rule: memberRequest_cases)
    case (granted raw tid changed)
    have s': "s' = setRole org user tid (routeOrgScope org) (an_now env) s" using granted(3) assms(3,4) by simp
    have "onRecord org user s' = Some tid" unfolding s' by (rule onRecord_setRole_same) (simp add: routeOrgScope_def)
    moreover have "\<exists>t. templateByID i s = Some t \<and> roleScopesPermittedBy (an_lib env) (scopesOf (an_context env)) (rt_Scopes t)" if "tid = Some i" for i
      using ceiling[OF assms(1) granted(1) _ assms(3)] granted(2) that by simp
    ultimately show ?thesis
      unfolding s' by (auto simp: onRecord_setRole_other roleScopesPermittedBy_def withinCaller_iff split: if_splits)
  next
    case withdrawn
    then have s': "s' = deleteRole org user (routeOrgScope org) s" using assms(3,4) by simp
    show ?thesis unfolding s' by (auto simp: onRecord_deleteRole routeOrgScope_def)
  qed
qed

section \<open>Withdrawn authority\<close>

lemma sweepReduced_parts:
  "sweepReduced (Some sw) now (user, b) cs = snd (keysOnly (Some sw) user (if b then snd (revokeTokens sw now user cs) else cs))"
  by (simp add: sweepReduced_def authorityReduced_def keysOnly_def split: prod.splits)

lemma keysOnly_watermarks: "cs_Watermarks (snd (keysOnly (Some sw) user cs)) = cs_Watermarks cs"
  by (auto simp: keysOnly_def revokeOverAskingKeys_def split: option.splits prod.splits)

lemma revokeTokens_stores:
  "cs_Keys (snd (revokeTokens sw now user cs)) = cs_Keys cs"
  "cs_Watermarks (snd (revokeTokens sw now user cs)) = (if sw_tokens sw = Some False then oput user now (cs_Watermarks cs) else cs_Watermarks cs)"
  by (auto simp: revokeTokens_def revokeAllUserTokens_def split: option.splits)

lemma working_keysOnly:
  assumes "sw_keys sw = Some L" "\<forall>i s. fst (kl_RevokeAPIKey L i s) \<noteq> Some KeyStatementFailed" "\<forall>s. kl_ListAPIKeysByUser L user s \<noteq> None"
    and "retainedScopes sw user = Some retained"
  shows "\<not> oc_Incomplete (fst (keysOnly (Some sw) user cs))"
proof -
  obtain ks where "kl_ListAPIKeysByUser L user (cs_Keys cs) = Some ks" using assms(3) by blast
  then show ?thesis using assms(1,4) sweepKeys_complete[OF assms(2), of "sw_lib sw" retained ks "(nothingSwept, cs_Keys cs)"]
    by (simp add: keysOnly_def revokeOverAskingKeys_def nothingSwept_def case_prod_beta)
qed

text \<open>C28: What ends with a member's role. When a request moved the role on record of a user and a sweeper is
  wired, the user's watermark is set to now, so that every token issued before is revoked, exactly where
  identity did not answer that there was no such member and the token statement works; otherwise all
  watermarks stay. In either case, where the sweep can list and revoke the user's keys and knows the
  scopes the user retains, every key the user still has carries only scopes the new record, or the
  platform-admin carrier, grants. The sweep reports no failure to the caller.\<close>

theorem withdrawn_authority_ends_credentials:
  assumes "memberRequest env org user st st'" "ms_store (aw_Members st) = Some s" "ms_store (aw_Members st') = Some s'"
    and "onRecord org user s' \<noteq> onRecord org user s" "an_creds env = Some sw"
  shows "cs_Watermarks (aw_Creds st') = (if an_write env \<noteq> IdNotFound \<and> sw_tokens sw = Some False
       then oput user (an_now env) (cs_Watermarks (aw_Creds st)) else cs_Watermarks (aw_Creds st))
    \<and> (\<forall>L retained i k. sw_keys sw = Some L \<longrightarrow> sweepLaws L (sw_revokeForUser sw) \<longrightarrow>
         (\<forall>i s. fst (kl_RevokeAPIKey L i s) \<noteq> Some KeyStatementFailed) \<longrightarrow> (\<forall>s. kl_ListAPIKeysByUser L user s \<noteq> None) \<longrightarrow>
         retainedScopes (atState (aw_Members st') sw) user = Some retained \<longrightarrow>
         kl_row L i (cs_Keys (aw_Creds st')) = Some k \<longrightarrow> ak_UserID k = Some user \<longrightarrow> authorityRetained (sw_lib sw) (ak_Scopes k) retained)"
proof -
  let ?sw = "atState (aw_Members st') sw" and ?b = "an_write env \<noteq> IdNotFound"
  have ne: "ms_store (aw_Members st') \<noteq> ms_store (aw_Members st)" using assms(2-4) by auto
  have "aw_Creds st' = sweepReduced (Some ?sw) (an_now env) (user, ?b) (aw_Creds st)"
    using assms(1) ne
  proof (cases rule: memberRequest_cases)
    case (granted raw tid changed)
    have changed
    proof (rule ccontr)
      assume "\<not> changed"
      from roleChanges_sound[OF assms(2) granted(4)[OF this]] have "recorded org user (routeOrgScope org) s = Some tid" by auto
      then have "onRecord org user s = Some tid" by (simp add: recorded_onRecord split: if_splits)
      moreover have "onRecord org user s' = Some tid"
        using granted(3) assms(2,3) onRecord_setRole_same[of "routeOrgScope org" org user tid "an_now env" s] by (simp add: routeOrgScope_def)
      ultimately show False using assms(4) by simp
    qed
    then show ?thesis using granted(5,6) assms(5) by simp
  qed (use assms(5) in simp)
  also have "\<dots> = snd (keysOnly (Some ?sw) user (if ?b then snd (revokeTokens ?sw (an_now env) user (aw_Creds st)) else aw_Creds st))"
    by (rule sweepReduced_parts)
  finally obtain cs1 where c: "aw_Creds st' = snd (keysOnly (Some ?sw) user cs1)"
      "cs1 = (if ?b then snd (revokeTokens ?sw (an_now env) user (aw_Creds st)) else aw_Creds st)" by blast
  have same: "sw_tokens ?sw = sw_tokens sw" "sw_keys ?sw = sw_keys sw" "sw_lib ?sw = sw_lib sw" "sw_revokeForUser ?sw = sw_revokeForUser sw"
    by (simp_all add: atState_def)
  have "authorityRetained (sw_lib sw) (ak_Scopes k) retained"
    if k: "sw_keys sw = Some L" "sweepLaws L (sw_revokeForUser sw)" "\<forall>i s. fst (kl_RevokeAPIKey L i s) \<noteq> Some KeyStatementFailed"
      "\<forall>s. kl_ListAPIKeysByUser L user s \<noteq> None" "retainedScopes ?sw user = Some retained"
      "kl_row L i (cs_Keys (aw_Creds st')) = Some k" "ak_UserID k = Some user" for L retained i k
  proof -
    have keys: "sweepLaws L (sw_revokeForUser ?sw)" "sw_keys ?sw = Some L" using k(1,2) same by simp_all
    have "\<not> oc_Incomplete (fst (keysOnly (Some ?sw) user cs1))" by (rule working_keysOnly[OF keys(2) k(3-5)])
    from complete_sweep_rows[OF keys disjI2[OF prod.collapse[symmetric]] this] k(5-7) c(1) same(3)
    show ?thesis by (auto split: option.splits if_splits)
  qed
  moreover have "cs_Watermarks (aw_Creds st') = cs_Watermarks cs1" unfolding c(1) by (rule keysOnly_watermarks)
  ultimately show ?thesis using c(2) same(1) by (auto simp: revokeTokens_stores)
qed

section \<open>Offboarding\<close>

lemma removeAll_done:
  assumes "removeAllMembershipsForUser flt out removed user allOrgs (Some f) ms = (None, ms')"
  shows "f user True" "ms_swept ms' = ms_swept ms @ [(user, True)]" "gone (\<lambda>a. as_User a = user) ms'"
proof -
  obtain ms1 where m: "mirrorDeleteForUser flt StmtDelete user allOrgs ms = (None, ms1)"
    using assms by (auto simp: removeAllMembershipsForUser_def split: prod.splits option.splits)
  then obtain ms2 where i: "idCallM (IdRemoveAll user) out ms1 = (None, ms2)"
    using assms by (auto simp: removeAllMembershipsForUser_def split: prod.splits option.splits)
  then obtain ms3 where n: "mirrorDeleteForUser flt StmtDeleteAgain user removed ms2 = (None, ms3)"
    using assms m by (auto simp: removeAllMembershipsForUser_def split: prod.splits option.splits)
  have r: "reduceAuthority (Some f) user True ms3 = (None, ms')"
    using assms m i n by (simp add: removeAllMembershipsForUser_def)
  then show "f user True" by (simp add: reduceAuthority_def split: if_splits)
  have "ms_swept ms3 = ms_swept ms" using m i n by (auto simp: mirrorDeleteForUser_def idCallM_def)
  then show "ms_swept ms' = ms_swept ms @ [(user, True)]" using reduceAuthority_sweeps[OF r] by simp
  have "ms_identity ms' \<noteq> ms_identity ms"
    using m i n reduceAuthority_keeps[OF r] by (auto simp: mirrorDeleteForUser_def idCallM_def)
  from removeAll_gone[OF assms this] show "gone (\<lambda>a. as_User a = user) ms'" by (simp add: allOrgs_def)
qed

lemma deprovisioned_watermark:
  assumes "userDeprovisioned (Some sw) now user cs = (out, cs')" "\<not> oc_Incomplete out" "sw_tokens sw \<noteq> None"
  shows "cs_Watermarks cs' = oput user now (cs_Watermarks cs)"
proof -
  obtain fails where f: "sw_tokens sw = Some fails" using assms(3) by blast
  have "oc_Incomplete (fst (revokeTokens sw now user cs)) \<longrightarrow> oc_Incomplete out"
    and "cs_Watermarks cs' = cs_Watermarks (snd (revokeTokens sw now user cs))"
    using assms(1) by (auto simp: userDeprovisioned_def split: prod.splits option.splits if_splits)
  then show ?thesis using f assms(2) by (auto simp: revokeTokens_def revokeAllUserTokens_def nothingSwept_def split: if_splits)
qed

text \<open>C30: Offboarding reports success only when nothing is left. A deletion or an erasure that answers success has
  revoked every token of the user and taken every key away, touched nobody else's, and an erasure
  has also cleared the user's roles in every organization.\<close>

theorem offboarding_is_complete:
  assumes "deleteUserH env i st = (204, st') \<or> eraseUserH env i removed st = (200, st')"
    and "an_creds env = Some sw" "sw_tokens sw \<noteq> None" "sw_keys sw = Some L" "sweepLaws L (sw_revokeForUser sw)"
  shows "cs_Watermarks (aw_Creds st') = oput i (an_now env) (cs_Watermarks (aw_Creds st))
    \<and> (\<forall>j. kl_row L j (cs_Keys (aw_Creds st')) = (case kl_row L j (cs_Keys (aw_Creds st)) of
         None \<Rightarrow> None | Some k \<Rightarrow> if ak_UserID k = Some i then None else Some k))
    \<and> (eraseUserH env i removed st = (200, st') \<longrightarrow> (\<forall>s'. ms_store (aw_Members st') = Some s' \<longrightarrow> (\<forall>org. onRecord org i s' = None)))"
proof -
  obtain out cs where d: "userDeprovisioned (Some sw) (an_now env) i (aw_Creds st) = (out, cs)" by fastforce
  have erased: "\<not> oc_Incomplete out \<and> aw_Creds st' = cs \<and> gone (\<lambda>a. as_User a = i) (aw_Members st')" if e: "eraseUserH env i removed st = (200, st')"
  proof -
    obtain ms where r: "removeAllMembershipsForUser (an_flt env) removed (an_emptied env) i allOrgs (Some (\<lambda>_ _. \<not> oc_Incomplete out)) (aw_Members st) = (None, ms)"
        "aw_Members st' = ms" "aw_Creds st' = (if ms_swept ms \<noteq> ms_swept (aw_Members st) then cs else aw_Creds st)"
      using e d assms(2) by (auto simp: eraseUserH_def called_def Let_def split: option.splits idOutcome.splits prod.splits if_splits)
    from removeAll_done[OF r(1)] r(2,3) show ?thesis by simp
  qed
  moreover have "\<not> oc_Incomplete out \<and> aw_Creds st' = cs" if "deleteUserH env i st = (204, st')"
    using that d assms(2) by (auto simp: deleteUserH_def called_def Let_def split: option.splits idOutcome.splits if_splits)
  ultimately have c: "\<not> oc_Incomplete out" "aw_Creds st' = cs" using assms(1) by blast+
  have "onRecord org i s' = None" if "eraseUserH env i removed st = (200, st')" "ms_store (aw_Members st') = Some s'" for s' org
    using erased[OF that(1)] that(2) by (auto simp: gone_def onRecord_def find_None_iff isPair_def)
  then show ?thesis
    using deprovisioned_watermark[OF d c(1) assms(3)] offboarding_takes_all_keys[OF assms(5,4) d c(1)] c(2) by blast
qed

section \<open>Concrete requests\<close>

definition sampleSweepKeys :: "apiKey list keyLib" where
  "sampleSweepKeys = sampleKeyLib\<lparr>kl_ListAPIKeysByUser := (\<lambda>u s. Some (filter (\<lambda>k. rowIn (ak_ID k) s = Some k \<and> ak_UserID k = Some u) s))\<rparr>"

definition sampleRevokeForUser :: "string \<Rightarrow> apiKey list \<Rightarrow> nat option \<times> apiKey list" where
  "sampleRevokeForUser u s =
     (let mine = (\<lambda>i. case rowIn i s of None \<Rightarrow> False | Some r \<Rightarrow> ak_UserID r = Some u)
      in (Some (length (filter (\<lambda>k. mine (ak_ID k)) s)), filter (\<lambda>k. \<not> mine (ak_ID k)) s))"

lemma rowIn_keep: "rowIn i (filter (\<lambda>k. \<not> q (ak_ID k)) s) = (if q i then None else rowIn i s)"
  by (induction s) auto

lemma sampleSweepKeys_laws: "sweepLaws sampleSweepKeys sampleRevokeForUser"
proof -
  have e: "kl_row sampleSweepKeys = kl_row sampleKeyLib" "kl_RevokeAPIKey sampleSweepKeys = kl_RevokeAPIKey sampleKeyLib"
      "kl_GetAPIKeyByID sampleSweepKeys = kl_GetAPIKeyByID sampleKeyLib" "kl_GetAPIKeysByPrefix sampleSweepKeys = kl_GetAPIKeysByPrefix sampleKeyLib"
    by (simp_all add: sampleSweepKeys_def)
  have "keyReadLaws sampleKeyLib" "revokeLaw sampleKeyLib" using sampleKeyLib_laws unfolding keyLaws_def by blast+
  then have l: "keyReadLaws sampleSweepKeys" "revokeLaw sampleSweepKeys" unfolding keyReadLaws_def revokeLaw_def e by blast+
  have m: "(k \<in> set ks) = (kl_row sampleSweepKeys (ak_ID k) s = Some k \<and> ak_UserID k = Some u)"
    if "kl_ListAPIKeysByUser sampleSweepKeys u s = Some ks" for u ks k s
    using that by (auto simp: sampleSweepKeys_def sampleKeyLib_def dest: rowIn_Some)
  have n: "kl_row sampleSweepKeys i s = None" if "kl_RevokeAPIKey sampleSweepKeys i s = (Some KeyRowNotFound, s')" for i s s'
    using that by (auto simp: sampleSweepKeys_def sampleKeyLib_def split: if_splits)
  have r: "case sampleRevokeForUser u s of
          (None, s') \<Rightarrow> \<forall>i. kl_row sampleSweepKeys i s' = kl_row sampleSweepKeys i s
        | (Some n, s') \<Rightarrow> \<forall>i. kl_row sampleSweepKeys i s' = (case kl_row sampleSweepKeys i s of None \<Rightarrow> None | Some k \<Rightarrow> if ak_UserID k = Some u then None else Some k)" for u s
  proof -
    let ?mine = "\<lambda>i. case rowIn i s of None \<Rightarrow> False | Some r \<Rightarrow> ak_UserID r = Some u"
    have "rowIn i (filter (\<lambda>k. \<not> ?mine (ak_ID k)) s) = (case rowIn i s of None \<Rightarrow> None | Some k \<Rightarrow> if ak_UserID k = Some u then None else Some k)" for i
      unfolding rowIn_keep[of i ?mine s] by (cases "rowIn i s") simp_all
    then show ?thesis unfolding sampleRevokeForUser_def Let_def by (simp add: e sampleKeyLib_def)
  qed
  show ?thesis unfolding sweepLaws_def by (intro conjI allI impI l m n r)
qed

definition sampleSweeper :: "apiKey list sweeper" where
  "sampleSweeper = \<lparr>sw_lib = sampleIdAuth, sw_tokens = Some False, sw_keys = Some sampleSweepKeys, sw_revokeForUser = sampleRevokeForUser,
     sw_orgs = Some sampleReads, sw_admins = (\<lambda>_. AdminIs False)\<rparr>"

definition sampleCreds :: "apiKey list credentialStore" where
  "sampleCreds = \<lparr>cs_Watermarks = [], cs_Keys = [mintedSample]\<rparr>"

text \<open>A caller who holds \<open>admin\<close> in the organization b and \<open>organizations:write\<close> in a.\<close>

definition sampleUUID :: "string \<Rightarrow> string option" where
  "sampleUUID r = (if length r = 36 \<and> list_all (\<lambda>c. \<not> isSpace c) r then Some (dropWhile (\<lambda>c. c = CHR ''0'') r) else None)"

definition idText :: "string \<Rightarrow> string" where
  "idText i = replicate (36 - length i) CHR ''0'' @ i"

definition sampleAdminEnv :: "string list \<Rightarrow> apiKey list adminEnv" where
  "sampleAdminEnv scopes = \<lparr>an_lib = sampleIdAuth, an_flt = (\<lambda>_. False), an_now = 100, an_creds = Some sampleSweeper, an_platformAdmins = None,
     an_Member = (\<lambda>_ _. IdOk), an_Orgs = mr_Orgs sampleReads, an_uuid = sampleUUID,
     an_getUser = (\<lambda>i _. Some \<lparr>iu_ID = i, iu_Email = ''e'', iu_Name = ''n'', iu_OIDCSub = None\<rparr>), an_getOrg = (\<lambda>_. None), an_newID = Some ''new'',
     an_rename = IdOk, an_write = IdOk, an_members = Some [], an_emptied = (\<lambda>_. True), an_route = ''POST'',
     an_context = (sampleSession ''c'' scopes)\<rparr>"

definition sampleAdminState :: "apiKey list adminState" where
  "sampleAdminState = \<lparr>aw_Members = mr_state sampleReads, aw_Creds = sampleCreds, aw_Calls = []\<rparr>"

lemma sampleKeys_work:
  "\<forall>i s. fst (kl_RevokeAPIKey sampleSweepKeys i s) \<noteq> Some KeyStatementFailed" "\<forall>s. kl_ListAPIKeysByUser sampleSweepKeys u s \<noteq> None"
  by (simp_all add: sampleSweepKeys_def sampleKeyLib_def)

abbreviation sampleRemoval :: "apiKey list adminState" where
  "sampleRemoval \<equiv> snd (removeOrganizationMemberH (sampleAdminEnv [''admin'']) ''a'' ''u'' sampleAdminState)"

lemma sampleSweeper_simps [simp]:
  "sw_tokens sampleSweeper = Some False" "sw_keys sampleSweeper = Some sampleSweepKeys" "sw_revokeForUser sampleSweeper = sampleRevokeForUser"
  "sw_lib sampleSweeper = sampleIdAuth" "an_creds (sampleAdminEnv sc) = Some sampleSweeper" "an_write (sampleAdminEnv sc) = IdOk" "an_now (sampleAdminEnv sc) = 100"
  by (simp_all add: sampleSweeper_def sampleAdminEnv_def)

theorem withdrawn_authority_ends_credentials_witness:
  "tokensRevokedSince (cs_Watermarks (aw_Creds sampleRemoval)) ''u'' 99 \<and> cs_Keys (aw_Creds sampleRemoval) = []"
proof -
  let ?env = "sampleAdminEnv [''admin'']"
  have m: "memberRequest ?env ''a'' ''u'' sampleAdminState sampleRemoval" by (rule memberRequest.removed[OF prod.collapse[symmetric]])
  have "(case (ms_store (aw_Members sampleAdminState), ms_store (aw_Members sampleRemoval)) of
      (Some s, Some s') \<Rightarrow> onRecord ''a'' ''u'' s' = None \<and> onRecord ''a'' ''u'' s = Some (Some ''t'') | _ \<Rightarrow> False)
      \<and> retainedScopes (atState (aw_Members sampleRemoval) sampleSweeper) ''u'' = Some [] \<and> \<not> authorityRetained sampleIdAuth [''state:read''] []" by code_simp
  then obtain s s' where s: "ms_store (aw_Members sampleAdminState) = Some s" "ms_store (aw_Members sampleRemoval) = Some s'"
      "onRecord ''a'' ''u'' s' \<noteq> onRecord ''a'' ''u'' s"
      "retainedScopes (atState (aw_Members sampleRemoval) sampleSweeper) ''u'' = Some []" by (auto split: option.splits)
  have "cs_Keys (aw_Creds sampleRemoval) = []" by code_simp
  moreover have "cs_Watermarks (aw_Creds sampleRemoval) = oput ''u'' 100 (cs_Watermarks (aw_Creds sampleAdminState))"
    using withdrawn_authority_ends_credentials[OF m s(1-3), of sampleSweeper] by simp
  moreover have "tokensRevokedSince (oput ''u'' 100 (cs_Watermarks (aw_Creds sampleAdminState))) ''u'' 99" by code_simp
  ultimately show ?thesis by simp
qed

theorem roles_stay_within_ceiling_witness:
  "(let st = snd (addOrganizationMemberH (sampleAdminEnv [''state:write'']) ''b'' (Some (''u'', Some (idText ''adm''))) sampleAdminState);
        st' = snd (addOrganizationMemberH (sampleAdminEnv [''state:write'']) ''b'' (Some (''u'', Some (idText ''t''))) sampleAdminState)
    in ms_store (aw_Members st) = ms_store (aw_Members sampleAdminState)
       \<and> (\<exists>s'. ms_store (aw_Members st') = Some s' \<and> onRecord ''b'' ''u'' s' = Some (Some ''t'')
            \<and> (\<exists>t. templateByID ''t'' s' = Some t \<and> list_all (hasScope sampleIdAuth [''state:write'']) (rt_Scopes t))))"
proof -
  let ?env = "sampleAdminEnv [''state:write'']"
  let ?st' = "snd (addOrganizationMemberH ?env ''b'' (Some (''u'', Some (idText ''t''))) sampleAdminState)"
  have m: "memberRequest ?env ''b'' ''u'' sampleAdminState ?st'" by (rule memberRequest.added[OF prod.collapse[symmetric]])
  have u: "uuidForms (an_uuid ?env)" by (simp add: uuidForms_def sampleAdminEnv_def sampleUUID_def)
  have "(case (ms_store (aw_Members sampleAdminState), ms_store (aw_Members ?st')) of
      (Some s, Some s') \<Rightarrow> onRecord ''b'' ''u'' s' = Some (Some ''t'') \<and> onRecord ''b'' ''u'' s = None | _ \<Rightarrow> False)" by code_simp
  then obtain s s' where s: "ms_store (aw_Members sampleAdminState) = Some s" "ms_store (aw_Members ?st') = Some s'"
      "onRecord ''b'' ''u'' s' = Some (Some ''t'')" "onRecord ''b'' ''u'' s = None" by (auto split: option.splits)
  note r = roles_stay_within_ceiling[OF u m s(1,2)]
  have a: "an_lib ?env = sampleIdAuth" "scopesOf (an_context ?env) = [''state:write'']" "\<not> hasScope sampleIdAuth [''state:write''] ''admin''"
    by (simp add: sampleAdminEnv_def, simp add: sampleAdminEnv_def sampleSession_def scopesOf_def, code_simp)
  have "templateByID ''t'' s' = templateByID ''t'' s" using r by (simp add: templateByID_def)
  then have "\<exists>t. templateByID ''t'' s' = Some t \<and> (\<forall>x \<in> set (rt_Scopes t). hasScope sampleIdAuth [''state:write''] x)"
    using r s(3,4) a by auto
  moreover have "ms_store (aw_Members (snd (addOrganizationMemberH ?env ''b'' (Some (''u'', Some (idText ''adm''))) sampleAdminState))) = ms_store (aw_Members sampleAdminState)"
    by code_simp
  ultimately show ?thesis using s(2,3) unfolding Let_def list_all_iff by blast
qed

theorem offboarding_is_complete_witness:
  "let st' = snd (eraseUserH (sampleAdminEnv [''admin'']) ''u'' IdOk sampleAdminState)
   in fst (eraseUserH (sampleAdminEnv [''admin'']) ''u'' IdOk sampleAdminState) = 200
      \<and> oget ''u'' (cs_Watermarks (aw_Creds st')) = Some 100 \<and> rowIn ''k'' (cs_Keys (aw_Creds st')) = None"
proof -
  let ?env = "sampleAdminEnv [''admin'']" and ?r = "eraseUserH (sampleAdminEnv [''admin'']) ''u'' IdOk sampleAdminState"
  have f: "fst ?r = 200" by code_simp
  then have e: "?r = (200, snd ?r)" by (simp add: prod_eq_iff)
  have k: "sweepLaws sampleSweepKeys (sw_revokeForUser sampleSweeper)" using sampleSweepKeys_laws by simp
  note o = offboarding_is_complete[OF disjI2[OF e] _ _ _ k, simplified]
  have "kl_row sampleSweepKeys = rowIn" "rowIn ''k'' (cs_Keys (aw_Creds sampleAdminState)) = Some mintedSample" "ak_UserID mintedSample = Some ''u''"
    by (simp_all add: sampleSweepKeys_def sampleKeyLib_def sampleAdminState_def sampleCreds_def mintedSample_def)
  then show ?thesis using o f by (auto simp: Let_def)
qed

text \<open>The ceiling looks at the scopes of the credential, which are those of all organizations together: a
  caller who may only manage organization a, being an administrator of b, appoints an administrator of a.\<close>

lemma ceiling_is_not_per_organization:
  "let env = sampleAdminEnv [''organizations:write'', ''admin''];
       s = \<lparr>st_Templates = \<lparr>rt_ID = ''own'', rt_Name = ''org_manager'', rt_DisplayName = [], rt_Description = None,
              rt_Scopes = [''organizations:write''], rt_IsSystem = False\<rparr> # (case ms_store (mr_state sampleReads) of Some x \<Rightarrow> st_Templates x | None \<Rightarrow> []),
            st_Assignments = [\<lparr>as_Org = ''a'', as_User = ''c'', as_Role = Some ''own'', as_MirroredAt = 0\<rparr>]\<rparr>;
       ms = \<lparr>ms_store = Some s, ms_identity = [], ms_swept = []\<rparr>;
       r = addOrganizationMemberH env ''a'' (Some (''x'', Some (idText ''adm''))) (sampleAdminState\<lparr>aw_Members := ms\<rparr>)
   in getUserScopesForOrg (an_flt env) IdOk ''c'' ''a'' ms = Inr [''organizations:write''] \<and> requireOrgScope env ''a'' ms = None
      \<and> fst r = 201 \<and> map_option (onRecord ''a'' ''x'') (ms_store (aw_Members (snd r))) = Some (Some (Some ''adm''))"
  by code_simp

definition sampleSession0 :: claims where
  "sampleSession0 = \<lparr>cl_UserID = ''u'', cl_Email = [], cl_Scopes = [''state:write''], cl_JTI = [], cl_IssuedAt = Some 40\<rparr>"

theorem swept_sessions_are_refused_witness:
  "\<exists>st. authMiddleware ((sampleAuthDeps [])\<lparr>ad_validate := (\<lambda>_. Some sampleSession0),
       ad_userRevoked := Some (\<lambda>u t. Some (tokensRevokedSince [(''u'', 50)] u t))\<rparr>) 1
     \<lparr>rq_Authorization = ''Bearer jwt'', rq_AuthCookie = None\<rparr> emptyContext = Inl st"
proof -
  let ?ad = "(sampleAuthDeps [])\<lparr>ad_validate := (\<lambda>_. Some sampleSession0), ad_userRevoked := Some (\<lambda>u t. Some (tokensRevokedSince [(''u'', 50)] u t))\<rparr>"
  obtain out cs' where o: "authorityReduced (Some sampleSweeper) 50 ''u'' sampleCreds = (out, cs')" by fastforce
  have "oc_TokensRevoked (fst (authorityReduced (Some sampleSweeper) 50 ''u'' sampleCreds)) \<and>
      cs_Watermarks (snd (authorityReduced (Some sampleSweeper) 50 ''u'' sampleCreds)) = [(''u'', 50)]" by code_simp
  then have w: "oc_TokensRevoked out" "cs_Watermarks cs' = [(''u'', 50)]" using o by simp_all
  have "cleanupExpiredWatermarks 60 25 [(''u'', 50)] = [(''u'', 50 :: int)]" by (simp add: cleanupExpiredWatermarks_def)
  then have "watermarkStep 25 (60, [(''u'', 50)]) (60, [(''u'', 50)])" using watermarkStep.cleaned[of 25 25 60 "[(''u'', 50)]"] by simp
  moreover have "watermarkStep 25 (50, [(''u'', 50)]) (60, [(''u'', 50)])" by (rule watermarkStep.later) simp
  ultimately have r: "watermarkRun 25 (50, cs_Watermarks cs') (60, [(''u'', 50)])"
    unfolding w(2) by (intro watermarkRun.step[OF watermarkRun.step[OF watermarkRun.refl]])
  have x: "extractToken \<lparr>rq_Authorization = ''Bearer jwt'', rq_AuthCookie = None\<rparr> = (''jwt'', False)" by code_simp
  show ?thesis
    by (rule swept_sessions_are_refused[OF disjI1[OF o] w(1) _ r _ _ _ _ _ _ x, where cl = sampleSession0 and iat = 40])
      (simp_all add: sampleCreds_def omap_ok_def sampleSession0_def emptyContext_def)
qed

theorem sweep_leaves_justified_keys_witness:
  "rowIn ''k'' (cs_Keys (snd (keysOnly (Some sampleSweeper) ''u'' sampleCreds))) = Some mintedSample"
proof -
  let ?r = "keysOnly (Some sampleSweeper) ''u'' sampleCreds"
  have "\<not> oc_Incomplete (fst ?r) \<and> retainedScopes sampleSweeper ''u'' = Some [''state:read'', ''state:write'']
      \<and> authorityRetained sampleIdAuth (ak_Scopes mintedSample) [''state:read'', ''state:write''] \<and> rowIn ''k'' (cs_Keys sampleCreds) = Some mintedSample"
    by code_simp
  note c = this
  have k: "sweepLaws sampleSweepKeys (sw_revokeForUser sampleSweeper)" "kl_row sampleSweepKeys = rowIn"
    using sampleSweepKeys_laws by (simp_all add: sampleSweepKeys_def sampleKeyLib_def)
  have "keysOnly (Some sampleSweeper) ''u'' sampleCreds = (fst ?r, snd ?r)" by simp
  from sweep_leaves_justified_keys[OF k(1) sampleSweeper_simps(2) disjI2[OF this], unfolded k(2)] c show ?thesis by auto
qed
end
