(* ===== verification/Sources.thy ===== *)
theory Sources
  imports DriftCallback Credentials Access
begin

text \<open>
  \<open>db/repositories/source_repository.go\<close> with its scoped half and the handlers of \<open>api/sources.go\<close>: the
  backends states live in, their stored credentials, and what is read through them.

  Building a connector, what it lists and reads, the JSON text of a credential map and the form of a
  UUID are parameters. Analysis runs that a change starts in the background, report files and audit
  rows are left out; a reply is a status or what the body shows.
\<close>

section \<open>The table\<close>

record source =
  sr_ID :: string
  sr_Name :: string
  sr_Type :: string
  sr_Endpoint :: string
  sr_Config :: "json gomap"
  sr_Scope :: "json gomap"
  sr_EncryptedCredentials :: string
  sr_CreatedAt :: int
  sr_UpdatedAt :: int
  sr_Org :: "string option"

definition listSources :: "source list \<Rightarrow> source list" where
  "listSources = sort_key (\<lambda>s. - sr_CreatedAt s)"

definition listSourcesInScope :: "scope \<Rightarrow> source list \<Rightarrow> source list" where
  "listSourcesInScope = readInScope [] listSources (\<lambda>ids t. sort_key (\<lambda>s. - sr_CreatedAt s) (filter (\<lambda>s. anyOrg ids (sr_Org s)) t))"

definition listSourcePage :: "nat \<Rightarrow> nat \<Rightarrow> source list \<Rightarrow> source list" where
  "listSourcePage limit offset t = take limit (drop offset (listSources t))"

definition listSourcePageInScope :: "nat \<Rightarrow> nat \<Rightarrow> scope \<Rightarrow> source list \<Rightarrow> source list" where
  "listSourcePageInScope limit offset = readInScope [] (listSourcePage limit offset)
     (\<lambda>ids t. take limit (drop offset (sort_key (\<lambda>s. - sr_CreatedAt s) (filter (\<lambda>s. anyOrg ids (sr_Org s)) t))))"

definition countSources :: "source list \<Rightarrow> nat" where
  "countSources = length"

definition countSourcesInScope :: "scope \<Rightarrow> source list \<Rightarrow> nat" where
  "countSourcesInScope = readInScope 0 countSources (\<lambda>ids t. length (filter (\<lambda>s. anyOrg ids (sr_Org s)) t))"

definition getSource :: "string \<Rightarrow> source list \<Rightarrow> source option" where
  "getSource i = List.find (\<lambda>s. sr_ID s = i)"

definition sourceByIDInScope :: "string \<Rightarrow> scope \<Rightarrow> source list \<Rightarrow> source option" where
  "sourceByIDInScope i = readInScope None (getSource i) (\<lambda>ids. List.find (\<lambda>s. anyOrg ids (sr_Org s) \<and> sr_ID s = i))"

definition createSource :: "bool \<Rightarrow> int \<Rightarrow> string \<Rightarrow> source \<Rightarrow> string \<Rightarrow> source list \<Rightarrow> (connErr + source) \<times> source list" where
  "createSource fails now newID s org t =
     (if trimSpace org = [] then (Inl ConnNoOrganization, t)
      else if fails then (Inl ConnStatementFailed, t)
      else (let r = s\<lparr>sr_ID := newID, sr_CreatedAt := now, sr_UpdatedAt := now, sr_Org := Some (trimSpace org)\<rparr> in (Inr r, t @ [r])))"

text \<open>An update without credentials keeps the stored ones; type and organization are never written.\<close>

definition editSource :: "int \<Rightarrow> source \<Rightarrow> source \<Rightarrow> source" where
  "editSource now s r =
     r\<lparr>sr_Name := sr_Name s, sr_Endpoint := sr_Endpoint s, sr_Config := sr_Config s, sr_Scope := sr_Scope s,
       sr_EncryptedCredentials := (if sr_EncryptedCredentials s = [] then sr_EncryptedCredentials r else sr_EncryptedCredentials s),
       sr_UpdatedAt := now\<rparr>"

definition updateSourceWhere :: "bool \<Rightarrow> int \<Rightarrow> source \<Rightarrow> (source \<Rightarrow> bool) \<Rightarrow> source list \<Rightarrow> (connErr + source option) \<times> source list" where
  "updateSourceWhere fails now s q t =
     (if fails then (Inl ConnStatementFailed, t)
      else (Inr (map_option (editSource now s) (List.find (\<lambda>r. sr_ID r = sr_ID s \<and> q r) t)),
            snd (updateWhere (\<lambda>r. sr_ID r = sr_ID s \<and> q r) (editSource now s) t)))"

definition updateSourceInScope :: "bool \<Rightarrow> int \<Rightarrow> source \<Rightarrow> scope \<Rightarrow> source list \<Rightarrow> (connErr + source option) \<times> source list" where
  "updateSourceInScope fails now s =
     writeInScope (Inl ConnNotInScope) (updateSourceWhere fails now s (\<lambda>_. True)) (\<lambda>ids. updateSourceWhere fails now s (\<lambda>r. anyOrg ids (sr_Org r)))"

definition deleteSource :: "bool \<Rightarrow> string \<Rightarrow> source list \<Rightarrow> (connErr + bool) \<times> source list" where
  "deleteSource fails i t = (if fails then (Inl ConnStatementFailed, t) else (Inr True, snd (deleteRows (\<lambda>r. sr_ID r = i) t)))"

definition deleteSourceInScope :: "bool \<Rightarrow> string \<Rightarrow> scope \<Rightarrow> source list \<Rightarrow> (connErr + bool) \<times> source list" where
  "deleteSourceInScope fails i =
     writeInScope (Inl ConnNotInScope) (deleteSource fails i)
       (\<lambda>ids t. if fails then (Inl ConnStatementFailed, t)
                else (case deleteRows (\<lambda>r. sr_ID r = i \<and> anyOrg ids (sr_Org r)) t of (n, t') \<Rightarrow> (Inr (0 < n), t')))"

lemma editSource_keeps [simp]:
  "sr_ID (editSource now s r) = sr_ID r" "sr_Org (editSource now s r) = sr_Org r" "sr_Type (editSource now s r) = sr_Type r"
  by (simp_all add: editSource_def)

interpretation listSources: scoped_reader sr_Org "[]" listSources "\<lambda>ids t. sort_key (\<lambda>s. - sr_CreatedAt s) (filter (\<lambda>s. anyOrg ids (sr_Org s)) t)"
  by unfold_locales (simp_all add: listSources_def)

interpretation listSourcePage: scoped_reader sr_Org "[]" "listSourcePage limit offset"
    "\<lambda>ids t. take limit (drop offset (sort_key (\<lambda>s. - sr_CreatedAt s) (filter (\<lambda>s. anyOrg ids (sr_Org s)) t)))" for limit offset
  by unfold_locales (simp_all add: listSourcePage_def listSources_def)

interpretation countSources: scoped_reader sr_Org 0 countSources "\<lambda>ids t. length (filter (\<lambda>s. anyOrg ids (sr_Org s)) t)"
  by unfold_locales (simp_all add: countSources_def)

interpretation getSource: scoped_reader sr_Org None "getSource i" "\<lambda>ids. List.find (\<lambda>s. anyOrg ids (sr_Org s) \<and> sr_ID s = i)" for i
  by unfold_locales (simp_all add: getSource_def find_filter)

interpretation updateSource: scoped_writer sr_Org "updateSourceWhere fails now s (\<lambda>_. True)"
    "\<lambda>ids. updateSourceWhere fails now s (\<lambda>r. anyOrg ids (sr_Org r))" for fails now s
  by unfold_locales (auto simp: updateSourceWhere_def intro!: updateWhere_others)

interpretation deleteSource: scoped_writer sr_Org "deleteSource fails i"
    "\<lambda>ids t. if fails then (Inl ConnStatementFailed, t)
       else (case deleteRows (\<lambda>r. sr_ID r = i \<and> anyOrg ids (sr_Org r)) t of (n, t') \<Rightarrow> (Inr (0 < n), t'))" for fails i
  by unfold_locales (auto simp: case_prod_beta intro!: deleteRows_others)

section \<open>The handlers\<close>

text \<open>A connector lists the keys of its states with their sizes and reads a state, or fails.\<close>

record connector =
  co_List :: "(string \<times> int) list option"
  co_Read :: "string \<Rightarrow> string option"

record sourceEnv =
  sv_cy :: cryptoEnv
  sv_New :: "string \<Rightarrow> json gomap \<Rightarrow> json gomap \<Rightarrow> connector option"
  sv_marshal :: "json gomap \<Rightarrow> string"
  sv_unmarshal :: "string \<Rightarrow> json gomap option"
  sv_tenant :: tenantLib
  sv_orgExists :: "(string \<Rightarrow> bool) option"
  sv_selected :: string
  sv_isUUID :: "string \<Rightarrow> bool"
  sv_canonicalHost :: "string \<Rightarrow> string"
  sv_now :: int
  sv_newID :: string
  sv_flt :: connFaults
  sv_context :: reqContext

datatype sourceReply = SourceStatus nat | SourceShown source | SourcePage "source list" nat int int | SourceTested nat
  | StateKeys "(string \<times> int) list" | SourceDeleted

record sourceRequest =
  sq_Name :: string
  sq_Type :: string
  sq_Endpoint :: string
  sq_Config :: "json gomap"
  sq_Scope :: "json gomap"
  sq_Credentials :: "json gomap"

text \<open>\<open>decryptCredentials\<close>: no stored bytes are no credentials.\<close>

definition storedCredentials :: "sourceEnv \<Rightarrow> source \<Rightarrow> json gomap option" where
  "storedCredentials sv s =
     (if sr_EncryptedCredentials s = [] then Some []
      else (case openValue (sv_cy sv) (sr_EncryptedCredentials s) PurposeStateSourceCredentials of
              Inl _ \<Rightarrow> None
            | Inr plain \<Rightarrow> sv_unmarshal sv plain))"

text \<open>The bytes stored for submitted credentials, empty for none, or the status of a refusal.\<close>

definition sealCredentials :: "sourceEnv \<Rightarrow> json gomap \<Rightarrow> nat + string" where
  "sealCredentials sv creds =
     (if creds = [] then Inr []
      else if \<not> available (cy_keys (sv_cy sv)) then Inl 400
      else (case sealValue (sv_cy sv) (sv_marshal sv creds) PurposeStateSourceCredentials of Inl _ \<Rightarrow> Inl 500 | Inr enc \<Rightarrow> Inr enc))"

definition sourcePageSize :: int where "sourcePageSize = 500"

text \<open>A positive number up to a bound, or the default.\<close>

definition queryNumber :: "string \<Rightarrow> int \<Rightarrow> int \<Rightarrow> int" where
  "queryNumber v mx dflt = (case atoi v of Some n \<Rightarrow> if 0 < n \<and> n \<le> mx then n else dflt | None \<Rightarrow> dflt)"

definition listSourcesH :: "sourceEnv \<Rightarrow> string \<Rightarrow> string \<Rightarrow> source list \<Rightarrow> sourceReply" where
  "listSourcesH sv perPageQ pageQ t =
     (let perPage = queryNumber perPageQ sourcePageSize sourcePageSize; page = queryNumber pageQ 1000000 1
      in case cx_tenant_scope (sv_context sv) of
           None \<Rightarrow> SourceStatus 500
         | Some sc \<Rightarrow>
             if cf_load (sv_flt sv) then SourceStatus 500
             else SourcePage (listSourcePageInScope (nat perPage) (nat ((page - 1) * perPage)) sc t) (countSourcesInScope sc t) page perPage)"

text \<open>The row made of a request.\<close>

definition requestSource :: "string \<Rightarrow> string \<Rightarrow> sourceRequest \<Rightarrow> string \<Rightarrow> source" where
  "requestSource i ty req enc =
     \<lparr>sr_ID = i, sr_Name = sq_Name req, sr_Type = ty, sr_Endpoint = sq_Endpoint req, sr_Config = sq_Config req,
      sr_Scope = sq_Scope req, sr_EncryptedCredentials = enc, sr_CreatedAt = 0, sr_UpdatedAt = 0, sr_Org = None\<rparr>"

definition createSourceH :: "sourceEnv \<Rightarrow> sourceRequest \<Rightarrow> source list \<Rightarrow> sourceReply \<times> source list" where
  "createSourceH sv req t =
     (if sq_Name req = [] \<or> sq_Type req = [] then (SourceStatus 400, t)
      else if sv_New sv (sq_Type req) (sq_Config req) (sq_Credentials req) = None then (SourceStatus 400, t)
      else (case sealCredentials sv (sq_Credentials req) of
              Inl st \<Rightarrow> (SourceStatus st, t)
            | Inr enc \<Rightarrow>
                (case actingOrganization (sv_tenant sv) (sv_orgExists sv) (sv_selected sv) (sv_context sv) of
                   Inl st \<Rightarrow> (SourceStatus st, t)
                 | Inr org \<Rightarrow>
                     if org = [] then (SourceStatus 200, t)
                     else (case createSource (cf_write (sv_flt sv)) (sv_now sv) (sv_newID sv)
                                  (requestSource [] (sq_Type req) req enc) org t of
                             (Inl _, t') \<Rightarrow> (SourceStatus 500, t')
                           | (Inr created, t') \<Rightarrow> (SourceShown created, t')))))"

definition sourceOf :: "sourceEnv \<Rightarrow> string \<Rightarrow> source list \<Rightarrow> nat + source" where
  "sourceOf sv i t =
     (case cx_tenant_scope (sv_context sv) of
        None \<Rightarrow> Inl 500
      | Some sc \<Rightarrow> if cf_load (sv_flt sv) then Inl 500 else (case sourceByIDInScope i sc t of None \<Rightarrow> Inl 404 | Some s \<Rightarrow> Inr s))"

definition getSourceH :: "sourceEnv \<Rightarrow> string \<Rightarrow> source list \<Rightarrow> sourceReply" where
  "getSourceH sv i t = (case sourceOf sv i t of Inl st \<Rightarrow> SourceStatus st | Inr s \<Rightarrow> SourceShown s)"

text \<open>The credentials an update is tried with: those submitted, else those stored.\<close>

definition validationCredentials :: "sourceEnv \<Rightarrow> json gomap \<Rightarrow> source \<Rightarrow> json gomap option" where
  "validationCredentials sv creds existing = (if creds = [] then storedCredentials sv existing else Some creds)"

definition updateSourceH :: "sourceEnv \<Rightarrow> string \<Rightarrow> sourceRequest \<Rightarrow> source list \<Rightarrow> sourceReply \<times> source list" where
  "updateSourceH sv i req t =
     (case sourceOf sv i t of
        Inl st \<Rightarrow> (SourceStatus st, t)
      | Inr existing \<Rightarrow>
          if sq_Name req = [] then (SourceStatus 400, t)
          else (case validationCredentials sv (sq_Credentials req) existing of
                  None \<Rightarrow> (SourceStatus 500, t)
                | Some creds \<Rightarrow>
                    if sv_New sv (sr_Type existing) (sq_Config req) creds = None then (SourceStatus 400, t)
                    else (case sealCredentials sv (sq_Credentials req) of
                            Inl st \<Rightarrow> (SourceStatus st, t)
                          | Inr enc \<Rightarrow>
                              (case updateSourceInScope (cf_write (sv_flt sv)) (sv_now sv)
                                      (requestSource (sr_ID existing) [] req enc) (case cx_tenant_scope (sv_context sv) of Some sc \<Rightarrow> sc | None \<Rightarrow> noScope) t of
                                 (Inl ConnNotInScope, t') \<Rightarrow> (SourceStatus 404, t')
                               | (Inl _, t') \<Rightarrow> (SourceStatus 500, t')
                               | (Inr None, t') \<Rightarrow> (SourceStatus 404, t')
                               | (Inr (Some updated), t') \<Rightarrow> (SourceShown updated, t')))))"

definition deleteSourceH :: "sourceEnv \<Rightarrow> string \<Rightarrow> source list \<Rightarrow> sourceReply \<times> source list" where
  "deleteSourceH sv i t =
     (case cx_tenant_scope (sv_context sv) of
        None \<Rightarrow> (SourceStatus 500, t)
      | Some sc \<Rightarrow>
          (case deleteSourceInScope (cf_write (sv_flt sv)) i sc t of
             (Inl ConnNotInScope, t') \<Rightarrow> (SourceStatus 404, t')
           | (Inl _, t') \<Rightarrow> (SourceStatus 500, t')
           | (Inr deleted, t') \<Rightarrow> (if deleted then SourceDeleted else SourceStatus 404, t')))"

definition connectorFor :: "sourceEnv \<Rightarrow> string \<Rightarrow> source list \<Rightarrow> nat + connector" where
  "connectorFor sv i t =
     (case sourceOf sv i t of
        Inl st \<Rightarrow> Inl st
      | Inr s \<Rightarrow>
          (case storedCredentials sv s of
             None \<Rightarrow> Inl 500
           | Some creds \<Rightarrow> (case sv_New sv (sr_Type s) (sr_Config s) creds of None \<Rightarrow> Inl 400 | Some conn \<Rightarrow> Inr conn)))"

definition testSourceH :: "sourceEnv \<Rightarrow> string \<Rightarrow> source list \<Rightarrow> sourceReply" where
  "testSourceH sv i t =
     (case connectorFor sv i t of
        Inl st \<Rightarrow> SourceStatus st
      | Inr conn \<Rightarrow> (case co_List conn of None \<Rightarrow> SourceStatus 502 | Some refs \<Rightarrow> SourceTested (length refs)))"

text \<open>\<open>TestSourceConfig\<close>: an unsaved configuration, with the stored credentials of a source where it has none.\<close>

definition testCredentials :: "sourceEnv \<Rightarrow> json gomap \<Rightarrow> string \<Rightarrow> source list \<Rightarrow> nat + json gomap" where
  "testCredentials sv creds sourceID t =
     (if creds \<noteq> [] \<or> sourceID = [] then Inr creds
      else (case sourceOf sv sourceID t of
              Inl st \<Rightarrow> Inl st
            | Inr existing \<Rightarrow> (case storedCredentials sv existing of None \<Rightarrow> Inl 500 | Some stored \<Rightarrow> Inr stored)))"

definition testSourceConfigH :: "sourceEnv \<Rightarrow> sourceRequest \<Rightarrow> string \<Rightarrow> source list \<Rightarrow> sourceReply" where
  "testSourceConfigH sv req sourceID t =
     (if sq_Type req = [] then SourceStatus 400
      else (case testCredentials sv (sq_Credentials req) sourceID t of
              Inl st \<Rightarrow> SourceStatus st
            | Inr creds \<Rightarrow>
                (case sv_New sv (sq_Type req) (sq_Config req) creds of
                   None \<Rightarrow> SourceStatus 400
                 | Some conn \<Rightarrow> (case co_List conn of None \<Rightarrow> SourceStatus 502 | Some refs \<Rightarrow> SourceTested (length refs)))))"

text \<open>\<open>ListStates\<close>: the recorded sizes of the source, None where their query fails, fill in for absent ones.\<close>

definition listStatesH :: "sourceEnv \<Rightarrow> string \<Rightarrow> int gomap option \<Rightarrow> source list \<Rightarrow> sourceReply" where
  "listStatesH sv i sizes t =
     (case connectorFor sv i t of
        Inl st \<Rightarrow> SourceStatus st
      | Inr conn \<Rightarrow>
          (case co_List conn of
             None \<Rightarrow> SourceStatus 502
           | Some refs \<Rightarrow>
               StateKeys (case sizes of
                            None \<Rightarrow> refs
                          | Some m \<Rightarrow> map (\<lambda>(k, n). (k, if n = 0 then (case oget k m of Some z \<Rightarrow> z | None \<Rightarrow> n) else n)) refs)))"

definition readState :: "sourceEnv \<Rightarrow> string \<Rightarrow> string \<Rightarrow> source list \<Rightarrow> nat + string" where
  "readState sv i key t =
     (if key = [] then Inl 400
      else (case connectorFor sv i t of
              Inl st \<Rightarrow> Inl st
            | Inr conn \<Rightarrow> (case co_Read conn key of None \<Rightarrow> Inl 502 | Some d \<Rightarrow> Inr d)))"

text \<open>\<open>AnalyzeState\<close>, \<open>RawState\<close>, \<open>ListStateResources\<close> and \<open>StateOutputs\<close> are a reading and what is made of it,
  which refuses a text it does not understand.\<close>

definition readThen :: "(string \<Rightarrow> 'a option) \<Rightarrow> sourceEnv \<Rightarrow> string \<Rightarrow> string \<Rightarrow> source list \<Rightarrow> nat + 'a" where
  "readThen f sv i key t =
     (case readState sv i key t of Inl st \<Rightarrow> Inl st | Inr d \<Rightarrow> (case f d of None \<Rightarrow> Inl 422 | Some x \<Rightarrow> Inr x))"

section \<open>Module provenance\<close>

definition listRefsBySource :: "string \<Rightarrow> string \<Rightarrow> stateModuleRef list \<Rightarrow> stateModuleRef list" where
  "listRefsBySource src key t = sort_key mf_ModuleSource (filter (\<lambda>r. mf_SourceID r = src \<and> (key = [] \<or> mf_StateKey r = key)) t)"

text \<open>\<open>ListStateModules\<close> looks at no scope.\<close>

definition listStateModulesH :: "sourceEnv \<Rightarrow> string \<Rightarrow> string \<Rightarrow> stateModuleRef list \<Rightarrow> nat + stateModuleRef list" where
  "listStateModulesH sv i key refs = (if cf_load (sv_flt sv) then Inl 500 else Inr (listRefsBySource i key refs))"

record observedRef = stateModuleRef +
  mf_ObservedAt :: int

record consumer =
  cn_SourceID :: string
  cn_SourceName :: string
  cn_StateKey :: string
  cn_ModuleVersion :: "string option"
  cn_ObservedAt :: int

text \<open>The generated column \<open>registry_host_canon\<close>: a default port off, lower case, a final dot off.\<close>

definition dropSuffix :: "string \<Rightarrow> string \<Rightarrow> string" where
  "dropSuffix s suf = (if hasSuffix s suf then take (length s - length suf) s else s)"

definition hostCanon :: "string \<Rightarrow> string" where
  "hostCanon h =
     (let p = (if hasSuffix h '':80'' then dropSuffix h '':80'' else dropSuffix h '':443'')
      in dropSuffix (map (\<lambda>c. if CHR ''A'' \<le> c \<and> c \<le> CHR ''Z'' then char_of (of_char c + 32 :: nat) else c) p) ''.'')"

definition consumerOf :: "source list \<Rightarrow> observedRef \<Rightarrow> consumer" where
  "consumerOf srcs r =
     \<lparr>cn_SourceID = mf_SourceID r, cn_SourceName = (case getSource (mf_SourceID r) srcs of None \<Rightarrow> [] | Some s \<Rightarrow> sr_Name s),
      cn_StateKey = mf_StateKey r, cn_ModuleVersion = mf_ModuleVersion r, cn_ObservedAt = mf_ObservedAt r\<rparr>"

definition consumes :: "string list \<Rightarrow> string \<Rightarrow> observedRef \<Rightarrow> bool" where
  "consumes hosts modul r = (hostCanon (mf_RegistryHost r) \<in> set hosts \<and> mf_ModuleSource r = modul)"

definition findConsumers :: "source list \<Rightarrow> string list \<Rightarrow> string \<Rightarrow> observedRef list \<Rightarrow> consumer list" where
  "findConsumers srcs hosts modul t = map (consumerOf srcs) (sort_key (\<lambda>r. - mf_ObservedAt r) (filter (consumes hosts modul) t))"

text \<open>The organization a reference belongs to is that of its source.\<close>

definition refOrg :: "source list \<Rightarrow> observedRef \<Rightarrow> string option" where
  "refOrg srcs r = (case getSource (mf_SourceID r) srcs of None \<Rightarrow> None | Some s \<Rightarrow> sr_Org s)"

definition findConsumersInScope :: "source list \<Rightarrow> string list \<Rightarrow> string \<Rightarrow> scope \<Rightarrow> observedRef list \<Rightarrow> consumer list" where
  "findConsumersInScope srcs hosts modul = readInScope [] (findConsumers srcs hosts modul)
     (\<lambda>ids t. map (consumerOf srcs) (sort_key (\<lambda>r. - mf_ObservedAt r) (filter (\<lambda>r. anyOrg ids (refOrg srcs r) \<and> consumes hosts modul r) t)))"

interpretation findConsumers: scoped_reader "refOrg srcs" "[]" "findConsumers srcs hosts modul"
    "\<lambda>ids t. map (consumerOf srcs) (sort_key (\<lambda>r. - mf_ObservedAt r) (filter (\<lambda>r. anyOrg ids (refOrg srcs r) \<and> consumes hosts modul r) t))" for srcs hosts modul
  by unfold_locales (simp_all add: findConsumers_def conj_commute)

text \<open>\<open>consumersScope\<close>: the organizations a sibling declares, each once, or the whole fleet.\<close>

fun declaredOrgs :: "(string \<Rightarrow> bool) \<Rightarrow> string list \<Rightarrow> string list \<Rightarrow> string list option" where
  "declaredOrgs isUUID out [] = Some out"
| "declaredOrgs isUUID out (raw # r) =
     (let v = trimSpace raw
      in if v = [] then declaredOrgs isUUID out r
         else if \<not> isUUID v then None
         else if v \<in> set out then declaredOrgs isUUID out r
         else declaredOrgs isUUID (out @ [v]) r)"

definition consumersScope :: "(string \<Rightarrow> bool) \<Rightarrow> string list \<Rightarrow> string \<Rightarrow> scope option" where
  "consumersScope isUUID organizations fleetQ =
     (case declaredOrgs isUUID [] organizations of
        None \<Rightarrow> None
      | Some ids \<Rightarrow>
          (let fleet = (fleetQ = ''1'')
           in if fleet \<and> ids \<noteq> [] then None
              else if fleet then Some \<lparr>sc_PlatformAdmin = True, sc_OrgIDs = []\<rparr>
              else if ids \<noteq> [] then Some \<lparr>sc_PlatformAdmin = False, sc_OrgIDs = ids\<rparr>
              else None))"

text \<open>The hosts asked about: canonical, not empty, each once.\<close>

definition consumerHosts :: "(string \<Rightarrow> string) \<Rightarrow> string list \<Rightarrow> string list" where
  "consumerHosts canonicalHost raws = rev (remdups (rev (filter (\<lambda>h. h \<noteq> []) (map canonicalHost raws))))"

definition consumersH :: "sourceEnv \<Rightarrow> string list \<Rightarrow> string \<Rightarrow> string list \<Rightarrow> string \<Rightarrow> source list \<Rightarrow> observedRef list \<Rightarrow> nat + consumer list" where
  "consumersH sv raws modul organizations fleetQ srcs t =
     (let hosts = consumerHosts (sv_canonicalHost sv) raws
      in if hosts = [] \<or> modul = [] then Inl 400
         else (case consumersScope (sv_isUUID sv) organizations fleetQ of
                 None \<Rightarrow> Inl 400
               | Some sc \<Rightarrow> if cf_load (sv_flt sv) then Inl 500 else Inr (findConsumersInScope srcs hosts modul sc t)))"

section \<open>What the handlers keep\<close>

inductive sourceStep :: "sourceEnv \<Rightarrow> source list \<Rightarrow> source list \<Rightarrow> bool" where
  created: "createSourceH sv req t = (r, t') \<Longrightarrow> sourceStep sv t t'"
| updated: "updateSourceH sv i req t = (r, t') \<Longrightarrow> sourceStep sv t t'"
| deleted: "deleteSourceH sv i t = (r, t') \<Longrightarrow> sourceStep sv t t'"

lemma requestSource_fields [simp]:
  "sr_ID (requestSource i ty req enc) = i" "sr_EncryptedCredentials (requestSource i ty req enc) = enc"
  by (simp_all add: requestSource_def)

lemma createSourceH_table:
  assumes "createSourceH sv req t = (r, t')"
  shows "t' = t \<or> (\<exists>org row. actingOrganization (sv_tenant sv) (sv_orgExists sv) (sv_selected sv) (sv_context sv) = Inr org
           \<and> t' = t @ [row] \<and> sr_Org row = Some (trimSpace org))"
  using assms by (auto simp: createSourceH_def createSource_def Let_def split: if_splits sum.splits prod.splits)

lemma updateSourceH_table:
  assumes "updateSourceH sv i req t = (r, t')" "cx_tenant_scope (sv_context sv) = Some sc"
  shows "\<exists>fails now row. t' = t \<or> t' = snd (updateSourceInScope fails now row sc t)"
proof (cases "sourceOf sv i t")
  case (Inr existing)
  show ?thesis
  proof (rule ccontr)
    assume "\<not> ?thesis"
    then have n: "t' \<noteq> t" "\<And>fails now row. t' \<noteq> snd (updateSourceInScope fails now row sc t)" by simp_all
    show False using assms(1) n(1) unfolding updateSourceH_def Inr assms(2)
      by (auto split: if_splits option.splits sum.splits prod.splits connErr.splits) (use n(2) in \<open>metis snd_conv\<close>)+
  qed
qed (use assms(1) in \<open>auto simp: updateSourceH_def\<close>)

lemma deleteSourceH_table:
  assumes "deleteSourceH sv i t = (r, t')" "cx_tenant_scope (sv_context sv) = Some sc"
  shows "t' = snd (deleteSourceInScope (cf_write (sv_flt sv)) i sc t)"
  using assms by (auto simp: deleteSourceH_def split: prod.splits sum.splits connErr.splits)

lemma updateSourceInScope_rows:
  "s' \<in> set (snd (updateSourceInScope fails now row sc t)) \<Longrightarrow> \<exists>s \<in> set t. sr_ID s = sr_ID s' \<and> sr_Type s = sr_Type s' \<and> sr_Org s = sr_Org s'"
  by (auto simp: updateSourceInScope_def writeInScope_def Let_def updateSourceWhere_def updateWhere_def split: if_splits)

lemma deleteSourceInScope_rows: "s' \<in> set (snd (deleteSourceInScope fails i sc t)) \<Longrightarrow> s' \<in> set t"
  by (auto simp: deleteSourceInScope_def writeInScope_def Let_def deleteSource_def deleteRows_def split: if_splits)

lemma actingOrganization_reached:
  assumes "actingOrganization tb exists sel c = Inr org" "cx_tenant_scope c = Some sc"
    and "\<forall>sel org. tb_ActingOrganization tb sc sel = Inr org \<longrightarrow> reaches sc (Some org) \<and> trimSpace org = org"
  shows "reaches sc (Some (trimSpace org))"
  using assms by (auto simp: actingOrganization_def split: option.splits sum.splits actingErr.splits if_splits)

text \<open>A source is written in the caller's organizations only. Creating, updating or deleting one leaves every
  row the request's scope does not reach as it was; a row afterwards is one that was there, with the
  id, backend type and organization it had, or a new one in an organization the scope reaches.\<close>

theorem sources_stay_in_organization:
  assumes "sourceStep sv t t'" "cx_tenant_scope (sv_context sv) = Some sc"
    and "\<forall>sel org. tb_ActingOrganization (sv_tenant sv) sc sel = Inr org \<longrightarrow> reaches sc (Some org) \<and> trimSpace org = org"
  shows "filter (\<lambda>s. \<not> reaches sc (sr_Org s)) t' = filter (\<lambda>s. \<not> reaches sc (sr_Org s)) t
    \<and> (\<forall>s' \<in> set t'. (\<exists>s \<in> set t. sr_ID s = sr_ID s' \<and> sr_Type s = sr_Type s' \<and> sr_Org s = sr_Org s') \<or> reaches sc (sr_Org s'))"
  using assms(1)
proof (cases rule: sourceStep.cases)
  case (created req r)
  then show ?thesis using createSourceH_table[OF created] actingOrganization_reached[OF _ assms(2,3)] by auto
next
  case (updated i req r)
  obtain fails now row where "t' = t \<or> t' = snd (updateSourceInScope fails now row sc t)" using updateSourceH_table[OF updated assms(2)] by blast
  then show ?thesis
  proof
    assume t': "t' = snd (updateSourceInScope fails now row sc t)"
    have "filter (\<lambda>s. \<not> reaches sc (sr_Org s)) t' = filter (\<lambda>s. \<not> reaches sc (sr_Org s)) t"
      unfolding t' updateSourceInScope_def by (rule updateSource.writes_isolated)
    then show ?thesis using updateSourceInScope_rows t' by blast
  qed auto
next
  case (deleted i r)
  note t' = deleteSourceH_table[OF deleted assms(2)]
  have "filter (\<lambda>s. \<not> reaches sc (sr_Org s)) t' = filter (\<lambda>s. \<not> reaches sc (sr_Org s)) t"
    unfolding t' deleteSourceInScope_def by (rule deleteSource.writes_isolated)
  then show ?thesis using deleteSourceInScope_rows t' by blast
qed

lemma sealCredentials_stored:
  assumes "sealCredentials sv creds = Inr enc" "creds \<noteq> []" "sr_EncryptedCredentials s = enc" "sv_unmarshal sv (sv_marshal sv creds) = Some creds"
  shows "storedCredentials sv s = Some creds" "enc \<noteq> []"
proof -
  have "sealValue (sv_cy sv) (sv_marshal sv creds) PurposeStateSourceCredentials = Inr enc"
    using assms(1,2) by (auto simp: sealCredentials_def split: if_splits sum.splits)
  from sealed_opens[OF this] show "storedCredentials sv s = Some creds" "enc \<noteq> []"
    using assms(3,4) by (simp_all add: storedCredentials_def)
qed

lemma updateSourceInScope_shown:
  assumes "updateSourceInScope fails now row sc t = (Inr (Some s), t')"
  shows "\<exists>r \<in> set t. s = editSource now row r \<and> sr_ID r = sr_ID row \<and> reaches sc (sr_Org r)"
  using assms by (auto simp: updateSourceInScope_def writeInScope_def Let_def updateSourceWhere_def split: if_splits dest!: find_SomeD)

lemma sourceByIDInScope_row:
  assumes "sourceByIDInScope i sc t = Some s" shows "s \<in> set t" "sr_ID s = i" "reaches sc (sr_Org s)"
proof -
  from assms have "List.find (\<lambda>s. sr_ID s = i) (filter (\<lambda>r. reaches sc (sr_Org r)) t) = Some s"
    unfolding sourceByIDInScope_def by (simp only: getSource.reads_reached) (simp only: getSource_def)
  from find_SomeD[OF this] show "s \<in> set t" "sr_ID s = i" "reaches sc (sr_Org s)" by simp_all
qed

text \<open>What a source connects with. After a creation the credentials that connect it are those submitted,
  none for none; after an update they are those submitted, or where none were, those it had.\<close>

theorem stored_credentials_connect:
  assumes "sv_unmarshal sv (sv_marshal sv (sq_Credentials req)) = Some (sq_Credentials req)"
  shows "(createSourceH sv req t = (SourceShown s, t') \<longrightarrow> storedCredentials sv s = Some (sq_Credentials req))
    \<and> (updateSourceH sv i req t = (SourceShown s, t') \<longrightarrow>
        (\<exists>old \<in> set t. sr_ID old = sr_ID s \<and> sr_Type old = sr_Type s
           \<and> storedCredentials sv s = (if sq_Credentials req = [] then storedCredentials sv old else Some (sq_Credentials req))))"
proof (intro conjI impI)
  assume c: "createSourceH sv req t = (SourceShown s, t')"
  then obtain enc where e: "sealCredentials sv (sq_Credentials req) = Inr enc" "sr_EncryptedCredentials s = enc"
    by (auto simp: createSourceH_def createSource_def Let_def split: if_splits sum.splits prod.splits)
  then show "storedCredentials sv s = Some (sq_Credentials req)"
    using sealCredentials_stored[OF e(1) _ e(2) assms] by (cases "sq_Credentials req = []") (auto simp: sealCredentials_def storedCredentials_def)
next
  assume u: "updateSourceH sv i req t = (SourceShown s, t')"
  then obtain existing where ex: "sourceOf sv i t = Inr existing" by (cases "sourceOf sv i t") (auto simp: updateSourceH_def)
  then obtain sc where sc: "cx_tenant_scope (sv_context sv) = Some sc" "sourceByIDInScope i sc t = Some existing"
    by (auto simp: sourceOf_def split: option.splits if_splits)
  obtain enc where e: "sealCredentials sv (sq_Credentials req) = Inr enc"
      "updateSourceInScope (cf_write (sv_flt sv)) (sv_now sv) (requestSource (sr_ID existing) [] req enc) sc t = (Inr (Some s), t')"
    using u unfolding updateSourceH_def ex sum.case sc(1) option.case
    by (auto split: if_splits option.splits sum.splits prod.splits connErr.splits)
  obtain r where r: "r \<in> set t" "s = editSource (sv_now sv) (requestSource (sr_ID existing) [] req enc) r" "sr_ID r = sr_ID existing"
    using updateSourceInScope_shown[OF e(2)] by auto
  have "storedCredentials sv s = (if sq_Credentials req = [] then storedCredentials sv r else Some (sq_Credentials req))"
  proof (cases "sq_Credentials req = []")
    case True
    then have "enc = []" using e(1) by (simp add: sealCredentials_def)
    then show ?thesis using True r(2) by (simp add: storedCredentials_def editSource_def)
  next
    case False
    have "enc \<noteq> []" using sealCredentials_stored(2)[OF e(1) False _ assms, of "requestSource [] [] req enc"] by simp
    then have "sr_EncryptedCredentials s = enc" using r(2) by (simp add: editSource_def)
    from sealCredentials_stored(1)[OF e(1) False this assms] False show ?thesis by simp
  qed
  with r show "\<exists>old \<in> set t. sr_ID old = sr_ID s \<and> sr_Type old = sr_Type s
      \<and> storedCredentials sv s = (if sq_Credentials req = [] then storedCredentials sv old else Some (sq_Credentials req))" by auto
qed

section \<open>Who consumes a module\<close>

lemma declaredOrgs_set: "declaredOrgs isUUID out raws = Some ids \<Longrightarrow> set ids \<subseteq> set out \<union> trimSpace ` set raws \<and> ([] \<in> set ids \<longrightarrow> [] \<in> set out)"
  by (induction isUUID out raws rule: declaredOrgs.induct) (fastforce simp: Let_def split: if_splits)+

text \<open>The modules a sibling asks about are answered for the organizations it declares: unless it asks for the
  whole fleet and names no organization, every consumer is a captured reference to the module of a
  source of one of the named organizations; a request that declares nothing is refused.\<close>

theorem consumers_stay_declared:
  assumes "consumersH sv raws modul organizations fleetQ srcs t = Inr cs"
  shows "(fleetQ = ''1'' \<and> (\<forall>o' \<in> set organizations. trimSpace o' = []))
    \<or> (\<forall>c \<in> set cs. \<exists>r \<in> set t. c = consumerOf srcs r \<and> mf_ModuleSource r = modul
         \<and> (\<exists>o' \<in> set organizations. refOrg srcs r = Some (trimSpace o')))"
proof -
  let ?hosts = "consumerHosts (sv_canonicalHost sv) raws"
  obtain sc where sc: "consumersScope (sv_isUUID sv) organizations fleetQ = Some sc" "cs = findConsumersInScope srcs ?hosts modul sc t"
    using assms by (auto simp: consumersH_def Let_def split: if_splits option.splits)
  obtain ids where ids: "declaredOrgs (sv_isUUID sv) [] organizations = Some ids" using sc(1) by (auto simp: consumersScope_def split: option.splits)
  show ?thesis
  proof (cases "ids = []")
    case True
    have "\<forall>o' \<in> set organizations. trimSpace o' = []" if "declaredOrgs (sv_isUUID sv) out organizations = Some []" for out
      using that
    proof (induction organizations arbitrary: out)
      case (Cons raw r)
      have len: "declaredOrgs isU o1 rs = Some ys \<Longrightarrow> length o1 \<le> length ys" for isU o1 rs ys
        by (induction isU o1 rs rule: declaredOrgs.induct) (force simp: Let_def split: if_splits)+
      show ?case
      proof (cases "trimSpace raw = []")
        case False
        then have "trimSpace raw \<in> set out \<or> declaredOrgs (sv_isUUID sv) (out @ [trimSpace raw]) r = Some []"
          using Cons.prems by (auto simp: Let_def split: if_splits)
        moreover have "out = []" using len[OF Cons.prems] by simp
        ultimately show ?thesis using len[of "sv_isUUID sv" "out @ [trimSpace raw]" r "[]"] by auto
      qed (use Cons in \<open>auto simp: Let_def\<close>)
    qed simp
    from this[OF ids[unfolded True]] show ?thesis using sc(1) ids True by (auto simp: consumersScope_def Let_def split: if_splits)
  next
    case False
    then have sc': "sc = \<lparr>sc_PlatformAdmin = False, sc_OrgIDs = ids\<rparr>" using sc(1) ids by (auto simp: consumersScope_def Let_def split: if_splits)
    have "cs = findConsumers srcs ?hosts modul (filter (\<lambda>r. reaches sc (refOrg srcs r)) t)"
      unfolding sc(2) findConsumersInScope_def by (rule findConsumers.reads_reached)
    then have "\<forall>c \<in> set cs. \<exists>r \<in> set t. c = consumerOf srcs r \<and> mf_ModuleSource r = modul \<and> anyOrg ids (refOrg srcs r)"
      unfolding sc' by (auto simp: findConsumers_def consumes_def)
    moreover have "\<exists>o' \<in> set organizations. refOrg srcs r = Some (trimSpace o')" if "anyOrg ids (refOrg srcs r)" for r
      using that declaredOrgs_set[OF ids] by (auto simp: anyOrg_def split: option.splits)
    ultimately show ?thesis by blast
  qed
qed

section \<open>Concrete sources\<close>

text \<open>Credential maps of the examples are empty or one token, whose text is the token.\<close>

definition sampleSourceEnv :: "scope \<Rightarrow> sourceEnv" where
  "sampleSourceEnv sc = \<lparr>sv_cy = sampleCrypto, sv_New = (\<lambda>_ _ _. Some \<lparr>co_List = Some [], co_Read = (\<lambda>_. None)\<rparr>),
     sv_marshal = (\<lambda>m. case m of [(k, JStr s)] \<Rightarrow> s | _ \<Rightarrow> []), sv_unmarshal = (\<lambda>s. Some [(''token'', JStr s)]),
     sv_tenant = \<lparr>tb_Resolve = (\<lambda>_ _ _ _. None), tb_ActingOrganization = (\<lambda>sc _. case sc_OrgIDs sc of [] \<Rightarrow> Inl NoActingOrganization | o' # _ \<Rightarrow> Inr o')\<rparr>,
     sv_orgExists = Some (\<lambda>_. True), sv_selected = [], sv_isUUID = (\<lambda>_. True), sv_canonicalHost = (\<lambda>h. h), sv_now = 5, sv_newID = ''new'',
     sv_flt = noFaults, sv_context = emptyContext\<lparr>cx_tenant_scope := Some sc\<rparr>\<rparr>"

definition sampleSources :: "source list" where
  "sampleSources = [\<lparr>sr_ID = ''s1'', sr_Name = ''one'', sr_Type = ''local'', sr_Endpoint = [], sr_Config = [], sr_Scope = [], sr_EncryptedCredentials = [],
     sr_CreatedAt = 1, sr_UpdatedAt = 1, sr_Org = Some ''a''\<rparr>,
    \<lparr>sr_ID = ''s2'', sr_Name = ''two'', sr_Type = ''local'', sr_Endpoint = [], sr_Config = [], sr_Scope = [], sr_EncryptedCredentials = [],
     sr_CreatedAt = 2, sr_UpdatedAt = 2, sr_Org = Some ''b''\<rparr>]"

definition sampleSourceRequest :: sourceRequest where
  "sampleSourceRequest = \<lparr>sq_Name = ''n'', sq_Type = ''local'', sq_Endpoint = [], sq_Config = [], sq_Scope = [], sq_Credentials = []\<rparr>"

abbreviation scopeA :: scope where "scopeA \<equiv> \<lparr>sc_PlatformAdmin = False, sc_OrgIDs = [''a'']\<rparr>"

theorem sources_stay_in_organization_witness:
  "filter (\<lambda>s. \<not> reaches scopeA (sr_Org s)) (snd (deleteSourceH (sampleSourceEnv scopeA) ''s1'' sampleSources)) = filter (\<lambda>s. \<not> reaches scopeA (sr_Org s)) sampleSources
   \<and> map sr_ID (snd (deleteSourceH (sampleSourceEnv scopeA) ''s1'' sampleSources)) = [''s2'']
   \<and> map sr_ID (snd (deleteSourceH (sampleSourceEnv scopeA) ''s2'' sampleSources)) = [''s1'', ''s2'']"
proof (intro conjI)
  let ?sv = "sampleSourceEnv scopeA"
  have "sourceStep ?sv sampleSources (snd (deleteSourceH ?sv ''s1'' sampleSources))" by (rule sourceStep.deleted[OF surjective_pairing])
  moreover have "cx_tenant_scope (sv_context ?sv) = Some scopeA" by (simp add: sampleSourceEnv_def)
  moreover have "\<forall>sel org. tb_ActingOrganization (sv_tenant ?sv) scopeA sel = Inr org \<longrightarrow> reaches scopeA (Some org) \<and> trimSpace org = org"
    by (auto simp: sampleSourceEnv_def trimSpace_def isSpace_def)
  ultimately show "filter (\<lambda>s. \<not> reaches scopeA (sr_Org s)) (snd (deleteSourceH ?sv ''s1'' sampleSources)) = filter (\<lambda>s. \<not> reaches scopeA (sr_Org s)) sampleSources"
    by (rule conjunct1[OF sources_stay_in_organization])
qed code_simp+

text \<open>The module provenance of a source is shown to whoever may read states, whatever organization the source
  belongs to, while the source itself is not found for them.\<close>

lemma modules_ignore_scope:
  "getSourceH (sampleSourceEnv scopeA) ''s2'' sampleSources = SourceStatus 404
   \<and> listStateModulesH (sampleSourceEnv scopeA) ''s2'' [] [\<lparr>mf_SourceID = ''s2'', mf_StateKey = ''k'', mf_ModuleSource = ''m'', mf_ModuleVersion = None, mf_RegistryHost = ''h''\<rparr>]
     = Inr [\<lparr>mf_SourceID = ''s2'', mf_StateKey = ''k'', mf_ModuleSource = ''m'', mf_ModuleVersion = None, mf_RegistryHost = ''h''\<rparr>]"
  by code_simp

definition sampleObserved :: "observedRef list" where
  "sampleObserved = map (\<lambda>i. \<lparr>mf_SourceID = i, mf_StateKey = ''k'', mf_ModuleSource = ''ns/m/aws'', mf_ModuleVersion = None, mf_RegistryHost = ''Reg.io:443'', mf_ObservedAt = 1\<rparr>) [''s1'', ''s2'']"

theorem consumers_stay_declared_witness:
  "\<forall>c \<in> set [consumerOf sampleSources (hd sampleObserved)]. \<exists>r \<in> set sampleObserved. c = consumerOf sampleSources r \<and> mf_ModuleSource r = ''ns/m/aws''
     \<and> (\<exists>o' \<in> set [''a '']. refOrg sampleSources r = Some (trimSpace o'))"
proof -
  have "consumersH (sampleSourceEnv scopeA) [''reg.io''] ''ns/m/aws'' [''a ''] [] sampleSources sampleObserved = Inr [consumerOf sampleSources (hd sampleObserved)]"
    by code_simp
  from consumers_stay_declared[OF this] show ?thesis by simp
qed

theorem stored_credentials_connect_witness:
  "let sv = sampleSourceEnv scopeA; creds = [(''token'', JStr ''x'')]
   in case createSourceH sv (sampleSourceRequest\<lparr>sq_Credentials := creds\<rparr>) [] of
        (SourceShown s, t') \<Rightarrow> storedCredentials sv s = Some creds \<and> sr_EncryptedCredentials s \<noteq> [] | _ \<Rightarrow> False"
proof -
  let ?sv = "sampleSourceEnv scopeA" and ?req = "sampleSourceRequest\<lparr>sq_Credentials := [(''token'', JStr ''x'')]\<rparr>"
  have h: "sv_unmarshal ?sv (sv_marshal ?sv (sq_Credentials ?req)) = Some (sq_Credentials ?req)" by (simp add: sampleSourceEnv_def)
  have "case createSourceH ?sv ?req [] of (SourceShown s, t') \<Rightarrow> sr_EncryptedCredentials s \<noteq> [] | _ \<Rightarrow> False" by code_simp
  then obtain s t' where s: "createSourceH ?sv ?req [] = (SourceShown s, t')" "sr_EncryptedCredentials s \<noteq> []"
    by (cases "createSourceH ?sv ?req []") (auto split: sourceReply.splits)
  with stored_credentials_connect[OF h, of "[]" s t'] show ?thesis by (simp add: Let_def)
qed
end
