(* ===== verification/Analyses.thy ===== *)
theory Analyses
  imports Analyzer Sources "HOL-Library.Product_Lexorder" "HOL-Library.Option_ord"
begin

text \<open>
  \<open>state_analysis_repository.go\<close> and \<open>state_analysis_scope.go\<close>: the stored analyses of all states, the history of
  each state, the status of each source, and the readers of the dashboard and the reports with their
  scoped halves.

  Three tables are kept: the rows analyses, one row per source and key; the history, only ever appended to
  and pruned; and a status per source. A row belongs to the organization of its source. The order of
  texts is the byte order.
\<close>

section \<open>The tables\<close>

record stateAnalysis =
  sa_SourceID :: string
  sa_StateKey :: string
  sa_VersionMarker :: string
  sa_Size :: int
  sa_TerraformVersion :: string
  sa_Serial :: int
  sa_Lineage :: string
  sa_RUM :: int
  sa_ManagedResources :: int
  sa_DataSources :: int
  sa_TotalResources :: int
  sa_Providers :: "int gomap"
  sa_ResourceTypes :: "int gomap"
  sa_AnalyzedAt :: int

record sourceSyncStatus =
  ss_SourceID :: string
  ss_LastSyncAt :: int
  ss_StatesListed :: int
  ss_ReadErrors :: int
  ss_LastError :: string

record analysisStore =
  as_Live :: "stateAnalysis list"
  as_History :: "stateAnalysis list"
  as_Statuses :: "sourceSyncStatus list"

definition ofState :: "string \<Rightarrow> string \<Rightarrow> stateAnalysis \<Rightarrow> bool" where
  "ofState src key a = (sa_SourceID a = src \<and> sa_StateKey a = key)"

section \<open>Writes\<close>

text \<open>\<open>INSERT .. ON CONFLICT (source_id, state_key) DO UPDATE\<close> of every column.\<close>

definition upsertAnalysis :: "bool \<Rightarrow> int \<Rightarrow> stateAnalysis \<Rightarrow> analysisStore \<Rightarrow> bool \<times> analysisStore" where
  "upsertAnalysis fails now a st =
     (if fails then (False, st)
      else (let r = a\<lparr>sa_AnalyzedAt := now\<rparr>
            in (True, st\<lparr>as_Live := (if list_ex (ofState (sa_SourceID a) (sa_StateKey a)) (as_Live st)
                                   then map (\<lambda>x. if ofState (sa_SourceID a) (sa_StateKey a) x then r else x) (as_Live st)
                                   else as_Live st @ [r])\<rparr>)))"

definition latestAt :: "string \<Rightarrow> string \<Rightarrow> stateAnalysis list \<Rightarrow> int option" where
  "latestAt src key h =
     (case map sa_AnalyzedAt (filter (ofState src key) h) of [] \<Rightarrow> None | ts \<Rightarrow> Some (foldr max ts (hd ts)))"

definition sameSnapshot :: "stateAnalysis \<Rightarrow> stateAnalysis \<Rightarrow> bool" where
  "sameSnapshot a x \<longleftrightarrow> sa_VersionMarker x = sa_VersionMarker a \<and> sa_Size x = sa_Size a \<and> sa_TerraformVersion x = sa_TerraformVersion a
     \<and> sa_Serial x = sa_Serial a \<and> sa_RUM x = sa_RUM a \<and> sa_TotalResources x = sa_TotalResources a"

text \<open>The insertion happens unless a latest row of the state is the same snapshot.\<close>

definition appendHistoryIfChanged :: "bool \<Rightarrow> int \<Rightarrow> stateAnalysis \<Rightarrow> analysisStore \<Rightarrow> bool option \<times> analysisStore" where
  "appendHistoryIfChanged fails now a st =
     (if fails then (None, st)
      else if list_ex (\<lambda>x. ofState (sa_SourceID a) (sa_StateKey a) x
               \<and> Some (sa_AnalyzedAt x) = latestAt (sa_SourceID a) (sa_StateKey a) (as_History st) \<and> sameSnapshot a x) (as_History st)
      then (Some False, st)
      else (Some True, st\<lparr>as_History := as_History st @ [a\<lparr>sa_AnalyzedAt := now\<rparr>]\<rparr>))"

definition historyDays :: int where "historyDays = 180"

definition pruneHistory :: "bool \<Rightarrow> int \<Rightarrow> analysisStore \<Rightarrow> analysisStore" where
  "pruneHistory fails now st =
     (if fails then st else st\<lparr>as_History := filter (\<lambda>x. \<not> sa_AnalyzedAt x < now - historyDays * 86400) (as_History st)\<rparr>)"

definition deleteMissing :: "bool \<Rightarrow> string \<Rightarrow> string list \<Rightarrow> analysisStore \<Rightarrow> analysisStore" where
  "deleteMissing fails src keep st =
     (if fails then st else st\<lparr>as_Live := filter (\<lambda>x. \<not> (sa_SourceID x = src \<and> sa_StateKey x \<notin> set keep)) (as_Live st)\<rparr>)"

definition deleteAnalysis :: "bool \<Rightarrow> string \<Rightarrow> string \<Rightarrow> analysisStore \<Rightarrow> analysisStore" where
  "deleteAnalysis fails src key st = (if fails then st else st\<lparr>as_Live := filter (\<lambda>x. \<not> ofState src key x) (as_Live st)\<rparr>)"

definition upsertSyncStatus :: "bool \<Rightarrow> int \<Rightarrow> sourceSyncStatus \<Rightarrow> analysisStore \<Rightarrow> analysisStore" where
  "upsertSyncStatus fails now s st =
     (if fails then st
      else (let r = s\<lparr>ss_LastSyncAt := now\<rparr>
            in st\<lparr>as_Statuses := (if list_ex (\<lambda>x. ss_SourceID x = ss_SourceID s) (as_Statuses st)
                                then map (\<lambda>x. if ss_SourceID x = ss_SourceID s then r else x) (as_Statuses st)
                                else as_Statuses st @ [r])\<rparr>))"

section \<open>Readers\<close>

definition markersOf :: "string \<Rightarrow> analysisStore \<Rightarrow> string gomap" where
  "markersOf src st = fold (\<lambda>a. oput (sa_StateKey a) (sa_VersionMarker a)) (filter (\<lambda>a. sa_SourceID a = src) (as_Live st)) []"

definition sizesOf :: "string \<Rightarrow> analysisStore \<Rightarrow> int gomap" where
  "sizesOf src st = fold (\<lambda>a. oput (sa_StateKey a) (sa_Size a)) (filter (\<lambda>a. sa_SourceID a = src) (as_Live st)) []"

definition historyOf :: "string \<Rightarrow> string \<Rightarrow> int \<Rightarrow> analysisStore \<Rightarrow> stateAnalysis list" where
  "historyOf src key limit st =
     take (nat (if limit \<le> 0 \<or> 1000 < limit then 200 else limit)) (sort_key (\<lambda>a. - sa_AnalyzedAt a) (filter (ofState src key) (as_History st)))"

record analysisTotals =
  at_States :: int
  at_RUM :: int
  at_ManagedResources :: int
  at_DataSources :: int
  at_TotalResources :: int

definition sumOf :: "(stateAnalysis \<Rightarrow> int) \<Rightarrow> stateAnalysis list \<Rightarrow> int" where
  "sumOf f t = sum_list (map f t)"

definition totals :: "stateAnalysis list \<Rightarrow> analysisTotals" where
  "totals t = \<lparr>at_States = int (length t), at_RUM = sumOf sa_RUM t, at_ManagedResources = sumOf sa_ManagedResources t,
     at_DataSources = sumOf sa_DataSources t, at_TotalResources = sumOf sa_TotalResources t\<rparr>"

text \<open>\<open>SELECT key, SUM(value) .. GROUP BY key\<close> over a column of maps.\<close>

definition jsonbCounts :: "(stateAnalysis \<Rightarrow> int gomap) \<Rightarrow> stateAnalysis list \<Rightarrow> int gomap" where
  "jsonbCounts f t = fold (\<lambda>(k, n). bump k n) (concat (map f t)) []"

definition providerCounts :: "stateAnalysis list \<Rightarrow> int gomap" where "providerCounts = jsonbCounts sa_Providers"

definition resourceTypeCounts :: "stateAnalysis list \<Rightarrow> int gomap" where "resourceTypeCounts = jsonbCounts sa_ResourceTypes"

definition versionCounts :: "stateAnalysis list \<Rightarrow> int gomap" where
  "versionCounts t = fold (\<lambda>a. bump (if sa_TerraformVersion a = [] then ''unknown'' else sa_TerraformVersion a) 1) t []"

text \<open>A row joined with its source; without one the name and the type are empty, and sort last.\<close>

record stateRow = stateAnalysis +
  sa_SourceName :: string
  sa_SourceType :: string

definition nameOf :: "source list \<Rightarrow> stateAnalysis \<Rightarrow> string option" where
  "nameOf srcs a = map_option sr_Name (getSource (sa_SourceID a) srcs)"

definition joinSource :: "source list \<Rightarrow> stateAnalysis \<Rightarrow> stateRow" where
  "joinSource srcs a = stateAnalysis.extend a
     \<lparr>sa_SourceName = (case getSource (sa_SourceID a) srcs of None \<Rightarrow> [] | Some s \<Rightarrow> sr_Name s),
      sa_SourceType = (case getSource (sa_SourceID a) srcs of None \<Rightarrow> [] | Some s \<Rightarrow> sr_Type s)\<rparr>"

definition byName :: "source list \<Rightarrow> stateAnalysis \<Rightarrow> (bool \<times> string) \<times> string" where
  "byName srcs a = (case nameOf srcs a of None \<Rightarrow> (True, []) | Some n \<Rightarrow> (False, n), sa_StateKey a)"

definition stateVersions :: "source list \<Rightarrow> stateAnalysis list \<Rightarrow> stateRow list" where
  "stateVersions srcs t = map (joinSource srcs) (sort_key (\<lambda>a. (sa_TerraformVersion a, byName srcs a)) t)"

text \<open>The count of all matches rides on every row, so that no row reports no match.\<close>

definition statesByVersionExact :: "source list \<Rightarrow> string \<Rightarrow> nat \<Rightarrow> stateAnalysis list \<Rightarrow> stateRow list \<times> int" where
  "statesByVersionExact srcs version limit t =
     (let m = filter (\<lambda>a. sa_TerraformVersion a = version) t; out = take limit (sort_key (byName srcs) m)
      in (map (joinSource srcs) out, if out = [] then 0 else int (length m)))"

record stateQueryFilter =
  qf_SourceIDs :: "string list"
  qf_KeyContains :: string
  qf_VersionExact :: "string option"
  qf_RUM :: "int option \<times> int option"
  qf_Managed :: "int option \<times> int option"
  qf_Data :: "int option \<times> int option"
  qf_Total :: "int option \<times> int option"
  qf_Size :: "int option \<times> int option"

definition noFilter :: stateQueryFilter where
  "noFilter = \<lparr>qf_SourceIDs = [], qf_KeyContains = [], qf_VersionExact = None, qf_RUM = (None, None), qf_Managed = (None, None),
     qf_Data = (None, None), qf_Total = (None, None), qf_Size = (None, None)\<rparr>"

definition inBounds :: "int option \<times> int option \<Rightarrow> int \<Rightarrow> bool" where
  "inBounds b v = ((case fst b of None \<Rightarrow> True | Some m \<Rightarrow> m \<le> v) \<and> (case snd b of None \<Rightarrow> True | Some m \<Rightarrow> v \<le> m))"

definition lowerText :: "string \<Rightarrow> string" where
  "lowerText s = map (\<lambda>c. if CHR ''A'' \<le> c \<and> c \<le> CHR ''Z'' then char_of (of_char c + 32 :: nat) else c) s"

text \<open>\<open>buildStateWhere\<close>: the conditions of a filter, which are ANDed.\<close>

definition stateWhere :: "stateQueryFilter \<Rightarrow> stateAnalysis \<Rightarrow> bool" where
  "stateWhere f a \<longleftrightarrow>
     (qf_SourceIDs f = [] \<or> sa_SourceID a \<in> set (qf_SourceIDs f))
     \<and> (qf_KeyContains f = [] \<or> containsStr (lowerText (sa_StateKey a)) (qf_KeyContains f))
     \<and> (case qf_VersionExact f of None \<Rightarrow> True | Some v \<Rightarrow> sa_TerraformVersion a = v)
     \<and> inBounds (qf_RUM f) (sa_RUM a) \<and> inBounds (qf_Managed f) (sa_ManagedResources a) \<and> inBounds (qf_Data f) (sa_DataSources a)
     \<and> inBounds (qf_Total f) (sa_TotalResources a) \<and> inBounds (qf_Size f) (sa_Size a)"

definition filterStates :: "source list \<Rightarrow> stateQueryFilter \<Rightarrow> stateAnalysis list \<Rightarrow> stateRow list" where
  "filterStates srcs f t = map (joinSource srcs) (sort_key (byName srcs) (filter (stateWhere f) t))"

definition allStates :: "source list \<Rightarrow> stateAnalysis list \<Rightarrow> stateRow list" where
  "allStates srcs = filterStates srcs noFilter"

definition noTotals :: analysisTotals where
  "noTotals = \<lparr>at_States = 0, at_RUM = 0, at_ManagedResources = 0, at_DataSources = 0, at_TotalResources = 0\<rparr>"

text \<open>The page of a preview, with the totals of all matches, which ride on every row of it.\<close>

definition previewStates :: "source list \<Rightarrow> stateQueryFilter \<Rightarrow> nat \<Rightarrow> stateAnalysis list \<Rightarrow> stateRow list \<times> analysisTotals" where
  "previewStates srcs f limit t =
     (let out = take limit (filterStates srcs f t) in (out, if out = [] then noTotals else totals (filter (stateWhere f) t)))"

text \<open>A status with the number of analyses stored for its source.\<close>

definition syncStatuses :: "stateAnalysis list \<Rightarrow> sourceSyncStatus list \<Rightarrow> (sourceSyncStatus \<times> int) gomap" where
  "syncStatuses rows t = fold (\<lambda>s. oput (ss_SourceID s) (s, int (length (filter (\<lambda>a. sa_SourceID a = ss_SourceID s) rows)))) t []"

section \<open>Readers in a scope\<close>

definition analysisOrg :: "source list \<Rightarrow> stateAnalysis \<Rightarrow> string option" where
  "analysisOrg srcs a = (case getSource (sa_SourceID a) srcs of None \<Rightarrow> None | Some s \<Rightarrow> sr_Org s)"

definition statusOrg :: "source list \<Rightarrow> sourceSyncStatus \<Rightarrow> string option" where
  "statusOrg srcs s = (case getSource (ss_SourceID s) srcs of None \<Rightarrow> None | Some r \<Rightarrow> sr_Org r)"

text \<open>\<open>analysisOrgJoin\<close>: the rows whose source belongs to one of the organizations.\<close>

definition orgJoin :: "source list \<Rightarrow> string list \<Rightarrow> stateAnalysis list \<Rightarrow> stateAnalysis list" where
  "orgJoin srcs ids t = filter (\<lambda>a. anyOrg ids (analysisOrg srcs a)) t"

definition totalsInScope :: "source list \<Rightarrow> scope \<Rightarrow> stateAnalysis list \<Rightarrow> analysisTotals" where
  "totalsInScope srcs = readInScope noTotals totals (\<lambda>ids t. totals (orgJoin srcs ids t))"

definition providerCountsInScope :: "source list \<Rightarrow> scope \<Rightarrow> stateAnalysis list \<Rightarrow> int gomap" where
  "providerCountsInScope srcs = readInScope [] providerCounts (\<lambda>ids t. providerCounts (orgJoin srcs ids t))"

definition resourceTypeCountsInScope :: "source list \<Rightarrow> scope \<Rightarrow> stateAnalysis list \<Rightarrow> int gomap" where
  "resourceTypeCountsInScope srcs = readInScope [] resourceTypeCounts (\<lambda>ids t. resourceTypeCounts (orgJoin srcs ids t))"

definition versionCountsInScope :: "source list \<Rightarrow> scope \<Rightarrow> stateAnalysis list \<Rightarrow> int gomap" where
  "versionCountsInScope srcs = readInScope [] versionCounts (\<lambda>ids t. versionCounts (orgJoin srcs ids t))"

definition stateVersionsInScope :: "source list \<Rightarrow> scope \<Rightarrow> stateAnalysis list \<Rightarrow> stateRow list" where
  "stateVersionsInScope srcs = readInScope [] (stateVersions srcs) (\<lambda>ids t. stateVersions srcs (orgJoin srcs ids t))"

definition statesByVersionExactInScope :: "source list \<Rightarrow> string \<Rightarrow> nat \<Rightarrow> scope \<Rightarrow> stateAnalysis list \<Rightarrow> stateRow list \<times> int" where
  "statesByVersionExactInScope srcs version limit =
     readInScope ([], 0) (statesByVersionExact srcs version limit) (\<lambda>ids t. statesByVersionExact srcs version limit (orgJoin srcs ids t))"

definition filterStatesInScope :: "source list \<Rightarrow> stateQueryFilter \<Rightarrow> scope \<Rightarrow> stateAnalysis list \<Rightarrow> stateRow list" where
  "filterStatesInScope srcs f = readInScope [] (filterStates srcs f) (\<lambda>ids t. filterStates srcs f (orgJoin srcs ids t))"

definition previewStatesInScope :: "source list \<Rightarrow> stateQueryFilter \<Rightarrow> nat \<Rightarrow> scope \<Rightarrow> stateAnalysis list \<Rightarrow> stateRow list \<times> analysisTotals" where
  "previewStatesInScope srcs f limit =
     readInScope ([], noTotals) (previewStates srcs f limit) (\<lambda>ids t. previewStates srcs f limit (orgJoin srcs ids t))"

definition syncStatusesInScope :: "source list \<Rightarrow> stateAnalysis list \<Rightarrow> scope \<Rightarrow> sourceSyncStatus list \<Rightarrow> (sourceSyncStatus \<times> int) gomap" where
  "syncStatusesInScope srcs rows =
     readInScope [] (syncStatuses rows) (\<lambda>ids t. syncStatuses rows (filter (\<lambda>s. anyOrg ids (statusOrg srcs s)) t))"

lemma totals_Nil [simp]: "totals [] = noTotals"
  by (simp add: totals_def noTotals_def sumOf_def)

interpretation totalsRead: scoped_reader "analysisOrg srcs" noTotals totals "\<lambda>ids t. totals (orgJoin srcs ids t)" for srcs
  by unfold_locales (simp_all add: orgJoin_def)

interpretation providersRead: scoped_reader "analysisOrg srcs" "[]" providerCounts "\<lambda>ids t. providerCounts (orgJoin srcs ids t)" for srcs
  by unfold_locales (simp_all add: orgJoin_def providerCounts_def jsonbCounts_def)

interpretation typesRead: scoped_reader "analysisOrg srcs" "[]" resourceTypeCounts "\<lambda>ids t. resourceTypeCounts (orgJoin srcs ids t)" for srcs
  by unfold_locales (simp_all add: orgJoin_def resourceTypeCounts_def jsonbCounts_def)

interpretation versionsRead: scoped_reader "analysisOrg srcs" "[]" versionCounts "\<lambda>ids t. versionCounts (orgJoin srcs ids t)" for srcs
  by unfold_locales (simp_all add: orgJoin_def versionCounts_def)

interpretation stateVersionsRead: scoped_reader "analysisOrg srcs" "[]" "stateVersions srcs" "\<lambda>ids t. stateVersions srcs (orgJoin srcs ids t)" for srcs
  by unfold_locales (simp_all add: orgJoin_def stateVersions_def)

interpretation exactRead: scoped_reader "analysisOrg srcs" "([], 0)" "statesByVersionExact srcs v n" "\<lambda>ids t. statesByVersionExact srcs v n (orgJoin srcs ids t)" for srcs v n
  by unfold_locales (simp_all add: orgJoin_def statesByVersionExact_def Let_def)

interpretation filterRead: scoped_reader "analysisOrg srcs" "[]" "filterStates srcs f" "\<lambda>ids t. filterStates srcs f (orgJoin srcs ids t)" for srcs f
  by unfold_locales (simp_all add: orgJoin_def filterStates_def)

interpretation previewRead: scoped_reader "analysisOrg srcs" "([], noTotals)" "previewStates srcs f n" "\<lambda>ids t. previewStates srcs f n (orgJoin srcs ids t)" for srcs f n
  by unfold_locales (simp_all add: orgJoin_def previewStates_def filterStates_def Let_def)

interpretation statusesRead: scoped_reader "statusOrg srcs" "[]" "syncStatuses rows" "\<lambda>ids t. syncStatuses rows (filter (\<lambda>s. anyOrg ids (statusOrg srcs s)) t)" for srcs rows
  by unfold_locales (simp_all add: syncStatuses_def)
end
