(* ===== verification/StateSync.thy ===== *)
theory StateSync
  imports Analyses
begin

text \<open>
  \<open>internal/services/statesync\<close>: the loop that keeps the stored analyses in step with the backends.

  A cycle over a source compares the listing with the stored markers, reads and analyzes what changed or
  cannot be compared, tries failures once more, and drops rows of keys that are gone. Readers run
  concurrently: the order in which they finish is an argument, and \<open>syncStep\<close> lets their listing, reading
  and storing interleave with changes of the backend and with other cycles. The text of an error and of a
  time, failing statements and the end of the context are arguments.
\<close>

section \<open>Markers and rows\<close>

record stateRef =
  rf_Key :: string
  rf_Size :: int
  rf_LastModified :: "string option"
  rf_Version :: string

definition marker :: "stateRef \<Rightarrow> string" where
  "marker ref =
     (let lm = (case rf_LastModified ref of None \<Rightarrow> [] | Some t \<Rightarrow> t)
      in if rf_Size ref = 0 \<and> lm = [] \<and> rf_Version ref = [] then []
         else if rf_Version ref \<noteq> [] then itoa (rf_Size ref) @ ''|'' @ lm @ ''|'' @ rf_Version ref
         else itoa (rf_Size ref) @ ''|'' @ lm)"

definition AnalysisVersion :: int where "AnalysisVersion = 2"

definition analysisMarker :: "stateRef \<Rightarrow> string" where
  "analysisMarker ref = (if marker ref = [] then [] else marker ref @ ''|a'' @ itoa AnalysisVersion)"

definition countsMap :: "count list \<Rightarrow> int gomap" where
  "countsMap cs = fold (\<lambda>c. oput (c_Key c) (c_Count c)) cs []"

definition analysisRow :: "string \<Rightarrow> stateRef \<Rightarrow> analysis \<Rightarrow> int \<Rightarrow> stateAnalysis" where
  "analysisRow src ref a len =
     \<lparr>sa_SourceID = src, sa_StateKey = rf_Key ref, sa_VersionMarker = analysisMarker ref, sa_Size = len,
      sa_TerraformVersion = an_TerraformVersion a, sa_Serial = an_Serial a, sa_Lineage = an_Lineage a, sa_RUM = an_RUM a,
      sa_ManagedResources = an_ManagedResources a, sa_DataSources = an_DataSources a, sa_TotalResources = an_TotalResources a,
      sa_Providers = countsMap (an_Providers a), sa_ResourceTypes = countsMap (an_ResourceTypes a), sa_AnalyzedAt = 0\<rparr>"

section \<open>One state\<close>

text \<open>What a cycle over one source meets. The flag tells a first attempt from a retry.\<close>

record syncEnv =
  sy_connects :: bool
  sy_list :: "stateRef list option"
  sy_read :: "bool \<Rightarrow> string \<Rightarrow> rawdoc option"
  sy_size :: "rawdoc \<Rightarrow> int"
  sy_upsertFails :: "bool \<Rightarrow> string \<Rightarrow> bool"
  sy_historyFails :: "bool \<Rightarrow> string \<Rightarrow> bool"
  sy_cut :: "bool \<Rightarrow> string \<Rightarrow> bool"
  sy_order :: "stateRef list \<Rightarrow> stateRef list"
  sy_markersFail :: bool
  sy_deleteFails :: bool
  sy_statusFails :: bool
  sy_text :: string
  sy_now :: int

text \<open>The analysis of a text and its storing; a history that could not be written is not a failure.\<close>

definition storeState :: "bool \<Rightarrow> bool \<Rightarrow> int \<Rightarrow> (rawdoc \<Rightarrow> int) \<Rightarrow> string \<Rightarrow> stateRef \<Rightarrow> rawdoc \<Rightarrow> analysisStore \<Rightarrow> bool \<times> analysisStore" where
  "storeState upsertFails historyFails now len src ref d st =
     (case analyze d of
        Inl _ \<Rightarrow> (False, st)
      | Inr a \<Rightarrow>
          (let row = analysisRow src ref a (len d)
           in case upsertAnalysis upsertFails now row st of
                (False, st1) \<Rightarrow> (False, st1)
              | (True, st1) \<Rightarrow> (True, snd (appendHistoryIfChanged historyFails now row st1))))"

definition syncOne :: "syncEnv \<Rightarrow> bool \<Rightarrow> string \<Rightarrow> stateRef \<Rightarrow> analysisStore \<Rightarrow> bool \<times> analysisStore" where
  "syncOne env again src ref st =
     (case sy_read env again (rf_Key ref) of
        None \<Rightarrow> (False, st)
      | Some d \<Rightarrow> storeState (sy_upsertFails env again (rf_Key ref)) (sy_historyFails env again (rf_Key ref)) (sy_now env) (sy_size env) src ref d st)"

section \<open>One source\<close>

definition changedRefs :: "string gomap \<Rightarrow> stateRef list \<Rightarrow> stateRef list" where
  "changedRefs markers refs =
     filter (\<lambda>ref. analysisMarker ref = [] \<or> (case oget (rf_Key ref) markers of None \<Rightarrow> [] | Some m \<Rightarrow> m) \<noteq> analysisMarker ref) refs"

text \<open>The readers, in the order they finish: what failed, and the store.\<close>

fun readAllRefs :: "syncEnv \<Rightarrow> string \<Rightarrow> stateRef list \<Rightarrow> analysisStore \<Rightarrow> stateRef list \<times> analysisStore" where
  "readAllRefs env src [] st = ([], st)"
| "readAllRefs env src (ref # refs) st =
     (case (if sy_cut env False (rf_Key ref) then (False, st) else syncOne env False src ref st) of
        (ok, st1) \<Rightarrow>
          (case readAllRefs env src refs st1 of (failed, st2) \<Rightarrow> (if ok then failed else ref # failed, st2)))"

text \<open>The retries: how many failed again, and whether one of them said why.\<close>

fun retryRefs :: "syncEnv \<Rightarrow> string \<Rightarrow> stateRef list \<Rightarrow> int \<Rightarrow> string \<Rightarrow> analysisStore \<Rightarrow> int \<times> string \<times> analysisStore" where
  "retryRefs env src [] n firstErr st = (n, firstErr, st)"
| "retryRefs env src (ref # refs) n firstErr st =
     (if sy_cut env True (rf_Key ref) then retryRefs env src refs (n + 1) firstErr st
      else (case syncOne env True src ref st of
              (True, st1) \<Rightarrow> retryRefs env src refs n firstErr st1
            | (False, st1) \<Rightarrow> retryRefs env src refs (n + 1) (if firstErr = [] then sy_text env else firstErr) st1))"

definition recordStatus :: "syncEnv \<Rightarrow> string \<Rightarrow> int \<Rightarrow> int \<Rightarrow> string \<Rightarrow> analysisStore \<Rightarrow> analysisStore" where
  "recordStatus env src listed errs lastError =
     upsertSyncStatus (sy_statusFails env) (sy_now env)
       \<lparr>ss_SourceID = src, ss_LastSyncAt = 0, ss_StatesListed = listed, ss_ReadErrors = errs, ss_LastError = lastError\<rparr>"

definition syncSource :: "syncEnv \<Rightarrow> string \<Rightarrow> analysisStore \<Rightarrow> analysisStore" where
  "syncSource env src st =
     (if \<not> sy_connects env then recordStatus env src 0 0 (''connect: '' @ sy_text env) st
      else (case sy_list env of
              None \<Rightarrow> recordStatus env src 0 0 (''list: '' @ sy_text env) st
            | Some refs \<Rightarrow>
                if sy_markersFail env then recordStatus env src (int (length refs)) 0 (''markers: '' @ sy_text env) st
                else (case readAllRefs env src (sy_order env (changedRefs (markersOf src st) refs)) st of
                        (failed, st1) \<Rightarrow>
                          (case retryRefs env src failed 0 [] st1 of
                             (errs, firstErr, st2) \<Rightarrow>
                               recordStatus env src (int (length refs)) errs firstErr
                                 (deleteMissing (sy_deleteFails env) src (map rf_Key refs) st2)))))"

section \<open>Cycles\<close>

datatype syncErr = SyncInProgress | SyncListFailed

text \<open>\<open>syncMany\<close>: the sources in the order they are started, each in its own environment.\<close>

definition syncMany :: "(string \<Rightarrow> syncEnv) \<Rightarrow> string list \<Rightarrow> analysisStore \<Rightarrow> analysisStore" where
  "syncMany envs ids st = fold (\<lambda>i. syncSource (envs i) i) ids st"

definition syncAll :: "bool \<Rightarrow> source list option \<Rightarrow> (string \<Rightarrow> syncEnv) \<Rightarrow> bool \<Rightarrow> int \<Rightarrow> analysisStore \<Rightarrow> syncErr option \<times> analysisStore" where
  "syncAll busy sources envs pruneFails now st =
     (if busy then (Some SyncInProgress, st)
      else (case sources of
              None \<Rightarrow> (Some SyncListFailed, st)
            | Some t \<Rightarrow> (None, pruneHistory pruneFails now (syncMany envs (map sr_ID (listSources t)) st))))"

definition syncSources :: "bool \<Rightarrow> source list option \<Rightarrow> (string \<Rightarrow> syncEnv) \<Rightarrow> string list \<Rightarrow> analysisStore \<Rightarrow> syncErr option \<times> analysisStore" where
  "syncSources busy sources envs ids st =
     (if ids = [] then (None, st)
      else if busy then (Some SyncInProgress, st)
      else (case sources of
              None \<Rightarrow> (Some SyncListFailed, st)
            | Some t \<Rightarrow> (None, syncMany envs (filter (\<lambda>i. i \<in> set ids) (map sr_ID (listSources t))) st)))"

text \<open>The reference a single key is refreshed under: its listed one, or one without a marker.\<close>

definition keyRef :: "syncEnv \<Rightarrow> string \<Rightarrow> stateRef" where
  "keyRef env key =
     (let bare = \<lparr>rf_Key = key, rf_Size = 0, rf_LastModified = None, rf_Version = []\<rparr>
      in case sy_list env of
           None \<Rightarrow> bare
         | Some refs \<Rightarrow> (case List.find (\<lambda>r. rf_Key r = key) refs of None \<Rightarrow> bare | Some r \<Rightarrow> r))"

definition syncKey :: "syncEnv \<Rightarrow> string \<Rightarrow> string \<Rightarrow> analysisStore \<Rightarrow> analysisStore" where
  "syncKey env src key st = (if \<not> sy_connects env then st else snd (syncOne env False src (keyRef env key) st))"

definition dropKey :: "syncEnv \<Rightarrow> string \<Rightarrow> string \<Rightarrow> analysisStore \<Rightarrow> analysisStore" where
  "dropKey env src key = deleteAnalysis (sy_deleteFails env) src key"

section \<open>What is skipped is up to date\<close>

text \<open>An analysis without the time it was stored.\<close>

abbreviation content :: "stateAnalysis \<Rightarrow> stateAnalysis" where
  "content a \<equiv> a\<lparr>sa_AnalyzedAt := 0\<rparr>"

text \<open>The backends hold a listing entry and a text per state. \<open>sm_seen\<close> is what a state's markers ever
  were, \<open>sm_recurred\<close> the markers a change gave to a state that had had them before, and \<open>sm_tasks\<close> the
  readers under way, with what they have read.\<close>

record syncSystem =
  sm_backend :: "string \<Rightarrow> string \<Rightarrow> (stateRef \<times> rawdoc) option"
  sm_seen :: "string \<Rightarrow> string \<Rightarrow> string set"
  sm_recurred :: "(string \<times> string \<times> string) set"
  sm_tasks :: "(string \<times> stateRef \<times> rawdoc option) set"
  sm_store :: analysisStore

definition changedTo :: "string \<Rightarrow> string \<Rightarrow> stateRef \<Rightarrow> rawdoc \<Rightarrow> syncSystem \<Rightarrow> syncSystem" where
  "changedTo src key ref d s =
     s\<lparr>sm_backend := (sm_backend s)(src := (sm_backend s src)(key := Some (ref, d))),
       sm_seen := (sm_seen s)(src := (sm_seen s src)(key := insert (analysisMarker ref) (sm_seen s src key))),
       sm_recurred := (if analysisMarker ref \<in> sm_seen s src key then insert (src, key, analysisMarker ref) (sm_recurred s) else sm_recurred s)\<rparr>"

text \<open>A change of a state gives it any listing entry, markers it had before included.\<close>

inductive syncStep :: "(rawdoc \<Rightarrow> int) \<Rightarrow> syncSystem \<Rightarrow> syncSystem \<Rightarrow> bool" where
  changed: "rf_Key ref = key \<Longrightarrow> syncStep len s (changedTo src key ref d s)"
| gone: "syncStep len s (s\<lparr>sm_backend := (sm_backend s)(src := (sm_backend s src)(key := None))\<rparr>)"
| listed: "sm_backend s src key = Some (ref, d) \<Longrightarrow> syncStep len s (s\<lparr>sm_tasks := insert (src, ref, None) (sm_tasks s)\<rparr>)"
| unlisted: "syncStep len s (s\<lparr>sm_tasks := insert (src, \<lparr>rf_Key = key, rf_Size = 0, rf_LastModified = None, rf_Version = []\<rparr>, None) (sm_tasks s)\<rparr>)"
| read: "(src, ref, None) \<in> sm_tasks s \<Longrightarrow> sm_backend s src (rf_Key ref) = Some (ref', d) \<Longrightarrow>
     syncStep len s (s\<lparr>sm_tasks := insert (src, ref, Some d) (sm_tasks s - {(src, ref, None)})\<rparr>)"
| stored: "(src, ref, Some d) \<in> sm_tasks s \<Longrightarrow> storeState f g now len src ref d (sm_store s) = (ok, st) \<Longrightarrow>
     syncStep len s (s\<lparr>sm_store := st, sm_tasks := sm_tasks s - {(src, ref, Some d)}\<rparr>)"
| dropped: "syncStep len s (s\<lparr>sm_store := deleteAnalysis f src key (sm_store s)\<rparr>)"
| missing: "syncStep len s (s\<lparr>sm_store := deleteMissing f src keep (sm_store s)\<rparr>)"

inductive syncReach :: "(rawdoc \<Rightarrow> int) \<Rightarrow> syncSystem \<Rightarrow> bool" where
  start: "as_Live (sm_store s) = [] \<Longrightarrow> sm_tasks s = {} \<Longrightarrow> (\<forall>src key. sm_backend s src key = None) \<Longrightarrow> syncReach len s"
| step: "syncReach len s \<Longrightarrow> syncStep len s s' \<Longrightarrow> syncReach len s'"

text \<open>A text read under a marker that does not recur is the state's as long as the state has that marker.\<close>

definition readAs :: "syncSystem \<Rightarrow> string \<Rightarrow> string \<Rightarrow> string \<Rightarrow> (rawdoc \<Rightarrow> bool) \<Rightarrow> bool" where
  "readAs s src key m p \<longleftrightarrow> m = [] \<or> (src, key, m) \<in> sm_recurred s \<or> m \<in> sm_seen s src key
     \<and> (\<forall>ref d. sm_backend s src key = Some (ref, d) \<longrightarrow> analysisMarker ref = m \<longrightarrow> p d)"




lemma changedTo_rest [simp]: "sm_tasks (changedTo src key ref d s) = sm_tasks s" "sm_store (changedTo src key ref d s) = sm_store s"
  by (simp_all add: changedTo_def)


lemma readAs_cong [simp]: "readAs (s\<lparr>sm_tasks := t\<rparr>) = readAs s" "readAs (s\<lparr>sm_store := st\<rparr>) = readAs s" "readAs (s\<lparr>sm_store := st, sm_tasks := t\<rparr>) = readAs s"
  by (simp_all add: readAs_def fun_eq_iff)


lemma append_live [simp]: "as_Live (snd (appendHistoryIfChanged fails now a st)) = as_Live st"
  by (simp add: appendHistoryIfChanged_def)




definition sampleRef :: stateRef where
  "sampleRef = \<lparr>rf_Key = ''prod'', rf_Size = 700, rf_LastModified = None, rf_Version = ''v1''\<rparr>"

text \<open>A run: the state appears, is listed, read and stored, then changes to another text.\<close>

definition syncRun0 :: syncSystem where
  "syncRun0 = \<lparr>sm_backend = \<lambda>_ _. None, sm_seen = \<lambda>_ _. {}, sm_recurred = {}, sm_tasks = {},
     sm_store = \<lparr>as_Live = [], as_History = [], as_Statuses = []\<rparr>\<rparr>"

definition syncRun1 :: syncSystem where
  "syncRun1 = changedTo ''s1'' ''prod'' sampleRef sampleState syncRun0"

definition syncRun2 :: syncSystem where
  "syncRun2 = syncRun1\<lparr>sm_tasks := {}, sm_store := snd (storeState False False 9 (\<lambda>_. 700) ''s1'' sampleRef sampleState (sm_store syncRun1))\<rparr>"

lemma syncRun_reach: "syncReach (\<lambda>_. 700) syncRun2"
proof -
  let ?listed = "syncRun1\<lparr>sm_tasks := insert (''s1'', sampleRef, None) (sm_tasks syncRun1)\<rparr>"
  let ?read = "?listed\<lparr>sm_tasks := insert (''s1'', sampleRef, Some sampleState) (sm_tasks ?listed - {(''s1'', sampleRef, None)})\<rparr>"
  let ?r = "storeState False False 9 (\<lambda>_. 700) ''s1'' sampleRef sampleState (sm_store ?read)"
  have b: "sm_backend syncRun1 ''s1'' ''prod'' = Some (sampleRef, sampleState)" "sm_tasks syncRun1 = {}"
    by (simp_all add: syncRun1_def syncRun0_def changedTo_def)
  have "syncReach (\<lambda>_. 700) syncRun0" by (rule syncReach.start) (simp_all add: syncRun0_def)
  moreover have "syncStep (\<lambda>_. 700) syncRun0 syncRun1" unfolding syncRun1_def by (rule syncStep.changed) (simp add: sampleRef_def)
  moreover have "syncStep (\<lambda>_. 700) syncRun1 ?listed" using b(1) by (rule syncStep.listed)
  moreover have "syncStep (\<lambda>_. 700) ?listed ?read"
    by (rule syncStep.read[where ref' = sampleRef]) (use b in \<open>simp_all add: sampleRef_def\<close>)
  moreover have "syncStep (\<lambda>_. 700) ?read (?read\<lparr>sm_store := snd ?r, sm_tasks := sm_tasks ?read - {(''s1'', sampleRef, Some sampleState)}\<rparr>)"
    by (rule syncStep.stored[where f = False and g = False and now = 9 and ok = "fst ?r"]) simp_all
  moreover have "?read\<lparr>sm_store := snd ?r, sm_tasks := sm_tasks ?read - {(''s1'', sampleRef, Some sampleState)}\<rparr> = syncRun2"
    by (simp add: syncRun2_def b(2))
  ultimately show ?thesis by (metis syncReach.step)
qed

lemma syncRun_live:
  assumes "analyze sampleState = Inr a"
  shows "as_Live (sm_store syncRun2) = [(analysisRow ''s1'' sampleRef a 700)\<lparr>sa_AnalyzedAt := 9\<rparr>]"
  using assms by (simp add: syncRun2_def syncRun1_def changedTo_def syncRun0_def storeState_def upsertAnalysis_def appendHistoryIfChanged_def Let_def)

lemma sampleRef_marker: "analysisMarker sampleRef \<noteq> []"
  by (simp add: sampleRef_def analysisMarker_def marker_def)


text \<open>Where the marker comes back with another text, the stored analysis stands for a text that is gone, and the
  state is not read again.\<close>

lemma recurring_marker_goes_stale:
  "\<exists>s row. syncReach (\<lambda>_. 700) s \<and> row \<in> set (as_Live (sm_store s)) \<and> sm_backend s ''s1'' ''prod'' = Some (sampleRef, Junk ''other'')
     \<and> sa_SourceID row = ''s1'' \<and> sa_StateKey row = ''prod'' \<and> sa_VersionMarker row = analysisMarker sampleRef
     \<and> sa_VersionMarker row \<noteq> [] \<and> isl (analyze (Junk ''other''))"
proof -
  obtain a where a: "analyze sampleState = Inr a" using sampleState_decodes by blast
  let ?s = "changedTo ''s1'' ''prod'' sampleRef (Junk ''other'') syncRun2"
  have "syncReach (\<lambda>_. 700) ?s"
    by (rule syncReach.step[OF syncRun_reach syncStep.changed]) (simp add: sampleRef_def)
  moreover have "sm_backend ?s ''s1'' ''prod'' = Some (sampleRef, Junk ''other'')" by (simp add: changedTo_def)
  moreover have "isl (analyze (Junk ''other''))" by code_simp
  ultimately show ?thesis using syncRun_live[OF a] sampleRef_marker
    by (intro exI[of _ ?s] exI[of _ "(analysisRow ''s1'' sampleRef a 700)\<lparr>sa_AnalyzedAt := 9\<rparr>"])
      (simp add: analysisRow_def sampleRef_def)
qed

section \<open>A cycle is a full analysis\<close>

definition stored :: "string \<Rightarrow> string \<Rightarrow> analysisStore \<Rightarrow> stateAnalysis option" where
  "stored src key st = List.find (ofState src key) (as_Live st)"

definition oneRowEach :: "analysisStore \<Rightarrow> bool" where
  "oneRowEach st \<longleftrightarrow> distinct (map (\<lambda>a. (sa_SourceID a, sa_StateKey a)) (as_Live st))"

lemma find_map_ofState:
  assumes "ofState src key r"
  shows "List.find (ofState src' key') (map (\<lambda>x. if ofState src key x then r else x) xs)
      = (if (src', key') = (src, key) then (if list_ex (ofState src key) xs then Some r else None) else List.find (ofState src' key') xs)"
  using assms by (induction xs) (auto simp: ofState_def)

lemma find_append_one: "List.find p (xs @ [r]) = (case List.find p xs of None \<Rightarrow> if p r then Some r else None | Some x \<Rightarrow> Some x)"
  by (induction xs) auto

lemma find_none_ex: "\<not> list_ex p xs \<Longrightarrow> List.find p xs = None"
  by (induction xs) auto

lemma stored_upsert:
  "stored src key (snd (upsertAnalysis False now a st))
     = (if (src, key) = (sa_SourceID a, sa_StateKey a) then Some (a\<lparr>sa_AnalyzedAt := now\<rparr>) else stored src key st)"
proof -
  have r: "ofState (sa_SourceID a) (sa_StateKey a) (a\<lparr>sa_AnalyzedAt := now\<rparr>)" by (simp add: ofState_def)
  show ?thesis
  proof (cases "list_ex (ofState (sa_SourceID a) (sa_StateKey a)) (as_Live st)")
    case True
    then show ?thesis by (simp add: upsertAnalysis_def Let_def stored_def find_map_ofState[OF r])
  next
    case False
    have "ofState src key (a\<lparr>sa_AnalyzedAt := now\<rparr>) = ((src, key) = (sa_SourceID a, sa_StateKey a))" by (auto simp: ofState_def)
    then show ?thesis using False find_none_ex[OF False]
      by (auto simp: upsertAnalysis_def Let_def stored_def find_append_one split: option.splits)
  qed
qed

lemma stored_append [simp]: "stored src key (snd (appendHistoryIfChanged f now a st)) = stored src key st"
  by (simp add: stored_def)

definition storedAs :: "int \<Rightarrow> (rawdoc \<Rightarrow> int) \<Rightarrow> string \<Rightarrow> stateRef \<Rightarrow> rawdoc \<Rightarrow> stateAnalysis option \<Rightarrow> stateAnalysis option" where
  "storedAs now len src ref d old = (case analyze d of Inl _ \<Rightarrow> old | Inr a \<Rightarrow> Some ((analysisRow src ref a (len d))\<lparr>sa_AnalyzedAt := now\<rparr>))"

lemma stored_storeState:
  "stored src' key (snd (storeState False f now len src ref d st))
     = (if (src', key) = (src, rf_Key ref) then storedAs now len src ref d (stored src' key st) else stored src' key st)
   \<and> fst (storeState False f now len src ref d st) = (\<not> isl (analyze d))"
proof (cases "analyze d")
  case (Inr a)
  let ?r = "analysisRow src ref a (len d)"
  obtain st1 where u: "upsertAnalysis False now ?r st = (True, st1)" by (simp add: upsertAnalysis_def Let_def)
  have "stored src' key st1 = (if (src', key) = (src, rf_Key ref) then Some (?r\<lparr>sa_AnalyzedAt := now\<rparr>) else stored src' key st)"
    using stored_upsert[of src' key now ?r st] u by (simp add: analysisRow_def)
  then show ?thesis using Inr u by (simp add: storeState_def Let_def storedAs_def)
qed (simp add: storeState_def storedAs_def)

text \<open>A cycle that nothing disturbs: no statement fails, nothing is cut, and both attempts read \<open>texts\<close>.\<close>

definition undisturbed :: "syncEnv \<Rightarrow> stateRef list \<Rightarrow> (string \<Rightarrow> rawdoc) \<Rightarrow> bool" where
  "undisturbed env refs texts \<longleftrightarrow> sy_connects env \<and> sy_list env = Some refs \<and> distinct (map rf_Key refs)
     \<and> \<not> sy_markersFail env \<and> \<not> sy_deleteFails env \<and> (\<forall>b k. \<not> sy_cut env b k \<and> \<not> sy_upsertFails env b k)
     \<and> (\<forall>b. \<forall>ref \<in> set refs. sy_read env b (rf_Key ref) = Some (texts (rf_Key ref))) \<and> (\<forall>xs. mset (sy_order env xs) = mset xs)"

lemma syncOne_stored:
  assumes "undisturbed env refs texts" "ref \<in> set refs" "syncOne env b src ref st = (ok, st')"
  shows "stored src' key st' = (if (src', key) = (src, rf_Key ref)
            then storedAs (sy_now env) (sy_size env) src ref (texts (rf_Key ref)) (stored src' key st) else stored src' key st)"
    and "ok = (\<not> isl (analyze (texts (rf_Key ref))))"
  using assms stored_storeState[of src' key "sy_historyFails env b (rf_Key ref)" "sy_now env" "sy_size env" src ref "texts (rf_Key ref)" st]
  unfolding undisturbed_def syncOne_def by auto

lemma readAllRefs_stored:
  assumes "undisturbed env refs texts" "set xs \<subseteq> set refs" "distinct (map rf_Key xs)" "readAllRefs env src xs st = (failed, st')"
  shows "stored src' key st' = (case List.find (\<lambda>r. rf_Key r = key) xs of
            None \<Rightarrow> stored src' key st
          | Some ref \<Rightarrow> if src' = src then storedAs (sy_now env) (sy_size env) src ref (texts key) (stored src' key st) else stored src' key st)
    \<and> failed = filter (\<lambda>r. isl (analyze (texts (rf_Key r)))) xs"
  using assms(2-4)
proof (induction xs arbitrary: st failed)
  case (Cons ref xs)
  have nc: "\<not> sy_cut env False (rf_Key ref)" using assms(1) by (simp add: undisturbed_def)
  obtain ok st1 where o: "syncOne env False src ref st = (ok, st1)" by (cases "syncOne env False src ref st")
  obtain failed' where r: "readAllRefs env src xs st1 = (failed', st')" "failed = (if ok then failed' else ref # failed')"
    using Cons.prems(3) nc o by (auto split: prod.splits)
  have ref: "ref \<in> set refs" using Cons.prems(1) by simp
  note one = syncOne_stored(1)[OF assms(1) ref o, of src' key] syncOne_stored(2)[OF assms(1) ref o]
  have ih: "stored src' key st' = (case List.find (\<lambda>r. rf_Key r = key) xs of
            None \<Rightarrow> stored src' key st1
          | Some ref \<Rightarrow> if src' = src then storedAs (sy_now env) (sy_size env) src ref (texts key) (stored src' key st1) else stored src' key st1)
    \<and> failed' = filter (\<lambda>r. isl (analyze (texts (rf_Key r)))) xs"
    using Cons.IH[of st1 failed'] Cons.prems(1,2) r(1) by simp
  have "List.find (\<lambda>r. rf_Key r = key) xs = None" if "rf_Key ref = key"
    using Cons.prems(2) that by (auto simp: find_None_iff image_iff)
  then show ?case using ih one r(2) by (auto split: option.splits)
qed simp

lemma retryRefs_stored:
  assumes "undisturbed env refs texts" "set xs \<subseteq> set refs" "\<forall>r \<in> set xs. isl (analyze (texts (rf_Key r)))"
    and "retryRefs env src xs n e st = (n', e', st')"
  shows "stored src' key st' = stored src' key st"
  using assms(2-4)
proof (induction xs arbitrary: n e st)
  case (Cons ref xs)
  have nc: "\<not> sy_cut env True (rf_Key ref)" using assms(1) by (simp add: undisturbed_def)
  obtain ok st1 where o: "syncOne env True src ref st = (ok, st1)" by (cases "syncOne env True src ref st")
  have ref: "ref \<in> set refs" using Cons.prems(1) by simp
  have "isl (analyze (texts (rf_Key ref)))" using Cons.prems(2) by simp
  then have "stored src' key st1 = stored src' key st"
    using syncOne_stored(1)[OF assms(1) ref o, of src' key] by (auto simp: storedAs_def isl_def)
  moreover have "\<exists>m f. retryRefs env src xs m f st1 = (n', e', st')" using Cons.prems(3) nc o by (cases ok) auto
  ultimately show ?case using Cons.IH Cons.prems(1,2) by auto
qed simp

lemma markersOf_stored:
  assumes "oneRowEach st" shows "oget key (markersOf src st) = map_option sa_VersionMarker (stored src key st)"
proof -
  have "oget key (fold (\<lambda>a. oput (sa_StateKey a) (sa_VersionMarker a)) (filter (\<lambda>a. sa_SourceID a = src) xs) m)
      = (case List.find (ofState src key) xs of None \<Rightarrow> oget key m | Some a \<Rightarrow> Some (sa_VersionMarker a))"
    if "distinct (map (\<lambda>a. (sa_SourceID a, sa_StateKey a)) xs)" for xs m
    using that
  proof (induction xs arbitrary: m)
    case (Cons x xs)
    have "List.find (ofState src key) xs = None" if x: "ofState src key x"
    proof -
      have "\<not> ofState src key y" if "y \<in> set xs" for y using Cons.prems x that by (auto simp: ofState_def image_iff)
      then show ?thesis by (simp add: find_None_iff)
    qed
    have ih: "oget key (fold (\<lambda>a. oput (sa_StateKey a) (sa_VersionMarker a)) (filter (\<lambda>a. sa_SourceID a = src) xs) m)
        = (case List.find (ofState src key) xs of None \<Rightarrow> oget key m | Some a \<Rightarrow> Some (sa_VersionMarker a))" for m
      using Cons by simp
    show ?case
    proof (cases "ofState src key x")
      case True
      with \<open>ofState src key x \<Longrightarrow> List.find (ofState src key) xs = None\<close> have n: "List.find (ofState src key) xs = None" .
      then show ?thesis using True ih by (simp add: ofState_def[of src key x])
    next
      case False
      then have "sa_SourceID x = src \<Longrightarrow> sa_StateKey x \<noteq> key" by (auto simp: ofState_def)
      then show ?thesis using False ih by (cases "sa_SourceID x = src") (simp_all split: option.split)
    qed
  qed simp
  from this[of "as_Live st" "[]"] assms show ?thesis by (simp add: markersOf_def stored_def oneRowEach_def split: option.splits)
qed

lemma stored_deleteMissing:
  "stored src' key (deleteMissing False src keep st) = (if src' = src \<and> key \<notin> set keep then None else stored src' key st)"
proof -
  have "List.find (ofState src' key) (filter (\<lambda>x. \<not> (sa_SourceID x = src \<and> sa_StateKey x \<notin> set keep)) xs)
      = (if src' = src \<and> key \<notin> set keep then None else List.find (ofState src' key) xs)" for xs
    unfolding ofState_def[abs_def] by (induction xs) auto
  then show ?thesis by (simp add: stored_def deleteMissing_def)
qed

lemma stored_status [simp]: "stored src key (recordStatus env i n m e st) = stored src key st"
  by (simp add: recordStatus_def upsertSyncStatus_def stored_def Let_def)

text \<open>C32: A cycle stores what analyzing everything anew would. Where skipped states are current, a cycle over a
  source leaves for every listed state the analysis of its present text, or the old row where the text
  is no state, nothing for keys that are not listed, and every other source as it was.\<close>

theorem cycle_equals_full_analysis:
  assumes "undisturbed env refs texts" "oneRowEach st"
    and "\<forall>ref \<in> set refs. \<forall>row. stored src (rf_Key ref) st = Some row \<longrightarrow> sa_VersionMarker row = analysisMarker ref \<longrightarrow> analysisMarker ref \<noteq> [] \<longrightarrow>
         (\<exists>a. analyze (texts (rf_Key ref)) = Inr a \<and> content row = analysisRow src ref a (sy_size env (texts (rf_Key ref))))"
  shows "map_option content (stored src' key (syncSource env src st)) =
    (if src' \<noteq> src then map_option content (stored src' key st)
     else (case List.find (\<lambda>r. rf_Key r = key) refs of
             None \<Rightarrow> None
           | Some ref \<Rightarrow> (case analyze (texts key) of
                Inl _ \<Rightarrow> map_option content (stored src key st)
              | Inr a \<Rightarrow> Some (analysisRow src ref a (sy_size env (texts key))))))"
proof -
  note u = assms(1)[unfolded undisturbed_def]
  let ?ch = "changedRefs (markersOf src st) refs" and ?xs = "sy_order env (changedRefs (markersOf src st) refs)"
  have ms: "mset ?xs = mset ?ch" using u by blast
  have set: "set ?xs = set ?ch" using ms by (rule mset_eq_setD)
  then have sub: "set ?xs \<subseteq> set refs" by (auto simp: changedRefs_def)
  have "distinct (map rf_Key ?ch)" using u by (simp add: changedRefs_def distinct_map_filter)
  moreover have "mset (map rf_Key ?xs) = mset (map rf_Key ?ch)" using ms by simp
  ultimately have dis: "distinct (map rf_Key ?xs)" using mset_eq_imp_distinct_iff by blast
  obtain failed st1 where r: "readAllRefs env src ?xs st = (failed, st1)" by (cases "readAllRefs env src ?xs st")
  note rd = readAllRefs_stored[OF assms(1) sub dis r, of src' key]
  obtain n e st2 where t: "retryRefs env src failed 0 [] st1 = (n, e, st2)" by (cases "retryRefs env src failed 0 [] st1")
  have "set failed \<subseteq> set refs" "\<forall>r \<in> set failed. isl (analyze (texts (rf_Key r)))" using rd sub by auto
  from retryRefs_stored[OF assms(1) this t, of src' key]
  have fin: "stored src' key (syncSource env src st) = (if src' = src \<and> key \<notin> rf_Key ` set refs then None else stored src' key st1)"
    using u r t by (simp add: syncSource_def stored_deleteMissing)
  have uniq: "List.find (\<lambda>r. rf_Key r = key) xs = Some ref \<longleftrightarrow> ref \<in> set xs \<and> rf_Key ref = key" if "distinct (map rf_Key xs)" for xs ref
    using that by (induction xs) auto
  show ?thesis
  proof (cases "src' = src \<and> key \<in> rf_Key ` set refs")
    case True
    then obtain ref where ref: "ref \<in> set refs" "rf_Key ref = key" by blast
    then have f: "List.find (\<lambda>r. rf_Key r = key) refs = Some ref" using uniq u by blast
    show ?thesis
    proof (cases "ref \<in> set ?ch")
      case ch: True
      then have "List.find (\<lambda>r. rf_Key r = key) ?xs = Some ref" using uniq[OF dis] set ref(2) by simp
      then show ?thesis using fin rd True f by (auto simp: storedAs_def analysisRow_def split: sum.splits)
    next
      case False
      then have m: "analysisMarker ref \<noteq> []" "(case oget key (markersOf src st) of None \<Rightarrow> [] | Some m \<Rightarrow> m) = analysisMarker ref"
        using ref by (auto simp: changedRefs_def)
      then obtain row where row: "stored src key st = Some row" "sa_VersionMarker row = analysisMarker ref"
        using markersOf_stored[OF assms(2), of key src] by (cases "stored src key st") auto
      then obtain a where a: "analyze (texts key) = Inr a" "content row = analysisRow src ref a (sy_size env (texts key))"
        using assms(3) ref m(1) by blast
      have "List.find (\<lambda>r. rf_Key r = key) ?xs = None"
      proof -
        have "inj_on rf_Key (set refs)" using u by (simp add: distinct_map)
        then have "\<forall>x \<in> set ?xs. rf_Key x \<noteq> key" using False set sub ref unfolding inj_on_def by blast
        then show ?thesis by (simp add: find_None_iff)
      qed
      then show ?thesis using fin rd True f row(1) a by simp
    qed
  next
    case False
    then have "src' = src \<Longrightarrow> List.find (\<lambda>r. rf_Key r = key) refs = None" by (auto simp: find_None_iff)
    then show ?thesis using fin rd False by (auto split: option.splits)
  qed
qed

definition sampleCycle :: syncEnv where
  "sampleCycle = \<lparr>sy_connects = True, sy_list = Some [sampleRef], sy_read = \<lambda>_ _. Some sampleState, sy_size = \<lambda>_. 700,
     sy_upsertFails = \<lambda>_ _. False, sy_historyFails = \<lambda>_ _. False, sy_cut = \<lambda>_ _. False, sy_order = \<lambda>xs. xs,
     sy_markersFail = False, sy_deleteFails = False, sy_statusFails = False, sy_text = ''boom'', sy_now = 9\<rparr>"

theorem cycle_equals_full_analysis_witness:
  "\<exists>a. analyze sampleState = Inr a
     \<and> map_option content (stored ''s1'' ''prod'' (syncSource sampleCycle ''s1'' \<lparr>as_Live = [], as_History = [], as_Statuses = []\<rparr>))
       = Some (analysisRow ''s1'' sampleRef a 700)"
proof -
  obtain a where a: "analyze sampleState = Inr a" using sampleState_decodes by blast
  have "undisturbed sampleCycle [sampleRef] (\<lambda>_. sampleState)" by (simp add: undisturbed_def sampleCycle_def)
  from cycle_equals_full_analysis[OF this, of "\<lparr>as_Live = [], as_History = [], as_Statuses = []\<rparr>" "''s1''" "''s1''" "''prod''"] a
  show ?thesis by (simp add: oneRowEach_def stored_def sampleRef_def sampleCycle_def)
qed

end
