(* ===== verification/Reports.thy ===== *)
theory Reports
  imports Analyses Freshness
begin

text \<open>
  \<open>api/reports.go\<close> and the version page of \<open>api/dashboard.go\<close>: the states a report is about.

  A filter is split: what SQL can decide becomes a query, ranges of versions and searches in the maps of a
  row are applied to the rows it answers. A query parameter is a text, empty where it is absent. Lower
  case is that of ASCII letters; failing statements and the semantic-version library are arguments, and
  the rendering of a filter as prose and the audit row of an export are left out.
\<close>

section \<open>Versions\<close>

definition versionOps :: "string list" where
  "versionOps = [''eq'', ''lt'', ''lte'', ''gt'', ''gte'']"

definition matchesExactVersion :: "string \<Rightarrow> string \<Rightarrow> bool" where
  "matchesExactVersion stored ver = (if ver = ''unknown'' \<or> ver = [] then stored = [] else stored = ver)"

definition rangeMatch :: "int \<Rightarrow> string \<Rightarrow> bool" where
  "rangeMatch cmp op =
     (if op = ''lt'' then cmp < 0
      else if op = ''lte'' then cmp \<le> 0
      else if op = ''gt'' then 0 < cmp
      else if op = ''gte'' then 0 \<le> cmp
      else False)"

definition matchesVersion :: "semverLib \<Rightarrow> string \<Rightarrow> string \<Rightarrow> string \<Rightarrow> bool" where
  "matchesVersion lib stored ver op =
     (if op = ''eq'' then matchesExactVersion stored ver
      else if \<not> versionIsValid lib stored \<or> \<not> versionIsValid lib ver then False
      else rangeMatch (compareVersions lib stored ver) op)"

definition filterStatesByVersion :: "semverLib \<Rightarrow> stateRow list \<Rightarrow> string \<Rightarrow> string \<Rightarrow> stateRow list" where
  "filterStatesByVersion lib rows ver op = filter (\<lambda>r. matchesVersion lib (sa_TerraformVersion r) ver op) rows"

section \<open>Filters\<close>

definition maxInt :: int where "maxInt = 2 ^ 63 - 1"

record reportFilters =
  fl_sourceIDs :: "string list"
  fl_keyQuery :: string
  fl_version :: string
  fl_versionOp :: string
  fl_provider :: string
  fl_resourceType :: string
  fl_rum :: "int \<times> int"
  fl_managed :: "int \<times> int"
  fl_data :: "int \<times> int"
  fl_total :: "int \<times> int"
  fl_size :: "int \<times> int"

datatype filterErr = InvalidParam string | InvalidOp

text \<open>\<open>qi\<close>: the number in a parameter, or its default.\<close>

definition queryInt :: "(string \<Rightarrow> string) \<Rightarrow> string \<Rightarrow> int \<Rightarrow> int option" where
  "queryInt q name d = (if q name = [] then Some d else atoi (q name))"

definition rangeParams :: "string list" where
  "rangeParams = concat (map (\<lambda>n. [n @ ''_min'', n @ ''_max'']) [''rum'', ''managed'', ''data'', ''total'', ''size''])"

definition parseReportFilters :: "(string \<Rightarrow> string) \<Rightarrow> string list \<Rightarrow> filterErr + reportFilters" where
  "parseReportFilters q ids =
     (case List.find (\<lambda>name. queryInt q name 0 = None) rangeParams of
        Some name \<Rightarrow> Inl (InvalidParam name)
      | None \<Rightarrow>
          (let range = (\<lambda>n. (the (queryInt q (n @ ''_min'') 0), the (queryInt q (n @ ''_max'') maxInt)));
               version = trimSpace (q ''version'');
               op = (if version \<noteq> [] \<and> q ''op'' = [] then ''eq'' else q ''op'')
           in if version \<noteq> [] \<and> op \<notin> set versionOps then Inl InvalidOp
              else Inr \<lparr>fl_sourceIDs = ids, fl_keyQuery = lowerText (trimSpace (q ''q'')), fl_version = version, fl_versionOp = op,
                        fl_provider = lowerText (trimSpace (q ''provider'')), fl_resourceType = lowerText (trimSpace (q ''resource_type'')),
                        fl_rum = range ''rum'', fl_managed = range ''managed'', fl_data = range ''data'', fl_total = range ''total'',
                        fl_size = range ''size''\<rparr>))"

text \<open>A bound that bounds nothing is left out of the query.\<close>

definition sqlBounds :: "int \<times> int \<Rightarrow> int option \<times> int option" where
  "sqlBounds r = (if 0 < fst r then Some (fst r) else None, if snd r < maxInt then Some (snd r) else None)"

definition sqlFilter :: "reportFilters \<Rightarrow> stateQueryFilter" where
  "sqlFilter f =
     \<lparr>qf_SourceIDs = fl_sourceIDs f, qf_KeyContains = fl_keyQuery f,
      qf_VersionExact = (if fl_version f \<noteq> [] \<and> fl_versionOp f = ''eq''
                         then Some (if fl_version f = ''unknown'' then [] else fl_version f) else None),
      qf_RUM = sqlBounds (fl_rum f), qf_Managed = sqlBounds (fl_managed f), qf_Data = sqlBounds (fl_data f),
      qf_Total = sqlBounds (fl_total f), qf_Size = sqlBounds (fl_size f)\<rparr>"

definition hasResidual :: "reportFilters \<Rightarrow> bool" where
  "hasResidual f = ((fl_version f \<noteq> [] \<and> fl_versionOp f \<noteq> ''eq'') \<or> fl_provider f \<noteq> [] \<or> fl_resourceType f \<noteq> [])"

definition mapKeyContains :: "int gomap \<Rightarrow> string \<Rightarrow> bool" where
  "mapKeyContains m sub = list_ex (\<lambda>p. containsStr (lowerText (fst p)) sub) m"

definition residual :: "semverLib \<Rightarrow> reportFilters \<Rightarrow> ('a stateAnalysis_scheme) \<Rightarrow> bool" where
  "residual lib f r =
     (if fl_version f \<noteq> [] \<and> fl_versionOp f \<noteq> ''eq'' \<and> \<not> matchesVersion lib (sa_TerraformVersion r) (fl_version f) (fl_versionOp f) then False
      else if fl_provider f \<noteq> [] \<and> \<not> mapKeyContains (sa_Providers r) (fl_provider f) then False
      else if fl_resourceType f \<noteq> [] \<and> \<not> mapKeyContains (sa_ResourceTypes r) (fl_resourceType f) then False
      else True)"

definition applyResidual :: "semverLib \<Rightarrow> reportFilters \<Rightarrow> stateRow list \<Rightarrow> stateRow list" where
  "applyResidual lib f rows = (if \<not> hasResidual f then rows else filter (residual lib f) rows)"

definition reportPreviewCap :: nat where "reportPreviewCap = 500"

definition capRows :: "'a list \<Rightarrow> 'a list \<times> bool" where
  "capRows rows = (if reportPreviewCap < length rows then (take reportPreviewCap rows, True) else (rows, False))"

section \<open>Reports\<close>

record reportPreviewRow =
  pr_SourceID :: string
  pr_SourceName :: string
  pr_SourceType :: string
  pr_StateKey :: string
  pr_TerraformVersion :: string
  pr_Serial :: int
  pr_Size :: int
  pr_RUM :: int
  pr_ManagedResources :: int
  pr_DataSources :: int
  pr_TotalResources :: int
  pr_AnalyzedAt :: int

definition toPreviewRows :: "stateRow list \<Rightarrow> reportPreviewRow list" where
  "toPreviewRows rows =
     map (\<lambda>r. \<lparr>pr_SourceID = sa_SourceID r, pr_SourceName = sa_SourceName r, pr_SourceType = sa_SourceType r, pr_StateKey = sa_StateKey r,
               pr_TerraformVersion = sa_TerraformVersion r, pr_Serial = sa_Serial r, pr_Size = sa_Size r, pr_RUM = sa_RUM r,
               pr_ManagedResources = sa_ManagedResources r, pr_DataSources = sa_DataSources r, pr_TotalResources = sa_TotalResources r,
               pr_AnalyzedAt = sa_AnalyzedAt r\<rparr>) rows"

record statesSummary =
  sm_Matched :: int
  sm_RUM :: int
  sm_ManagedResources :: int
  sm_DataSources :: int
  sm_TotalResources :: int

definition summarizeStates :: "stateRow list \<Rightarrow> statesSummary" where
  "summarizeStates records =
     fold (\<lambda>r s. s\<lparr>sm_RUM := sm_RUM s + sa_RUM r, sm_ManagedResources := sm_ManagedResources s + sa_ManagedResources r,
                   sm_DataSources := sm_DataSources s + sa_DataSources r, sm_TotalResources := sm_TotalResources s + sa_TotalResources r\<rparr>)
       records \<lparr>sm_Matched = int (length records), sm_RUM = 0, sm_ManagedResources = 0, sm_DataSources = 0, sm_TotalResources = 0\<rparr>"

record statesReport =
  st_Total :: int
  st_Truncated :: bool
  st_Summary :: statesSummary
  st_States :: "reportPreviewRow list"

record reportEnv =
  rv_semver :: semverLib
  rv_scope :: "scope option"
  rv_sources :: "source list"
  rv_analyses :: "stateAnalysis list"
  rv_fails :: bool

definition reportStatesH :: "reportEnv \<Rightarrow> (string \<Rightarrow> string) \<Rightarrow> string list \<Rightarrow> nat + statesReport" where
  "reportStatesH rv q ids =
     (case parseReportFilters q ids of
        Inl _ \<Rightarrow> Inl 400
      | Inr f \<Rightarrow>
          (case rv_scope rv of
             None \<Rightarrow> Inl 500
           | Some sc \<Rightarrow>
               if rv_fails rv then Inl 500
               else if \<not> hasResidual f then
                 (case previewStatesInScope (rv_sources rv) (sqlFilter f) reportPreviewCap sc (rv_analyses rv) of
                    (preview, agg) \<Rightarrow>
                      Inr \<lparr>st_Total = at_States agg, st_Truncated = (int reportPreviewCap < at_States agg),
                           st_Summary = \<lparr>sm_Matched = at_States agg, sm_RUM = at_RUM agg, sm_ManagedResources = at_ManagedResources agg,
                                         sm_DataSources = at_DataSources agg, sm_TotalResources = at_TotalResources agg\<rparr>,
                           st_States = toPreviewRows preview\<rparr>)
               else
                 (let matched = applyResidual (rv_semver rv) f (filterStatesInScope (rv_sources rv) (sqlFilter f) sc (rv_analyses rv))
                  in case capRows matched of
                       (capped, truncated) \<Rightarrow>
                         Inr \<lparr>st_Total = int (length matched), st_Truncated = truncated, st_Summary = summarizeStates matched,
                              st_States = toPreviewRows capped\<rparr>)))"

text \<open>\<open>ReportStatesExport\<close>, with the rendering as an argument: None for a format it does not know.\<close>

definition reportStatesExportH :: "(stateRow list \<Rightarrow> 'b option) \<Rightarrow> reportEnv \<Rightarrow> (string \<Rightarrow> string) \<Rightarrow> string list \<Rightarrow> nat + 'b" where
  "reportStatesExportH render rv q ids =
     (case parseReportFilters q ids of
        Inl _ \<Rightarrow> Inl 400
      | Inr f \<Rightarrow>
          (case rv_scope rv of
             None \<Rightarrow> Inl 500
           | Some sc \<Rightarrow>
               if rv_fails rv then Inl 500
               else (case render (applyResidual (rv_semver rv) f (filterStatesInScope (rv_sources rv) (sqlFilter f) sc (rv_analyses rv))) of
                       None \<Rightarrow> Inl 400
                     | Some body \<Rightarrow> Inr body)))"

definition versionStatesCap :: nat where "versionStatesCap = 500"

text \<open>\<open>StatesByVersion\<close>: the page, the number of matches, and whether the page lacks some.\<close>

definition statesByVersionH :: "reportEnv \<Rightarrow> (string \<Rightarrow> string) \<Rightarrow> nat + stateRow list \<times> int \<times> bool" where
  "statesByVersionH rv q =
     (let ver = q ''version''; op = (if q ''op'' = [] then ''eq'' else q ''op'')
      in if ver = [] then Inl 400
         else if op \<notin> set versionOps then Inl 400
         else (case rv_scope rv of
                 None \<Rightarrow> Inl 500
               | Some sc \<Rightarrow>
                   if rv_fails rv then Inl 500
                   else if op = ''eq'' then
                     (case statesByVersionExactInScope (rv_sources rv) (if ver = ''unknown'' then [] else ver) versionStatesCap sc (rv_analyses rv) of
                        (states, n) \<Rightarrow> Inr (states, n, int (length states) < n))
                   else
                     (let matched = filterStatesByVersion (rv_semver rv) (stateVersionsInScope (rv_sources rv) sc (rv_analyses rv)) ver op
                      in Inr (if versionStatesCap < length matched then take versionStatesCap matched else matched,
                              int (length matched), versionStatesCap < length matched))))"

section \<open>A report is exactly what was asked for\<close>

text \<open>What a filter means, without its split.\<close>

definition inRange :: "int \<times> int \<Rightarrow> int \<Rightarrow> bool" where
  "inRange r v = (fst r \<le> v \<and> v \<le> snd r)"

definition reportMatches :: "semverLib \<Rightarrow> reportFilters \<Rightarrow> stateAnalysis \<Rightarrow> bool" where
  "reportMatches lib f a \<longleftrightarrow>
     (fl_sourceIDs f = [] \<or> sa_SourceID a \<in> set (fl_sourceIDs f))
     \<and> (fl_keyQuery f = [] \<or> containsStr (lowerText (sa_StateKey a)) (fl_keyQuery f))
     \<and> (fl_version f = [] \<or> matchesVersion lib (sa_TerraformVersion a) (fl_version f) (fl_versionOp f))
     \<and> (fl_provider f = [] \<or> mapKeyContains (sa_Providers a) (fl_provider f))
     \<and> (fl_resourceType f = [] \<or> mapKeyContains (sa_ResourceTypes a) (fl_resourceType f))
     \<and> inRange (fl_rum f) (sa_RUM a) \<and> inRange (fl_managed f) (sa_ManagedResources a) \<and> inRange (fl_data f) (sa_DataSources a)
     \<and> inRange (fl_total f) (sa_TotalResources a) \<and> inRange (fl_size f) (sa_Size a)"

text \<open>The counters of a stored analysis are those of a Go int, and count.\<close>

definition counters :: "stateAnalysis \<Rightarrow> bool" where
  "counters a \<longleftrightarrow> (\<forall>v \<in> {sa_RUM a, sa_ManagedResources a, sa_DataSources a, sa_TotalResources a, sa_Size a}. 0 \<le> v \<and> v \<le> maxInt)"

definition matchedRows :: "reportEnv \<Rightarrow> scope \<Rightarrow> reportFilters \<Rightarrow> stateRow list" where
  "matchedRows rv sc f =
     map (joinSource (rv_sources rv)) (sort_key (byName (rv_sources rv))
       (filter (\<lambda>a. reaches sc (analysisOrg (rv_sources rv) a) \<and> reportMatches (rv_semver rv) f a) (rv_analyses rv)))"

lemma inBounds_sql: "0 \<le> v \<Longrightarrow> v \<le> maxInt \<Longrightarrow> inBounds (sqlBounds r) v = inRange r v"
  by (auto simp: inBounds_def sqlBounds_def inRange_def)

lemma joinSource_fields [simp]:
  "sa_TerraformVersion (joinSource srcs a) = sa_TerraformVersion a" "sa_Providers (joinSource srcs a) = sa_Providers a"
  "sa_ResourceTypes (joinSource srcs a) = sa_ResourceTypes a" "sa_RUM (joinSource srcs a) = sa_RUM a"
  "sa_ManagedResources (joinSource srcs a) = sa_ManagedResources a" "sa_DataSources (joinSource srcs a) = sa_DataSources a"
  "sa_TotalResources (joinSource srcs a) = sa_TotalResources a"
  by (simp_all add: joinSource_def stateAnalysis.extend_def)

lemma residual_join [simp]: "residual lib f (joinSource srcs a) = residual lib f a"
  by (simp add: residual_def)

lemma residual_all: "\<not> hasResidual f \<Longrightarrow> residual lib f a"
  by (auto simp: hasResidual_def residual_def)

lemma split_exact:
  assumes "counters a"
  shows "(stateWhere (sqlFilter f) a \<and> residual lib f a) = reportMatches lib f a"
proof -
  have "inBounds (sqlBounds (fl_rum f)) (sa_RUM a) = inRange (fl_rum f) (sa_RUM a)"
       "inBounds (sqlBounds (fl_managed f)) (sa_ManagedResources a) = inRange (fl_managed f) (sa_ManagedResources a)"
       "inBounds (sqlBounds (fl_data f)) (sa_DataSources a) = inRange (fl_data f) (sa_DataSources a)"
       "inBounds (sqlBounds (fl_total f)) (sa_TotalResources a) = inRange (fl_total f) (sa_TotalResources a)"
       "inBounds (sqlBounds (fl_size f)) (sa_Size a) = inRange (fl_size f) (sa_Size a)"
    using assms by (auto simp: counters_def intro!: inBounds_sql)
  then show ?thesis
    unfolding stateWhere_def reportMatches_def residual_def sqlFilter_def
    by (auto simp: matchesVersion_def matchesExactVersion_def split: if_splits)
qed

lemma reported_rows:
  assumes "\<forall>a \<in> set (rv_analyses rv). counters a"
  shows "applyResidual (rv_semver rv) f (filterStatesInScope (rv_sources rv) (sqlFilter f) sc (rv_analyses rv)) = matchedRows rv sc f"
proof -
  let ?S = "rv_sources rv" and ?t = "rv_analyses rv"
  have a: "applyResidual (rv_semver rv) f rows = filter (residual (rv_semver rv) f) rows" for rows
    by (simp add: applyResidual_def residual_all filter_id_conv)
  have "filterStatesInScope ?S (sqlFilter f) sc ?t = filterStates ?S (sqlFilter f) (filter (\<lambda>r. reaches sc (analysisOrg ?S r)) ?t)"
    unfolding filterStatesInScope_def by (rule filterRead.reads_reached)
  moreover have "filter (\<lambda>x. residual (rv_semver rv) f x \<and> stateWhere (sqlFilter f) x \<and> reaches sc (analysisOrg ?S x)) ?t
      = filter (\<lambda>a. reaches sc (analysisOrg ?S a) \<and> reportMatches (rv_semver rv) f a) ?t"
    using assms split_exact by (intro filter_cong) auto
  ultimately show ?thesis
    by (simp add: a matchedRows_def filterStates_def filter_map comp_def filter_sort conj_ac)
qed

lemma summarize_fold:
  "fold (\<lambda>r s. s\<lparr>sm_RUM := sm_RUM s + sa_RUM r, sm_ManagedResources := sm_ManagedResources s + sa_ManagedResources r,
                 sm_DataSources := sm_DataSources s + sa_DataSources r, sm_TotalResources := sm_TotalResources s + sa_TotalResources r\<rparr>) rs s
   = s\<lparr>sm_RUM := sm_RUM s + sum_list (map sa_RUM rs), sm_ManagedResources := sm_ManagedResources s + sum_list (map sa_ManagedResources rs),
       sm_DataSources := sm_DataSources s + sum_list (map sa_DataSources rs), sm_TotalResources := sm_TotalResources s + sum_list (map sa_TotalResources rs)\<rparr>"
  by (induction rs arbitrary: s) (simp_all add: algebra_simps)

lemma summarizeStates_sums:
  "summarizeStates rs = \<lparr>sm_Matched = int (length rs), sm_RUM = sum_list (map sa_RUM rs), sm_ManagedResources = sum_list (map sa_ManagedResources rs),
     sm_DataSources = sum_list (map sa_DataSources rs), sm_TotalResources = sum_list (map sa_TotalResources rs)\<rparr>"
  by (simp add: summarizeStates_def summarize_fold)

lemma sort_key_Nil_iff [simp]: "(sort_key f xs = []) = (xs = [])"
  by (metis length_0_conv length_sort)

lemma sum_sort_key: "sum_list (map g (sort_key h xs)) = sum_list (map g xs)" for g :: "'a \<Rightarrow> int"
  by (metis mset_map mset_sort sum_mset_sum_list)

text \<open>The totals that ride on the rows of a preview are those of all matches.\<close>

lemma preview_rows:
  assumes "\<forall>a \<in> set (rv_analyses rv). counters a" "\<not> hasResidual f" "0 < n"
    and "previewStatesInScope (rv_sources rv) (sqlFilter f) n sc (rv_analyses rv) = (preview, agg)" "s = summarizeStates (matchedRows rv sc f)"
  shows "preview = take n (matchedRows rv sc f)"
    and "agg = \<lparr>at_States = sm_Matched s, at_RUM = sm_RUM s, at_ManagedResources = sm_ManagedResources s, at_DataSources = sm_DataSources s,
               at_TotalResources = sm_TotalResources s\<rparr>"
proof -
  let ?S = "rv_sources rv" and ?t = "filter (\<lambda>r. reaches sc (analysisOrg (rv_sources rv) r)) (rv_analyses rv)"
  have "applyResidual (rv_semver rv) f (filterStatesInScope ?S (sqlFilter f) sc (rv_analyses rv)) = filterStatesInScope ?S (sqlFilter f) sc (rv_analyses rv)"
    using assms(2) by (simp add: applyResidual_def)
  with reported_rows[OF assms(1), of f sc] have "filterStatesInScope ?S (sqlFilter f) sc (rv_analyses rv) = matchedRows rv sc f" by simp
  then have m: "filterStates ?S (sqlFilter f) ?t = matchedRows rv sc f"
    unfolding filterStatesInScope_def by (simp only: filterRead.reads_reached)
  have p: "previewStates ?S (sqlFilter f) n ?t = (preview, agg)"
    using assms(4) unfolding previewStatesInScope_def by (simp only: previewRead.reads_reached)
  then show "preview = take n (matchedRows rv sc f)" by (simp add: previewStates_def Let_def m)
  let ?w = "filter (stateWhere (sqlFilter f)) ?t"
  have mr: "matchedRows rv sc f = map (joinSource ?S) (sort_key (byName ?S) ?w)" using m by (simp add: filterStates_def)
  have "agg = totals ?w"
    using p assms(3) arg_cong[OF mr, of length] by (cases "?w = []") (auto simp: previewStates_def Let_def m)
  then show "agg = \<lparr>at_States = sm_Matched s, at_RUM = sm_RUM s, at_ManagedResources = sm_ManagedResources s, at_DataSources = sm_DataSources s,
               at_TotalResources = sm_TotalResources s\<rparr>"
    by (simp add: assms(5) mr summarizeStates_sums totals_def sumOf_def comp_def sum_sort_key)
qed

text \<open>C36: A report is about exactly the states asked for. The page and the export agree: of the states of the
  caller's organizations they take those whose every asked-for attribute matches, by the same rule for
  versions as the dashboard, counted and summed over all of them, whichever part SQL decided; the page
  shows the first 500 by source and key and says when there are more.\<close>

theorem report_is_exact:
  assumes "parseReportFilters q ids = Inr f" "rv_scope rv = Some sc" "\<not> rv_fails rv" "\<forall>a \<in> set (rv_analyses rv). counters a"
  shows "reportStatesH rv q ids = Inr \<lparr>st_Total = int (length (matchedRows rv sc f)), st_Truncated = 500 < length (matchedRows rv sc f),
           st_Summary = summarizeStates (matchedRows rv sc f), st_States = toPreviewRows (take 500 (matchedRows rv sc f))\<rparr>
    \<and> reportStatesExportH Some rv q ids = Inr (matchedRows rv sc f)"
proof
  show "reportStatesExportH Some rv q ids = Inr (matchedRows rv sc f)"
    using assms reported_rows[OF assms(4)] by (simp add: reportStatesExportH_def)
  let ?m = "matchedRows rv sc f"
  show "reportStatesH rv q ids = Inr \<lparr>st_Total = int (length ?m), st_Truncated = 500 < length ?m, st_Summary = summarizeStates ?m,
          st_States = toPreviewRows (take 500 ?m)\<rparr>"
  proof (cases "hasResidual f")
    case True
    then show ?thesis using assms reported_rows[OF assms(4)]
      by (cases "500 < length ?m") (simp_all add: reportStatesH_def capRows_def reportPreviewCap_def Let_def)
  next
    case False
    obtain preview agg where p: "previewStatesInScope (rv_sources rv) (sqlFilter f) reportPreviewCap sc (rv_analyses rv) = (preview, agg)" by fastforce
    note r = preview_rows[OF assms(4) False _ p refl, simplified reportPreviewCap_def, simplified]
    have "int 500 < int (length ?m) \<longleftrightarrow> 500 < length ?m" by (simp only: of_nat_less_iff)
    then show ?thesis using assms False p r by (simp add: reportStatesH_def reportPreviewCap_def summarizeStates_sums)
  qed
qed

text \<open>The page of a version lists the states of the caller's organizations that match it, counts them all, and
  says whether it shows them all.\<close>

lemma states_by_version_exact:
  assumes "q ''version'' \<noteq> []" "op = (if q ''op'' = [] then ''eq'' else q ''op'')" "op \<in> set versionOps" "rv_scope rv = Some sc" "\<not> rv_fails rv"
  defines "m \<equiv> filter (\<lambda>a. reaches sc (analysisOrg (rv_sources rv) a) \<and> matchesVersion (rv_semver rv) (sa_TerraformVersion a) (q ''version'') op) (rv_analyses rv)"
  shows "\<exists>xs. mset xs = mset m \<and> statesByVersionH rv q = Inr (map (joinSource (rv_sources rv)) (take 500 xs), int (length m), 500 < length m)"
proof (cases "op = ''eq''")
  case True
  let ?S = "rv_sources rv"
  define v where "v = (if q ''version'' = ''unknown'' then [] else q ''version'')"
  have f: "filter (\<lambda>a. reaches sc (analysisOrg ?S a) \<and> sa_TerraformVersion a = v) (rv_analyses rv) = m"
    using assms(1) True by (auto simp: v_def m_def matchesVersion_def matchesExactVersion_def intro!: filter_cong)
  have "statesByVersionExactInScope ?S v versionStatesCap sc (rv_analyses rv)
      = (map (joinSource ?S) (take 500 (sort_key (byName ?S) m)), if m = [] then 0 else int (length m))"
    unfolding statesByVersionExactInScope_def
    by (simp only: exactRead.reads_reached) (simp add: statesByVersionExact_def Let_def f versionStatesCap_def)
  then show ?thesis using assms(1-5) True
    by (intro exI[of _ "sort_key (byName ?S) m"]) (auto simp: statesByVersionH_def Let_def versionOps_def v_def)
next
  case False
  let ?S = "rv_sources rv"
  let ?k = "\<lambda>a. (sa_TerraformVersion a, byName ?S a)"
  have "filterStatesByVersion (rv_semver rv) (stateVersionsInScope ?S sc (rv_analyses rv)) (q ''version'') op = map (joinSource ?S) (sort_key ?k m)"
    unfolding stateVersionsInScope_def
    by (simp only: stateVersionsRead.reads_reached) (simp add: filterStatesByVersion_def stateVersions_def filter_map comp_def filter_sort m_def conj_ac)
  then show ?thesis using assms(1-5) False
    by (intro exI[of _ "sort_key ?k m"]) (auto simp: statesByVersionH_def Let_def versionStatesCap_def take_map)
qed

definition sampleQuery :: "string \<Rightarrow> string" where
  "sampleQuery n = (if n = ''provider'' then ''AWS '' else if n = ''rum_min'' then ''2'' else [])"

definition sampleFilters :: reportFilters where
  "sampleFilters = \<lparr>fl_sourceIDs = [], fl_keyQuery = [], fl_version = [], fl_versionOp = [], fl_provider = ''aws'', fl_resourceType = [],
     fl_rum = (2, maxInt), fl_managed = (0, maxInt), fl_data = (0, maxInt), fl_total = (0, maxInt), fl_size = (0, maxInt)\<rparr>"

definition sampleAnalysis :: "string \<Rightarrow> string \<Rightarrow> int \<Rightarrow> stateAnalysis" where
  "sampleAnalysis src key n = \<lparr>sa_SourceID = src, sa_StateKey = key, sa_VersionMarker = ''v'', sa_Size = 9, sa_TerraformVersion = ''1.9.0'', sa_Serial = 1,
     sa_Lineage = ''l'', sa_RUM = n, sa_ManagedResources = n, sa_DataSources = 0, sa_TotalResources = n, sa_Providers = [(''hashicorp/AWS'', n)],
     sa_ResourceTypes = [], sa_AnalyzedAt = 5\<rparr>"

definition sampleReports :: reportEnv where
  "sampleReports = \<lparr>rv_semver = sampleSemver, rv_scope = Some \<lparr>sc_PlatformAdmin = True, sc_OrgIDs = []\<rparr>, rv_sources = [],
     rv_analyses = [sampleAnalysis ''s1'' ''b'' 3, sampleAnalysis ''s1'' ''a'' 1], rv_fails = False\<rparr>"

theorem report_is_exact_witness:
  "case reportStatesH sampleReports sampleQuery [] of Inl _ \<Rightarrow> False
   | Inr r \<Rightarrow> st_Total r = 1 \<and> sm_RUM (st_Summary r) = 3 \<and> map pr_StateKey (st_States r) = [''b'']"
proof -
  have p: "parseReportFilters sampleQuery [] = Inr sampleFilters" by code_simp
  have m: "matchedRows sampleReports \<lparr>sc_PlatformAdmin = True, sc_OrgIDs = []\<rparr> sampleFilters = [joinSource [] (sampleAnalysis ''s1'' ''b'' 3)]"
    by code_simp
  have "\<forall>a \<in> set (rv_analyses sampleReports). counters a" by code_simp
  from report_is_exact[OF p _ _ this, of "\<lparr>sc_PlatformAdmin = True, sc_OrgIDs = []\<rparr>"] m
  have "reportStatesH sampleReports sampleQuery [] = Inr \<lparr>st_Total = 1, st_Truncated = False,
      st_Summary = summarizeStates [joinSource [] (sampleAnalysis ''s1'' ''b'' 3)], st_States = toPreviewRows [joinSource [] (sampleAnalysis ''s1'' ''b'' 3)]\<rparr>"
    by (simp add: sampleReports_def)
  then show ?thesis by (simp add: summarizeStates_sums toPreviewRows_def sampleAnalysis_def joinSource_def stateAnalysis.extend_def)
qed

end
