(* ===== verification/Overview.thy ===== *)
theory Overview
  imports Reports
begin

text \<open>
  \<open>DashboardOverview\<close> of \<open>api/dashboard.go\<close> and the cache of its aggregates, which outlives a request and is
  shared by all callers of a replica.

  The four aggregates are four statements: each sees the tables at its own moment, or fails. The mutex
  makes a use of the cache one step. The text of a time is a parameter.
\<close>

section \<open>The cache\<close>

type_synonym aggregates = "analysisTotals \<times> int gomap \<times> int gomap \<times> int gomap"

record overviewAggEntry =
  oe_expires :: int
  oe_aggregates :: aggregates

type_synonym overviewAggCache = "overviewAggEntry gomap"

definition overviewCacheMaxEntries :: nat where "overviewCacheMaxEntries = 64"

definition overviewCacheTTL :: int where "overviewCacheTTL = 30 * 10 ^ 9"

definition scopeCacheKey :: "scope \<Rightarrow> string" where
  "scopeCacheKey sc = (if sc_PlatformAdmin sc then ''platform-admin'' else ''orgs:'' @ joinWith '','' (sort (sc_OrgIDs sc)))"

type_synonym tables = "source list \<times> stateAnalysis list"

record overviewReads =
  od_totals :: "tables option"
  od_providers :: "tables option"
  od_types :: "tables option"
  od_versions :: "tables option"

definition readAggregates :: "overviewReads \<Rightarrow> scope \<Rightarrow> aggregates option" where
  "readAggregates rd sc =
     (case od_totals rd of None \<Rightarrow> None | Some (s1, t1) \<Rightarrow>
     (case od_providers rd of None \<Rightarrow> None | Some (s2, t2) \<Rightarrow>
     (case od_types rd of None \<Rightarrow> None | Some (s3, t3) \<Rightarrow>
     (case od_versions rd of None \<Rightarrow> None | Some (s4, t4) \<Rightarrow>
        Some (totalsInScope s1 sc t1, providerCountsInScope s2 sc t2, resourceTypeCountsInScope s3 sc t3, versionCountsInScope s4 sc t4)))))"

text \<open>A full cache is emptied before an entry is added.\<close>

definition storeAggregates :: "int \<Rightarrow> string \<Rightarrow> aggregates \<Rightarrow> overviewAggCache \<Rightarrow> overviewAggCache" where
  "storeAggregates now key a c =
     oput key \<lparr>oe_expires = now + overviewCacheTTL, oe_aggregates = a\<rparr> (if overviewCacheMaxEntries \<le> length c then [] else c)"

definition overviewAggregates :: "overviewReads \<Rightarrow> int \<Rightarrow> int \<Rightarrow> string \<Rightarrow> scope \<Rightarrow> overviewAggCache \<Rightarrow> aggregates option \<times> overviewAggCache" where
  "overviewAggregates rd now finished syncKey sc c =
     (let key = syncKey @ [CHR 0x00] @ scopeCacheKey sc;
          fresh = (case readAggregates rd sc of None \<Rightarrow> (None, c) | Some a \<Rightarrow> (Some a, storeAggregates finished key a c))
      in case oget key c of
           None \<Rightarrow> fresh
         | Some e \<Rightarrow> if now < oe_expires e then (Some (oe_aggregates e), c) else fresh)"

section \<open>The overview\<close>

definition topCounts :: "int gomap \<Rightarrow> nat \<Rightarrow> count list" where
  "topCounts m limit = (let out = sortedCounts m in if 0 < limit \<and> limit < length out then take limit out else out)"

record syncEntry =
  se_SourceID :: string
  se_Name :: string
  se_Type :: string
  se_Status :: "(sourceSyncStatus \<times> int) option"

record overviewPage =
  op_Sources :: int
  op_Totals :: analysisTotals
  op_StatesListed :: int
  op_Providers :: "count list"
  op_ResourceTypes :: "count list"
  op_Versions :: "count list"
  op_SourceErrors :: int
  op_Sync :: "syncEntry list"
  op_RefreshedAt :: "string option"

record overviewEnv =
  oq_scope :: "scope option"
  oq_sources :: "source list option"
  oq_statuses :: "(source list \<times> stateAnalysis list \<times> sourceSyncStatus list) option"
  oq_reads :: overviewReads
  oq_now :: int
  oq_finished :: int
  oq_timeText :: "int \<Rightarrow> string"

definition latestText :: "string list \<Rightarrow> string" where
  "latestText ts = fold (\<lambda>t k. if k < t then t else k) ts []"

definition inError :: "sourceSyncStatus \<Rightarrow> bool" where
  "inError s = (0 < ss_ReadErrors s \<or> ss_LastError s \<noteq> [])"

definition overviewPageOf :: "overviewEnv \<Rightarrow> source list \<Rightarrow> (sourceSyncStatus \<times> int) gomap \<Rightarrow> aggregates \<Rightarrow> overviewPage" where
  "overviewPageOf oq sources statuses a =
     (let found = concat (map (\<lambda>s. case oget (sr_ID s) statuses of None \<Rightarrow> [] | Some (st, _) \<Rightarrow> [st]) sources);
          refreshedAt = latestText (map (\<lambda>st. oq_timeText oq (ss_LastSyncAt st)) found)
      in case a of (tot, provs, types, vers) \<Rightarrow>
           \<lparr>op_Sources = int (length sources), op_Totals = tot, op_StatesListed = sum_list (map ss_StatesListed found),
            op_Providers = topCounts provs 0, op_ResourceTypes = topCounts types 10, op_Versions = topCounts vers 0,
            op_SourceErrors = int (length (filter inError found)),
            op_Sync = map (\<lambda>s. \<lparr>se_SourceID = sr_ID s, se_Name = sr_Name s, se_Type = sr_Type s, se_Status = oget (sr_ID s) statuses\<rparr>) sources,
            op_RefreshedAt = (if refreshedAt = [] then None else Some refreshedAt)\<rparr>)"

definition dashboardOverviewH :: "overviewEnv \<Rightarrow> overviewAggCache \<Rightarrow> (nat + overviewPage) \<times> overviewAggCache" where
  "dashboardOverviewH oq c =
     (case oq_scope oq of
        None \<Rightarrow> (Inl 500, c)
      | Some sc \<Rightarrow>
          (case oq_sources oq of
             None \<Rightarrow> (Inl 500, c)
           | Some allSources \<Rightarrow>
               (case oq_statuses oq of
                  None \<Rightarrow> (Inl 500, c)
                | Some (srcs, rows, sts) \<Rightarrow>
                    (let statuses = syncStatusesInScope srcs rows sc sts;
                         syncKey = latestText (map (\<lambda>p. oq_timeText oq (ss_LastSyncAt (fst (snd p)))) statuses)
                     in case overviewAggregates (oq_reads oq) (oq_now oq) (oq_finished oq) syncKey sc c of
                          (None, c') \<Rightarrow> (Inl 500, c')
                        | (Some a, c') \<Rightarrow> (Inr (overviewPageOf oq (listSourcesInScope sc allSources) statuses a), c')))))"

section \<open>Nobody else's numbers, and no old ones\<close>

definition plainScope :: "scope \<Rightarrow> bool" where
  "plainScope sc \<longleftrightarrow> (\<forall>i \<in> set (sc_OrgIDs sc). i \<noteq> [] \<and> CHR '','' \<notin> set i)"

lemma joined_ids_inject:
  assumes "\<forall>i \<in> set xs \<union> set ys. i \<noteq> [] \<and> CHR '','' \<notin> set i" "joinWith '','' xs = joinWith '','' ys"
  shows "xs = ys"
proof -
  have ne: "joinWith '','' zs \<noteq> []" if "zs \<noteq> []" "\<forall>i \<in> set zs. i \<noteq> []" for zs using that by (cases zs; cases "tl zs") auto
  have s: "splitOn CHR '','' (joinWith '','' zs) = zs" if "zs \<noteq> []" "\<forall>i \<in> set zs. CHR '','' \<notin> set i" for zs
    using that by (rule split_join)
  have p: "\<forall>i \<in> set xs. i \<noteq> []" "\<forall>i \<in> set ys. i \<noteq> []" "\<forall>i \<in> set xs. CHR '','' \<notin> set i" "\<forall>i \<in> set ys. CHR '','' \<notin> set i"
    using assms(1) by auto
  show ?thesis
  proof (cases "xs = [] \<or> ys = []")
    case True
    then show ?thesis using ne[OF _ p(1)] ne[OF _ p(2)] assms(2) by force
  next
    case False
    then show ?thesis using s[OF _ p(3)] s[OF _ p(4)] assms(2) by metis
  qed
qed

lemma same_key_reaches:
  assumes "plainScope sc" "plainScope sc'" "scopeCacheKey sc = scopeCacheKey sc'" shows "reaches sc = reaches sc'"
proof (cases "sc_PlatformAdmin sc")
  case True
  then have "sc_PlatformAdmin sc'" using assms(3) by (auto simp: scopeCacheKey_def split: if_splits)
  with True show ?thesis by (simp add: reaches_def fun_eq_iff)
next
  case False
  then have p: "\<not> sc_PlatformAdmin sc'" "joinWith '','' (sort (sc_OrgIDs sc)) = joinWith '','' (sort (sc_OrgIDs sc'))"
    using assms(3) by (auto simp: scopeCacheKey_def split: if_splits)
  then have "sort (sc_OrgIDs sc) = sort (sc_OrgIDs sc')" using assms(1,2) by (intro joined_ids_inject) (auto simp: plainScope_def)
  then have "set (sc_OrgIDs sc) = set (sc_OrgIDs sc')" by (metis set_sort)
  with False p(1) show ?thesis by (simp add: reaches_def fun_eq_iff anyOrg_def split: option.split)
qed

lemma key_split: "c \<notin> set k \<Longrightarrow> c \<notin> set k' \<Longrightarrow> k @ c # x = k' @ c # x' \<Longrightarrow> x = x'"
proof (induction k arbitrary: k')
  case Nil
  then show ?case by (cases k') auto
next
  case (Cons a k)
  then show ?case by (cases k') auto
qed

text \<open>The aggregates of one scope, each part seen at a moment of its own.\<close>

definition seenBetween :: "(int \<Rightarrow> tables) \<Rightarrow> int \<Rightarrow> int \<Rightarrow> scope \<Rightarrow> aggregates \<Rightarrow> bool" where
  "seenBetween db a b sc r \<longleftrightarrow> (\<exists>t1 t2 t3 t4. {t1, t2, t3, t4} \<subseteq> {a..b} \<and>
     r = (totalsInScope (fst (db t1)) sc (snd (db t1)), providerCountsInScope (fst (db t2)) sc (snd (db t2)),
          resourceTypeCountsInScope (fst (db t3)) sc (snd (db t3)), versionCountsInScope (fst (db t4)) sc (snd (db t4))))"

definition readsBetween :: "(int \<Rightarrow> tables) \<Rightarrow> int \<Rightarrow> int \<Rightarrow> overviewReads \<Rightarrow> bool" where
  "readsBetween db a b rd \<longleftrightarrow> (\<forall>x \<in> {od_totals rd, od_providers rd, od_types rd, od_versions rd}. x = None \<or> (\<exists>t \<in> {a..b}. x = Some (db t)))"

text \<open>The uses of the cache: whoever asks, whatever fails, an aggregation that takes at most \<open>dur\<close>.\<close>

inductive overviewRun :: "(int \<Rightarrow> tables) \<Rightarrow> int \<Rightarrow> int \<times> overviewAggCache \<Rightarrow> bool" where
  start: "overviewRun db dur (t, [])"
| use: "overviewRun db dur (t, c) \<Longrightarrow> t \<le> now \<Longrightarrow> now \<le> fin \<Longrightarrow> fin \<le> now + dur \<Longrightarrow> readsBetween db now fin rd \<Longrightarrow>
     plainScope sc \<Longrightarrow> CHR 0x00 \<notin> set k \<Longrightarrow> overviewAggregates rd now fin k sc c = (r, c') \<Longrightarrow> overviewRun db dur (fin, c')"

lemma seen_same_key:
  assumes "plainScope sc" "plainScope sc'" "scopeCacheKey sc = scopeCacheKey sc'" "seenBetween db a b sc r" shows "seenBetween db a b sc' r"
proof -
  note r = same_key_reaches[OF assms(1-3)]
  have "totalsInScope s sc t = totalsInScope s sc' t" for s t unfolding totalsInScope_def totalsRead.reads_reached r ..
  moreover have "providerCountsInScope s sc t = providerCountsInScope s sc' t" for s t unfolding providerCountsInScope_def providersRead.reads_reached r ..
  moreover have "resourceTypeCountsInScope s sc t = resourceTypeCountsInScope s sc' t" for s t unfolding resourceTypeCountsInScope_def typesRead.reads_reached r ..
  moreover have "versionCountsInScope s sc t = versionCountsInScope s sc' t" for s t unfolding versionCountsInScope_def versionsRead.reads_reached r ..
  ultimately show ?thesis using assms(4) by (simp add: seenBetween_def)
qed

lemma seen_wider: "seenBetween db a b sc r \<Longrightarrow> a' \<le> a \<Longrightarrow> b \<le> b' \<Longrightarrow> seenBetween db a' b' sc r"
proof -
  assume s: "seenBetween db a b sc r" and le: "a' \<le> a" "b \<le> b'"
  have sub: "T \<subseteq> {a'..b'}" if "T \<subseteq> {a..b}" for T :: "int set" using that le by force
  from s show ?thesis unfolding seenBetween_def by (elim exE conjE) (intro exI conjI, erule sub, assumption)
qed

lemma fresh_seen:
  assumes "readsBetween db a b rd" "readAggregates rd sc = Some r" shows "seenBetween db a b sc r"
proof -
  obtain x1 x2 x3 x4 where x: "od_totals rd = Some x1" "od_providers rd = Some x2" "od_types rd = Some x3" "od_versions rd = Some x4"
      "r = (totalsInScope (fst x1) sc (snd x1), providerCountsInScope (fst x2) sc (snd x2),
            resourceTypeCountsInScope (fst x3) sc (snd x3), versionCountsInScope (fst x4) sc (snd x4))"
    using assms(2) by (auto simp: readAggregates_def split: option.splits prod.splits)
  then obtain t1 t2 t3 t4 where "x1 = db t1" "x2 = db t2" "x3 = db t3" "x4 = db t4" "{t1, t2, t3, t4} \<subseteq> {a..b}"
    using assms(1) unfolding readsBetween_def by auto
  with x(5) show ?thesis unfolding seenBetween_def by blast
qed

text \<open>What an entry is: the numbers of its scope, of no more than \<open>dur\<close> before it was stored.\<close>

definition entryOK :: "(int \<Rightarrow> tables) \<Rightarrow> int \<Rightarrow> int \<Rightarrow> string \<Rightarrow> overviewAggEntry \<Rightarrow> bool" where
  "entryOK db dur t key e \<longleftrightarrow> (\<exists>k sc. CHR 0x00 \<notin> set k \<and> plainScope sc \<and> key = k @ CHR 0x00 # scopeCacheKey sc
     \<and> oe_expires e - overviewCacheTTL \<le> t
     \<and> seenBetween db (oe_expires e - overviewCacheTTL - dur) (oe_expires e - overviewCacheTTL) sc (oe_aggregates e))"

lemma entryOK_later: "entryOK db dur t key e \<Longrightarrow> t \<le> t' \<Longrightarrow> entryOK db dur t' key e"
  unfolding entryOK_def by force

lemma aggregates_cases:
  assumes "overviewAggregates rd now fin k sc c = (r, c')"
  obtains (hit) e where "oget (k @ CHR 0x00 # scopeCacheKey sc) c = Some e" "now < oe_expires e" "r = Some (oe_aggregates e)" "c' = c"
  | (failed) "r = None" "c' = c"
  | (computed) a where "readAggregates rd sc = Some a" "r = Some a" "c' = storeAggregates fin (k @ CHR 0x00 # scopeCacheKey sc) a c"
  using assms by (auto simp: overviewAggregates_def Let_def split: option.splits if_splits)

lemma cache_entries:
  assumes "overviewRun db dur tc" shows "\<forall>key e. oget key (snd tc) = Some e \<longrightarrow> entryOK db dur (fst tc) key e"
  using assms
proof induction
  case (start db dur t)
  then show ?case by simp
next
  case (use db dur t c now fin rd sc k r c')
  have kept: "\<forall>key e. oget key c = Some e \<longrightarrow> entryOK db dur fin key e"
  proof (intro allI impI)
    fix key e assume "oget key c = Some e"
    then have "entryOK db dur t key e" using use.IH by simp
    then show "entryOK db dur fin key e" by (rule entryOK_later) (use use.hyps(2,3) in simp)
  qed
  from use.hyps(8) show ?case
  proof (cases rule: aggregates_cases)
    case (computed a)
    let ?key = "k @ CHR 0x00 # scopeCacheKey sc" and ?e = "\<lparr>oe_expires = fin + overviewCacheTTL, oe_aggregates = a\<rparr>"
    have "seenBetween db (fin - dur) fin sc a" by (rule seen_wider[OF fresh_seen[OF use.hyps(5) computed(1)]]) (use use.hyps(4) in simp_all)
    then have new: "entryOK db dur fin ?key ?e" using use.hyps(6,7) unfolding entryOK_def by auto
    show ?thesis
    proof (intro allI impI)
      fix key e assume "oget key (snd (fin, c')) = Some e"
      then have "(key = ?key \<and> e = ?e) \<or> oget key c = Some e"
        using computed(3) by (auto simp: storeAggregates_def split: if_splits)
      then show "entryOK db dur (fst (fin, c')) key e"
      proof
        assume "oget key c = Some e"
        then show ?thesis using kept by simp
      qed (use new in simp)
    qed
  qed (simp_all add: kept)
qed

text \<open>C37: Whoever asks for the overview gets the numbers of their own organizations, and recent ones. Whatever
  other callers asked before, the aggregates served are those of the caller's scope, each as the tables
  had it no more than thirty seconds, and the time an aggregation takes, before.\<close>

theorem overview_is_own_and_recent:
  assumes "overviewRun db dur (t, c)" "t \<le> now" "now \<le> fin" "fin \<le> now + dur" "readsBetween db now fin rd" "plainScope sc" "CHR 0x00 \<notin> set k"
    and "overviewAggregates rd now fin k sc c = (Some r, c')"
  shows "seenBetween db (now - 30 * 10 ^ 9 - dur) fin sc r"
  using assms(8)
proof (cases rule: aggregates_cases)
  case (hit e)
  have "entryOK db dur t (k @ CHR 0x00 # scopeCacheKey sc) e" using cache_entries[OF assms(1)] hit(1) by simp
  then obtain k' sc' where e: "CHR 0x00 \<notin> set k'" "plainScope sc'" "k @ CHR 0x00 # scopeCacheKey sc = k' @ CHR 0x00 # scopeCacheKey sc'"
      "oe_expires e - overviewCacheTTL \<le> t" "seenBetween db (oe_expires e - overviewCacheTTL - dur) (oe_expires e - overviewCacheTTL) sc' r"
    using hit(3) unfolding entryOK_def by blast
  have "scopeCacheKey sc' = scopeCacheKey sc" using key_split[OF assms(7) e(1,3)] ..
  from seen_same_key[OF e(2) assms(6) this e(5)] show ?thesis
    by (rule seen_wider) (use hit(2) e(4) assms(2,3) in \<open>simp_all add: overviewCacheTTL_def\<close>)
next
  case (computed a)
  then have "seenBetween db now fin sc r" using fresh_seen[OF assms(5)] by simp
  moreover have "0 \<le> dur" using assms(3,4) by simp
  ultimately show ?thesis by (auto intro: seen_wider)
qed simp

text \<open>An overview asked for at 20 that still shows what was there at 5.\<close>

definition sampleTables :: "int \<Rightarrow> tables" where
  "sampleTables t = ([], if t < 6 then [sampleAnalysis ''s1'' ''a'' 3] else [])"

definition sampleReads :: "int \<Rightarrow> overviewReads" where
  "sampleReads t = (let x = Some (sampleTables t) in \<lparr>od_totals = x, od_providers = x, od_types = x, od_versions = x\<rparr>)"

theorem overview_is_own_and_recent_witness:
  "let sc = \<lparr>sc_PlatformAdmin = True, sc_OrgIDs = []\<rparr>; c = snd (overviewAggregates (sampleReads 5) 5 5 ''k'' sc [])
   in \<exists>r. overviewAggregates (sampleReads 20) 20 20 ''k'' sc c = (Some r, c) \<and> at_RUM (fst r) = 3
        \<and> seenBetween sampleTables (20 - 30 * 10 ^ 9) 20 sc r"
proof -
  let ?sc = "\<lparr>sc_PlatformAdmin = True, sc_OrgIDs = []\<rparr>"
  let ?c = "snd (overviewAggregates (sampleReads 5) 5 5 ''k'' ?sc [])"
  have "case overviewAggregates (sampleReads 20) 20 20 ''k'' ?sc ?c of (None, _) \<Rightarrow> False | (Some r, c') \<Rightarrow> at_RUM (fst r) = 3 \<and> c' = ?c" by code_simp
  then obtain r where r: "overviewAggregates (sampleReads 20) 20 20 ''k'' ?sc ?c = (Some r, ?c)" "at_RUM (fst r) = 3"
    by (auto split: prod.splits option.splits)
  have b: "readsBetween sampleTables t t (sampleReads t)" for t by (simp add: readsBetween_def sampleReads_def Let_def)
  have p: "plainScope ?sc" "CHR 0x00 \<notin> set ''k''" by (simp_all add: plainScope_def)
  have "overviewRun sampleTables 0 (5, ?c)"
    by (rule overviewRun.use[OF overviewRun.start[of _ _ 0] _ _ _ b p prod.collapse[symmetric]]) simp_all
  from overview_is_own_and_recent[OF this _ _ _ b p r(1)] have "seenBetween sampleTables (20 - 30 * 10 ^ 9) 20 ?sc r" by simp
  with r show ?thesis unfolding Let_def by blast
qed

end
