(* ===== verification/Exports.thy ===== *)
theory Exports
  imports Reports
begin

text \<open>
  \<open>internal/reporting\<close>: the downloads of an analysis and of a report, as CSV, Markdown and JSON.

  The CSV is that of Go's \<open>encoding/csv\<close>: a field is quoted where it has to be, and a line ends with a
  line feed. JSON is \<open>MarshalIndent\<close> of the whole report, an argument here, and so is the text of a time.
\<close>

section \<open>CSV\<close>

text \<open>The encodings of the white space of Unicode, of which a field may not begin with one unquoted.\<close>

definition spaceRunes :: "string list" where
  "spaceRunes = map (map char_of) ([[9], [10], [11], [12], [13], [32], [194, 133], [194, 160], [225, 154, 128], [226, 128, 168], [226, 128, 169],
     [226, 128, 175], [226, 129, 159], [227, 128, 128]] @ map (\<lambda>i. [226, 128, i]) [128..<139 :: nat])"

definition csvSpecial :: "char \<Rightarrow> bool" where
  "csvSpecial c = (c = CHR 0x0A \<or> c = CHR 0x0D \<or> c = CHR 0x22 \<or> c = CHR '','')"

definition fieldNeedsQuotes :: "string \<Rightarrow> bool" where
  "fieldNeedsQuotes f =
     (if f = [] then False
      else if f = [CHR 0x5C, CHR ''.''] then True
      else if list_ex csvSpecial f then True
      else list_ex (hasPrefix f) spaceRunes)"

definition quoteText :: "string \<Rightarrow> string" where
  "quoteText f = concat (map (\<lambda>c. if c = CHR 0x22 then [CHR 0x22, CHR 0x22] else [c]) f)"

definition csvField :: "string \<Rightarrow> string" where
  "csvField f = (if fieldNeedsQuotes f then CHR 0x22 # quoteText f @ [CHR 0x22] else f)"

definition csvLine :: "string list \<Rightarrow> string" where
  "csvLine row = joinWith '','' (map csvField row) @ [CHR 0x0A]"

section \<open>The analysis of one state\<close>

definition writeCountRows :: "string \<Rightarrow> count list \<Rightarrow> string list list" where
  "writeCountRows category rows = map (\<lambda>r. [category, c_Key r, itoa (c_Count r)]) rows"

definition csvReportRows :: "analysis \<Rightarrow> string list list" where
  "csvReportRows a =
     [''category'', ''key'', ''count'']
     # map (\<lambda>(k, v). [''summary'', k, v])
         [(''rum'', itoa (an_RUM a)), (''managed_resources'', itoa (an_ManagedResources a)), (''data_sources'', itoa (an_DataSources a)),
          (''total_instances'', itoa (an_TotalResources a)), (''null_and_terraform_data'', itoa (an_NullResources a)),
          (''terraform_version'', an_TerraformVersion a), (''serial'', itoa (an_Serial a))]
     @ writeCountRows ''resource_type'' (an_ResourceTypes a) @ writeCountRows ''provider'' (an_Providers a) @ writeCountRows ''module'' (an_Modules a)"

definition csvReport :: "analysis \<Rightarrow> string" where
  "csvReport a = concat (map csvLine (csvReportRows a))"

definition emDash :: string where "emDash = map char_of [226, 128, 148 :: nat]"

definition orDash :: "string \<Rightarrow> string" where
  "orDash s = (if s = [] then emDash else s)"

abbreviation LF :: string where "LF \<equiv> [CHR 0x0A]"

definition writeCountTable :: "string \<Rightarrow> string \<Rightarrow> count list \<Rightarrow> string" where
  "writeCountTable title keyHeader rows =
     ''## '' @ title @ LF @ LF @
     (if rows = [] then ''_None_'' @ LF @ LF
      else ''| '' @ keyHeader @ '' | Count |'' @ LF @ ''|---|---:|'' @ LF
           @ concat (map (\<lambda>r. ''| '' @ c_Key r @ '' | '' @ itoa (c_Count r) @ '' |'' @ LF) rows) @ LF)"

definition markdown :: "analysis \<Rightarrow> string \<Rightarrow> string" where
  "markdown a key =
     ''# Terraform State Analysis '' @ emDash @ '' '' @ key @ LF @ LF
     @ ''- **Terraform version:** '' @ orDash (an_TerraformVersion a) @ LF
     @ ''- **State format version:** '' @ itoa (an_FormatVersion a) @ LF
     @ ''- **Serial:** '' @ itoa (an_Serial a) @ LF
     @ ''- **Lineage:** '' @ orDash (an_Lineage a) @ LF @ LF
     @ ''## Summary'' @ LF @ LF @ ''| Metric | Value |'' @ LF @ ''|---|---:|'' @ LF
     @ ''| Resources Under Management (RUM) | '' @ itoa (an_RUM a) @ '' |'' @ LF
     @ ''| Managed resources | '' @ itoa (an_ManagedResources a) @ '' |'' @ LF
     @ ''| Data sources | '' @ itoa (an_DataSources a) @ '' |'' @ LF
     @ ''| Total instances | '' @ itoa (an_TotalResources a) @ '' |'' @ LF
     @ ''| null_resource + terraform_data | '' @ itoa (an_NullResources a) @ '' |'' @ LF @ LF
     @ writeCountTable ''Resource types'' ''Type'' (an_ResourceTypes a)
     @ writeCountTable ''Providers'' ''Provider'' (an_Providers a)
     @ writeCountTable ''Modules'' ''Module'' (an_Modules a)"

text \<open>\<open>path.Base\<close>.\<close>

definition pathBase :: "string \<Rightarrow> string" where
  "pathBase p =
     (let q = rev (dropWhile (\<lambda>c. c = CHR ''/'') (rev p))
      in if p = [] then ''.'' else if q = [] then ''/'' else last (splitOn CHR ''/'' q))"

definition baseName :: "string \<Rightarrow> string" where
  "baseName key =
     (let b = dropSuffix (pathBase key) ''.tfstate'' in if b = [] \<or> b = ''.'' \<or> b = ''/'' then ''state'' else b)"

text \<open>A download: content type, file name and body. None for a format that is not known.\<close>

definition generate :: "(analysis \<Rightarrow> string) \<Rightarrow> analysis \<Rightarrow> string \<Rightarrow> string \<Rightarrow> (string \<times> string \<times> string) option" where
  "generate json a key format =
     (let base = baseName key
      in if format = ''json'' then Some (''application/json'', base @ ''.analysis.json'', json a)
         else if format = ''md'' then Some (''text/markdown; charset=utf-8'', base @ ''.analysis.md'', markdown a key)
         else if format = ''csv'' then Some (''text/csv; charset=utf-8'', base @ ''.analysis.csv'', csvReport a)
         else None)"

section \<open>Reports\<close>

definition joinCountMap :: "int gomap \<Rightarrow> string" where
  "joinCountMap m = (if m = [] then [] else joinWith '';'' (map (\<lambda>(k, n). k @ ''='' @ itoa n) m))"

definition stateHeader :: "string list" where
  "stateHeader = [''source_name'', ''source_type'', ''state_key'', ''terraform_version'', ''serial'', ''size'', ''rum'', ''managed_resources'',
     ''data_sources'', ''total_resources'', ''providers'', ''resource_types'', ''lineage'', ''analyzed_at'']"

definition stateCells :: "(int \<Rightarrow> string) \<Rightarrow> stateRow \<Rightarrow> string list" where
  "stateCells timeText r =
     [sa_SourceName r, sa_SourceType r, sa_StateKey r, sa_TerraformVersion r, itoa (sa_Serial r), itoa (sa_Size r), itoa (sa_RUM r),
      itoa (sa_ManagedResources r), itoa (sa_DataSources r), itoa (sa_TotalResources r), joinCountMap (sa_Providers r),
      joinCountMap (sa_ResourceTypes r), sa_Lineage r, timeText (sa_AnalyzedAt r)]"

definition statesCSV :: "(int \<Rightarrow> string) \<Rightarrow> stateRow list \<Rightarrow> string" where
  "statesCSV timeText records = concat (map csvLine (stateHeader # map (stateCells timeText) records))"

definition mdCell :: "string \<Rightarrow> string" where
  "mdCell s = concat (map (\<lambda>c. if c = CHR ''|'' then [CHR 0x5C, CHR ''|''] else [c]) s)"

definition statesMarkdown :: "stateRow list \<Rightarrow> string \<Rightarrow> string \<Rightarrow> string" where
  "statesMarkdown records generatedAt filterText =
     (let s = summarizeStates records
      in ''# Terraform State Report'' @ LF @ LF
         @ (if generatedAt \<noteq> [] then ''_Generated '' @ generatedAt @ ''_'' @ LF @ LF else [])
         @ ''**Filters:** '' @ orDash filterText @ LF @ LF
         @ ''## Summary'' @ LF @ LF @ ''| Metric | Value |'' @ LF @ ''|---|---:|'' @ LF
         @ ''| Matched state files | '' @ itoa (sm_Matched s) @ '' |'' @ LF
         @ ''| Resources Under Management (RUM) | '' @ itoa (sm_RUM s) @ '' |'' @ LF
         @ ''| Managed resources | '' @ itoa (sm_ManagedResources s) @ '' |'' @ LF
         @ ''| Data sources | '' @ itoa (sm_DataSources s) @ '' |'' @ LF
         @ ''| Total instances | '' @ itoa (sm_TotalResources s) @ '' |'' @ LF @ LF
         @ ''## State files'' @ LF @ LF
         @ (if records = [] then ''_None_'' @ LF
            else ''| Source | State | Terraform | RUM | Managed | Data | Total | Size |'' @ LF @ ''|---|---|---|---:|---:|---:|---:|---:|'' @ LF
                 @ concat (map (\<lambda>r. ''| '' @ joinWith '' | ''
                      [mdCell (sa_SourceName r), mdCell (sa_StateKey r), mdCell (orDash (sa_TerraformVersion r)), itoa (sa_RUM r), itoa (sa_ManagedResources r),
                       itoa (sa_DataSources r), itoa (sa_TotalResources r), itoa (sa_Size r)] @ '' |'' @ LF) records)))"

record reportMeta =
  rm_GeneratedAt :: string
  rm_FilterText :: string
  rm_json :: "stateRow list \<Rightarrow> string"
  rm_timeText :: "int \<Rightarrow> string"

definition generateStatesReport :: "reportMeta \<Rightarrow> string \<Rightarrow> stateRow list \<Rightarrow> (string \<times> string \<times> string) option" where
  "generateStatesReport meta format records =
     (if format = ''json'' then Some (''application/json'', ''terraform-state-report.json'', rm_json meta records)
      else if format = ''md'' then
        Some (''text/markdown; charset=utf-8'', ''terraform-state-report.md'', statesMarkdown records (rm_GeneratedAt meta) (rm_FilterText meta))
      else if format = ''csv'' then Some (''text/csv; charset=utf-8'', ''terraform-state-report.csv'', statesCSV (rm_timeText meta) records)
      else None)"

section \<open>A spreadsheet reads back what was exported\<close>

text \<open>A reader of comma-separated values: where in a field it is, the field and the row so far.\<close>

datatype csvMode = FieldStart | Unquoted | Quoted | QuoteSeen

fun csvRead :: "csvMode \<Rightarrow> string \<Rightarrow> string list \<Rightarrow> string \<Rightarrow> string list list option" where
  "csvRead m f row [] = (if m = FieldStart \<and> row = [] then Some [] else None)"
| "csvRead Quoted f row (c # cs) = (if c = CHR 0x22 then csvRead QuoteSeen f row cs else csvRead Quoted (f @ [c]) row cs)"
| "csvRead m f row (c # cs) =
     (if c = CHR 0x22 then (case m of FieldStart \<Rightarrow> csvRead Quoted [] row cs | QuoteSeen \<Rightarrow> csvRead Quoted (f @ [c]) row cs | _ \<Rightarrow> None)
      else if c = CHR '','' then csvRead FieldStart [] (row @ [f]) cs
      else if c = CHR 0x0A then map_option (\<lambda>rows. (row @ [f]) # rows) (csvRead FieldStart [] [] cs)
      else if m = QuoteSeen then None
      else csvRead Unquoted (f @ [c]) row cs)"

definition readCSV :: "string \<Rightarrow> string list list option" where
  "readCSV s = csvRead FieldStart [] [] s"

lemma read_rest: "\<not> list_ex csvSpecial u \<Longrightarrow> csvRead Unquoted f row (u @ cs) = csvRead Unquoted (f @ u) row cs"
  by (induction u arbitrary: f) (auto simp: csvSpecial_def)

lemma read_unquoted:
  assumes "\<not> list_ex csvSpecial u" "u \<noteq> []" shows "csvRead FieldStart [] row (u @ cs) = csvRead Unquoted u row cs"
  using assms read_rest[of "tl u" "[hd u]" row cs] by (cases u) (auto simp: csvSpecial_def)

lemma read_quoted: "csvRead Quoted f row (quoteText q @ CHR 0x22 # cs) = csvRead QuoteSeen (f @ q) row cs"
  by (induction q arbitrary: f) (auto simp: quoteText_def)

lemma read_field:
  assumes "t = CHR '','' \<or> t = CHR 0x0A"
  shows "csvRead FieldStart [] row (csvField g @ t # cs)
    = (if t = CHR '','' then csvRead FieldStart [] (row @ [g]) cs else map_option (\<lambda>rows. (row @ [g]) # rows) (csvRead FieldStart [] [] cs))"
proof (cases "fieldNeedsQuotes g")
  case True
  then show ?thesis using assms by (auto simp: csvField_def read_quoted)
next
  case False
  then have f: "csvField g = g" "\<not> list_ex csvSpecial g" by (auto simp: csvField_def fieldNeedsQuotes_def split: if_splits)
  show ?thesis
  proof (cases "g = []")
    case True
    with f assms show ?thesis by auto
  next
    case ne: False
    show ?thesis unfolding f(1) using read_unquoted[OF f(2) ne, of row "t # cs"] assms by auto
  qed
qed

lemma read_fields:
  "gs \<noteq> [] \<Longrightarrow> csvRead FieldStart [] row (joinWith '','' (map csvField gs) @ CHR 0x0A # cs)
     = map_option (\<lambda>rows. (row @ gs) # rows) (csvRead FieldStart [] [] cs)"
proof (induction gs arbitrary: row)
  case (Cons g gs)
  show ?case
  proof (cases gs)
    case Nil
    then show ?thesis using read_field[of "CHR 0x0A" row g cs] by simp
  next
    case (Cons h hs)
    then show ?thesis using Cons.IH[of "row @ [g]"] read_field[of "CHR '',''" row g "joinWith '','' (map csvField gs) @ CHR 0x0A # cs"] by simp
  qed
qed simp

lemma read_lines: "\<forall>row \<in> set rows. row \<noteq> [] \<Longrightarrow> readCSV (concat (map csvLine rows)) = Some rows"
proof (induction rows)
  case (Cons row rows)
  then show ?case using read_fields[of row "[]" "concat (map csvLine rows)"] by (simp add: readCSV_def csvLine_def[of row])
qed (simp add: readCSV_def)

text \<open>A CSV export loses and confuses nothing. Read back, the export of a report is its header and, in order, one
  row per matched state with exactly the texts of its columns, whatever commas, quotes, line breaks and
  spaces they contain; and so is the export of one state's analysis.\<close>

theorem csv_reads_back:
  "(case reportStatesExportH (generateStatesReport meta ''csv'') rv q ids of
      Inl status \<Rightarrow> reportStatesExportH Some rv q ids = Inl status
    | Inr (_, _, body) \<Rightarrow> (\<exists>records. reportStatesExportH Some rv q ids = Inr records
        \<and> readCSV body = Some (stateHeader # map (stateCells (rm_timeText meta)) records)))
   \<and> readCSV (csvReport a) = Some (csvReportRows a)"
proof
  have "\<forall>row \<in> set (stateHeader # map (stateCells tt) records). row \<noteq> []" for tt records by (auto simp: stateHeader_def stateCells_def)
  from read_lines[OF this] have s: "readCSV (statesCSV tt records) = Some (stateHeader # map (stateCells tt) records)" for tt records
    by (simp add: statesCSV_def)
  show "case reportStatesExportH (generateStatesReport meta ''csv'') rv q ids of
      Inl status \<Rightarrow> reportStatesExportH Some rv q ids = Inl status
    | Inr (_, _, body) \<Rightarrow> (\<exists>records. reportStatesExportH Some rv q ids = Inr records
        \<and> readCSV body = Some (stateHeader # map (stateCells (rm_timeText meta)) records))"
    by (simp add: reportStatesExportH_def generateStatesReport_def s split: sum.split option.split)
  have "\<forall>row \<in> set (csvReportRows a). row \<noteq> []" by (auto simp: csvReportRows_def writeCountRows_def)
  from read_lines[OF this] show "readCSV (csvReport a) = Some (csvReportRows a)" by (simp add: csvReport_def)
qed

end
