(* ===== verification/Retention.thy ===== *)
theory Retention
  imports Access
begin

text \<open>
  \<open>internal/legalhold\<close>, \<open>api/legal_holds.go\<close> and \<open>services/auditretention\<close>: holds that preserve audit entries,
  and the sweep that deletes old entries without touching what is held.

  The audit table belongs to the shared identity module: its batched deletion is a parameter, with what
  its documentation promises as laws. Times are nanoseconds; drawn ids and failing statements are
  arguments; the ticker, the timeout of a run and the audit rows of the handlers are left out.
\<close>

section \<open>Holds\<close>

record hold =
  ho_ID :: string
  ho_Name :: string
  ho_Reason :: string
  ho_StartDate :: int
  ho_EndDate :: int
  ho_Active :: bool
  ho_PlacedBy :: "string option"
  ho_PlacedAt :: int
  ho_ReleasedBy :: "string option"
  ho_ReleasedAt :: "int option"

datatype holdErr = HoldNotFound | HoldInvalidRange | HoldStatementFailed

definition orNull :: "string \<Rightarrow> string option" where
  "orNull s = (if s = [] then None else Some s)"

definition getHold :: "string \<Rightarrow> hold list \<Rightarrow> holdErr + hold" where
  "getHold i t = (case List.find (\<lambda>h. ho_ID h = i) t of None \<Rightarrow> Inl HoldNotFound | Some h \<Rightarrow> Inr h)"

text \<open>\<open>Place\<close>; the id is the primary key.\<close>

definition placeHold :: "bool \<Rightarrow> string \<Rightarrow> int \<Rightarrow> string \<Rightarrow> string \<Rightarrow> int \<Rightarrow> int \<Rightarrow> string \<Rightarrow> hold list \<Rightarrow> (holdErr + hold) \<times> hold list" where
  "placeHold fails newID now name reason start fin placedBy t =
     (if fin < start then (Inl HoldInvalidRange, t)
      else (let h = \<lparr>ho_ID = newID, ho_Name = name, ho_Reason = reason, ho_StartDate = start, ho_EndDate = fin, ho_Active = True,
                      ho_PlacedBy = orNull placedBy, ho_PlacedAt = now, ho_ReleasedBy = None, ho_ReleasedAt = None\<rparr>
            in if fails \<or> newID \<in> ho_ID ` set t then (Inl HoldStatementFailed, t) else (Inr h, t @ [h])))"

definition releasedHold :: "int \<Rightarrow> string option \<Rightarrow> hold \<Rightarrow> hold" where
  "releasedHold now by h =
     h\<lparr>ho_Active := False, ho_ReleasedBy := (case by of None \<Rightarrow> ho_ReleasedBy h | Some u \<Rightarrow> Some u),
       ho_ReleasedAt := (case ho_ReleasedAt h of None \<Rightarrow> Some now | Some x \<Rightarrow> Some x)\<rparr>"

text \<open>\<open>Release\<close>; what fails is the update, or the reading back of the row.\<close>

definition releaseHold :: "bool \<times> bool \<Rightarrow> int \<Rightarrow> string \<Rightarrow> string \<Rightarrow> hold list \<Rightarrow> (holdErr + hold) \<times> hold list" where
  "releaseHold fails now i releasedBy t =
     (if fst fails then (Inl HoldStatementFailed, t)
      else if i \<notin> ho_ID ` set t then (Inl HoldNotFound, t)
      else (let t' = map (\<lambda>h. if ho_ID h = i then releasedHold now (orNull releasedBy) h else h) t
            in (if snd fails then Inl HoldStatementFailed else getHold i t', t')))"

definition listHolds :: "hold list \<Rightarrow> hold list" where
  "listHolds t = sort_key (\<lambda>h. - ho_PlacedAt h) (sort_key ho_ID t)"

section \<open>Handlers\<close>

record holdRequest =
  hr_Name :: string
  hr_Reason :: string
  hr_StartDate :: int
  hr_EndDate :: int

text \<open>A repository that is not wired up, and a body that does not bind, are None.\<close>

definition placeHoldH :: "bool \<Rightarrow> string \<Rightarrow> int \<Rightarrow> reqContext \<Rightarrow> holdRequest option \<Rightarrow> hold list option \<Rightarrow> (nat + hold) \<times> hold list option" where
  "placeHoldH fails newID now c body t =
     (case t of
        None \<Rightarrow> (Inl 503, None)
      | Some holds \<Rightarrow>
          (case body of
             None \<Rightarrow> (Inl 400, t)
           | Some rq \<Rightarrow>
               (case placeHold fails newID now (hr_Name rq) (hr_Reason rq) (hr_StartDate rq) (hr_EndDate rq) (userIDOf c) holds of
                  (Inr h, t') \<Rightarrow> (Inr h, Some t')
                | (Inl HoldInvalidRange, t') \<Rightarrow> (Inl 400, Some t')
                | (Inl _, t') \<Rightarrow> (Inl 500, Some t'))))"

definition releaseHoldH :: "bool \<times> bool \<Rightarrow> int \<Rightarrow> reqContext \<Rightarrow> string \<Rightarrow> hold list option \<Rightarrow> (nat + hold) \<times> hold list option" where
  "releaseHoldH fails now c i t =
     (case t of
        None \<Rightarrow> (Inl 503, None)
      | Some holds \<Rightarrow>
          (case releaseHold fails now i (userIDOf c) holds of
             (Inr h, t') \<Rightarrow> (Inr h, Some t')
           | (Inl HoldNotFound, t') \<Rightarrow> (Inl 404, Some t')
           | (Inl _, t') \<Rightarrow> (Inl 500, Some t')))"

definition listHoldsH :: "bool \<Rightarrow> hold list option \<Rightarrow> nat + hold list" where
  "listHoldsH fails t = (case t of None \<Rightarrow> Inl 503 | Some holds \<Rightarrow> if fails then Inl 500 else Inr (listHolds holds))"

section \<open>The sweep\<close>

text \<open>An audit entry: its id and when it was made. The shared repository deletes a batch of the entries made
  before a time, exempting what the active holds of the tables named in its options cover, and answers how
  many, None where it fails. The tables are the database the sweep runs on.\<close>

type_synonym auditEntry = "string \<times> int"

datatype auditSweepOption = WithLegalHolds string

type_synonym holdTables = "string \<Rightarrow> hold list"

record 'a auditLib =
  al_entries :: "'a \<Rightarrow> auditEntry set"
  al_DeleteAuditLogsBefore :: "int \<Rightarrow> nat \<Rightarrow> auditSweepOption list \<Rightarrow> holdTables \<Rightarrow> 'a \<Rightarrow> nat option \<times> 'a"

definition heldBy :: "hold list \<Rightarrow> auditEntry \<Rightarrow> bool" where
  "heldBy holds e = list_ex (\<lambda>h. ho_Active h \<and> ho_StartDate h \<le> snd e \<and> snd e \<le> ho_EndDate h) holds"

definition exempted :: "holdTables \<Rightarrow> auditSweepOption list \<Rightarrow> auditEntry \<Rightarrow> bool" where
  "exempted tables opts e = list_ex (\<lambda>opt. case opt of WithLegalHolds name \<Rightarrow> heldBy (tables name) e) opts"

definition auditLaws :: "'a auditLib \<Rightarrow> bool" where
  "auditLaws L \<longleftrightarrow> (\<forall>cutoff n opts tables s r s'. al_DeleteAuditLogsBefore L cutoff n opts tables s = (r, s') \<longrightarrow>
     (let gone = al_entries L s - al_entries L s'; due = {e \<in> al_entries L s. snd e < cutoff \<and> \<not> exempted tables opts e}
      in al_entries L s' \<subseteq> al_entries L s \<and> gone \<subseteq> due \<and> finite gone
         \<and> (case r of None \<Rightarrow> gone = {} | Some k \<Rightarrow> k = card gone \<and> k \<le> n \<and> (k = 0 \<and> 0 < n \<longrightarrow> due = {}))))"

record retentionConfig =
  rc_RetentionDays :: int
  rc_Interval :: int
  rc_BatchSize :: int
  rc_MaxBatches :: int

record 'a retentionSweeper =
  sr_repo :: "'a auditLib"
  sr_cfg :: retentionConfig
  sr_holdOpts :: "auditSweepOption list"

text \<open>\<open>New\<close>: no sweeper without a repository, a sane configuration and a hold table that can be read.\<close>

definition newRetention ::
    "'a auditLib option \<Rightarrow> (string \<Rightarrow> bool) option \<Rightarrow> string \<Rightarrow> retentionConfig \<Rightarrow> 'a retentionSweeper option" where
  "newRetention repo canRead holdTable cfg =
     (case repo of
        None \<Rightarrow> None
      | Some r \<Rightarrow>
          if rc_RetentionDays cfg \<le> 0 then None
          else if rc_Interval cfg \<le> 0 \<or> rc_BatchSize cfg \<le> 0 \<or> rc_MaxBatches cfg \<le> 0 then None
          else (case canRead of
                  None \<Rightarrow> None
                | Some check \<Rightarrow>
                    if \<not> check holdTable then None
                    else Some \<lparr>sr_repo = r, sr_cfg = cfg, sr_holdOpts = [WithLegalHolds holdTable]\<rparr>))"

text \<open>The table migration 000035 creates, which the repository of holds writes.\<close>

definition legalHoldTable :: string where "legalHoldTable = ''public.legal_holds''"

definition startAuditRetention :: "bool \<Rightarrow> 'a auditLib option \<Rightarrow> (string \<Rightarrow> bool) \<Rightarrow> retentionConfig \<Rightarrow> 'a retentionSweeper option" where
  "startAuditRetention enabled repo canRead cfg =
     (if \<not> enabled then None else if repo = None then None else newRetention repo (Some canRead) legalHoldTable cfg)"

definition day :: int where "day = 24 * 60 * 60 * 10 ^ 9"

definition sweepCutoff :: "'a retentionSweeper \<Rightarrow> int \<Rightarrow> int" where
  "sweepCutoff sw now = now - rc_RetentionDays (sr_cfg sw) * day"

definition sweepBatch :: "'a retentionSweeper \<Rightarrow> int \<Rightarrow> holdTables \<Rightarrow> 'a \<Rightarrow> nat option \<times> 'a" where
  "sweepBatch sw cutoff tables s =
     al_DeleteAuditLogsBefore (sr_repo sw) cutoff (nat (rc_BatchSize (sr_cfg sw))) (sr_holdOpts sw) tables s"

text \<open>The batches of one run, with the tables each of them reads: how many were deleted, whether the run
  stopped by itself, and the audit table.\<close>

fun sweepBatches :: "'a retentionSweeper \<Rightarrow> int \<Rightarrow> (nat \<Rightarrow> holdTables) \<Rightarrow> nat \<Rightarrow> 'a \<Rightarrow> nat \<times> bool \<times> 'a" where
  "sweepBatches sw cutoff tables 0 s = (0, False, s)"
| "sweepBatches sw cutoff tables (Suc left) s =
     (case sweepBatch sw cutoff (tables (Suc left)) s of
        (None, s') \<Rightarrow> (0, False, s')
      | (Some k, s') \<Rightarrow>
          if k = 0 then (0, True, s')
          else (case sweepBatches sw cutoff tables left s' of (deleted, finished, s'') \<Rightarrow> (k + deleted, finished, s'')))"

definition sweepAudit :: "'a retentionSweeper \<Rightarrow> int \<Rightarrow> (nat \<Rightarrow> holdTables) \<Rightarrow> 'a \<Rightarrow> nat \<times> bool \<times> 'a" where
  "sweepAudit sw now tables s = sweepBatches sw (sweepCutoff sw now) tables (nat (rc_MaxBatches (sr_cfg sw))) s"

section \<open>What is held survives\<close>

text \<open>Holds are placed and released and entries are written while sweeps run, of any number of replicas, batch
  by batch. \<open>rt_Passes\<close> has the cutoff and the batches left of each run under way, \<open>rt_Released\<close> the ids
  whose release was asked for.\<close>

record 'a retentionWorld =
  rt_Tables :: holdTables
  rt_Audit :: 'a
  rt_Passes :: "(int \<times> nat) list"
  rt_Released :: "string set"

abbreviation holdsOf :: "'a retentionWorld \<Rightarrow> hold list" where
  "holdsOf w \<equiv> rt_Tables w legalHoldTable"

definition withHolds :: "hold list \<Rightarrow> 'a retentionWorld \<Rightarrow> 'a retentionWorld" where
  "withHolds t w = w\<lparr>rt_Tables := (rt_Tables w)(legalHoldTable := t)\<rparr>"

definition passLeft :: "int \<Rightarrow> nat \<Rightarrow> nat option \<Rightarrow> (int \<times> nat) list" where
  "passLeft cutoff left r = (case r of None \<Rightarrow> [] | Some k \<Rightarrow> if k = 0 then [] else [(cutoff, left)])"

inductive retentionStep :: "'a retentionSweeper \<Rightarrow> 'a retentionWorld \<Rightarrow> 'a retentionWorld \<Rightarrow> bool" for sw where
  placed: "placeHoldH fails i now c body (Some (holdsOf w)) = (r, Some t) \<Longrightarrow> retentionStep sw w (withHolds t w)"
| released: "releaseHoldH fails now c i (Some (holdsOf w)) = (r, Some t) \<Longrightarrow>
    retentionStep sw w ((withHolds t w)\<lparr>rt_Released := insert i (rt_Released w)\<rparr>)"
| logged: "al_entries (sr_repo sw) (rt_Audit w) \<subseteq> al_entries (sr_repo sw) s' \<Longrightarrow> retentionStep sw w (w\<lparr>rt_Audit := s'\<rparr>)"
| begun: "retentionStep sw w (w\<lparr>rt_Passes := (sweepCutoff sw now, nat (rc_MaxBatches (sr_cfg sw))) # rt_Passes w\<rparr>)"
| batch: "(cutoff, Suc left) \<in> set (rt_Passes w) \<Longrightarrow> sweepBatch sw cutoff (rt_Tables w) (rt_Audit w) = (r, s') \<Longrightarrow>
    retentionStep sw w (w\<lparr>rt_Audit := s', rt_Passes := passLeft cutoff left r @ remove1 (cutoff, Suc left) (rt_Passes w)\<rparr>)"

inductive retentionRun :: "'a retentionSweeper \<Rightarrow> 'a retentionWorld \<Rightarrow> 'a retentionWorld \<Rightarrow> bool" for sw where
  still: "retentionRun sw w w"
| step: "retentionRun sw w v \<Longrightarrow> retentionStep sw v u \<Longrightarrow> retentionRun sw w u"

text \<open>What a hold decided, which no statement changes.\<close>

definition sameDecision :: "hold \<Rightarrow> hold \<Rightarrow> bool" where
  "sameDecision h h' \<longleftrightarrow> ho_ID h' = ho_ID h \<and> ho_Name h' = ho_Name h \<and> ho_Reason h' = ho_Reason h \<and> ho_StartDate h' = ho_StartDate h
     \<and> ho_EndDate h' = ho_EndDate h \<and> ho_PlacedBy h' = ho_PlacedBy h \<and> ho_PlacedAt h' = ho_PlacedAt h \<and> (ho_Active h' \<longrightarrow> ho_Active h)"

lemma sameDecision_refl [simp]: "sameDecision h h"
  by (simp add: sameDecision_def)

lemma sameDecision_trans: "sameDecision a b \<Longrightarrow> sameDecision b c \<Longrightarrow> sameDecision a c"
  by (simp add: sameDecision_def)

lemma getHold_find: "distinct (map ho_ID t) \<Longrightarrow> h \<in> set t \<Longrightarrow> getHold (ho_ID h) t = Inr h"
  unfolding getHold_def by (induction t) auto

text \<open>A later hold table has the rows of the earlier one, with their decisions, and active unless released.\<close>

definition keepsHolds :: "string set \<Rightarrow> hold list \<Rightarrow> hold list \<Rightarrow> bool" where
  "keepsHolds ids t t' \<longleftrightarrow> (distinct (map ho_ID t) \<longrightarrow> distinct (map ho_ID t'))
     \<and> (\<forall>h \<in> set t. \<exists>h' \<in> set t'. sameDecision h h' \<and> (ho_ID h \<notin> ids \<longrightarrow> ho_Active h' = ho_Active h))"

lemma keepsHolds_refl [simp]: "keepsHolds ids t t"
  by (auto simp: keepsHolds_def intro!: bexI)

lemma placed_keeps:
  assumes "placeHoldH fails i now c body (Some t) = (r, Some t')" shows "keepsHolds ids t t'"
proof -
  from assms have "t' = t \<or> (\<exists>h. t' = t @ [h] \<and> ho_ID h \<notin> ho_ID ` set t)"
    by (auto simp: placeHoldH_def placeHold_def Let_def split: option.splits if_splits sum.splits prod.splits holdErr.splits)
  then show ?thesis by (auto simp: keepsHolds_def intro!: bexI)
qed

lemma released_keeps:
  assumes "releaseHoldH fails now c i (Some t) = (r, Some t')" shows "keepsHolds {i} t t'"
proof -
  let ?f = "\<lambda>h. if ho_ID h = i then releasedHold now (orNull (userIDOf c)) h else h"
  from assms have "t' = t \<or> t' = map ?f t"
    by (auto simp: releaseHoldH_def releaseHold_def Let_def split: if_splits sum.splits prod.splits holdErr.splits)
  moreover have "keepsHolds {i} t (map ?f t)"
    unfolding keepsHolds_def
  proof (intro conjI impI ballI)
    have "map ho_ID (map ?f t) = map ho_ID t" by (simp add: releasedHold_def)
    then show "distinct (map ho_ID t) \<Longrightarrow> distinct (map ho_ID (map ?f t))" by (simp only:)
    show "\<exists>h' \<in> set (map ?f t). sameDecision h h' \<and> (ho_ID h \<notin> {i} \<longrightarrow> ho_Active h' = ho_Active h)" if "h \<in> set t" for h
      using that by (intro bexI[of _ "?f h"]) (auto simp: sameDecision_def releasedHold_def)
  qed
  ultimately show ?thesis by auto
qed

lemma keepsHolds_mono: "keepsHolds ids t t' \<Longrightarrow> ids \<subseteq> ids' \<Longrightarrow> keepsHolds ids' t t'"
  unfolding keepsHolds_def by blast

lemma step_keeps:
  assumes "retentionStep sw w v"
  shows "keepsHolds (rt_Released v) (holdsOf w) (holdsOf v)" "rt_Released w \<subseteq> rt_Released v"
proof -
  show "keepsHolds (rt_Released v) (holdsOf w) (holdsOf v)" using assms
  proof cases
    case placed
    then show ?thesis using placed_keeps by (simp add: withHolds_def)
  next
    case (released fails now c i r t)
    then show ?thesis using keepsHolds_mono[OF released_keeps[OF released(2)]] by (simp add: withHolds_def)
  qed (simp_all add: withHolds_def)
  show "rt_Released w \<subseteq> rt_Released v" using assms by cases (auto simp: withHolds_def)
qed

lemma step_entry:
  assumes "retentionStep sw w v" "auditLaws (sr_repo sw)" "WithLegalHolds legalHoldTable \<in> set (sr_holdOpts sw)"
    and "e \<in> al_entries (sr_repo sw) (rt_Audit w)" "heldBy (holdsOf w) e"
  shows "e \<in> al_entries (sr_repo sw) (rt_Audit v)"
  using assms(1)
proof cases
  case (batch cutoff left r s')
  have "exempted (rt_Tables w) (sr_holdOpts sw) e" using assms(3,5) by (force simp: exempted_def list_ex_iff)
  then show ?thesis using batch assms(2,4) unfolding auditLaws_def Let_def sweepBatch_def by fastforce
qed (use assms(4) in \<open>auto simp: withHolds_def\<close>)

text \<open>C38: What is held survives, and the decision to hold it is never lost. Over the sweepers the server starts,
  of however many replicas, and the handlers that place and release holds, interleaved batch by batch with
  entries being written: every hold keeps its row, name, range, author and time, it stays active unless the
  release of that very hold was asked for, and as long as it is active no entry made in its range is
  deleted. Of the shared audit repository it is used that a batch spares what the hold table it is told of
  covers.\<close>

theorem held_evidence_survives:
  assumes "startAuditRetention enabled repo canRead cfg = Some sw" "auditLaws (sr_repo sw)"
    and "retentionRun sw w w'" "distinct (map ho_ID (holdsOf w))" "h \<in> set (holdsOf w)"
  shows "\<exists>h'. getHold (ho_ID h) (holdsOf w') = Inr h' \<and> sameDecision h h'
    \<and> (ho_ID h \<notin> rt_Released w' \<longrightarrow> ho_Active h' = ho_Active h)
    \<and> (ho_Active h' \<longrightarrow> (\<forall>e \<in> al_entries (sr_repo sw) (rt_Audit w). ho_StartDate h \<le> snd e \<longrightarrow> snd e \<le> ho_EndDate h \<longrightarrow>
          e \<in> al_entries (sr_repo sw) (rt_Audit w')))"
proof -
  have opts: "WithLegalHolds legalHoldTable \<in> set (sr_holdOpts sw)"
    using assms(1) by (auto simp: startAuditRetention_def newRetention_def split: if_splits option.splits)
  let ?held = "{e \<in> al_entries (sr_repo sw) (rt_Audit w). ho_StartDate h \<le> snd e \<and> snd e \<le> ho_EndDate h}"
  have "distinct (map ho_ID (holdsOf w')) \<and> (\<exists>h' \<in> set (holdsOf w'). sameDecision h h'
      \<and> (ho_ID h \<notin> rt_Released w' \<longrightarrow> ho_Active h' = ho_Active h) \<and> (ho_Active h' \<longrightarrow> ?held \<subseteq> al_entries (sr_repo sw) (rt_Audit w')))"
    using assms(3,4,5)
  proof induction
    case (still w)
    then show ?case by (auto intro!: bexI[of _ h])
  next
    case (step w v u)
    let ?held = "{e \<in> al_entries (sr_repo sw) (rt_Audit w). ho_StartDate h \<le> snd e \<and> snd e \<le> ho_EndDate h}"
    from step obtain h' where h': "distinct (map ho_ID (holdsOf v))" "h' \<in> set (holdsOf v)" "sameDecision h h'"
      "ho_ID h \<notin> rt_Released v \<longrightarrow> ho_Active h' = ho_Active h" "ho_Active h' \<Longrightarrow> ?held \<subseteq> al_entries (sr_repo sw) (rt_Audit v)" by blast
    note k = step_keeps[OF step.hyps(2)]
    then obtain h2 where h2: "h2 \<in> set (holdsOf u)" "sameDecision h' h2" "ho_ID h' \<notin> rt_Released u \<longrightarrow> ho_Active h2 = ho_Active h'"
      using h'(2) unfolding keepsHolds_def by blast
    have "?held \<subseteq> al_entries (sr_repo sw) (rt_Audit u)" if a: "ho_Active h2"
    proof
      fix e assume e: "e \<in> ?held"
      have "ho_Active h'" using h2(2) a by (simp add: sameDecision_def)
      then have "e \<in> al_entries (sr_repo sw) (rt_Audit v)" "heldBy (holdsOf v) e"
        using h' e by (auto simp: heldBy_def list_ex_iff sameDecision_def)
      then show "e \<in> al_entries (sr_repo sw) (rt_Audit u)" using step_entry[OF step.hyps(2) assms(2) opts] by blast
    qed
    moreover have "ho_ID h \<notin> rt_Released u \<longrightarrow> ho_Active h2 = ho_Active h"
      using h'(3,4) h2(3) k(2) by (auto simp: sameDecision_def)
    moreover have "distinct (map ho_ID (holdsOf u))" using k(1) h'(1) by (simp add: keepsHolds_def)
    ultimately show ?case using h2(1) sameDecision_trans[OF h'(3) h2(2)] by blast
  qed
  then obtain h' where h': "distinct (map ho_ID (holdsOf w'))" "h' \<in> set (holdsOf w')" "sameDecision h h'"
      "ho_ID h \<notin> rt_Released w' \<longrightarrow> ho_Active h' = ho_Active h" "ho_Active h' \<longrightarrow> ?held \<subseteq> al_entries (sr_repo sw) (rt_Audit w')" by blast
  moreover have "getHold (ho_ID h) (holdsOf w') = Inr h'" using getHold_find[OF h'(1,2)] h'(3) by (simp add: sameDecision_def)
  ultimately show ?thesis by (intro exI[of _ h']) auto
qed

text \<open>A run deletes no more than its batches allow, nothing that is not old enough, and when it stops by itself
  nothing was left that some tables of holds it read did not cover.\<close>

theorem sweep_bounded:
  assumes "auditLaws (sr_repo sw)" "0 < rc_BatchSize (sr_cfg sw)" "sweepBatches sw cutoff tables left s = (deleted, finished, s')"
  defines "E \<equiv> al_entries (sr_repo sw)"
  shows "deleted \<le> left * nat (rc_BatchSize (sr_cfg sw)) \<and> finite (E s - E s') \<and> deleted = card (E s - E s') \<and> E s' \<subseteq> E s
    \<and> (\<forall>e \<in> E s - E s'. snd e < cutoff)
    \<and> (finished \<longrightarrow> (\<exists>j. {e \<in> E s'. snd e < cutoff \<and> \<not> exempted (tables j) (sr_holdOpts sw) e} = {}))"
  using assms(3)
proof (induction left arbitrary: s deleted)
  case 0
  then show ?case by simp
next
  case (Suc left)
  let ?n = "nat (rc_BatchSize (sr_cfg sw))" and ?ex = "exempted (tables (Suc left)) (sr_holdOpts sw)"
  obtain r s1 where d: "sweepBatch sw cutoff (tables (Suc left)) s = (r, s1)" by fastforce
  let ?gone = "E s - E s1"
  from assms(1) d have law: "E s1 \<subseteq> E s" "?gone \<subseteq> {e \<in> E s. snd e < cutoff \<and> \<not> ?ex e}" "finite ?gone"
      "case r of None \<Rightarrow> ?gone = {} | Some k \<Rightarrow> k = card ?gone \<and> k \<le> ?n
         \<and> (k = 0 \<and> 0 < ?n \<longrightarrow> {e \<in> E s. snd e < cutoff \<and> \<not> ?ex e} = {})"
    unfolding auditLaws_def Let_def sweepBatch_def E_def by blast+
  show ?case
  proof (cases r)
    case None
    then show ?thesis using d law Suc.prems by auto
  next
    case (Some k)
    show ?thesis
    proof (cases "k = 0")
      case True
      then have g: "?gone = {}" "deleted = 0" "s' = s1" using law Some d Suc.prems by auto
      then have "{e \<in> E s1. snd e < cutoff \<and> \<not> ?ex e} = {}" using law True Some assms(2) by auto
      then show ?thesis using g law(1) by auto
    next
      case False
      then obtain deleted' where r: "sweepBatches sw cutoff tables left s1 = (deleted', finished, s')" "deleted = k + deleted'"
        using Some d Suc.prems by (auto split: prod.splits)
      note ih = Suc.IH[OF r(1)]
      let ?gone' = "E s1 - E s'"
      have split: "E s - E s' = ?gone \<union> ?gone'" "?gone \<inter> ?gone' = {}" using law(1) ih by auto
      have fin': "finite ?gone'" using ih by simp
      have "card (E s - E s') = deleted"
        unfolding split(1) using card_Un_disjoint[OF law(3) fin' split(2)] law(4) Some r(2) ih by simp
      moreover have "k \<le> ?n" using law(4) Some by simp
      moreover have "finite (E s - E s')" unfolding split(1) using law(3) fin' by simp
      moreover have "\<forall>e \<in> E s - E s'. snd e < cutoff" unfolding split(1) using law(2) ih by auto
      ultimately show ?thesis using ih law(1) r(2) by auto
    qed
  qed
qed

definition sampleAudit :: "auditEntry list auditLib" where
  "sampleAudit = \<lparr>al_entries = set, al_DeleteAuditLogsBefore = (\<lambda>cutoff n opts tables s.
     let due = take n (remdups (filter (\<lambda>e. snd e < cutoff \<and> \<not> exempted tables opts e) s)) in (Some (length due), filter (\<lambda>e. e \<notin> set due) s))\<rparr>"

lemma sampleAudit_laws: "auditLaws sampleAudit"
  unfolding auditLaws_def
proof (intro allI impI)
  fix cutoff n opts tables s r s'
  assume d: "al_DeleteAuditLogsBefore sampleAudit cutoff n opts tables s = (r, s')"
  define P where "P = (\<lambda>e. snd e < cutoff \<and> \<not> exempted tables opts e)"
  let ?due = "take n (remdups (filter P s))"
  have r: "r = Some (length ?due)" "s' = filter (\<lambda>e. e \<notin> set ?due) s" "al_entries sampleAudit = set"
    using d by (auto simp: sampleAudit_def Let_def P_def)
  have sub: "set ?due \<subseteq> {e \<in> set s. P e}" using set_take_subset[of n "remdups (filter P s)"] by auto
  then have gone: "set s - set s' = set ?due" using r(2) by auto
  have "card (set ?due) = length ?due" by (rule distinct_card) simp
  moreover have "{e \<in> set s. P e} = {}" if "length ?due = 0" "0 < n"
  proof -
    have "remdups (filter P s) = []" using that by (cases "remdups (filter P s)") auto
    then have "set (filter P s) = {}" by (metis list.set(1) set_remdups)
    then show ?thesis by simp
  qed
  ultimately have "set s' \<subseteq> set s \<and> set ?due \<subseteq> {e \<in> set s. P e} \<and> finite (set ?due)
      \<and> length ?due = card (set ?due) \<and> length ?due \<le> n \<and> (length ?due = 0 \<and> 0 < n \<longrightarrow> {e \<in> set s. P e} = {})"
    using sub r(2) by auto
  then show "let gone = al_entries sampleAudit s - al_entries sampleAudit s'; due = {e \<in> al_entries sampleAudit s. snd e < cutoff \<and> \<not> exempted tables opts e}
      in al_entries sampleAudit s' \<subseteq> al_entries sampleAudit s \<and> gone \<subseteq> due \<and> finite gone
         \<and> (case r of None \<Rightarrow> gone = {} | Some k \<Rightarrow> k = card gone \<and> k \<le> n \<and> (k = 0 \<and> 0 < n \<longrightarrow> due = {}))"
    unfolding Let_def r(1,3) gone option.case P_def by blast
qed

definition sampleHold :: hold where
  "sampleHold = \<lparr>ho_ID = ''h'', ho_Name = ''case 7'', ho_Reason = [], ho_StartDate = 10, ho_EndDate = 20, ho_Active = True, ho_PlacedBy = Some ''u'',
     ho_PlacedAt = 30, ho_ReleasedBy = None, ho_ReleasedAt = None\<rparr>"

definition sampleRetention :: retentionConfig where
  "sampleRetention = \<lparr>rc_RetentionDays = 1, rc_Interval = 60, rc_BatchSize = 5, rc_MaxBatches = 2\<rparr>"

definition sampleSweep :: "auditEntry list retentionSweeper" where
  "sampleSweep = \<lparr>sr_repo = sampleAudit, sr_cfg = sampleRetention, sr_holdOpts = [WithLegalHolds legalHoldTable]\<rparr>"

text \<open>One entry before the hold's range and one in it, and a run a day and a hundred later.\<close>

definition heldWorld :: "auditEntry list retentionWorld" where
  "heldWorld = \<lparr>rt_Tables = (\<lambda>_. [sampleHold]), rt_Audit = [(''a'', 9), (''b'', 15)], rt_Passes = [], rt_Released = {}\<rparr>"

theorem held_evidence_survives_witness:
  "\<exists>w'. retentionRun sampleSweep heldWorld w' \<and> (''a'', 9) \<notin> set (rt_Audit w') \<and> (''b'', 15) \<in> set (rt_Audit w')
     \<and> getHold ''h'' (holdsOf w') = Inr sampleHold"
proof -
  let ?w1 = "heldWorld\<lparr>rt_Passes := (sweepCutoff sampleSweep (100 + day), nat (rc_MaxBatches (sr_cfg sampleSweep))) # rt_Passes heldWorld\<rparr>"
  have c: "sweepCutoff sampleSweep (100 + day) = 100" "nat (rc_MaxBatches (sr_cfg sampleSweep)) = Suc 1"
    by (simp_all add: sweepCutoff_def sampleSweep_def sampleRetention_def)
  have b: "sweepBatch sampleSweep 100 (rt_Tables heldWorld) (rt_Audit heldWorld) = (Some 1, [(''b'', 15)])" by code_simp
  let ?w2 = "?w1\<lparr>rt_Audit := [(''b'', 15)], rt_Passes := passLeft 100 1 (Some 1) @ remove1 (100, Suc 1) (rt_Passes ?w1)\<rparr>"
  have "retentionStep sampleSweep heldWorld ?w1" by (rule retentionStep.begun)
  moreover have "retentionStep sampleSweep ?w1 ?w2" by (rule retentionStep.batch) (use b c in simp_all)
  ultimately have run: "retentionRun sampleSweep heldWorld ?w2" by (meson retentionRun.still retentionRun.step)
  have s: "startAuditRetention True (Some sampleAudit) (\<lambda>_. True) sampleRetention = Some sampleSweep"
    by (simp add: startAuditRetention_def newRetention_def sampleRetention_def sampleSweep_def)
  have repo: "sr_repo sampleSweep = sampleAudit" "al_entries sampleAudit = set" by (simp_all add: sampleSweep_def sampleAudit_def)
  have h: "distinct (map ho_ID (holdsOf heldWorld))" "sampleHold \<in> set (holdsOf heldWorld)" by (simp_all add: heldWorld_def)
  have "getHold (ho_ID sampleHold) (holdsOf ?w2) = Inr sampleHold" by (simp add: heldWorld_def getHold_def)
  with held_evidence_survives[OF s sampleAudit_laws[folded repo(1)] run h] have
    "\<forall>e \<in> set (rt_Audit heldWorld). 10 \<le> snd e \<longrightarrow> snd e \<le> 20 \<longrightarrow> e \<in> set (rt_Audit ?w2)"
    by (auto simp: repo sampleHold_def)
  then have "(''b'', 15) \<in> set (rt_Audit ?w2)" by (auto simp: heldWorld_def)
  then show ?thesis using run by (intro exI[of _ ?w2]) (simp add: heldWorld_def getHold_def sampleHold_def)
qed

text \<open>Releasing a hold again keeps the time of the first release but names whoever asked last.\<close>

lemma second_release_renames:
  "let t1 = snd (releaseHold (False, False) 40 ''h'' ''ann'' [sampleHold]); t2 = snd (releaseHold (False, False) 50 ''h'' ''bob'' t1)
   in map ho_ReleasedBy t2 = [Some ''bob''] \<and> map ho_ReleasedAt t2 = [Some 40]"
  by code_simp

end
