(* ===== verification/Election.thy ===== *)
theory Election
  imports Prelude
begin

text \<open>
  \<open>services/leaderelect\<close>: which replica runs the background workers.

  A replica opens a session, tries the database's advisory lock on it, runs the workers while the session
  answers, and releases. What the database answers is an argument, and so are the events of a term of
  leadership; intervals and timeouts are the order in which events come. What the lock itself promises is the
  database's and is not modelled: sessions are pooled, and the lock is per session and re-entrant.
\<close>

section \<open>A replica\<close>

text \<open>A try to lead: the session could not be opened, the statement failed, or it said who got the lock.\<close>

datatype tryAnswer = NoSession | LockQueryFailed | LockRefused | LockGranted

datatype electorEvent = PingOk | PingFailed | StopAsked

text \<open>\<open>hold\<close>: whether leadership was lost, None while it goes on.\<close>

fun holdLease :: "electorEvent list \<Rightarrow> bool option" where
  "holdLease [] = None"
| "holdLease (PingOk # evs) = holdLease evs"
| "holdLease (PingFailed # evs) = Some True"
| "holdLease (StopAsked # evs) = Some False"

text \<open>\<open>run\<close>: a campaign is a try and, when it is granted, the events until its end; between campaigns a stop
  may be asked. The trace says when the workers run.\<close>

datatype workerCall = StartWorkers | StopWorkers | ReleaseLock

fun runElector :: "(tryAnswer \<times> electorEvent list \<times> bool) list \<Rightarrow> workerCall list" where
  "runElector [] = []"
| "runElector ((a, evs, stopAfter) # rest) =
     (if a = LockGranted then
        StartWorkers # (case holdLease evs of
            None \<Rightarrow> []
          | Some lost \<Rightarrow> StopWorkers # ReleaseLock # (if \<not> lost then [] else if stopAfter then [] else runElector rest))
      else if stopAfter then [] else runElector rest)"

section \<open>The workers follow the lease\<close>

text \<open>The workers of a replica never run twice at once, and the lock is never given back while they run: every
  start is followed by a stop, and that by the release, before the next.\<close>

fun alternating :: "bool \<Rightarrow> workerCall list \<Rightarrow> bool" where
  "alternating running [] = True"
| "alternating running (StartWorkers # cs) = (\<not> running \<and> alternating True cs)"
| "alternating running (StopWorkers # cs) = (running \<and> alternating False cs)"
| "alternating running (ReleaseLock # cs) = (\<not> running \<and> alternating running cs)"

lemma workers_alternate: "alternating False (runElector campaigns)"
  by (induction campaigns rule: runElector.induct) (auto split: option.split)

text \<open>The first ping that fails ends the term, whatever would have come after it.\<close>

lemma failed_ping_steps_down:
  assumes "list_all (\<lambda>e. e = PingOk) oks"
  shows "runElector ((LockGranted, oks @ PingFailed # evs, stopAfter) # rest)
    = StartWorkers # StopWorkers # ReleaseLock # (if stopAfter then [] else runElector rest)"
proof -
  have "holdLease (oks @ PingFailed # evs) = Some True" using assms by (induction oks) auto
  then show ?thesis by simp
qed

end
