(* ===== verification/GroupMappings.thy ===== *)
theory GroupMappings
  imports AdminPlane "HOL-Library.Product_Lexorder"
begin

text \<open>
  \<open>sso_settings_repository.go\<close>, \<open>group_mapping_mirror.go\<close>, \<open>group_mapping_drift.go\<close> and
  \<open>group_mapping_reconcile.go\<close>, with the handler of \<open>api/sso_admin.go\<close> that writes them: the stored list of
  mappings from groups of an identity provider to roles, and this application's own table of it.

  A statement that fails is an argument (a predicate on \<open>mapStmt\<close>), and so is what the routing probe
  answers. A stored list that does not decode is None. The rendering of the drift report as text is left
  out: a row holds the fields it shows.
\<close>

section \<open>Data\<close>

record groupMapping =
  gm_Group :: string
  gm_Organization :: string
  gm_Role :: string

record ssoSettings =
  ss_ClaimName :: string
  ss_DefaultRole :: string
  ss_GroupMappings :: "groupMapping list"

record ssoRow =
  sn_ClaimName :: string
  sn_DefaultRole :: string
  sn_GroupMappings :: "groupMapping list option"

record mirroredMapping =
  mg_Position :: nat
  mg_Group :: string
  mg_Organization :: string
  mg_RoleName :: string
  mg_RoleTemplateID :: "string option"

datatype mapStmt = MapProbe string | MapNames | MapBegin | MapClear | MapInsert nat | MapCommit | MapReadStored | MapReadMirrored | MapUpsert

datatype mapErr = MirrorUnreachable | MirrorMisrouted | MappingSourceMissing | OverlayUndecodable | MapStatement mapStmt

section \<open>The mirror\<close>

text \<open>\<open>Verify\<close>: the application database (None where there is none) as the tables that resolve on it.\<close>

definition groupMappingMirrorTables :: "string list" where
  "groupMappingMirrorTables = [''group_mappings'', ''role_templates'']"

fun verifyTables :: "(mapStmt \<Rightarrow> bool) \<Rightarrow> (string \<Rightarrow> bool) \<Rightarrow> string list \<Rightarrow> mapErr option" where
  "verifyTables flt resolves [] = None"
| "verifyTables flt resolves (t # ts) =
     (if flt (MapProbe t) then Some (MapStatement (MapProbe t))
      else if \<not> resolves t then Some MirrorUnreachable
      else verifyTables flt resolves ts)"

definition verifyMirror :: "(mapStmt \<Rightarrow> bool) \<Rightarrow> (string \<Rightarrow> bool) option \<Rightarrow> mapErr option" where
  "verifyMirror flt app =
     (case app of
        None \<Rightarrow> Some MirrorUnreachable
      | Some resolves \<Rightarrow>
          if flt (MapProbe ''organization_members'') then Some (MapStatement (MapProbe ''organization_members''))
          else if resolves ''organization_members'' then Some MirrorMisrouted
          else verifyTables flt resolves groupMappingMirrorTables)"

definition appRoleTemplateNames :: "(mapStmt \<Rightarrow> bool) \<Rightarrow> roleStore \<Rightarrow> mapErr + (string \<Rightarrow> string option)" where
  "appRoleTemplateNames flt store =
     (if flt MapNames then Inl (MapStatement MapNames) else Inr (\<lambda>n. templateIDByName n store))"

definition mirroredOf :: "(string \<Rightarrow> string option) \<Rightarrow> nat \<Rightarrow> groupMapping \<Rightarrow> mirroredMapping" where
  "mirroredOf nameToID i m =
     \<lparr>mg_Position = i, mg_Group = gm_Group m, mg_Organization = gm_Organization m, mg_RoleName = gm_Role m,
      mg_RoleTemplateID = nameToID (gm_Role m)\<rparr>"

fun insertMappings ::
    "(mapStmt \<Rightarrow> bool) \<Rightarrow> (string \<Rightarrow> string option) \<Rightarrow> nat \<Rightarrow> groupMapping list \<Rightarrow> mirroredMapping list \<Rightarrow> mapErr + mirroredMapping list" where
  "insertMappings flt names i [] t = Inr t"
| "insertMappings flt names i (m # ms) t =
     (if flt (MapInsert i) \<or> i \<in> mg_Position ` set t then Inl (MapStatement (MapInsert i))
      else insertMappings flt names (Suc i) ms (t @ [mirroredOf names i m]))"

text \<open>\<open>Replace\<close>: a transaction; every error leaves the table as it was.\<close>

definition replaceMappings ::
    "(mapStmt \<Rightarrow> bool) \<Rightarrow> bool \<Rightarrow> roleStore \<Rightarrow> groupMapping list \<Rightarrow> mirroredMapping list \<Rightarrow> mapErr option \<times> mirroredMapping list" where
  "replaceMappings flt connected store mappings t =
     (if \<not> connected then (Some MirrorUnreachable, t)
      else (case (if mappings \<noteq> [] then appRoleTemplateNames flt store else Inr (\<lambda>_. None)) of
              Inl e \<Rightarrow> (Some e, t)
            | Inr names \<Rightarrow>
                if flt MapBegin then (Some (MapStatement MapBegin), t)
                else if flt MapClear then (Some (MapStatement MapClear), t)
                else (case insertMappings flt names 0 mappings [] of
                        Inl e \<Rightarrow> (Some e, t)
                      | Inr t' \<Rightarrow> if flt MapCommit then (Some (MapStatement MapCommit), t) else (None, t'))))"

section \<open>The stored settings\<close>

definition getSSO :: "(mapStmt \<Rightarrow> bool) \<Rightarrow> ssoRow option \<Rightarrow> mapErr + ssoSettings option" where
  "getSSO flt row =
     (if flt MapReadStored then Inl (MapStatement MapReadStored)
      else (case row of
              None \<Rightarrow> Inr None
            | Some r \<Rightarrow>
                (case sn_GroupMappings r of
                   None \<Rightarrow> Inl OverlayUndecodable
                 | Some ms \<Rightarrow> Inr (Some \<lparr>ss_ClaimName = sn_ClaimName r, ss_DefaultRole = sn_DefaultRole r, ss_GroupMappings = ms\<rparr>))))"

text \<open>\<open>Upsert\<close>: the row first; a mirror that cannot follow is only logged.\<close>

definition upsertSSO ::
    "(mapStmt \<Rightarrow> bool) \<Rightarrow> bool \<Rightarrow> roleStore \<Rightarrow> ssoSettings \<Rightarrow> ssoRow option \<times> mirroredMapping list \<Rightarrow>
     mapErr option \<times> ssoRow option \<times> mirroredMapping list" where
  "upsertSSO flt connected store s rt =
     (if flt MapUpsert then (Some (MapStatement MapUpsert), rt)
      else (None,
            Some \<lparr>sn_ClaimName = ss_ClaimName s, sn_DefaultRole = ss_DefaultRole s, sn_GroupMappings = Some (ss_GroupMappings s)\<rparr>,
            snd (replaceMappings flt connected store (ss_GroupMappings s) (snd rt))))"

record mappingInput =
  mi_ClaimName :: string
  mi_DefaultRole :: string
  mi_GroupMappings :: "groupMapping list"

fun trimMappings :: "groupMapping list \<Rightarrow> groupMapping list option" where
  "trimMappings [] = Some []"
| "trimMappings (m # ms) =
     (let g = trimSpace (gm_Group m); o' = trimSpace (gm_Organization m); r = trimSpace (gm_Role m)
      in if g = [] \<or> o' = [] \<or> r = [] then None
         else map_option (Cons \<lparr>gm_Group = g, gm_Organization = o', gm_Role = r\<rparr>) (trimMappings ms))"

definition updateGroupMappingH ::
    "(mapStmt \<Rightarrow> bool) \<Rightarrow> bool \<Rightarrow> roleStore \<Rightarrow> mappingInput option \<Rightarrow> ssoRow option \<times> mirroredMapping list \<Rightarrow>
     nat \<times> ssoRow option \<times> mirroredMapping list" where
  "updateGroupMappingH flt connected store input rt =
     (case input of
        None \<Rightarrow> (400, rt)
      | Some inp \<Rightarrow>
          (case trimMappings (mi_GroupMappings inp) of
             None \<Rightarrow> (400, rt)
           | Some ms \<Rightarrow>
               (case upsertSSO flt connected store
                       \<lparr>ss_ClaimName = trimSpace (mi_ClaimName inp), ss_DefaultRole = trimSpace (mi_DefaultRole inp), ss_GroupMappings = ms\<rparr> rt of
                  (Some _, rt') \<Rightarrow> (500, rt')
                | (None, rt') \<Rightarrow> (200, rt'))))"

section \<open>Drift and reconcile\<close>

text \<open>\<open>verifyGroupMappingSource\<close>: whether \<open>sso_settings\<close> resolves, None without a connection.\<close>

definition verifyMappingSource :: "(mapStmt \<Rightarrow> bool) \<Rightarrow> bool option \<Rightarrow> mapErr option" where
  "verifyMappingSource flt src =
     (case src of
        None \<Rightarrow> Some MappingSourceMissing
      | Some resolves \<Rightarrow>
          if flt (MapProbe ''sso_settings'') then Some (MapStatement (MapProbe ''sso_settings''))
          else if \<not> resolves then Some MappingSourceMissing else None)"

text \<open>\<open>readStoredGroupMappings\<close>: the list, whether there is a row, whether it does not decode.\<close>

definition readStored :: "(mapStmt \<Rightarrow> bool) \<Rightarrow> ssoRow option \<Rightarrow> mapErr + groupMapping list \<times> bool \<times> bool" where
  "readStored flt row =
     (if flt MapReadStored then Inl (MapStatement MapReadStored)
      else (case row of
              None \<Rightarrow> Inr ([], False, False)
            | Some r \<Rightarrow> (case sn_GroupMappings r of None \<Rightarrow> Inr ([], True, True) | Some ms \<Rightarrow> Inr (ms, True, False))))"

definition readMirrored :: "(mapStmt \<Rightarrow> bool) \<Rightarrow> mirroredMapping list \<Rightarrow> mapErr + mirroredMapping list" where
  "readMirrored flt t = (if flt MapReadMirrored then Inl (MapStatement MapReadMirrored) else Inr (sort_key mg_Position t))"

fun wantMappings :: "(string \<Rightarrow> string option) \<Rightarrow> nat \<Rightarrow> groupMapping list \<Rightarrow> mirroredMapping list" where
  "wantMappings names i [] = []"
| "wantMappings names i (m # ms) = mirroredOf names i m # wantMappings names (Suc i) ms"

definition sameRow :: "mirroredMapping \<Rightarrow> mirroredMapping \<Rightarrow> bool" where
  "sameRow a b =
     (if mg_Position a \<noteq> mg_Position b \<or> mg_Group a \<noteq> mg_Group b \<or> mg_Organization a \<noteq> mg_Organization b \<or> mg_RoleName a \<noteq> mg_RoleName b
         \<or> mg_RoleTemplateID a \<noteq> mg_RoleTemplateID b then False else True)"

definition sameGroupMappingList :: "mirroredMapping list \<Rightarrow> mirroredMapping list \<Rightarrow> bool" where
  "sameGroupMappingList have' want =
     (if length have' \<noteq> length want then False else list_all (\<lambda>(a, b). sameRow a b) (zip have' want))"

record mappingReport =
  gr_OverlayPresent :: bool
  gr_OverlayUnparseable :: bool
  gr_SourceMappings :: nat
  gr_Rewritten :: bool
  gr_UnresolvedRoleRefs :: nat

record mappingEnv =
  me_flt :: "mapStmt \<Rightarrow> bool"
  me_app :: "(string \<Rightarrow> bool) option"
  me_source :: "bool option"

text \<open>What the drift check and the reconcile read first: the names, the stored list and the mirrored one.\<close>

definition mappingReads ::
    "mappingEnv \<Rightarrow> roleStore \<Rightarrow> ssoRow option \<Rightarrow> mirroredMapping list \<Rightarrow>
     mapErr + (string \<Rightarrow> string option) \<times> (groupMapping list \<times> bool \<times> bool) \<times> mirroredMapping list" where
  "mappingReads env store row t =
     (case verifyMirror (me_flt env) (me_app env) of
        Some e \<Rightarrow> Inl e
      | None \<Rightarrow>
          (case verifyMappingSource (me_flt env) (me_source env) of
             Some e \<Rightarrow> Inl e
           | None \<Rightarrow>
               (case appRoleTemplateNames (me_flt env) store of
                  Inl e \<Rightarrow> Inl e
                | Inr names \<Rightarrow>
                    (case readStored (me_flt env) row of
                       Inl e \<Rightarrow> Inl e
                     | Inr stored \<Rightarrow>
                         (case readMirrored (me_flt env) t of Inl e \<Rightarrow> Inl e | Inr have' \<Rightarrow> Inr (names, stored, have'))))))"

definition reconcileGroupMappings ::
    "mappingEnv \<Rightarrow> roleStore \<Rightarrow> ssoRow option \<Rightarrow> mirroredMapping list \<Rightarrow> (mapErr + mappingReport) \<times> mirroredMapping list" where
  "reconcileGroupMappings env store row t =
     (case mappingReads env store row t of
        Inl e \<Rightarrow> (Inl e, t)
      | Inr (names, (mappings, present, unparseable), have') \<Rightarrow>
          (let report = \<lparr>gr_OverlayPresent = present, gr_OverlayUnparseable = unparseable, gr_SourceMappings = length mappings,
                         gr_Rewritten = False, gr_UnresolvedRoleRefs = length (filter (\<lambda>m. names (gm_Role m) = None) mappings)\<rparr>
           in if sameGroupMappingList have' (wantMappings names 0 mappings) then (Inr report, t)
              else (case replaceMappings (me_flt env) (me_app env \<noteq> None) store mappings t of
                      (Some e, t') \<Rightarrow> (Inl e, t')
                    | (None, t') \<Rightarrow> (Inr (report\<lparr>gr_Rewritten := True\<rparr>), t'))))"

datatype mappingDriftKind = MirrorOrphaned | FieldsDiffer | NotMirrored | RoleRefStale

primrec kindOrder :: "mappingDriftKind \<Rightarrow> nat" where
  "kindOrder MirrorOrphaned = 0"
| "kindOrder FieldsDiffer = 1"
| "kindOrder NotMirrored = 2"
| "kindOrder RoleRefStale = 3"

record mappingDrift =
  gd_Kind :: mappingDriftKind
  gd_Position :: nat
  gd_Stored :: "mirroredMapping option"
  gd_Mirrored :: "mirroredMapping option"

record mappingDriftReport =
  gt_Rows :: "mappingDrift list"
  gt_OverlayPresent :: bool
  gt_SourceMappings :: nat
  gt_MirroredMappings :: nat
  gt_OverlayUnparseable :: bool

definition fieldsDiffer :: "mirroredMapping \<Rightarrow> nat \<Rightarrow> groupMapping \<Rightarrow> bool" where
  "fieldsDiffer h i m = (mg_Position h \<noteq> i \<or> mg_Group h \<noteq> gm_Group m \<or> mg_Organization h \<noteq> gm_Organization m \<or> mg_RoleName h \<noteq> gm_Role m)"

text \<open>The two loops: the stored list against the rows read, then the rows beyond it.\<close>

fun mappingDriftRows :: "(string \<Rightarrow> string option) \<Rightarrow> nat \<Rightarrow> groupMapping list \<Rightarrow> mirroredMapping list \<Rightarrow> mappingDrift list" where
  "mappingDriftRows names i [] have' =
     map (\<lambda>h. \<lparr>gd_Kind = MirrorOrphaned, gd_Position = mg_Position h, gd_Stored = None, gd_Mirrored = Some h\<rparr>) have'"
| "mappingDriftRows names i (m # ms) [] =
     \<lparr>gd_Kind = NotMirrored, gd_Position = i, gd_Stored = Some (mirroredOf names i m), gd_Mirrored = None\<rparr> # mappingDriftRows names (Suc i) ms []"
| "mappingDriftRows names i (m # ms) (h # hs) =
     (if fieldsDiffer h i m
      then \<lparr>gd_Kind = FieldsDiffer, gd_Position = i, gd_Stored = Some (mirroredOf names i m), gd_Mirrored = Some h\<rparr>
             # mappingDriftRows names (Suc i) ms hs
      else if mg_RoleTemplateID h \<noteq> names (gm_Role m)
      then \<lparr>gd_Kind = RoleRefStale, gd_Position = i, gd_Stored = Some (mirroredOf names i m), gd_Mirrored = Some h\<rparr>
             # mappingDriftRows names (Suc i) ms hs
      else mappingDriftRows names (Suc i) ms hs)"

definition checkGroupMappingDrift ::
    "mappingEnv \<Rightarrow> roleStore \<Rightarrow> ssoRow option \<Rightarrow> mirroredMapping list \<Rightarrow> mapErr + mappingDriftReport" where
  "checkGroupMappingDrift env store row t =
     (case mappingReads env store row t of
        Inl e \<Rightarrow> Inl e
      | Inr (names, (mappings, present, unparseable), have') \<Rightarrow>
          Inr \<lparr>gt_Rows = sort_key (\<lambda>d. (kindOrder (gd_Kind d), gd_Position d)) (mappingDriftRows names 0 mappings have'),
               gt_OverlayPresent = present, gt_SourceMappings = length mappings, gt_MirroredMappings = length have',
               gt_OverlayUnparseable = unparseable\<rparr>)"

definition cleanMappings :: "mappingDriftReport \<Rightarrow> bool" where
  "cleanMappings r = (gt_Rows r = [])"

section \<open>Convergence\<close>

definition namesIn :: "roleStore \<Rightarrow> string \<Rightarrow> string option" where
  "namesIn store n = templateIDByName n store"

lemma appRoleTemplateNames_Inr [simp]: "(appRoleTemplateNames flt store = Inr names) = (\<not> flt MapNames \<and> names = namesIn store)"
  by (auto simp: appRoleTemplateNames_def namesIn_def)

lemma appRoleTemplateNames_ok: "\<not> flt MapNames \<Longrightarrow> appRoleTemplateNames flt store = Inr (namesIn store)"
  by simp

lemma insertMappings_Inr:
  assumes "insertMappings flt names i ms t = Inr t'" shows "t' = t @ wantMappings names i ms"
  using assms by (induction flt names i ms t rule: insertMappings.induct) (auto split: if_splits)

lemma want_positions: "map mg_Position (wantMappings names i ms) = [i..<i + length ms]"
proof (induction names i ms rule: wantMappings.induct)
  case (2 names i m ms)
  then show ?case by (simp add: mirroredOf_def upt_conv_Cons del: upt_Suc)
qed simp

lemma want_sorted [simp]: "sort_key mg_Position (wantMappings names i ms) = wantMappings names i ms"
  by (intro sort_key_id_if_sorted) (simp add: want_positions del: upt_Suc)

lemma replace_result:
  assumes "replaceMappings flt connected store ms t = (e, t')"
  shows "t' = (if e = None then wantMappings (namesIn store) 0 ms else t)"
  using assms unfolding replaceMappings_def
  by (cases ms) (auto split: if_splits sum.splits dest!: insertMappings_Inr)

lemma sameRow_iff [simp]: "sameRow a b = (a = b)"
  by (cases a; cases b) (auto simp: sameRow_def)

lemma same_iff: "sameGroupMappingList a b = (a = b)"
  by (simp add: sameGroupMappingList_def list_all2_eq list_all2_iff list_all_iff case_prod_unfold)

lemma drift_rows_none: "(mappingDriftRows names i ms have' = []) = (have' = wantMappings names i ms)"
proof (induction names i ms have' rule: mappingDriftRows.induct)
  case (3 names i m ms h hs)
  have "(h = mirroredOf names i m) = (\<not> fieldsDiffer h i m \<and> mg_RoleTemplateID h = names (gm_Role m))"
    by (cases h) (auto simp: mirroredOf_def fieldsDiffer_def)
  then show ?case using 3 by auto
qed auto

lemma sort_key_Nil [simp]: "(sort_key f xs = []) = (xs = [])"
  by (metis length_0_conv length_sort)

definition storedList :: "ssoRow option \<Rightarrow> groupMapping list" where
  "storedList row = (case row of None \<Rightarrow> [] | Some r \<Rightarrow> (case sn_GroupMappings r of None \<Rightarrow> [] | Some ms \<Rightarrow> ms))"

lemma mappingReads_Inr:
  assumes "mappingReads env store row t = Inr (names, (ms, p, u), have')"
  shows "names = namesIn store" "ms = storedList row" "have' = sort_key mg_Position t"
    "mappingReads env store row t2 = Inr (names, (ms, p, u), sort_key mg_Position t2)"
  using assms by (auto simp: mappingReads_def readStored_def readMirrored_def storedList_def appRoleTemplateNames_def namesIn_def split: option.splits if_splits)

lemma drift_clean:
  assumes "mappingReads env store row t = Inr (names, (ms, p, u), have')"
  shows "\<exists>r. checkGroupMappingDrift env store row t2 = Inr r
     \<and> cleanMappings r = (sort_key mg_Position t2 = wantMappings (namesIn store) 0 (storedList row))"
  using mappingReads_Inr[OF assms] mappingReads_Inr(4)[OF assms, of t2]
  by (simp add: checkGroupMappingDrift_def cleanMappings_def drift_rows_none)

text \<open>C40: After a reconcile the mirror is the stored list. A reconcile that fails leaves the table alone; one that
  succeeds leaves, in the order of the stored list and with the role ids the names resolve to now, exactly
  its mappings, so that a drift check finds nothing; and it rewrites the table exactly when a drift check
  before it would have found something.\<close>

theorem mapping_mirror_converges:
  "case reconcileGroupMappings env store row t of
     (Inl _, t') \<Rightarrow> t' = t
   | (Inr report, t') \<Rightarrow>
       sort_key mg_Position t' = wantMappings (\<lambda>n. templateIDByName n store) 0 (storedList row)
       \<and> (\<exists>before after. checkGroupMappingDrift env store row t = Inr before \<and> checkGroupMappingDrift env store row t' = Inr after
            \<and> cleanMappings after \<and> gr_Rewritten report = (\<not> cleanMappings before) \<and> (t' = t) = cleanMappings before)"
proof (cases "mappingReads env store row t")
  case (Inl e)
  then show ?thesis by (simp add: reconcileGroupMappings_def)
next
  case (Inr q)
  obtain names ms p u have' where q: "q = (names, (ms, p, u), have')" by (cases q) auto
  note reads = Inr[unfolded q]
  note r = mappingReads_Inr[OF reads]
  let ?want = "wantMappings (namesIn store) 0 (storedList row)"
  have n: "(\<lambda>n. templateIDByName n store) = namesIn store" by (simp add: namesIn_def fun_eq_iff)
  obtain e t2 where rep: "replaceMappings (me_flt env) (me_app env \<noteq> None) store (storedList row) t = (e, t2)" by fastforce
  note t2 = replace_result[OF rep]
  show ?thesis
  proof (cases "sort_key mg_Position t = ?want")
    case True
    then show ?thesis using reads r(1-3) drift_clean[OF reads, of t] by (auto simp: reconcileGroupMappings_def Let_def same_iff n)
  next
    case False
    then have "sort_key mg_Position t \<noteq> ?want" "t \<noteq> ?want" by auto
    then show ?thesis
      using reads r(1-3) drift_clean[OF reads, of t] drift_clean[OF reads, of ?want] rep t2
      by (cases e) (auto simp: reconcileGroupMappings_def Let_def same_iff n)
  qed
qed

text \<open>A change of the mappings is stored whole or not at all, and mirrored unless the mirror could not follow.\<close>

lemma update_mirrors:
  assumes "updateGroupMappingH flt connected store input (row, t) = (code, row', t')"
  shows "if code = 200
    then (\<exists>inp ms. input = Some inp \<and> trimMappings (mi_GroupMappings inp) = Some ms \<and> storedList row' = ms
            \<and> (t' = wantMappings (namesIn store) 0 ms \<or> t' = t \<and> fst (replaceMappings flt connected store ms t) \<noteq> None))
    else row' = row \<and> t' = t"
proof -
  have r: "snd (replaceMappings flt connected store ms t) = (if fst (replaceMappings flt connected store ms t) = None then wantMappings (namesIn store) 0 ms else t)" for ms
    using replace_result[of flt connected store ms t] by (cases "replaceMappings flt connected store ms t") auto
  show ?thesis using assms r
    by (auto simp: updateGroupMappingH_def upsertSSO_def storedList_def split: option.splits if_splits)
qed

end
