(* ===== verification/SignOn.thy ===== *)
theory SignOn
  imports GroupMappings Analyses
begin

text \<open>
  \<open>api/auth.go\<close> (the group mappings and what follows from them), \<open>group_mapping_guard.go\<close> and the two
  resolvers of \<open>auth/ldap\<close> and \<open>auth/saml\<close>: from the groups an identity provider vouches for to the memberships
  and roles a login leaves behind.

  The protocols that vouch for the groups, redirects, cookies and the session that follows are not modelled:
  the groups and the user are arguments, and so are the answers of the identity store. The shared resolver of
  mappings is a parameter with its documented laws (\<open>groupLaws\<close>: the first match wins), and so is the shared
  rule of which scopes may be given automatically (\<open>li_provisionable\<close>).
\<close>

section \<open>Which mappings apply\<close>

record oidcConfig =
  oi_GroupClaimName :: string
  oi_GroupMappings :: "groupMapping list"
  oi_DefaultRole :: string

text \<open>\<open>effectiveOIDCGroupConfig\<close>: the file's settings, overlaid by the stored ones when they can be read.\<close>

definition effectiveOIDCGroupConfig :: "oidcConfig \<Rightarrow> (mapErr + ssoSettings option) option \<Rightarrow> string \<times> groupMapping list \<times> string" where
  "effectiveOIDCGroupConfig cfg overlay =
     (let file = (oi_GroupClaimName cfg, oi_GroupMappings cfg, oi_DefaultRole cfg);
          eff = (case overlay of
                   Some (Inr (Some s)) \<Rightarrow>
                     (if ss_ClaimName s \<noteq> [] then ss_ClaimName s else oi_GroupClaimName cfg, ss_GroupMappings s, ss_DefaultRole s)
                 | _ \<Rightarrow> file)
      in (if fst eff = [] then ''groups'' else fst eff, snd eff))"

text \<open>\<open>ResolveGroupMappings\<close> of the shared module: the desired role of each organization, and the organizations
  that are managed, in the order the map is ranged over.\<close>

type_synonym groupLib = "string list \<Rightarrow> groupMapping list \<Rightarrow> string gomap \<times> string list"

definition groupLaws :: "groupLib \<Rightarrow> bool" where
  "groupLaws L \<longleftrightarrow> (\<forall>groups ms.
     (\<forall>o'. oget o' (fst (L groups ms)) = map_option gm_Role (List.find (\<lambda>m. gm_Group m \<in> set groups \<and> gm_Organization m = o') ms))
     \<and> distinct (snd (L groups ms)) \<and> set (snd (L groups ms)) = gm_Organization ` set ms)"

definition matchingRoles :: "string list \<Rightarrow> groupMapping list \<Rightarrow> string \<Rightarrow> string list" where
  "matchingRoles groups ms o' = map gm_Role (filter (\<lambda>m. gm_Group m \<in> set groups \<and> gm_Organization m = o') ms)"

definition resolveGroupMappings :: "groupLib \<Rightarrow> string list \<Rightarrow> groupMapping list \<Rightarrow> string gomap \<times> string list \<times> (string \<Rightarrow> string list)" where
  "resolveGroupMappings L groups ms =
     (case L groups ms of (desired, managed) \<Rightarrow> (desired, managed, matchingRoles groups ms))"

definition normDN :: "string \<Rightarrow> string" where
  "normDN s = lowerText (trimSpace s)"

definition resolveLDAPGroupMappings :: "groupLib \<Rightarrow> string list \<Rightarrow> groupMapping list \<Rightarrow> string gomap \<times> string list \<times> (string \<Rightarrow> string list)" where
  "resolveLDAPGroupMappings L groupDNs ms =
     (let norm = map normDN groupDNs; shared = map (\<lambda>m. m\<lparr>gm_Group := normDN (gm_Group m)\<rparr>) ms
      in (case L norm shared of
            (desired, managed) \<Rightarrow>
              (desired, managed, \<lambda>o'. map gm_Role (filter (\<lambda>m. normDN (gm_Group m) \<in> set norm \<and> gm_Organization m = o') ms))))"

definition resolveSAMLGroupMappings :: "groupLib \<Rightarrow> string list \<Rightarrow> groupMapping list \<Rightarrow> string gomap \<times> string list \<times> (string \<Rightarrow> string list)" where
  "resolveSAMLGroupMappings L groups ms =
     (case L groups ms of (desired, managed) \<Rightarrow> (desired, managed, matchingRoles groups ms))"

section \<open>Memberships at login\<close>

text \<open>An organization the lookup by name does not give is None, whatever the reason.\<close>

record 'k loginEnv =
  li_flt :: "storeStmt \<Rightarrow> bool"
  li_now :: int
  li_creds :: "'k sweeper option"
  li_getByName :: "string \<Rightarrow> string option"
  li_default :: "(string \<times> string) option"
  li_member :: "string \<Rightarrow> string \<Rightarrow> idOutcome"
  li_write :: "idCall \<Rightarrow> idOutcome"
  li_orgs :: "string \<Rightarrow> string list option"
  li_provisionable :: "string list \<Rightarrow> bool"

record 'k loginState =
  ln_Members :: memberState
  ln_Creds :: "'k credentialStore"

datatype loginErr = MembershipFailed memberErr | NoDefaultOrganization

text \<open>\<open>sweepIdPReduction\<close>: the reducer of every write at login; it sweeps keys and reports no failure.\<close>

definition runIdP ::
    "'k loginEnv \<Rightarrow> (reducer \<Rightarrow> memberState \<Rightarrow> memberErr option \<times> memberState) \<Rightarrow> 'k loginState \<Rightarrow> memberErr option \<times> 'k loginState" where
  "runIdP env f st =
     (case f (Some (\<lambda>_ _. True)) (ln_Members st) of
        (e, ms) \<Rightarrow>
          (e, st\<lparr>ln_Members := ms,
                 ln_Creds := fold (\<lambda>uc cs. snd (keysOnly (map_option (atState ms) (li_creds env)) (fst uc) cs))
                               (drop (length (ms_swept (ln_Members st))) (ms_swept ms)) (ln_Creds st)\<rparr>))"

definition onlyOrg :: "string \<Rightarrow> orgScope" where
  "onlyOrg org = (\<lambda>x. x = org)"

text \<open>\<open>guardProvisionableRole\<close>: whether the role is refused.\<close>

definition guardProvisionableRole :: "'k loginEnv \<Rightarrow> memberState \<Rightarrow> string \<Rightarrow> bool" where
  "guardProvisionableRole env ms name =
     (case ms_store ms of
        None \<Rightarrow> True
      | Some s \<Rightarrow>
          if li_flt env StmtTemplate then True
          else (case templateByName name s of None \<Rightarrow> False | Some t \<Rightarrow> \<not> li_provisionable env (rt_Scopes t)))"

definition isMemberOf :: "'k loginEnv \<Rightarrow> string \<Rightarrow> string \<Rightarrow> 'k loginState \<Rightarrow> memberErr + bool" where
  "isMemberOf env org user st =
     (case checkMembership (li_flt env) (li_member env org user) org user (onlyOrg org) (ln_Members st) of
        Inl e \<Rightarrow> Inl e | Inr (b, _) \<Rightarrow> Inr b)"

definition addAtLogin :: "'k loginEnv \<Rightarrow> string \<Rightarrow> string \<Rightarrow> string \<Rightarrow> 'k loginState \<Rightarrow> memberErr option \<times> 'k loginState" where
  "addAtLogin env org user role =
     runIdP env (addMemberWithParams (li_flt env) (li_now env) (li_write env (IdAddByName org user role)) org user role (onlyOrg org))"

definition updateAtLogin :: "'k loginEnv \<Rightarrow> string \<Rightarrow> string \<Rightarrow> string \<Rightarrow> 'k loginState \<Rightarrow> memberErr option \<times> 'k loginState" where
  "updateAtLogin env org user role =
     runIdP env (updateMemberRole (li_flt env) (li_now env) (li_write env (IdUpdateByName org user role)) org user role (onlyOrg org))"

definition removeAtLogin :: "'k loginEnv \<Rightarrow> string \<Rightarrow> string \<Rightarrow> 'k loginState \<Rightarrow> memberErr option \<times> 'k loginState" where
  "removeAtLogin env org user =
     runIdP env (removeMember (li_flt env) (li_write env (IdRemove org user)) org user (onlyOrg org))"

text \<open>A membership that vanished meanwhile is not an error.\<close>

definition unlessGone :: "memberErr option \<times> 'k loginState \<Rightarrow> memberErr option \<times> 'k loginState" where
  "unlessGone r = (if fst r = Some IdentityNotFound then (None, snd r) else r)"

text \<open>One managed organization.\<close>

definition manageOrg ::
    "'k loginEnv \<Rightarrow> string \<Rightarrow> string gomap \<Rightarrow> (string \<Rightarrow> string list) \<Rightarrow> string \<Rightarrow> 'k loginState \<Rightarrow> memberErr option \<times> 'k loginState" where
  "manageOrg env user desired allMatching orgName st =
     (case li_getByName env orgName of
        None \<Rightarrow> (None, st)
      | Some org \<Rightarrow>
          (case isMemberOf env org user st of
             Inl e \<Rightarrow> (Some e, st)
           | Inr member \<Rightarrow>
               (case oget orgName desired of
                  Some role \<Rightarrow>
                    if list_ex (guardProvisionableRole env (ln_Members st)) (if allMatching orgName = [] then [role] else allMatching orgName)
                    then (None, st)
                    else if member then unlessGone (updateAtLogin env org user role st)
                    else addAtLogin env org user role st
                | None \<Rightarrow> if member then unlessGone (removeAtLogin env org user st) else (None, st))))"

fun manageOrgs ::
    "'k loginEnv \<Rightarrow> string \<Rightarrow> string gomap \<Rightarrow> (string \<Rightarrow> string list) \<Rightarrow> string list \<Rightarrow> 'k loginState \<Rightarrow> memberErr option \<times> 'k loginState" where
  "manageOrgs env user desired allMatching [] st = (None, st)"
| "manageOrgs env user desired allMatching (o' # os) st =
     (case manageOrg env user desired allMatching o' st of
        (Some e, st') \<Rightarrow> (Some e, st')
      | (None, st') \<Rightarrow> manageOrgs env user desired allMatching os st')"

text \<open>The fallback to the default role.\<close>

definition fallbackRole :: "'k loginEnv \<Rightarrow> string \<Rightarrow> string list \<Rightarrow> string \<Rightarrow> 'k loginState \<Rightarrow> loginErr option \<times> 'k loginState" where
  "fallbackRole env user managed defaultRole st =
     (case li_default env of
        None \<Rightarrow> (Some NoDefaultOrganization, st)
      | Some (org, name) \<Rightarrow>
          if name \<in> set managed then (None, st)
          else (case isMemberOf env org user st of
                  Inl e \<Rightarrow> (Some (MembershipFailed e), st)
                | Inr member \<Rightarrow>
                    if member then (None, st)
                    else (case addAtLogin env org user defaultRole st of (e, st') \<Rightarrow> (map_option MembershipFailed e, st'))))"

definition reconcileManagedMemberships ::
    "'k loginEnv \<Rightarrow> string \<Rightarrow> string gomap \<times> string list \<times> (string \<Rightarrow> string list) \<Rightarrow> string \<Rightarrow> 'k loginState \<Rightarrow> loginErr option \<times> 'k loginState" where
  "reconcileManagedMemberships env user resolved defaultRole st =
     (case resolved of
        (desired, managed, allMatching) \<Rightarrow>
          (case manageOrgs env user desired allMatching managed st of
             (Some e, st') \<Rightarrow> (Some (MembershipFailed e), st')
           | (None, st') \<Rightarrow> if desired = [] \<and> defaultRole \<noteq> [] then fallbackRole env user managed defaultRole st' else (None, st')))"

definition applyGroupMappings ::
    "groupLib \<Rightarrow> 'k loginEnv \<Rightarrow> string \<Rightarrow> string list \<Rightarrow> groupMapping list \<Rightarrow> string \<Rightarrow> 'k loginState \<Rightarrow> loginErr option \<times> 'k loginState" where
  "applyGroupMappings L env user groups mappings defaultRole st =
     (if mappings = [] \<and> defaultRole = [] then (None, st)
      else reconcileManagedMemberships env user (resolveGroupMappings L groups mappings) defaultRole st)"

text \<open>\<open>assignRole\<close>, of the development login: nothing that fails is reported.\<close>

definition assignRole :: "'k loginEnv \<Rightarrow> string \<Rightarrow> string \<Rightarrow> 'k loginState \<Rightarrow> 'k loginState" where
  "assignRole env user role st =
     (case li_default env of
        None \<Rightarrow> st
      | Some (org, _) \<Rightarrow>
          (case isMemberOf env org user st of
             Inl _ \<Rightarrow> st
           | Inr member \<Rightarrow> if member then st else snd (addAtLogin env org user role st)))"

section \<open>What a login leaves on record\<close>

text \<open>The template this application records for a pair: None without a row, Some None for a row without one.\<close>

definition roleOn :: "memberState \<Rightarrow> string \<Rightarrow> string \<Rightarrow> string option option" where
  "roleOn ms org user = (case ms_store ms of None \<Rightarrow> None | Some s \<Rightarrow> map_option as_Role (List.find (isPair org user) (st_Assignments s)))"

lemma find_set_other:
  assumes "(o', u') \<noteq> (org, user)"
  shows "map_option as_Role (List.find (isPair o' u') (st_Assignments (setRole org user tid scope now s)))
    = map_option as_Role (List.find (isPair o' u') (st_Assignments s))"
proof -
  let ?f = "\<lambda>a. if isPair org user a then a\<lparr>as_Role := tid, as_MirroredAt := now\<rparr> else a"
  have m: "map_option as_Role (List.find (isPair o' u') (map ?f xs)) = map_option as_Role (List.find (isPair o' u') xs)" for xs
    using assms by (induction xs) (auto simp: isPair_def[abs_def])
  have "\<not> isPair o' u' \<lparr>as_Org = org, as_User = user, as_Role = tid, as_MirroredAt = now\<rparr>" using assms by (auto simp: isPair_def)
  then show ?thesis using m by (simp add: setRole_def find_snoc split: option.split)
qed

lemma find_delete:
  "List.find (isPair o' u') (st_Assignments (deleteRole org user (onlyOrg org) s))
    = (if o' = org \<and> u' = user then None else List.find (isPair o' u') (st_Assignments s))"
proof -
  have "List.find (isPair o' u') (filter (\<lambda>a. \<not> (isPair org user a \<and> onlyOrg org (as_Org a))) xs)
      = (if o' = org \<and> u' = user then None else List.find (isPair o' u') xs)" for xs
    by (induction xs) (auto simp: isPair_def[abs_def] onlyOrg_def)
  then show ?thesis by (simp add: deleteRole_def deleteWhere_def)
qed

lemma onlyOrg_self [simp]: "onlyOrg org org"
  by (simp add: onlyOrg_def)

lemma addParams_store:
  assumes "addMemberWithParams flt now out org user name scope (Some (\<lambda>_ _. True)) ms = (e, ms')" "ms_store ms = Some s"
  shows "ms_store ms' = Some (if e = None then setRole org user (templateIDByName name s) scope now s else s)
    \<and> (e = None \<longrightarrow> templateIDByName name s \<noteq> None)"
  using assms
  by (cases out; cases "flt StmtTemplate"; cases "templateIDByName name s"; cases "flt StmtSet";
      simp add: addMemberWithParams_def appTemplateIDByName_def idCallM_def mirrorSetByID_def mirror_def reduceAuthority_def; auto)

lemma updateRole_result:
  assumes "updateMemberRole flt now out org user name scope (Some (\<lambda>_ _. True)) ms = (e, ms')" "ms_store ms = Some s"
  shows "ms_store ms' = Some (if e = None then setRole org user (templateIDByName name s) scope now s else s)
    \<and> (e = Some IdentityNotFound \<longrightarrow> out = IdNotFound) \<and> (e = None \<longrightarrow> out = IdOk) \<and> (e = None \<longrightarrow> templateIDByName name s \<noteq> None)"
  using assms
  by (cases out; cases "flt StmtTemplate"; cases "templateIDByName name s"; cases "flt StmtSet";
      simp add: updateMemberRole_def finishUpdate_def appTemplateIDByName_def idCallM_def mirrorSetByID_def mirror_def reduceAuthority_def; auto)

lemmas updateRole_store = updateRole_result[THEN conjunct1] updateRole_result[THEN conjunct2, THEN conjunct1, THEN mp]
  updateRole_result[THEN conjunct2, THEN conjunct2, THEN conjunct1, THEN mp] updateRole_result[THEN conjunct2, THEN conjunct2, THEN conjunct2, THEN mp]

lemma remove_store:
  assumes "removeMember flt out org user scope (Some (\<lambda>_ _. True)) ms = (e, ms')" "ms_store ms = Some s"
  shows "ms_store ms' = Some (if e = Some (StoreError StmtDelete) then s else deleteRole org user scope s)"
  using assms
  by (cases out; cases "flt StmtDelete"; simp add: removeMember_def mirrorDelete_def idCallM_def mirror_def reduceAuthority_def; auto)

text \<open>A change of one pair: the templates stay, and so does the record of every other pair.\<close>

definition onlyPair :: "string \<Rightarrow> string \<Rightarrow> memberState \<Rightarrow> memberState \<Rightarrow> bool" where
  "onlyPair org user ms ms' \<longleftrightarrow>
     map_option st_Templates (ms_store ms') = map_option st_Templates (ms_store ms)
     \<and> (\<forall>o' u'. (o', u') \<noteq> (org, user) \<longrightarrow> roleOn ms' o' u' = roleOn ms o' u')"

lemma onlyPair_same: "ms_store ms' = ms_store ms \<Longrightarrow> onlyPair org user ms ms'"
  by (simp add: onlyPair_def roleOn_def)

lemma set_pair:
  assumes "ms_store ms = Some s" "ms_store ms' = Some (setRole org user tid (onlyOrg org) now s)"
  shows "onlyPair org user ms ms'" "roleOn ms' org user = Some tid"
proof -
  have "st_Templates (setRole org user tid (onlyOrg org) now s) = st_Templates s" by (simp add: setRole_def)
  then show "onlyPair org user ms ms'" using assms find_set_other[of _ _ org user tid "onlyOrg org" now s] by (auto simp: onlyPair_def roleOn_def)
  show "roleOn ms' org user = Some tid" using assms by (simp add: roleOn_def find_set_role split: option.splits)
qed

lemma delete_pair:
  assumes "ms_store ms = Some s" "ms_store ms' = Some (deleteRole org user (onlyOrg org) s)"
  shows "onlyPair org user ms ms'" "roleOn ms' org user = None"
proof -
  have "st_Templates (deleteRole org user (onlyOrg org) s) = st_Templates s" by (simp add: deleteRole_def deleteWhere_def)
  then show "onlyPair org user ms ms'" using assms by (auto simp: onlyPair_def roleOn_def find_delete)
  show "roleOn ms' org user = None" using assms by (simp add: roleOn_def find_delete)
qed

lemma runIdP_members:
  "runIdP env f st = (e, st') \<Longrightarrow> f (Some (\<lambda>_ _. True)) (ln_Members st) = (e, ln_Members st')"
  by (auto simp: runIdP_def split: prod.splits)

lemma addAtLogin_effect:
  assumes "addAtLogin env org user role st = (e, st')" "ms_store (ln_Members st) = Some s"
  shows "onlyPair org user (ln_Members st) (ln_Members st')"
    "roleOn (ln_Members st') org user = (if e = None then Some (templateIDByName role s) else roleOn (ln_Members st) org user)"
    "e = None \<Longrightarrow> templateIDByName role s \<noteq> None"
proof -
  from addParams_store[OF runIdP_members[OF assms(1)[unfolded addAtLogin_def]] assms(2)]
  have m: "ms_store (ln_Members st') = Some (if e = None then setRole org user (templateIDByName role s) (onlyOrg org) (li_now env) s else s)"
    and t: "e = None \<longrightarrow> templateIDByName role s \<noteq> None" by simp_all
  show "e = None \<Longrightarrow> templateIDByName role s \<noteq> None" using t by simp
  have "onlyPair org user (ln_Members st) (ln_Members st')
    \<and> roleOn (ln_Members st') org user = (if e = None then Some (templateIDByName role s) else roleOn (ln_Members st) org user)"
  proof (cases e)
    case None
    then show ?thesis using m set_pair[OF assms(2)] by simp
  next
    case (Some x)
    then have "ms_store (ln_Members st') = ms_store (ln_Members st)" using m assms(2) by simp
    then show ?thesis using Some onlyPair_same by (simp add: roleOn_def)
  qed
  then show "onlyPair org user (ln_Members st) (ln_Members st')"
    "roleOn (ln_Members st') org user = (if e = None then Some (templateIDByName role s) else roleOn (ln_Members st) org user)" by simp_all
qed

text \<open>The record of a managed organization that its mappings ask for.\<close>

definition groupedRole ::
    "'k loginEnv \<Rightarrow> memberState \<Rightarrow> string gomap \<Rightarrow> (string \<Rightarrow> string list) \<Rightarrow> string \<Rightarrow> string \<Rightarrow> string \<Rightarrow> string option option" where
  "groupedRole env ms desired allMatching orgName org user =
     (case oget orgName desired of
        None \<Rightarrow> if li_member env org user = IdOk then None else roleOn ms org user
      | Some role \<Rightarrow>
          if list_ex (guardProvisionableRole env ms) (if allMatching orgName = [] then [role] else allMatching orgName) then roleOn ms org user
          else if li_member env org user = IdOk \<and> li_write env (IdUpdateByName org user role) = IdNotFound then roleOn ms org user
          else Some (templateIDByName role (the (ms_store ms))))"

lemma isMemberOf_Inr: "isMemberOf env org user st = Inr b \<Longrightarrow> b = (li_member env org user = IdOk)"
  by (auto simp: isMemberOf_def checkMembership_def getMember_def getMemberWithRole_def
      split: sum.splits option.splits if_splits idOutcome.splits memberErr.splits)

lemma manageOrg_effect:
  assumes "manageOrg env user desired allMatching o' st = (e, st')" "ms_store (ln_Members st) = Some s" "li_getByName env o' = Some org"
  defines "want \<equiv> groupedRole env (ln_Members st) desired allMatching o' org user"
  shows "onlyPair org user (ln_Members st) (ln_Members st')"
    "roleOn (ln_Members st') org user = want \<or> e \<noteq> None \<and> roleOn (ln_Members st') org user = roleOn (ln_Members st) org user"
    "oget o' desired = Some role \<Longrightarrow> templateIDByName role s = None \<Longrightarrow> roleOn (ln_Members st') org user = roleOn (ln_Members st) org user"
proof -
  let ?goal = "onlyPair org user (ln_Members st) (ln_Members st') \<and>
    (roleOn (ln_Members st') org user = want \<or> e \<noteq> None \<and> roleOn (ln_Members st') org user = roleOn (ln_Members st) org user)
    \<and> (\<forall>role. oget o' desired = Some role \<longrightarrow> templateIDByName role s = None \<longrightarrow> roleOn (ln_Members st') org user = roleOn (ln_Members st) org user)"
  have "?goal"
  proof (cases "isMemberOf env org user st")
    case (Inl x)
    then show ?thesis using assms(1,3) onlyPair_same by (auto simp: manageOrg_def)
  next
    case (Inr b)
    note b = isMemberOf_Inr[OF Inr]
    show ?thesis
    proof (cases "oget o' desired")
      case None
      show ?thesis
      proof (cases b)
        case True
        obtain e1 st1 where r: "removeAtLogin env org user st = (e1, st1)" by fastforce
        then have st1: "st' = st1" "e1 = None \<or> e \<noteq> None \<or> e1 = Some IdentityNotFound" using assms(1,3) Inr None True
          by (auto simp: manageOrg_def unlessGone_def split: if_splits)
        have w: "want = None" using None True b by (simp add: want_def groupedRole_def)
        from remove_store[OF runIdP_members[OF r[unfolded removeAtLogin_def]] assms(2)]
        have m: "ms_store (ln_Members st1) = Some (if e1 = Some (StoreError StmtDelete) then s else deleteRole org user (onlyOrg org) s)" .
        show ?thesis
        proof (cases "e1 = Some (StoreError StmtDelete)")
          case True
          then have "ms_store (ln_Members st1) = ms_store (ln_Members st)" using m assms(2) by simp
          then show ?thesis using st1 True onlyPair_same by (auto simp: roleOn_def)
        next
          case False
          then show ?thesis using delete_pair[OF assms(2)] m st1(1) w None by simp
        qed
      next
        case False
        then show ?thesis using assms(1,3) Inr None b onlyPair_same by (auto simp: manageOrg_def want_def groupedRole_def)
      qed
    next
      case (Some role)
      let ?refused = "list_ex (guardProvisionableRole env (ln_Members st)) (if allMatching o' = [] then [role] else allMatching o')"
      show ?thesis
      proof (cases "?refused")
        case True
        then show ?thesis using assms(1,3) Inr Some onlyPair_same by (auto simp: manageOrg_def want_def groupedRole_def)
      next
        case False
        show ?thesis
        proof (cases b)
          case True
          obtain e1 st1 where r: "updateAtLogin env org user role st = (e1, st1)" by fastforce
          then have st1: "st' = st1" "e = (if e1 = Some IdentityNotFound then None else e1)"
            using assms(1,3) Inr Some False True by (auto simp: manageOrg_def unlessGone_def split: if_splits)
          note u = updateRole_store[OF runIdP_members[OF r[unfolded updateAtLogin_def]] assms(2)]
          show ?thesis
          proof (cases e1)
            case None
            then have "want = Some (templateIDByName role s)" using Some False u(3) assms(2) by (simp add: want_def groupedRole_def)
            then show ?thesis using set_pair[OF assms(2)] u(1) u(4)[OF None] st1(1) None Some by auto
          next
            case (Some x)
            then have m: "ms_store (ln_Members st1) = ms_store (ln_Members st)" using u(1) assms(2) by simp
            have "want = roleOn (ln_Members st) org user" if "x = IdentityNotFound"
              using u(2) that Some \<open>oget o' desired = Some role\<close> False True b by (simp add: want_def groupedRole_def)
            then show ?thesis using m st1 Some onlyPair_same by (auto simp: roleOn_def)
          qed
        next
          case nb: False
          then have r: "addAtLogin env org user role st = (e, st')" using assms(1,3) Inr Some False by (simp add: manageOrg_def)
          have "want = Some (templateIDByName role s)" using Some False nb b assms(2) by (simp add: want_def groupedRole_def)
          then show ?thesis using addAtLogin_effect[OF r assms(2)] Some by auto
        qed
      qed
    qed
  qed
  then show "onlyPair org user (ln_Members st) (ln_Members st')"
    "roleOn (ln_Members st') org user = want \<or> e \<noteq> None \<and> roleOn (ln_Members st') org user = roleOn (ln_Members st) org user"
    "oget o' desired = Some role \<Longrightarrow> templateIDByName role s = None \<Longrightarrow> roleOn (ln_Members st') org user = roleOn (ln_Members st) org user"
    by blast+
qed

text \<open>All managed organizations. Names denote at most one organization each, and no two names the same one.\<close>

definition orgNames :: "'k loginEnv \<Rightarrow> bool" where
  "orgNames env \<longleftrightarrow>
     (\<forall>o1 o2 org. li_getByName env o1 = Some org \<longrightarrow> li_getByName env o2 = Some org \<longrightarrow> o1 = o2)
     \<and> (\<forall>org n o1. li_default env = Some (org, n) \<longrightarrow> li_getByName env o1 = Some org \<longrightarrow> o1 = n)"

lemma onlyPair_other: "onlyPair org user ms ms' \<Longrightarrow> (o', u') \<noteq> (org, user) \<Longrightarrow> roleOn ms' o' u' = roleOn ms o' u'"
  by (simp add: onlyPair_def)

lemma onlyPair_store:
  assumes "onlyPair org user ms ms'" "ms_store ms = Some s"
  obtains s' where "ms_store ms' = Some s'" "st_Templates s' = st_Templates s"
  using assms unfolding onlyPair_def by (cases "ms_store ms'") auto

lemma groupedRole_cong:
  assumes "ms_store ms = Some s" "ms_store ms' = Some s'" "st_Templates s' = st_Templates s" "roleOn ms' org user = roleOn ms org user"
  shows "groupedRole env ms' desired allMatching o' org user = groupedRole env ms desired allMatching o' org user"
proof -
  have "guardProvisionableRole env ms' = guardProvisionableRole env ms"
    using assms(1-3) by (simp add: guardProvisionableRole_def templateByName_def fun_eq_iff)
  then show ?thesis using assms by (simp add: groupedRole_def templateIDByName_def templateByName_def split: option.split)
qed

definition managedEffect ::
    "'k loginEnv \<Rightarrow> string \<Rightarrow> string gomap \<Rightarrow> (string \<Rightarrow> string list) \<Rightarrow> string list \<Rightarrow> memberErr option \<Rightarrow> roleStore \<Rightarrow>
     memberState \<Rightarrow> memberState \<Rightarrow> bool" where
  "managedEffect env user desired allMatching os e s ms ms' \<longleftrightarrow>
     (\<exists>s'. ms_store ms' = Some s' \<and> st_Templates s' = st_Templates s)
     \<and> (\<forall>org u. u \<noteq> user \<or> (\<forall>o' \<in> set os. li_getByName env o' \<noteq> Some org) \<longrightarrow> roleOn ms' org u = roleOn ms org u)
     \<and> (\<forall>o' org. o' \<in> set os \<longrightarrow> li_getByName env o' = Some org \<longrightarrow>
          (roleOn ms' org user = groupedRole env ms desired allMatching o' org user \<or> e \<noteq> None \<and> roleOn ms' org user = roleOn ms org user)
          \<and> (\<forall>role. oget o' desired = Some role \<longrightarrow> templateIDByName role s = None \<longrightarrow> roleOn ms' org user = roleOn ms org user))"

text \<open>One organization before the others, whose names denote other organizations.\<close>

lemma managedEffect_Cons:
  assumes org1: "li_getByName env o1 = Some org1" and s: "ms_store ms = Some s" and s1: "ms_store ms1 = Some s1" "st_Templates s1 = st_Templates s"
    and other: "\<And>org u. (org, u) \<noteq> (org1, user) \<Longrightarrow> roleOn ms1 org u = roleOn ms org u"
    and first: "roleOn ms1 org1 user = groupedRole env ms desired allMatching o1 org1 user"
      "\<And>role. oget o1 desired = Some role \<Longrightarrow> templateIDByName role s = None \<Longrightarrow> roleOn ms1 org1 user = roleOn ms org1 user"
    and inj: "\<And>o'. o' \<noteq> o1 \<Longrightarrow> li_getByName env o' \<noteq> Some org1" and o1: "o1 \<notin> set os"
    and ih: "managedEffect env user desired allMatching os e s1 ms1 ms'"
  shows "managedEffect env user desired allMatching (o1 # os) e s ms ms'"
proof -
  have tid: "templateIDByName r s1 = templateIDByName r s" for r using s1(2) by (simp add: templateIDByName_def templateByName_def)
  have "\<forall>o' \<in> set os. li_getByName env o' \<noteq> Some org1" using inj o1 by metis
  then have last: "roleOn ms' org1 user = roleOn ms1 org1 user" using ih unfolding managedEffect_def by blast
  have g: "groupedRole env ms1 desired allMatching o' org user = groupedRole env ms desired allMatching o' org user"
    if "org \<noteq> org1" for o' org
    by (rule groupedRole_cong[OF s s1]) (use other that in simp)
  have rest: "o' = o1 \<and> org = org1 \<or> o' \<in> set os \<and> org \<noteq> org1" if "o' \<in> set (o1 # os)" "li_getByName env o' = Some org" for o' org
    using that inj[of o'] org1 o1 by (cases "o' = o1") auto
  show ?thesis
    unfolding managedEffect_def
  proof (intro conjI allI impI)
    show "\<exists>s'. ms_store ms' = Some s' \<and> st_Templates s' = st_Templates s" using ih s1(2) unfolding managedEffect_def by simp
  next
    fix org u assume a: "u \<noteq> user \<or> (\<forall>o' \<in> set (o1 # os). li_getByName env o' \<noteq> Some org)"
    then have "(org, u) \<noteq> (org1, user)" using org1 by auto
    then show "roleOn ms' org u = roleOn ms org u" using ih a other[of org u] unfolding managedEffect_def by auto
  next
    fix o' org assume a: "o' \<in> set (o1 # os)" "li_getByName env o' = Some org"
    from rest[OF a] show "roleOn ms' org user = groupedRole env ms desired allMatching o' org user \<or> e \<noteq> None \<and> roleOn ms' org user = roleOn ms org user"
      using ih a(2) last first(1) g[of org o'] other[of org user] unfolding managedEffect_def by auto
  next
    fix o' org role
    assume a: "o' \<in> set (o1 # os)" "li_getByName env o' = Some org" "oget o' desired = Some role" "templateIDByName role s = None"
    from rest[OF a(1,2)] show "roleOn ms' org user = roleOn ms org user"
      using ih a(2-4) last first(2) tid other[of org user] unfolding managedEffect_def by auto
  qed
qed

lemma manageOrgs_managed:
  assumes "manageOrgs env user desired allMatching os st = (e, st')" "ms_store (ln_Members st) = Some s" "distinct os" "orgNames env"
  shows "managedEffect env user desired allMatching os e s (ln_Members st) (ln_Members st')"
  using assms(1-3)
proof (induction os arbitrary: st s)
  case Nil
  then show ?case by (simp add: managedEffect_def)
next
  case (Cons o1 os)
  obtain e1 st1 where m: "manageOrg env user desired allMatching o1 st = (e1, st1)" by fastforce
  show ?case
  proof (cases "li_getByName env o1")
    case None
    then have "manageOrgs env user desired allMatching os st = (e, st')" using Cons.prems(1) by (simp add: manageOrg_def)
    from Cons.IH[OF this Cons.prems(2)] Cons.prems(3) None show ?thesis by (auto simp: managedEffect_def)
  next
    case (Some org1)
    note eff = manageOrg_effect[OF m Cons.prems(2) Some]
    obtain s1 where s1: "ms_store (ln_Members st1) = Some s1" "st_Templates s1 = st_Templates s"
      using onlyPair_store[OF eff(1) Cons.prems(2)] by metis
    note other = onlyPair_other[OF eff(1)]
    have inj: "o' \<noteq> o1 \<Longrightarrow> li_getByName env o' \<noteq> Some org1" for o' using assms(4) Some unfolding orgNames_def by blast
    show ?thesis
    proof (cases e1)
      case (Some x)
      then have "e = Some x" "st' = st1" using Cons.prems(1) m by simp_all
      moreover have "roleOn (ln_Members st1) org u = roleOn (ln_Members st) org u" if "org \<noteq> org1 \<or> u \<noteq> user" for org u
        using other that by blast
      moreover have "o' = o1 \<and> org = org1 \<or> org \<noteq> org1" if "li_getByName env o' = Some org" for o' org
        using inj[of o'] that \<open>li_getByName env o1 = Some org1\<close> by auto
      ultimately show ?thesis using s1 eff(2,3) \<open>li_getByName env o1 = Some org1\<close> Some unfolding managedEffect_def
        by (metis insertCI list.set(2) option.distinct(1))
    next
      case None
      then have l: "manageOrgs env user desired allMatching os st1 = (e, st')" using Cons.prems(1) m by simp
      have "distinct os" "o1 \<notin> set os" using Cons.prems(3) by simp_all
      note ih = Cons.IH[OF l s1(1) this(1)]
      show ?thesis
        by (rule managedEffect_Cons[OF Some Cons.prems(2) s1 other _ eff(3) inj \<open>o1 \<notin> set os\<close> ih]) (use eff(2) None in auto)
    qed
  qed
qed

lemmas manageOrgs_effect = manageOrgs_managed[unfolded managedEffect_def, THEN conjunct1]
  manageOrgs_managed[unfolded managedEffect_def, THEN conjunct2, THEN conjunct1, rule_format]
  manageOrgs_managed[unfolded managedEffect_def, THEN conjunct2, THEN conjunct2, rule_format, THEN conjunct1]
  manageOrgs_managed[unfolded managedEffect_def, THEN conjunct2, THEN conjunct2, rule_format, THEN conjunct2, rule_format]

lemma fallback_effect:
  assumes "fallbackRole env user managed dflt st = (e, st')" "ms_store (ln_Members st) = Some s"
    and "roleOn (ln_Members st') org u \<noteq> roleOn (ln_Members st) org u"
  shows "\<exists>n. li_default env = Some (org, n) \<and> n \<notin> set managed \<and> u = user \<and> li_member env org user \<noteq> IdOk
    \<and> roleOn (ln_Members st') org u = Some (templateIDByName dflt s)"
proof -
  have "st' \<noteq> st" using assms(3) by auto
  then obtain org1 n b e1 where d: "li_default env = Some (org1, n)" "n \<notin> set managed" "isMemberOf env org1 user st = Inr False"
      "addAtLogin env org1 user dflt st = (e1, st')"
    using assms(1) by (auto simp: fallbackRole_def split: option.splits sum.splits if_splits prod.splits)
  note eff = addAtLogin_effect[OF d(4) assms(2)]
  have "(org, u) = (org1, user)" using onlyPair_other[OF eff(1)] assms(3) by metis
  then show ?thesis using d isMemberOf_Inr[OF d(3)] eff(2) assms(3) by (auto split: if_splits)
qed

text \<open>What the mappings of an organization ask for, read off the list: the first that matches decides, unless any
  that matches names a role that must not be given automatically.\<close>

definition mappedRole :: "'k loginEnv \<Rightarrow> memberState \<Rightarrow> string list \<Rightarrow> groupMapping list \<Rightarrow> string \<Rightarrow> string \<Rightarrow> string \<Rightarrow> string option option" where
  "mappedRole env ms groups mappings orgName org user =
     (case filter (\<lambda>m. gm_Group m \<in> set groups \<and> gm_Organization m = orgName) mappings of
        [] \<Rightarrow> if li_member env org user = IdOk then None else roleOn ms org user
      | m # rest \<Rightarrow>
          if list_ex (\<lambda>m. guardProvisionableRole env ms (gm_Role m)) (m # rest) then roleOn ms org user
          else if li_member env org user = IdOk \<and> li_write env (IdUpdateByName org user (gm_Role m)) = IdNotFound then roleOn ms org user
          else Some (templateIDByName (gm_Role m) (the (ms_store ms))))"

lemma find_filter_hd: "List.find P xs = (case filter P xs of [] \<Rightarrow> None | x # _ \<Rightarrow> Some x)"
  by (induction xs) auto

lemma desired_first:
  "groupLaws L \<Longrightarrow> oget o' (fst (L groups ms)) =
     (case filter (\<lambda>m. gm_Group m \<in> set groups \<and> gm_Organization m = o') ms of [] \<Rightarrow> None | m # _ \<Rightarrow> Some (gm_Role m))"
  by (simp add: groupLaws_def find_filter_hd split: list.split)

lemma grouped_mapped:
  assumes "groupLaws L" "resolveGroupMappings L groups mappings = (desired, managed, allMatching)"
  shows "groupedRole env ms desired allMatching o' org user = mappedRole env ms groups mappings o' org user"
    "distinct managed" "set managed = gm_Organization ` set mappings"
    "oget o' desired = Some role \<Longrightarrow> \<exists>m \<in> set mappings. gm_Group m \<in> set groups \<and> gm_Organization m = o' \<and> gm_Role m = role"
    "desired = [] \<Longrightarrow> \<forall>m \<in> set mappings. gm_Group m \<notin> set groups"
proof -
  have r: "desired = fst (L groups mappings)" "managed = snd (L groups mappings)" "allMatching = matchingRoles groups mappings"
    using assms(2) by (auto simp: resolveGroupMappings_def split: prod.splits)
  have l: "list_ex P (map f xs) = list_ex (\<lambda>x. P (f x)) xs" for P f xs by (induction xs) auto
  note first = desired_first[OF assms(1), of _ groups mappings]
  let ?f = "\<lambda>o'. filter (\<lambda>m. gm_Group m \<in> set groups \<and> gm_Organization m = o') mappings"
  show "groupedRole env ms desired allMatching o' org user = mappedRole env ms groups mappings o' org user"
    by (cases "?f o'") (simp_all add: groupedRole_def mappedRole_def r first matchingRoles_def l)
  show "distinct managed" "set managed = gm_Organization ` set mappings" using assms(1) r(2) by (simp_all add: groupLaws_def)
  show "\<exists>m \<in> set mappings. gm_Group m \<in> set groups \<and> gm_Organization m = o' \<and> gm_Role m = role" if d: "oget o' desired = Some role"
  proof (cases "?f o'")
    case (Cons m rest)
    then have "m \<in> set (?f o')" by simp
    then have "m \<in> set mappings \<and> gm_Group m \<in> set groups \<and> gm_Organization m = o'" by (simp only: set_filter mem_Collect_eq)
    moreover have "gm_Role m = role" using d Cons by (simp add: r first)
    ultimately show ?thesis by blast
  qed (use d in \<open>simp add: r first\<close>)
  show "\<forall>m \<in> set mappings. gm_Group m \<notin> set groups" if d: "desired = []"
  proof (intro ballI notI)
    fix m assume m: "m \<in> set mappings" "gm_Group m \<in> set groups"
    then have "m \<in> set (?f (gm_Organization m))" by simp
    then show False using first[of "gm_Organization m"] d r(1) by (cases "?f (gm_Organization m)") auto
  qed
qed

text \<open>The three providers resolve alike, LDAP after folding the case and the outer blanks of group names.\<close>

lemma saml_resolves_alike: "resolveSAMLGroupMappings L groups ms = resolveGroupMappings L groups ms"
  by (simp add: resolveSAMLGroupMappings_def resolveGroupMappings_def)

lemma ldap_resolves_alike:
  "resolveLDAPGroupMappings L groups ms = resolveGroupMappings L (map normDN groups) (map (\<lambda>m. m\<lparr>gm_Group := normDN (gm_Group m)\<rparr>) ms)"
proof -
  have "map gm_Role (filter (\<lambda>m. normDN (gm_Group m) \<in> set (map normDN groups) \<and> gm_Organization m = o') ms)
      = matchingRoles (map normDN groups) (map (\<lambda>m. m\<lparr>gm_Group := normDN (gm_Group m)\<rparr>) ms) o'" for o'
    unfolding matchingRoles_def by (induction ms) auto
  then show ?thesis by (simp add: resolveLDAPGroupMappings_def resolveGroupMappings_def Let_def)
qed


text \<open>Groups never make an administrator. Whatever fails on the way, a login changes the record only of the user
  who logs in: in an organization a mapping names it is cleared, or becomes the role of a mapping that
  matches one of the user's groups and does not carry \<open>admin\<close>; elsewhere only the default role is given,
  in the default organization, to one who was no member and matches no mapping.\<close>

theorem login_grants_only_mapped:
  assumes "groupLaws L" "orgNames env" "ms_store (ln_Members st) = Some s" "\<forall>ss. li_provisionable env ss = (''admin'' \<notin> set ss)"
    and "reconcileManagedMemberships env user (resolveGroupMappings L groups mappings) dflt st = (e, st')"
    and "roleOn (ln_Members st') org u \<noteq> roleOn (ln_Members st) org u"
  shows "u = user \<and>
    ((\<exists>m \<in> set mappings. li_getByName env (gm_Organization m) = Some org \<and>
        (roleOn (ln_Members st') org u = None
         \<or> gm_Group m \<in> set groups \<and> (\<exists>t. templateByName (gm_Role m) s = Some t \<and> roleOn (ln_Members st') org u = Some (Some (rt_ID t))
              \<and> ''admin'' \<notin> set (rt_Scopes t))))
     \<or> (\<exists>n. li_default env = Some (org, n) \<and> n \<notin> gm_Organization ` set mappings \<and> (\<forall>m \<in> set mappings. gm_Group m \<notin> set groups)
          \<and> li_member env org user \<noteq> IdOk \<and> roleOn (ln_Members st') org u = Some (templateIDByName dflt s)))"
proof -
  obtain desired managed allMatching where r: "resolveGroupMappings L groups mappings = (desired, managed, allMatching)" by (metis prod_cases3)
  note g = grouped_mapped[OF assms(1) r]
  obtain e1 st1 where m1: "manageOrgs env user desired allMatching managed st = (e1, st1)" by fastforce
  have st': "st' = st1 \<or> desired = [] \<and> fallbackRole env user managed dflt st1 = (e, st')"
    using assms(5) r m1 by (auto simp: reconcileManagedMemberships_def split: prod.splits option.splits if_splits)
  note eff = manageOrgs_effect[OF m1 assms(3) g(2) assms(2)]
  obtain s1 where s1: "ms_store (ln_Members st1) = Some s1" "st_Templates s1 = st_Templates s" using eff(1) by auto
  show ?thesis
  proof (cases "roleOn (ln_Members st') org u = roleOn (ln_Members st1) org u")
    case False
    then have d: "desired = []" "fallbackRole env user managed dflt st1 = (e, st')" using st' by auto
    have "templateIDByName dflt s1 = templateIDByName dflt s" using s1(2) by (simp add: templateIDByName_def templateByName_def)
    then show ?thesis using fallback_effect[OF d(2) s1(1) False] g(3) g(5)[OF d(1)] by auto
  next
    case True
    then have ch: "roleOn (ln_Members st1) org u \<noteq> roleOn (ln_Members st) org u" using assms(6) by simp
    then obtain o' where o': "u = user" "o' \<in> set managed" "li_getByName env o' = Some org" using eff(2) by metis
    then have w: "roleOn (ln_Members st1) org user = groupedRole env (ln_Members st) desired allMatching o' org user" using eff(3) ch by metis
    show ?thesis
    proof (cases "oget o' desired")
      case None
      then have "roleOn (ln_Members st1) org user = None" using w ch o'(1) by (auto simp: groupedRole_def split: if_splits)
      then show ?thesis using o' g(3) True by auto
    next
      case (Some role)
      obtain m where m: "m \<in> set mappings" "gm_Group m \<in> set groups" "gm_Organization m = o'" "gm_Role m = role" using g(4)[OF Some] by auto
      have am: "role \<in> set (if allMatching o' = [] then [role] else allMatching o')"
        using r m by (auto simp: resolveGroupMappings_def matchingRoles_def split: prod.splits)
      have ng: "\<not> list_ex (guardProvisionableRole env (ln_Members st)) (if allMatching o' = [] then [role] else allMatching o')"
        and w': "roleOn (ln_Members st1) org user = Some (templateIDByName role s)"
        using w ch o'(1) Some assms(3) by (auto simp: groupedRole_def split: if_splits)
      then have "\<not> guardProvisionableRole env (ln_Members st) role" using am by (auto simp: list_ex_iff)
      moreover obtain t where t: "templateByName role s = Some t" using eff(4)[OF o'(2,3) Some] ch o'(1)
        by (cases "templateByName role s") (auto simp: templateIDByName_def)
      ultimately have "''admin'' \<notin> set (rt_Scopes t)" using assms(3,4) by (simp add: guardProvisionableRole_def split: if_splits)
      then show ?thesis using m t w' True o' by (auto simp: templateIDByName_def)
    qed
  qed
qed

section \<open>A concrete login\<close>









end
