(* ===== verification/Spec2Isabelle.thy ===== *)
theory Spec2Isabelle
  imports StateTransfer DriftPlan RoleMembers DriftSystem Firing KeyAuthority Gates LocalStates Freshness AdminAuthority StateSync Overview Exports Retention Election SignOn
begin

text \<open>
  A model of the backend of Terraform State Manager (\<open>src/backend\<close>, Go): a server that reads Terraform
  state from many backends, edits and moves it under locks, has CI pipelines plan against it to find
  drift, and decides who may do any of this in which organization.

  How the parts interact. A handler resolves the caller's tenant scope (\<open>Tenancy\<close>), finds the source of
  a state, takes the lock of its key (\<open>Locks\<close>, through the contract of \<open>LockService\<close>), backs the
  state up, changes it (\<open>Analyzer\<close>, \<open>StateOps\<close>) and releases (\<open>EditPlane\<close>); a transfer does so for two keys
  (\<open>StateTransfer\<close>). A drift run is dispatched to CI with a callback token (\<open>DriftDispatch\<close>, through the
  connections and credentials of \<open>Connections\<close>, sealed as in \<open>Secrets\<close>), by hand or by the scheduler
  (\<open>Scheduler\<close>); the job reports back under that token (\<open>DriftCallback\<close>, its plan read by \<open>DriftPlan\<close>),
  which moves the run (\<open>DriftRuns\<close>) and the findings (\<open>DriftRecords\<close>). Roles are kept in two stores that are
  reconciled (\<open>AppRoles\<close>) and written together (\<open>RoleMembers\<close>). Before any of this a request is let
  in by a session or an API key (\<open>Access\<close>, \<open>ApiKeys\<close>); an administrator's change of a user or a member
  (\<open>AdminPlane\<close>) goes through \<open>RoleMembers\<close> and sweeps the credentials that carried the authority
  (\<open>CredSweep\<close>). In the background the states of every source (\<open>Sources\<close>) are kept analyzed (\<open>StateSync\<close>)
  for the overviews (\<open>Analyses\<close>). A login turns the groups an identity provider vouches for into roles
  (\<open>SignOn\<close>), by mappings that are stored once and mirrored (\<open>GroupMappings\<close>).

  Theories, in the order they build on each other.

  \<open>Prelude\<close>: Go strings as lists of bytes with the functions of package \<open>strings\<close>, Go maps as key-sorted
  association lists, 64-bit integers and their decimal text. \<open>Json\<close>: decoded JSON documents.
  \<open>LockService\<close>: the locale of a lock service and its clients, interpreted on the lock table.

  \<open>Analyzer\<close> (\<open>internal/analyzer\<close>): decoding, folding of pre-v4 states, counting. \<open>StateOps\<close>
  (\<open>internal/stateops\<close>): addresses, removal and moving of resources and instances. \<open>DriftPlan\<close>
  (\<open>services/driftingest\<close>): the masked and bounded summary of a plan and its module provenance.

  \<open>Locks\<close> (\<open>lock_repository.go\<close>): the table of rows, each SQL statement a function of the rows and the
  clock; sessions interleave statement by statement in an inductive relation. \<open>EditPlane\<close> (\<open>api/edit.go\<close>,
  \<open>state_edit_repository.go\<close>) and \<open>StateTransfer\<close> (\<open>api/transfer.go\<close>): a handler is a function of the
  answers it gets from the backend and the database; it returns its response, the trace of the calls that
  change a backend, and the tables.

  \<open>AppRoles\<close>, \<open>RoleMembers\<close> (\<open>internal/approles\<close>): the application's record of roles, its drift from the
  identity store, the reconcile, every membership write and every read of a role.

  \<open>Tenancy\<close> (\<open>internal/tenancy\<close>, \<open>internal/tenantscope\<close>, \<open>callback_authority.go\<close>): scopes and how a scoped
  read or write follows from its unscoped twin, as two locales interpreted on every scoped repository.
  \<open>DriftRecords\<close>, \<open>DriftRuns\<close>, \<open>DriftCallback\<close>, \<open>DriftSystem\<close>: the repositories, the callback and the
  interleaving of dispatches, callbacks, reconciler and retention.

  \<open>Secrets\<close> (\<open>internal/crypto\<close>), \<open>Connections\<close> and \<open>Credentials\<close> (\<open>pipeline_repository.go\<close>,
  \<open>ci_source_repository.go\<close>, \<open>api/ci_sources.go\<close>, the connection handlers of \<open>api/drift.go\<close>),
  \<open>DriftDispatch\<close> (\<open>api/validate.go\<close>, the dispatch half of \<open>api/drift.go\<close>, \<open>internal/pipelines\<close>),
  \<open>Scheduler\<close> and \<open>Firing\<close> (\<open>services/scheduler\<close>, \<open>schedule_repository.go\<close>, \<open>api/schedules.go\<close>).

  \<open>Access\<close> (\<open>internal/auth\<close>, \<open>middleware/auth.go\<close>, \<open>csrf.go\<close>, \<open>rbac.go\<close>, \<open>tenantscope.go\<close>): from the headers of
  a request to the user, scopes and tenant scope it runs with. \<open>ApiKeys\<close> (\<open>api/apikeys.go\<close>) and
  \<open>KeyAuthority\<close>: the handlers of keys and what a key can do. \<open>Gates\<close> (\<open>middleware/loginratelimit.go\<close>,
  \<open>setup.go\<close>, \<open>suite.go\<close>). \<open>CredSweep\<close> (\<open>internal/credlifecycle\<close>, \<open>user_token_revocation_repository.go\<close>),
  \<open>AdminPlane\<close> and \<open>AdminAuthority\<close> (\<open>api/admin_write.go\<close>, \<open>admin_org_scope.go\<close>, \<open>role_ceiling.go\<close>).
  \<open>LocalStates\<close> (\<open>statesource/roots.go\<close>, \<open>local.go\<close>), \<open>Sources\<close> (\<open>source_repository.go\<close>, \<open>api/sources.go\<close>,
  \<open>state_module_ref_repository.go\<close>), \<open>Freshness\<close> (\<open>internal/version\<close>, \<open>api/module_freshness.go\<close>),
  \<open>Analyses\<close> (\<open>state_analysis_repository.go\<close> and its scoped half) and \<open>StateSync\<close> (\<open>services/statesync\<close>).
  \<open>Reports\<close> and \<open>Exports\<close> (\<open>api/reports.go\<close>, \<open>internal/reporting\<close>), \<open>Overview\<close> (\<open>api/dashboard.go\<close>): what is shown
  of the analyses. \<open>Retention\<close> (\<open>internal/legalhold\<close>, \<open>api/legal_holds.go\<close>, \<open>services/auditretention\<close>):
  holds and the sweepers the server starts, interleaved batch by batch. \<open>Election\<close> (\<open>services/leaderelect\<close>): the
  loop of one replica; nothing is said about several, the lock and its sessions being the database's.
  \<open>GroupMappings\<close> (\<open>sso_settings_repository.go\<close>, \<open>group_mapping_mirror.go\<close>, \<open>group_mapping_reconcile.go\<close>,
  \<open>group_mapping_drift.go\<close>, \<open>api/sso_admin.go\<close>): the stored list, its mirror, and what brings the mirror back to
  it. \<open>SignOn\<close> (\<open>api/auth.go\<close>, \<open>group_mapping_guard.go\<close>, the resolvers of \<open>auth/ldap\<close> and \<open>auth/saml\<close>): the memberships
  a login leaves, with the writes of \<open>RoleMembers\<close>.

  Conventions. A table is the list of its rows, a statement a function on it that checks the unique
  indexes the code relies on; a statement that may fail takes the failure as an argument (a predicate on
  the statements), and so do drawn ids, nonces and the clock, so every fault the code handles is a branch.
  A nullable column is an option. Code outside the repository is a parameter with its documented laws as
  named hypotheses: AES-GCM (\<open>gcmLaws\<close>), the cron library, the shared identity module (scope implication
  and key digests as \<open>idAuthLib\<close>, its key table as \<open>keyLib\<close> with \<open>keyLaws\<close> and \<open>sweepLaws\<close>, its tenancy
  resolver as \<open>tenantLib\<close> with \<open>resolverLaws\<close>, its audit table as \<open>auditLib\<close> with \<open>auditLaws\<close>, its resolver of
  group mappings as \<open>groupLib\<close> with \<open>groupLaws\<close>), the UUID parser (\<open>uuidForms\<close>: the forms of text it documents), the
  semantic-version library, the CI providers, the state backends. That a backend never gives a state a marker
  it had before is a hypothesis, on the row in question, of what is said of unread states, not of the model.
  Loops are structural recursion on what they traverse; the paged scan of memberships and the
  walk up a path carry a measure. Nothing here uses fuel.

  What the lemmas show: functional exactness (counts, drift merges, validation, keyword schedules),
  invariants of the tables under any interleaving (one lock holder, a heartbeat that outlives the reaper,
  one live finding, one end of a run, one claim of a firing but for next runs written late), isolation of
  organizations, order of effects (backup before change, sweep before authority is narrowed, mirror before
  identity), bounds of authority (what a key, a role or a session can carry, and that it ends when the
  authority behind it does), round trips (undo of an edit, sealed secrets, minted keys, submitted
  credentials), equivalence of incremental with full analysis and of a mirror with its source, confinement
  of files, termination, and error behaviour (a panic, stranded runs, failing writes).

  Not modelled: \<open>PROJECT.json\<close> lists every part with its reason. In short: SQL, HTTP and JSON lexing, the
  connectors' network calls, background goroutines other than those named, metrics, logging, and the
  administrative surfaces (the protocols of sign-on, SCIM, notifications, health runs, configuration, setup).
\<close>

end
